(* ===== verification/Prelude.thy ===== *)
theory Prelude
  imports Main "HOL-Library.Word"
begin

text \<open>
  The vocabulary every component theory shares.

  \<^item> Machine integers keep their width: \<open>u8\<close>, \<open>u16\<close>, \<open>u32\<close>, \<open>u64\<close> are words, so \<open>+\<close> and \<open>-\<close>
    wrap as Rust's \<open>wrapping_*\<close> operations do; \<open>i32\<close> and \<open>i64\<close> are the same bit patterns,
    read with \<open>sint\<close>. A \<open>usize\<close> is a \<open>nat\<close>; \<open>usize_add\<close> is \<open>checked_add\<close> on a 64-bit target.
  \<^item> \<open>Result<T, E>\<close> is \<open>'e + 'a\<close>, with \<open>Inl\<close> for the error; \<open>bindE\<close> is the \<open>?\<close> operator.
  \<^item> A method with \<open>&mut self\<close> that can fail is a function \<open>'s \<Rightarrow> ('e + 'a) \<times> 's\<close>: the state is
    returned on the error path as well, so a partial update before an error stays visible.
    \<open>bindS\<close> is \<open>?\<close> followed by the rest of the method.
  \<^item> Big-endian encodings of words and the lemmas that make them a two-sided codec.
\<close>

section \<open>Machine integers and byte strings\<close>

type_synonym u8 = "8 word"
type_synonym u16 = "16 word"
type_synonym u32 = "32 word"
type_synonym u64 = "64 word"
type_synonym i32 = "32 word"
type_synonym i64 = "64 word"
type_synonym bytes = "u8 list"

definition usize_limit :: nat where
  "usize_limit = 2 ^ 64"

text \<open>\<open>usize::checked_add\<close>: \<open>None\<close> when the sum does not fit 64 bits.\<close>

definition usize_add :: "nat \<Rightarrow> nat \<Rightarrow> nat option" where
  "usize_add a b = (if a + b < usize_limit then Some (a + b) else None)"

text \<open>\<open>u64::checked_add\<close>: \<open>None\<close> on overflow.\<close>

definition u64_checked_add :: "u64 \<Rightarrow> u64 \<Rightarrow> u64 option" where
  "u64_checked_add a b = (if unat a + unat b < 2 ^ 64 then Some (a + b) else None)"

definition u32_checked_add :: "u32 \<Rightarrow> u32 \<Rightarrow> u32 option" where
  "u32_checked_add a b = (if unat a + unat b < 2 ^ 32 then Some (a + b) else None)"

definition u64_saturating_sub :: "u64 \<Rightarrow> u64 \<Rightarrow> u64" where
  "u64_saturating_sub a b = (if a < b then 0 else a - b)"

text \<open>
  The length bound Rust guarantees for every slice and vector (\<open>isize::MAX\<close>). It is a fact about
  the values of a Rust program, stated where a lemma needs it.
\<close>

definition slice_ok :: "'a list \<Rightarrow> bool" where
  "slice_ok xs \<longleftrightarrow> length xs < 2 ^ 63"

lemma usize_add_Some [simp]: "usize_add a b = Some c \<longleftrightarrow> c = a + b \<and> a + b < usize_limit"
  by (auto simp: usize_add_def)

lemma usize_add_None [simp]: "usize_add a b = None \<longleftrightarrow> usize_limit \<le> a + b"
  by (auto simp: usize_add_def)

lemma u64_checked_add_Some:
  "u64_checked_add a b = Some c \<longleftrightarrow> unat a + unat b < 2 ^ 64 \<and> c = a + b"
  by (auto simp: u64_checked_add_def)

lemma u64_checked_add_unat: "u64_checked_add a b = Some c \<Longrightarrow> unat c = unat a + unat b"
  by (auto simp: u64_checked_add_def unat_word_ariths split: if_splits)

lemma u64_checked_add_ge: "u64_checked_add a b = Some c \<Longrightarrow> a \<le> c"
  using u64_checked_add_unat [of a b c] by (simp add: word_le_nat_alt)

lemma u64_small: "n < 2 ^ 63 \<Longrightarrow> unat (of_nat n :: u64) = n"
  by (rule of_nat_inverse [OF refl]) simp

lemma u32_checked_add_unat: "u32_checked_add a b = Some c \<Longrightarrow> unat c = unat a + unat b"
  by (auto simp: u32_checked_add_def unat_word_ariths split: if_splits)

section \<open>Results and fallible state updates\<close>

named_theorems result_simps \<open>unfolding of the result and state-passing combinators\<close>

definition bindE :: "'e + 'a \<Rightarrow> ('a \<Rightarrow> 'e + 'b) \<Rightarrow> 'e + 'b" where
  "bindE r f = (case r of Inl e \<Rightarrow> Inl e | Inr a \<Rightarrow> f a)"

definition map_err :: "('e \<Rightarrow> 'f) \<Rightarrow> 'e + 'a \<Rightarrow> 'f + 'a" where
  "map_err g r = (case r of Inl e \<Rightarrow> Inl (g e) | Inr a \<Rightarrow> Inr a)"

definition ok_or :: "'e \<Rightarrow> 'a option \<Rightarrow> 'e + 'a" where
  "ok_or e x = (case x of None \<Rightarrow> Inl e | Some a \<Rightarrow> Inr a)"

definition guardE :: "bool \<Rightarrow> 'e \<Rightarrow> 'e + unit" where
  "guardE c e = (if c then Inr () else Inl e)"

definition is_ok :: "'e + 'a \<Rightarrow> bool" where
  "is_ok r = (case r of Inl _ \<Rightarrow> False | Inr _ \<Rightarrow> True)"

lemma bindE_simps [simp]: "bindE (Inl e) f = Inl e" "bindE (Inr a) f = f a"
  by (simp_all add: bindE_def)

lemma bindE_Inr: "bindE r f = Inr b \<longleftrightarrow> (\<exists>a. r = Inr a \<and> f a = Inr b)"
  by (cases r) auto

lemma bindE_Inl: "bindE r f = Inl e \<longleftrightarrow> r = Inl e \<or> (\<exists>a. r = Inr a \<and> f a = Inl e)"
  by (cases r) auto

lemma map_err_simps [simp]: "map_err g (Inl e) = Inl (g e)" "map_err g (Inr a) = Inr a"
  by (simp_all add: map_err_def)

lemma map_err_Inr: "map_err g r = Inr a \<longleftrightarrow> r = Inr a"
  by (cases r) auto

lemma ok_or_simps [simp]: "ok_or e None = Inl e" "ok_or e (Some a) = Inr a"
  by (simp_all add: ok_or_def)

lemma ok_or_Inr: "ok_or e x = Inr a \<longleftrightarrow> x = Some a"
  by (cases x) auto

lemma guardE_Inr: "guardE c e = Inr u \<longleftrightarrow> c"
  by (simp add: guardE_def)

lemma guardE_simps [simp]: "guardE True e = Inr ()" "guardE False e = Inl e"
  by (simp_all add: guardE_def)

lemma is_ok_simps [simp]: "is_ok (Inl e) = False" "is_ok (Inr a) = True"
  by (simp_all add: is_ok_def)

lemmas resultE = bindE_Inr map_err_Inr ok_or_Inr guardE_Inr

lemma if_Inl_Inr: "(if c then Inl e else r) = Inr a \<longleftrightarrow> \<not> c \<and> r = Inr a"
  by simp

lemma of_nat_unat_id: "of_nat (unat (w :: 'a::len word)) = w"
  by simp

text \<open>\<open>collect\<close> into a \<open>Result\<close>: the first error, in order.\<close>

fun collect_results :: "('e + 'a) list \<Rightarrow> 'e + 'a list" where
  "collect_results [] = Inr []"
| "collect_results (r # rs) = bindE r (\<lambda>a. bindE (collect_results rs) (\<lambda>as. Inr (a # as)))"

lemma collect_results_Inr: "collect_results rs = Inr as \<longleftrightarrow> rs = map Inr as"
  by (induction rs arbitrary: as) (auto simp: bindE_Inr Cons_eq_map_conv)

type_synonym ('s, 'e, 'a) op = "'s \<Rightarrow> ('e + 'a) \<times> 's"

definition retS :: "'a \<Rightarrow> ('s, 'e, 'a) op" where
  [result_simps]: "retS a = (\<lambda>s. (Inr a, s))"

definition failS :: "'e \<Rightarrow> ('s, 'e, 'a) op" where
  [result_simps]: "failS e = (\<lambda>s. (Inl e, s))"

definition liftS :: "'e + 'a \<Rightarrow> ('s, 'e, 'a) op" where
  [result_simps]: "liftS r = (\<lambda>s. (r, s))"

definition bindS :: "('s, 'e, 'a) op \<Rightarrow> ('a \<Rightarrow> ('s, 'e, 'b) op) \<Rightarrow> ('s, 'e, 'b) op" where
  "bindS m f = (\<lambda>s. case m s of (Inl e, s') \<Rightarrow> (Inl e, s') | (Inr a, s') \<Rightarrow> f a s')"

text \<open>The error conversion of \<open>?\<close> (\<open>From\<close> between error types), on a stateful call.\<close>

definition map_errS :: "('e \<Rightarrow> 'f) \<Rightarrow> ('s, 'e, 'a) op \<Rightarrow> ('s, 'f, 'a) op" where
  "map_errS g m = (\<lambda>s. case m s of (r, s') \<Rightarrow> (map_err g r, s'))"

lemma bindS_Inr: "bindS m f s = (Inr b, t) \<longleftrightarrow> (\<exists>a s'. m s = (Inr a, s') \<and> f a s' = (Inr b, t))"
  by (auto simp: bindS_def split: prod.splits sum.splits)

lemma bindS_ok: "m s = (Inr a, s') \<Longrightarrow> bindS m f s = f a s'"
  by (simp add: bindS_def)

lemma bindS_err: "m s = (Inl e, s') \<Longrightarrow> bindS m f s = (Inl e, s')"
  by (simp add: bindS_def)

lemma bindS_cases:
  assumes "bindS m f s = (r, t)"
  obtains (err) e where "m s = (Inl e, t)" "r = Inl e"
    | (ok) a s' where "m s = (Inr a, s')" "f a s' = (r, t)"
  using assms by (auto simp: bindS_def split: prod.splits sum.splits)

lemma map_errS_Inr: "map_errS g m s = (Inr a, t) \<longleftrightarrow> m s = (Inr a, t)"
  by (auto simp: map_errS_def map_err_Inr split: prod.splits)

lemma map_errS_ok: "m s = (Inr a, t) \<Longrightarrow> map_errS g m s = (Inr a, t)"
  by (simp add: map_errS_def)

lemma map_errS_snd: "snd (map_errS g m s) = snd (m s)"
  by (simp add: map_errS_def split: prod.splits)

text \<open>
  A predicate every exit of a stateful call keeps, errors included: what a structure's invariant
  needs, since a caller may go on using it after an error.
\<close>

definition keeps :: "('s \<Rightarrow> 's \<Rightarrow> bool) \<Rightarrow> ('s, 'e, 'a) op \<Rightarrow> bool" where
  "keeps R m \<longleftrightarrow> (\<forall>s. R s (snd (m s)))"

lemma keeps_ret: "reflp R \<Longrightarrow> keeps R (retS a)"
  by (simp add: keeps_def retS_def reflp_def)

lemma keeps_fail: "reflp R \<Longrightarrow> keeps R (failS e)"
  by (simp add: keeps_def failS_def reflp_def)

lemma keeps_lift: "reflp R \<Longrightarrow> keeps R (liftS r)"
  by (simp add: keeps_def liftS_def reflp_def)

lemma keeps_bind:
  assumes "transp R" and m: "keeps R m" and f: "\<And>a. keeps R (f a)"
  shows "keeps R (bindS m f)"
  unfolding keeps_def
proof
  fix s
  obtain r s' where ms: "m s = (r, s')" by (cases "m s")
  with m have R1: "R s s'" by (metis keeps_def snd_conv)
  show "R s (snd (bindS m f s))"
  proof (cases r)
    case (Inl e)
    with ms R1 show ?thesis by (simp add: bindS_def)
  next
    case (Inr a)
    with f have "R s' (snd (f a s'))" by (simp add: keeps_def)
    with \<open>transp R\<close> R1 have "R s (snd (f a s'))" by (rule transpD)
    with ms Inr show ?thesis by (simp add: bindS_def)
  qed
qed

lemma keeps_map_errS: "keeps R m \<Longrightarrow> keeps R (map_errS g m)"
  by (simp add: keeps_def map_errS_snd)

lemma keepsD: "keeps R m \<Longrightarrow> m s = (r, t) \<Longrightarrow> R s t"
  by (metis keeps_def snd_conv)

section \<open>Big-endian encodings\<close>

fun nat_be :: "nat \<Rightarrow> nat \<Rightarrow> bytes" where
  "nat_be 0 v = []"
| "nat_be (Suc n) v = nat_be n (v div 256) @ [of_nat (v mod 256)]"

text \<open>Evaluation on numerals, for concrete inputs only.\<close>

lemma nat_be_numeral:
  "nat_be (numeral k) v = nat_be (pred_numeral k) (v div 256) @ [of_nat (v mod 256)]"
  unfolding numeral_eq_Suc nat_be.simps ..

definition be_nat :: "bytes \<Rightarrow> nat" where
  "be_nat bs = foldl (\<lambda>acc b. acc * 256 + unat b) 0 bs"

text \<open>\<open>to_be_bytes\<close> and \<open>from_be_bytes\<close> for a word of \<open>n\<close> bytes.\<close>

definition to_be :: "nat \<Rightarrow> 'a::len word \<Rightarrow> bytes" where
  "to_be n w = nat_be n (unat w)"

definition from_be :: "bytes \<Rightarrow> 'a::len word" where
  "from_be bs = of_nat (be_nat bs)"

lemma length_nat_be [simp]: "length (nat_be n v) = n"
  by (induction n arbitrary: v) auto

lemma length_to_be [simp]: "length (to_be n w) = n"
  by (simp add: to_be_def)

lemma be_nat_Nil [simp]: "be_nat [] = 0"
  by (simp add: be_nat_def)

lemma be_nat_snoc [simp]: "be_nat (bs @ [b]) = be_nat bs * 256 + unat b"
  by (simp add: be_nat_def)

lemma unat_u8_less [simp]: "unat (b :: u8) < 256"
  using unsigned_less [of b, where 'a = nat] by simp

lemma be_nat_less: "be_nat bs < 256 ^ length bs"
proof (induction bs rule: rev_induct)
  case Nil
  show ?case by simp
next
  case (snoc b bs)
  have "be_nat bs * 256 + unat b < (be_nat bs + 1) * 256"
    using unat_u8_less [of b] by simp
  also have "\<dots> \<le> 256 ^ length bs * 256"
    using snoc by (intro mult_le_mono1) simp
  finally show ?case by simp
qed

lemma be_nat_nat_be: "be_nat (nat_be n v) = v mod 256 ^ n"
proof (induction n arbitrary: v)
  case 0
  show ?case by simp
next
  case (Suc n)
  have "unat (of_nat (v mod 256) :: u8) = v mod 256"
    by (simp add: unat_of_nat)
  with Suc show ?case
    by (simp add: mod_mult2_eq)
qed

lemma nat_be_be_nat: "nat_be (length bs) (be_nat bs) = bs"
proof (induction bs rule: rev_induct)
  case Nil
  show ?case by simp
next
  case (snoc b bs)
  have "(be_nat bs * 256 + unat b) div 256 = be_nat bs"
    and "(be_nat bs * 256 + unat b) mod 256 = unat b"
    using unat_u8_less [of b] by simp_all
  with snoc show ?case by simp
qed

lemma be_nat_append: "be_nat (xs @ ys) = be_nat xs * 256 ^ length ys + be_nat ys"
proof (induction ys rule: rev_induct)
  case Nil
  show ?case by simp
next
  case (snoc y ys)
  have "be_nat (xs @ ys @ [y]) = be_nat (xs @ ys) * 256 + unat y"
    using be_nat_snoc [of "xs @ ys" y] by simp
  with snoc show ?case by (simp add: algebra_simps)
qed

lemma nat_be_add: "nat_be (m + n) v = nat_be m (v div 256 ^ n) @ nat_be n v"
  by (induction n arbitrary: v) (simp_all add: div_mult2_eq)

lemma nat_be_mod: "nat_be n (v mod 256 ^ n) = nat_be n v"
  by (metis be_nat_nat_be length_nat_be nat_be_be_nat)

lemma from_be_to_be:
  assumes "LENGTH('a::len) = 8 * n"
  shows "(from_be (to_be n w) :: 'a word) = w"
proof -
  have "(256::nat) ^ n = 2 ^ LENGTH('a)"
    unfolding assms power_mult by simp
  then have "unat w < 256 ^ n"
    using unsigned_less [of w, where 'a = nat] by simp
  then show ?thesis
    by (simp add: from_be_def to_be_def be_nat_nat_be)
qed

lemma unat_from_be:
  assumes "LENGTH('a::len) = 8 * length bs"
  shows "unat (from_be bs :: 'a word) = be_nat bs"
proof -
  have "(256::nat) ^ length bs = 2 ^ LENGTH('a)"
    unfolding assms power_mult by simp
  with be_nat_less [of bs] show ?thesis
    by (simp add: from_be_def unat_of_nat)
qed

lemma to_be_from_be:
  assumes "LENGTH('a::len) = 8 * length bs"
  shows "to_be (length bs) (from_be bs :: 'a word) = bs"
  by (simp add: to_be_def unat_from_be [OF assms] nat_be_be_nat)

lemma from_be_u16 [simp]: "from_be (to_be 2 w) = (w :: u16)"
  by (rule from_be_to_be) simp

lemma from_be_u32 [simp]: "from_be (to_be 4 w) = (w :: u32)"
  by (rule from_be_to_be) simp

lemma from_be_u64 [simp]: "from_be (to_be 8 w) = (w :: u64)"
  by (rule from_be_to_be) simp

lemma to_be_u16: "length bs = 2 \<Longrightarrow> to_be 2 (from_be bs :: u16) = bs"
  using to_be_from_be [where 'a = 16, of bs] by simp

lemma to_be_u32: "length bs = 4 \<Longrightarrow> to_be 4 (from_be bs :: u32) = bs"
  using to_be_from_be [where 'a = 32, of bs] by simp

lemma to_be_u64: "length bs = 8 \<Longrightarrow> to_be 8 (from_be bs :: u64) = bs"
  using to_be_from_be [where 'a = 64, of bs] by simp

lemma to_be_u8: "to_be 1 (w :: u8) = [w]"
proof -
  have "unat w mod 256 = unat w"
    using unat_u8_less [of w] by (rule mod_less)
  then show ?thesis
    unfolding to_be_def One_nat_def nat_be.simps by simp
qed

lemma to_be_inj:
  assumes "LENGTH('a::len) = 8 * n" and "to_be n (v :: 'a word) = to_be n w"
  shows "v = w"
  using assms from_be_to_be by metis

lemma to_be_u32_eq [simp]: "to_be 4 v = to_be 4 w \<longleftrightarrow> v = (w :: u32)"
  by (metis from_be_u32)

lemma unat_drop_bit: "unat (drop_bit n (w :: 'a::len word)) = unat w div 2 ^ n"
  by (subst unat_drop_bit_eq) (rule drop_bit_eq_div)

section \<open>Lists\<close>

lemma take_append_exact [simp]: "length xs = n \<Longrightarrow> take n (xs @ ys) = xs"
  by simp

lemma drop_append_exact [simp]: "length xs = n \<Longrightarrow> drop n (xs @ ys) = ys"
  by simp

lemma split_at: "n \<le> length xs \<Longrightarrow> \<exists>ys zs. xs = ys @ zs \<and> length ys = n"
  by (metis append_take_drop_id length_take min.absorb2)

lemma split_middle: "p \<le> e \<Longrightarrow> xs = take p xs @ drop p (take e xs) @ drop e xs"
proof -
  assume "p \<le> e"
  then have "take p xs @ drop p (take e xs) = take e xs"
    using append_take_drop_id [of p "take e xs"] by (simp add: min.absorb1)
  then show ?thesis
    by (metis append.assoc append_take_drop_id)
qed

section \<open>Components as machines\<close>

text \<open>
  The contract several components share: a state, a set of operations, and a predicate every
  operation keeps. What a caller can rely on after any sequence of calls is then one lemma.
\<close>

locale machine =
  fixes step :: "'s \<Rightarrow> 'o \<Rightarrow> 's"
    and inv :: "'s \<Rightarrow> bool"
  assumes step_inv: "inv s \<Longrightarrow> inv (step s x)"
begin

lemma run_inv: "inv s \<Longrightarrow> inv (foldl step s xs)"
  by (induction xs arbitrary: s) (auto intro: step_inv)

lemma every_prefix_inv: "inv s \<Longrightarrow> inv (foldl step s (take n xs))"
  by (rule run_inv)

end

text \<open>
  A machine whose steps are also ordered: a preorder relates each state to the one after it, so it
  relates the start of a run to its end.
\<close>

locale monotone_machine = machine +
  fixes le :: "'s \<Rightarrow> 's \<Rightarrow> bool"
  assumes le_refl: "le s s"
    and le_trans: "le s t \<Longrightarrow> le t u \<Longrightarrow> le s u"
    and step_le: "inv s \<Longrightarrow> le s (step s x)"
begin

lemma run_le: "inv s \<Longrightarrow> le s (foldl step s xs)"
proof (induction xs arbitrary: s)
  case Nil
  show ?case by (simp add: le_refl)
next
  case (Cons x xs)
  then have "le s (step s x)" and "le (step s x) (foldl step (step s x) xs)"
    by (simp_all add: step_le step_inv)
  then show ?case
    by (auto intro: le_trans)
qed

end

end
