(* ===== verification/Rust_Str.thy ===== *)
theory Rust_Str
  imports Prelude
begin

text \<open>
  Rust strings as far as the modelled code looks at them. A \<open>str\<close> is its UTF-8 bytes, so
  \<open>len\<close>, \<open>as_bytes\<close> and byte predicates are list functions; \<open>utf8_chars\<close> is the strict decoder
  behind \<open>str::from_utf8\<close> and \<open>chars\<close> (no overlong forms, no surrogates, nothing above U+10FFFF),
  and \<open>decimal\<close> is \<open>to_string\<close> of an unsigned integer.
\<close>

type_synonym rstr = bytes

section \<open>UTF-8\<close>

definition cont_byte :: "u8 \<Rightarrow> bool" where
  "cont_byte b \<longleftrightarrow> 0x80 \<le> unat b \<and> unat b \<le> 0xBF"

definition second_of_three :: "nat \<Rightarrow> u8 \<Rightarrow> bool" where
  "second_of_three x b \<longleftrightarrow> cont_byte b \<and> (x = 0xE0 \<longrightarrow> 0xA0 \<le> unat b) \<and> (x = 0xED \<longrightarrow> unat b \<le> 0x9F)"

definition second_of_four :: "nat \<Rightarrow> u8 \<Rightarrow> bool" where
  "second_of_four x b \<longleftrightarrow> cont_byte b \<and> (x = 0xF0 \<longrightarrow> 0x90 \<le> unat b) \<and> (x = 0xF4 \<longrightarrow> unat b \<le> 0x8F)"

fun utf8_chars :: "bytes \<Rightarrow> nat list option" where
  "utf8_chars [] = Some []"
| "utf8_chars (b # bs) =
     (let x = unat b in
      if x < 0x80 then map_option (\<lambda>cs. x # cs) (utf8_chars bs)
      else if 0xC2 \<le> x \<and> x \<le> 0xDF then
        (case bs of
           b1 # r \<Rightarrow>
             if cont_byte b1
             then map_option (\<lambda>cs. ((x - 0xC0) * 64 + (unat b1 - 0x80)) # cs) (utf8_chars r)
             else None
         | _ \<Rightarrow> None)
      else if 0xE0 \<le> x \<and> x \<le> 0xEF then
        (case bs of
           b1 # b2 # r \<Rightarrow>
             if second_of_three x b1 \<and> cont_byte b2
             then map_option (\<lambda>cs. ((x - 0xE0) * 4096 + (unat b1 - 0x80) * 64 + (unat b2 - 0x80)) # cs)
                    (utf8_chars r)
             else None
         | _ \<Rightarrow> None)
      else if 0xF0 \<le> x \<and> x \<le> 0xF4 then
        (case bs of
           b1 # b2 # b3 # r \<Rightarrow>
             if second_of_four x b1 \<and> cont_byte b2 \<and> cont_byte b3
             then map_option (\<lambda>cs. ((x - 0xF0) * 262144 + (unat b1 - 0x80) * 4096 +
                                    (unat b2 - 0x80) * 64 + (unat b3 - 0x80)) # cs) (utf8_chars r)
             else None
         | _ \<Rightarrow> None)
      else None)"

definition utf8_valid :: "bytes \<Rightarrow> bool" where
  "utf8_valid bs \<longleftrightarrow> utf8_chars bs \<noteq> None"

text \<open>\<open>core::str::from_utf8\<close>, with the caller's error for the rejected case.\<close>

definition from_utf8 :: "'e \<Rightarrow> bytes \<Rightarrow> 'e + rstr" where
  "from_utf8 e bs = (if utf8_valid bs then Inr bs else Inl e)"

definition chars :: "rstr \<Rightarrow> nat list" where
  "chars s = (case utf8_chars s of None \<Rightarrow> [] | Some cs \<Rightarrow> cs)"

text \<open>\<open>char::is_control\<close>: the Unicode category Cc.\<close>

definition is_control :: "nat \<Rightarrow> bool" where
  "is_control c \<longleftrightarrow> c < 0x20 \<or> (0x7F \<le> c \<and> c \<le> 0x9F)"

text \<open>\<open>u8::is_ascii_graphic\<close>, \<open>is_ascii_digit\<close>, \<open>is_ascii_hexdigit\<close>, \<open>is_ascii_lowercase\<close>.\<close>

definition is_ascii_graphic :: "u8 \<Rightarrow> bool" where
  "is_ascii_graphic b \<longleftrightarrow> 0x21 \<le> unat b \<and> unat b \<le> 0x7E"

definition is_ascii_digit :: "u8 \<Rightarrow> bool" where
  "is_ascii_digit b \<longleftrightarrow> 0x30 \<le> unat b \<and> unat b \<le> 0x39"

definition is_ascii_lowercase :: "u8 \<Rightarrow> bool" where
  "is_ascii_lowercase b \<longleftrightarrow> 0x61 \<le> unat b \<and> unat b \<le> 0x7A"

definition is_ascii_hexdigit :: "u8 \<Rightarrow> bool" where
  "is_ascii_hexdigit b \<longleftrightarrow> is_ascii_digit b \<or> (0x41 \<le> unat b \<and> unat b \<le> 0x46) \<or>
     (0x61 \<le> unat b \<and> unat b \<le> 0x66)"

lemma utf8_chars_ascii: "\<forall>b \<in> set bs. unat b < 0x80 \<Longrightarrow> utf8_chars bs = Some (map unat bs)"
  by (induction bs) (simp_all add: Let_def)

lemma utf8_valid_ascii: "\<forall>b \<in> set bs. unat b < 0x80 \<Longrightarrow> utf8_valid bs"
  by (simp add: utf8_valid_def utf8_chars_ascii)

lemma from_utf8_Inr: "from_utf8 e bs = Inr s \<longleftrightarrow> utf8_valid bs \<and> s = bs"
  by (auto simp: from_utf8_def)

section \<open>Decimal text\<close>

fun decimal :: "nat \<Rightarrow> bytes" where
  "decimal n = (if n < 10 then [of_nat (0x30 + n)] else decimal (n div 10) @ [of_nat (0x30 + n mod 10)])"

declare decimal.simps [simp del]

definition digits_value :: "bytes \<Rightarrow> nat" where
  "digits_value bs = foldl (\<lambda>acc b. acc * 10 + (unat b - 0x30)) 0 bs"

lemma digit_byte: "d < 10 \<Longrightarrow> unat (of_nat (0x30 + d) :: u8) = 0x30 + d"
  by (simp only: unat_of_nat) simp

lemma decimal_digits: "\<forall>b \<in> set (decimal n). is_ascii_digit b"
proof (induction n rule: decimal.induct)
  case (1 n)
  then show ?case
    using digit_byte [of n] digit_byte [of "n mod 10"]
    by (subst decimal.simps) (auto simp: is_ascii_digit_def simp del: of_nat_add)
qed

lemma decimal_nonempty [simp]: "decimal n \<noteq> []"
  by (subst decimal.simps) simp

lemma digits_value_decimal [simp]: "digits_value (decimal n) = n"
proof (induction n rule: decimal.induct)
  case (1 n)
  then show ?case
    using digit_byte [of n] digit_byte [of "n mod 10"]
    by (subst decimal.simps) (auto simp: digits_value_def simp del: of_nat_add)
qed

lemma decimal_inj: "decimal m = decimal n \<longleftrightarrow> m = n"
  by (metis digits_value_decimal)

lemma length_decimal: "n < 10 ^ Suc k \<Longrightarrow> length (decimal n) \<le> Suc k"
proof (induction k arbitrary: n)
  case 0
  then show ?case by (subst decimal.simps) simp
next
  case (Suc k)
  then have "n div 10 < 10 ^ Suc k" by simp
  with Suc.IH have "length (decimal (n div 10)) \<le> Suc k" by blast
  then show ?case by (subst decimal.simps) simp
qed

lemma length_decimal_u32: "length (decimal (unat (w :: u32))) \<le> 10"
proof -
  have "unat w < 10 ^ Suc 9"
    using unsigned_less [of w, where 'a = nat] by simp
  then show ?thesis
    using length_decimal [of "unat w" 9] by simp
qed

section \<open>Trimming, prefixes and parsing\<close>

text \<open>\<open>char::is_whitespace\<close>: the Unicode property White\_Space.\<close>

definition is_whitespace :: "nat \<Rightarrow> bool" where
  "is_whitespace c \<longleftrightarrow> (0x09 \<le> c \<and> c \<le> 0x0D) \<or> c = 0x20 \<or> c = 0x85 \<or> c = 0xA0 \<or> c = 0x1680 \<or>
     (0x2000 \<le> c \<and> c \<le> 0x200A) \<or> c = 0x2028 \<or> c = 0x2029 \<or> c = 0x202F \<or> c = 0x205F \<or> c = 0x3000"

text \<open>\<open>s.trim() == s\<close>: no white space at either end.\<close>

definition is_trimmed :: "rstr \<Rightarrow> bool" where
  "is_trimmed s \<longleftrightarrow>
     (case chars s of [] \<Rightarrow> True | c # cs \<Rightarrow> \<not> is_whitespace c \<and> \<not> is_whitespace (last (c # cs)))"

definition starts_with :: "rstr \<Rightarrow> rstr \<Rightarrow> bool" where
  "starts_with p s \<longleftrightarrow> take (length p) s = p"

definition ends_with :: "rstr \<Rightarrow> rstr \<Rightarrow> bool" where
  "ends_with p s \<longleftrightarrow> length p \<le> length s \<and> drop (length s - length p) s = p"

definition strip_prefix :: "rstr \<Rightarrow> rstr \<Rightarrow> rstr option" where
  "strip_prefix p s = (if starts_with p s then Some (drop (length p) s) else None)"

definition strip_suffix :: "rstr \<Rightarrow> rstr \<Rightarrow> rstr option" where
  "strip_suffix p s = (if ends_with p s then Some (take (length s - length p) s) else None)"

lemma strip_suffix_append [simp]: "strip_suffix p (s @ p) = Some s"
  by (simp add: strip_suffix_def ends_with_def)

lemma strip_prefix_append [simp]: "strip_prefix p (p @ s) = Some s"
  by (simp add: strip_prefix_def starts_with_def)

text \<open>\<open>str::parse::<u64>\<close>: an optional plus sign and decimal digits, within the range.\<close>

definition parse_u64 :: "rstr \<Rightarrow> u64 option" where
  "parse_u64 s =
     (let digits = (case s of [] \<Rightarrow> [] | b # bs \<Rightarrow> if b = 0x2B then bs else s) in
      if digits = [] \<or> \<not> list_all is_ascii_digit digits \<or> 2 ^ 64 \<le> digits_value digits then None
      else Some (of_nat (digits_value digits)))"

text \<open>ASCII literals of the source as bytes.\<close>

definition lit :: "string \<Rightarrow> rstr" where
  "lit s = map of_char s"

end
