(* ===== verification/Btree.thy ===== *)
theory Btree
  imports Prelude
begin

text \<open>
  \<open>BTreeMap\<close> and \<open>BTreeSet\<close> of the Rust standard library, as the association list a traversal in
  key order visits: the keys strictly increase, so iteration order, length and lookups are those of
  the list. \<open>ordered_map\<close> is the interface the components rely on.
\<close>

type_synonym ('k, 'v) btree_map = "('k \<times> 'v) list"

definition btree_ok :: "('k::linorder, 'v) btree_map \<Rightarrow> bool" where
  "btree_ok m \<longleftrightarrow> sorted_wrt (<) (map fst m)"

definition btree_get :: "('k, 'v) btree_map \<Rightarrow> 'k \<Rightarrow> 'v option" where
  "btree_get m k = map_of m k"

fun btree_insert :: "'k::linorder \<Rightarrow> 'v \<Rightarrow> ('k, 'v) btree_map \<Rightarrow> ('k, 'v) btree_map" where
  "btree_insert k v [] = [(k, v)]"
| "btree_insert k v ((k', v') # m) =
     (if k < k' then (k, v) # (k', v') # m
      else if k = k' then (k, v) # m
      else (k', v') # btree_insert k v m)"

definition btree_remove :: "'k \<Rightarrow> ('k, 'v) btree_map \<Rightarrow> ('k, 'v) btree_map" where
  "btree_remove k m = filter (\<lambda>(k', _). k' \<noteq> k) m"

definition btree_keys :: "('k, 'v) btree_map \<Rightarrow> 'k list" where
  "btree_keys m = map fst m"

text \<open>
  The interface of a finite map with ordered traversal. Its laws are those of an ideal map: a lookup
  sees the last insertion or removal of its key and nothing else.
\<close>

locale ordered_map =
  fixes empty :: "'m"
    and get :: "'m \<Rightarrow> 'k::linorder \<Rightarrow> 'v option"
    and insert_at :: "'k \<Rightarrow> 'v \<Rightarrow> 'm \<Rightarrow> 'm"
    and remove_at :: "'k \<Rightarrow> 'm \<Rightarrow> 'm"
    and keys :: "'m \<Rightarrow> 'k list"
    and inv :: "'m \<Rightarrow> bool"
  assumes inv_empty: "inv empty"
    and get_empty: "get empty k = None"
    and inv_insert: "inv m \<Longrightarrow> inv (insert_at k v m)"
    and get_insert: "inv m \<Longrightarrow> get (insert_at k v m) k' = (if k' = k then Some v else get m k')"
    and inv_remove: "inv m \<Longrightarrow> inv (remove_at k m)"
    and get_remove: "inv m \<Longrightarrow> get (remove_at k m) k' = (if k' = k then None else get m k')"
    and keys_get: "inv m \<Longrightarrow> k \<in> set (keys m) \<longleftrightarrow> get m k \<noteq> None"
    and keys_ordered: "inv m \<Longrightarrow> sorted_wrt (<) (keys m)"
begin

lemma keys_distinct: "inv m \<Longrightarrow> distinct (keys m)"
  using keys_ordered by (simp add: strict_sorted_iff)

lemma length_keys: "inv m \<Longrightarrow> length (keys m) = card {k. get m k \<noteq> None}"
proof -
  assume m: "inv m"
  then have "{k. get m k \<noteq> None} = set (keys m)" using keys_get by auto
  then show ?thesis using keys_distinct [OF m] by (simp add: distinct_card)
qed

lemma inv_inserts: "inv m \<Longrightarrow> inv (foldl (\<lambda>m (k, v). insert_at k v m) m kvs)"
  by (induction kvs arbitrary: m) (auto intro: inv_insert)

lemma get_inserts:
  "inv m \<Longrightarrow> distinct (map fst kvs) \<Longrightarrow>
   get (foldl (\<lambda>m (k, v). insert_at k v m) m kvs) k =
     (case map_of kvs k of None \<Rightarrow> get m k | Some v \<Rightarrow> Some v)"
proof (induction kvs arbitrary: m)
  case Nil
  then show ?case by simp
next
  case (Cons kv kvs)
  obtain k0 v0 where kv: "kv = (k0, v0)" by fastforce
  from Cons.prems kv have "map_of kvs k0 = None" by (simp add: map_of_eq_None_iff)
  with Cons kv show ?case
    by (auto simp: get_insert inv_insert split: option.splits)
qed

end

lemma btree_insert_keys: "set (map fst (btree_insert k v m)) = insert k (set (map fst m))"
  by (induction k v m rule: btree_insert.induct) auto

lemma btree_ok_insert: "btree_ok m \<Longrightarrow> btree_ok (btree_insert k v m)"
proof (induction k v m rule: btree_insert.induct)
  case (2 k v k' v' m)
  have "\<forall>x \<in> set (map fst (btree_insert k v m)). k' < x" if "\<not> k < k'" "k \<noteq> k'"
    using "2.prems" that unfolding btree_insert_keys by (auto simp: btree_ok_def)
  with 2 show ?case by (auto simp: btree_ok_def)
qed (simp add: btree_ok_def)

lemma btree_get_insert:
  "btree_ok m \<Longrightarrow> btree_get (btree_insert k v m) k' = (if k' = k then Some v else btree_get m k')"
  by (induction k v m rule: btree_insert.induct) (auto simp: btree_get_def btree_ok_def)

interpretation btree: ordered_map "[]" btree_get btree_insert btree_remove btree_keys btree_ok
proof
  fix m :: "('k::linorder, 'v) btree_map" and k k' :: 'k and v :: 'v
  assume m: "btree_ok m"
  show "btree_ok (btree_insert k v m)" using m by (rule btree_ok_insert)
  show "btree_get (btree_insert k v m) k' = (if k' = k then Some v else btree_get m k')"
    using m by (rule btree_get_insert)
  show "btree_ok (btree_remove k m)"
    using m by (induction m) (auto simp: btree_ok_def btree_remove_def)
  show "btree_get (btree_remove k m) k' = (if k' = k then None else btree_get m k')"
    by (induction m) (auto simp: btree_get_def btree_remove_def)
  show "k \<in> set (btree_keys m) \<longleftrightarrow> btree_get m k \<noteq> None"
    by (auto simp: btree_keys_def btree_get_def map_of_eq_None_iff)
  show "sorted_wrt (<) (btree_keys m)"
    using m by (simp add: btree_ok_def btree_keys_def)
qed (simp_all add: btree_ok_def btree_get_def)

text \<open>
  \<open>collect::<BTreeMap<_, _>>()\<close> inserts in the order of the iterator; a \<open>BTreeSet\<close> is a map to the
  unit value, read as the list of its elements in order.
\<close>

definition btree_of :: "('k::linorder \<times> 'v) list \<Rightarrow> ('k, 'v) btree_map" where
  "btree_of kvs = foldl (\<lambda>m (k, v). btree_insert k v m) [] kvs"

definition btree_set_of :: "'k::linorder list \<Rightarrow> 'k list" where
  "btree_set_of ks = btree_keys (btree_of (map (\<lambda>k. (k, ())) ks))"

lemma btree_ok_of [simp]: "btree_ok (btree_of kvs)"
  unfolding btree_of_def by (rule btree.inv_inserts) (rule btree.inv_empty)

lemma btree_get_of:
  "distinct (map fst kvs) \<Longrightarrow> btree_get (btree_of kvs) k = map_of kvs k"
  unfolding btree_of_def
  by (subst btree.get_inserts) (auto simp: btree_get_def btree.inv_empty split: option.splits)

lemma btree_keys_of: "set (btree_keys (btree_of kvs)) = fst ` set kvs"
proof -
  have "set (map fst (foldl (\<lambda>m (k, v). btree_insert k v m) m kvs)) = set (map fst m) \<union> fst ` set kvs" for m
  proof (induction kvs arbitrary: m)
    case (Cons kv kvs)
    obtain k v where "kv = (k, v)" by fastforce
    with Cons [of "btree_insert k v m"] show ?case by (simp add: btree_insert_keys del: set_map)
  qed simp
  then show ?thesis by (simp add: btree_keys_def btree_of_def del: set_map)
qed

lemma set_btree_set_of [simp]: "set (btree_set_of ks) = set ks"
  by (simp add: btree_set_of_def btree_keys_of image_image)

lemma distinct_btree_set_of [simp]: "distinct (btree_set_of ks)"
  unfolding btree_set_of_def by (rule btree.keys_distinct) simp

lemma sorted_btree_set_of [simp]: "sorted_wrt (<) (btree_set_of ks)"
  unfolding btree_set_of_def by (rule btree.keys_ordered) simp

lemma length_btree_set_of: "length (btree_set_of ks) = card (set ks)"
  using distinct_card [OF distinct_btree_set_of [of ks]] by simp

text \<open>Filtering the entries by their value, as \<open>iter().filter_map(..)\<close> over a map does.\<close>

definition keys_where :: "('v \<Rightarrow> bool) \<Rightarrow> ('k, 'v) btree_map \<Rightarrow> 'k list" where
  "keys_where P m = map fst (filter (\<lambda>(k, v). P v) m)"

lemma set_keys_where:
  "btree_ok m \<Longrightarrow> set (keys_where P m) = {k. \<exists>v. btree_get m k = Some v \<and> P v}"
  unfolding btree_ok_def strict_sorted_iff
  by (auto simp: keys_where_def btree_get_def image_def intro: map_of_is_SomeI dest: map_of_SomeD)

end
