(* ===== verification/Wire.thy ===== *)
theory Wire
  imports Prelude
begin

text \<open>
  The bounded big-endian codec of \<open>crates/qq-wire\<close>: \<open>LengthPrefix\<close> and \<open>WireError\<close>
  (\<open>error.rs\<close>), the forward-only \<open>WireReader\<close> (\<open>reader.rs\<close>) and the bounded \<open>WireWriter\<close>
  (\<open>writer.rs\<close>). A reader method returns its state on errors too, because a caller may go on
  reading after one. The second half is the logic the decoders of the other theories are proved
  with: \<open>reads m xs a\<close> says that \<open>m\<close> consumes exactly \<open>xs\<close> and returns \<open>a\<close> wherever \<open>xs\<close>
  comes next, \<open>parses m P\<close> that whatever \<open>m\<close> accepts has the form \<open>P\<close> describes.
\<close>

section \<open>Length prefixes and errors\<close>

datatype length_prefix =
    U8Payload | U8Inclusive | U16Payload | U16Inclusive | U32Payload | U32Inclusive

fun width :: "length_prefix \<Rightarrow> nat" where
  "width U8Payload = 1"
| "width U8Inclusive = 1"
| "width U16Payload = 2"
| "width U16Inclusive = 2"
| "width U32Payload = 4"
| "width U32Inclusive = 4"

fun includes_prefix :: "length_prefix \<Rightarrow> bool" where
  "includes_prefix U8Inclusive = True"
| "includes_prefix U16Inclusive = True"
| "includes_prefix U32Inclusive = True"
| "includes_prefix _ = False"

datatype wire_error =
    Truncated (needed: nat) (available: nat)
  | TrailingBytes (trailing: nat)
  | LengthOverflow
  | LengthLimitExceeded (limit: nat) (actual: nat)
  | InvalidInclusiveLength

section \<open>The reader\<close>

record wire_reader =
  rd_input :: bytes
  rd_cursor :: nat

definition reader_new :: "bytes \<Rightarrow> wire_reader" where
  "reader_new input = \<lparr>rd_input = input, rd_cursor = 0\<rparr>"

definition rd_position :: "wire_reader \<Rightarrow> nat" where
  "rd_position r = rd_cursor r"

definition rd_remaining :: "wire_reader \<Rightarrow> nat" where
  "rd_remaining r = length (rd_input r) - rd_cursor r"

definition read_bytes :: "nat \<Rightarrow> (wire_reader, wire_error, bytes) op" where
  "read_bytes len r =
     (case usize_add (rd_cursor r) len of
        None \<Rightarrow> (Inl LengthOverflow, r)
      | Some stop \<Rightarrow>
          if length (rd_input r) < stop then (Inl (Truncated len (rd_remaining r)), r)
          else (Inr (take len (drop (rd_cursor r) (rd_input r))), r\<lparr>rd_cursor := stop\<rparr>))"

definition read_array :: "nat \<Rightarrow> (wire_reader, wire_error, bytes) op" where
  "read_array n = read_bytes n"

definition read_u8 :: "(wire_reader, wire_error, u8) op" where
  "read_u8 = bindS (read_bytes 1) (\<lambda>bs. retS (bs ! 0))"

definition read_u16 :: "(wire_reader, wire_error, u16) op" where
  "read_u16 = bindS (read_array 2) (\<lambda>bs. retS (from_be bs))"

definition read_u32 :: "(wire_reader, wire_error, u32) op" where
  "read_u32 = bindS (read_array 4) (\<lambda>bs. retS (from_be bs))"

definition read_i32 :: "(wire_reader, wire_error, i32) op" where
  "read_i32 = bindS (read_array 4) (\<lambda>bs. retS (from_be bs))"

definition read_u64 :: "(wire_reader, wire_error, u64) op" where
  "read_u64 = bindS (read_array 8) (\<lambda>bs. retS (from_be bs))"

text \<open>\<open>usize::try_from\<close> of a \<open>u32\<close> cannot fail on a 64-bit target, so that error branch is absent.\<close>

definition read_declared :: "length_prefix \<Rightarrow> (wire_reader, wire_error, nat) op" where
  "read_declared prefix =
     (case prefix of
        U8Payload \<Rightarrow> bindS read_u8 (\<lambda>v. retS (unat v))
      | U8Inclusive \<Rightarrow> bindS read_u8 (\<lambda>v. retS (unat v))
      | U16Payload \<Rightarrow> bindS read_u16 (\<lambda>v. retS (unat v))
      | U16Inclusive \<Rightarrow> bindS read_u16 (\<lambda>v. retS (unat v))
      | U32Payload \<Rightarrow> bindS read_u32 (\<lambda>v. retS (unat v))
      | U32Inclusive \<Rightarrow> bindS read_u32 (\<lambda>v. retS (unat v)))"

definition read_prefixed_bytes ::
  "length_prefix \<Rightarrow> nat \<Rightarrow> (wire_reader, wire_error, bytes) op" where
  "read_prefixed_bytes prefix maximum =
     bindS (read_declared prefix) (\<lambda>declared.
     bindS (if includes_prefix prefix
            then if declared < width prefix then failS InvalidInclusiveLength
                 else retS (declared - width prefix)
            else retS declared) (\<lambda>len.
     if maximum < len then failS (LengthLimitExceeded maximum len)
     else read_bytes len))"

definition reader_finish :: "wire_reader \<Rightarrow> wire_error + unit" where
  "reader_finish r =
     (if rd_remaining r = 0 then Inr () else Inl (TrailingBytes (rd_remaining r)))"

section \<open>The writer\<close>

record wire_writer =
  wr_output :: bytes
  wr_maximum :: nat

definition writer_new :: "nat \<Rightarrow> wire_writer" where
  "writer_new maximum = \<lparr>wr_output = [], wr_maximum = maximum\<rparr>"

definition ensure_growth :: "nat \<Rightarrow> wire_writer \<Rightarrow> wire_error + unit" where
  "ensure_growth additional w =
     (case usize_add (length (wr_output w)) additional of
        None \<Rightarrow> Inl LengthOverflow
      | Some len \<Rightarrow>
          if wr_maximum w < len then Inl (LengthLimitExceeded (wr_maximum w) len) else Inr ())"

definition put_bytes :: "bytes \<Rightarrow> (wire_writer, wire_error, unit) op" where
  "put_bytes bs w =
     (case ensure_growth (length bs) w of
        Inl e \<Rightarrow> (Inl e, w)
      | Inr _ \<Rightarrow> (Inr (), w\<lparr>wr_output := wr_output w @ bs\<rparr>))"

definition put_u8 :: "u8 \<Rightarrow> (wire_writer, wire_error, unit) op" where
  "put_u8 v = put_bytes [v]"

definition put_u16 :: "u16 \<Rightarrow> (wire_writer, wire_error, unit) op" where
  "put_u16 v = put_bytes (to_be 2 v)"

definition put_u32 :: "u32 \<Rightarrow> (wire_writer, wire_error, unit) op" where
  "put_u32 v = put_bytes (to_be 4 v)"

definition put_u64 :: "u64 \<Rightarrow> (wire_writer, wire_error, unit) op" where
  "put_u64 v = put_bytes (to_be 8 v)"

definition put_declared :: "length_prefix \<Rightarrow> nat \<Rightarrow> (wire_writer, wire_error, unit) op" where
  "put_declared prefix declared =
     (if prefix = U8Payload \<or> prefix = U8Inclusive then
        if declared < 2 ^ 8 then put_u8 (of_nat declared)
        else failS (LengthLimitExceeded (2 ^ 8 - 1) declared)
      else if prefix = U16Payload \<or> prefix = U16Inclusive then
        if declared < 2 ^ 16 then put_u16 (of_nat declared)
        else failS (LengthLimitExceeded (2 ^ 16 - 1) declared)
      else
        if declared < 2 ^ 32 then put_u32 (of_nat declared)
        else failS (LengthLimitExceeded (2 ^ 32 - 1) declared))"

definition put_prefixed_bytes :: "length_prefix \<Rightarrow> bytes \<Rightarrow> (wire_writer, wire_error, unit) op" where
  "put_prefixed_bytes prefix bs =
     bindS (liftS (if includes_prefix prefix
                   then ok_or LengthOverflow (usize_add (length bs) (width prefix))
                   else Inr (length bs))) (\<lambda>declared.
     bindS (put_declared prefix declared) (\<lambda>_.
     put_bytes bs))"

definition writer_finish :: "wire_writer \<Rightarrow> bytes" where
  "writer_finish w = wr_output w"

section \<open>The format of a prefixed field\<close>

definition declared_len :: "length_prefix \<Rightarrow> nat \<Rightarrow> nat" where
  "declared_len p n = (if includes_prefix p then n + width p else n)"

definition prefix_fits :: "length_prefix \<Rightarrow> nat \<Rightarrow> bool" where
  "prefix_fits p n \<longleftrightarrow> declared_len p n < 256 ^ width p"

definition prefixed :: "length_prefix \<Rightarrow> bytes \<Rightarrow> bytes" where
  "prefixed p bs = nat_be (width p) (declared_len p (length bs)) @ bs"

lemma length_prefixed [simp]: "length (prefixed p bs) = width p + length bs"
  by (simp add: prefixed_def)

lemma prefixed_eq [simp]: "prefixed p a = prefixed p b \<longleftrightarrow> a = b"
proof
  assume "prefixed p a = prefixed p b"
  then have "drop (width p) (prefixed p a) = drop (width p) (prefixed p b)" by simp
  then show "a = b" by (simp add: prefixed_def)
qed simp

lemma prefixed_not_Nil [simp]: "prefixed p b \<noteq> []"
proof
  assume "prefixed p b = []"
  then have "length (prefixed p b) = 0" by simp
  then show False by (cases p) simp_all
qed

lemma width_pos: "0 < width p" "width p \<le> 4"
  by (cases p; simp)+

lemma prefix_fits_less: "prefix_fits p n \<Longrightarrow> n < 2 ^ 32"
  by (cases p) (auto simp: prefix_fits_def declared_len_def)

section \<open>What the writer emits\<close>

named_theorems writer_simps \<open>the exact success condition and effect of each writer call\<close>

definition wr_room :: "wire_writer \<Rightarrow> nat \<Rightarrow> bool" where
  "wr_room w n \<longleftrightarrow> length (wr_output w) + n \<le> wr_maximum w \<and>
                   length (wr_output w) + n < usize_limit"

definition wr_append :: "bytes \<Rightarrow> wire_writer \<Rightarrow> wire_writer" where
  "wr_append bs w = w\<lparr>wr_output := wr_output w @ bs\<rparr>"

lemma wr_append_simps [simp]:
  "wr_output (wr_append bs w) = wr_output w @ bs"
  "wr_maximum (wr_append bs w) = wr_maximum w"
  "wr_append ys (wr_append xs w) = wr_append (xs @ ys) w"
  by (simp_all add: wr_append_def)

lemma wr_room_append [simp]: "wr_room (wr_append bs w) n = wr_room w (length bs + n)"
  by (simp add: wr_room_def add.assoc)

lemma wr_room_mono: "wr_room w n \<Longrightarrow> m \<le> n \<Longrightarrow> wr_room w m"
  by (auto simp: wr_room_def)

lemma put_bytes_Inr [writer_simps]:
  "put_bytes bs w = (Inr u, w') \<longleftrightarrow> wr_room w (length bs) \<and> w' = wr_append bs w"
  by (auto simp: put_bytes_def ensure_growth_def wr_room_def wr_append_def usize_add_def
           split: if_splits)

lemma put_ints_Inr [writer_simps]:
  "put_u8 a w = (Inr u, w') \<longleftrightarrow> wr_room w 1 \<and> w' = wr_append [a] w"
  "put_u16 b w = (Inr u, w') \<longleftrightarrow> wr_room w 2 \<and> w' = wr_append (to_be 2 b) w"
  "put_u32 c w = (Inr u, w') \<longleftrightarrow> wr_room w 4 \<and> w' = wr_append (to_be 4 c) w"
  "put_u64 d w = (Inr u, w') \<longleftrightarrow> wr_room w 8 \<and> w' = wr_append (to_be 8 d) w"
  by (simp_all add: put_u8_def put_u16_def put_u32_def put_u64_def put_bytes_Inr)

lemma to_be_of_nat:
  assumes "LENGTH('a::len) = 8 * n" and "d < 256 ^ n"
  shows "to_be n (of_nat d :: 'a word) = nat_be n d"
proof -
  have "(256::nat) ^ n = 2 ^ LENGTH('a)"
    unfolding assms(1) power_mult by simp
  with assms(2) show ?thesis
    by (simp add: to_be_def unat_of_nat)
qed

lemma to_be_of_nat_u8: "d < 256 \<Longrightarrow> nat_be 1 d = [of_nat d :: u8]"
  by (simp add: One_nat_def)

lemma put_declared_Inr [writer_simps]:
  "put_declared p d w = (Inr u, w') \<longleftrightarrow>
     d < 256 ^ width p \<and> wr_room w (width p) \<and> w' = wr_append (nat_be (width p) d) w"
  using to_be_of_nat [where 'a = 16, of 2 d] to_be_of_nat [where 'a = 32, of 4 d]
    to_be_of_nat_u8 [of d]
  by (cases p; cases "d < 256 ^ width p") (simp_all add: put_declared_def failS_def put_ints_Inr)

lemma put_prefixed_bytes_Inr [writer_simps]:
  "put_prefixed_bytes p bs w = (Inr u, w') \<longleftrightarrow>
     prefix_fits p (length bs) \<and> wr_room w (width p + length bs) \<and> w' = wr_append (prefixed p bs) w"
proof -
  have *: "wr_room w (width p + length bs) \<Longrightarrow> length bs + width p < usize_limit \<and> wr_room w (width p)"
    by (auto simp: wr_room_def)
  show ?thesis
    using * unfolding put_prefixed_bytes_def bindS_Inr liftS_def prefix_fits_def prefixed_def
      declared_len_def
    by (auto simp: put_declared_Inr put_bytes_Inr ok_or_Inr add.commute split: if_splits)
qed

text \<open>
  The bound and the growth of the output are kept by every exit of every call, errors included:
  a failed \<open>put_prefixed_bytes\<close> may leave its prefix behind, never more.
\<close>

definition wr_extends :: "wire_writer \<Rightarrow> wire_writer \<Rightarrow> bool" where
  "wr_extends w w' \<longleftrightarrow> wr_maximum w' = wr_maximum w \<and> (\<exists>bs. wr_output w' = wr_output w @ bs) \<and>
     (length (wr_output w) \<le> wr_maximum w \<longrightarrow> length (wr_output w') \<le> wr_maximum w)"

lemma wr_extends_preorder: "reflp wr_extends" "transp wr_extends"
  by (auto simp: reflp_def transp_def wr_extends_def)

lemma keeps_put_bytes: "keeps wr_extends (put_bytes bs)"
  by (auto simp: keeps_def wr_extends_def put_bytes_def ensure_growth_def usize_add_def
           split: sum.splits option.splits if_splits)

lemma keeps_put_declared: "keeps wr_extends (put_declared p d)"
  by (auto simp: put_declared_def put_u8_def put_u16_def put_u32_def
           intro: keeps_put_bytes keeps_fail wr_extends_preorder)

lemma keeps_put_prefixed: "keeps wr_extends (put_prefixed_bytes p bs)"
  unfolding put_prefixed_bytes_def
  by (intro keeps_bind keeps_lift keeps_put_declared keeps_put_bytes wr_extends_preorder)

datatype writer_call =
    PutU8 u8 | PutU16 u16 | PutU32 u32 | PutU64 u64 | PutBytes bytes | PutPrefixed length_prefix bytes

fun writer_step :: "wire_writer \<Rightarrow> writer_call \<Rightarrow> wire_writer" where
  "writer_step w (PutU8 v) = snd (put_u8 v w)"
| "writer_step w (PutU16 v) = snd (put_u16 v w)"
| "writer_step w (PutU32 v) = snd (put_u32 v w)"
| "writer_step w (PutU64 v) = snd (put_u64 v w)"
| "writer_step w (PutBytes bs) = snd (put_bytes bs w)"
| "writer_step w (PutPrefixed p bs) = snd (put_prefixed_bytes p bs w)"

lemma writer_step_extends: "wr_extends w (writer_step w c)"
  using keeps_put_bytes keeps_put_prefixed
  by (cases c) (simp_all add: keeps_def put_u8_def put_u16_def put_u32_def put_u64_def)

interpretation wr: monotone_machine writer_step
  "\<lambda>w. length (wr_output w) \<le> wr_maximum w" wr_extends
proof
  show "length (wr_output (writer_step w c)) \<le> wr_maximum (writer_step w c)"
    if "length (wr_output w) \<le> wr_maximum w" for w c
    using that writer_step_extends [of w c] by (simp add: wr_extends_def)
qed (use writer_step_extends wr_extends_preorder in \<open>auto intro: transpD reflpD\<close>)

section \<open>What the reader accepts\<close>

definition rd_ok :: "wire_reader \<Rightarrow> bool" where
  "rd_ok r \<longleftrightarrow> rd_cursor r \<le> length (rd_input r) \<and> slice_ok (rd_input r)"

definition rd_rest :: "wire_reader \<Rightarrow> bytes" where
  "rd_rest r = drop (rd_cursor r) (rd_input r)"

definition advance :: "nat \<Rightarrow> wire_reader \<Rightarrow> wire_reader" where
  "advance n r = r\<lparr>rd_cursor := rd_cursor r + n\<rparr>"

lemma rd_ok_new [simp]: "rd_ok (reader_new bs) \<longleftrightarrow> slice_ok bs"
  by (simp add: rd_ok_def reader_new_def)

lemma rd_rest_new [simp]: "rd_rest (reader_new bs) = bs"
  by (simp add: rd_rest_def reader_new_def)

lemma rd_remaining_rest: "rd_remaining r = length (rd_rest r)"
  by (simp add: rd_remaining_def rd_rest_def)

lemma rd_rest_advance [simp]: "rd_rest (advance n r) = drop n (rd_rest r)"
  by (simp add: rd_rest_def advance_def add.commute)

lemma rd_ok_advance [simp]: "rd_ok r \<Longrightarrow> n \<le> length (rd_rest r) \<Longrightarrow> rd_ok (advance n r)"
  by (auto simp: rd_ok_def advance_def rd_rest_def)

lemma advance_advance [simp]: "advance m (advance n r) = advance (n + m) r"
  by (simp add: advance_def add.assoc)

lemma advance_0 [simp]: "advance 0 r = r"
  by (simp add: advance_def)

lemma read_bytes_Inr:
  assumes "rd_ok r"
  shows "read_bytes n r = (Inr xs, r') \<longleftrightarrow>
    n \<le> length (rd_rest r) \<and> xs = take n (rd_rest r) \<and> r' = advance n r"
  using assms
  by (auto simp: read_bytes_def rd_ok_def slice_ok_def rd_rest_def advance_def usize_add_def
                 usize_limit_def split: if_splits)

text \<open>\<open>reads m xs a\<close>: where \<open>xs\<close> comes next, \<open>m\<close> returns \<open>a\<close> and stands right after it.\<close>

definition reads :: "(wire_reader, 'e, 'a) op \<Rightarrow> bytes \<Rightarrow> 'a \<Rightarrow> bool" where
  "reads m xs a \<longleftrightarrow>
     (\<forall>r ys. rd_ok r \<longrightarrow> rd_rest r = xs @ ys \<longrightarrow> m r = (Inr a, advance (length xs) r))"

text \<open>\<open>parses m P\<close>: what \<open>m\<close> consumed and what it returned are related by \<open>P\<close>.\<close>

definition parses :: "(wire_reader, 'e, 'a) op \<Rightarrow> ('a \<Rightarrow> bytes \<Rightarrow> bool) \<Rightarrow> bool" where
  "parses m P \<longleftrightarrow>
     (\<forall>r a r'. rd_ok r \<longrightarrow> m r = (Inr a, r') \<longrightarrow>
        (\<exists>xs. rd_rest r = xs @ rd_rest r' \<and> r' = advance (length xs) r \<and> P a xs))"

lemma readsD: "reads m xs a \<Longrightarrow> rd_ok r \<Longrightarrow> rd_rest r = xs @ ys \<Longrightarrow> m r = (Inr a, advance (length xs) r)"
  by (auto simp: reads_def)

lemma parsesD:
  assumes "parses m P" "rd_ok r" "m r = (Inr a, r')"
  obtains xs where "rd_rest r = xs @ rd_rest r'" "r' = advance (length xs) r" "P a xs" "rd_ok r'"
  using assms unfolding parses_def
  by (metis append_eq_conv_conj length_append le_add1 rd_ok_advance)

lemma reads_ret: "reads (retS a) [] a"
  by (simp add: reads_def retS_def)

lemma reads_bind:
  assumes m: "reads m xs a" and f: "reads (f a) ys b"
  shows "reads (bindS m f) (xs @ ys) b"
  unfolding reads_def
proof (intro allI impI)
  fix r zs
  assume ok: "rd_ok r" and rest: "rd_rest r = (xs @ ys) @ zs"
  from m ok have 1: "m r = (Inr a, advance (length xs) r)"
    by (rule readsD) (use rest in simp)
  have 2: "f a (advance (length xs) r) = (Inr b, advance (length ys) (advance (length xs) r))"
    using f by (rule readsD) (use ok rest in simp_all)
  show "bindS m f r = (Inr b, advance (length (xs @ ys)) r)"
    by (simp add: bindS_ok [where m = m, OF 1] 2)
qed

lemma reads_bind_ret: "reads m xs a \<Longrightarrow> reads (bindS m (\<lambda>x. retS (g x))) xs (g a)"
  using reads_bind [OF _ reads_ret] by fastforce

lemma reads_map_errS: "reads m xs a \<Longrightarrow> reads (map_errS g m) xs a"
  by (auto simp: reads_def map_errS_def)

lemma parses_ret: "parses (retS a) (\<lambda>b xs. b = a \<and> xs = [])"
  by (auto simp: parses_def retS_def)

lemma parses_fail: "parses (failS e) P"
  by (simp add: parses_def failS_def)

lemma parses_mono: "parses m P \<Longrightarrow> (\<And>a xs. P a xs \<Longrightarrow> Q a xs) \<Longrightarrow> parses m Q"
  unfolding parses_def by meson

lemma parses_map_errS: "parses m P \<Longrightarrow> parses (map_errS g m) P"
  by (auto simp: parses_def map_errS_Inr)

lemma parses_bind:
  assumes m: "parses m P" and f: "\<And>a. parses (f a) (Q a)"
  shows "parses (bindS m f) (\<lambda>b zs. \<exists>a xs ys. zs = xs @ ys \<and> P a xs \<and> Q a b ys)"
  unfolding parses_def
proof (intro allI impI)
  fix r b r'
  assume ok: "rd_ok r" and "bindS m f r = (Inr b, r')"
  then obtain a s where ms: "m r = (Inr a, s)" and fs: "f a s = (Inr b, r')"
    by (auto simp: bindS_Inr)
  from m ok ms obtain xs where xs: "rd_rest r = xs @ rd_rest s" "s = advance (length xs) r" "P a xs"
    and "rd_ok s" by (rule parsesD)
  from f \<open>rd_ok s\<close> fs obtain ys where
    ys: "rd_rest s = ys @ rd_rest r'" "r' = advance (length ys) s" "Q a b ys" by (rule parsesD)
  from xs ys have "rd_rest r = (xs @ ys) @ rd_rest r' \<and> r' = advance (length (xs @ ys)) r \<and>
      (\<exists>a xs' ys'. xs @ ys = xs' @ ys' \<and> P a xs' \<and> Q a b ys')"
    by auto
  then show "\<exists>zs. rd_rest r = zs @ rd_rest r' \<and> r' = advance (length zs) r \<and>
      (\<exists>a xs ys. zs = xs @ ys \<and> P a xs \<and> Q a b ys)"
    by blast
qed

text \<open>
  The interface of one field: an encoding, a reader for it, and the values the encoding is
  defined on. Two laws make the reader its exact inverse; the field is then self-delimiting.
\<close>

locale field_codec =
  fixes enc :: "'a \<Rightarrow> bytes"
    and rd :: "(wire_reader, wire_error, 'a) op"
    and dom :: "'a \<Rightarrow> bool"
  assumes rd_enc: "dom a \<Longrightarrow> reads rd (enc a) a"
    and enc_rd: "parses rd (\<lambda>a xs. dom a \<and> xs = enc a)"
begin

lemma self_delimiting:
  assumes "dom a" "dom b" "enc a @ xs = enc b @ ys" "slice_ok (enc a @ xs)"
  shows "a = b \<and> xs = ys"
proof -
  let ?r = "reader_new (enc a @ xs)"
  have "rd ?r = (Inr a, advance (length (enc a)) ?r)"
    using rd_enc [OF assms(1)] by (rule readsD) (use assms(4) in simp_all)
  moreover have "rd ?r = (Inr b, advance (length (enc b)) ?r)"
    using rd_enc [OF assms(2)] by (rule readsD [where ys = ys]) (use assms(3,4) in simp_all)
  ultimately have "a = b" by simp
  with assms(3) show ?thesis by simp
qed

lemma read_iff:
  assumes "rd_ok r"
  shows "rd r = (Inr a, r') \<longleftrightarrow>
    dom a \<and> rd_rest r = enc a @ rd_rest r' \<and> r' = advance (length (enc a)) r"
proof
  assume "rd r = (Inr a, r')"
  with enc_rd assms obtain xs where "rd_rest r = xs @ rd_rest r'" "r' = advance (length xs) r"
    "dom a \<and> xs = enc a" by (rule parsesD)
  then show "dom a \<and> rd_rest r = enc a @ rd_rest r' \<and> r' = advance (length (enc a)) r"
    by blast
next
  assume a: "dom a \<and> rd_rest r = enc a @ rd_rest r' \<and> r' = advance (length (enc a)) r"
  then have "rd r = (Inr a, advance (length (enc a)) r)"
    by (intro readsD [OF rd_enc assms, of a "rd_rest r'"]) blast+
  with a show "rd r = (Inr a, r')"
    by simp
qed

end

lemma reads_bytes: "length xs = n \<Longrightarrow> reads (read_bytes n) xs xs"
  by (simp add: reads_def read_bytes_Inr)

lemma parses_bytes: "parses (read_bytes n) (\<lambda>a xs. xs = a \<and> length a = n)"
  unfolding parses_def
proof (intro allI impI)
  fix r a r'
  assume ok: "rd_ok r" and "read_bytes n r = (Inr a, r')"
  then have "n \<le> length (rd_rest r)" "a = take n (rd_rest r)" "r' = advance n r"
    by (simp_all add: read_bytes_Inr)
  then show "\<exists>xs. rd_rest r = xs @ rd_rest r' \<and> r' = advance (length xs) r \<and> xs = a \<and> length a = n"
    by simp
qed

lemma parses_bind_ret:
  assumes "parses m P"
  shows "parses (bindS m (\<lambda>x. retS (g x))) (\<lambda>b xs. \<exists>a. b = g a \<and> P a xs)"
  by (rule parses_mono [OF parses_bind [OF assms parses_ret]]) auto

interpretation fu8: field_codec "\<lambda>v. [v]" read_u8 "\<lambda>_. True"
proof
  fix v
  have "reads (bindS (read_bytes 1) (\<lambda>bs. retS (bs ! 0))) [v] ([v] ! 0)"
    by (rule reads_bind_ret, rule reads_bytes) simp
  then show "reads read_u8 [v] v" by (simp add: read_u8_def)
  show "parses read_u8 (\<lambda>a xs. True \<and> xs = [a])"
    unfolding read_u8_def
    by (rule parses_mono [OF parses_bind_ret [OF parses_bytes]]) (auto simp: length_Suc_conv)
qed

lemma int_codec:
  assumes len: "LENGTH('a::len) = 8 * n"
  shows "field_codec (to_be n) (bindS (read_array n) (\<lambda>bs. retS (from_be bs :: 'a word))) (\<lambda>_. True)"
proof
  fix v :: "'a word"
  have "reads (bindS (read_array n) (\<lambda>bs. retS (from_be bs :: 'a word))) (to_be n v) (from_be (to_be n v))"
    unfolding read_array_def by (rule reads_bind_ret, rule reads_bytes) simp
  then show "reads (bindS (read_array n) (\<lambda>bs. retS (from_be bs))) (to_be n v) v"
    by (simp add: from_be_to_be [OF len])
  show "parses (bindS (read_array n) (\<lambda>bs. retS (from_be bs :: 'a word))) (\<lambda>a xs. True \<and> xs = to_be n a)"
    unfolding read_array_def
    by (rule parses_mono [OF parses_bind_ret [OF parses_bytes]]) (auto simp: len to_be_from_be)
qed

interpretation fu16: field_codec "to_be 2" read_u16 "\<lambda>_. True"
  using int_codec [where 'a = 16, of 2] by (simp add: read_u16_def)

interpretation fu32: field_codec "to_be 4" read_u32 "\<lambda>_. True"
  using int_codec [where 'a = 32, of 4] by (simp add: read_u32_def)

interpretation fi32: field_codec "to_be 4" read_i32 "\<lambda>_. True"
  using int_codec [where 'a = 32, of 4] by (simp add: read_i32_def)

interpretation fu64: field_codec "to_be 8" read_u64 "\<lambda>_. True"
  using int_codec [where 'a = 64, of 8] by (simp add: read_u64_def)

lemma reads_declared:
  assumes "d < 256 ^ width p"
  shows "reads (read_declared p) (nat_be (width p) d) d"
proof -
  have 1: "d < 256 \<Longrightarrow> reads (bindS read_u8 (\<lambda>v. retS (unat v))) (nat_be 1 d) d"
    using reads_bind_ret [OF fu8.rd_enc [OF TrueI], of unat "of_nat d"]
    by (simp add: to_be_of_nat_u8 unat_of_nat del: One_nat_def)
  have 2: "d < 256 ^ 2 \<Longrightarrow> reads (bindS read_u16 (\<lambda>v. retS (unat v))) (nat_be 2 d) d"
    using reads_bind_ret [OF fu16.rd_enc [OF TrueI], of unat "of_nat d"]
    by (simp add: to_be_of_nat unat_of_nat)
  have 3: "d < 256 ^ 4 \<Longrightarrow> reads (bindS read_u32 (\<lambda>v. retS (unat v))) (nat_be 4 d) d"
    using reads_bind_ret [OF fu32.rd_enc [OF TrueI], of unat "of_nat d"]
    by (simp add: to_be_of_nat unat_of_nat)
  show ?thesis
    using assms 1 2 3 by (cases p) (simp_all add: read_declared_def)
qed

lemma parses_declared:
  "parses (read_declared p) (\<lambda>d xs. d < 256 ^ width p \<and> xs = nat_be (width p) d)"
proof -
  have 1: "parses (bindS read_u8 (\<lambda>v. retS (unat v))) (\<lambda>d xs. d < 256 \<and> xs = nat_be 1 d)"
    by (rule parses_mono [OF parses_bind_ret [OF fu8.enc_rd]])
      (auto simp: to_be_of_nat_u8 simp del: One_nat_def)
  have 2: "parses (bindS read_u16 (\<lambda>v. retS (unat v))) (\<lambda>d xs. d < 256 ^ 2 \<and> xs = nat_be 2 d)"
    by (rule parses_mono [OF parses_bind_ret [OF fu16.enc_rd]])
      (use unsigned_less [where 'b = 16 and 'a = nat] in \<open>auto simp: to_be_def\<close>)
  have 3: "parses (bindS read_u32 (\<lambda>v. retS (unat v))) (\<lambda>d xs. d < 256 ^ 4 \<and> xs = nat_be 4 d)"
    by (rule parses_mono [OF parses_bind_ret [OF fu32.enc_rd]])
      (use unsigned_less [where 'b = 32 and 'a = nat] in \<open>auto simp: to_be_def\<close>)
  show ?thesis
    using 1 2 3 by (cases p) (simp_all add: read_declared_def)
qed

lemma reads_prefixed:
  assumes fits: "prefix_fits p (length bs)" and bound: "length bs \<le> maximum"
  shows "reads (read_prefixed_bytes p maximum) (prefixed p bs) bs"
  unfolding read_prefixed_bytes_def prefixed_def
proof (rule reads_bind)
  show "reads (read_declared p) (nat_be (width p) (declared_len p (length bs))) (declared_len p (length bs))"
    using fits by (intro reads_declared) (simp add: prefix_fits_def)
  have "reads (bindS (retS (length bs)) (\<lambda>len. if maximum < len then failS (LengthLimitExceeded maximum len)
      else read_bytes len)) ([] @ bs) bs"
    by (rule reads_bind, rule reads_ret) (use bound in \<open>simp add: reads_bytes\<close>)
  then show "reads (bindS (if includes_prefix p
       then if declared_len p (length bs) < width p then failS InvalidInclusiveLength
            else retS (declared_len p (length bs) - width p)
       else retS (declared_len p (length bs))) (\<lambda>len. if maximum < len then failS (LengthLimitExceeded maximum len)
      else read_bytes len)) bs bs"
    by (simp add: declared_len_def)
qed

lemma parses_if: "(c \<Longrightarrow> parses m P) \<Longrightarrow> (\<not> c \<Longrightarrow> parses n P) \<Longrightarrow> parses (if c then m else n) P"
  by simp

lemma parses_prefixed:
  "parses (read_prefixed_bytes p maximum)
     (\<lambda>bs xs. prefix_fits p (length bs) \<and> length bs \<le> maximum \<and> xs = prefixed p bs)"
proof -
  have len: "parses (if includes_prefix p
       then if d < width p then failS InvalidInclusiveLength else retS (d - width p) else retS d)
       (\<lambda>n xs. xs = [] \<and> d = declared_len p n)" for d
    by (auto simp: declared_len_def intro: parses_fail parses_mono [OF parses_ret])
  have body: "parses (if maximum < n then failS (LengthLimitExceeded maximum n) else read_bytes n)
       (\<lambda>bs xs. xs = bs \<and> length bs = n \<and> n \<le> maximum)" for n
    by (auto intro: parses_fail parses_mono [OF parses_bytes])
  show ?thesis
    unfolding read_prefixed_bytes_def
    by (rule parses_mono [OF parses_bind [OF parses_declared parses_bind [OF len body]]])
      (auto simp: prefix_fits_def prefixed_def)
qed

text \<open>A length-prefixed field, for every prefix kind and every payload bound.\<close>

interpretation fpre: field_codec "prefixed p" "read_prefixed_bytes p maximum"
  "\<lambda>bs. prefix_fits p (length bs) \<and> length bs \<le> maximum" for p maximum
proof
  show "reads (read_prefixed_bytes p maximum) (prefixed p a) a"
    if "prefix_fits p (length a) \<and> length a \<le> maximum" for a
    using that by (intro reads_prefixed) simp_all
  show "parses (read_prefixed_bytes p maximum)
     (\<lambda>a xs. (prefix_fits p (length a) \<and> length a \<le> maximum) \<and> xs = prefixed p a)"
    by (rule parses_mono [OF parses_prefixed]) auto
qed

lemma reader_finish_Inr: "reader_finish r = Inr u \<longleftrightarrow> rd_rest r = []"
  by (auto simp: reader_finish_def rd_remaining_rest)

text \<open>Every exit of every read keeps the input, never moves back and never leaves the input.\<close>

definition rd_forward :: "wire_reader \<Rightarrow> wire_reader \<Rightarrow> bool" where
  "rd_forward r r' \<longleftrightarrow> rd_input r' = rd_input r \<and> rd_cursor r \<le> rd_cursor r' \<and>
     (rd_cursor r \<le> length (rd_input r) \<longrightarrow> rd_cursor r' \<le> length (rd_input r'))"

lemma rd_forward_preorder: "reflp rd_forward" "transp rd_forward"
  by (auto simp: reflp_def transp_def rd_forward_def)

lemma keeps_read_bytes: "keeps rd_forward (read_bytes n)"
  by (auto simp: keeps_def rd_forward_def read_bytes_def usize_add_def split: if_splits)

lemmas keeps_reader = keeps_bind keeps_ret keeps_fail keeps_read_bytes rd_forward_preorder

lemma keeps_read_ints:
  "keeps rd_forward read_u8" "keeps rd_forward read_u16" "keeps rd_forward read_u32"
  "keeps rd_forward read_i32" "keeps rd_forward read_u64"
  unfolding read_u8_def read_u16_def read_u32_def read_i32_def read_u64_def read_array_def
  by (intro keeps_reader)+

lemma keeps_read_prefixed: "keeps rd_forward (read_prefixed_bytes p maximum)"
proof -
  have "keeps rd_forward (read_declared p)"
    by (cases p) (auto simp: read_declared_def intro!: keeps_reader keeps_read_ints)
  moreover have "keeps rd_forward (if maximum < n then failS (LengthLimitExceeded maximum n)
      else read_bytes n)" for n
    by (auto intro: keeps_reader)
  moreover have "keeps rd_forward (if includes_prefix p
       then if d < width p then failS InvalidInclusiveLength else retS (d - width p) else retS d)" for d
    by (auto intro: keeps_reader)
  ultimately show ?thesis
    unfolding read_prefixed_bytes_def by (blast intro: keeps_bind rd_forward_preorder)
qed

datatype reader_call =
    ReadU8 | ReadU16 | ReadU32 | ReadI32 | ReadU64 | ReadBytes nat | ReadPrefixed length_prefix nat

fun reader_step :: "wire_reader \<Rightarrow> reader_call \<Rightarrow> wire_reader" where
  "reader_step r ReadU8 = snd (read_u8 r)"
| "reader_step r ReadU16 = snd (read_u16 r)"
| "reader_step r ReadU32 = snd (read_u32 r)"
| "reader_step r ReadI32 = snd (read_i32 r)"
| "reader_step r ReadU64 = snd (read_u64 r)"
| "reader_step r (ReadBytes n) = snd (read_bytes n r)"
| "reader_step r (ReadPrefixed p m) = snd (read_prefixed_bytes p m r)"

lemma reader_step_forward: "rd_forward r (reader_step r c)"
  using keeps_read_bytes keeps_read_ints keeps_read_prefixed
  by (cases c) (simp_all add: keeps_def)

interpretation rd: monotone_machine reader_step "\<lambda>r. rd_cursor r \<le> length (rd_input r)" rd_forward
proof
  show "rd_cursor (reader_step r c) \<le> length (rd_input (reader_step r c))"
    if "rd_cursor r \<le> length (rd_input r)" for r c
    using that reader_step_forward [of r c] unfolding rd_forward_def by metis
qed (use reader_step_forward rd_forward_preorder in \<open>auto intro: transpD reflpD\<close>)

section \<open>Exact descriptions of decoders and encoders\<close>

text \<open>
  \<open>accepts m R\<close>: \<open>m\<close> succeeds exactly on the inputs \<open>R\<close> describes, where \<open>R a xs ys\<close> relates
  the value returned, the bytes consumed and the bytes after them. A decoder built from accepting
  parts has an exact description built from theirs; \<open>emits\<close> is the same for the writer.
\<close>

named_theorems accepts_intros \<open>exact descriptions of reader programs\<close>
named_theorems emits_intros \<open>exact descriptions of writer programs\<close>

definition accepts :: "(wire_reader, 'e, 'a) op \<Rightarrow> ('a \<Rightarrow> bytes \<Rightarrow> bytes \<Rightarrow> bool) \<Rightarrow> bool" where
  "accepts m R \<longleftrightarrow>
     (\<forall>r a r'. rd_ok r \<longrightarrow>
        (m r = (Inr a, r') \<longleftrightarrow> (\<exists>xs ys. rd_rest r = xs @ ys \<and> r' = advance (length xs) r \<and> R a xs ys)))"

lemma acceptsD:
  "accepts m R \<Longrightarrow> rd_ok r \<Longrightarrow>
   m r = (Inr a, r') \<longleftrightarrow> (\<exists>xs ys. rd_rest r = xs @ ys \<and> r' = advance (length xs) r \<and> R a xs ys)"
  by (simp add: accepts_def)

lemma accepts_ret [accepts_intros]: "accepts (retS a) (\<lambda>b xs ys. b = a \<and> xs = [])"
  by (auto simp: accepts_def retS_def)

lemma accepts_fail [accepts_intros]: "accepts (failS e) (\<lambda>b xs ys. False)"
  by (auto simp: accepts_def failS_def)

lemma accepts_lift [accepts_intros]: "accepts (liftS v) (\<lambda>b xs ys. v = Inr b \<and> xs = [])"
  by (auto simp: accepts_def liftS_def)

lemma accepts_map_errS [accepts_intros]: "accepts m R \<Longrightarrow> accepts (map_errS g m) R"
  by (simp add: accepts_def map_errS_Inr)

lemma accepts_bind [accepts_intros]:
  assumes m: "accepts m R" and f: "\<And>a. accepts (f a) (Q a)"
  shows "accepts (bindS m f) (\<lambda>b zs ws. \<exists>a xs ys. zs = xs @ ys \<and> R a xs (ys @ ws) \<and> Q a b ys ws)"
  unfolding accepts_def
proof (intro allI impI)
  fix r b r'
  assume ok: "rd_ok r"
  have step: "f a (advance (length xs) r) = (Inr b, r') \<longleftrightarrow>
      (\<exists>ys ws. zs = ys @ ws \<and> r' = advance (length xs + length ys) r \<and> Q a b ys ws)"
    if "rd_rest r = xs @ zs" for a xs zs
    using acceptsD [OF f, of "advance (length xs) r" a b r'] ok that by simp
  show "bindS m f r = (Inr b, r') \<longleftrightarrow> (\<exists>zs ws. rd_rest r = zs @ ws \<and> r' = advance (length zs) r \<and>
      (\<exists>a xs ys. zs = xs @ ys \<and> R a xs (ys @ ws) \<and> Q a b ys ws))" (is "?lhs \<longleftrightarrow> ?rhs")
  proof
    assume ?lhs
    then obtain a s where ms: "m r = (Inr a, s)" and fs: "f a s = (Inr b, r')"
      by (auto simp: bindS_Inr)
    from acceptsD [OF m ok] ms obtain xs zs where
      xs: "rd_rest r = xs @ zs" "s = advance (length xs) r" "R a xs zs" by blast
    from step [OF xs(1)] fs xs(2) obtain ys ws where
      "zs = ys @ ws" "r' = advance (length xs + length ys) r" "Q a b ys ws" by blast
    with xs show ?rhs
      by (intro exI [of _ "xs @ ys"] exI [of _ ws]) auto
  next
    assume ?rhs
    then obtain a xs ys ws where
      rest: "rd_rest r = xs @ ys @ ws" "r' = advance (length xs + length ys) r"
      and R: "R a xs (ys @ ws)" "Q a b ys ws" by auto
    have "m r = (Inr a, advance (length xs) r)"
      using acceptsD [OF m ok] rest(1) R(1) by blast
    moreover have "f a (advance (length xs) r) = (Inr b, r')"
      using step [OF rest(1)] rest(2) R(2) by blast
    ultimately show ?lhs
      by (auto simp: bindS_Inr)
  qed
qed

lemma accepts_if [accepts_intros]:
  "accepts m R \<Longrightarrow> accepts n Q \<Longrightarrow> accepts (if c then m else n) (\<lambda>a xs ys. if c then R a xs ys else Q a xs ys)"
  by simp

context field_codec begin

lemma accepts_field: "accepts rd (\<lambda>a xs ys. dom a \<and> xs = enc a)"
  unfolding accepts_def using read_iff by auto

end

lemmas accepts_fields [accepts_intros] =
  fu8.accepts_field fu16.accepts_field fu32.accepts_field fi32.accepts_field fu64.accepts_field
  fpre.accepts_field

lemma accepts_bytes [accepts_intros]: "accepts (read_bytes n) (\<lambda>a xs ys. length a = n \<and> xs = a)"
  unfolding accepts_def
proof (intro allI impI)
  fix r a r'
  assume "rd_ok r"
  then show "read_bytes n r = (Inr a, r') \<longleftrightarrow> (\<exists>xs ys. rd_rest r = xs @ ys \<and>
      r' = advance (length xs) r \<and> length a = n \<and> xs = a)"
    by (auto simp: read_bytes_Inr intro: exI [where x = "drop n (rd_rest r)"])
qed

text \<open>\<open>reader.read_bytes(reader.remaining())\<close>, a test of the bytes left, and \<open>reader.finish()\<close>.\<close>

definition read_rest :: "(wire_reader, wire_error, bytes) op" where
  "read_rest r = read_bytes (rd_remaining r) r"

definition check_remaining :: "(nat \<Rightarrow> bool) \<Rightarrow> 'e \<Rightarrow> (wire_reader, 'e, unit) op" where
  "check_remaining p e r = (guardE (p (rd_remaining r)) e, r)"

definition finish_op :: "(wire_reader, wire_error, unit) op" where
  "finish_op r = (reader_finish r, r)"

lemma accepts_rest [accepts_intros]: "accepts read_rest (\<lambda>a xs ys. xs = a \<and> ys = [])"
  by (auto simp: accepts_def read_rest_def read_bytes_Inr rd_remaining_rest)

lemma accepts_check [accepts_intros]:
  "accepts (check_remaining p e) (\<lambda>u xs ys. p (length ys) \<and> xs = [])"
  by (auto simp: accepts_def check_remaining_def guardE_Inr rd_remaining_rest)

lemma accepts_finish [accepts_intros]: "accepts finish_op (\<lambda>u xs ys. xs = [] \<and> ys = [])"
  by (auto simp: accepts_def finish_op_def reader_finish_Inr)

text \<open>
  The sequencing rules a decoder's description is built with, one per kind of statement: a test, a
  look at the bytes left, the remaining bytes, the final check, a field.
\<close>

lemma accepts_seq_lift:
  assumes "\<And>a. accepts (f a) (Q a)"
  shows "accepts (bindS (liftS v) f) (\<lambda>b zs ws. \<exists>a. v = Inr a \<and> Q a b zs ws)"
  by (rule back_subst [of "accepts _", OF accepts_bind [OF accepts_lift assms]]) (auto simp: fun_eq_iff)

lemma accepts_seq_guard:
  assumes "accepts (f ()) Q"
  shows "accepts (bindS (liftS (guardE c e)) f) (\<lambda>b zs ws. c \<and> Q b zs ws)"
  using assms by (cases c) (auto simp: accepts_def bindS_def liftS_def)

lemma accepts_seq_check:
  assumes "accepts (f ()) Q"
  shows "accepts (bindS (check_remaining p e) f) (\<lambda>b zs ws. p (length (zs @ ws)) \<and> Q b zs ws)"
proof -
  have "\<And>u. accepts (f u) Q" using assms by simp
  from accepts_bind [OF accepts_check this] show ?thesis
    by (rule back_subst [of "accepts _"]) (auto simp: fun_eq_iff)
qed

lemma accepts_seq_rest:
  assumes "\<And>a. accepts (f a) (Q a)"
  shows "accepts (bindS (map_errS g read_rest) f) (\<lambda>b zs ws. ws = [] \<and> Q zs b [] [])"
  by (rule back_subst [of "accepts _", OF accepts_bind [OF accepts_map_errS [OF accepts_rest] assms]])
    (auto simp: fun_eq_iff)

lemma accepts_seq_finish:
  assumes "accepts (f ()) Q"
  shows "accepts (bindS (map_errS g finish_op) f) (\<lambda>b zs ws. zs = [] \<and> ws = [] \<and> Q b [] [])"
proof -
  have "\<And>u. accepts (f u) Q" using assms by simp
  from accepts_bind [OF accepts_map_errS [OF accepts_finish] this] show ?thesis
    by (rule back_subst [of "accepts _"]) (auto simp: fun_eq_iff)
qed

lemma accepts_seq_field:
  assumes "accepts m (\<lambda>a xs ys. D a \<and> xs = e a)" "\<And>a. accepts (f a) (Q a)"
  shows "accepts (bindS m f) (\<lambda>b zs ws. \<exists>a ys. zs = e a @ ys \<and> D a \<and> Q a b ys ws)"
  by (rule back_subst [of "accepts _", OF accepts_bind [OF assms]]) (auto simp: fun_eq_iff)

lemmas accepts_seq =
  accepts_seq_guard accepts_seq_lift accepts_seq_check accepts_seq_rest accepts_seq_finish
  accepts_seq_field accepts_ret accepts_map_errS accepts_fields

text \<open>Reading the description off a concrete layout, one field at a time.\<close>

lemma ex_field: "D a \<Longrightarrow> P a ys \<Longrightarrow> \<exists>a' ys'. e a @ ys = e a' @ ys' \<and> D a' \<and> P a' ys'"
  by blast

text \<open>A whole decoder: the program on a fresh reader.\<close>

definition run_reader :: "(wire_reader, 'e, 'a) op \<Rightarrow> bytes \<Rightarrow> 'e + 'a" where
  "run_reader m bs = fst (m (reader_new bs))"

lemma run_reader_Inr:
  assumes "accepts m R" "slice_ok bs"
  shows "run_reader m bs = Inr a \<longleftrightarrow> (\<exists>xs ys. bs = xs @ ys \<and> R a xs ys)"
proof -
  have "run_reader m bs = Inr a \<longleftrightarrow> (\<exists>r'. m (reader_new bs) = (Inr a, r'))"
    by (simp add: run_reader_def prod_eq_iff)
  then show ?thesis
    using acceptsD [OF assms(1), of "reader_new bs"] assms(2) by auto
qed

text \<open>\<open>emits m C xs\<close>: \<open>m\<close> succeeds exactly under \<open>C\<close> with room for \<open>xs\<close>, which it appends.\<close>

definition emits :: "(wire_writer, 'e, unit) op \<Rightarrow> bool \<Rightarrow> bytes \<Rightarrow> bool" where
  "emits m C xs \<longleftrightarrow>
     (\<forall>w w'. m w = (Inr (), w') \<longleftrightarrow> C \<and> wr_room w (length xs) \<and> w' = wr_append xs w)"

lemma emits_bytes [emits_intros]: "emits (put_bytes bs) True bs"
  by (simp add: emits_def put_bytes_Inr)

lemma emits_u8 [emits_intros]: "emits (put_u8 a) True [a]"
  by (simp add: emits_def put_ints_Inr)

lemma emits_u16 [emits_intros]: "emits (put_u16 b) True (to_be 2 b)"
  by (simp add: emits_def put_ints_Inr)

lemma emits_u32 [emits_intros]: "emits (put_u32 c) True (to_be 4 c)"
  by (simp add: emits_def put_ints_Inr)

lemma emits_u64 [emits_intros]: "emits (put_u64 d) True (to_be 8 d)"
  by (simp add: emits_def put_ints_Inr)

lemma emits_prefixed [emits_intros]:
  "emits (put_prefixed_bytes p bs) (prefix_fits p (length bs)) (prefixed p bs)"
  by (simp add: emits_def put_prefixed_bytes_Inr)

lemma emits_map_errS [emits_intros]: "emits m C xs \<Longrightarrow> emits (map_errS g m) C xs"
  by (simp add: emits_def map_errS_Inr)

lemma emits_bind [emits_intros]:
  assumes "emits m C xs" and "emits n D ys"
  shows "emits (bindS m (\<lambda>_. n)) (C \<and> D) (xs @ ys)"
  using assms by (auto simp: emits_def bindS_Inr intro: wr_room_mono)

text \<open>A whole encoder: the program on a fresh writer of the given bound.\<close>

definition run_writer :: "nat \<Rightarrow> (wire_writer, 'e, unit) op \<Rightarrow> 'e + bytes" where
  "run_writer maximum m =
     (case m (writer_new maximum) of (Inl e, _) \<Rightarrow> Inl e | (Inr _, w) \<Rightarrow> Inr (writer_finish w))"

lemma run_writer_Inr:
  assumes "emits m C xs"
  shows "run_writer maximum m = Inr out \<longleftrightarrow>
    C \<and> length xs \<le> maximum \<and> length xs < usize_limit \<and> out = xs"
proof -
  have "run_writer maximum m = Inr out \<longleftrightarrow>
      (\<exists>w. m (writer_new maximum) = (Inr (), w) \<and> out = writer_finish w)"
    by (auto simp: run_writer_def split: prod.splits sum.splits)
  then show ?thesis
    using assms by (auto simp: emits_def wr_room_def writer_new_def writer_finish_def)
qed

section \<open>Properties\<close>

text \<open>
  A length-prefixed field survives the wire. For each of the six prefix kinds, if the writer
  accepts a field, then a reader standing where the field starts, with any bytes after it and any
  payload bound the field respects, returns exactly the payload and stands right after the field.
\<close>

theorem wire_prefixed_roundtrip:
  assumes put: "put_prefixed_bytes p bs w = (Inr (), w')"
    and bound: "length bs \<le> maximum"
    and size: "slice_ok (wr_output w' @ tail)"
  shows "read_prefixed_bytes p maximum
           \<lparr>rd_input = wr_output w' @ tail, rd_cursor = length (wr_output w)\<rparr> =
         (Inr bs, \<lparr>rd_input = wr_output w' @ tail, rd_cursor = length (wr_output w')\<rparr>)"
proof -
  let ?r = "\<lparr>rd_input = wr_output w' @ tail, rd_cursor = length (wr_output w)\<rparr>"
  from put have fits: "prefix_fits p (length bs)" and w': "w' = wr_append (prefixed p bs) w"
    by (simp_all add: put_prefixed_bytes_Inr)
  have "rd_ok ?r" "rd_rest ?r = prefixed p bs @ tail"
    using size w' by (simp_all add: rd_ok_def rd_rest_def)
  with reads_prefixed [OF fits bound]
  have "read_prefixed_bytes p maximum ?r = (Inr bs, advance (length (prefixed p bs)) ?r)"
    by (rule readsD)
  then show ?thesis
    using w' by (simp add: advance_def)
qed

theorem wire_prefixed_roundtrip_witness:
  "read_prefixed_bytes U16Inclusive 4
     \<lparr>rd_input = [9, 0, 5, 1, 2, 3, 7], rd_cursor = 1\<rparr> =
   (Inr [1, 2, 3], \<lparr>rd_input = [9, 0, 5, 1, 2, 3, 7], rd_cursor = 6\<rparr>)"
proof -
  let ?w = "\<lparr>wr_output = [9], wr_maximum = 16\<rparr>"
  let ?w' = "\<lparr>wr_output = [9, 0, 5, 1, 2, 3], wr_maximum = 16\<rparr>"
  have "put_prefixed_bytes U16Inclusive [1, 2, 3] ?w = (Inr (), ?w')"
    by (simp add: put_prefixed_bytes_Inr wr_room_def wr_append_def prefix_fits_def declared_len_def
        prefixed_def usize_limit_def nat_be_numeral)
  then show ?thesis
    using wire_prefixed_roundtrip [of U16Inclusive "[1, 2, 3]" ?w ?w' 4 "[7]"]
    by (simp add: slice_ok_def)
qed

text \<open>
  The prefixed encoding is canonical. Every field the reader accepts is byte for byte what the
  writer emits for that payload: the reader admits no second spelling of a field.
\<close>

theorem wire_prefixed_canonical:
  assumes ok: "rd_ok r" and read: "read_prefixed_bytes p maximum r = (Inr bs, r')"
  shows "length bs \<le> maximum \<and>
    (\<exists>w'. put_prefixed_bytes p bs (writer_new (width p + length bs)) = (Inr (), w') \<and>
          rd_rest r = writer_finish w' @ rd_rest r')"
proof -
  from parses_prefixed ok read obtain xs where rest: "rd_rest r = xs @ rd_rest r'"
    and fits: "prefix_fits p (length bs)" "length bs \<le> maximum" "xs = prefixed p bs"
    by (auto elim!: parsesD)
  have "wr_room (writer_new (width p + length bs)) (width p + length bs)"
    using prefix_fits_less [OF fits(1)] width_pos [of p]
    by (simp add: wr_room_def writer_new_def usize_limit_def)
  with fits(1) have "put_prefixed_bytes p bs (writer_new (width p + length bs)) =
      (Inr (), wr_append (prefixed p bs) (writer_new (width p + length bs)))"
    by (simp add: put_prefixed_bytes_Inr)
  with rest fits show ?thesis
    by (auto simp: writer_finish_def writer_new_def)
qed

theorem wire_prefixed_canonical_witness:
  "\<exists>w'. put_prefixed_bytes U8Payload [4, 5] (writer_new 3) = (Inr (), w') \<and>
        writer_finish w' = [2, 4, 5]"
proof -
  let ?r = "reader_new [2, 4, 5]"
  have ok: "rd_ok ?r" by (simp add: slice_ok_def)
  have read: "read_prefixed_bytes U8Payload 8 ?r = (Inr [4, 5], advance 3 ?r)"
    using reads_prefixed [of U8Payload "[4, 5]" 8, THEN readsD, OF _ _ ok, of "[]"]
    by (simp add: prefix_fits_def declared_len_def prefixed_def numeral_3_eq_3)
  show ?thesis
    using wire_prefixed_canonical [OF ok read] by (simp add: numeral_3_eq_3 eq_commute)
qed

text \<open>
  The output bound of a writer is never exceeded, whatever sequence of writes a caller makes
  and whichever of them fail; and what was written earlier is never changed.
\<close>

theorem writer_never_exceeds_bound:
  "length (writer_finish (foldl writer_step (writer_new maximum) calls)) \<le> maximum \<and>
   (\<exists>bs. writer_finish (foldl writer_step (writer_new maximum) (calls @ later)) =
         writer_finish (foldl writer_step (writer_new maximum) calls) @ bs)"
proof -
  let ?w = "foldl writer_step (writer_new maximum) calls"
  have start: "length (wr_output (writer_new maximum)) \<le> wr_maximum (writer_new maximum)"
    by (simp add: writer_new_def)
  have "length (wr_output ?w) \<le> wr_maximum ?w"
    using start by (rule wr.run_inv)
  moreover have "wr_extends (writer_new maximum) ?w"
    using start by (rule wr.run_le)
  moreover have "wr_extends ?w (foldl writer_step ?w later)"
    using calculation(1) by (rule wr.run_le)
  ultimately show ?thesis
    by (auto simp: wr_extends_def writer_finish_def writer_new_def)
qed

text \<open>
  A reader stays inside its packet. After any sequence of reads, failed ones included, the
  packet is unchanged, the cursor is within it, and further reads never move it back.
\<close>

theorem reader_stays_in_bounds:
  "rd_input (foldl reader_step (reader_new input) calls) = input \<and>
   rd_position (foldl reader_step (reader_new input) calls) \<le> length input \<and>
   rd_position (foldl reader_step (reader_new input) calls) \<le>
     rd_position (foldl reader_step (reader_new input) (calls @ later))"
proof -
  let ?r = "foldl reader_step (reader_new input) calls"
  have start: "rd_cursor (reader_new input) \<le> length (rd_input (reader_new input))"
    by (simp add: reader_new_def)
  have "rd_cursor ?r \<le> length (rd_input ?r)"
    using start by (rule rd.run_inv)
  moreover have "rd_forward (reader_new input) ?r"
    using start by (rule rd.run_le)
  moreover have "rd_forward ?r (foldl reader_step ?r later)"
    using calculation(1) by (rule rd.run_le)
  ultimately show ?thesis
    by (auto simp: rd_forward_def rd_position_def reader_new_def)
qed

end
