(* ===== verification/Tea.thy ===== *)
theory Tea
  imports Prelude
begin

text \<open>
  QQ's TEA variant, \<open>crates/qq-envelope/src/tea\<close>: the 16-round block function on 64-bit words
  (\<open>block.rs\<close>), the key and its four words (\<open>key.rs\<close>) and the chained, padded codec
  (\<open>codec.rs\<close>). The operating system's entropy (\<open>getrandom::fill\<close>) is the parameter \<open>fill\<close>:
  \<open>fill n\<close> is the filled buffer of \<open>n\<close> bytes, or \<open>None\<close> when entropy is unavailable.
\<close>

unbundle bit_operations_syntax

section \<open>Key\<close>

type_synonym tea_key = bytes
type_synonym key_words = "u32 \<times> u32 \<times> u32 \<times> u32"

text \<open>The Rust type fixes the key to 16 bytes.\<close>

definition tea_key_ok :: "tea_key \<Rightarrow> bool" where
  "tea_key_ok key \<longleftrightarrow> length key = 16"

definition key_words :: "tea_key \<Rightarrow> key_words" where
  "key_words key =
     (from_be (take 4 key), from_be (take 4 (drop 4 key)),
      from_be (take 4 (drop 8 key)), from_be (take 4 (drop 12 key)))"

section \<open>Block function\<close>

definition DELTA :: u32 where
  "DELTA = 0x9e3779b9"

definition ROUNDS :: nat where
  "ROUNDS = 16"

definition split_word :: "u64 \<Rightarrow> u32 \<times> u32" where
  "split_word v = (from_be (take 4 (to_be 8 v)), from_be (drop 4 (to_be 8 v)))"

definition join_word :: "u32 \<Rightarrow> u32 \<Rightarrow> u64" where
  "join_word left right = push_bit 32 (ucast left) OR ucast right"

definition tea_mix :: "u32 \<Rightarrow> u32 \<Rightarrow> u32 \<Rightarrow> u32 \<Rightarrow> u32" where
  "tea_mix x acc ka kb = (x + acc) XOR (push_bit 4 x + ka) XOR (drop_bit 5 x + kb)"

text \<open>One pass of the loop body of \<open>encrypt\<close> and of \<open>decrypt\<close>, with \<open>acc\<close> the value of \<open>sum\<close> it uses.\<close>

fun enc_round :: "key_words \<Rightarrow> u32 \<Rightarrow> u32 \<times> u32 \<Rightarrow> u32 \<times> u32" where
  "enc_round (k0, k1, k2, k3) acc (left, right) =
     (let left' = left + tea_mix right acc k0 k1;
          right' = right + tea_mix left' acc k2 k3
      in (left', right'))"

fun dec_round :: "key_words \<Rightarrow> u32 \<Rightarrow> u32 \<times> u32 \<Rightarrow> u32 \<times> u32" where
  "dec_round (k0, k1, k2, k3) acc (left, right) =
     (let right' = right - tea_mix left acc k2 k3;
          left' = left - tea_mix right' acc k0 k1
      in (left', right'))"

fun enc_rounds :: "key_words \<Rightarrow> nat \<Rightarrow> u32 \<Rightarrow> u32 \<times> u32 \<Rightarrow> u32 \<times> u32" where
  "enc_rounds k 0 acc x = x"
| "enc_rounds k (Suc n) acc x = enc_rounds k n (acc + DELTA) (enc_round k (acc + DELTA) x)"

fun dec_rounds :: "key_words \<Rightarrow> nat \<Rightarrow> u32 \<Rightarrow> u32 \<times> u32 \<Rightarrow> u32 \<times> u32" where
  "dec_rounds k 0 acc x = x"
| "dec_rounds k (Suc n) acc x = dec_rounds k n (acc - DELTA) (dec_round k acc x)"

definition block_encrypt :: "u64 \<Rightarrow> key_words \<Rightarrow> u64" where
  "block_encrypt v k = (case enc_rounds k ROUNDS 0 (split_word v) of (left, right) \<Rightarrow> join_word left right)"

definition block_decrypt :: "u64 \<Rightarrow> key_words \<Rightarrow> u64" where
  "block_decrypt v k =
     (case dec_rounds k ROUNDS (DELTA * 16) (split_word v) of (left, right) \<Rightarrow> join_word left right)"

section \<open>Chained codec\<close>

definition BLOCK_LEN :: nat where
  "BLOCK_LEN = 8"

definition TRAILING_ZERO_LEN :: nat where
  "TRAILING_ZERO_LEN = 7"

definition MAX_PLAINTEXT_LEN :: nat where
  "MAX_PLAINTEXT_LEN = 2 * 1024 * 1024"

definition encrypted_bound :: nat where
  "encrypted_bound = MAX_PLAINTEXT_LEN + 16"

datatype tea_error =
    LengthLimit | TeaLengthOverflow | Entropy | PaddingLength | InvalidCiphertext

definition padding_len :: "nat \<Rightarrow> nat" where
  "padding_len n = 10 - ((n + 1) AND 7)"

definition validate_plaintext :: "bytes \<Rightarrow> tea_error + unit" where
  "validate_plaintext plaintext =
     (if MAX_PLAINTEXT_LEN < length plaintext then Inl LengthLimit else Inr ())"

text \<open>
  The block loops over the whole buffer. They take the block function as an argument, so that
  the chaining mode can be proved for any pair of inverse functions. \<open>chunks_exact\<close> leaves a
  remainder shorter than a block alone: as it was when encrypting in place, zero in the fresh
  buffer of the decryption.
\<close>

function chain_encrypt :: "(u64 \<Rightarrow> u64) \<Rightarrow> u64 \<Rightarrow> u64 \<Rightarrow> bytes \<Rightarrow> bytes" where
  "chain_encrypt E prior_encrypted prior_mixed bs =
     (if length bs < BLOCK_LEN then bs
      else let plain = from_be (take BLOCK_LEN bs);
               mixed = plain XOR prior_encrypted;
               encrypted = E mixed XOR prior_mixed
           in to_be 8 encrypted @ chain_encrypt E encrypted mixed (drop BLOCK_LEN bs))"
  by pat_completeness auto
termination
  by (relation "measure (\<lambda>(_, _, _, bs). length bs)") (auto simp: BLOCK_LEN_def)

function chain_decrypt :: "(u64 \<Rightarrow> u64) \<Rightarrow> u64 \<Rightarrow> u64 \<Rightarrow> bytes \<Rightarrow> bytes" where
  "chain_decrypt D prior_decrypted prior_ciphertext bs =
     (if length bs < BLOCK_LEN then replicate (length bs) 0
      else let encrypted = from_be (take BLOCK_LEN bs);
               decrypted = D (prior_decrypted XOR encrypted)
           in to_be 8 (decrypted XOR prior_ciphertext) @
              chain_decrypt D decrypted encrypted (drop BLOCK_LEN bs))"
  by pat_completeness auto
termination
  by (relation "measure (\<lambda>(_, _, _, bs). length bs)") (auto simp: BLOCK_LEN_def)

declare chain_encrypt.simps [simp del]
declare chain_decrypt.simps [simp del]

definition encrypt_blocks :: "bytes \<Rightarrow> key_words \<Rightarrow> bytes" where
  "encrypt_blocks output k = chain_encrypt (\<lambda>v. block_encrypt v k) 0 0 output"

definition decrypt_blocks :: "bytes \<Rightarrow> key_words \<Rightarrow> bytes" where
  "decrypt_blocks ciphertext k = chain_decrypt (\<lambda>v. block_decrypt v k) 0 0 ciphertext"

definition encrypt_qq_tea_with_padding :: "bytes \<Rightarrow> tea_key \<Rightarrow> bytes \<Rightarrow> tea_error + bytes" where
  "encrypt_qq_tea_with_padding plaintext key padding =
     bindE (validate_plaintext plaintext) (\<lambda>_.
     let pad = padding_len (length plaintext) in
     if length padding \<noteq> pad then Inl PaddingLength
     else bindE (ok_or TeaLengthOverflow
            (Option.bind (usize_add pad (length plaintext)) (\<lambda>n. usize_add n TRAILING_ZERO_LEN))) (\<lambda>_.
          bindE (if pad - 3 < 2 ^ 8 then Inr (of_nat (pad - 3) OR 0xf8) else Inl TeaLengthOverflow) (\<lambda>header.
          Inr (encrypt_blocks (padding[0 := header] @ plaintext @ replicate TRAILING_ZERO_LEN 0)
                 (key_words key)))))"

definition encrypt_qq_tea :: "(nat \<Rightarrow> bytes option) \<Rightarrow> bytes \<Rightarrow> tea_key \<Rightarrow> tea_error + bytes" where
  "encrypt_qq_tea fill plaintext key =
     (case fill (padding_len (length plaintext)) of
        None \<Rightarrow> Inl Entropy
      | Some padding \<Rightarrow> encrypt_qq_tea_with_padding plaintext key padding)"

definition decrypt_qq_tea :: "bytes \<Rightarrow> tea_key \<Rightarrow> tea_error + bytes" where
  "decrypt_qq_tea ciphertext key =
     (if length ciphertext < BLOCK_LEN * 2 \<or> length ciphertext mod BLOCK_LEN \<noteq> 0 \<or>
         encrypted_bound < length ciphertext
      then Inl InvalidCiphertext
      else let decoded = decrypt_blocks ciphertext (key_words key);
               prefix_len = unat (decoded ! 0 AND 7) + 3
           in if length decoded < TRAILING_ZERO_LEN then Inl InvalidCiphertext
              else let payload_end = length decoded - TRAILING_ZERO_LEN in
                if payload_end < prefix_len \<or> (\<exists>b \<in> set (drop payload_end decoded). b \<noteq> 0)
                then Inl InvalidCiphertext
                else Inr (drop prefix_len (take payload_end decoded)))"

section \<open>The block function is a permutation\<close>

lemma nat_be_split8: "nat_be 8 v = nat_be 4 (v div 2 ^ 32) @ nat_be 4 v"
  using nat_be_add [of 4 4 v] by simp

lemma unat_join_word: "unat (join_word l r) = unat l * 2 ^ 32 + unat r"
proof -
  have disj: "join_word l r = push_bit 32 (ucast l) + ucast r"
    unfolding join_word_def
    by (subst disjunctive_add [symmetric]) (auto simp: bit_simps dest: bit_imp_le_length)
  have "unat l * 2 ^ 32 + unat r < 2 ^ 64"
    using unsigned_less [of l, where 'a = nat] unsigned_less [of r, where 'a = nat] by simp
  moreover have "join_word l r = of_nat (unat l * 2 ^ 32 + unat r)"
    unfolding disj by (simp add: push_bit_eq_mult)
  ultimately show ?thesis
    using of_nat_inverse [of "unat l * 2 ^ 32 + unat r" "join_word l r"] by simp
qed

lemma to_be_join_word: "to_be 8 (join_word l r) = to_be 4 l @ to_be 4 r"
proof -
  have "nat_be 4 (unat l * 2 ^ 32 + unat r) = nat_be 4 (unat r)"
    using nat_be_mod [of 4 "unat l * 2 ^ 32 + unat r"] nat_be_mod [of 4 "unat r"] by simp
  moreover have "(unat l * 2 ^ 32 + unat r) div 2 ^ 32 = unat l"
    using unsigned_less [of r, where 'a = nat] by simp
  ultimately show ?thesis
    by (simp add: to_be_def unat_join_word nat_be_split8)
qed

lemma split_join_word: "split_word (join_word l r) = (l, r)"
  by (simp add: split_word_def to_be_join_word)

lemma join_split_word: "split_word v = (l, r) \<Longrightarrow> join_word l r = v"
proof -
  assume "split_word v = (l, r)"
  then have "l = from_be (take 4 (to_be 8 v))" "r = from_be (drop 4 (to_be 8 v))"
    by (simp_all add: split_word_def)
  then have "to_be 8 (join_word l r) = to_be 8 v"
    by (simp add: to_be_join_word to_be_u32)
  then show ?thesis
    by (rule to_be_inj [rotated]) simp
qed

lemma case_join_split_word: "(case split_word v of (l, r) \<Rightarrow> join_word l r) = v"
  by (cases "split_word v") (simp add: join_split_word)

lemma dec_enc_round: "dec_round k acc (enc_round k acc x) = x"
  by (cases k; cases x) (simp add: Let_def)

lemma enc_dec_round: "enc_round k acc (dec_round k acc x) = x"
  by (cases k; cases x) (simp add: Let_def)

lemma dec_rounds_last:
  "dec_rounds k (Suc n) s x = dec_round k (s - of_nat n * DELTA) (dec_rounds k n s x)"
proof (induction n arbitrary: s x)
  case 0
  show ?case by simp
next
  case (Suc n)
  have "dec_rounds k (Suc (Suc n)) s x = dec_rounds k (Suc n) (s - DELTA) (dec_round k s x)"
    by (rule dec_rounds.simps)
  also have "\<dots> = dec_round k (s - DELTA - of_nat n * DELTA) (dec_rounds k n (s - DELTA) (dec_round k s x))"
    by (rule Suc)
  also have "dec_rounds k n (s - DELTA) (dec_round k s x) = dec_rounds k (Suc n) s x"
    by simp
  finally show ?case
    by (simp add: algebra_simps del: dec_rounds.simps)
qed

lemma enc_rounds_last:
  "enc_rounds k (Suc n) s x = enc_round k (s + of_nat (Suc n) * DELTA) (enc_rounds k n s x)"
proof (induction n arbitrary: s x)
  case 0
  show ?case by simp
next
  case (Suc n)
  have "enc_rounds k (Suc (Suc n)) s x =
      enc_rounds k (Suc n) (s + DELTA) (enc_round k (s + DELTA) x)"
    by (rule enc_rounds.simps)
  also have "\<dots> = enc_round k (s + DELTA + of_nat (Suc n) * DELTA)
      (enc_rounds k n (s + DELTA) (enc_round k (s + DELTA) x))"
    by (rule Suc)
  also have "enc_rounds k n (s + DELTA) (enc_round k (s + DELTA) x) = enc_rounds k (Suc n) s x"
    by simp
  finally show ?case
    by (simp add: algebra_simps del: enc_rounds.simps)
qed

lemma dec_enc_rounds: "dec_rounds k n (s + of_nat n * DELTA) (enc_rounds k n s x) = x"
proof (induction n arbitrary: s x)
  case 0
  show ?case by simp
next
  case (Suc n)
  let ?y = "enc_round k (s + DELTA) x"
  have "dec_rounds k n (s + of_nat (Suc n) * DELTA) (enc_rounds k n (s + DELTA) ?y) = ?y"
    using Suc [of "s + DELTA" ?y] by (simp add: algebra_simps)
  then show ?case
    unfolding dec_rounds_last by (simp add: dec_enc_round algebra_simps)
qed

lemma enc_dec_rounds: "enc_rounds k n s (dec_rounds k n (s + of_nat n * DELTA) x) = x"
proof (induction n arbitrary: s x)
  case 0
  show ?case by simp
next
  case (Suc n)
  let ?y = "dec_round k (s + of_nat (Suc n) * DELTA) x"
  have "enc_rounds k n s (dec_rounds k n (s + of_nat n * DELTA) ?y) = ?y"
    by (rule Suc)
  then have "enc_rounds k n s (dec_rounds k (Suc n) (s + of_nat (Suc n) * DELTA) x) = ?y"
    by (simp add: algebra_simps)
  then show ?case
    unfolding enc_rounds_last by (simp add: enc_dec_round)
qed

lemma block_decrypt_encrypt: "block_decrypt (block_encrypt v k) k = v"
proof -
  obtain l r where lr: "enc_rounds k ROUNDS 0 (split_word v) = (l, r)" by force
  have "of_nat ROUNDS * DELTA = DELTA * 16" by (simp add: ROUNDS_def)
  then have "dec_rounds k ROUNDS (DELTA * 16) (l, r) = split_word v"
    using dec_enc_rounds [of k ROUNDS 0 "split_word v"] by (simp add: lr)
  then show ?thesis
    by (simp add: block_decrypt_def block_encrypt_def lr split_join_word case_join_split_word)
qed

lemma block_encrypt_decrypt: "block_encrypt (block_decrypt v k) k = v"
proof -
  obtain l r where lr: "dec_rounds k ROUNDS (DELTA * 16) (split_word v) = (l, r)" by force
  have "of_nat ROUNDS * DELTA = DELTA * 16" by (simp add: ROUNDS_def)
  then have "enc_rounds k ROUNDS 0 (l, r) = split_word v"
    using enc_dec_rounds [of k ROUNDS 0 "split_word v"] by (simp add: lr)
  then show ?thesis
    by (simp add: block_decrypt_def block_encrypt_def lr split_join_word case_join_split_word)
qed

lemma xor_cancel [simp]:
  "((a :: u64) XOR b) XOR b = a" "b XOR (a XOR b) = a" "(b XOR a) XOR b = a"
  by (simp_all add: xor.assoc xor.commute [of b])

section \<open>The chaining mode over any permutation\<close>

text \<open>What the codec asks of its block function, and what follows for the chained loops.\<close>

locale block_cipher =
  fixes E D :: "u64 \<Rightarrow> u64"
  assumes D_E: "D (E x) = x"
    and E_D: "E (D x) = x"
begin

lemma chain_decrypt_encrypt:
  "length bs mod BLOCK_LEN = 0 \<Longrightarrow> chain_decrypt D pm pe (chain_encrypt E pe pm bs) = bs"
proof (induction "length bs" arbitrary: pe pm bs rule: less_induct)
  case less
  show ?case
  proof (cases "length bs < BLOCK_LEN")
    case True
    with less.prems have "bs = []" by simp
    then show ?thesis
      by (simp add: chain_encrypt.simps chain_decrypt.simps BLOCK_LEN_def)
  next
    case False
    let ?mixed = "from_be (take BLOCK_LEN bs) XOR pe"
    let ?enc = "E ?mixed XOR pm"
    have "chain_decrypt D ?mixed ?enc (chain_encrypt E ?enc ?mixed (drop BLOCK_LEN bs)) =
        drop BLOCK_LEN bs"
      using False less.prems by (intro less.hyps) (simp_all add: BLOCK_LEN_def le_mod_geq)
    moreover have "to_be 8 (from_be (take BLOCK_LEN bs) :: u64) = take BLOCK_LEN bs"
      using False by (simp add: to_be_u64 BLOCK_LEN_def)
    ultimately show ?thesis
      using False
      by (simp add: chain_encrypt.simps [of E pe pm bs] chain_decrypt.simps [of D pm] Let_def
          BLOCK_LEN_def D_E)
  qed
qed

lemma chain_encrypt_decrypt:
  "length bs mod BLOCK_LEN = 0 \<Longrightarrow> chain_encrypt E pe pm (chain_decrypt D pm pe bs) = bs"
proof (induction "length bs" arbitrary: pe pm bs rule: less_induct)
  case less
  show ?case
  proof (cases "length bs < BLOCK_LEN")
    case True
    with less.prems have "bs = []" by simp
    then show ?thesis
      by (simp add: chain_encrypt.simps chain_decrypt.simps BLOCK_LEN_def)
  next
    case False
    let ?enc = "from_be (take BLOCK_LEN bs)"
    let ?dec = "D (pm XOR ?enc)"
    have "chain_encrypt E ?enc ?dec (chain_decrypt D ?dec ?enc (drop BLOCK_LEN bs)) =
        drop BLOCK_LEN bs"
      using False less.prems by (intro less.hyps) (simp_all add: BLOCK_LEN_def le_mod_geq)
    moreover have "to_be 8 (from_be (take BLOCK_LEN bs) :: u64) = take BLOCK_LEN bs"
      using False by (simp add: to_be_u64 BLOCK_LEN_def)
    ultimately show ?thesis
      using False
      by (simp add: chain_decrypt.simps [of D pm pe bs] chain_encrypt.simps [of E pe] Let_def
          BLOCK_LEN_def E_D)
  qed
qed

end

interpretation tea: block_cipher "\<lambda>v. block_encrypt v k" "\<lambda>v. block_decrypt v k" for k
  by unfold_locales (simp_all add: block_decrypt_encrypt block_encrypt_decrypt)

section \<open>Lengths and padding\<close>

lemma length_chain_encrypt [simp]: "length (chain_encrypt E pe pm bs) = length bs"
proof (induction "length bs" arbitrary: pe pm bs rule: less_induct)
  case less
  then show ?case
    by (auto simp: chain_encrypt.simps [of E pe pm bs] BLOCK_LEN_def Let_def)
qed

lemma length_chain_decrypt [simp]: "length (chain_decrypt D pm pe bs) = length bs"
proof (induction "length bs" arbitrary: pe pm bs rule: less_induct)
  case less
  then show ?case
    by (auto simp: chain_decrypt.simps [of D pm pe bs] BLOCK_LEN_def Let_def)
qed

lemma length_blocks [simp]:
  "length (encrypt_blocks bs k) = length bs" "length (decrypt_blocks bs k) = length bs"
  by (simp_all add: encrypt_blocks_def decrypt_blocks_def)

lemma decrypt_encrypt_blocks:
  "length bs mod BLOCK_LEN = 0 \<Longrightarrow> decrypt_blocks (encrypt_blocks bs k) k = bs"
  unfolding decrypt_blocks_def encrypt_blocks_def by (rule tea.chain_decrypt_encrypt)

lemma encrypt_decrypt_blocks:
  "length bs mod BLOCK_LEN = 0 \<Longrightarrow> encrypt_blocks (decrypt_blocks bs k) k = bs"
  unfolding decrypt_blocks_def encrypt_blocks_def by (rule tea.chain_encrypt_decrypt)

lemma padding_len_mod: "padding_len n = 10 - (n + 1) mod 8"
proof -
  have "(n + 1) AND 7 = take_bit 3 (n + 1)"
    by (simp add: take_bit_eq_mask mask_eq_exp_minus_1)
  then show ?thesis
    by (simp add: padding_len_def take_bit_eq_mod)
qed

lemma padding_len_bounds: "3 \<le> padding_len n" "padding_len n \<le> 10"
  by (simp_all add: padding_len_mod)

lemma padded_len_mod: "(padding_len n + n + 7) mod 8 = 0"
  unfolding padding_len_mod by presburger

lemma padded_len_bound:
  assumes "n \<le> MAX_PLAINTEXT_LEN"
  shows "padding_len n + n + 7 \<le> encrypted_bound"
proof (cases "n = MAX_PLAINTEXT_LEN")
  case True
  have "padding_len MAX_PLAINTEXT_LEN = 9"
    by (simp add: padding_len_mod MAX_PLAINTEXT_LEN_def)
  with True show ?thesis by (simp add: encrypted_bound_def)
next
  case False
  with assms padding_len_bounds [of n] show ?thesis by (simp add: encrypted_bound_def)
qed

text \<open>The padding length is the only one that a header can announce for its payload length.\<close>

lemma padding_len_unique:
  assumes "3 \<le> p" "p \<le> 10" "(p + n + 7) mod 8 = 0"
  shows "p = padding_len n"
proof -
  have "(padding_len n + n + 7) mod 8 = 0" by (rule padded_len_mod)
  with assms padding_len_bounds [of n] show ?thesis by presburger
qed

lemma header_low_bits:
  assumes "v < 8"
  shows "(of_nat v OR 0xf8 :: u8) AND 7 = of_nat v"
proof -
  have "v \<in> {0, 1, 2, 3, 4, 5, 6, 7}" using assms by auto
  then show ?thesis by auto
qed

lemma unat_and7_less: "unat ((b :: u8) AND 7) < 8"
proof -
  have "b AND 7 = take_bit 3 b"
    by (simp add: take_bit_eq_mask mask_eq_exp_minus_1)
  then show ?thesis
    by (simp add: unsigned_take_bit_eq take_bit_nat_less_exp [of 3, simplified])
qed

text \<open>The buffer the encryption chains over: padding under its header byte, payload, sentinel.\<close>

definition tea_buffer :: "bytes \<Rightarrow> bytes \<Rightarrow> bytes" where
  "tea_buffer padding plaintext =
     padding[0 := of_nat (padding_len (length plaintext) - 3) OR 0xf8] @ plaintext @ replicate 7 0"

lemma encrypt_with_padding_Inr:
  "encrypt_qq_tea_with_padding plaintext key padding = Inr ct \<longleftrightarrow>
    length plaintext \<le> MAX_PLAINTEXT_LEN \<and> length padding = padding_len (length plaintext) \<and>
    ct = encrypt_blocks (tea_buffer padding plaintext) (key_words key)"
proof (cases "length plaintext \<le> MAX_PLAINTEXT_LEN")
  case True
  then have "padding_len (length plaintext) + length plaintext + 7 < usize_limit"
    using padding_len_bounds [of "length plaintext"] by (simp add: MAX_PLAINTEXT_LEN_def usize_limit_def)
  with True show ?thesis
    using padding_len_bounds [of "length plaintext"]
    by (auto simp: encrypt_qq_tea_with_padding_def validate_plaintext_def Let_def tea_buffer_def
        TRAILING_ZERO_LEN_def bindE_Inr ok_or_Inr usize_add_def bind_eq_Some_conv)
qed (simp add: encrypt_qq_tea_with_padding_def validate_plaintext_def)

lemma decrypt_qq_tea_Inr:
  "decrypt_qq_tea ct key = Inr pt \<longleftrightarrow>
     16 \<le> length ct \<and> length ct mod 8 = 0 \<and> length ct \<le> encrypted_bound \<and>
     (\<exists>padding. decrypt_blocks ct (key_words key) = padding @ pt @ replicate 7 0 \<and>
                length padding = unat (padding ! 0 AND 7) + 3)"
  (is "?lhs \<longleftrightarrow> ?rhs")
proof
  assume ?lhs
  let ?d = "decrypt_blocks ct (key_words key)"
  let ?p = "unat (?d ! 0 AND 7) + 3"
  let ?e = "length ?d - 7"
  from \<open>?lhs\<close> have len: "16 \<le> length ct" "length ct mod 8 = 0" "length ct \<le> encrypted_bound"
    and p: "?p \<le> ?e" and z: "\<forall>b \<in> set (drop ?e ?d). b = 0" and pt: "pt = drop ?p (take ?e ?d)"
    by (auto simp: decrypt_qq_tea_def BLOCK_LEN_def TRAILING_ZERO_LEN_def Let_def split: if_splits)
  have "drop ?e ?d = replicate 7 0"
    using z len(1) by (intro replicate_eqI) auto
  then have "?d = take ?p ?d @ pt @ replicate 7 0"
    using split_middle [OF p, of ?d] by (simp add: pt)
  moreover have "length (take ?p ?d) = unat (take ?p ?d ! 0 AND 7) + 3"
    using p by simp
  ultimately show ?rhs using len by blast
next
  assume ?rhs
  then obtain padding where len: "16 \<le> length ct" "length ct mod 8 = 0" "length ct \<le> encrypted_bound"
    and d: "decrypt_blocks ct (key_words key) = padding @ pt @ replicate 7 0"
    and pad: "length padding = unat (padding ! 0 AND 7) + 3" by (elim conjE exE)
  have "padding \<noteq> []" using pad by auto
  then have "(padding @ pt @ replicate 7 0) ! 0 = padding ! 0"
    by (simp add: nth_append)
  with len d pad show ?lhs
    by (simp add: decrypt_qq_tea_def BLOCK_LEN_def TRAILING_ZERO_LEN_def Let_def)
qed

text \<open>Whatever the padded encryption returns is a bounded whole number of blocks that decrypts back.\<close>

lemma encrypt_with_padding_decrypts:
  assumes "encrypt_qq_tea_with_padding plaintext key padding = Inr ct"
  shows "decrypt_qq_tea ct key = Inr plaintext \<and> length ct mod BLOCK_LEN = 0 \<and>
    length ct = padding_len (length plaintext) + length plaintext + 7 \<and> length ct \<le> encrypted_bound"
proof -
  let ?n = "length plaintext"
  let ?header = "of_nat (padding_len ?n - 3) OR 0xf8 :: u8"
  from assms have len: "?n \<le> MAX_PLAINTEXT_LEN" and pad: "length padding = padding_len ?n"
    and ct: "ct = encrypt_blocks (tea_buffer padding plaintext) (key_words key)"
    by (simp_all add: encrypt_with_padding_Inr)
  have total: "length ct = padding_len ?n + ?n + 7"
    using pad by (simp add: ct tea_buffer_def)
  have blocks: "length (tea_buffer padding plaintext) mod BLOCK_LEN = 0"
    using total padded_len_mod [of ?n] by (simp add: ct BLOCK_LEN_def)
  have "unat (?header AND 7) = padding_len ?n - 3"
    using padding_len_bounds [of ?n]
    by (subst header_low_bits) (simp_all add: unat_of_nat del: of_nat_diff)
  moreover have "(padding[0 := ?header]) ! 0 = ?header"
    using pad padding_len_bounds [of ?n] by (intro nth_list_update_eq) simp
  ultimately have "length (padding[0 := ?header]) = unat ((padding[0 := ?header]) ! 0 AND 7) + 3"
    using pad padding_len_bounds [of ?n] by simp
  moreover have "16 \<le> padding_len ?n + ?n + 7"
    using padded_len_mod [of ?n] padding_len_bounds [of ?n] by presburger
  ultimately have "decrypt_qq_tea ct key = Inr plaintext"
    unfolding decrypt_qq_tea_Inr total
    unfolding ct decrypt_encrypt_blocks [OF blocks]
    using padded_len_mod padded_len_bound [OF len] by (auto simp: tea_buffer_def)
  with total padded_len_mod [of ?n] padded_len_bound [OF len] show ?thesis
    by (simp add: BLOCK_LEN_def)
qed

lemma encrypt_qq_tea_decrypts:
  "encrypt_qq_tea fill plaintext key = Inr ct \<Longrightarrow> decrypt_qq_tea ct key = Inr plaintext"
  using encrypt_with_padding_decrypts by (auto simp: encrypt_qq_tea_def split: option.splits)

lemma tea_plaintext_shorter: "decrypt_qq_tea ct key = Inr pt \<Longrightarrow> length pt \<le> length ct"
proof -
  assume "decrypt_qq_tea ct key = Inr pt"
  then obtain padding where "decrypt_blocks ct (key_words key) = padding @ pt @ replicate 7 0"
    by (auto simp: decrypt_qq_tea_Inr)
  from arg_cong [OF this, of length] show ?thesis by simp
qed

section \<open>Properties\<close>

text \<open>
  The TEA block function is a permutation under every key: decrypting undoes encrypting and
  encrypting undoes decrypting, for every 64-bit block.
\<close>

theorem tea_block_permutation:
  "block_decrypt (block_encrypt v k) k = v \<and> block_encrypt (block_decrypt v k) k = v"
  by (simp add: block_decrypt_encrypt block_encrypt_decrypt)

text \<open>
  C5: Encryption is total on its documented domain and decryption inverts it. For every plaintext
  of at most 2 MiB and every entropy source that fills the buffer it is given, \<open>encrypt_qq_tea\<close>
  succeeds, its output is a whole number of blocks within the bound \<open>decrypt_qq_tea\<close> accepts, and
  decrypting it under the same key returns the plaintext.
\<close>

theorem tea_roundtrip:
  assumes len: "length plaintext \<le> MAX_PLAINTEXT_LEN"
    and fill: "fill (padding_len (length plaintext)) = Some padding"
      "length padding = padding_len (length plaintext)"
  shows "\<exists>ct. encrypt_qq_tea fill plaintext key = Inr ct \<and> decrypt_qq_tea ct key = Inr plaintext \<and>
    length ct mod BLOCK_LEN = 0 \<and> length ct \<le> encrypted_bound"
proof -
  obtain ct where ct: "encrypt_qq_tea_with_padding plaintext key padding = Inr ct"
    using len fill by (simp add: encrypt_with_padding_Inr)
  with fill have "encrypt_qq_tea fill plaintext key = Inr ct"
    by (simp add: encrypt_qq_tea_def)
  with encrypt_with_padding_decrypts [OF ct] show ?thesis
    by (elim conjE) (intro exI [of _ ct] conjI)
qed

theorem tea_roundtrip_witness:
  "\<exists>ct. encrypt_qq_tea (\<lambda>n. Some (replicate n 7)) [1, 2, 3] (replicate 16 0) = Inr ct \<and>
        decrypt_qq_tea ct (replicate 16 0) = Inr [1, 2, 3]"
  using tea_roundtrip [of "[1, 2, 3]" "\<lambda>n. Some (replicate n 7)" "replicate 6 7" "replicate 16 0"]
  by (auto simp: MAX_PLAINTEXT_LEN_def padding_len_mod)

text \<open>
  Decryption accepts nothing but padded buffers. Whatever ciphertext it accepts is the chained
  encryption of exactly one layout: the padding length that belongs to the payload length, the
  payload, seven zero bytes. The payload it returns is at most six bytes over the plaintext limit.
\<close>

theorem tea_decrypt_accepts_only_padded:
  assumes "decrypt_qq_tea ct key = Inr pt"
  shows "length pt \<le> MAX_PLAINTEXT_LEN + 6 \<and>
    (\<exists>padding. length padding = padding_len (length pt) \<and>
       unat (padding ! 0 AND 7) + 3 = padding_len (length pt) \<and>
       ct = encrypt_blocks (padding @ pt @ replicate 7 0) (key_words key))"
proof -
  from assms obtain padding where len: "length ct mod 8 = 0" "length ct \<le> encrypted_bound"
    and d: "decrypt_blocks ct (key_words key) = padding @ pt @ replicate 7 0"
    and pad: "length padding = unat (padding ! 0 AND 7) + 3"
    by (auto simp: decrypt_qq_tea_Inr)
  have total: "length ct = length padding + length pt + 7"
    using arg_cong [OF d, of length] by simp
  have "3 \<le> length padding" "length padding \<le> 10"
    using pad unat_and7_less [of "padding ! 0"] by simp_all
  then have p: "length padding = padding_len (length pt)"
    using len(1) total by (intro padding_len_unique) simp_all
  have "ct = encrypt_blocks (padding @ pt @ replicate 7 0) (key_words key)"
    using encrypt_decrypt_blocks [of ct "key_words key"] len(1) d by (simp add: BLOCK_LEN_def)
  moreover have "length pt \<le> MAX_PLAINTEXT_LEN + 6"
    using total len(2) \<open>3 \<le> length padding\<close> by (simp add: encrypted_bound_def)
  ultimately show ?thesis
    using p pad by auto
qed

theorem tea_decrypt_accepts_only_padded_witness:
  "\<exists>ct padding. decrypt_qq_tea ct (replicate 16 0) = Inr [5] \<and> length padding = padding_len 1 \<and>
     ct = encrypt_blocks (padding @ [5] @ replicate 7 0) (key_words (replicate 16 0))"
proof -
  let ?p = "[5, 0, 0, 0, 0, 0, 0, 0] :: bytes"
  let ?ct = "encrypt_blocks (?p @ [5] @ replicate 7 0) (key_words (replicate 16 0))"
  have "decrypt_blocks ?ct (key_words (replicate 16 0)) = ?p @ [5] @ replicate 7 0"
    by (rule decrypt_encrypt_blocks) (simp add: BLOCK_LEN_def)
  then have "decrypt_qq_tea ?ct (replicate 16 0) = Inr [5]"
    unfolding decrypt_qq_tea_Inr by (intro conjI exI [of _ ?p])
      (simp_all add: encrypted_bound_def MAX_PLAINTEXT_LEN_def)
  from tea_decrypt_accepts_only_padded [OF this] this show ?thesis
    by auto
qed

end
