(* ===== verification/Transport.thy ===== *)
theory Transport
  imports Prelude
begin

text \<open>
  The length-delimited TCP framing of \<open>crates/qq-transport\<close>: \<open>TransportConfig\<close> (\<open>config.rs\<close>),
  \<open>TransportError\<close> (\<open>error.rs\<close>) and \<open>QqTransport\<close> with \<open>read_frame\<close>, \<open>write_frame\<close> and
  \<open>validate_complete_frame\<close> (\<open>tcp.rs\<close>). The asynchronous stream is a parameter: \<open>recv n\<close> is
  one \<open>timeout(io_timeout, stream.read(buffer of n bytes))\<close>, \<open>send\<close> and \<open>flush\<close> are the two
  timed writes. What the code relies on of \<open>AsyncReadExt::read\<close> is \<open>stream_laws\<close>: it delivers
  the pending bytes in order, at most as many as asked for, and a read that times out or fails has
  taken nothing (the documented cancel safety).
\<close>

section \<open>Configuration\<close>

text \<open>\<open>Duration\<close> is its number of nanoseconds.\<close>

type_synonym duration = nat

datatype transport_error = InvalidConfiguration | InvalidFrame | Io | Timeout

record transport_config =
  connect_timeout :: duration
  io_timeout :: duration
  maximum_frame_len :: nat

definition HARD_MAX_FRAME_LEN :: nat where
  "HARD_MAX_FRAME_LEN = 2 * 1024 * 1024"

definition transport_config_new ::
  "duration \<Rightarrow> duration \<Rightarrow> nat \<Rightarrow> transport_error + transport_config" where
  "transport_config_new connect io maximum =
     (if connect = 0 \<or> io = 0 \<or> maximum < 4 \<or> HARD_MAX_FRAME_LEN < maximum
      then Inl InvalidConfiguration
      else Inr \<lparr>connect_timeout = connect, io_timeout = io, maximum_frame_len = maximum\<rparr>)"

definition transport_config_default :: transport_config where
  "transport_config_default =
     \<lparr>connect_timeout = 10 * 10 ^ 9, io_timeout = 15 * 10 ^ 9, maximum_frame_len = HARD_MAX_FRAME_LEN\<rparr>"

section \<open>The transport\<close>

datatype read_event = Data bytes | ReadElapsed | ReadFailed
datatype write_event = Written | WriteElapsed | WriteFailed

record 'st qq_transport =
  stream :: 'st
  config :: transport_config
  read_prefix :: bytes
  read_prefix_len :: nat
  frame_buffer :: bytes
  read_frame_len :: nat

definition from_stream :: "'st \<Rightarrow> transport_config \<Rightarrow> 'st qq_transport" where
  "from_stream st cfg =
     \<lparr>stream = st, config = cfg, read_prefix = replicate 4 0, read_prefix_len = 0,
      frame_buffer = [], read_frame_len = 0\<rparr>"

definition validate_complete_frame :: "bytes \<Rightarrow> nat \<Rightarrow> transport_error + unit" where
  "validate_complete_frame frame maximum =
     (if length frame < 4 then Inl InvalidFrame
      else let declared = unat (from_be (take 4 frame) :: u32) in
        if declared \<noteq> length frame \<or> maximum < declared then Inl InvalidFrame else Inr ())"

text \<open>The timed write and flush, with the two error conversions of the \<open>??\<close>.\<close>

definition timed_write ::
  "('st \<Rightarrow> write_event \<times> 'st) \<Rightarrow> ('st qq_transport, transport_error, unit) op" where
  "timed_write act t =
     (case act (stream t) of
        (Written, s) \<Rightarrow> (Inr (), t\<lparr>stream := s\<rparr>)
      | (WriteElapsed, s) \<Rightarrow> (Inl Timeout, t\<lparr>stream := s\<rparr>)
      | (WriteFailed, s) \<Rightarrow> (Inl Io, t\<lparr>stream := s\<rparr>))"

definition write_frame ::
  "(bytes \<Rightarrow> 'st \<Rightarrow> write_event \<times> 'st) \<Rightarrow> ('st \<Rightarrow> write_event \<times> 'st) \<Rightarrow> bytes \<Rightarrow>
   ('st qq_transport, transport_error, unit) op" where
  "write_frame send flush frame t =
     bindS (liftS (validate_complete_frame frame (maximum_frame_len (config t)))) (\<lambda>_.
     bindS (timed_write (send frame)) (\<lambda>_.
     timed_write flush)) t"

text \<open>Writing into \<open>buffer[offset..]\<close>: the buffer keeps its length.\<close>

definition overwrite :: "nat \<Rightarrow> bytes \<Rightarrow> bytes \<Rightarrow> bytes" where
  "overwrite offset bs buffer =
     take (length buffer) (take offset buffer @ bs @ drop (offset + length bs) buffer)"

lemma length_overwrite [simp]: "length (overwrite offset bs buffer) = length buffer"
  by (auto simp: overwrite_def min_def)

text \<open>The first loop of \<open>read_frame\<close>: the four bytes of the prefix.\<close>

function read_prefix_loop ::
  "(nat \<Rightarrow> 'st \<Rightarrow> read_event \<times> 'st) \<Rightarrow> ('st qq_transport, transport_error, unit) op" where
  "read_prefix_loop recv t =
     (if read_prefix_len t < 4 then
        (case recv (4 - read_prefix_len t) (stream t) of
           (ReadElapsed, s) \<Rightarrow> (Inl Timeout, t\<lparr>stream := s\<rparr>)
         | (ReadFailed, s) \<Rightarrow> (Inl Io, t\<lparr>stream := s\<rparr>)
         | (Data bs, s) \<Rightarrow>
             if bs = [] then (Inl Io, t\<lparr>stream := s\<rparr>)
             else read_prefix_loop recv
                    (t\<lparr>stream := s, read_prefix := overwrite (read_prefix_len t) bs (read_prefix t),
                       read_prefix_len := read_prefix_len t + length bs\<rparr>))
      else (Inr (), t))"
  by pat_completeness auto
termination
  by (relation "measure (\<lambda>(_, t). 4 - read_prefix_len t)") (auto simp: diff_less_mono2)

text \<open>The allocation between the loops: nothing when a frame is already being read.\<close>

definition open_frame :: "('st qq_transport, transport_error, unit) op" where
  "open_frame t =
     (if frame_buffer t \<noteq> [] then (Inr (), t)
      else let declared = unat (from_be (read_prefix t) :: u32) in
        if declared < 4 \<or> maximum_frame_len (config t) < declared then (Inl InvalidFrame, t)
        else (Inr (), t\<lparr>frame_buffer := overwrite 0 (read_prefix t) (replicate declared 0),
                        read_frame_len := 4\<rparr>))"

text \<open>The second loop: the rest of the frame.\<close>

function read_body_loop ::
  "(nat \<Rightarrow> 'st \<Rightarrow> read_event \<times> 'st) \<Rightarrow> ('st qq_transport, transport_error, unit) op" where
  "read_body_loop recv t =
     (if read_frame_len t < length (frame_buffer t) then
        (case recv (length (frame_buffer t) - read_frame_len t) (stream t) of
           (ReadElapsed, s) \<Rightarrow> (Inl Timeout, t\<lparr>stream := s\<rparr>)
         | (ReadFailed, s) \<Rightarrow> (Inl Io, t\<lparr>stream := s\<rparr>)
         | (Data bs, s) \<Rightarrow>
             if bs = [] then (Inl Io, t\<lparr>stream := s\<rparr>)
             else read_body_loop recv
                    (t\<lparr>stream := s,
                       frame_buffer := overwrite (read_frame_len t) bs (frame_buffer t),
                       read_frame_len := read_frame_len t + length bs\<rparr>))
      else (Inr (), t))"
  by pat_completeness auto
termination
  by (relation "measure (\<lambda>(_, t). length (frame_buffer t) - read_frame_len t)")
    (auto simp: diff_less_mono2)

declare read_prefix_loop.simps [simp del]
declare read_body_loop.simps [simp del]

definition take_frame :: "('st qq_transport, transport_error, bytes) op" where
  "take_frame t = (Inr (frame_buffer t), t\<lparr>read_prefix_len := 0, frame_buffer := [], read_frame_len := 0\<rparr>)"

definition read_frame ::
  "(nat \<Rightarrow> 'st \<Rightarrow> read_event \<times> 'st) \<Rightarrow> ('st qq_transport, transport_error, bytes) op" where
  "read_frame recv =
     bindS (read_prefix_loop recv) (\<lambda>_.
     bindS open_frame (\<lambda>_.
     bindS (read_body_loop recv) (\<lambda>_. take_frame)))"

section \<open>Stream laws and the reading invariant\<close>

definition stream_laws :: "(nat \<Rightarrow> 'st \<Rightarrow> read_event \<times> 'st) \<Rightarrow> ('st \<Rightarrow> bytes) \<Rightarrow> bool" where
  "stream_laws recv pending \<longleftrightarrow>
     (\<forall>n s s' bs. recv n s = (Data bs, s') \<longrightarrow> length bs \<le> n \<and> pending s = bs @ pending s') \<and>
     (\<forall>n s s'. recv n s = (ReadElapsed, s') \<longrightarrow> pending s' = pending s) \<and>
     (\<forall>n s s'. recv n s = (ReadFailed, s') \<longrightarrow> pending s' = pending s)"

text \<open>The bytes of the current frame taken from the stream so far.\<close>

definition partial_frame :: "'st qq_transport \<Rightarrow> bytes" where
  "partial_frame t =
     (if frame_buffer t = [] then take (read_prefix_len t) (read_prefix t)
      else take (read_frame_len t) (frame_buffer t))"

definition transport_ok :: "'st qq_transport \<Rightarrow> bool" where
  "transport_ok t \<longleftrightarrow> length (read_prefix t) = 4 \<and> read_prefix_len t \<le> 4 \<and>
     (frame_buffer t \<noteq> [] \<longrightarrow> read_prefix_len t = 4 \<and> 4 \<le> read_frame_len t \<and>
        read_frame_len t \<le> length (frame_buffer t) \<and> take 4 (frame_buffer t) = read_prefix t \<and>
        length (frame_buffer t) = unat (from_be (read_prefix t) :: u32) \<and>
        length (frame_buffer t) \<le> maximum_frame_len (config t))"

lemma transport_ok_new [simp]: "transport_ok (from_stream st cfg)"
  by (simp add: transport_ok_def from_stream_def)

lemma partial_frame_new [simp]: "partial_frame (from_stream st cfg) = []"
  by (simp add: partial_frame_def from_stream_def)

text \<open>
  What one call keeps and accounts for: the invariant, the configuration, and that the bytes of the
  unfinished frame and of the stream are together what they were.
\<close>

definition conserves :: "('st \<Rightarrow> bytes) \<Rightarrow> 'st qq_transport \<Rightarrow> 'st qq_transport \<Rightarrow> bool" where
  "conserves pending t t' \<longleftrightarrow> (transport_ok t \<longrightarrow> transport_ok t' \<and> config t' = config t \<and>
     partial_frame t' @ pending (stream t') = partial_frame t @ pending (stream t))"

lemma conserves_refl: "conserves pending t t"
  by (simp add: conserves_def)

lemma conserves_trans: "conserves pending t u \<Longrightarrow> conserves pending u v \<Longrightarrow> conserves pending t v"
  by (simp add: conserves_def)

lemma overwrite_fits:
  "offset + length bs \<le> length buffer \<Longrightarrow>
   overwrite offset bs buffer = take offset buffer @ bs @ drop (offset + length bs) buffer"
  unfolding overwrite_def by (rule take_all) simp

lemma take_overwrite_new:
  "offset + length bs \<le> length buffer \<Longrightarrow>
   take (offset + length bs) (overwrite offset bs buffer) = take offset buffer @ bs"
  by (simp add: overwrite_fits)

lemma take_overwrite_old:
  "k \<le> offset \<Longrightarrow> offset + length bs \<le> length buffer \<Longrightarrow>
   take k (overwrite offset bs buffer) = take k buffer"
  by (simp add: overwrite_fits min_def)

lemma overwrite_nonempty: "overwrite offset bs buffer = [] \<longleftrightarrow> buffer = []"
  by (metis length_0_conv length_overwrite)

text \<open>The three outcomes of one timed read, for both loops.\<close>

lemma conserves_idle:
  "pending s = pending (stream t) \<Longrightarrow> conserves pending t (t\<lparr>stream := s\<rparr>)"
  by (simp add: conserves_def transport_ok_def partial_frame_def)

lemma conserves_prefix_data:
  assumes "read_prefix_len t < 4" "length bs \<le> 4 - read_prefix_len t"
    "pending (stream t) = bs @ pending s"
  shows "conserves pending t (t\<lparr>stream := s, read_prefix := overwrite (read_prefix_len t) bs (read_prefix t),
     read_prefix_len := read_prefix_len t + length bs\<rparr>)"
  using assms by (auto simp: conserves_def transport_ok_def partial_frame_def take_overwrite_new)

lemma conserves_body_data:
  assumes "read_frame_len t < length (frame_buffer t)"
    "length bs \<le> length (frame_buffer t) - read_frame_len t"
    "pending (stream t) = bs @ pending s"
  shows "conserves pending t (t\<lparr>stream := s, frame_buffer := overwrite (read_frame_len t) bs (frame_buffer t),
     read_frame_len := read_frame_len t + length bs\<rparr>)"
  using assms
  by (auto simp: conserves_def transport_ok_def partial_frame_def take_overwrite_new
      take_overwrite_old overwrite_nonempty)

lemma read_prefix_loop_conserves:
  assumes "stream_laws recv pending"
  shows "conserves pending t (snd (read_prefix_loop recv t))"
  using assms
proof (induction recv t rule: read_prefix_loop.induct)
  case (1 recv t)
  show ?case
  proof (cases "read_prefix_len t < 4")
    case False
    then show ?thesis
      by (simp add: read_prefix_loop.simps [of recv t] conserves_refl)
  next
    case lt: True
    obtain e s where e: "recv (4 - read_prefix_len t) (stream t) = (e, s)"
      by fastforce
    show ?thesis
    proof (cases e)
      case (Data bs)
      let ?t = "t\<lparr>stream := s, read_prefix := overwrite (read_prefix_len t) bs (read_prefix t),
        read_prefix_len := read_prefix_len t + length bs\<rparr>"
      have laws: "length bs \<le> 4 - read_prefix_len t" "pending (stream t) = bs @ pending s"
        using e Data "1.prems" by (auto simp: stream_laws_def)
      show ?thesis
      proof (cases "bs = []")
        case True
        with lt e Data laws show ?thesis
          by (simp add: read_prefix_loop.simps [of recv t] conserves_idle)
      next
        case False
        have "conserves pending ?t (snd (read_prefix_loop recv ?t))"
          using "1.IH" [OF lt e [symmetric] Data False "1.prems"] by simp
        with conserves_prefix_data [OF lt laws]
        have "conserves pending t (snd (read_prefix_loop recv ?t))"
          by (rule conserves_trans)
        with lt e Data False show ?thesis
          by (simp add: read_prefix_loop.simps [of recv t])
      qed
    qed (use lt e "1.prems" in \<open>auto simp: read_prefix_loop.simps [of recv t] stream_laws_def
          intro: conserves_idle\<close>)
  qed
qed

lemma read_body_loop_conserves:
  assumes "stream_laws recv pending"
  shows "conserves pending t (snd (read_body_loop recv t))"
  using assms
proof (induction recv t rule: read_body_loop.induct)
  case (1 recv t)
  show ?case
  proof (cases "read_frame_len t < length (frame_buffer t)")
    case False
    then show ?thesis
      by (simp add: read_body_loop.simps [of recv t] conserves_refl)
  next
    case lt: True
    obtain e s where e: "recv (length (frame_buffer t) - read_frame_len t) (stream t) = (e, s)"
      by fastforce
    show ?thesis
    proof (cases e)
      case (Data bs)
      let ?t = "t\<lparr>stream := s, frame_buffer := overwrite (read_frame_len t) bs (frame_buffer t),
        read_frame_len := read_frame_len t + length bs\<rparr>"
      have laws: "length bs \<le> length (frame_buffer t) - read_frame_len t"
          "pending (stream t) = bs @ pending s"
        using e Data "1.prems" by (auto simp: stream_laws_def)
      show ?thesis
      proof (cases "bs = []")
        case True
        with lt e Data laws show ?thesis
          by (simp add: read_body_loop.simps [of recv t] conserves_idle)
      next
        case False
        have "conserves pending ?t (snd (read_body_loop recv ?t))"
          using "1.IH" [OF lt e [symmetric] Data False "1.prems"] by simp
        with conserves_body_data [OF lt laws]
        have "conserves pending t (snd (read_body_loop recv ?t))"
          by (rule conserves_trans)
        with lt e Data False show ?thesis
          by (simp add: read_body_loop.simps [of recv t])
      qed
    qed (use lt e "1.prems" in \<open>auto simp: read_body_loop.simps [of recv t] stream_laws_def
          intro: conserves_idle\<close>)
  qed
qed

lemma read_prefix_loop_done:
  "read_prefix_loop recv t = (Inr (), t') \<Longrightarrow> 4 \<le> read_prefix_len t'"
proof (induction recv t rule: read_prefix_loop.induct)
  case (1 recv t)
  from "1.prems" show ?case
    unfolding read_prefix_loop.simps [of recv t]
    by (auto dest: "1.IH" [OF _ sym refl] split: if_splits prod.splits read_event.splits)
qed

lemma read_body_loop_done:
  "read_body_loop recv t = (Inr (), t') \<Longrightarrow>
   length (frame_buffer t') \<le> read_frame_len t' \<and> length (frame_buffer t') = length (frame_buffer t)"
proof (induction recv t rule: read_body_loop.induct)
  case (1 recv t)
  from "1.prems" show ?case
    unfolding read_body_loop.simps [of recv t]
    by (auto dest: "1.IH" [OF _ sym refl] split: if_splits prod.splits read_event.splits)
qed

lemma open_frame_conserves:
  assumes "open_frame t = (r, t')" "read_prefix_len t = 4"
  shows "conserves pending t t' \<and> (is_ok r \<longrightarrow> frame_buffer t' \<noteq> [])"
proof -
  have "take 4 (overwrite 0 (read_prefix t) (replicate n 0)) = read_prefix t"
    if "length (read_prefix t) = 4" "4 \<le> n" for n
    using take_overwrite_new [of 0 "read_prefix t" "replicate n 0"] that by simp
  then show ?thesis
    using assms
    by (auto simp: open_frame_def conserves_def transport_ok_def partial_frame_def Let_def
        overwrite_nonempty split: if_splits)
qed

lemma validate_complete_frame_Inr:
  "validate_complete_frame f m = Inr u \<longleftrightarrow>
     4 \<le> length f \<and> unat (from_be (take 4 f) :: u32) = length f \<and> length f \<le> m"
  by (auto simp: validate_complete_frame_def Let_def)

definition received :: "transport_error + bytes \<Rightarrow> bytes" where
  "received r = (case r of Inl _ \<Rightarrow> [] | Inr f \<Rightarrow> f)"

text \<open>One call of \<open>read_frame\<close>, on every exit: no byte is lost and none is invented.\<close>

lemma read_frame_accounts:
  assumes laws: "stream_laws recv pending" and wf: "transport_ok t"
    and rf: "read_frame recv t = (r, t')"
  shows "transport_ok t' \<and> config t' = config t \<and>
    partial_frame t @ pending (stream t) = received r @ partial_frame t' @ pending (stream t') \<and>
    (\<forall>f. r = Inr f \<longrightarrow> validate_complete_frame f (maximum_frame_len (config t)) = Inr () \<and>
       partial_frame t' = [])"
proof -
  have failed: ?thesis if "conserves pending t t'" "r = Inl e" for e
    using that wf by (simp add: conserves_def received_def)
  from rf show ?thesis
    unfolding read_frame_def
  proof (cases rule: bindS_cases)
    case (err e)
    with read_prefix_loop_conserves [OF laws, of t] show ?thesis
      by (intro failed) simp_all
  next
    case (ok _ t1)
    have loop1: "read_prefix_loop recv t = (Inr (), t1)"
      using ok(1) by simp
    have c1: "conserves pending t t1"
      using read_prefix_loop_conserves [OF laws, of t] loop1 by simp
    then have "transport_ok t1"
      using wf by (simp only: conserves_def)
    with read_prefix_loop_done [OF loop1] have p4: "read_prefix_len t1 = 4"
      by (simp add: transport_ok_def)
    from ok(2) show ?thesis
    proof (cases rule: bindS_cases)
      case (err e)
      have "conserves pending t1 t'"
        using open_frame_conserves [OF err(1) p4] by simp
      then show ?thesis
        by (rule failed [OF conserves_trans [OF c1] err(2)])
    next
      case (ok _ t2)
      have c2: "conserves pending t t2" and ne: "frame_buffer t2 \<noteq> []"
        using open_frame_conserves [OF ok(1) p4] c1 by (auto intro: conserves_trans)
      from ok(2) show ?thesis
      proof (cases rule: bindS_cases)
        case (err e)
        then have "conserves pending t2 t'"
          using read_body_loop_conserves [OF laws, of t2] by simp
        then show ?thesis
          by (rule failed [OF conserves_trans [OF c2] err(2)])
      next
        case (ok _ t3)
        have c3: "conserves pending t t3"
          using read_body_loop_conserves [OF laws, of t2] c2 ok(1) by (auto intro: conserves_trans)
        then have "transport_ok t3" "config t3 = config t"
          using wf by (simp_all only: conserves_def)
        moreover have "length (frame_buffer t3) \<le> read_frame_len t3" "frame_buffer t3 \<noteq> []"
          using read_body_loop_done [of recv t2 t3] ok(1) ne by auto
        moreover have "partial_frame t3 @ pending (stream t3) = partial_frame t @ pending (stream t)"
          using c3 wf by (simp only: conserves_def)
        ultimately show ?thesis
          using ok(2)
          by (auto simp: take_frame_def transport_ok_def partial_frame_def received_def
              validate_complete_frame_Inr)
      qed
    qed
  qed
qed

section \<open>Sequences of reads\<close>

text \<open>\<open>n\<close> calls of \<open>read_frame\<close>, errors between them included, and the frames they returned.\<close>

fun read_frames ::
  "(nat \<Rightarrow> 'st \<Rightarrow> read_event \<times> 'st) \<Rightarrow> nat \<Rightarrow> 'st qq_transport \<Rightarrow> bytes list \<times> 'st qq_transport" where
  "read_frames recv 0 t = ([], t)"
| "read_frames recv (Suc n) t =
     (case read_frame recv t of
        (Inl _, t') \<Rightarrow> read_frames recv n t'
      | (Inr f, t') \<Rightarrow> (case read_frames recv n t' of (fs, t'') \<Rightarrow> (f # fs, t'')))"

definition complete_frame :: "nat \<Rightarrow> bytes \<Rightarrow> bool" where
  "complete_frame maximum f \<longleftrightarrow> validate_complete_frame f maximum = Inr ()"

lemma read_frames_account:
  assumes laws: "stream_laws recv pending"
  shows "transport_ok t \<Longrightarrow> read_frames recv n t = (fs, t') \<Longrightarrow>
    transport_ok t' \<and> list_all (complete_frame (maximum_frame_len (config t))) fs \<and>
    partial_frame t @ pending (stream t) = concat fs @ partial_frame t' @ pending (stream t')"
proof (induction n arbitrary: t fs t')
  case 0
  then show ?case by simp
next
  case (Suc n)
  obtain r u where r: "read_frame recv t = (r, u)" by fastforce
  note one = read_frame_accounts [OF laws Suc.prems(1) r]
  obtain gs v where gs: "read_frames recv n u = (gs, v)" by fastforce
  from one have "transport_ok u" by simp
  note rest = Suc.IH [OF this gs]
  show ?case
  proof (cases r)
    case (Inl e)
    with Suc.prems r gs one rest show ?thesis by (simp add: received_def)
  next
    case (Inr f)
    with Suc.prems r gs have "fs = f # gs" "t' = v" by auto
    with Inr one rest show ?thesis by (simp add: received_def complete_frame_def)
  qed
qed

text \<open>Complete frames are self-delimiting, so a byte string splits into them in one way.\<close>

lemma complete_frame_cancel:
  assumes "complete_frame m f" "complete_frame m g" "f @ xs = g @ ys"
  shows "f = g \<and> xs = ys"
proof -
  have "take 4 (f @ xs) = take 4 (g @ ys)" using assms(3) by simp
  then have "take 4 f = take 4 g"
    using assms(1,2) by (simp add: complete_frame_def validate_complete_frame_Inr)
  then have "length f = length g"
    using assms(1,2) unfolding complete_frame_def validate_complete_frame_Inr by metis
  with assms(3) show ?thesis by simp
qed

lemma complete_frames_prefix:
  "list_all (complete_frame m) fs \<Longrightarrow> list_all (complete_frame m) gs \<Longrightarrow>
   concat fs @ xs = concat gs \<Longrightarrow> \<exists>hs. gs = fs @ hs \<and> xs = concat hs"
proof (induction fs arbitrary: gs)
  case Nil
  then show ?case by simp
next
  case (Cons f fs)
  have "f \<noteq> []"
    using Cons.prems(1) by (auto simp: complete_frame_def validate_complete_frame_Inr)
  with Cons.prems(3) obtain g gs' where gs: "gs = g # gs'" by (cases gs) auto
  then have "f = g \<and> concat fs @ xs = concat gs'"
    using Cons.prems by (intro complete_frame_cancel) auto
  with Cons gs show ?case by auto
qed

lemma write_frame_valid:
  "write_frame send flush frame t = (r, t') \<Longrightarrow> t' \<noteq> t \<or> r = Inr () \<Longrightarrow>
   validate_complete_frame frame (maximum_frame_len (config t)) = Inr ()"
  by (cases "validate_complete_frame frame (maximum_frame_len (config t))")
    (auto simp: write_frame_def bindS_def liftS_def)

text \<open>
  The contract between an encoder of outbound frames and the transport: what the encoder returns
  declares its own length and fits a bound. \<open>write_frame\<close> then never refuses it, and a peer that
  reads with the same framing gets exactly the frames encoded.
\<close>

locale frame_source =
  fixes encode :: "'p \<Rightarrow> 'e + bytes"
    and bound :: nat
  assumes encode_complete: "encode p = Inr f \<Longrightarrow> complete_frame bound f"
begin

lemma encode_writable:
  assumes "encode p = Inr f" "bound \<le> maximum_frame_len (config t)"
  shows "write_frame send flush f t = bindS (timed_write (send f)) (\<lambda>_. timed_write flush) t"
proof -
  have "validate_complete_frame f (maximum_frame_len (config t)) = Inr ()"
    using encode_complete [OF assms(1)] assms(2)
    by (simp add: complete_frame_def validate_complete_frame_Inr)
  then show ?thesis
    by (simp add: write_frame_def bindS_def liftS_def)
qed

lemma encode_delimited:
  "encode p = Inr f \<Longrightarrow> encode q = Inr g \<Longrightarrow> f @ xs = g @ ys \<Longrightarrow> f = g \<and> xs = ys"
  by (rule complete_frame_cancel [OF encode_complete encode_complete])

end

section \<open>Progress\<close>

text \<open>A stream that neither stalls nor fails while bytes are pending.\<close>

definition stream_live :: "(nat \<Rightarrow> 'st \<Rightarrow> read_event \<times> 'st) \<Rightarrow> ('st \<Rightarrow> bytes) \<Rightarrow> bool" where
  "stream_live recv pending \<longleftrightarrow>
     (\<forall>n s. 0 < n \<longrightarrow> pending s \<noteq> [] \<longrightarrow> (\<exists>bs s'. recv n s = (Data bs, s') \<and> bs \<noteq> []))"

lemma live_data:
  assumes "stream_laws recv pending" "stream_live recv pending" "0 < n" "pending s \<noteq> []"
  obtains bs s' where "recv n s = (Data bs, s')" "bs \<noteq> []" "length bs \<le> n"
    "pending s = bs @ pending s'"
proof -
  obtain bs s' where e: "recv n s = (Data bs, s')" "bs \<noteq> []"
    using assms(2-4) unfolding stream_live_def by blast
  with assms(1) have "length bs \<le> n \<and> pending s = bs @ pending s'"
    by (auto simp: stream_laws_def)
  with e that show thesis by blast
qed

lemma read_prefix_loop_live:
  "stream_laws recv pending \<Longrightarrow> stream_live recv pending \<Longrightarrow>
   4 \<le> read_prefix_len t + length (pending (stream t)) \<Longrightarrow>
   \<exists>t'. read_prefix_loop recv t = (Inr (), t')"
proof (induction recv t rule: read_prefix_loop.induct)
  case (1 recv t)
  show ?case
  proof (cases "read_prefix_len t < 4")
    case True
    then have "0 < 4 - read_prefix_len t" "pending (stream t) \<noteq> []"
      using "1.prems"(3) by auto
    from live_data [OF "1.prems"(1,2) this] obtain bs s where
      e: "recv (4 - read_prefix_len t) (stream t) = (Data bs, s)" "bs \<noteq> []"
        "pending (stream t) = bs @ pending s" by metis
    have "4 \<le> read_prefix_len t + length bs + length (pending s)"
      using "1.prems"(3) e(3) by simp
    with "1.IH" [OF True e(1) [symmetric] refl e(2) "1.prems"(1,2)] True e show ?thesis
      by (simp add: read_prefix_loop.simps [of recv t])
  qed (simp add: read_prefix_loop.simps)
qed

lemma read_body_loop_live:
  "stream_laws recv pending \<Longrightarrow> stream_live recv pending \<Longrightarrow>
   length (frame_buffer t) \<le> read_frame_len t + length (pending (stream t)) \<Longrightarrow>
   \<exists>t'. read_body_loop recv t = (Inr (), t')"
proof (induction recv t rule: read_body_loop.induct)
  case (1 recv t)
  show ?case
  proof (cases "read_frame_len t < length (frame_buffer t)")
    case True
    then have "0 < length (frame_buffer t) - read_frame_len t" "pending (stream t) \<noteq> []"
      using "1.prems"(3) by auto
    from live_data [OF "1.prems"(1,2) this] obtain bs s where
      e: "recv (length (frame_buffer t) - read_frame_len t) (stream t) = (Data bs, s)" "bs \<noteq> []"
        "pending (stream t) = bs @ pending s" by metis
    have "length (frame_buffer t) \<le> read_frame_len t + length bs + length (pending s)"
      using "1.prems"(3) e(3) by simp
    with "1.IH" [OF True e(1) [symmetric] refl e(2) "1.prems"(1,2)] True e show ?thesis
      by (simp add: read_body_loop.simps [of recv t])
  qed (simp add: read_body_loop.simps)
qed

lemma open_prefix:
  assumes "transport_ok t" "read_prefix_len t = 4" "4 \<le> length f"
    and "partial_frame t @ ps = f @ rest"
  shows "read_prefix t = take 4 f"
proof -
  have "take 4 (partial_frame t) = read_prefix t \<and> 4 \<le> length (partial_frame t)"
    using assms(1,2) by (auto simp: transport_ok_def partial_frame_def min_def)
  with arg_cong [OF assms(4), of "take 4"] assms(3) show ?thesis
    by simp
qed

lemma partial_frame_length:
  "transport_ok t \<Longrightarrow> length (partial_frame t) =
     (if frame_buffer t = [] then read_prefix_len t else read_frame_len t)"
  by (auto simp: transport_ok_def partial_frame_def)

lemma read_frame_live:
  assumes laws: "stream_laws recv pending" "stream_live recv pending" and wf: "transport_ok t"
    and f: "complete_frame (maximum_frame_len (config t)) f"
    and next_frame: "partial_frame t @ pending (stream t) = f @ rest"
  obtains t' where "read_frame recv t = (Inr f, t')"
proof -
  have f4: "4 \<le> length f" "unat (from_be (take 4 f) :: u32) = length f"
      "length f \<le> maximum_frame_len (config t)"
    using f by (simp_all add: complete_frame_def validate_complete_frame_Inr)
  have total: "length f \<le> length (partial_frame t) + length (pending (stream t))"
    using arg_cong [OF next_frame, of length] by simp
  have "4 \<le> read_prefix_len t + length (pending (stream t))"
    using wf total f4(1) partial_frame_length [OF wf]
    by (cases "frame_buffer t = []") (auto simp: transport_ok_def)
  from read_prefix_loop_live [OF laws this] obtain t1 where 1: "read_prefix_loop recv t = (Inr (), t1)" ..
  then have c1: "conserves pending t t1"
    using read_prefix_loop_conserves [OF laws(1), of t] by simp
  then have ok1: "transport_ok t1" "config t1 = config t"
      "partial_frame t1 @ pending (stream t1) = f @ rest"
    using wf next_frame by (simp_all only: conserves_def)
  have p4: "read_prefix_len t1 = 4"
    using ok1(1) read_prefix_loop_done [OF 1] by (simp add: transport_ok_def)
  have prefix: "read_prefix t1 = take 4 f"
    by (rule open_prefix [OF ok1(1) p4 f4(1) ok1(3)])
  have "fst (open_frame t1) = Inr ()"
    using f4 prefix ok1(2) by (simp add: open_frame_def Let_def)
  then obtain t2 where 2: "open_frame t1 = (Inr (), t2)"
    by (cases "open_frame t1") simp
  have c2: "conserves pending t1 t2" "frame_buffer t2 \<noteq> []"
    using open_frame_conserves [OF 2 p4] by simp_all
  then have ok2: "transport_ok t2" "partial_frame t2 @ pending (stream t2) = f @ rest"
    using ok1 by (simp_all only: conserves_def)
  then have "read_prefix t2 = take 4 f"
    using c2(2) by (intro open_prefix [OF _ _ f4(1)]) (auto simp: transport_ok_def)
  then have "length (frame_buffer t2) = length f"
    using ok2(1) c2(2) f4(2) by (simp add: transport_ok_def)
  moreover have "length f \<le> length (partial_frame t2) + length (pending (stream t2))"
    using arg_cong [OF ok2(2), of length] by simp
  ultimately have "length (frame_buffer t2) \<le> read_frame_len t2 + length (pending (stream t2))"
    using partial_frame_length [OF ok2(1)] c2(2) by simp
  from read_body_loop_live [OF laws this] obtain t3 where "read_body_loop recv t2 = (Inr (), t3)" ..
  with 1 2 obtain g t' where res: "read_frame recv t = (Inr g, t')"
    by (simp add: read_frame_def bindS_def take_frame_def)
  from read_frame_accounts [OF laws(1) wf this]
  have g: "complete_frame (maximum_frame_len (config t)) g"
    and bytes: "partial_frame t @ pending (stream t) = g @ partial_frame t' @ pending (stream t')"
    by (simp_all add: received_def complete_frame_def)
  have "g = f"
    using complete_frame_cancel [OF g f] bytes next_frame by metis
  with res that show thesis by simp
qed

section \<open>Properties\<close>

text \<open>
  C1: No byte of the stream is lost, duplicated or reordered by framing, whatever timeouts and I/O
  errors interrupt the reads. After any number of \<open>read_frame\<close> calls on a fresh connection the frames
  returned, then the bytes held back, then those still in the stream are exactly the bytes of the
  stream, whatever the peer sends; every frame returned is complete, of its own declared length within
  the maximum; and when the peer sends complete frames, those returned are the first of them, in order,
  and what is held back and still to come are exactly the others.
\<close>

theorem read_frames_resumable:
  assumes laws: "stream_laws recv pending"
    and run: "read_frames recv n (from_stream st cfg) = (got, t)"
  shows "concat got @ partial_frame t @ pending (stream t) = pending st \<and>
    list_all (complete_frame (maximum_frame_len cfg)) got \<and>
    (\<forall>frames. pending st = concat frames \<and> list_all (complete_frame (maximum_frame_len cfg)) frames \<longrightarrow>
       (\<exists>missing. frames = got @ missing \<and> partial_frame t @ pending (stream t) = concat missing))"
proof -
  note account = read_frames_account [OF laws transport_ok_new run]
  have bytes: "concat got @ partial_frame t @ pending (stream t) = pending st"
    using account by (simp add: from_stream_def partial_frame_def)
  moreover have got: "list_all (complete_frame (maximum_frame_len cfg)) got"
    using account by (simp add: from_stream_def)
  moreover have "\<exists>missing. frames = got @ missing \<and> partial_frame t @ pending (stream t) = concat missing"
    if "pending st = concat frames" "list_all (complete_frame (maximum_frame_len cfg)) frames" for frames
  proof -
    from bytes that(1) have "concat got @ partial_frame t @ pending (stream t) = concat frames" by simp
    from complete_frames_prefix [OF got that(2) this] show ?thesis .
  qed
  ultimately show ?thesis by blast
qed

text \<open>A scripted stream: chunks the network delivers one read at a time, and interruptions.\<close>

fun scripted_recv :: "nat \<Rightarrow> read_event list \<Rightarrow> read_event \<times> read_event list" where
  "scripted_recv n [] = (ReadElapsed, [])"
| "scripted_recv n (Data bs # es) =
     (if length bs \<le> n then (Data bs, es) else (Data (take n bs), Data (drop n bs) # es))"
| "scripted_recv n (e # es) = (e, es)"

fun scripted_pending :: "read_event list \<Rightarrow> bytes" where
  "scripted_pending [] = []"
| "scripted_pending (Data bs # es) = bs @ scripted_pending es"
| "scripted_pending (_ # es) = scripted_pending es"

lemma scripted_laws: "stream_laws scripted_recv scripted_pending"
proof -
  have "\<forall>s'. scripted_recv n s = (Data bs, s') \<longrightarrow> length bs \<le> n \<and> scripted_pending s = bs @ scripted_pending s'"
    "\<forall>s'. scripted_recv n s = (ReadElapsed, s') \<longrightarrow> scripted_pending s' = scripted_pending s"
    "\<forall>s'. scripted_recv n s = (ReadFailed, s') \<longrightarrow> scripted_pending s' = scripted_pending s" for n s bs
    by (cases "(n, s)" rule: scripted_recv.cases; auto split: if_splits)+
  then show ?thesis by (simp add: stream_laws_def)
qed

text \<open>The loops one round at a time, for evaluation.\<close>

lemma read_loop_rounds:
  "\<not> read_prefix_len t < 4 \<Longrightarrow> read_prefix_loop recv t = (Inr (), t)"
  "read_prefix_len t < 4 \<Longrightarrow> recv (4 - read_prefix_len t) (stream t) = (Data (b # bs), s) \<Longrightarrow>
   read_prefix_loop recv t = read_prefix_loop recv
     (t\<lparr>stream := s, read_prefix := overwrite (read_prefix_len t) (b # bs) (read_prefix t),
        read_prefix_len := read_prefix_len t + length (b # bs)\<rparr>)"
  "read_prefix_len t < 4 \<Longrightarrow> recv (4 - read_prefix_len t) (stream t) = (ReadElapsed, s) \<Longrightarrow>
   read_prefix_loop recv t = (Inl Timeout, t\<lparr>stream := s\<rparr>)"
  "\<not> read_frame_len t < length (frame_buffer t) \<Longrightarrow> read_body_loop recv t = (Inr (), t)"
  "read_frame_len t < length (frame_buffer t) \<Longrightarrow>
   recv (length (frame_buffer t) - read_frame_len t) (stream t) = (Data (b # bs), s) \<Longrightarrow>
   read_body_loop recv t = read_body_loop recv
     (t\<lparr>stream := s, frame_buffer := overwrite (read_frame_len t) (b # bs) (frame_buffer t),
        read_frame_len := read_frame_len t + length (b # bs)\<rparr>)"
  by (simp_all add: read_prefix_loop.simps [of recv t] read_body_loop.simps [of recv t])

lemma scripted_run:
  "\<exists>t. read_frames scripted_recv (Suc (Suc (Suc 0)))
     (from_stream [Data [0, 0], ReadElapsed, Data [0, 5, 9], Data [0]] transport_config_default) =
     ([[0, 0, 0, 5, 9]], t)"
proof -
  have zeros: "replicate 5 (0 :: u8) = [0, 0, 0, 0, 0]" by (simp add: eval_nat_numeral)
  show ?thesis
    by (simp add: read_frame_def bindS_def read_loop_rounds open_frame_def take_frame_def
      from_stream_def transport_config_default_def HARD_MAX_FRAME_LEN_def overwrite_def
      from_be_def be_nat_def Let_def zeros)
qed

theorem read_frames_resumable_witness:
  "\<exists>t. read_frames scripted_recv (Suc (Suc (Suc 0)))
     (from_stream [Data [0, 0], ReadElapsed, Data [0, 5, 9], Data [0]] transport_config_default) =
     ([[0, 0, 0, 5, 9]], t) \<and>
     concat [[0, 0, 0, 5, 9]] @ partial_frame t @ scripted_pending (stream t) = [0, 0, 0, 5, 9, 0] \<and>
     list_all (complete_frame (maximum_frame_len transport_config_default)) [[0, 0, 0, 5, 9]]"
proof -
  obtain t where run: "read_frames scripted_recv (Suc (Suc (Suc 0)))
     (from_stream [Data [0, 0], ReadElapsed, Data [0, 5, 9], Data [0]] transport_config_default) =
     ([[0, 0, 0, 5, 9]], t)" using scripted_run by blast
  from read_frames_resumable [OF scripted_laws run] run show ?thesis by (intro exI [of _ t]) simp
qed

text \<open>
  C12: A contradictory declared length is terminal for reading. Once the four bytes of the prefix
  are in and declare less than four or more than the configured maximum, every later
  \<open>read_frame\<close> returns \<open>InvalidFrame\<close>, takes nothing more from the stream and changes nothing.
\<close>

theorem invalid_prefix_is_sticky:
  assumes "read_prefix_len t = 4" "frame_buffer t = []"
    and "unat (from_be (read_prefix t) :: u32) < 4 \<or>
         maximum_frame_len (config t) < unat (from_be (read_prefix t) :: u32)"
  shows "read_frame recv t = (Inl InvalidFrame, t)"
proof -
  have "read_prefix_loop recv t = (Inr (), t)"
    using assms(1) by (simp add: read_prefix_loop.simps)
  moreover have "open_frame t = (Inl InvalidFrame, t)"
    using assms(2,3) by (simp add: open_frame_def Let_def)
  ultimately show ?thesis
    by (simp add: read_frame_def bindS_def)
qed

theorem invalid_prefix_is_sticky_witness:
  "read_frame scripted_recv ((from_stream [Data [1]] transport_config_default)
      \<lparr>read_prefix := [0, 0, 0, 3], read_prefix_len := 4\<rparr>) =
   (Inl InvalidFrame, (from_stream [Data [1]] transport_config_default)
      \<lparr>read_prefix := [0, 0, 0, 3], read_prefix_len := 4\<rparr>)"
  by (rule invalid_prefix_is_sticky) (simp_all add: from_stream_def from_be_def be_nat_def)

text \<open>
  Reading makes progress. When the stream delivers whatever is pending without stalling, one
  \<open>read_frame\<close> from any reachable state, an interrupted read included, returns exactly the next
  complete frame and leaves the bytes after it in the stream.
\<close>

theorem read_frame_returns_next:
  assumes laws: "stream_laws recv pending" "stream_live recv pending" and wf: "transport_ok t"
    and f: "complete_frame (maximum_frame_len (config t)) f"
    and next_frame: "partial_frame t @ pending (stream t) = f @ rest"
  shows "\<exists>t'. read_frame recv t = (Inr f, t') \<and> transport_ok t' \<and> pending (stream t') = rest"
proof -
  obtain t' where r: "read_frame recv t = (Inr f, t')"
    using read_frame_live [OF assms] by blast
  from read_frame_accounts [OF laws(1) wf this] next_frame r show ?thesis
    by (auto simp: received_def)
qed

text \<open>A stream that hands out one byte per read.\<close>

definition byte_recv :: "nat \<Rightarrow> bytes \<Rightarrow> read_event \<times> bytes" where
  "byte_recv n st = (if n = 0 \<or> st = [] then (Data [], st) else (Data [hd st], tl st))"

theorem read_frame_returns_next_witness:
  "\<exists>t'. read_frame byte_recv ((from_stream [4, 7] transport_config_default)
          \<lparr>read_prefix := [0, 0, 0, 0], read_prefix_len := 3\<rparr>) = (Inr [0, 0, 0, 4], t') \<and>
        transport_ok t' \<and> stream t' = [7]"
proof -
  let ?t = "(from_stream [4, 7] transport_config_default)\<lparr>read_prefix := [0, 0, 0, 0], read_prefix_len := 3\<rparr>"
  have "stream_laws byte_recv (\<lambda>st. st)" "stream_live byte_recv (\<lambda>st. st)"
    by (auto simp: stream_laws_def stream_live_def byte_recv_def split: if_splits)
  moreover have "transport_ok ?t" "complete_frame (maximum_frame_len (config ?t)) [0, 0, 0, 4]"
    "partial_frame ?t @ stream ?t = [0, 0, 0, 4] @ [7]"
    by (simp_all add: transport_ok_def from_stream_def complete_frame_def partial_frame_def
        validate_complete_frame_Inr from_be_def be_nat_def transport_config_default_def
        HARD_MAX_FRAME_LEN_def numeral_3_eq_3)
  ultimately show ?thesis
    by (rule read_frame_returns_next)
qed

end
