(* ===== verification/Envelope.thy ===== *)
theory Envelope
  imports Wire Tea Rust_Str Transport
begin

text \<open>
  The SSO and service envelopes of \<open>crates/qq-envelope/src/transport\<close>: the signed SSO request and
  the SSO response (\<open>sso.rs\<close>), the encrypted protocol-12 service frame (\<open>service.rs\<close>) and their
  composition under a session's authentication state (\<open>session.rs\<close>). Each \<open>decode\<close> is proved to
  accept exactly one layout, each \<open>encode\<close> to emit it.
\<close>

section \<open>Errors\<close>

datatype envelope_error = EWire | ECrypto | InvalidField | Unsupported

text \<open>\<open>impl From<WireError>\<close> and \<open>impl From<QqTeaError>\<close>.\<close>

definition envelope_from_wire :: "wire_error \<Rightarrow> envelope_error" where
  "envelope_from_wire e = EWire"

definition envelope_from_tea :: "tea_error \<Rightarrow> envelope_error" where
  "envelope_from_tea e = ECrypto"

abbreviation wire :: "('s, wire_error, 'a) op \<Rightarrow> ('s, envelope_error, 'a) op" where
  "wire \<equiv> map_errS envelope_from_wire"

definition MAX_PACKET_LEN :: nat where
  "MAX_PACKET_LEN = 2 * 1024 * 1024"

section \<open>SSO requests and responses\<close>

definition FIXED_HEADER_VALUE :: bytes where
  "FIXED_HEADER_VALUE = [2, 0, 0, 0, 0, 0, 0, 0, 0, 0, 0, 0]"

definition MAX_COMMAND_LEN :: nat where
  "MAX_COMMAND_LEN = 128"

definition MAX_VERSION_LEN :: nat where
  "MAX_VERSION_LEN = 64"

definition MAX_RESPONSE_EXTENSION_LEN :: nat where
  "MAX_RESPONSE_EXTENSION_LEN = 4 * 1024"

definition GUID_HEX_LEN :: nat where
  "GUID_HEX_LEN = 32"

record sso_request_parts =
  sq_sequence :: u32
  sq_sub_app_id :: u32
  sq_locale_id :: u32
  sq_tgt :: bytes
  sq_command :: rstr
  sq_device_guid_hex :: bytes
  sq_client_version :: rstr
  sq_reserve :: bytes
  sq_payload :: bytes

record sso_response =
  sr_sequence :: u32
  sr_return_code :: i32
  sr_command :: rstr
  sr_extra :: rstr
  sr_reserve :: bytes
  sr_extension :: bytes
  sr_payload :: bytes

definition validate_sso_request :: "sso_request_parts \<Rightarrow> envelope_error + unit" where
  "validate_sso_request p =
     (if sq_sequence p = 0
         \<or> sq_sub_app_id p = 0
         \<or> sq_locale_id p = 0
         \<or> sq_command p = []
         \<or> MAX_COMMAND_LEN < length (sq_command p)
         \<or> \<not> list_all is_ascii_graphic (sq_command p)
         \<or> length (sq_device_guid_hex p) \<noteq> GUID_HEX_LEN
         \<or> \<not> list_all is_ascii_hexdigit (sq_device_guid_hex p)
         \<or> sq_client_version p = []
         \<or> MAX_VERSION_LEN < length (sq_client_version p)
         \<or> \<not> list_all is_ascii_graphic (sq_client_version p)
         \<or> sq_payload p = []
      then Inl InvalidField else Inr ())"

definition put_sso_header :: "sso_request_parts \<Rightarrow> (wire_writer, envelope_error, unit) op" where
  "put_sso_header p =
     bindS (wire (put_u32 (sq_sequence p))) (\<lambda>_.
     bindS (wire (put_u32 (sq_sub_app_id p))) (\<lambda>_.
     bindS (wire (put_u32 (sq_locale_id p))) (\<lambda>_.
     bindS (wire (put_bytes FIXED_HEADER_VALUE)) (\<lambda>_.
     bindS (wire (put_prefixed_bytes U32Inclusive (sq_tgt p))) (\<lambda>_.
     bindS (wire (put_prefixed_bytes U32Inclusive (sq_command p))) (\<lambda>_.
     bindS (wire (put_prefixed_bytes U32Inclusive [])) (\<lambda>_.
     bindS (wire (put_prefixed_bytes U32Inclusive (sq_device_guid_hex p))) (\<lambda>_.
     bindS (wire (put_prefixed_bytes U32Inclusive [])) (\<lambda>_.
     bindS (wire (put_prefixed_bytes U16Inclusive (sq_client_version p))) (\<lambda>_.
     wire (put_prefixed_bytes U32Inclusive (sq_reserve p))))))))))))"

definition encode_sso_request :: "sso_request_parts \<Rightarrow> envelope_error + bytes" where
  "encode_sso_request p =
     bindE (validate_sso_request p) (\<lambda>_.
     bindE (run_writer MAX_PACKET_LEN (put_sso_header p)) (\<lambda>header.
     run_writer MAX_PACKET_LEN
       (bindS (wire (put_prefixed_bytes U32Inclusive header)) (\<lambda>_.
        wire (put_prefixed_bytes U32Inclusive (sq_payload p))))))"

text \<open>\<open>matches!(compression, 0 | 4)\<close>.\<close>

definition compression_supported :: "i32 \<Rightarrow> bool" where
  "compression_supported c \<longleftrightarrow> c = 0 \<or> c = 4"

definition read_text :: "nat \<Rightarrow> (wire_reader, envelope_error, rstr) op" where
  "read_text maximum =
     bindS (wire (read_prefixed_bytes U32Inclusive maximum)) (\<lambda>bs. liftS (from_utf8 InvalidField bs))"

definition read_sso_outer :: "(wire_reader, envelope_error, bytes \<times> bytes) op" where
  "read_sso_outer =
     bindS (wire (read_prefixed_bytes U32Inclusive MAX_PACKET_LEN)) (\<lambda>header.
     bindS (wire (read_prefixed_bytes U32Inclusive MAX_PACKET_LEN)) (\<lambda>payload.
     bindS (wire finish_op) (\<lambda>_.
     retS (header, payload))))"

definition read_sso_header :: "bytes \<Rightarrow> (wire_reader, envelope_error, sso_response) op" where
  "read_sso_header payload =
     bindS (wire read_u32) (\<lambda>seq.
     bindS (wire read_i32) (\<lambda>return_code.
     bindS (read_text (4 * 1024)) (\<lambda>extra.
     bindS (read_text MAX_COMMAND_LEN) (\<lambda>command.
     bindS (wire (read_prefixed_bytes U32Inclusive (4 * 1024))) (\<lambda>message_cookie.
     bindS (wire read_i32) (\<lambda>compression.
     bindS (wire (read_prefixed_bytes U32Inclusive (64 * 1024))) (\<lambda>reserve.
     bindS (check_remaining (\<lambda>n. n \<le> MAX_RESPONSE_EXTENSION_LEN) InvalidField) (\<lambda>_.
     bindS (wire read_rest) (\<lambda>extension.
     bindS (wire finish_op) (\<lambda>_.
     bindS (liftS (guardE (seq \<noteq> 0 \<and> command \<noteq> []) InvalidField)) (\<lambda>_.
     bindS (liftS (guardE (compression_supported compression) Unsupported)) (\<lambda>_.
     retS \<lparr>sr_sequence = seq, sr_return_code = return_code, sr_command = command, sr_extra = extra,
           sr_reserve = reserve, sr_extension = extension, sr_payload = payload\<rparr>))))))))))))"

definition decode_sso_response :: "bytes \<Rightarrow> envelope_error + sso_response" where
  "decode_sso_response encoded =
     bindE (run_reader read_sso_outer encoded) (\<lambda>(header, payload).
     run_reader (read_sso_header payload) header)"

subsection \<open>The request layout\<close>

definition sso_request_header :: "sso_request_parts \<Rightarrow> bytes" where
  "sso_request_header p =
     to_be 4 (sq_sequence p) @ to_be 4 (sq_sub_app_id p) @ to_be 4 (sq_locale_id p) @
     FIXED_HEADER_VALUE @ prefixed U32Inclusive (sq_tgt p) @ prefixed U32Inclusive (sq_command p) @
     prefixed U32Inclusive [] @ prefixed U32Inclusive (sq_device_guid_hex p) @
     prefixed U32Inclusive [] @ prefixed U16Inclusive (sq_client_version p) @
     prefixed U32Inclusive (sq_reserve p)"

definition sso_request_layout :: "sso_request_parts \<Rightarrow> bytes" where
  "sso_request_layout p =
     prefixed U32Inclusive (sso_request_header p) @ prefixed U32Inclusive (sq_payload p)"

lemma prefix_fits_u32: "prefix_fits U32Inclusive n \<longleftrightarrow> n + 4 < 2 ^ 32"
  by (simp add: prefix_fits_def declared_len_def)

lemma prefix_fits_u16: "prefix_fits U16Inclusive n \<longleftrightarrow> n + 2 < 2 ^ 16"
  by (simp add: prefix_fits_def declared_len_def)

lemma packet_limits: "n \<le> MAX_PACKET_LEN \<Longrightarrow> n < usize_limit \<and> prefix_fits U32Inclusive n"
  by (simp add: MAX_PACKET_LEN_def usize_limit_def prefix_fits_u32)

lemma put_sso_header_emits:
  "\<exists>C. emits (put_sso_header p) C (sso_request_header p) \<and>
     (C \<longleftrightarrow> prefix_fits U32Inclusive (length (sq_tgt p)) \<and> prefix_fits U32Inclusive (length (sq_command p)) \<and>
        prefix_fits U32Inclusive (length (sq_device_guid_hex p)) \<and>
        prefix_fits U16Inclusive (length (sq_client_version p)) \<and>
        prefix_fits U32Inclusive (length (sq_reserve p)))"
  unfolding put_sso_header_def sso_request_header_def
  by (rule exI, rule conjI, (rule emits_intros)+) (simp add: prefix_fits_u32)

lemma encode_sso_request_Inr:
  "encode_sso_request p = Inr out \<longleftrightarrow>
     validate_sso_request p = Inr () \<and> length (sso_request_layout p) \<le> MAX_PACKET_LEN \<and>
     out = sso_request_layout p"
proof -
  from put_sso_header_emits [of p] obtain C where emits: "emits (put_sso_header p) C (sso_request_header p)"
    and C: "C \<longleftrightarrow> prefix_fits U32Inclusive (length (sq_tgt p)) \<and> prefix_fits U32Inclusive (length (sq_command p)) \<and>
        prefix_fits U32Inclusive (length (sq_device_guid_hex p)) \<and>
        prefix_fits U16Inclusive (length (sq_client_version p)) \<and>
        prefix_fits U32Inclusive (length (sq_reserve p))" by blast
  have C': "C" if "validate_sso_request p = Inr ()" "length (sso_request_header p) \<le> MAX_PACKET_LEN"
    using that unfolding C
    by (auto simp: validate_sso_request_def sso_request_header_def prefix_fits_u32 prefix_fits_u16
        MAX_PACKET_LEN_def MAX_VERSION_LEN_def split: if_splits)
  have outer: "run_writer MAX_PACKET_LEN
       (bindS (wire (put_prefixed_bytes U32Inclusive header)) (\<lambda>_.
        wire (put_prefixed_bytes U32Inclusive (sq_payload p)))) = Inr out \<longleftrightarrow>
     length header + length (sq_payload p) + 8 \<le> MAX_PACKET_LEN \<and>
     out = prefixed U32Inclusive header @ prefixed U32Inclusive (sq_payload p)" for header
    using packet_limits by (subst run_writer_Inr) (rule emits_intros | auto simp: add.commute)+
  show ?thesis
    unfolding encode_sso_request_def bindE_Inr run_writer_Inr [OF emits] outer
    using C' packet_limits by (auto simp: sso_request_layout_def)
qed

subsection \<open>The response layout\<close>

definition sso_header_ok :: "sso_response \<Rightarrow> bool" where
  "sso_header_ok r \<longleftrightarrow> sr_sequence r \<noteq> 0 \<and> sr_command r \<noteq> [] \<and>
     length (sr_command r) \<le> MAX_COMMAND_LEN \<and> utf8_valid (sr_command r) \<and>
     length (sr_extra r) \<le> 4 * 1024 \<and> utf8_valid (sr_extra r) \<and>
     length (sr_reserve r) \<le> 64 * 1024 \<and> length (sr_extension r) \<le> MAX_RESPONSE_EXTENSION_LEN"

definition sso_response_ok :: "sso_response \<Rightarrow> bool" where
  "sso_response_ok r \<longleftrightarrow> sso_header_ok r \<and> length (sr_payload r) \<le> MAX_PACKET_LEN"

definition sso_header_layout :: "bytes \<Rightarrow> i32 \<Rightarrow> sso_response \<Rightarrow> bytes" where
  "sso_header_layout cookie compression r =
     to_be 4 (sr_sequence r) @ to_be 4 (sr_return_code r) @ prefixed U32Inclusive (sr_extra r) @
     prefixed U32Inclusive (sr_command r) @ prefixed U32Inclusive cookie @ to_be 4 compression @
     prefixed U32Inclusive (sr_reserve r) @ sr_extension r"

definition sso_response_layout :: "bytes \<Rightarrow> i32 \<Rightarrow> sso_response \<Rightarrow> bytes" where
  "sso_response_layout cookie compression r =
     prefixed U32Inclusive (sso_header_layout cookie compression r) @ prefixed U32Inclusive (sr_payload r)"

lemma accepts_text:
  "accepts (read_text m) (\<lambda>a xs ys. (utf8_valid a \<and> prefix_fits U32Inclusive (length a) \<and> length a \<le> m) \<and>
     xs = prefixed U32Inclusive a)"
  unfolding read_text_def
  by (rule back_subst [of "accepts _", OF accepts_bind [OF accepts_map_errS accepts_lift]])
    (rule accepts_fields, auto simp: fun_eq_iff from_utf8_Inr)

lemma accepts_sso_outer:
  "accepts read_sso_outer (\<lambda>(h, p) xs ys. ys = [] \<and> length h \<le> MAX_PACKET_LEN \<and>
     length p \<le> MAX_PACKET_LEN \<and> xs = prefixed U32Inclusive h @ prefixed U32Inclusive p)"
  unfolding read_sso_outer_def
  by (rule back_subst [of "accepts _"], (rule accepts_seq)+) (auto simp: fun_eq_iff packet_limits)

lemma accepts_sso_header:
  "accepts (read_sso_header payload) (\<lambda>r xs ys. ys = [] \<and> (\<exists>cookie compression.
     sr_payload r = payload \<and> sso_header_ok r \<and> length cookie \<le> 4 * 1024 \<and>
     compression_supported compression \<and> xs = sso_header_layout cookie compression r))"
  unfolding read_sso_header_def sso_header_layout_def
proof (rule back_subst [of "accepts _"], (rule accepts_seq accepts_text)+, intro ext iffI, goal_cases)
  case (1 r xs ys)
  then show ?case
    by (elim exE conjE) (simp add: sso_header_ok_def)
next
  case (2 r xs ys)
  then obtain cookie compression where ys: "ys = []" and r: "sr_payload r = payload" "sso_header_ok r"
      "length cookie \<le> 4 * 1024" "compression_supported compression"
    and xs: "xs = to_be 4 (sr_sequence r) @ to_be 4 (sr_return_code r) @ prefixed U32Inclusive (sr_extra r) @
      prefixed U32Inclusive (sr_command r) @ prefixed U32Inclusive cookie @ to_be 4 compression @
      prefixed U32Inclusive (sr_reserve r) @ sr_extension r" by blast
  show ?case
    unfolding xs by (intro ex_field conjI TrueI)
      (use r ys in \<open>auto simp: prefix_fits_u32 sso_header_ok_def MAX_COMMAND_LEN_def\<close>)
qed

lemma sso_header_length:
  "sso_header_ok r \<Longrightarrow> length cookie \<le> 4 * 1024 \<Longrightarrow>
   length (sso_header_layout cookie compression r) \<le> 80 * 1024"
  by (simp add: sso_header_ok_def sso_header_layout_def MAX_COMMAND_LEN_def MAX_RESPONSE_EXTENSION_LEN_def)

lemma decode_sso_response_Inr:
  assumes "slice_ok bs"
  shows "decode_sso_response bs = Inr r \<longleftrightarrow>
    sso_response_ok r \<and> (\<exists>cookie compression. length cookie \<le> 4 * 1024 \<and>
      compression_supported compression \<and> bs = sso_response_layout cookie compression r)"
proof -
  have outer: "run_reader read_sso_outer bs = Inr (h, p) \<longleftrightarrow>
      length h \<le> MAX_PACKET_LEN \<and> length p \<le> MAX_PACKET_LEN \<and>
      bs = prefixed U32Inclusive h @ prefixed U32Inclusive p" for h p
    unfolding run_reader_Inr [OF accepts_sso_outer assms] by auto
  have small: "length h \<le> MAX_PACKET_LEN \<Longrightarrow> slice_ok h" for h :: bytes
    by (simp add: slice_ok_def MAX_PACKET_LEN_def)
  have header: "run_reader (read_sso_header p) h = Inr r \<longleftrightarrow> (\<exists>cookie compression.
      sr_payload r = p \<and> sso_header_ok r \<and> length cookie \<le> 4 * 1024 \<and>
      compression_supported compression \<and> h = sso_header_layout cookie compression r)"
    if "length h \<le> MAX_PACKET_LEN" for h p
    unfolding run_reader_Inr [OF accepts_sso_header small [OF that]] by auto
  show ?thesis
  proof
    assume "decode_sso_response bs = Inr r"
    then obtain h p where hp: "length h \<le> MAX_PACKET_LEN" "length p \<le> MAX_PACKET_LEN"
      "bs = prefixed U32Inclusive h @ prefixed U32Inclusive p" "run_reader (read_sso_header p) h = Inr r"
      by (auto simp: decode_sso_response_def bindE_Inr outer)
    with header [OF hp(1)] show "sso_response_ok r \<and> (\<exists>cookie compression. length cookie \<le> 4 * 1024 \<and>
      compression_supported compression \<and> bs = sso_response_layout cookie compression r)"
      by (auto simp: sso_response_ok_def sso_response_layout_def)
  next
    assume "sso_response_ok r \<and> (\<exists>cookie compression. length cookie \<le> 4 * 1024 \<and>
      compression_supported compression \<and> bs = sso_response_layout cookie compression r)"
    then obtain cookie compression where ok: "sso_response_ok r" "length cookie \<le> 4 * 1024"
      "compression_supported compression" "bs = sso_response_layout cookie compression r" by blast
    let ?h = "sso_header_layout cookie compression r"
    have len: "length ?h \<le> MAX_PACKET_LEN"
      using sso_header_length [of r cookie compression] ok by (simp add: sso_response_ok_def MAX_PACKET_LEN_def)
    have "run_reader read_sso_outer bs = Inr (?h, sr_payload r)"
      unfolding outer using ok len by (simp add: sso_response_ok_def sso_response_layout_def)
    moreover have "run_reader (read_sso_header (sr_payload r)) ?h = Inr r"
      unfolding header [OF len] using ok by (auto simp: sso_response_ok_def)
    ultimately show "decode_sso_response bs = Inr r"
      by (simp add: decode_sso_response_def)
  qed
qed

section \<open>Service frames\<close>

definition PROTOCOL_VERSION :: u32 where
  "PROTOCOL_VERSION = 12"

definition zero_key :: tea_key where
  "zero_key = replicate 16 0"

record service_frame_parts =
  sf_uin :: u32
  sf_d2 :: bytes
  sf_d2_key :: tea_key
  sf_sso :: bytes

record service_response =
  sv_uin :: rstr
  sv_payload :: bytes

definition put_service_body ::
  "service_frame_parts \<Rightarrow> u8 \<Rightarrow> bytes \<Rightarrow> (wire_writer, envelope_error, unit) op" where
  "put_service_body p auth_flag encrypted =
     bindS (wire (put_u32 PROTOCOL_VERSION)) (\<lambda>_.
     bindS (wire (put_u8 auth_flag)) (\<lambda>_.
     bindS (wire (put_prefixed_bytes U32Inclusive (sf_d2 p))) (\<lambda>_.
     bindS (wire (put_u8 0)) (\<lambda>_.
     bindS (wire (put_prefixed_bytes U32Inclusive (decimal (unat (sf_uin p))))) (\<lambda>_.
     wire (put_bytes encrypted))))))"

definition encode_service_frame ::
  "(nat \<Rightarrow> bytes option) \<Rightarrow> service_frame_parts \<Rightarrow> envelope_error + bytes" where
  "encode_service_frame fill p =
     (if sf_sso p = [] then Inl InvalidField
      else let (auth_flag, encryption_key) =
             (if sf_d2 p = [] then (2, zero_key) else (1, sf_d2_key p))
           in bindE (map_err envelope_from_tea (encrypt_qq_tea fill (sf_sso p) encryption_key)) (\<lambda>encrypted.
              bindE (run_writer MAX_PACKET_LEN (put_service_body p auth_flag encrypted)) (\<lambda>body.
              run_writer MAX_PACKET_LEN (wire (put_prefixed_bytes U32Inclusive body)))))"

definition read_service_outer :: "(wire_reader, envelope_error, bytes) op" where
  "read_service_outer =
     bindS (wire (read_prefixed_bytes U32Inclusive MAX_PACKET_LEN)) (\<lambda>body.
     bindS (wire finish_op) (\<lambda>_.
     retS body))"

definition read_service_body :: "(wire_reader, envelope_error, u8 \<times> rstr \<times> bytes) op" where
  "read_service_body =
     bindS (wire read_u32) (\<lambda>version.
     bindS (liftS (guardE (version = PROTOCOL_VERSION) Unsupported)) (\<lambda>_.
     bindS (wire read_u8) (\<lambda>auth_flag.
     bindS (wire read_u8) (\<lambda>flag.
     bindS (wire (read_prefixed_bytes U32Inclusive 32)) (\<lambda>uin_bytes.
     bindS (liftS (guardE (uin_bytes \<noteq> [] \<and> list_all is_ascii_digit uin_bytes) InvalidField)) (\<lambda>_.
     bindS (liftS (from_utf8 InvalidField uin_bytes)) (\<lambda>uin.
     bindS (wire read_rest) (\<lambda>encrypted.
     bindS (wire finish_op) (\<lambda>_.
     retS (auth_flag, uin, encrypted))))))))))"

definition service_payload :: "u8 \<Rightarrow> bytes \<Rightarrow> tea_key option \<Rightarrow> envelope_error + bytes" where
  "service_payload auth_flag encrypted d2_key =
     (if auth_flag = 0 then Inr encrypted
      else if auth_flag = 1 then
        bindE (ok_or InvalidField d2_key) (\<lambda>key. map_err envelope_from_tea (decrypt_qq_tea encrypted key))
      else if auth_flag = 2 then map_err envelope_from_tea (decrypt_qq_tea encrypted zero_key)
      else Inl Unsupported)"

definition decode_service_response :: "bytes \<Rightarrow> tea_key option \<Rightarrow> envelope_error + service_response" where
  "decode_service_response encoded d2_key =
     bindE (run_reader read_service_outer encoded) (\<lambda>body.
     bindE (run_reader read_service_body body) (\<lambda>(auth_flag, uin, encrypted).
     bindE (service_payload auth_flag encrypted d2_key) (\<lambda>payload.
     if payload = [] then Inl InvalidField
     else Inr \<lparr>sv_uin = uin, sv_payload = payload\<rparr>)))"

subsection \<open>The frame layouts\<close>

definition service_request_layout :: "service_frame_parts \<Rightarrow> u8 \<Rightarrow> bytes \<Rightarrow> bytes" where
  "service_request_layout p auth_flag encrypted =
     prefixed U32Inclusive
       (to_be 4 PROTOCOL_VERSION @ [auth_flag] @ prefixed U32Inclusive (sf_d2 p) @ [0] @
        prefixed U32Inclusive (decimal (unat (sf_uin p))) @ encrypted)"

definition service_body_layout :: "u8 \<Rightarrow> u8 \<Rightarrow> rstr \<Rightarrow> bytes \<Rightarrow> bytes" where
  "service_body_layout auth_flag flag uin encrypted =
     to_be 4 PROTOCOL_VERSION @ [auth_flag] @ [flag] @ prefixed U32Inclusive uin @ encrypted"

definition service_response_layout :: "u8 \<Rightarrow> u8 \<Rightarrow> rstr \<Rightarrow> bytes \<Rightarrow> bytes" where
  "service_response_layout auth_flag flag uin encrypted =
     prefixed U32Inclusive (service_body_layout auth_flag flag uin encrypted)"

definition uin_text_ok :: "rstr \<Rightarrow> bool" where
  "uin_text_ok u \<longleftrightarrow> u \<noteq> [] \<and> length u \<le> 32 \<and> list_all is_ascii_digit u"

lemma uin_text_utf8: "uin_text_ok u \<Longrightarrow> utf8_valid u"
  by (rule utf8_valid_ascii) (auto simp: uin_text_ok_def is_ascii_digit_def list_all_iff)

lemma uin_text_decimal: "uin_text_ok (decimal (unat (w :: u32)))"
  using decimal_digits [of "unat w"] length_decimal_u32 [of w]
  by (simp add: uin_text_ok_def list_all_iff)

lemma accepts_service_outer:
  "accepts read_service_outer (\<lambda>b xs ys. ys = [] \<and> length b \<le> MAX_PACKET_LEN \<and> xs = prefixed U32Inclusive b)"
  unfolding read_service_outer_def
  by (rule back_subst [of "accepts _"], (rule accepts_seq)+) (auto simp: fun_eq_iff packet_limits)

lemma accepts_service_body:
  "accepts read_service_body (\<lambda>(auth_flag, uin, encrypted) xs ys. ys = [] \<and> uin_text_ok uin \<and>
     (\<exists>flag. xs = service_body_layout auth_flag flag uin encrypted))"
  unfolding read_service_body_def service_body_layout_def
proof (rule back_subst [of "accepts _"], (rule accepts_seq)+, intro ext iffI, goal_cases)
  case (1 r xs ys)
  then show ?case
    by (elim exE conjE) (simp add: uin_text_ok_def from_utf8_Inr)
next
  case (2 r xs ys)
  then obtain auth_flag uin encrypted flag where r: "r = (auth_flag, uin, encrypted)" "ys = []" "uin_text_ok uin"
    and xs: "xs = to_be 4 PROTOCOL_VERSION @ [auth_flag] @ [flag] @ prefixed U32Inclusive uin @ encrypted"
    by (cases r) auto
  show ?case
    unfolding xs by (intro ex_field conjI TrueI)
      (use r uin_text_utf8 [of uin] in \<open>auto simp: prefix_fits_u32 uin_text_ok_def from_utf8_def\<close>)
qed

lemma decode_service_response_Inr:
  assumes "slice_ok bs"
  shows "decode_service_response bs key = Inr r \<longleftrightarrow>
    uin_text_ok (sv_uin r) \<and> sv_payload r \<noteq> [] \<and> length bs \<le> MAX_PACKET_LEN + 4 \<and>
    (\<exists>auth_flag flag encrypted. bs = service_response_layout auth_flag flag (sv_uin r) encrypted \<and>
       service_payload auth_flag encrypted key = Inr (sv_payload r))"
proof -
  have outer: "run_reader read_service_outer bs = Inr b \<longleftrightarrow>
      length b \<le> MAX_PACKET_LEN \<and> bs = prefixed U32Inclusive b" for b
    unfolding run_reader_Inr [OF accepts_service_outer assms] by auto
  have body: "run_reader read_service_body b = Inr (auth_flag, uin, encrypted) \<longleftrightarrow>
      uin_text_ok uin \<and> (\<exists>flag. b = service_body_layout auth_flag flag uin encrypted)"
    if "length b \<le> MAX_PACKET_LEN" for b auth_flag uin encrypted
    by (subst run_reader_Inr [OF accepts_service_body])
      (use that in \<open>auto simp: slice_ok_def MAX_PACKET_LEN_def\<close>)
  have "decode_service_response bs key = Inr r \<longleftrightarrow> (\<exists>b auth_flag uin encrypted payload.
      (length b \<le> MAX_PACKET_LEN \<and> bs = prefixed U32Inclusive b) \<and>
      run_reader read_service_body b = Inr (auth_flag, uin, encrypted) \<and>
      service_payload auth_flag encrypted key = Inr payload \<and> payload \<noteq> [] \<and>
      r = \<lparr>sv_uin = uin, sv_payload = payload\<rparr>)"
    unfolding decode_service_response_def bindE_Inr outer
    by (auto simp: bindE_Inr split: prod.splits if_splits)
  also have "\<dots> \<longleftrightarrow> (\<exists>auth_flag flag encrypted. uin_text_ok (sv_uin r) \<and> sv_payload r \<noteq> [] \<and>
      length (service_body_layout auth_flag flag (sv_uin r) encrypted) \<le> MAX_PACKET_LEN \<and>
      bs = service_response_layout auth_flag flag (sv_uin r) encrypted \<and>
      service_payload auth_flag encrypted key = Inr (sv_payload r))" (is "?lhs \<longleftrightarrow> ?rhs")
  proof
    assume ?lhs
    then obtain b auth_flag uin encrypted payload where *: "length b \<le> MAX_PACKET_LEN"
      "bs = prefixed U32Inclusive b" "run_reader read_service_body b = Inr (auth_flag, uin, encrypted)"
      "service_payload auth_flag encrypted key = Inr payload" "payload \<noteq> []"
      "r = \<lparr>sv_uin = uin, sv_payload = payload\<rparr>" by blast
    from body [OF *(1)] *(3) obtain flag where
      "uin_text_ok uin" "b = service_body_layout auth_flag flag uin encrypted" by blast
    with * show ?rhs
      by (intro exI [of _ auth_flag] exI [of _ flag] exI [of _ encrypted])
        (simp add: service_response_layout_def)
  next
    assume ?rhs
    then obtain auth_flag flag encrypted where *: "uin_text_ok (sv_uin r)" "sv_payload r \<noteq> []"
      "length (service_body_layout auth_flag flag (sv_uin r) encrypted) \<le> MAX_PACKET_LEN"
      "bs = service_response_layout auth_flag flag (sv_uin r) encrypted"
      "service_payload auth_flag encrypted key = Inr (sv_payload r)" by blast
    then have "run_reader read_service_body (service_body_layout auth_flag flag (sv_uin r) encrypted) =
        Inr (auth_flag, sv_uin r, encrypted)"
      unfolding body [OF *(3)] by blast
    with * show ?lhs
      by (intro exI conjI) (assumption | simp add: service_response_layout_def)+
  qed
  also have "\<dots> \<longleftrightarrow> uin_text_ok (sv_uin r) \<and> sv_payload r \<noteq> [] \<and> length bs \<le> MAX_PACKET_LEN + 4 \<and>
    (\<exists>auth_flag flag encrypted. bs = service_response_layout auth_flag flag (sv_uin r) encrypted \<and>
       service_payload auth_flag encrypted key = Inr (sv_payload r))"
  proof -
    have "length (service_body_layout auth_flag flag (sv_uin r) encrypted) \<le> MAX_PACKET_LEN \<longleftrightarrow>
        length bs \<le> MAX_PACKET_LEN + 4"
      if "bs = service_response_layout auth_flag flag (sv_uin r) encrypted" for auth_flag flag encrypted
      using that by (simp add: service_response_layout_def)
    then show ?thesis by blast
  qed
  finally show ?thesis .
qed

lemma decode_service_layout:
  assumes "uin_text_ok uin" "payload \<noteq> []" "service_payload auth_flag encrypted key = Inr payload"
    and len: "length (service_response_layout auth_flag flag uin encrypted) \<le> MAX_PACKET_LEN + 4"
  shows "decode_service_response (service_response_layout auth_flag flag uin encrypted) key =
    Inr \<lparr>sv_uin = uin, sv_payload = payload\<rparr>"
proof -
  have "slice_ok (service_response_layout auth_flag flag uin encrypted)"
    using len by (simp add: slice_ok_def MAX_PACKET_LEN_def)
  then show ?thesis
    using assms by (subst decode_service_response_Inr) auto
qed

lemma put_service_body_emits:
  "\<exists>C. emits (put_service_body p auth_flag encrypted) C
       (to_be 4 PROTOCOL_VERSION @ [auth_flag] @ prefixed U32Inclusive (sf_d2 p) @ [0] @
        prefixed U32Inclusive (decimal (unat (sf_uin p))) @ encrypted) \<and>
     (C \<longleftrightarrow> prefix_fits U32Inclusive (length (sf_d2 p)) \<and>
        prefix_fits U32Inclusive (length (decimal (unat (sf_uin p)))))"
  unfolding put_service_body_def
  by (rule exI, rule conjI, (rule emits_intros)+) simp

text \<open>The flag and key \<open>encode_service_frame\<close> chooses.\<close>

definition service_auth :: "service_frame_parts \<Rightarrow> u8 \<times> tea_key" where
  "service_auth p = (if sf_d2 p = [] then (2, zero_key) else (1, sf_d2_key p))"

lemma encode_service_frame_Inr:
  "encode_service_frame fill p = Inr out \<longleftrightarrow>
     sf_sso p \<noteq> [] \<and> length out \<le> MAX_PACKET_LEN \<and>
     (\<exists>encrypted. encrypt_qq_tea fill (sf_sso p) (snd (service_auth p)) = Inr encrypted \<and>
        out = service_request_layout p (fst (service_auth p)) encrypted)"
proof -
  have writer: "(\<exists>body. run_writer MAX_PACKET_LEN (put_service_body p flag encrypted) = Inr body \<and>
        run_writer MAX_PACKET_LEN (wire (put_prefixed_bytes U32Inclusive body)) = Inr out) \<longleftrightarrow>
      length out \<le> MAX_PACKET_LEN \<and> out = service_request_layout p flag encrypted" for flag encrypted
  proof -
    obtain C where emits: "emits (put_service_body p flag encrypted) C
        (to_be 4 PROTOCOL_VERSION @ [flag] @ prefixed U32Inclusive (sf_d2 p) @ [0] @
         prefixed U32Inclusive (decimal (unat (sf_uin p))) @ encrypted)" (is "emits _ _ ?body")
      and C: "C \<longleftrightarrow> prefix_fits U32Inclusive (length (sf_d2 p)) \<and>
        prefix_fits U32Inclusive (length (decimal (unat (sf_uin p))))"
      using put_service_body_emits [of p flag encrypted] by blast
    have C': "length ?body \<le> MAX_PACKET_LEN \<Longrightarrow> C"
      unfolding C by (auto intro!: packet_limits [THEN conjunct2])
    have outer: "run_writer MAX_PACKET_LEN (wire (put_prefixed_bytes U32Inclusive body)) = Inr out \<longleftrightarrow>
        length out \<le> MAX_PACKET_LEN \<and> out = prefixed U32Inclusive body" for body
      using packet_limits
      by (subst run_writer_Inr [OF emits_map_errS [OF emits_prefixed]]) auto
    show ?thesis
      unfolding run_writer_Inr [OF emits] outer service_request_layout_def
      using C' packet_limits by auto
  qed
  show ?thesis
    unfolding encode_service_frame_def service_auth_def
    by (cases "sf_d2 p = []") (auto simp add: bindE_Inr map_err_Inr writer simp del: ex_simps)
qed

section \<open>Sessions\<close>

datatype session_auth =
    Anonymous (anon_uin: u32)
  | Authenticated (acct_uin: u32) (acct_tgt: bytes) (acct_d2: bytes) (acct_d2_key: tea_key)

definition session_authenticated ::
  "u32 \<Rightarrow> bytes \<Rightarrow> bytes \<Rightarrow> tea_key \<Rightarrow> envelope_error + session_auth" where
  "session_authenticated uin tgt d2 d2_key =
     (if uin = 0 \<or> tgt = [] \<or> d2 = [] then Inl InvalidField
      else Inr (Authenticated uin tgt d2 d2_key))"

fun auth_uin :: "session_auth \<Rightarrow> u32" where
  "auth_uin (Anonymous uin) = uin"
| "auth_uin (Authenticated uin _ _ _) = uin"

fun auth_tgt :: "session_auth \<Rightarrow> bytes" where
  "auth_tgt (Anonymous _) = []"
| "auth_tgt (Authenticated _ tgt _ _) = tgt"

fun auth_d2 :: "session_auth \<Rightarrow> bytes" where
  "auth_d2 (Anonymous _) = []"
| "auth_d2 (Authenticated _ _ d2 _) = d2"

fun auth_d2_key :: "session_auth \<Rightarrow> tea_key option" where
  "auth_d2_key (Anonymous _) = None"
| "auth_d2_key (Authenticated _ _ _ d2_key) = Some d2_key"

record session_request_parts =
  rq_auth :: session_auth
  rq_sequence :: u32
  rq_sub_app_id :: u32
  rq_locale_id :: u32
  rq_command :: rstr
  rq_device_guid_hex :: bytes
  rq_client_version :: rstr
  rq_reserve :: bytes
  rq_payload :: bytes

record expected_sso_response =
  ex_auth :: session_auth
  ex_sequence :: u32
  ex_command :: rstr

definition session_sso_parts :: "session_request_parts \<Rightarrow> sso_request_parts" where
  "session_sso_parts p =
     \<lparr>sq_sequence = rq_sequence p, sq_sub_app_id = rq_sub_app_id p, sq_locale_id = rq_locale_id p,
      sq_tgt = auth_tgt (rq_auth p), sq_command = rq_command p,
      sq_device_guid_hex = rq_device_guid_hex p, sq_client_version = rq_client_version p,
      sq_reserve = rq_reserve p, sq_payload = rq_payload p\<rparr>"

definition unwrap_or :: "'a option \<Rightarrow> 'a \<Rightarrow> 'a" where
  "unwrap_or x d = (case x of None \<Rightarrow> d | Some a \<Rightarrow> a)"

definition session_frame_parts :: "session_auth \<Rightarrow> bytes \<Rightarrow> service_frame_parts" where
  "session_frame_parts auth sso =
     \<lparr>sf_uin = auth_uin auth, sf_d2 = auth_d2 auth, sf_d2_key = unwrap_or (auth_d2_key auth) zero_key,
      sf_sso = sso\<rparr>"

definition encode_session_request ::
  "(nat \<Rightarrow> bytes option) \<Rightarrow> session_request_parts \<Rightarrow> envelope_error + bytes" where
  "encode_session_request fill p =
     bindE (encode_sso_request (session_sso_parts p)) (\<lambda>sso.
     encode_service_frame fill (session_frame_parts (rq_auth p) sso))"

definition decode_session_frame :: "bytes \<Rightarrow> session_auth \<Rightarrow> envelope_error + sso_response" where
  "decode_session_frame encoded auth =
     bindE (decode_service_response encoded (auth_d2_key auth)) (\<lambda>service.
     if sv_uin service \<noteq> decimal (unat (auth_uin auth)) then Inl InvalidField
     else decode_sso_response (sv_payload service))"

definition decode_session_response :: "bytes \<Rightarrow> expected_sso_response \<Rightarrow> envelope_error + sso_response" where
  "decode_session_response encoded expected =
     bindE (decode_session_frame encoded (ex_auth expected)) (\<lambda>sso.
     if sr_sequence sso \<noteq> ex_sequence expected \<or> sr_command sso \<noteq> ex_command expected
     then Inl InvalidField
     else Inr sso)"

lemma decode_session_frame_Inr:
  "decode_session_frame bs auth = Inr r \<longleftrightarrow>
     (\<exists>payload. decode_service_response bs (auth_d2_key auth) =
        Inr \<lparr>sv_uin = decimal (unat (auth_uin auth)), sv_payload = payload\<rparr> \<and>
      decode_sso_response payload = Inr r)"
  (is "_ \<longleftrightarrow> ?rhs")
proof
  assume "decode_session_frame bs auth = Inr r"
  then obtain service where *: "decode_service_response bs (auth_d2_key auth) = Inr service"
    "sv_uin service = decimal (unat (auth_uin auth))" "decode_sso_response (sv_payload service) = Inr r"
    by (auto simp: decode_session_frame_def bindE_Inr split: if_splits)
  then show ?rhs by (intro exI [of _ "sv_payload service"]) simp
next
  assume ?rhs
  then show "decode_session_frame bs auth = Inr r"
    by (elim exE conjE) (simp add: decode_session_frame_def)
qed

lemma complete_prefixed:
  assumes "length (prefixed U32Inclusive b) \<le> m" "m < 2 ^ 32"
  shows "complete_frame m (prefixed U32Inclusive b)"
proof -
  have "unat (from_be (nat_be 4 (length b + 4)) :: u32) = length b + 4"
    using assms by (subst unat_from_be) (simp_all add: be_nat_nat_be)
  then show ?thesis
    using assms(1)
    by (simp add: complete_frame_def validate_complete_frame_Inr prefixed_def declared_len_def)
qed

lemma service_frame_complete:
  "encode_service_frame fill p = Inr f \<Longrightarrow> complete_frame MAX_PACKET_LEN f"
  by (auto simp: encode_service_frame_Inr service_request_layout_def MAX_PACKET_LEN_def
      intro!: complete_prefixed)

text \<open>Both encoders give the transport complete frames.\<close>

interpretation service_source: frame_source "encode_service_frame fill" MAX_PACKET_LEN for fill
  by unfold_locales (rule service_frame_complete)

interpretation session_source: frame_source "encode_session_request fill" MAX_PACKET_LEN for fill
  by unfold_locales (auto simp: encode_session_request_def bindE_Inr intro: service_frame_complete)

section \<open>Properties\<close>

text \<open>
  C10: The SSO decoder accepts exactly one format. It succeeds on an input and returns a response if
  and only if the response's fields are within their bounds and the input is byte for byte the
  layout of that response with some message cookie and a supported compression tag.
\<close>

theorem sso_response_format:
  assumes "slice_ok bs"
  shows "decode_sso_response bs = Inr r \<longleftrightarrow>
    sso_response_ok r \<and> (\<exists>cookie compression. length cookie \<le> 4 * 1024 \<and>
      compression_supported compression \<and> bs = sso_response_layout cookie compression r)"
  using assms by (rule decode_sso_response_Inr)

definition sample_response :: sso_response where
  "sample_response =
     \<lparr>sr_sequence = 7, sr_return_code = 0, sr_command = [119, 116], sr_extra = [], sr_reserve = [1],
      sr_extension = [9, 9], sr_payload = [5, 5, 5]\<rparr>"

lemma sample_response_ok: "sso_response_ok sample_response"
  by (simp add: sample_response_def sso_response_ok_def sso_header_ok_def MAX_COMMAND_LEN_def
      MAX_RESPONSE_EXTENSION_LEN_def MAX_PACKET_LEN_def utf8_valid_def)

theorem sso_response_format_witness:
  "decode_sso_response (sso_response_layout [1, 2] 4 sample_response) = Inr sample_response"
proof -
  have "slice_ok (sso_response_layout [1, 2] 4 sample_response)"
    by (simp add: slice_ok_def sso_response_layout_def sso_header_layout_def sample_response_def)
  then show ?thesis
    by (subst sso_response_format)
      (auto simp: sample_response_ok compression_supported_def intro!: exI [of _ "[1, 2]"] exI [of _ 4])
qed

text \<open>
  C11: A request frame is what the server needs to read it. Every frame \<open>encode_session_request\<close>
  returns is a complete frame for the transport, carries the account number in decimal and the
  session's D2, and its ciphertext decrypts, under the session's key or the zero key of an anonymous
  session, to the SSO request whose header has the request's own fields.
\<close>

theorem session_request_frame:
  assumes "encode_session_request fill p = Inr frame"
  shows "complete_frame MAX_PACKET_LEN frame \<and>
    (\<exists>encrypted. frame = prefixed U32Inclusive (to_be 4 (12 :: u32) @
         [if auth_d2 (rq_auth p) = [] then 2 else 1] @ prefixed U32Inclusive (auth_d2 (rq_auth p)) @ [0] @
         prefixed U32Inclusive (decimal (unat (auth_uin (rq_auth p)))) @ encrypted) \<and>
       decrypt_qq_tea encrypted (if auth_d2 (rq_auth p) = [] then zero_key
          else unwrap_or (auth_d2_key (rq_auth p)) zero_key) =
         Inr (sso_request_layout (session_sso_parts p)))"
proof -
  from assms obtain sso where sso: "sso = sso_request_layout (session_sso_parts p)"
    and frame: "encode_service_frame fill (session_frame_parts (rq_auth p) sso) = Inr frame"
    by (auto simp: encode_session_request_def bindE_Inr encode_sso_request_Inr)
  let ?f = "session_frame_parts (rq_auth p) sso"
  from frame obtain encrypted where enc: "encrypt_qq_tea fill sso (snd (service_auth ?f)) = Inr encrypted"
    and out: "frame = service_request_layout ?f (fst (service_auth ?f)) encrypted"
    by (auto simp: encode_service_frame_Inr session_frame_parts_def)
  from encrypt_qq_tea_decrypts [OF enc] out service_frame_complete [OF frame] sso show ?thesis
    by (cases "auth_d2 (rq_auth p) = []"; intro conjI exI [of _ encrypted])
      (simp_all add: service_request_layout_def service_auth_def session_frame_parts_def PROTOCOL_VERSION_def)
qed

definition sample_request :: "session_auth \<Rightarrow> session_request_parts" where
  "sample_request auth =
     \<lparr>rq_auth = auth, rq_sequence = 7, rq_sub_app_id = 1, rq_locale_id = 2052, rq_command = [119, 116],
      rq_device_guid_hex = replicate 32 0x61, rq_client_version = [0x31], rq_reserve = [],
      rq_payload = [1, 2, 3]\<rparr>"

theorem session_request_frame_witness:
  "\<exists>frame. encode_session_request (\<lambda>n. Some (replicate n 7)) (sample_request (Anonymous 0)) = Inr frame \<and>
     complete_frame MAX_PACKET_LEN frame"
proof -
  let ?fill = "\<lambda>n. Some (replicate n 7) :: bytes option"
  let ?p = "sample_request (Anonymous 0)"
  let ?sso = "sso_request_layout (session_sso_parts ?p)"
  have len: "length ?sso = 96"
    by (simp add: sso_request_layout_def sso_request_header_def session_sso_parts_def sample_request_def
        FIXED_HEADER_VALUE_def)
  have "list_all is_ascii_graphic [119, 116]" "list_all is_ascii_graphic [0x31]"
    "list_all is_ascii_hexdigit (replicate 32 0x61)"
    by (simp_all add: is_ascii_graphic_def is_ascii_hexdigit_def is_ascii_digit_def list_all_iff)
  then have "validate_sso_request (session_sso_parts ?p) = Inr ()"
    by (simp add: validate_sso_request_def session_sso_parts_def sample_request_def MAX_COMMAND_LEN_def
        MAX_VERSION_LEN_def GUID_HEX_LEN_def)
  then have sso: "encode_sso_request (session_sso_parts ?p) = Inr ?sso"
    using len by (simp add: encode_sso_request_Inr MAX_PACKET_LEN_def)
  obtain ct where ct: "encrypt_qq_tea ?fill ?sso zero_key = Inr ct" "length ct = padding_len 96 + 96 + 7"
    using encrypt_with_padding_decrypts [of ?sso zero_key] len
    by (force simp: encrypt_qq_tea_def encrypt_with_padding_Inr MAX_PLAINTEXT_LEN_def)
  let ?f = "session_frame_parts (Anonymous 0) ?sso"
  have "length (service_request_layout ?f 2 ct) \<le> MAX_PACKET_LEN"
    using ct(2) length_decimal_u32 [of 0]
    by (simp add: service_request_layout_def session_frame_parts_def MAX_PACKET_LEN_def padding_len_mod)
  then have "encode_service_frame ?fill ?f = Inr (service_request_layout ?f 2 ct)"
    using ct(1) len by (auto simp: encode_service_frame_Inr service_auth_def session_frame_parts_def)
  then obtain frame where "encode_session_request ?fill ?p = Inr frame"
    using sso by (simp add: encode_session_request_def sample_request_def)
  with session_request_frame [OF this] show ?thesis by blast
qed

text \<open>
  Responses are bound to their request. Whatever \<open>decode_session_response\<close> accepts has the
  expected sequence and command, comes from a frame that names the session's account, and carries an
  SSO response in the exact format, obtained by TEA decryption under the session key or the zero
  key, or in clear when the frame's own flag says so.
\<close>

theorem session_response_bound:
  assumes "slice_ok frame" "decode_session_response frame expected = Inr r"
  shows "sr_sequence r = ex_sequence expected \<and> sr_command r = ex_command expected \<and>
    (\<exists>auth_flag flag encrypted payload cookie compression.
       frame = service_response_layout auth_flag flag (decimal (unat (auth_uin (ex_auth expected)))) encrypted \<and>
       payload = sso_response_layout cookie compression r \<and>
       (auth_flag = 0 \<and> encrypted = payload \<or>
        auth_flag = 1 \<and> (\<exists>key. auth_d2_key (ex_auth expected) = Some key \<and>
          decrypt_qq_tea encrypted key = Inr payload) \<or>
        auth_flag = 2 \<and> decrypt_qq_tea encrypted zero_key = Inr payload))"
proof -
  let ?auth = "ex_auth expected"
  from assms(2) have match: "sr_sequence r = ex_sequence expected" "sr_command r = ex_command expected"
    and "decode_session_frame frame ?auth = Inr r"
    by (auto simp: decode_session_response_def bindE_Inr split: if_splits)
  then obtain payload where sv: "decode_service_response frame (auth_d2_key ?auth) =
      Inr \<lparr>sv_uin = decimal (unat (auth_uin ?auth)), sv_payload = payload\<rparr>"
    and sso: "decode_sso_response payload = Inr r"
    by (auto simp: decode_session_frame_Inr)
  from sv assms(1) obtain auth_flag flag encrypted where
    frame: "frame = service_response_layout auth_flag flag (decimal (unat (auth_uin ?auth))) encrypted"
    and pl: "service_payload auth_flag encrypted (auth_d2_key ?auth) = Inr payload"
    and len: "length frame \<le> MAX_PACKET_LEN + 4"
    by (auto simp: decode_service_response_Inr)
  have cases: "auth_flag = 0 \<and> encrypted = payload \<or>
        auth_flag = 1 \<and> (\<exists>key. auth_d2_key ?auth = Some key \<and> decrypt_qq_tea encrypted key = Inr payload) \<or>
        auth_flag = 2 \<and> decrypt_qq_tea encrypted zero_key = Inr payload"
    using pl by (auto simp: service_payload_def resultE split: if_splits)
  have "length encrypted \<le> length frame"
    by (simp add: frame service_response_layout_def service_body_layout_def)
  moreover have "length payload \<le> length encrypted"
    using cases tea_plaintext_shorter by blast
  ultimately have "length payload \<le> MAX_PACKET_LEN + 4"
    using len by simp
  then have "slice_ok payload"
    by (simp add: slice_ok_def MAX_PACKET_LEN_def)
  then obtain cookie compression where "payload = sso_response_layout cookie compression r"
    using sso by (auto simp: decode_sso_response_Inr)
  with match frame cases show ?thesis by blast
qed

definition sample_expected :: "session_auth \<Rightarrow> expected_sso_response" where
  "sample_expected auth = \<lparr>ex_auth = auth, ex_sequence = 7, ex_command = [119, 116]\<rparr>"

lemma sample_payload: "length (sso_response_layout [] 0 sample_response) = 44"
  by (simp add: sso_response_layout_def sso_header_layout_def sample_response_def)

lemma sample_decodes: "decode_sso_response (sso_response_layout [] 0 sample_response) = Inr sample_response"
  by (subst decode_sso_response_Inr)
    (auto simp: slice_ok_def sample_payload sample_response_ok compression_supported_def
      intro!: exI [of _ "[]"] exI [of _ 0])

lemma sample_frame:
  "length (service_response_layout a f (decimal 9) e) = length e + 15"
  by (simp add: service_response_layout_def service_body_layout_def decimal.simps)

lemma sample_accepted:
  "decode_session_response (service_response_layout 0 3 (decimal 9) (sso_response_layout [] 0 sample_response))
     (sample_expected (Anonymous 9)) = Inr sample_response"
proof -
  let ?payload = "sso_response_layout [] 0 sample_response"
  have "decode_service_response (service_response_layout 0 3 (decimal 9) ?payload) None =
      Inr \<lparr>sv_uin = decimal 9, sv_payload = ?payload\<rparr>"
    using sample_payload uin_text_decimal [of 9]
    by (intro decode_service_layout) (auto simp: service_payload_def sample_frame MAX_PACKET_LEN_def)
  then show ?thesis
    using sample_decodes
    by (simp add: decode_session_response_def decode_session_frame_def sample_expected_def sample_response_def)
qed

theorem session_response_bound_witness:
  "\<exists>frame. decode_session_response frame (sample_expected (Anonymous 9)) = Inr sample_response \<and>
     sr_sequence sample_response = ex_sequence (sample_expected (Anonymous 9))"
proof -
  have "slice_ok (service_response_layout 0 3 (decimal 9) (sso_response_layout [] 0 sample_response))"
    by (simp add: slice_ok_def sample_frame sample_payload)
  from session_response_bound [OF this sample_accepted] sample_accepted show ?thesis by blast
qed

text \<open>
  An authentic response is accepted. The SSO response the server encrypts under the session's D2
  key and frames for the account is decoded to exactly that response, for every cookie, frame flag and
  padding, as long as the frame fits the packet bound.
\<close>

theorem session_response_accepted:
  assumes ok: "sso_response_ok r" "length cookie \<le> 4 * 1024" "compression_supported compression"
    and key: "auth_d2_key (ex_auth expected) = Some key"
    and expected: "sr_sequence r = ex_sequence expected" "sr_command r = ex_command expected"
    and enc: "encrypt_qq_tea fill (sso_response_layout cookie compression r) key = Inr encrypted"
    and frame: "frame = service_response_layout 1 flag (decimal (unat (auth_uin (ex_auth expected)))) encrypted"
    and fits: "length frame \<le> MAX_PACKET_LEN + 4"
  shows "decode_session_response frame expected = Inr r"
proof -
  let ?payload = "sso_response_layout cookie compression r"
  have dec: "decrypt_qq_tea encrypted key = Inr ?payload"
    using enc by (rule encrypt_qq_tea_decrypts)
  have "length ?payload \<le> MAX_PACKET_LEN + 80 * 1024 + 8"
    using ok sso_header_length [OF _ ok(2), of r compression]
    by (simp add: sso_response_layout_def sso_response_ok_def)
  then have payload: "decode_sso_response ?payload = Inr r"
    using ok by (subst decode_sso_response_Inr) (auto simp: slice_ok_def MAX_PACKET_LEN_def)
  have "?payload \<noteq> []"
    by (simp add: sso_response_layout_def)
  with dec fits have "decode_service_response frame (Some key) =
      Inr \<lparr>sv_uin = decimal (unat (auth_uin (ex_auth expected))), sv_payload = ?payload\<rparr>"
    unfolding frame by (intro decode_service_layout uin_text_decimal) (simp_all add: service_payload_def)
  with payload key have "decode_session_frame frame (ex_auth expected) = Inr r"
    by (simp add: decode_session_frame_Inr)
  with expected show ?thesis
    by (simp add: decode_session_response_def)
qed

theorem session_response_accepted_witness:
  "\<exists>frame. decode_session_response frame (sample_expected (Authenticated 9 [1] [2] (replicate 16 3))) =
     Inr sample_response"
proof -
  let ?payload = "sso_response_layout [] 0 sample_response"
  have "\<exists>ct. encrypt_qq_tea (\<lambda>n. Some (replicate n 7)) ?payload (replicate 16 3) = Inr ct \<and>
      length ct = padding_len 44 + 44 + 7"
    using encrypt_with_padding_decrypts [of ?payload "replicate 16 3"] sample_payload
    by (force simp: encrypt_qq_tea_def encrypt_with_padding_Inr MAX_PLAINTEXT_LEN_def)
  then obtain ct where ct: "encrypt_qq_tea (\<lambda>n. Some (replicate n 7)) ?payload (replicate 16 3) = Inr ct"
    "length ct = padding_len 44 + 44 + 7" by blast
  let ?e = "sample_expected (Authenticated 9 [1] [2] (replicate 16 3))"
  have "decode_session_response (service_response_layout 1 0 (decimal 9) ct) ?e = Inr sample_response"
    using ct sample_response_ok
    by (intro session_response_accepted [where cookie = "[]" and compression = 0 and flag = 0])
      (simp_all add: sample_expected_def sample_response_def compression_supported_def sample_frame
        MAX_PACKET_LEN_def padding_len_mod)
  then show ?thesis by blast
qed

text \<open>
  The frame's own flag chooses its protection. A frame that says it is unencrypted is decoded for
  an authenticated session exactly as for an anonymous one, with no key involved: naming the account
  in decimal is all it needs, and its content is taken as the SSO response.
\<close>

theorem unencrypted_frame_accepted:
  assumes "decode_sso_response sso = Inr r" "length sso \<le> MAX_PACKET_LEN - 64" "sso \<noteq> []"
  shows "decode_session_frame
      (service_response_layout 0 flag (decimal (unat (auth_uin auth))) sso) auth = Inr r"
proof -
  let ?frame = "service_response_layout 0 flag (decimal (unat (auth_uin auth))) sso"
  have len: "length ?frame \<le> MAX_PACKET_LEN + 4"
    using assms(2) length_decimal_u32 [of "auth_uin auth"]
    by (simp add: service_response_layout_def service_body_layout_def MAX_PACKET_LEN_def)
  have "decode_service_response ?frame (auth_d2_key auth) =
      Inr \<lparr>sv_uin = decimal (unat (auth_uin auth)), sv_payload = sso\<rparr>"
    using assms(3) len by (intro decode_service_layout uin_text_decimal) (simp_all add: service_payload_def)
  with assms(1) show ?thesis
    by (simp add: decode_session_frame_Inr)
qed

theorem unencrypted_frame_accepted_witness:
  "decode_session_frame (service_response_layout 0 0 (decimal (unat (auth_uin (Authenticated 9 [1] [2] zero_key))))
      (sso_response_layout [] 0 sample_response)) (Authenticated 9 [1] [2] zero_key) = Inr sample_response"
  using sample_decodes sample_payload
  by (intro unencrypted_frame_accepted) (auto simp: MAX_PACKET_LEN_def)

end
