(* ===== verification/Session.thy ===== *)
theory Session
  imports Envelope
begin

text \<open>
  The authenticated session of \<open>crates/qq-session\<close>: \<open>SessionError\<close> (\<open>error.rs\<close>) and
  \<open>AuthenticatedSession\<close> (\<open>runtime.rs\<close>), which owns the transport, sends one request at a time and
  keeps the Push frames that interleave with its response in a bounded queue. The route policy
  \<open>admits_push\<close> is the closure the caller passes.
\<close>

section \<open>State and errors\<close>

datatype session_error =
    ETransport transport_error
  | EEnvelope envelope_error
  | Protocol
  | PushLimit

definition is_idle_timeout :: "session_error \<Rightarrow> bool" where
  "is_idle_timeout e \<longleftrightarrow> e = ETransport Timeout"

definition MAX_QUEUED_PUSHES :: nat where
  "MAX_QUEUED_PUSHES = 64"

definition MAX_INTERLEAVED_PUSHES :: nat where
  "MAX_INTERLEAVED_PUSHES = 64"

record 'st authenticated_session =
  transport :: "'st qq_transport"
  pushes :: "sso_response list"

type_synonym ('st, 'a) session_op = "('st authenticated_session, session_error, 'a) op"

definition session_new :: "'st qq_transport \<Rightarrow> 'st authenticated_session" where
  "session_new t = \<lparr>transport = t, pushes = []\<rparr>"

definition pop_push :: "'st authenticated_session \<Rightarrow> sso_response option \<times> 'st authenticated_session" where
  "pop_push s = (case pushes s of [] \<Rightarrow> (None, s) | p # ps \<Rightarrow> (Some p, s\<lparr>pushes := ps\<rparr>))"

section \<open>Operations\<close>

definition on_transport ::
  "('st qq_transport, transport_error, 'a) op \<Rightarrow> ('st, 'a) session_op" where
  "on_transport m s = (case m (transport s) of (r, t) \<Rightarrow> (map_err ETransport r, s\<lparr>transport := t\<rparr>))"

definition session_send ::
  "(bytes \<Rightarrow> 'st \<Rightarrow> write_event \<times> 'st) \<Rightarrow> ('st \<Rightarrow> write_event \<times> 'st) \<Rightarrow> bytes \<Rightarrow> ('st, unit) session_op" where
  "session_send send flush frame = on_transport (write_frame send flush frame)"

definition session_read ::
  "(nat \<Rightarrow> 'st \<Rightarrow> read_event \<times> 'st) \<Rightarrow> session_auth \<Rightarrow> ('st, sso_response) session_op" where
  "session_read recv auth =
     bindS (on_transport (read_frame recv)) (\<lambda>encoded.
     liftS (map_err EEnvelope (decode_session_frame encoded auth)))"

definition enqueue :: "sso_response \<Rightarrow> ('st, unit) session_op" where
  "enqueue push s =
     (if MAX_QUEUED_PUSHES \<le> length (pushes s) then (Inl PushLimit, s)
      else (Inr (), s\<lparr>pushes := pushes s @ [push]\<rparr>))"

text \<open>The loop of \<open>exchange\<close>, with the iterations left.\<close>

fun exchange_loop ::
  "(nat \<Rightarrow> 'st \<Rightarrow> read_event \<times> 'st) \<Rightarrow> session_auth \<Rightarrow> u32 \<Rightarrow> rstr \<Rightarrow> (rstr \<Rightarrow> bool) \<Rightarrow> nat \<Rightarrow>
   ('st, bytes) session_op" where
  "exchange_loop recv auth seq command admits_push 0 = failS PushLimit"
| "exchange_loop recv auth seq command admits_push (Suc n) =
     bindS (session_read recv auth) (\<lambda>inbound.
     if sr_sequence inbound = seq \<and> sr_command inbound = command then
       (if sr_return_code inbound \<noteq> 0 then failS Protocol else retS (sr_payload inbound))
     else if sr_sequence inbound = seq \<or> \<not> admits_push (sr_command inbound) then failS Protocol
     else bindS (enqueue inbound) (\<lambda>_.
          exchange_loop recv auth seq command admits_push n))"

definition exchange ::
  "(bytes \<Rightarrow> 'st \<Rightarrow> write_event \<times> 'st) \<Rightarrow> ('st \<Rightarrow> write_event \<times> 'st) \<Rightarrow>
   (nat \<Rightarrow> 'st \<Rightarrow> read_event \<times> 'st) \<Rightarrow> session_auth \<Rightarrow> u32 \<Rightarrow> rstr \<Rightarrow> bytes \<Rightarrow> (rstr \<Rightarrow> bool) \<Rightarrow>
   ('st, bytes) session_op" where
  "exchange send flush recv auth seq command frame admits_push =
     bindS (session_send send flush frame) (\<lambda>_.
     exchange_loop recv auth seq command admits_push (Suc MAX_INTERLEAVED_PUSHES))"

definition read_push ::
  "(nat \<Rightarrow> 'st \<Rightarrow> read_event \<times> 'st) \<Rightarrow> session_auth \<Rightarrow> (rstr \<Rightarrow> bool) \<Rightarrow> ('st, sso_response) session_op" where
  "read_push recv auth admits_push =
     bindS (session_read recv auth) (\<lambda>inbound.
     if sr_return_code inbound \<noteq> 0 \<or> \<not> admits_push (sr_command inbound) then failS Protocol
     else retS inbound)"

section \<open>The abstract exchange\<close>

text \<open>
  What the reads yield one after the other, and the contract of an exchange over that sequence: the
  admitted pushes before the first other message go to the queue in order, and that message decides.
\<close>

fun inbound ::
  "(nat \<Rightarrow> 'st \<Rightarrow> read_event \<times> 'st) \<Rightarrow> session_auth \<Rightarrow> nat \<Rightarrow> 'st authenticated_session \<Rightarrow>
   (session_error + sso_response) list" where
  "inbound recv auth 0 s = []"
| "inbound recv auth (Suc n) s =
     (case session_read recv auth s of (r, s') \<Rightarrow> r # inbound recv auth n s')"

fun verdict :: "u32 \<Rightarrow> rstr \<Rightarrow> session_error + sso_response \<Rightarrow> session_error + bytes" where
  "verdict seq command (Inl e) = Inl e"
| "verdict seq command (Inr m) =
     (if sr_sequence m = seq \<and> sr_command m = command \<and> sr_return_code m = 0
      then Inr (sr_payload m) else Inl Protocol)"

fun exchange_spec ::
  "u32 \<Rightarrow> rstr \<Rightarrow> (rstr \<Rightarrow> bool) \<Rightarrow> (session_error + sso_response) list \<Rightarrow> sso_response list \<Rightarrow>
   (session_error + bytes) \<times> sso_response list" where
  "exchange_spec seq command admits [] queue = (Inl PushLimit, queue)"
| "exchange_spec seq command admits (Inl e # ms) queue = (Inl e, queue)"
| "exchange_spec seq command admits (Inr m # ms) queue =
     (if sr_sequence m \<noteq> seq \<and> admits (sr_command m) then
        (if length queue < 64 then exchange_spec seq command admits ms (queue @ [m])
         else (Inl PushLimit, queue))
      else (verdict seq command (Inr m), queue))"

lemma session_read_pushes: "session_read recv auth s = (r, s') \<Longrightarrow> pushes s' = pushes s"
  by (auto simp: session_read_def on_transport_def bindS_def liftS_def split: prod.splits sum.splits)

lemma inbound_pushes [simp]: "inbound recv auth n (s\<lparr>pushes := ps\<rparr>) = inbound recv auth n s"
proof (induction n arbitrary: s ps)
  case (Suc n)
  obtain r s' where r: "session_read recv auth s = (r, s')" by fastforce
  have "session_read recv auth (s\<lparr>pushes := ps\<rparr>) = (r, s'\<lparr>pushes := ps\<rparr>)"
    using r by (auto simp: session_read_def on_transport_def bindS_def liftS_def
        split: prod.splits sum.splits)
  with r Suc show ?case by simp
qed simp

text \<open>The code implements the contract.\<close>

lemma exchange_loop_refines:
  "exchange_loop recv auth seq command admits n s = (r, s') \<Longrightarrow>
   (r, pushes s') = exchange_spec seq command admits (inbound recv auth n s) (pushes s)"
proof (induction n arbitrary: s)
  case 0
  then show ?case by (simp add: failS_def)
next
  case (Suc n)
  obtain m t where read: "session_read recv auth s = (m, t)" by fastforce
  note ps = session_read_pushes [OF read]
  show ?case
  proof (cases m)
    case (Inl e)
    with Suc.prems read ps show ?thesis by (simp add: bindS_def)
  next
    case (Inr msg)
    show ?thesis
    proof (cases "sr_sequence msg \<noteq> seq \<and> admits (sr_command msg) \<and> length (pushes t) < 64")
      case True
      with Suc.prems read Inr have
        "exchange_loop recv auth seq command admits n (t\<lparr>pushes := pushes t @ [msg]\<rparr>) = (r, s')"
        by (simp add: bindS_def enqueue_def MAX_QUEUED_PUSHES_def)
      from Suc.IH [OF this] True read Inr ps show ?thesis by simp
    next
      case False
      with Suc.prems read Inr ps show ?thesis
        by (auto simp: bindS_def enqueue_def MAX_QUEUED_PUSHES_def failS_def retS_def split: if_splits)
    qed
  qed
qed

text \<open>An admitted push that interleaves with the request \<open>seq\<close>.\<close>

definition interleaved :: "u32 \<Rightarrow> (rstr \<Rightarrow> bool) \<Rightarrow> sso_response \<Rightarrow> bool" where
  "interleaved seq admits m \<longleftrightarrow> sr_sequence m \<noteq> seq \<and> admits (sr_command m)"

lemma exchange_spec_pushes:
  "list_all (interleaved seq admits) ms \<Longrightarrow> length queue + length ms \<le> 64 \<Longrightarrow>
   exchange_spec seq command admits (map Inr ms @ rest) queue =
   exchange_spec seq command admits rest (queue @ ms)"
  by (induction ms arbitrary: queue) (auto simp: interleaved_def)

lemma exchange_spec_decides:
  "(\<And>p. m = Inr p \<Longrightarrow> \<not> interleaved seq admits p) \<Longrightarrow>
   exchange_spec seq command admits (m # rest) queue = (verdict seq command m, queue)"
  by (cases m) (auto simp: interleaved_def)

lemma exchange_spec_full:
  "interleaved seq admits m \<Longrightarrow> length queue = 64 \<Longrightarrow>
   exchange_spec seq command admits (Inr m # rest) queue = (Inl PushLimit, queue)"
  by (auto simp: interleaved_def)

text \<open>Every run of the contract on a long enough inbox is one of the two.\<close>

lemma exchange_spec_cases:
  "length queue \<le> 64 \<Longrightarrow> 64 < length queue + length inbox \<Longrightarrow>
   exchange_spec seq command admits inbox queue = (r, queue') \<Longrightarrow>
   \<exists>ms m rest. inbox = map Inr ms @ m # rest \<and> queue' = queue @ ms \<and>
     list_all (interleaved seq admits) ms \<and> length queue' \<le> 64 \<and>
     (if \<exists>p. m = Inr p \<and> interleaved seq admits p then length queue' = 64 \<and> r = Inl PushLimit
      else r = verdict seq command m)"
proof (induction inbox arbitrary: queue)
  case Nil
  then show ?case by simp
next
  case (Cons x inbox)
  show ?case
  proof (cases "\<exists>p. x = Inr p \<and> interleaved seq admits p \<and> length queue < 64")
    case True
    then obtain p where p: "x = Inr p" "interleaved seq admits p" "length queue < 64" by blast
    with Cons.prems have "exchange_spec seq command admits inbox (queue @ [p]) = (r, queue')"
      by (simp add: interleaved_def)
    with Cons.IH [of "queue @ [p]"] p Cons.prems(2) obtain ms m rest where
      "inbox = map Inr ms @ m # rest" "queue' = (queue @ [p]) @ ms" "list_all (interleaved seq admits) ms"
      "length queue' \<le> 64" and res: "if \<exists>p. m = Inr p \<and> interleaved seq admits p
         then length queue' = 64 \<and> r = Inl PushLimit else r = verdict seq command m" by auto
    with p show ?thesis
      by (intro exI [of _ "p # ms"] exI [of _ m] exI [of _ rest]) auto
  next
    case False
    have "queue' = queue \<and> (if \<exists>p. x = Inr p \<and> interleaved seq admits p
         then length queue' = 64 \<and> r = Inl PushLimit else r = verdict seq command x)"
    proof (cases "\<exists>p. x = Inr p \<and> interleaved seq admits p")
      case True
      with False Cons.prems show ?thesis by (auto simp: interleaved_def)
    next
      case no: False
      then have "exchange_spec seq command admits (x # inbox) queue = (verdict seq command x, queue)"
        by (intro exchange_spec_decides) auto
      with no Cons.prems show ?thesis by auto
    qed
    with Cons.prems show ?thesis
      by (intro exI [of _ "[]"] exI [of _ x] exI [of _ inbox]) auto
  qed
qed

lemma length_inbound [simp]: "length (inbound recv auth n s) = n"
  by (induction n arbitrary: s) (auto split: prod.splits)

section \<open>The queue over a sequence of calls\<close>

datatype 'st session_call =
    CallExchange session_auth u32 rstr bytes "rstr \<Rightarrow> bool"
  | CallReadPush session_auth "rstr \<Rightarrow> bool"
  | CallSend bytes
  | CallPop

fun session_step ::
  "(bytes \<Rightarrow> 'st \<Rightarrow> write_event \<times> 'st) \<Rightarrow> ('st \<Rightarrow> write_event \<times> 'st) \<Rightarrow>
   (nat \<Rightarrow> 'st \<Rightarrow> read_event \<times> 'st) \<Rightarrow> 'st authenticated_session \<Rightarrow> 'st session_call \<Rightarrow>
   'st authenticated_session" where
  "session_step send flush recv s (CallExchange auth seq command frame admits) =
     snd (exchange send flush recv auth seq command frame admits s)"
| "session_step send flush recv s (CallReadPush auth admits) = snd (read_push recv auth admits s)"
| "session_step send flush recv s (CallSend frame) = snd (session_send send flush frame s)"
| "session_step send flush recv s CallPop = snd (pop_push s)"

lemma on_transport_pushes: "on_transport m s = (r, s') \<Longrightarrow> pushes s' = pushes s"
  by (auto simp: on_transport_def split: prod.splits)

lemma read_push_pushes: "read_push recv auth admits s = (r, s') \<Longrightarrow> pushes s' = pushes s"
  unfolding read_push_def
  by (erule bindS_cases) (auto simp: failS_def retS_def dest: session_read_pushes split: if_splits)

lemma exchange_queue:
  assumes ex: "exchange send flush recv auth seq command frame admits s = (r, s')"
    and bound: "length (pushes s) \<le> 64"
  shows "\<exists>ms. pushes s' = pushes s @ ms \<and> list_all (interleaved seq admits) ms \<and> length (pushes s') \<le> 64"
  using ex unfolding exchange_def
proof (cases rule: bindS_cases)
  case (err e)
  then show ?thesis using bound by (auto simp: session_send_def dest: on_transport_pushes)
next
  case (ok _ t)
  then have t: "pushes t = pushes s" by (auto simp: session_send_def dest: on_transport_pushes)
  have "exchange_spec seq command admits (inbound recv auth 65 t) (pushes t) = (r, pushes s')"
    using exchange_loop_refines [OF ok(2)] by (simp add: MAX_INTERLEAVED_PUSHES_def)
  from exchange_spec_cases [OF _ _ this] bound t show ?thesis by auto
qed

interpretation session: machine "session_step send flush recv" "\<lambda>s. length (pushes s) \<le> 64" for send flush recv
proof
  fix s :: "'a authenticated_session" and c :: "'a session_call"
  assume bound: "length (pushes s) \<le> 64"
  show "length (pushes (session_step send flush recv s c)) \<le> 64"
  proof (cases c)
    case (CallExchange auth seq command frame admits)
    obtain r s' where "exchange send flush recv auth seq command frame admits s = (r, s')" by fastforce
    with exchange_queue [OF this bound] CallExchange show ?thesis by auto
  next
    case (CallReadPush auth admits)
    obtain r s' where "read_push recv auth admits s = (r, s')" by fastforce
    with read_push_pushes [OF this] bound CallReadPush show ?thesis by simp
  next
    case (CallSend frame)
    obtain r s' where "session_send send flush frame s = (r, s')" by fastforce
    with on_transport_pushes [of "write_frame send flush frame" s r s'] bound CallSend show ?thesis
      by (simp add: session_send_def)
  next
    case CallPop
    with bound show ?thesis by (auto simp: pop_push_def split: list.splits)
  qed
qed

section \<open>Progress of an exchange\<close>

definition session_ready :: "('st \<Rightarrow> bytes) \<Rightarrow> 'st authenticated_session \<Rightarrow> bytes \<Rightarrow> bool" where
  "session_ready pending s bs \<longleftrightarrow> transport_ok (transport s) \<and>
     partial_frame (transport s) @ pending (stream (transport s)) = bs"

lemma session_read_live:
  assumes laws: "stream_laws recv pending" "stream_live recv pending"
    and ready: "session_ready pending s (f @ rest)"
    and f: "complete_frame (maximum_frame_len (config (transport s))) f"
  obtains s' where "session_read recv auth s = (map_err EEnvelope (decode_session_frame f auth), s')"
    "session_ready pending s' rest" "pushes s' = pushes s" "config (transport s') = config (transport s)"
proof -
  have wf: "transport_ok (transport s)"
    and bytes: "partial_frame (transport s) @ pending (stream (transport s)) = f @ rest"
    using ready by (simp_all add: session_ready_def)
  obtain t' where rf: "read_frame recv (transport s) = (Inr f, t')"
    using read_frame_live [OF laws wf f bytes] .
  from read_frame_accounts [OF laws(1) wf rf] bytes
  have "transport_ok t'" "config t' = config (transport s)" "partial_frame t' @ pending (stream t') = rest"
    by (simp_all add: received_def)
  with that [of "s\<lparr>transport := t'\<rparr>"] rf show thesis
    by (simp add: session_read_def on_transport_def bindS_def liftS_def session_ready_def)
qed

lemma exchange_loop_live:
  assumes laws: "stream_laws recv pending" "stream_live recv pending"
    and response: "decode_session_frame g auth = Inr m" "sr_sequence m = seq" "sr_command m = command"
      "sr_return_code m = 0"
  shows "session_ready pending s (concat fs @ g @ rest) \<Longrightarrow>
    list_all (complete_frame (maximum_frame_len (config (transport s)))) (fs @ [g]) \<Longrightarrow>
    map (\<lambda>f. decode_session_frame f auth) fs = map Inr ms \<Longrightarrow> list_all (interleaved seq admits) ms \<Longrightarrow>
    length (pushes s) + length ms \<le> 64 \<Longrightarrow> length fs < n \<Longrightarrow>
    \<exists>s'. exchange_loop recv auth seq command admits n s = (Inr (sr_payload m), s') \<and>
      pushes s' = pushes s @ ms \<and> session_ready pending s' rest"
proof (induction fs arbitrary: s n ms)
  case Nil
  then obtain k where n: "n = Suc k" by (cases n) auto
  from Nil obtain s' where "session_read recv auth s = (map_err EEnvelope (decode_session_frame g auth), s')"
    "session_ready pending s' rest" "pushes s' = pushes s"
    using session_read_live [OF laws, of s g rest auth] by auto
  with Nil response n show ?case by (simp add: bindS_def retS_def)
next
  case (Cons f fs)
  then obtain k where n: "n = Suc k" by (cases n) auto
  from Cons.prems(3) obtain p ps where ms: "ms = p # ps" and p: "decode_session_frame f auth = Inr p"
    and ps: "map (\<lambda>f. decode_session_frame f auth) fs = map Inr ps" by (cases ms) auto
  from Cons.prems obtain s1 where read: "session_read recv auth s = (map_err EEnvelope (decode_session_frame f auth), s1)"
    and ready: "session_ready pending s1 (concat fs @ g @ rest)" and s1: "pushes s1 = pushes s"
      "config (transport s1) = config (transport s)"
    using session_read_live [OF laws, of s f "concat fs @ g @ rest" auth] by auto
  let ?s2 = "s1\<lparr>pushes := pushes s1 @ [p]\<rparr>"
  have "\<exists>s'. exchange_loop recv auth seq command admits k ?s2 = (Inr (sr_payload m), s') \<and>
      pushes s' = pushes ?s2 @ ps \<and> session_ready pending s' rest"
    using Cons.prems ready s1 ps ms n
    by (intro Cons.IH) (simp_all add: session_ready_def)
  then show ?case
    using read p s1 ms n Cons.prems(4,5)
    by (auto simp: bindS_def enqueue_def MAX_QUEUED_PUSHES_def interleaved_def)
qed

section \<open>Properties\<close>

text \<open>
  C6: An exchange first writes its frame; when that fails, its error is the result and nothing is
  read. Otherwise it is decided by the first message that is not an admitted push. The admitted pushes
  before it, and nothing else, go to the queue in the order they arrived; the result is the payload
  of the matching response when that message has the request's sequence and command and return code
  zero, an error otherwise; and \<open>PushLimit\<close> is returned only for a push that arrives when the
  queue already holds 64.
\<close>

theorem exchange_decided_by_first_response:
  assumes run: "exchange send flush recv auth seq command frame admits s = (r, s')"
    and room: "length (pushes s) \<le> 64"
  shows "case write_frame send flush frame (transport s) of
      (Inl e, t) \<Rightarrow> r = Inl (ETransport e) \<and> s' = s\<lparr>transport := t\<rparr>
    | (Inr _, t) \<Rightarrow>
        \<exists>ms m rest. inbound recv auth 65 (s\<lparr>transport := t\<rparr>) = map Inr ms @ m # rest \<and>
          pushes s' = pushes s @ ms \<and> list_all (interleaved seq admits) ms \<and> length (pushes s') \<le> 64 \<and>
          (if \<exists>p. m = Inr p \<and> interleaved seq admits p then length (pushes s') = 64 \<and> r = Inl PushLimit
           else r = verdict seq command m)"
proof -
  obtain w t where w: "write_frame send flush frame (transport s) = (w, t)" by fastforce
  show ?thesis
  proof (cases w)
    case (Inl e)
    with run w show ?thesis
      by (simp add: exchange_def session_send_def on_transport_def bindS_def map_err_def)
  next
    case (Inr u)
    let ?s = "s\<lparr>transport := t\<rparr>"
    have loop: "exchange_loop recv auth seq command admits (Suc MAX_INTERLEAVED_PUSHES) ?s = (r, s')"
      using run w Inr by (simp add: exchange_def session_send_def on_transport_def bindS_def map_err_def)
    then have "exchange_spec seq command admits (inbound recv auth 65 ?s) (pushes ?s) = (r, pushes s')"
      using exchange_loop_refines [OF loop] by (simp add: MAX_INTERLEAVED_PUSHES_def)
    from exchange_spec_cases [OF _ _ this] room w Inr show ?thesis by simp
  qed
qed

theorem exchange_decided_by_first_response_witness:
  "\<exists>r s' m rest. exchange (\<lambda>bs st. (Written, st)) (\<lambda>st. (Written, st)) scripted_recv (Anonymous 9) 7 [119, 116]
       [0, 0, 0, 4] (\<lambda>_. True) (session_new (from_stream [ReadFailed] transport_config_default)) = (r, s') \<and>
     inbound scripted_recv (Anonymous 9) 65 (session_new (from_stream [ReadFailed] transport_config_default)) = m # rest \<and>
     m = Inl (ETransport Io) \<and> r = Inl (ETransport Io) \<and> pushes s' = []"
proof -
  let ?s = "session_new (from_stream [ReadFailed] transport_config_default)"
  obtain r s' where run: "exchange (\<lambda>bs st. (Written, st)) (\<lambda>st. (Written, st)) scripted_recv (Anonymous 9) 7 [119, 116]
       [0, 0, 0, 4] (\<lambda>_. True) ?s = (r, s')" by fastforce
  have room: "length (pushes ?s) \<le> 64" by (simp add: session_new_def)
  have w: "write_frame (\<lambda>bs st. (Written, st)) (\<lambda>st. (Written, st)) [0, 0, 0, 4] (transport ?s) = (Inr (), transport ?s)"
    by (simp add: write_frame_def bindS_def liftS_def validate_complete_frame_def timed_write_def from_be_def be_nat_def
        session_new_def from_stream_def transport_config_default_def HARD_MAX_FRAME_LEN_def Let_def)
  have "fst (session_read scripted_recv (Anonymous 9) ?s) = Inl (ETransport Io)"
    by (simp add: session_read_def on_transport_def bindS_def read_frame_def read_prefix_loop.simps
        session_new_def from_stream_def map_err_def)
  then obtain rest where first: "inbound scripted_recv (Anonymous 9) 65 ?s = Inl (ETransport Io) # rest"
    using inbound.simps(2) [of scripted_recv "Anonymous 9" 64 ?s] by (cases "session_read scripted_recv (Anonymous 9) ?s") simp
  from exchange_decided_by_first_response [OF run room] obtain ms m rest' where
    ms: "inbound scripted_recv (Anonymous 9) 65 ?s = map Inr ms @ m # rest'" "pushes s' = pushes ?s @ ms"
      "if \<exists>p. m = Inr p \<and> interleaved 7 (\<lambda>_. True) p then length (pushes s') = 64 \<and> r = Inl PushLimit
       else r = verdict 7 [119, 116] m"
    unfolding w by auto
  from ms(1) first have "ms = []" "m = Inl (ETransport Io)" by (cases ms; auto)+
  with ms(2,3) run first show ?thesis by (auto simp: session_new_def)
qed

text \<open>
  The push queue is bounded over the life of a session: after any sequence of exchanges, idle
  reads, sends and pops, whatever the peer and the network do, it holds at most 64 messages.
\<close>

theorem session_queue_bounded:
  "length (pushes (foldl (session_step send flush recv) (session_new t) calls)) \<le> MAX_QUEUED_PUSHES"
proof -
  have "length (pushes (session_new t)) \<le> 64" by (simp add: session_new_def)
  then have "length (pushes (foldl (session_step send flush recv) (session_new t) calls)) \<le> 64"
    by (rule session.run_inv)
  then show ?thesis by (simp add: MAX_QUEUED_PUSHES_def)
qed

text \<open>
  C15: Interleaved pushes never cost a request its response. When the request is written and the bytes
  still to come are then up to 64 admitted pushes (as far as the queue has room) followed by the
  matching response, the exchange returns that response's payload, queues exactly those pushes, and
  leaves what follows unread.
\<close>

theorem exchange_completes:
  assumes laws: "stream_laws recv pending" "stream_live recv pending"
    and written: "write_frame send flush frame (transport s) = (Inr (), t)"
    and bytes: "session_ready pending (s\<lparr>transport := t\<rparr>) (concat fs @ g @ rest)"
      "list_all (complete_frame (maximum_frame_len (config t))) (fs @ [g])"
    and interleaving: "map (\<lambda>f. decode_session_frame f auth) fs = map Inr ms" "list_all (interleaved seq admits) ms"
      "length (pushes s) + length ms \<le> 64"
    and response: "decode_session_frame g auth = Inr m" "sr_sequence m = seq" "sr_command m = command"
      "sr_return_code m = 0"
  shows "\<exists>s'. exchange send flush recv auth seq command frame admits s = (Inr (sr_payload m), s') \<and>
      pushes s' = pushes s @ ms \<and> session_ready pending s' rest"
proof -
  let ?s = "s\<lparr>transport := t\<rparr>"
  have "length fs = length ms"
    using arg_cong [OF interleaving(1), of length] by simp
  with interleaving(3) have short: "length fs < Suc MAX_INTERLEAVED_PUSHES"
    by (simp add: MAX_INTERLEAVED_PUSHES_def)
  have "\<exists>s'. exchange_loop recv auth seq command admits (Suc MAX_INTERLEAVED_PUSHES) ?s =
      (Inr (sr_payload m), s') \<and> pushes s' = pushes ?s @ ms \<and> session_ready pending s' rest"
    by (rule exchange_loop_live [OF laws response, where fs = fs]) (use bytes interleaving short in simp_all)
  with written show ?thesis
    by (simp add: exchange_def session_send_def on_transport_def bindS_def map_err_def)
qed

theorem exchange_completes_witness:
  "\<exists>g s'. exchange (\<lambda>bs st. (Written, st)) (\<lambda>st. (Written, st)) byte_recv (Anonymous 9) 7 [119, 116] [0, 0, 0, 4]
      (\<lambda>_. False) (session_new (from_stream (g @ [1, 2]) transport_config_default)) = (Inr [5, 5, 5], s') \<and> pushes s' = []"
proof -
  let ?g = "service_response_layout 0 3 (decimal 9) (sso_response_layout [] 0 sample_response)"
  let ?s = "session_new (from_stream (?g @ [1, 2]) transport_config_default)"
  have "length ?g = 59" by (simp add: sample_frame sample_payload)
  then have g: "complete_frame 2097152 ?g"
    unfolding service_response_layout_def by (intro complete_prefixed) simp_all
  have laws: "stream_laws byte_recv (\<lambda>st. st)" "stream_live byte_recv (\<lambda>st. st)"
    by (auto simp: stream_laws_def stream_live_def byte_recv_def split: if_splits)
  have w: "write_frame (\<lambda>bs st. (Written, st)) (\<lambda>st. (Written, st)) [0, 0, 0, 4] (transport ?s) = (Inr (), transport ?s)"
    by (simp add: write_frame_def bindS_def liftS_def validate_complete_frame_def timed_write_def from_be_def be_nat_def
        session_new_def from_stream_def transport_config_default_def HARD_MAX_FRAME_LEN_def Let_def)
  have d: "decode_session_frame ?g (Anonymous 9) = Inr sample_response"
    using sample_accepted
    by (auto simp: decode_session_response_def sample_expected_def bindE_Inr split: if_splits)
  have "\<exists>s'. exchange (\<lambda>bs st. (Written, st)) (\<lambda>st. (Written, st)) byte_recv (Anonymous 9) 7 [119, 116] [0, 0, 0, 4]
      (\<lambda>_. False) ?s = (Inr (sr_payload sample_response), s') \<and>
      pushes s' = pushes ?s @ [] \<and> session_ready (\<lambda>st. st) s' [1, 2]"
    by (rule exchange_completes [where fs = "[]" and g = ?g and rest = "[1, 2]", OF laws w])
      (use g d in \<open>simp_all add: session_new_def session_ready_def from_stream_def transport_ok_def partial_frame_def
        transport_config_default_def HARD_MAX_FRAME_LEN_def sample_response_def\<close>)
  then show ?thesis
    by (auto simp: session_new_def sample_response_def)
qed

end
