(* ===== verification/Marked.thy ===== *)
theory Marked
  imports Envelope
begin

text \<open>
  The signed reserve of \<open>crates/qq-envelope/src/marked.rs\<close>: the compiled marked-reserve contract
  (\<open>encode_marked_reserve\<close>, \<open>encode_account_reserve\<close>) and the insertion of the account identity
  into an opaque protobuf message (\<open>attach_account_identity\<close>). The generated protobuf encoder
  (\<open>prost::Message::encode_to_vec\<close>) is the parameter \<open>encode_to_vec\<close>, the operating system's
  entropy the parameter \<open>fill\<close>.
\<close>

section \<open>Constants and messages\<close>

definition COMPILED_CONTRACT :: u32 where
  "COMPILED_CONTRACT = 77"

definition REQUIRED_SLOTS :: "u16 list" where
  "REQUIRED_SLOTS = [1, 2, 3]"

definition MAX_IDENTITY_LEN :: nat where
  "MAX_IDENTITY_LEN = 256"

definition MAX_CORRELATION_LEN :: nat where
  "MAX_CORRELATION_LEN = 128"

definition ACCOUNT_IDENTITY_FIELD :: u32 where
  "ACCOUNT_IDENTITY_FIELD = 16"

record envelope_mark =
  mk_slot :: u16
  mk_value :: bytes

record marked_fields =
  mf_third :: bytes
  mf_first :: bytes
  mf_second :: bytes

record reserve_fields =
  rf_locale :: "u32 option"
  rf_new_connection :: "u32 option"
  rf_correlation :: "rstr option"
  rf_account_identity :: "rstr option"
  rf_subscriber_identity :: "u32 option"
  rf_network :: "u32 option"
  rf_address_stack :: "u32 option"
  rf_marked :: "marked_fields option"
  rf_core_version :: "u32 option"

definition then_some :: "bool \<Rightarrow> 'a \<Rightarrow> 'a option" where
  "then_some c a = (if c then Some a else None)"

section \<open>The marked reserve\<close>

text \<open>\<open>REQUIRED_SLOTS.iter().position(\<dots>)\<close>.\<close>

fun position_of :: "'a \<Rightarrow> 'a list \<Rightarrow> nat option" where
  "position_of x [] = None"
| "position_of x (y # ys) = (if y = x then Some 0 else map_option Suc (position_of x ys))"

fun place_marks :: "envelope_mark list \<Rightarrow> bytes option list \<Rightarrow> envelope_error + bytes option list" where
  "place_marks [] values = Inr values"
| "place_marks (mark # marks) values =
     (case position_of (mk_slot mark) REQUIRED_SLOTS of
        None \<Rightarrow> Inl InvalidField
      | Some index \<Rightarrow>
          if values ! index \<noteq> None then Inl InvalidField
          else place_marks marks (values[index := Some (mk_value mark)]))"

definition marked_reserve_fields ::
  "bytes \<Rightarrow> bytes \<Rightarrow> bytes \<Rightarrow> rstr \<Rightarrow> rstr \<Rightarrow> bool \<Rightarrow> reserve_fields" where
  "marked_reserve_fields first second third correlation account_identity include_identity =
     \<lparr>rf_locale = then_some include_identity 2052,
      rf_new_connection = then_some include_identity 1,
      rf_correlation = Some correlation,
      rf_account_identity = Some account_identity,
      rf_subscriber_identity = then_some include_identity 0,
      rf_network = then_some include_identity 1,
      rf_address_stack = then_some include_identity 1,
      rf_marked = Some \<lparr>mf_third = third, mf_first = first, mf_second = second\<rparr>,
      rf_core_version = then_some include_identity 100\<rparr>"

definition encode_marked_reserve ::
  "(reserve_fields \<Rightarrow> bytes) \<Rightarrow> u32 \<Rightarrow> envelope_mark list \<Rightarrow> rstr \<Rightarrow> rstr \<Rightarrow> bool \<Rightarrow>
   envelope_error + bytes" where
  "encode_marked_reserve encode_to_vec contract marks correlation account_identity include_identity =
     (if contract \<noteq> COMPILED_CONTRACT
         \<or> length marks \<noteq> length REQUIRED_SLOTS
         \<or> correlation = []
         \<or> MAX_CORRELATION_LEN < length correlation
         \<or> account_identity = []
         \<or> MAX_IDENTITY_LEN < length account_identity
      then Inl InvalidField
      else bindE (place_marks marks [None, None, None]) (\<lambda>values.
        (case values of
           [Some first, Some second, Some third] \<Rightarrow>
             if third = [] then Inl InvalidField
             else Inr (encode_to_vec
               (marked_reserve_fields first second third correlation account_identity include_identity))
         | _ \<Rightarrow> Inl InvalidField)))"

definition validate_account_identity :: "rstr \<Rightarrow> envelope_error + unit" where
  "validate_account_identity value =
     (if value = [] \<or> MAX_IDENTITY_LEN < length value \<or> list_ex is_control (chars value)
      then Inl InvalidField else Inr ())"

text \<open>\<open>append_hex\<close>: two lower-case hexadecimal digits per byte.\<close>

definition hex_digit :: "u8 \<Rightarrow> u8" where
  "hex_digit n = (if n < 10 then n + 0x30 else n - 10 + 0x61)"

definition append_hex :: "rstr \<Rightarrow> bytes \<Rightarrow> rstr" where
  "append_hex output bs = output @ concat (map (\<lambda>b. [hex_digit (drop_bit 4 b), hex_digit (b AND 0x0f)]) bs)"

definition random_correlation :: "(nat \<Rightarrow> bytes option) \<Rightarrow> envelope_error + rstr" where
  "random_correlation fill =
     (case fill 24 of
        None \<Rightarrow> Inl InvalidField
      | Some entropy \<Rightarrow>
          let value = append_hex [0x30, 0x30, 0x2d] (take 16 entropy);
              value = append_hex (value @ [0x2d]) (drop 16 entropy)
          in Inr (value @ [0x2d, 0x30, 0x31]))"

definition encode_account_reserve ::
  "(reserve_fields \<Rightarrow> bytes) \<Rightarrow> (nat \<Rightarrow> bytes option) \<Rightarrow> rstr \<Rightarrow> bool \<Rightarrow> envelope_error + bytes" where
  "encode_account_reserve encode_to_vec fill account_identity include_identity =
     bindE (validate_account_identity account_identity) (\<lambda>_.
     bindE (random_correlation fill) (\<lambda>correlation.
     Inr (encode_to_vec
       \<lparr>rf_locale = then_some include_identity 2052,
        rf_new_connection = then_some include_identity 1,
        rf_correlation = Some correlation,
        rf_account_identity = Some account_identity,
        rf_subscriber_identity = then_some include_identity 0,
        rf_network = then_some include_identity 1,
        rf_address_stack = then_some include_identity 1,
        rf_marked = None,
        rf_core_version = then_some include_identity 100\<rparr>)))"

section \<open>Inserting the account identity\<close>

text \<open>The loop of \<open>read_varint\<close>, over \<open>shift = 0, 7, \<dots>, 63\<close>; the state is the offset.\<close>

function read_varint_at :: "bytes \<Rightarrow> nat \<Rightarrow> u64 \<Rightarrow> (nat, envelope_error, u64) op" where
  "read_varint_at encoded shift value offset =
     (if shift < 70 then
        if length encoded \<le> offset then (Inl InvalidField, offset)
        else let b = encoded ! offset in
          if shift = 63 \<and> 1 < b then (Inl InvalidField, offset + 1)
          else let value' = value OR push_bit shift (ucast (b AND 0x7f)) in
            if b AND 0x80 = 0 then (Inr value', offset + 1)
            else read_varint_at encoded (shift + 7) value' (offset + 1)
      else (Inl InvalidField, offset))"
  by pat_completeness auto
termination
  by (relation "measure (\<lambda>(_, shift, _, _). 70 - shift)") auto

declare read_varint_at.simps [simp del]

definition read_varint :: "bytes \<Rightarrow> (nat, envelope_error, u64) op" where
  "read_varint encoded = read_varint_at encoded 0 0"

function put_varint :: "u64 \<Rightarrow> bytes" where
  "put_varint value =
     (if 0x80 \<le> value then ((ucast value AND 0x7f) OR 0x80) # put_varint (drop_bit 7 value)
      else [ucast value])"
  by pat_completeness auto
termination
proof (relation "measure unat")
  fix v :: u64
  assume "0x80 \<le> v"
  then have "0 < unat v" by (simp add: word_le_nat_alt)
  then show "(drop_bit 7 v, v) \<in> measure unat"
    by (simp add: unat_drop_bit)
qed simp

declare put_varint.simps [simp del]

definition skip_by :: "bytes \<Rightarrow> nat \<Rightarrow> (nat, envelope_error, unit) op" where
  "skip_by encoded len offset =
     (case usize_add offset len of
        None \<Rightarrow> (Inl InvalidField, offset)
      | Some stop \<Rightarrow> if stop \<le> length encoded then (Inr (), stop) else (Inl InvalidField, offset))"

definition skip_field :: "bytes \<Rightarrow> u64 \<Rightarrow> (nat, envelope_error, unit) op" where
  "skip_field encoded wire_type =
     (if wire_type = 0 then bindS (read_varint encoded) (\<lambda>_. retS ())
      else if wire_type = 1 then skip_by encoded 8
      else if wire_type = 2 then bindS (read_varint encoded) (\<lambda>len. skip_by encoded (unat len))
      else if wire_type = 5 then skip_by encoded 4
      else failS InvalidField)"

lemma read_varint_at_progress:
  "read_varint_at encoded shift value offset = (Inr v, offset') \<Longrightarrow>
   offset < offset' \<and> offset' \<le> length encoded"
proof (induction encoded shift "value" offset rule: read_varint_at.induct)
  case (1 encoded shift acc offset)
  from "1.prems" show ?case
    unfolding read_varint_at.simps [of encoded shift]
    using "1.IH" by (auto simp: Let_def split: if_splits dest: Suc_lessD)
qed

lemma read_varint_progress:
  "read_varint encoded offset = (Inr v, offset') \<Longrightarrow> offset < offset' \<and> offset' \<le> length encoded"
  unfolding read_varint_def by (rule read_varint_at_progress)

lemma skip_by_progress:
  "skip_by encoded n offset = (Inr u, offset') \<longleftrightarrow>
     offset' = offset + n \<and> offset + n \<le> length encoded \<and> offset + n < usize_limit"
  by (auto simp: skip_by_def usize_add_def split: if_splits)

lemma skip_field_progress:
  "skip_field encoded wt offset = (Inr u, offset') \<Longrightarrow> offset \<le> length encoded \<Longrightarrow>
   offset \<le> offset' \<and> offset' \<le> length encoded"
  by (auto simp: skip_field_def bindS_Inr skip_by_progress failS_def retS_def
      dest: read_varint_progress split: if_splits)

text \<open>The loop of \<open>insertion_offset\<close>.\<close>

function insertion_loop :: "bytes \<Rightarrow> u32 \<Rightarrow> nat \<Rightarrow> nat \<Rightarrow> envelope_error + nat" where
  "insertion_loop encoded target offset insertion =
     (if length encoded \<le> offset then Inr insertion
      else case read_varint encoded offset of
        (Inl e, _) \<Rightarrow> Inl e
      | (Inr key, offset1) \<Rightarrow>
          if 2 ^ 32 \<le> unat (drop_bit 3 key) then Inl InvalidField
          else let number = ucast (drop_bit 3 key) in
            if number = 0 \<or> number = target then Inl InvalidField
            else let insertion' = (if target < number \<and> insertion = length encoded then offset
                                   else insertion) in
              (case skip_field encoded (key AND 7) offset1 of
                 (Inl e, _) \<Rightarrow> Inl e
               | (Inr _, offset2) \<Rightarrow> insertion_loop encoded target offset2 insertion'))"
  by pat_completeness auto
termination
proof (relation "measure (\<lambda>(encoded, _, offset, _). length encoded - offset)", goal_cases)
  case (2 encoded target offset insertion r offset1 key number insertion' q offset2 u)
  then have "offset < offset1" "offset1 \<le> length encoded"
    using read_varint_progress [of encoded offset key offset1] by simp_all
  moreover have "offset1 \<le> offset2"
    using 2 skip_field_progress [of encoded "key AND 7" offset1 u offset2] calculation by simp
  ultimately show ?case using 2 by simp
qed simp

declare insertion_loop.simps [simp del]

definition insertion_offset :: "bytes \<Rightarrow> u32 \<Rightarrow> envelope_error + nat" where
  "insertion_offset encoded target = insertion_loop encoded target 0 (length encoded)"

definition identity_field :: "rstr \<Rightarrow> bytes" where
  "identity_field account_identity =
     put_varint (push_bit 3 (ucast ACCOUNT_IDENTITY_FIELD) OR 2) @
     put_varint (of_nat (length account_identity)) @ account_identity"

definition attach_account_identity :: "bytes \<Rightarrow> rstr \<Rightarrow> envelope_error + bytes" where
  "attach_account_identity reserve account_identity =
     bindE (validate_account_identity account_identity) (\<lambda>_.
     bindE (insertion_offset reserve ACCOUNT_IDENTITY_FIELD) (\<lambda>insertion.
     Inr (take insertion reserve @ identity_field account_identity @ drop insertion reserve)))"

section \<open>What a varint and a field are\<close>

text \<open>The bytes of one varint, and of one field with its number.\<close>

fun is_varint :: "nat \<Rightarrow> u64 \<Rightarrow> bytes \<Rightarrow> u64 \<Rightarrow> bool" where
  "is_varint shift acc [] v = False"
| "is_varint shift acc (b # bs) v =
     (shift < 70 \<and> \<not> (shift = 63 \<and> 1 < b) \<and>
      (let acc' = acc OR push_bit shift (ucast (b AND 0x7f)) in
       if b AND 0x80 = 0 then bs = [] \<and> v = acc' else is_varint (shift + 7) acc' bs v))"

definition is_body :: "u64 \<Rightarrow> bytes \<Rightarrow> bool" where
  "is_body wire_type body \<longleftrightarrow>
     (if wire_type = 0 then \<exists>v. is_varint 0 0 body v
      else if wire_type = 1 then length body = 8
      else if wire_type = 2 then
        \<exists>n raw content. body = raw @ content \<and> is_varint 0 0 raw n \<and> length content = unat n
      else wire_type = 5 \<and> length body = 4)"

definition is_field :: "u32 \<Rightarrow> bytes \<Rightarrow> bool" where
  "is_field number raw \<longleftrightarrow> (\<exists>key tag body. raw = tag @ body \<and> is_varint 0 0 tag key \<and>
     unat (drop_bit 3 key) < 2 ^ 32 \<and> number = ucast (drop_bit 3 key) \<and> number \<noteq> 0 \<and>
     is_body (key AND 7) body)"

lemma read_varint_at_Inr:
  "read_varint_at encoded shift acc offset = (Inr v, offset') \<longleftrightarrow>
   (\<exists>raw rest. drop offset encoded = raw @ rest \<and> offset' = offset + length raw \<and> is_varint shift acc raw v)"
proof (induction encoded shift acc offset rule: read_varint_at.induct)
  case (1 encoded shift acc offset)
  show ?case
  proof (cases "shift < 70 \<and> offset < length encoded")
    case False
    then have "\<not> is_varint shift acc raw v" if "drop offset encoded = raw @ rest" for raw rest
      using that by (cases raw) auto
    with False show ?thesis
      by (auto simp: read_varint_at.simps [of encoded shift] not_less)
  next
    case True
    then have next_byte: "drop offset encoded = encoded ! offset # drop (Suc offset) encoded"
      by (simp add: Cons_nth_drop_Suc)
    let ?b = "encoded ! offset"
    let ?acc = "acc OR push_bit shift (ucast (?b AND 0x7f))"
    have split: "(\<exists>raw rest. drop offset encoded = raw @ rest \<and> offset' = offset + length raw \<and> is_varint shift acc raw v)
        \<longleftrightarrow> \<not> (shift = 63 \<and> 1 < ?b) \<and> (\<exists>raw rest. drop (Suc offset) encoded = raw @ rest \<and>
             offset' = Suc offset + length raw \<and>
             (if ?b AND 0x80 = 0 then raw = [] \<and> v = ?acc else is_varint (shift + 7) ?acc raw v))"
    proof -
      have 1: "(\<exists>raw rest. drop offset encoded = raw @ rest \<and> offset' = offset + length raw \<and> is_varint shift acc raw v)
          \<longleftrightarrow> (\<exists>raw rest. drop offset encoded = (?b # raw) @ rest \<and> offset' = offset + length (?b # raw) \<and>
               is_varint shift acc (?b # raw) v)"
        (is "?lhs \<longleftrightarrow> ?rhs")
      proof
        assume ?lhs
        then obtain raw rest where raw: "drop offset encoded = raw @ rest" "offset' = offset + length raw"
          "is_varint shift acc raw v" by blast
        then obtain c raw' where "raw = c # raw'" by (cases raw) auto
        with raw next_byte show ?rhs
          by (intro exI [of _ raw'] exI [of _ rest]) simp
      qed blast
      have 2: "drop offset encoded = (?b # raw) @ rest \<longleftrightarrow> drop (Suc offset) encoded = raw @ rest" for raw rest
        by (simp add: next_byte)
      have 3: "is_varint shift acc (?b # raw) v \<longleftrightarrow> \<not> (shift = 63 \<and> 1 < ?b) \<and>
          (if ?b AND 0x80 = 0 then raw = [] \<and> v = ?acc else is_varint (shift + 7) ?acc raw v)" for raw
        using True by (simp add: Let_def)
      have 4: "offset + length (?b # raw) = Suc offset + length raw" for raw
        by simp
      show ?thesis unfolding 1 2 3 4 by blast
    qed
    show ?thesis
    proof (cases "?b AND 0x80 = 0 \<or> shift = 63 \<and> 1 < ?b")
      case base: True
      then show ?thesis
        unfolding split read_varint_at.simps [of encoded shift] using True by (auto simp: Let_def)
    next
      case step: False
      with True have "read_varint_at encoded shift acc offset = read_varint_at encoded (shift + 7) ?acc (offset + 1)"
        by (auto simp: read_varint_at.simps [of encoded shift] Let_def)
      then show ?thesis
        unfolding split using "1.IH" [OF _ _ refl _ refl] True step by simp
    qed
  qed
qed

lemma read_varint_Inr:
  "read_varint encoded offset = (Inr v, offset') \<longleftrightarrow>
   (\<exists>raw rest. drop offset encoded = raw @ rest \<and> offset' = offset + length raw \<and> is_varint 0 0 raw v)"
  unfolding read_varint_def by (rule read_varint_at_Inr)

lemma skip_by_Inr:
  assumes "slice_ok encoded" "offset \<le> length encoded"
  shows "skip_by encoded n offset = (Inr u, offset') \<longleftrightarrow>
   (\<exists>raw rest. drop offset encoded = raw @ rest \<and> offset' = offset + length raw \<and> length raw = n)"
proof
  assume "skip_by encoded n offset = (Inr u, offset')"
  then have "offset' = offset + n" "offset + n \<le> length encoded"
    by (simp_all add: skip_by_progress)
  then show "\<exists>raw rest. drop offset encoded = raw @ rest \<and> offset' = offset + length raw \<and> length raw = n"
    using append_take_drop_id [of n "drop offset encoded", symmetric] by fastforce
next
  assume "\<exists>raw rest. drop offset encoded = raw @ rest \<and> offset' = offset + length raw \<and> length raw = n"
  then obtain raw rest where "drop offset encoded = raw @ rest" "offset' = offset + n" "length raw = n"
    by blast
  moreover from this(1,3) have "length encoded = offset + n + length rest"
    using length_drop [of offset encoded] assms(2) by simp
  ultimately show "skip_by encoded n offset = (Inr u, offset')"
    using assms by (simp add: skip_by_progress slice_ok_def usize_limit_def)
qed

lemma skip_field_Inr:
  assumes "slice_ok encoded" "offset \<le> length encoded"
  shows "skip_field encoded wt offset = (Inr u, offset') \<longleftrightarrow>
   (\<exists>raw rest. drop offset encoded = raw @ rest \<and> offset' = offset + length raw \<and> is_body wt raw)"
proof (cases "wt = 2")
  case True
  show ?thesis
  proof
    assume "skip_field encoded wt offset = (Inr u, offset')"
    then obtain n o1 where 1: "read_varint encoded offset = (Inr n, o1)"
      and 2: "skip_by encoded (unat n) o1 = (Inr u, offset')"
      using True by (auto simp: skip_field_def bindS_Inr)
    from 1 obtain raw rest where raw: "drop offset encoded = raw @ rest" "o1 = offset + length raw"
      "is_varint 0 0 raw n" by (auto simp: read_varint_Inr)
    have "drop o1 encoded = rest"
      using raw(1,2) by (metis add.commute append_eq_conv_conj drop_drop)
    moreover have "o1 \<le> length encoded"
      using read_varint_progress [OF 1] by simp
    ultimately obtain content rest' where "rest = content @ rest'" "offset' = o1 + length content" "length content = unat n"
      using 2 by (auto simp: skip_by_Inr [OF assms(1)])
    with raw True show "\<exists>raw rest. drop offset encoded = raw @ rest \<and> offset' = offset + length raw \<and> is_body wt raw"
      by (intro exI [of _ "raw @ content"] exI [of _ rest']) (auto simp: is_body_def)
  next
    assume "\<exists>raw rest. drop offset encoded = raw @ rest \<and> offset' = offset + length raw \<and> is_body wt raw"
    then obtain raw content rest n where raw: "drop offset encoded = raw @ content @ rest"
      "offset' = offset + length raw + length content" "is_varint 0 0 raw n" "length content = unat n"
      using True by (auto simp: is_body_def)
    have read: "read_varint encoded offset = (Inr n, offset + length raw)"
      using raw by (auto simp: read_varint_Inr)
    have "drop (offset + length raw) encoded = content @ rest"
      using raw(1) by (metis add.commute append_eq_conv_conj drop_drop)
    then have "skip_by encoded (unat n) (offset + length raw) = (Inr u, offset')"
      using raw read_varint_progress [OF read] by (subst skip_by_Inr [OF assms(1)]) auto
    with read True show "skip_field encoded wt offset = (Inr u, offset')"
      by (simp add: skip_field_def bindS_def)
  qed
next
  case False
  then show ?thesis
    by (auto simp: skip_field_def is_body_def bindS_Inr retS_def failS_def read_varint_Inr
        skip_by_Inr [OF assms])
qed

lemma varint_prefix_free:
  "is_varint shift acc xs v \<Longrightarrow> is_varint shift acc ys w \<Longrightarrow> xs @ ps = ys @ qs \<Longrightarrow> xs = ys \<and> v = w"
proof (induction shift acc xs v arbitrary: ys rule: is_varint.induct)
  case (2 shift acc b bs v)
  then obtain bs' where ys: "ys = b # bs'" by (cases ys) auto
  show ?case
  proof (cases "b AND 0x80 = 0")
    case True
    with 2 ys show ?thesis by (auto simp: Let_def)
  next
    case False
    with "2.prems" ys "2.IH" [OF refl False, of bs'] show ?thesis by (auto simp: Let_def)
  qed
qed simp

lemma body_prefix_free:
  "is_body wt xs \<Longrightarrow> is_body wt ys \<Longrightarrow> xs @ ps = ys @ qs \<Longrightarrow> xs = ys"
proof (cases "wt = 2")
  case True
  assume "is_body wt xs" "is_body wt ys" and eq: "xs @ ps = ys @ qs"
  with True obtain n raw c n' raw' c' where
    *: "xs = raw @ c" "is_varint 0 0 raw n" "length c = unat n"
       "ys = raw' @ c'" "is_varint 0 0 raw' n'" "length c' = unat n'"
    by (auto simp: is_body_def)
  with eq have "raw = raw' \<and> n = n'"
    by (intro varint_prefix_free [of 0 0]) auto
  with * eq show ?thesis by auto
next
  case False
  assume "is_body wt xs" "is_body wt ys" "xs @ ps = ys @ qs"
  with False show ?thesis
    by (auto simp: is_body_def dest: varint_prefix_free split: if_splits)
qed

lemma field_prefix_free:
  assumes "is_field m xs" "is_field n ys" "xs @ ps = ys @ qs"
  shows "xs = ys \<and> m = n"
proof -
  from assms obtain key tag body key' tag' body' where
    *: "xs = tag @ body" "is_varint 0 0 tag key" "m = ucast (drop_bit 3 key)" "is_body (key AND 7) body"
       "ys = tag' @ body'" "is_varint 0 0 tag' key'" "n = ucast (drop_bit 3 key')" "is_body (key' AND 7) body'"
    by (auto simp: is_field_def)
  with assms(3) have "tag = tag' \<and> key = key'"
    by (intro varint_prefix_free [of 0 0]) auto
  with * assms(3) body_prefix_free [of "key AND 7" body body' ps qs] show ?thesis by auto
qed

section \<open>Messages as sequences of fields\<close>

text \<open>A protobuf message as the numbered fields it is made of; \<open>flat\<close> gives its bytes.\<close>

type_synonym fields = "(u32 \<times> bytes) list"

definition flat :: "fields \<Rightarrow> bytes" where
  "flat fs = concat (map snd fs)"

definition fields_ok :: "fields \<Rightarrow> bool" where
  "fields_ok fs \<longleftrightarrow> (\<forall>(n, raw) \<in> set fs. is_field n raw)"

lemma flat_simps [simp]: "flat [] = []" "flat (f # fs) = snd f @ flat fs" "flat (fs @ gs) = flat fs @ flat gs"
  by (simp_all add: flat_def)

lemma fields_ok_simps [simp]:
  "fields_ok []" "fields_ok (f # fs) \<longleftrightarrow> is_field (fst f) (snd f) \<and> fields_ok fs"
  "fields_ok (fs @ gs) \<longleftrightarrow> fields_ok fs \<and> fields_ok gs"
  by (auto simp: fields_ok_def)

lemma is_field_nonempty: "is_field n raw \<Longrightarrow> raw \<noteq> []"
  by (auto simp: is_field_def)

lemma fields_unique:
  "fields_ok fs \<Longrightarrow> fields_ok gs \<Longrightarrow> flat fs = flat gs \<Longrightarrow> fs = gs"
proof (induction fs arbitrary: gs)
  case Nil
  then show ?case by (cases gs) (auto dest: is_field_nonempty)
next
  case (Cons f fs)
  then obtain g gs' where gs: "gs = g # gs'"
    by (cases gs) (auto dest: is_field_nonempty)
  with Cons.prems have "snd f = snd g \<and> fst f = fst g"
    by (intro field_prefix_free) auto
  with Cons gs show ?case by (auto simp: prod_eq_iff)
qed

text \<open>Every rejection of the insertion is \<open>InvalidField\<close>.\<close>

lemma read_varint_Inl: "read_varint_at encoded shift acc offset = (Inl e, offset') \<Longrightarrow> e = InvalidField"
proof (induction encoded shift acc offset rule: read_varint_at.induct)
  case (1 encoded shift acc offset)
  from "1.prems" show ?case
    unfolding read_varint_at.simps [of encoded shift]
    using "1.IH" by (auto simp: Let_def split: if_splits)
qed

lemma skip_field_Inl: "skip_field encoded wt offset = (Inl e, offset') \<Longrightarrow> e = InvalidField"
  unfolding skip_field_def read_varint_def
  by (auto simp: skip_by_def failS_def retS_def bindS_def
      split: if_splits option.splits prod.splits sum.splits dest: read_varint_Inl)

lemma insertion_loop_Inl: "insertion_loop encoded target offset insertion = Inl e \<Longrightarrow> e = InvalidField"
proof (induction encoded target offset insertion rule: insertion_loop.induct)
  case (1 encoded target offset insertion)
  from "1.prems" show ?case
    unfolding insertion_loop.simps [of encoded target offset]
    using "1.IH" by (auto simp: Let_def read_varint_def split: if_splits prod.splits sum.splits
        dest: read_varint_Inl skip_field_Inl)
qed

lemma drop_after: "drop offset encoded = raw @ rest \<Longrightarrow> drop (offset + length raw) encoded = rest"
  by (metis add.commute append_eq_conv_conj drop_drop)

lemma insertion_loop_step:
  assumes size: "slice_ok encoded" and lt: "offset < length encoded"
  shows "insertion_loop encoded target offset insertion = Inr i \<longleftrightarrow>
   (\<exists>n raw rest. drop offset encoded = raw @ rest \<and> is_field n raw \<and> n \<noteq> target \<and>
      insertion_loop encoded target (offset + length raw)
        (if target < n \<and> insertion = length encoded then offset else insertion) = Inr i)"
    (is "_ \<longleftrightarrow> ?rhs")
proof -
  let ?n = "\<lambda>key. ucast (drop_bit 3 key) :: u32"
  have "insertion_loop encoded target offset insertion = Inr i \<longleftrightarrow>
     (\<exists>key o1 o2. read_varint encoded offset = (Inr key, o1) \<and> unat (drop_bit 3 key) < 2 ^ 32 \<and>
        ?n key \<noteq> 0 \<and> ?n key \<noteq> target \<and> skip_field encoded (key AND 7) o1 = (Inr (), o2) \<and>
        insertion_loop encoded target o2
          (if target < ?n key \<and> insertion = length encoded then offset else insertion) = Inr i)"
    using lt unfolding insertion_loop.simps [of encoded target offset]
    by (auto simp: Let_def not_le split: prod.splits sum.splits if_splits)
  also have "\<dots> \<longleftrightarrow> ?rhs"
  proof
    assume "\<exists>key o1 o2. read_varint encoded offset = (Inr key, o1) \<and> unat (drop_bit 3 key) < 2 ^ 32 \<and>
        ?n key \<noteq> 0 \<and> ?n key \<noteq> target \<and> skip_field encoded (key AND 7) o1 = (Inr (), o2) \<and>
        insertion_loop encoded target o2
          (if target < ?n key \<and> insertion = length encoded then offset else insertion) = Inr i"
    then obtain key o1 o2 where key: "read_varint encoded offset = (Inr key, o1)" "unat (drop_bit 3 key) < 2 ^ 32"
        "?n key \<noteq> 0" "?n key \<noteq> target" "skip_field encoded (key AND 7) o1 = (Inr (), o2)"
      and loop: "insertion_loop encoded target o2
          (if target < ?n key \<and> insertion = length encoded then offset else insertion) = Inr i" by blast
    from key(1) obtain tag rest where tag: "drop offset encoded = tag @ rest" "o1 = offset + length tag"
      "is_varint 0 0 tag key" by (auto simp: read_varint_Inr)
    have "o1 \<le> length encoded" using read_varint_progress [OF key(1)] by simp
    from skip_field_Inr [OF size this] key(5) drop_after [OF tag(1)] tag(2)
    obtain body rest' where body: "rest = body @ rest'" "o2 = o1 + length body" "is_body (key AND 7) body"
      by auto
    have "is_field (?n key) (tag @ body)"
      unfolding is_field_def using tag(3) body(3) key(2,3) by blast
    then show ?rhs
      using tag body key loop
      by (intro exI [of _ "?n key"] exI [of _ "tag @ body"] exI [of _ rest']) (auto simp: add.assoc)
  next
    assume ?rhs
    then obtain n raw rest where raw: "drop offset encoded = raw @ rest" "is_field n raw" "n \<noteq> target"
      and loop: "insertion_loop encoded target (offset + length raw)
        (if target < n \<and> insertion = length encoded then offset else insertion) = Inr i" by blast
    then obtain key tag body where key: "raw = tag @ body" "is_varint 0 0 tag key"
      "unat (drop_bit 3 key) < 2 ^ 32" "n = ?n key" "n \<noteq> 0" "is_body (key AND 7) body"
      by (auto simp: is_field_def)
    have read: "read_varint encoded offset = (Inr key, offset + length tag)"
      using raw(1) key(1,2) by (auto simp: read_varint_Inr)
    have "offset + length tag \<le> length encoded" using read_varint_progress [OF read] by simp
    moreover have "drop (offset + length tag) encoded = body @ rest"
      using raw(1) key(1) by (intro drop_after) simp
    ultimately have "skip_field encoded (key AND 7) (offset + length tag) = (Inr (), offset + length raw)"
      using key by (subst skip_field_Inr [OF size]) auto
    with read key raw(3) loop show "\<exists>key o1 o2. read_varint encoded offset = (Inr key, o1) \<and>
        unat (drop_bit 3 key) < 2 ^ 32 \<and> ?n key \<noteq> 0 \<and> ?n key \<noteq> target \<and>
        skip_field encoded (key AND 7) o1 = (Inr (), o2) \<and> insertion_loop encoded target o2
          (if target < ?n key \<and> insertion = length encoded then offset else insertion) = Inr i"
      by blast
  qed
  finally show ?thesis .
qed

text \<open>The loop of \<open>insertion_offset\<close> succeeds exactly on messages that lack the target field.\<close>

lemma insertion_loop_Inr:
  assumes size: "slice_ok encoded"
  shows "offset \<le> length encoded \<Longrightarrow>
   insertion_loop encoded target offset insertion = Inr i \<longleftrightarrow>
   (\<exists>fs. drop offset encoded = flat fs \<and> fields_ok fs \<and> target \<notin> fst ` set fs \<and>
      i = (if insertion = length encoded then offset + length (flat (takeWhile (\<lambda>f. fst f < target) fs))
           else insertion))"
proof (induction "length encoded - offset" arbitrary: offset insertion rule: less_induct)
  case less
  let ?ins = "\<lambda>n. if target < n \<and> insertion = length encoded then offset else insertion"
  let ?goal = "\<lambda>fs. i = (if insertion = length encoded
      then offset + length (flat (takeWhile (\<lambda>f. fst f < target) fs)) else insertion)"
  show ?case
  proof (cases "offset = length encoded")
    case True
    have "[] = flat fs \<and> fields_ok fs \<and> Q \<longleftrightarrow> fs = [] \<and> Q" for fs Q
      by (cases fs) (auto dest: is_field_nonempty)
    with True show ?thesis
      by (simp add: insertion_loop.simps [of encoded] eq_commute [of i])
  next
    case False
    with less.prems have lt: "offset < length encoded" by simp
    have rec: "insertion_loop encoded target (offset + length raw) (?ins n) = Inr i \<longleftrightarrow>
        (\<exists>fs. rest = flat fs \<and> fields_ok fs \<and> target \<notin> fst ` set fs \<and> ?goal ((n, raw) # fs))"
      if "drop offset encoded = raw @ rest" "is_field n raw" "n \<noteq> target" for n raw rest
    proof -
      have "raw \<noteq> []" using that(2) by (rule is_field_nonempty)
      moreover have "offset + length raw \<le> length encoded"
        using arg_cong [OF that(1), of length] lt by simp
      ultimately have "insertion_loop encoded target (offset + length raw) (?ins n) = Inr i \<longleftrightarrow>
          (\<exists>fs. drop (offset + length raw) encoded = flat fs \<and> fields_ok fs \<and> target \<notin> fst ` set fs \<and>
             i = (if ?ins n = length encoded
                  then offset + length raw + length (flat (takeWhile (\<lambda>f. fst f < target) fs)) else ?ins n))"
        using lt by (intro less.hyps) (simp_all add: diff_less_mono2)
      moreover have "(if ?ins n = length encoded
          then offset + length raw + length (flat (takeWhile (\<lambda>f. fst f < target) fs)) else ?ins n) =
        (if insertion = length encoded
          then offset + length (flat (takeWhile (\<lambda>f. fst f < target) ((n, raw) # fs))) else insertion)" for fs
        using lt that(3) by (auto simp: not_less_iff_gr_or_eq)
      ultimately show ?thesis unfolding drop_after [OF that(1)] by simp
    qed
    have "insertion_loop encoded target offset insertion = Inr i \<longleftrightarrow>
        (\<exists>n raw fs. drop offset encoded = raw @ flat fs \<and> is_field n raw \<and> n \<noteq> target \<and>
           fields_ok fs \<and> target \<notin> fst ` set fs \<and> ?goal ((n, raw) # fs))"
      unfolding insertion_loop_step [OF size lt] using rec by blast
    also have "\<dots> \<longleftrightarrow> (\<exists>fs. drop offset encoded = flat fs \<and> fields_ok fs \<and> target \<notin> fst ` set fs \<and> ?goal fs)"
      (is "?lhs \<longleftrightarrow> ?rhs")
    proof
      assume ?lhs
      then obtain n raw fs where "drop offset encoded = raw @ flat fs" "is_field n raw" "n \<noteq> target"
        "fields_ok fs" "target \<notin> fst ` set fs" "?goal ((n, raw) # fs)" by blast
      then show ?rhs
        by (intro exI [of _ "(n, raw) # fs"]) auto
    next
      assume ?rhs
      then obtain fs where fs: "drop offset encoded = flat fs" "fields_ok fs" "target \<notin> fst ` set fs" "?goal fs"
        by blast
      with lt obtain f gs where "fs = f # gs" by (cases fs) auto
      with fs show ?lhs
        by (intro exI [of _ "fst f"] exI [of _ "snd f"] exI [of _ gs]) auto
    qed
    finally show ?thesis .
  qed
qed

section \<open>Varints round trip\<close>

unbundle bit_operations_syntax

lemma and_7f: "x AND 0x7f = take_bit 7 (x :: u8)"
  by (simp add: take_bit_eq_mask mask_eq_exp_minus_1)

lemma low_or: "((x AND 0x7f) OR 0x80) AND 0x7f = x AND (0x7f :: u8)"
  unfolding and_7f take_bit_or by simp

lemma low_ucast: "ucast ((ucast w :: u8) AND 0x7f) = take_bit 7 (w :: u64)"
  unfolding and_7f by (rule bit_word_eqI) (auto simp: bit_simps)

lemma continuation_set: "((x AND 0x7f) OR 0x80) AND 0x80 \<noteq> (0 :: u8)"
proof -
  have "bit ((x AND 0x7f) OR 0x80 :: u8) 7" by (simp add: bit_simps)
  then show ?thesis
    using and_exp_eq_0_iff_not_bit [of "(x AND 0x7f) OR 0x80" 7] by simp
qed

lemma take_bit_small: "w < 0x80 \<Longrightarrow> take_bit 7 (w :: u64) = w"
proof -
  assume "w < 0x80"
  then have "unat w < 2 ^ 7" by (simp add: word_less_nat_alt)
  then have "take_bit 7 (unat w) = unat w" by (simp add: take_bit_nat_eq_self)
  then show ?thesis by (metis unsigned_take_bit_eq unsigned_word_eqI)
qed

lemma continuation_clear: "w < 0x80 \<Longrightarrow> (ucast (w :: u64) :: u8) AND 0x80 = 0"
proof -
  assume "w < 0x80"
  from take_bit_small [OF this] have "\<not> bit w 7" by (metis bit_take_bit_iff less_irrefl)
  then have "\<not> bit (ucast w :: u8) 7" by (simp add: bit_simps)
  then have "(ucast w :: u8) AND 2 ^ 7 = 0" by (subst and_exp_eq_0_iff_not_bit)
  then show ?thesis by simp
qed

lemma push_bit_split: "push_bit s (take_bit 7 w) OR push_bit (s + 7) (drop_bit 7 w) = push_bit s (w :: u64)"
proof (rule bit_word_eqI)
  fix n
  assume "n < LENGTH(64)"
  show "bit (push_bit s (take_bit 7 w) OR push_bit (s + 7) (drop_bit 7 w)) n = bit (push_bit s w) n"
  proof (cases "s + 7 \<le> n")
    case True
    then have "7 + (n - (s + 7)) = n - s" by simp
    with True show ?thesis by (auto simp: bit_simps)
  qed (auto simp: bit_simps)
qed

lemma is_varint_put:
  "s = 7 * k \<Longrightarrow> k \<le> 9 \<Longrightarrow> unat w < 2 ^ (64 - s) \<Longrightarrow> is_varint s acc (put_varint w) (acc OR push_bit s w)"
proof (induction w arbitrary: s k acc rule: put_varint.induct)
  case (1 w)
  have last: "s = 63 \<Longrightarrow> w < 2" using "1.prems"(3) by (simp add: word_less_nat_alt)
  show ?case
  proof (cases "0x80 \<le> w")
    case True
    then have "128 \<le> unat w" by (simp add: word_le_nat_alt)
    have "k \<noteq> 9" using last "1.prems"(1) True
      by (auto simp: word_le_nat_alt word_less_nat_alt)
    moreover have "unat (drop_bit 7 w) < 2 ^ (64 - (s + 7))"
    proof -
      have "(2 :: nat) ^ (64 - s) = 2 ^ (64 - (s + 7)) * 2 ^ 7"
      proof -
        have "64 - s = (64 - (s + 7)) + 7" using \<open>k \<noteq> 9\<close> "1.prems"(1,2) by simp
        then show ?thesis by (metis power_add)
      qed
      with "1.prems"(3) show ?thesis
        by (simp add: unat_drop_bit less_mult_imp_div_less)
    qed
    ultimately have "is_varint (s + 7) (acc OR push_bit s (take_bit 7 w)) (put_varint (drop_bit 7 w))
        ((acc OR push_bit s (take_bit 7 w)) OR push_bit (s + 7) (drop_bit 7 w))"
      using "1.prems"(1,2) True by (intro "1.IH" [of "s + 7" "Suc k"]) simp_all
    then have "is_varint (s + 7) (acc OR push_bit s (take_bit 7 w)) (put_varint (drop_bit 7 w)) (acc OR push_bit s w)"
      by (simp only: or.assoc push_bit_split)
    with True "1.prems"(1,2) \<open>k \<noteq> 9\<close> continuation_set [of "ucast w"] show ?thesis
      by (subst put_varint.simps) (simp add: low_or low_ucast)
  next
    case False
    then have small: "w < 0x80" by simp
    have "s = 63 \<Longrightarrow> \<not> 1 < (ucast w :: u8)"
    proof -
      assume "s = 63"
      then have "unat w = 0 \<or> unat w = 1" using last by (auto simp: word_less_nat_alt)
      then have "w = 0 \<or> w = 1" by (metis unsigned_0 unsigned_1 unsigned_word_eqI)
      then show ?thesis by auto
    qed
    with "1.prems"(1,2) False show ?thesis
      by (subst put_varint.simps) (simp add: low_ucast take_bit_small [OF small] continuation_clear [OF small])
  qed
qed

lemma is_varint_put_varint: "is_varint 0 0 (put_varint v) v"
  using is_varint_put [of 0 0 v 0] unsigned_less [of v, where 'a = nat] by simp

lemma identity_field_is_field:
  assumes "length s < 2 ^ 64"
  shows "is_field ACCOUNT_IDENTITY_FIELD (identity_field s)"
proof -
  let ?key = "push_bit 3 (ucast ACCOUNT_IDENTITY_FIELD) OR 2 :: u64"
  have key: "?key = 130" by (simp add: ACCOUNT_IDENTITY_FIELD_def push_bit_eq_mult)
  have "unat (drop_bit 3 ?key) = 16" unfolding key by (simp add: unat_drop_bit)
  moreover have "ucast (drop_bit 3 ?key) = (16 :: u32)" unfolding key by simp
  moreover have "?key AND 7 = 2" unfolding key by simp
  moreover have "is_body 2 (put_varint (of_nat (length s)) @ s)"
  proof -
    have "length s = unat (of_nat (length s) :: u64)" using assms by (simp add: unat_of_nat)
    then show ?thesis
      unfolding is_body_def using is_varint_put_varint [of "of_nat (length s)"] by auto
  qed
  ultimately show ?thesis
    unfolding is_field_def identity_field_def
    using is_varint_put_varint [of ?key]
    by (intro exI [of _ ?key] exI [of _ "put_varint ?key"] exI [of _ "put_varint (of_nat (length s)) @ s"]) (auto simp: ACCOUNT_IDENTITY_FIELD_def)
qed

lemma attach_account_identity_Inr:
  assumes "slice_ok reserve"
  shows "attach_account_identity reserve account_identity = Inr out \<longleftrightarrow>
    validate_account_identity account_identity = Inr () \<and>
    (\<exists>fs gs. reserve = flat (fs @ gs) \<and> fields_ok (fs @ gs) \<and>
       (\<forall>f \<in> set fs. fst f < ACCOUNT_IDENTITY_FIELD) \<and>
       (gs \<noteq> [] \<longrightarrow> ACCOUNT_IDENTITY_FIELD < fst (hd gs)) \<and>
       ACCOUNT_IDENTITY_FIELD \<notin> fst ` set gs \<and>
       out = flat fs @ identity_field account_identity @ flat gs)"
    (is "_ \<longleftrightarrow> ?v \<and> ?split")
proof -
  let ?t = ACCOUNT_IDENTITY_FIELD
  let ?low = "takeWhile (\<lambda>f. fst f < ?t)" and ?high = "dropWhile (\<lambda>f. fst f < ?t)"
  have offset: "insertion_offset reserve ?t = Inr i \<longleftrightarrow>
      (\<exists>fs. reserve = flat fs \<and> fields_ok fs \<and> ?t \<notin> fst ` set fs \<and> i = length (flat (?low fs)))" for i
    using insertion_loop_Inr [OF assms, of 0 ?t "length reserve" i] by (simp add: insertion_offset_def)
  have "attach_account_identity reserve account_identity = Inr out \<longleftrightarrow> ?v \<and>
      (\<exists>fs. reserve = flat fs \<and> fields_ok fs \<and> ?t \<notin> fst ` set fs \<and>
         out = flat (?low fs) @ identity_field account_identity @ flat (?high fs))"
  proof -
    have split: "flat (?low fs) @ flat (?high fs) = flat fs" for fs
      by (metis flat_simps(3) takeWhile_dropWhile_id)
    have "take (length (flat (?low fs))) (flat fs) = flat (?low fs)"
      "drop (length (flat (?low fs))) (flat fs) = flat (?high fs)" for fs
      using split [of fs] append_eq_conv_conj [of "flat (?low fs)" "flat (?high fs)" "flat fs"] by simp_all
    note cut = this
    have "(\<exists>i. (\<exists>fs. reserve = flat fs \<and> fields_ok fs \<and> ?t \<notin> fst ` set fs \<and> i = length (flat (?low fs))) \<and>
        take i reserve @ identity_field account_identity @ drop i reserve = out) \<longleftrightarrow>
      (\<exists>fs. reserve = flat fs \<and> fields_ok fs \<and> ?t \<notin> fst ` set fs \<and>
         take (length (flat (?low fs))) (flat fs) @ identity_field account_identity @
         drop (length (flat (?low fs))) (flat fs) = out)"
      by blast
    then show ?thesis
      unfolding attach_account_identity_def bindE_Inr offset sum.inject cut by (simp add: eq_commute [of out])
  qed
  also have "\<dots> \<longleftrightarrow> ?v \<and> ?split"
  proof -
    have "(\<exists>fs. reserve = flat fs \<and> fields_ok fs \<and> ?t \<notin> fst ` set fs \<and>
         out = flat (?low fs) @ identity_field account_identity @ flat (?high fs)) \<longleftrightarrow> ?split" (is "?lhs \<longleftrightarrow> _")
    proof
      assume ?lhs
      then obtain fs where fs: "reserve = flat fs" "fields_ok fs" "?t \<notin> fst ` set fs"
        "out = flat (?low fs) @ identity_field account_identity @ flat (?high fs)" by blast
      have no_t: "?t \<notin> fst ` set (?high fs)"
        using fs(3) by (auto dest: set_dropWhileD)
      have above: "?t < fst (hd (?high fs))" if "?high fs \<noteq> []"
      proof -
        have "\<not> fst (hd (?high fs)) < ?t" using hd_dropWhile [OF that] .
        moreover have "fst (hd (?high fs)) \<noteq> ?t"
        proof
          assume "fst (hd (?high fs)) = ?t"
          with imageI [OF hd_in_set [OF that], of fst] have "?t \<in> fst ` set (?high fs)" by (simp only:)
          with no_t show False by (rule notE)
        qed
        ultimately show ?thesis by (simp add: less_le not_less)
      qed
      have id: "?low fs @ ?high fs = fs" by (rule takeWhile_dropWhile_id)
      show ?split
      proof (intro exI conjI ballI impI)
        show "reserve = flat (?low fs @ ?high fs)" "fields_ok (?low fs @ ?high fs)"
          unfolding id by (fact fs)+
        show "fst f < ?t" if "f \<in> set (?low fs)" for f
          using set_takeWhileD [OF that] by simp
        show "?t < fst (hd (?high fs))" if "?high fs \<noteq> []" using that by (rule above)
      qed (fact no_t fs)+
    next
      assume ?split
      then obtain fs gs where fs: "reserve = flat (fs @ gs)" "fields_ok (fs @ gs)" "\<forall>f \<in> set fs. fst f < ?t"
        "gs \<noteq> [] \<longrightarrow> ?t < fst (hd gs)" "?t \<notin> fst ` set gs"
        "out = flat fs @ identity_field account_identity @ flat gs" by blast
      then have "?low (fs @ gs) = fs" "?high (fs @ gs) = gs"
        by (cases gs; fastforce)+
      moreover have "?t \<notin> fst ` set (fs @ gs)"
        using fs(3,5) by auto
      ultimately show ?lhs
        using fs by (intro exI [of _ "fs @ gs"]) simp
    qed
    then show ?thesis by blast
  qed
  finally show ?thesis .
qed

section \<open>Marks\<close>

text \<open>The three marks by slot, whatever their order.\<close>

definition mark_value :: "u16 \<Rightarrow> envelope_mark list \<Rightarrow> bytes" where
  "mark_value slot marks = (case find (\<lambda>m. mk_slot m = slot) marks of None \<Rightarrow> [] | Some m \<Rightarrow> mk_value m)"

lemma position_required:
  "position_of slot REQUIRED_SLOTS =
     (if slot = 1 then Some 0 else if slot = 2 then Some 1 else if slot = 3 then Some 2 else None)"
  by (auto simp: REQUIRED_SLOTS_def)

lemma place_three:
  "place_marks [a, b, c] [None, None, None] = Inr values \<longleftrightarrow>
     distinct [mk_slot a, mk_slot b, mk_slot c] \<and> {mk_slot a, mk_slot b, mk_slot c} \<subseteq> {1, 2, 3} \<and>
     values = [Some (mark_value 1 [a, b, c]), Some (mark_value 2 [a, b, c]), Some (mark_value 3 [a, b, c])]"
proof -
  consider (out) "mk_slot a \<notin> {1, 2, 3} \<or> mk_slot b \<notin> {1, 2, 3} \<or> mk_slot c \<notin> {1, 2, 3}"
    | (in_range) "mk_slot a \<in> {1, 2, 3}" "mk_slot b \<in> {1, 2, 3}" "mk_slot c \<in> {1, 2, 3}"
    by blast
  then show ?thesis
  proof cases
    case out
    then show ?thesis by (auto simp: position_required split: if_splits)
  next
    case in_range
    then consider "mk_slot a = 1" | "mk_slot a = 2" | "mk_slot a = 3" by blast
    then show ?thesis
      using in_range(2,3) by cases (auto simp: position_required mark_value_def)
  qed
qed

section \<open>Properties\<close>

text \<open>
  A varint survives: wherever the bytes \<open>put_varint\<close> emits for a value stand in a message,
  \<open>read_varint\<close> returns that value and stands right after them, for every 64-bit value.
\<close>

theorem varint_roundtrip:
  "read_varint (before @ put_varint v @ after) (length before) =
     (Inr v, length before + length (put_varint v))"
proof -
  have "drop (length before) (before @ put_varint v @ after) = put_varint v @ after" by simp
  then show ?thesis
    using is_varint_put_varint [of v] unfolding read_varint_Inr by blast
qed

text \<open>
  C9: Attaching the account identity is an ordered insertion of one field. It succeeds exactly on a
  valid identity and a well-formed message without field 16; then every field of the message keeps
  its bytes, its order and its neighbours, and the identity field stands after the fields numbered
  below 16 that open the message and before the first higher one.
\<close>

theorem attach_identity_inserts:
  assumes "slice_ok reserve"
  shows "attach_account_identity reserve account_identity = Inr out \<longleftrightarrow>
    validate_account_identity account_identity = Inr () \<and>
    (\<exists>fs gs. reserve = flat (fs @ gs) \<and> fields_ok (fs @ gs) \<and>
       (\<forall>f \<in> set fs. fst f < 16) \<and> (gs \<noteq> [] \<longrightarrow> 16 < fst (hd gs)) \<and> 16 \<notin> fst ` set gs \<and>
       out = flat fs @ identity_field account_identity @ flat gs)"
  using attach_account_identity_Inr [OF assms] by (simp only: ACCOUNT_IDENTITY_FIELD_def)

lemma sample_identity: "validate_account_identity [0x61] = Inr ()"
  by (simp add: validate_account_identity_def MAX_IDENTITY_LEN_def chars_def is_control_def)

theorem attach_identity_inserts_witness:
  "attach_account_identity [] [0x61] = Inr (identity_field [0x61])"
proof -
  have "slice_ok []" by (simp add: slice_ok_def)
  then show ?thesis
    using sample_identity by (subst attach_identity_inserts) (auto intro!: exI [of _ "[]"])
qed

text \<open>
  The identity is attached at most once: a message it was attached to is refused, whatever
  identity is attached next.
\<close>

theorem attach_identity_once:
  assumes "attach_account_identity reserve first = Inr out" "slice_ok reserve" "slice_ok out"
  shows "attach_account_identity out second = Inl InvalidField"
proof -
  from assms(1,2) obtain fs gs where valid: "validate_account_identity first = Inr ()"
    and fs: "fields_ok fs" "fields_ok gs" "out = flat fs @ identity_field first @ flat gs"
    by (auto simp: attach_account_identity_Inr)
  have "length first < 2 ^ 64"
    using valid by (auto simp: validate_account_identity_def MAX_IDENTITY_LEN_def split: if_splits)
  then have field: "is_field ACCOUNT_IDENTITY_FIELD (identity_field first)"
    by (rule identity_field_is_field)
  let ?all = "fs @ (ACCOUNT_IDENTITY_FIELD, identity_field first) # gs"
  have all: "fields_ok ?all" "flat ?all = out" using fs field by simp_all
  have "insertion_offset out ACCOUNT_IDENTITY_FIELD \<noteq> Inr i" for i
  proof
    assume "insertion_offset out ACCOUNT_IDENTITY_FIELD = Inr i"
    then obtain hs where "out = flat hs" "fields_ok hs" "ACCOUNT_IDENTITY_FIELD \<notin> fst ` set hs"
      using insertion_loop_Inr [OF assms(3), of 0 ACCOUNT_IDENTITY_FIELD "length out" i]
      by (auto simp: insertion_offset_def)
    with fields_unique [OF all(1)] all(2) show False by force
  qed
  moreover have "e = InvalidField" if "insertion_offset out ACCOUNT_IDENTITY_FIELD = Inl e" for e
    using insertion_loop_Inl [OF that [unfolded insertion_offset_def]] .
  ultimately show ?thesis
    by (cases "insertion_offset out ACCOUNT_IDENTITY_FIELD")
      (auto simp: attach_account_identity_def validate_account_identity_def)
qed

theorem attach_identity_once_witness:
  "attach_account_identity (identity_field [0x61]) [0x62] = Inl InvalidField"
proof -
  have "attach_account_identity [] [0x61] = Inr (identity_field [0x61])"
    using sample_identity by (subst attach_account_identity_Inr) (auto simp: slice_ok_def intro!: exI [of _ "[]"])
  moreover have "length (identity_field [0x61]) \<le> 8"
    by (simp add: identity_field_def ACCOUNT_IDENTITY_FIELD_def put_varint.simps [of 130] put_varint.simps [of 1]
        put_varint.simps [of "drop_bit 7 130"] word_le_nat_alt)
  ultimately show ?thesis
    by (intro attach_identity_once [of "[]" "[0x61]"]) (auto simp: slice_ok_def)
qed

text \<open>
  The marked reserve does not depend on the order of its marks. It is encoded exactly when the
  contract is the compiled one, the texts are within their bounds, the three marks name the slots 1,
  2 and 3 once each and the third is not empty; and then each value goes to the field of its slot.
\<close>

theorem marked_reserve_by_slot:
  "encode_marked_reserve enc contract marks correlation ident include = Inr out \<longleftrightarrow>
     contract = 77 \<and> correlation \<noteq> [] \<and> length correlation \<le> 128 \<and> ident \<noteq> [] \<and> length ident \<le> 256 \<and>
     length marks = 3 \<and> distinct (map mk_slot marks) \<and> set (map mk_slot marks) \<subseteq> {1, 2, 3} \<and>
     mark_value 3 marks \<noteq> [] \<and>
     out = enc (marked_reserve_fields (mark_value 1 marks) (mark_value 2 marks) (mark_value 3 marks)
       correlation ident include)"
proof (cases "length marks = 3")
  case True
  then obtain a b c where marks: "marks = [a, b, c]"
    by (auto simp: numeral_3_eq_3 length_Suc_conv)
  have "encode_marked_reserve enc contract marks correlation ident include = Inr out \<longleftrightarrow>
      contract = 77 \<and> correlation \<noteq> [] \<and> length correlation \<le> 128 \<and> ident \<noteq> [] \<and> length ident \<le> 256 \<and>
      (\<exists>values. place_marks marks [None, None, None] = Inr values \<and> (case values of
         [Some first, Some second, Some third] \<Rightarrow>
           if third = [] then Inl InvalidField
           else Inr (enc (marked_reserve_fields first second third correlation ident include))
       | _ \<Rightarrow> Inl InvalidField) = Inr out)"
    using True by (auto simp: encode_marked_reserve_def bindE_Inr COMPILED_CONTRACT_def REQUIRED_SLOTS_def
        MAX_CORRELATION_LEN_def MAX_IDENTITY_LEN_def)
  also have "\<dots> \<longleftrightarrow> contract = 77 \<and> correlation \<noteq> [] \<and> length correlation \<le> 128 \<and> ident \<noteq> [] \<and>
      length ident \<le> 256 \<and> distinct (map mk_slot marks) \<and> set (map mk_slot marks) \<subseteq> {1, 2, 3} \<and>
      mark_value 3 marks \<noteq> [] \<and> out = enc (marked_reserve_fields (mark_value 1 marks) (mark_value 2 marks)
        (mark_value 3 marks) correlation ident include)"
  proof -
    have "place_marks marks [None, None, None] = Inr vs \<longleftrightarrow>
        distinct (map mk_slot marks) \<and> set (map mk_slot marks) \<subseteq> {1, 2, 3} \<and>
        vs = [Some (mark_value 1 marks), Some (mark_value 2 marks), Some (mark_value 3 marks)]" for vs
      using place_three [of a b c vs] unfolding marks by (simp only: list.map list.set)
    then show ?thesis by (auto split: if_splits)
  qed
  finally show ?thesis using True by simp
next
  case False
  then show ?thesis by (simp add: encode_marked_reserve_def REQUIRED_SLOTS_def)
qed

end
