(* ===== verification/Online.thy ===== *)
theory Online
  imports Prelude
begin

text \<open>
  The account lifecycle machines of \<open>crates/qq-domain\<close>: the bounded online plan (\<open>online/plan.rs\<close>),
  the generation-fenced online controller (\<open>online/model.rs\<close>, \<open>online/machine.rs\<close>) and the login state
  machine (\<open>login.rs\<close>). Every operation of the controller returns its state on errors too:
  \<open>heartbeat_completed\<close> stores the new interval before the deadline addition can fail.
\<close>

section \<open>Plan\<close>

type_synonym plan_action_id = bytes

datatype online_plan_error = OnlinePlanError

definition plan_action_id_new :: "bytes \<Rightarrow> online_plan_error + plan_action_id" where
  "plan_action_id_new bs = (if bs = replicate 16 0 then Inl OnlinePlanError else Inr bs)"

definition MIN_COMPILED_INTERVAL_MS :: u64 where
  "MIN_COMPILED_INTERVAL_MS = 1000"

definition MAX_COMPILED_INTERVAL_MS :: u64 where
  "MAX_COMPILED_INTERVAL_MS = 24 * 60 * 60 * 1000"

text \<open>\<open>OnlinePlan\<close> and \<open>OnlinePlanSpec\<close> have the same fields.\<close>

record online_plan =
  initial_sync :: plan_action_id
  delayed_sync :: plan_action_id
  security_bootstrap :: plan_action_id
  status_confirmation :: "plan_action_id option"
  business_heartbeat :: plan_action_id
  initial_heartbeat_ms :: u64
  minimum_heartbeat_ms :: u64
  maximum_heartbeat_ms :: u64
  minimum_delayed_sync_ms :: u64
  maximum_delayed_sync_ms :: u64

definition validate_range :: "u64 \<Rightarrow> u64 \<Rightarrow> u64 \<Rightarrow> online_plan_error + unit" where
  "validate_range minimum v maximum =
     (if minimum < MIN_COMPILED_INTERVAL_MS \<or> MAX_COMPILED_INTERVAL_MS < maximum \<or>
         v < minimum \<or> maximum < v
      then Inl OnlinePlanError else Inr ())"

text \<open>The loop over \<open>ids\<close>, with the identifiers already seen.\<close>

fun repeated_id :: "plan_action_id option list \<Rightarrow> plan_action_id option list \<Rightarrow> bool" where
  "repeated_id seen [] = False"
| "repeated_id seen (x # xs) =
     (if x \<noteq> None \<and> x \<in> set seen then True else repeated_id (seen @ [x]) xs)"

definition validate_plan :: "online_plan \<Rightarrow> online_plan_error + unit" where
  "validate_plan p =
     (if repeated_id [] [Some (initial_sync p), Some (delayed_sync p), Some (security_bootstrap p),
          status_confirmation p, Some (business_heartbeat p)]
      then Inl OnlinePlanError
      else bindE (validate_range (minimum_heartbeat_ms p) (initial_heartbeat_ms p) (maximum_heartbeat_ms p)) (\<lambda>_.
           validate_range (minimum_delayed_sync_ms p) (minimum_delayed_sync_ms p) (maximum_delayed_sync_ms p)))"

definition online_plan_new :: "online_plan \<Rightarrow> online_plan_error + online_plan" where
  "online_plan_new spec = bindE (validate_plan spec) (\<lambda>_. Inr spec)"

text \<open>\<open>Ord::clamp\<close>, which panics when its bounds are reversed; a valid plan rules that out.\<close>

definition clamp :: "u64 \<Rightarrow> u64 \<Rightarrow> u64 \<Rightarrow> u64" where
  "clamp v lo hi = (if v < lo then lo else if hi < v then hi else v)"

definition clamp_heartbeat :: "online_plan \<Rightarrow> u64 \<Rightarrow> u64" where
  "clamp_heartbeat p requested_ms = clamp requested_ms (minimum_heartbeat_ms p) (maximum_heartbeat_ms p)"

definition clamp_delayed_sync :: "online_plan \<Rightarrow> u64 \<Rightarrow> u64" where
  "clamp_delayed_sync p requested_ms =
     clamp requested_ms (minimum_delayed_sync_ms p) (maximum_delayed_sync_ms p)"

section \<open>Controller state\<close>

text \<open>The generation is a newtype over \<open>u64\<close> with the derived order.\<close>

datatype online_generation = OnlineGeneration (generation_get: u64)

instantiation online_generation :: linorder
begin

definition less_eq_online_generation :: "online_generation \<Rightarrow> online_generation \<Rightarrow> bool" where
  "less_eq_online_generation a b \<longleftrightarrow> generation_get a \<le> generation_get b"

definition less_online_generation :: "online_generation \<Rightarrow> online_generation \<Rightarrow> bool" where
  "less_online_generation a b \<longleftrightarrow> generation_get a < generation_get b"

instance
  by standard (auto simp: less_eq_online_generation_def less_online_generation_def
      intro: online_generation.expand)

end

datatype online_transition_error = OnlineTransitionError

definition online_generation_new :: "u64 \<Rightarrow> online_transition_error + online_generation" where
  "online_generation_new v = (if v = 0 then Inl OnlineTransitionError else Inr (OnlineGeneration v))"

datatype online_action =
    InitialSync plan_action_id
  | DelayedSync plan_action_id
  | SecurityBootstrap plan_action_id
  | StatusConfirmation plan_action_id
  | BusinessHeartbeat plan_action_id

datatype online_state =
    Stopped
  | Synchronizing online_generation
  | Bootstrapping online_generation
  | Confirming online_generation
  | Online online_generation
  | ProtectiveOffline online_generation

datatype online_directive =
    Dispatch online_generation online_action
  | EnteredOnline online_generation
  | ProtectiveOfflineDirective online_generation

record online_machine =
  om_plan :: online_plan
  om_state :: online_state
  heartbeat_interval_ms :: u64
  next_heartbeat_ms :: "u64 option"
  next_delayed_sync_ms :: "u64 option"
  heartbeat_in_flight :: bool
  delayed_sync_in_flight :: bool

type_synonym 'a online_op = "(online_machine, online_transition_error, 'a) op"

definition online_machine_new :: "online_plan \<Rightarrow> online_machine" where
  "online_machine_new plan =
     \<lparr>om_plan = plan, om_state = Stopped, heartbeat_interval_ms = initial_heartbeat_ms plan,
      next_heartbeat_ms = None, next_delayed_sync_ms = None, heartbeat_in_flight = False,
      delayed_sync_in_flight = False\<rparr>"

section \<open>Operations\<close>

fun generation_of :: "online_state \<Rightarrow> online_generation option" where
  "generation_of Stopped = None"
| "generation_of (Synchronizing g) = Some g"
| "generation_of (Bootstrapping g) = Some g"
| "generation_of (Confirming g) = Some g"
| "generation_of (Online g) = Some g"
| "generation_of (ProtectiveOffline g) = Some g"

definition checked_due :: "u64 \<Rightarrow> u64 \<Rightarrow> online_transition_error + u64" where
  "checked_due now_ms delay_ms = ok_or OnlineTransitionError (u64_checked_add now_ms delay_ms)"

text \<open>\<open>[a, b].into_iter().flatten().min()\<close>.\<close>

definition option_min :: "u64 option \<Rightarrow> u64 option \<Rightarrow> u64 option" where
  "option_min a b =
     (case b of
        None \<Rightarrow> a
      | Some due \<Rightarrow> Some (case a of None \<Rightarrow> due | Some earlier \<Rightarrow> min earlier due))"

fun is_online :: "online_state \<Rightarrow> bool" where
  "is_online (Online g) = True"
| "is_online _ = False"

definition next_due_ms :: "online_machine \<Rightarrow> u64 option" where
  "next_due_ms m =
     (if \<not> is_online (om_state m) then None
      else option_min (if heartbeat_in_flight m then None else next_heartbeat_ms m)
                      (if delayed_sync_in_flight m then None else next_delayed_sync_ms m))"

definition clear_schedule :: "online_machine \<Rightarrow> online_machine" where
  "clear_schedule m =
     m\<lparr>next_heartbeat_ms := None, next_delayed_sync_ms := None,
       heartbeat_interval_ms := initial_heartbeat_ms (om_plan m),
       heartbeat_in_flight := False, delayed_sync_in_flight := False\<rparr>"

definition require_state :: "online_state \<Rightarrow> unit online_op" where
  "require_state expected m = (guardE (om_state m = expected) OnlineTransitionError, m)"

text \<open>\<open>Stopped | ProtectiveOffline(_)\<close>.\<close>

fun is_idle :: "online_state \<Rightarrow> bool" where
  "is_idle Stopped = True"
| "is_idle (ProtectiveOffline g) = True"
| "is_idle _ = False"

definition online_start :: "online_generation \<Rightarrow> online_directive online_op" where
  "online_start generation m =
     (if \<not> is_idle (om_state m) then (Inl OnlineTransitionError, m)
      else let m = clear_schedule m; m = m\<lparr>om_state := Synchronizing generation\<rparr>
           in (Inr (Dispatch generation (InitialSync (initial_sync (om_plan m)))), m))"

text \<open>\<open>delay.map(|d| checked_due(now, clamp(d))).transpose()?\<close>.\<close>

definition delayed_due :: "online_plan \<Rightarrow> u64 \<Rightarrow> u64 option \<Rightarrow> online_transition_error + u64 option" where
  "delayed_due p now_ms after =
     (case after of
        None \<Rightarrow> Inr None
      | Some delay \<Rightarrow> bindE (checked_due now_ms (clamp_delayed_sync p delay)) (\<lambda>due. Inr (Some due)))"

definition initial_sync_succeeded ::
  "online_generation \<Rightarrow> u64 \<Rightarrow> u64 option \<Rightarrow> online_directive online_op" where
  "initial_sync_succeeded generation now_ms delayed_after_ms =
     bindS (require_state (Synchronizing generation)) (\<lambda>_ m.
     case delayed_due (om_plan m) now_ms delayed_after_ms of
       Inl e \<Rightarrow> (Inl e, m)
     | Inr due \<Rightarrow>
         (Inr (Dispatch generation (SecurityBootstrap (security_bootstrap (om_plan m)))),
          m\<lparr>next_delayed_sync_ms := due, om_state := Bootstrapping generation\<rparr>))"

definition enter_online :: "online_generation \<Rightarrow> u64 \<Rightarrow> online_directive online_op" where
  "enter_online generation now_ms m =
     (case checked_due now_ms (initial_heartbeat_ms (om_plan m)) of
        Inl e \<Rightarrow> (Inl e, m)
      | Inr due \<Rightarrow>
          (Inr (EnteredOnline generation),
           m\<lparr>next_heartbeat_ms := Some due, om_state := Online generation\<rparr>))"

definition security_bootstrap_succeeded :: "online_generation \<Rightarrow> u64 \<Rightarrow> online_directive online_op" where
  "security_bootstrap_succeeded generation now_ms =
     bindS (require_state (Bootstrapping generation)) (\<lambda>_ m.
     case status_confirmation (om_plan m) of
       Some action \<Rightarrow>
         (Inr (Dispatch generation (StatusConfirmation action)), m\<lparr>om_state := Confirming generation\<rparr>)
     | None \<Rightarrow> enter_online generation now_ms m)"

definition status_confirmation_completed :: "online_generation \<Rightarrow> u64 \<Rightarrow> online_directive online_op" where
  "status_confirmation_completed generation now_ms =
     bindS (require_state (Confirming generation)) (\<lambda>_. enter_online generation now_ms)"

definition is_due :: "u64 option \<Rightarrow> u64 \<Rightarrow> bool" where
  "is_due due now_ms = (case due of None \<Rightarrow> False | Some d \<Rightarrow> d \<le> now_ms)"

definition poll_due ::
  "u64 \<Rightarrow> online_machine \<Rightarrow> (online_directive option \<times> online_directive option) \<times> online_machine" where
  "poll_due now_ms m =
     (case om_state m of
        Online generation \<Rightarrow>
          let (heartbeat, m) =
                (if \<not> heartbeat_in_flight m \<and> is_due (next_heartbeat_ms m) now_ms
                 then (Some (Dispatch generation (BusinessHeartbeat (business_heartbeat (om_plan m)))),
                       m\<lparr>heartbeat_in_flight := True\<rparr>)
                 else (None, m));
              (delayed, m) =
                (if \<not> delayed_sync_in_flight m \<and> is_due (next_delayed_sync_ms m) now_ms
                 then (Some (Dispatch generation (DelayedSync (delayed_sync (om_plan m)))),
                       m\<lparr>delayed_sync_in_flight := True\<rparr>)
                 else (None, m))
          in ((heartbeat, delayed), m)
      | _ \<Rightarrow> ((None, None), m))"

definition heartbeat_completed :: "online_generation \<Rightarrow> u64 \<Rightarrow> u64 option \<Rightarrow> unit online_op" where
  "heartbeat_completed generation now_ms requested_interval_ms =
     bindS (require_state (Online generation)) (\<lambda>_ m.
     if \<not> heartbeat_in_flight m then (Inl OnlineTransitionError, m)
     else let interval = (case requested_interval_ms of
                None \<Rightarrow> heartbeat_interval_ms m | Some v \<Rightarrow> clamp_heartbeat (om_plan m) v);
              m = m\<lparr>heartbeat_interval_ms := interval\<rparr>
          in case checked_due now_ms interval of
               Inl e \<Rightarrow> (Inl e, m)
             | Inr due \<Rightarrow> (Inr (), m\<lparr>next_heartbeat_ms := Some due, heartbeat_in_flight := False\<rparr>))"

definition delayed_sync_completed :: "online_generation \<Rightarrow> u64 \<Rightarrow> u64 option \<Rightarrow> unit online_op" where
  "delayed_sync_completed generation now_ms delayed_after_ms =
     bindS (require_state (Online generation)) (\<lambda>_ m.
     if \<not> delayed_sync_in_flight m then (Inl OnlineTransitionError, m)
     else case delayed_due (om_plan m) now_ms delayed_after_ms of
            Inl e \<Rightarrow> (Inl e, m)
          | Inr due \<Rightarrow> (Inr (), m\<lparr>next_delayed_sync_ms := due, delayed_sync_in_flight := False\<rparr>))"

definition required_action_failed :: "online_generation \<Rightarrow> online_directive online_op" where
  "required_action_failed generation m =
     (if generation_of (om_state m) \<noteq> Some generation \<or> is_idle (om_state m)
      then (Inl OnlineTransitionError, m)
      else let m = clear_schedule m; m = m\<lparr>om_state := ProtectiveOffline generation\<rparr>
           in (Inr (ProtectiveOfflineDirective generation), m))"

definition online_stop :: "online_machine \<Rightarrow> online_machine" where
  "online_stop m = (clear_schedule m)\<lparr>om_state := Stopped\<rparr>"

section \<open>Invariant\<close>

definition plan_ok :: "online_plan \<Rightarrow> bool" where
  "plan_ok p \<longleftrightarrow> validate_plan p = Inr ()"

lemma plan_ok_bounds:
  assumes "plan_ok p"
  shows "minimum_heartbeat_ms p \<le> initial_heartbeat_ms p" "initial_heartbeat_ms p \<le> maximum_heartbeat_ms p"
    "minimum_delayed_sync_ms p \<le> maximum_delayed_sync_ms p"
    "1000 \<le> minimum_heartbeat_ms p" "1000 \<le> minimum_delayed_sync_ms p"
    "maximum_heartbeat_ms p \<le> 86400000" "maximum_delayed_sync_ms p \<le> 86400000"
  using assms
  by (auto simp: plan_ok_def validate_plan_def validate_range_def bindE_Inr not_less
      MIN_COMPILED_INTERVAL_MS_def MAX_COMPILED_INTERVAL_MS_def split: if_splits)

lemma clamp_bounds: "lo \<le> hi \<Longrightarrow> lo \<le> clamp v lo hi \<and> clamp v lo hi \<le> hi"
  by (auto simp: clamp_def)

fun schedule_ok :: "online_machine \<Rightarrow> online_state \<Rightarrow> bool" where
  "schedule_ok m (Bootstrapping g) = (next_heartbeat_ms m = None \<and> \<not> heartbeat_in_flight m \<and> \<not> delayed_sync_in_flight m)"
| "schedule_ok m (Confirming g) = (next_heartbeat_ms m = None \<and> \<not> heartbeat_in_flight m \<and> \<not> delayed_sync_in_flight m)"
| "schedule_ok m (Online g) = (next_heartbeat_ms m \<noteq> None \<and> (delayed_sync_in_flight m \<longrightarrow> next_delayed_sync_ms m \<noteq> None))"
| "schedule_ok m _ = (next_heartbeat_ms m = None \<and> next_delayed_sync_ms m = None \<and>
     \<not> heartbeat_in_flight m \<and> \<not> delayed_sync_in_flight m)"

definition machine_ok :: "online_machine \<Rightarrow> bool" where
  "machine_ok m \<longleftrightarrow> plan_ok (om_plan m) \<and> schedule_ok m (om_state m) \<and>
     minimum_heartbeat_ms (om_plan m) \<le> heartbeat_interval_ms m \<and>
     heartbeat_interval_ms m \<le> maximum_heartbeat_ms (om_plan m)"

lemma machine_ok_new: "plan_ok p \<Longrightarrow> machine_ok (online_machine_new p)"
  by (simp add: machine_ok_def online_machine_new_def plan_ok_bounds)

text \<open>Calls of the actor, what each emits (\<open>None\<close> for a rejected call), and the state after it.\<close>

datatype online_call =
    CStart online_generation
  | CInitialSync online_generation u64 "u64 option"
  | CBootstrap online_generation u64
  | CConfirm online_generation u64
  | CPoll u64
  | CHeartbeat online_generation u64 "u64 option"
  | CDelayed online_generation u64 "u64 option"
  | CFailed online_generation
  | CStop

definition emitted :: "('e + online_directive) \<times> 's \<Rightarrow> online_directive list option \<times> 's" where
  "emitted r = (case r of (Inl _, m) \<Rightarrow> (None, m) | (Inr d, m) \<Rightarrow> (Some [d], m))"

definition silent :: "('e + unit) \<times> 's \<Rightarrow> online_directive list option \<times> 's" where
  "silent r = (case r of (Inl _, m) \<Rightarrow> (None, m) | (Inr _, m) \<Rightarrow> (Some [], m))"

definition list_of :: "'a option \<Rightarrow> 'a list" where
  "list_of x = (case x of None \<Rightarrow> [] | Some a \<Rightarrow> [a])"

fun online_step :: "online_call \<Rightarrow> online_machine \<Rightarrow> online_directive list option \<times> online_machine" where
  "online_step (CStart g) m = emitted (online_start g m)"
| "online_step (CInitialSync g now after) m = emitted (initial_sync_succeeded g now after m)"
| "online_step (CBootstrap g now) m = emitted (security_bootstrap_succeeded g now m)"
| "online_step (CConfirm g now) m = emitted (status_confirmation_completed g now m)"
| "online_step (CPoll now) m = (case poll_due now m of ((h, d), m') \<Rightarrow> (Some (list_of h @ list_of d), m'))"
| "online_step (CHeartbeat g now req) m = silent (heartbeat_completed g now req m)"
| "online_step (CDelayed g now after) m = silent (delayed_sync_completed g now after m)"
| "online_step (CFailed g) m = emitted (required_action_failed g m)"
| "online_step CStop m = (Some [], online_stop m)"

lemmas online_defs =
  online_start_def initial_sync_succeeded_def security_bootstrap_succeeded_def
  status_confirmation_completed_def enter_online_def heartbeat_completed_def
  delayed_sync_completed_def required_action_failed_def online_stop_def clear_schedule_def
  require_state_def guardE_def bindS_def emitted_def silent_def Let_def

lemma online_step_plan: "online_step c m = (r, m') \<Longrightarrow> om_plan m' = om_plan m"
  by (cases c) (auto simp: online_defs poll_due_def
      split: if_splits sum.splits option.splits online_state.splits prod.splits)

lemma online_step_interval:
  assumes "machine_ok m" "online_step c m = (r, m')"
  shows "minimum_heartbeat_ms (om_plan m) \<le> heartbeat_interval_ms m' \<and>
    heartbeat_interval_ms m' \<le> maximum_heartbeat_ms (om_plan m)"
proof -
  have plan: "plan_ok (om_plan m)" and
    iv: "minimum_heartbeat_ms (om_plan m) \<le> heartbeat_interval_ms m"
      "heartbeat_interval_ms m \<le> maximum_heartbeat_ms (om_plan m)"
    using assms(1) by (simp_all add: machine_ok_def)
  have init: "minimum_heartbeat_ms (om_plan m) \<le> initial_heartbeat_ms (om_plan m)"
      "initial_heartbeat_ms (om_plan m) \<le> maximum_heartbeat_ms (om_plan m)"
    using plan_ok_bounds [OF plan] by simp_all
  have hb: "minimum_heartbeat_ms (om_plan m) \<le> clamp_heartbeat (om_plan m) v \<and>
      clamp_heartbeat (om_plan m) v \<le> maximum_heartbeat_ms (om_plan m)" for v
    unfolding clamp_heartbeat_def using init by (intro clamp_bounds) simp
  show ?thesis
    using assms(2) iv init hb
    by (cases c) (auto simp: online_defs poll_due_def
        split: if_splits sum.splits option.splits online_state.splits prod.splits)
qed

lemma online_step_schedule:
  assumes "schedule_ok m (om_state m)" "online_step c m = (r, m')"
  shows "schedule_ok m' (om_state m')"
  using assms
  by (cases c; cases "om_state m")
    (auto simp: online_defs poll_due_def is_due_def
      split: if_splits sum.splits option.splits prod.splits)

lemma online_step_ok: "machine_ok m \<Longrightarrow> online_step c m = (r, m') \<Longrightarrow> machine_ok m'"
  using online_step_interval [of m c r m'] online_step_schedule [of m c r m'] online_step_plan [of c m r m']
  by (simp add: machine_ok_def)

definition online_after :: "online_machine \<Rightarrow> online_call \<Rightarrow> online_machine" where
  "online_after m c = snd (online_step c m)"

interpretation online: machine online_after machine_ok
  by unfold_locales (simp add: online_after_def online_step_ok [OF _ prod.collapse [symmetric]])

section \<open>Histories\<close>

text \<open>The accepted startup calls since the last accepted start.\<close>

fun startup_log :: "online_call list \<Rightarrow> online_call \<Rightarrow> online_call list" where
  "startup_log h (CStart g) = [CStart g]"
| "startup_log h (CInitialSync g now after) = h @ [CInitialSync g now after]"
| "startup_log h (CBootstrap g now) = h @ [CBootstrap g now]"
| "startup_log h (CConfirm g now) = h @ [CConfirm g now]"
| "startup_log h (CFailed g) = []"
| "startup_log h CStop = []"
| "startup_log h _ = h"

definition startup_step :: "online_call list \<times> online_machine \<Rightarrow> online_call \<Rightarrow> online_call list \<times> online_machine" where
  "startup_step hm c =
     (case online_step c (snd hm) of
        (None, m') \<Rightarrow> (fst hm, m')
      | (Some _, m') \<Rightarrow> (startup_log (fst hm) c, m'))"

fun startup_done :: "online_plan \<Rightarrow> online_call list \<Rightarrow> online_state \<Rightarrow> bool" where
  "startup_done p h (Synchronizing g) = (h = [CStart g])"
| "startup_done p h (Bootstrapping g) = (\<exists>n a. h = [CStart g, CInitialSync g n a])"
| "startup_done p h (Confirming g) =
     (status_confirmation p \<noteq> None \<and> (\<exists>n a k. h = [CStart g, CInitialSync g n a, CBootstrap g k]))"
| "startup_done p h (Online g) =
     (if status_confirmation p = None
      then \<exists>n a k. h = [CStart g, CInitialSync g n a, CBootstrap g k]
      else \<exists>n a k j. h = [CStart g, CInitialSync g n a, CBootstrap g k, CConfirm g j])"
| "startup_done p h _ = (h = [])"

lemma startup_step_done:
  "startup_done (om_plan (snd hm)) (fst hm) (om_state (snd hm)) \<Longrightarrow>
   startup_done (om_plan (snd (startup_step hm c))) (fst (startup_step hm c)) (om_state (snd (startup_step hm c)))"
  by (cases hm; cases c; cases "om_state (snd hm)")
    (auto simp: startup_step_def online_defs poll_due_def
      split: if_splits sum.splits option.splits prod.splits)

interpretation startup: machine startup_step "\<lambda>hm. startup_done (om_plan (snd hm)) (fst hm) (om_state (snd hm))"
  by unfold_locales (rule startup_step_done)

text \<open>Dispatches not yet answered: one counter per scheduled action, reset when the schedule is.\<close>

fun is_heartbeat :: "online_directive \<Rightarrow> bool" where
  "is_heartbeat (Dispatch g (BusinessHeartbeat a)) = True"
| "is_heartbeat _ = False"

fun is_delayed_sync :: "online_directive \<Rightarrow> bool" where
  "is_delayed_sync (Dispatch g (DelayedSync a)) = True"
| "is_delayed_sync _ = False"

fun outstanding :: "online_call \<Rightarrow> online_directive list \<Rightarrow> int \<times> int \<Rightarrow> int \<times> int" where
  "outstanding (CHeartbeat g now req) ds (h, d) = (h - 1, d)"
| "outstanding (CDelayed g now after) ds (h, d) = (h, d - 1)"
| "outstanding (CStart g) ds n = (0, 0)"
| "outstanding (CFailed g) ds n = (0, 0)"
| "outstanding CStop ds n = (0, 0)"
| "outstanding _ ds (h, d) =
     (h + int (length (filter is_heartbeat ds)), d + int (length (filter is_delayed_sync ds)))"

definition outstanding_step :: "(int \<times> int) \<times> online_machine \<Rightarrow> online_call \<Rightarrow> (int \<times> int) \<times> online_machine" where
  "outstanding_step nm c =
     (case online_step c (snd nm) of
        (None, m') \<Rightarrow> (fst nm, m')
      | (Some ds, m') \<Rightarrow> (outstanding c ds (fst nm), m'))"

definition in_flight_counts :: "(int \<times> int) \<times> online_machine \<Rightarrow> bool" where
  "in_flight_counts nm \<longleftrightarrow>
     fst nm = (if heartbeat_in_flight (snd nm) then 1 else 0, if delayed_sync_in_flight (snd nm) then 1 else 0)"

lemma outstanding_step_counts: "in_flight_counts nm \<Longrightarrow> in_flight_counts (outstanding_step nm c)"
  by (cases nm; cases c; cases "om_state (snd nm)")
    (auto simp: in_flight_counts_def outstanding_step_def online_defs poll_due_def list_of_def
      split: if_splits sum.splits option.splits prod.splits)

interpretation outstanding: machine outstanding_step in_flight_counts
  by unfold_locales (rule outstanding_step_counts)

section \<open>Properties of the controller\<close>

text \<open>
  C2: Every state of a startup is entered through the gates before it. After any sequence of calls on a
  fresh controller, the calls it accepted since the last accepted start are: start of g alone when it
  is synchronizing g; then the initial synchronization of g when it is bootstrapping g; then the
  security bootstrap of g when it is confirming g, which happens only when the plan has a status
  confirmation; and when it is online in g the same, followed by the status confirmation of g exactly
  when the plan has one. In the two other states, stopped and failed, there are none.
\<close>

theorem online_requires_startup:
  assumes "foldl startup_step ([], online_machine_new p) calls = (h, m)"
  shows "om_plan m = p \<and>
    (case om_state m of
       Synchronizing g \<Rightarrow> h = [CStart g]
     | Bootstrapping g \<Rightarrow> \<exists>n a. h = [CStart g, CInitialSync g n a]
     | Confirming g \<Rightarrow> status_confirmation p \<noteq> None \<and> (\<exists>n a k. h = [CStart g, CInitialSync g n a, CBootstrap g k])
     | Online g \<Rightarrow>
         (if status_confirmation p = None
          then \<exists>n a k. h = [CStart g, CInitialSync g n a, CBootstrap g k]
          else \<exists>n a k j. h = [CStart g, CInitialSync g n a, CBootstrap g k, CConfirm g j])
     | _ \<Rightarrow> h = [])"
proof -
  have "om_plan (snd (foldl startup_step hm calls)) = om_plan (snd hm)" for hm
    by (induction calls arbitrary: hm)
      (auto simp: startup_step_def dest: online_step_plan split: prod.splits option.splits)
  from this [of "([], online_machine_new p)"] assms have plan: "om_plan m = p"
    by (simp add: online_machine_new_def)
  have "startup_done (om_plan m) h (om_state m)"
    using startup.run_inv [of "([], online_machine_new p)" calls] assms
    by (simp add: online_machine_new_def)
  with plan show ?thesis by (cases "om_state m") simp_all
qed

definition sample_plan :: online_plan where
  "sample_plan =
     \<lparr>initial_sync = [1], delayed_sync = [2], security_bootstrap = [3], status_confirmation = None,
      business_heartbeat = [5], initial_heartbeat_ms = 2000, minimum_heartbeat_ms = 1000,
      maximum_heartbeat_ms = 60000, minimum_delayed_sync_ms = 1000, maximum_delayed_sync_ms = 5000\<rparr>"

lemma sample_run:
  "foldl startup_step ([], online_machine_new sample_plan)
     [CStart (OnlineGeneration 1), CInitialSync (OnlineGeneration 1) 10 None, CBootstrap (OnlineGeneration 1) 20] =
   ([CStart (OnlineGeneration 1), CInitialSync (OnlineGeneration 1) 10 None, CBootstrap (OnlineGeneration 1) 20],
    \<lparr>om_plan = sample_plan, om_state = Online (OnlineGeneration 1), heartbeat_interval_ms = 2000,
     next_heartbeat_ms = Some 2020, next_delayed_sync_ms = None, heartbeat_in_flight = False,
     delayed_sync_in_flight = False\<rparr>)"
  by (simp add: startup_step_def online_machine_new_def sample_plan_def online_defs delayed_due_def
      checked_due_def u64_checked_add_def)

theorem online_requires_startup_witness:
  "let (h, m) = foldl startup_step ([], online_machine_new sample_plan)
       [CStart (OnlineGeneration 1), CInitialSync (OnlineGeneration 1) 10 None, CBootstrap (OnlineGeneration 1) 20]
   in om_state m = Online (OnlineGeneration 1) \<and> om_plan m = sample_plan \<and>
     (\<exists>n a k. h = [CStart (OnlineGeneration 1), CInitialSync (OnlineGeneration 1) n a, CBootstrap (OnlineGeneration 1) k])"
  using online_requires_startup [OF sample_run] unfolding sample_run by (simp add: sample_plan_def)

text \<open>
  C16: Scheduled work never overlaps itself. Over any sequence of calls on a fresh controller, the
  heartbeats dispatched and not yet answered are never more than one, nor are the delayed
  synchronizations; and each count is what the controller's own flag says.
\<close>

theorem scheduled_work_never_overlaps:
  "case foldl outstanding_step ((0, 0), online_machine_new p) calls of ((heartbeats, delayed), m) \<Rightarrow>
     heartbeats = (if heartbeat_in_flight m then 1 else 0) \<and>
     delayed = (if delayed_sync_in_flight m then 1 else 0)"
proof -
  have "in_flight_counts ((0, 0), online_machine_new p)"
    by (simp add: in_flight_counts_def online_machine_new_def)
  then have "in_flight_counts (foldl outstanding_step ((0, 0), online_machine_new p) calls)"
    by (rule outstanding.run_inv)
  then show ?thesis
    by (auto simp: in_flight_counts_def split: prod.splits)
qed

text \<open>
  The schedule stays within the plan. After any sequence of calls on a controller made from a
  validated plan, the heartbeat interval is between the plan's bounds, hence between one second and
  one day; an online controller has a heartbeat armed; and one that is not online has no deadline.
\<close>

theorem online_schedule_invariant:
  assumes "online_plan_new spec = Inr p"
  shows "let m = foldl online_after (online_machine_new p) calls in
     minimum_heartbeat_ms p \<le> heartbeat_interval_ms m \<and> heartbeat_interval_ms m \<le> maximum_heartbeat_ms p \<and>
     1000 \<le> heartbeat_interval_ms m \<and> heartbeat_interval_ms m \<le> 86400000 \<and>
     (is_online (om_state m) \<longrightarrow> next_heartbeat_ms m \<noteq> None) \<and>
     (\<not> is_online (om_state m) \<longrightarrow> next_due_ms m = None \<and> \<not> heartbeat_in_flight m \<and> \<not> delayed_sync_in_flight m)"
proof -
  let ?m = "foldl online_after (online_machine_new p) calls"
  have p: "plan_ok p"
    using assms by (auto simp: online_plan_new_def plan_ok_def bindE_Inr)
  have ok: "machine_ok ?m"
    by (rule online.run_inv) (rule machine_ok_new [OF p])
  have "om_plan (foldl online_after m calls) = om_plan m" for m
    by (induction calls arbitrary: m) (simp_all add: online_after_def online_step_plan [OF prod.collapse [symmetric]])
  then have plan: "om_plan ?m = p" by (simp add: online_machine_new_def)
  have bounds: "minimum_heartbeat_ms p \<le> heartbeat_interval_ms ?m" "heartbeat_interval_ms ?m \<le> maximum_heartbeat_ms p"
    using ok plan by (simp_all add: machine_ok_def)
  moreover have "1000 \<le> heartbeat_interval_ms ?m" "heartbeat_interval_ms ?m \<le> 86400000"
    using bounds plan_ok_bounds [OF p] by (auto intro: order_trans)
  moreover have "schedule_ok ?m (om_state ?m)" using ok by (simp add: machine_ok_def)
  ultimately show ?thesis
    unfolding Let_def by (cases "om_state ?m") (auto simp: next_due_ms_def)
qed

theorem online_schedule_invariant_witness:
  "heartbeat_interval_ms (foldl online_after (online_machine_new sample_plan)
     [CStart (OnlineGeneration 1), CPoll 7, CStop]) \<le> 86400000"
proof -
  have "online_plan_new sample_plan = Inr sample_plan"
    by (simp add: online_plan_new_def validate_plan_def validate_range_def sample_plan_def
        MIN_COMPILED_INTERVAL_MS_def MAX_COMPILED_INTERVAL_MS_def)
  from online_schedule_invariant [OF this, of "[CStart (OnlineGeneration 1), CPoll 7, CStop]"]
  show ?thesis by (simp add: Let_def)
qed

text \<open>
  Generations fence each other. A completion or failure that names any generation other than the
  one owning the controller is rejected and changes nothing, whatever its arguments.
\<close>

theorem stale_generation_rejected:
  assumes "generation_of (om_state m) \<noteq> Some g"
    and "c \<in> {CInitialSync g now after, CBootstrap g now, CConfirm g now, CHeartbeat g now after,
              CDelayed g now after, CFailed g}"
  shows "online_step c m = (None, m)"
proof -
  from assms(1) have "om_state m \<noteq> Synchronizing g" "om_state m \<noteq> Bootstrapping g"
    "om_state m \<noteq> Confirming g" "om_state m \<noteq> Online g" by auto
  with assms show ?thesis by (auto simp: online_defs)
qed

theorem stale_generation_rejected_witness:
  "online_step (CHeartbeat (OnlineGeneration 1) 5 None)
     ((online_machine_new sample_plan)\<lparr>om_state := Online (OnlineGeneration 2)\<rparr>) =
   (None, (online_machine_new sample_plan)\<lparr>om_state := Online (OnlineGeneration 2)\<rparr>)"
  by (rule stale_generation_rejected [where g = "OnlineGeneration 1" and now = 5 and after = None])
    (simp_all add: online_machine_new_def)

text \<open>
  The advertised deadline is exact. Polling a controller at any time emits work if and only if
  \<open>next_due_ms\<close> names a deadline that has passed; polling again at the same time emits nothing; and
  what is emitted belongs to the generation that is online.
\<close>

theorem next_due_is_exact:
  "case poll_due now m of ((h, d), m') \<Rightarrow>
     (list_of h @ list_of d \<noteq> [] \<longleftrightarrow> is_due (next_due_ms m) now) \<and>
     fst (poll_due now m') = (None, None) \<and>
     (\<forall>x \<in> set (list_of h @ list_of d). \<exists>g a. om_state m = Online g \<and> x = Dispatch g a)"
  by (cases "om_state m"; cases "next_heartbeat_ms m"; cases "next_delayed_sync_ms m")
    (auto simp: poll_due_def next_due_ms_def is_due_def list_of_def option_min_def Let_def min_le_iff_disj)

theorem next_due_is_exact_witness:
  "case poll_due 2020 (snd (foldl startup_step ([], online_machine_new sample_plan)
      [CStart (OnlineGeneration 1), CInitialSync (OnlineGeneration 1) 10 None, CBootstrap (OnlineGeneration 1) 20]))
   of ((h, d), m') \<Rightarrow> h = Some (Dispatch (OnlineGeneration 1) (BusinessHeartbeat [5])) \<and> d = None \<and>
     fst (poll_due 2020 m') = (None, None)"
  using next_due_is_exact [of "snd (foldl startup_step ([], online_machine_new sample_plan)
      [CStart (OnlineGeneration 1), CInitialSync (OnlineGeneration 1) 10 None, CBootstrap (OnlineGeneration 1) 20])" 2020]
  unfolding sample_run by (simp add: poll_due_def is_due_def sample_plan_def Let_def)

section \<open>Login\<close>

datatype login_failure = Transport | LProtocol | Profile | CeylithContinuity | Rejected

datatype login_state =
    LStopped
  | FetchingQr
  | AwaitingScan
  | AwaitingConfirmation
  | ExchangingCredentials
  | Registering
  | LOnline
  | LProtectiveOffline
  | Failed login_failure
  | QrExpired
  | QrCanceled

record login_transition_error =
  te_from :: login_state
  te_to :: login_state

fun can_fetch :: "login_state \<Rightarrow> bool" where
  "can_fetch LStopped = True"
| "can_fetch LProtectiveOffline = True"
| "can_fetch (Failed f) = True"
| "can_fetch QrExpired = True"
| "can_fetch QrCanceled = True"
| "can_fetch _ = False"

fun is_failed :: "login_state \<Rightarrow> bool" where
  "is_failed (Failed f) = True"
| "is_failed _ = False"

text \<open>The patterns of the \<open>matches!\<close> in \<open>is_allowed\<close>, one disjunct each.\<close>

definition is_allowed :: "login_state \<Rightarrow> login_state \<Rightarrow> bool" where
  "is_allowed source target \<longleftrightarrow>
     (can_fetch source \<and> target = FetchingQr)
   \<or> (source = FetchingQr \<and> (target = AwaitingScan \<or> is_failed target \<or> target = LStopped))
   \<or> ((source = AwaitingScan \<or> source = AwaitingConfirmation) \<and>
      (target = AwaitingScan \<or> target = AwaitingConfirmation \<or> target = ExchangingCredentials \<or>
       target = QrExpired \<or> target = QrCanceled \<or> is_failed target \<or> target = LStopped))
   \<or> (source = ExchangingCredentials \<and>
      (target = Registering \<or> target = LProtectiveOffline \<or> is_failed target \<or> target = LStopped))
   \<or> (source = Registering \<and>
      (target = LOnline \<or> target = LProtectiveOffline \<or> is_failed target \<or> target = LStopped))
   \<or> (source = LOnline \<and> (target = LProtectiveOffline \<or> is_failed target \<or> target = LStopped))
   \<or> target = LStopped"

record login_machine =
  lm_state :: login_state

definition login_machine_new :: login_machine where
  "login_machine_new = \<lparr>lm_state = LStopped\<rparr>"

definition login_transition :: "login_state \<Rightarrow> (login_machine, login_transition_error, login_state) op" where
  "login_transition next m =
     (if \<not> is_allowed (lm_state m) next then (Inl \<lparr>te_from = lm_state m, te_to = next\<rparr>, m)
      else (Inr (lm_state m), m\<lparr>lm_state := next\<rparr>))"

text \<open>The states entered since the QR code was last fetched; rejected transitions leave no trace.\<close>

definition login_step :: "login_state list \<times> login_machine \<Rightarrow> login_state \<Rightarrow> login_state list \<times> login_machine" where
  "login_step hm next =
     (case login_transition next (snd hm) of
        (Inl _, m') \<Rightarrow> (fst hm, m')
      | (Inr _, m') \<Rightarrow> (if next = FetchingQr then [FetchingQr] else fst hm @ [next], m'))"

definition is_waiting :: "login_state \<Rightarrow> bool" where
  "is_waiting s \<longleftrightarrow> s = AwaitingScan \<or> s = AwaitingConfirmation"

text \<open>The path of one login: QR code, at least one wait that starts with the scan, credentials, registration.\<close>

definition login_path :: "login_state list \<Rightarrow> bool" where
  "login_path h \<longleftrightarrow> (\<exists>w. h = FetchingQr # AwaitingScan # w \<and> list_all is_waiting w)"

fun login_history :: "login_state list \<Rightarrow> login_state \<Rightarrow> bool" where
  "login_history h FetchingQr = (h = [FetchingQr])"
| "login_history h AwaitingScan = login_path h"
| "login_history h AwaitingConfirmation = login_path h"
| "login_history h ExchangingCredentials = (\<exists>p. login_path p \<and> h = p @ [ExchangingCredentials])"
| "login_history h Registering = (\<exists>p. login_path p \<and> h = p @ [ExchangingCredentials, Registering])"
| "login_history h LOnline = (\<exists>p. login_path p \<and> h = p @ [ExchangingCredentials, Registering, LOnline])"
| "login_history h _ = True"

lemma login_path_extend: "login_path h \<Longrightarrow> is_waiting s \<Longrightarrow> login_path (h @ [s])"
  by (auto simp: login_path_def)

lemma login_path_start: "login_path [FetchingQr, AwaitingScan]"
  by (simp add: login_path_def)

interpretation login: machine login_step "\<lambda>hm. login_history (fst hm) (lm_state (snd hm))"
proof
  fix hm :: "login_state list \<times> login_machine" and next_state
  obtain h m where hm: "hm = (h, m)" by (cases hm)
  assume "login_history (fst hm) (lm_state (snd hm))"
  then show "login_history (fst (login_step hm next_state)) (lm_state (snd (login_step hm next_state)))"
    by (cases next_state; cases "lm_state m")
      (auto simp: hm login_step_def login_transition_def is_allowed_def is_waiting_def
        intro: login_path_extend login_path_start)
qed

text \<open>
  A login reaches the online state only along its whole path: after any sequence of requested
  transitions on a new machine, if the account is online then, since the QR code was last fetched, the
  accepted transitions were the scan wait, any alternation of scan and confirmation waits, the
  credential exchange, the registration and the entry online, and nothing else.
\<close>

theorem login_online_path:
  "foldl login_step ([], login_machine_new) requests = (h, m) \<Longrightarrow> lm_state m = LOnline \<Longrightarrow>
   \<exists>w. list_all is_waiting w \<and>
     h = FetchingQr # AwaitingScan # w @ [ExchangingCredentials, Registering, LOnline]"
proof -
  assume run: "foldl login_step ([], login_machine_new) requests = (h, m)" and on: "lm_state m = LOnline"
  have "login_history (fst ([], login_machine_new)) (lm_state (snd ([] :: login_state list, login_machine_new)))"
    by (simp add: login_machine_new_def)
  from login.run_inv [OF this, of requests] run on show ?thesis
    by (auto simp: login_path_def)
qed

theorem login_online_path_witness:
  "\<exists>w. list_all is_waiting w \<and>
     [FetchingQr, AwaitingScan, AwaitingConfirmation, ExchangingCredentials, Registering, LOnline] =
     FetchingQr # AwaitingScan # w @ [ExchangingCredentials, Registering, LOnline]"
proof -
  have "foldl login_step ([], login_machine_new)
      [LOnline, FetchingQr, AwaitingScan, Registering, AwaitingConfirmation, ExchangingCredentials, Registering, LOnline] =
    ([FetchingQr, AwaitingScan, AwaitingConfirmation, ExchangingCredentials, Registering, LOnline],
     \<lparr>lm_state = LOnline\<rparr>)"
    by (simp add: login_step_def login_transition_def is_allowed_def login_machine_new_def)
  from login_online_path [OF this] show ?thesis by simp
qed

end
