(* ===== verification/Account.thy ===== *)
theory Account
  imports Btree "HOL-Library.List_Lexorder"
begin

text \<open>
  The account runtime of \<open>crates/account-runtime\<close>: identifiers (\<open>id.rs\<close>), the durable lifecycle
  (\<open>model.rs\<close>) with its SQLite store (\<open>store.rs\<close>, \<open>store/schema.rs\<close>), the single-writer actor
  (\<open>actor.rs\<close>), the supervisor (\<open>supervisor.rs\<close>) and the grant planner (\<open>grant.rs\<close>).

  The database is the rows its SQL text describes: \<open>user_version\<close>, the single row of
  \<open>account_state\<close> and the rows of \<open>account_transitions\<close> in insertion order; integers are the
  signed 64-bit values SQLite stores. SQLite may fail on I/O at every step: each operation takes what
  happens to its query, to the opening of its transaction and to the transaction itself; a failed
  transaction is rolled back, as SQLite documents.
\<close>

section \<open>Identifiers and errors\<close>

datatype account_local_id = AccountLocalId (local_id_bytes: bytes)

instantiation account_local_id :: linorder
begin

definition less_eq_account_local_id :: "account_local_id \<Rightarrow> account_local_id \<Rightarrow> bool" where
  "less_eq_account_local_id a b \<longleftrightarrow> local_id_bytes a \<le> local_id_bytes b"

definition less_account_local_id :: "account_local_id \<Rightarrow> account_local_id \<Rightarrow> bool" where
  "less_account_local_id a b \<longleftrightarrow> local_id_bytes a < local_id_bytes b"

instance
  by standard (auto simp: less_eq_account_local_id_def less_account_local_id_def
      intro: account_local_id.expand)

end

datatype account_runtime_error =
    Configuration | Persistence | Closed | DuplicateAccount | UnknownAccount | TransitionRejected
  | WorkerFailed

section \<open>Lifecycle model\<close>

datatype account_phase = PhStopped | PhStarting | PhActive | PhProtectiveOffline

fun phase_code :: "account_phase \<Rightarrow> nat" where
  "phase_code PhStopped = 0"
| "phase_code PhStarting = 1"
| "phase_code PhActive = 2"
| "phase_code PhProtectiveOffline = 3"

definition phase_from_stored :: "nat \<Rightarrow> account_phase option" where
  "phase_from_stored v =
     (if v = 0 then Some PhStopped else if v = 1 then Some PhStarting
      else if v = 2 then Some PhActive else if v = 3 then Some PhProtectiveOffline else None)"

datatype protective_reason =
    ProcessRestart | CeylithContinuity | GrantUnavailable | ProfileUnavailable | RemoteSessionEnded
  | WorkerFailure

fun reason_code :: "protective_reason \<Rightarrow> nat" where
  "reason_code ProcessRestart = 1"
| "reason_code CeylithContinuity = 2"
| "reason_code GrantUnavailable = 3"
| "reason_code ProfileUnavailable = 4"
| "reason_code RemoteSessionEnded = 5"
| "reason_code WorkerFailure = 6"

definition reason_from_stored :: "nat \<Rightarrow> protective_reason option" where
  "reason_from_stored v =
     (if v = 1 then Some ProcessRestart else if v = 2 then Some CeylithContinuity
      else if v = 3 then Some GrantUnavailable else if v = 4 then Some ProfileUnavailable
      else if v = 5 then Some RemoteSessionEnded else if v = 6 then Some WorkerFailure else None)"

record account_snapshot =
  sn_local_id :: account_local_id
  sn_phase :: account_phase
  sn_generation :: u64
  sn_reason :: "protective_reason option"
  sn_updated_at_ms :: u64

record account_transition =
  tr_next :: account_phase
  tr_reason :: "protective_reason option"
  tr_occurred_at_ms :: u64

record transition_receipt =
  rc_previous :: account_snapshot
  rc_current :: account_snapshot

section \<open>The store\<close>

record account_row =
  row_phase :: int
  row_generation :: int
  row_reason :: "int option"
  row_updated_at_ms :: int

record transition_row =
  jr_generation :: int
  jr_from_phase :: int
  jr_to_phase :: int
  jr_reason :: "int option"
  jr_occurred_at_ms :: int

record account_db =
  user_version :: nat
  account_state :: "account_row option"
  account_transitions :: "transition_row list"

record account_store =
  as_local_id :: account_local_id
  as_connection :: account_db

text \<open>
  What SQLite does in one operation: whether its query is answered, whether its transaction opens, and
  whether the statements and the commit are carried out.
\<close>

record sqlite_outcome =
  io_read :: bool
  io_begin :: bool
  io_write :: bool

definition io_ok :: "sqlite_outcome \<Rightarrow> bool" where
  "io_ok io \<longleftrightarrow> io_read io \<and> io_begin io \<and> io_write io"

definition sqlite_works :: sqlite_outcome where
  "sqlite_works = \<lparr>io_read = True, io_begin = True, io_write = True\<rparr>"

lemma sqlite_works_ok [simp]: "io_ok sqlite_works" "io_read sqlite_works" "io_begin sqlite_works" "io_write sqlite_works"
  by (simp_all add: io_ok_def sqlite_works_def)

text \<open>
  What happens when a store is opened: the error of opening the file, if any, then the migration, the
  query of the recovery and its transition.
\<close>

record open_outcome =
  oo_file :: "account_runtime_error option"
  oo_migrate :: sqlite_outcome
  oo_recover_read :: bool
  oo_recover :: sqlite_outcome

definition opening_works :: open_outcome where
  "opening_works = \<lparr>oo_file = None, oo_migrate = sqlite_works, oo_recover_read = True, oo_recover = sqlite_works\<rparr>"

definition SCHEMA_VERSION :: nat where
  "SCHEMA_VERSION = 1"

definition to_i64 :: "u64 \<Rightarrow> account_runtime_error + int" where
  "to_i64 v = (if unat v < 2 ^ 63 then Inr (int (unat v)) else Inl Configuration)"

text \<open>\<open>row.get::<_, u8>\<close>: rusqlite refuses a value outside the type, a persistence error.\<close>

definition get_u8 :: "int \<Rightarrow> account_runtime_error + nat" where
  "get_u8 v = (if 0 \<le> v \<and> v < 256 then Inr (nat v) else Inl Persistence)"

definition get_opt_u8 :: "int option \<Rightarrow> account_runtime_error + nat option" where
  "get_opt_u8 v = (case v of None \<Rightarrow> Inr None | Some x \<Rightarrow> bindE (get_u8 x) (\<lambda>n. Inr (Some n)))"

definition u64_try_from :: "int \<Rightarrow> account_runtime_error + u64" where
  "u64_try_from v = (if 0 \<le> v then Inr (of_int v) else Inl Configuration)"

definition validate_reason :: "account_phase \<Rightarrow> protective_reason option \<Rightarrow> account_runtime_error + unit" where
  "validate_reason phase reason =
     (if (phase = PhProtectiveOffline) = (reason \<noteq> None) then Inr () else Inl Configuration)"

definition store_snapshot :: "bool \<Rightarrow> account_store \<Rightarrow> account_runtime_error + account_snapshot" where
  "store_snapshot read_ok s =
     bindE (guardE read_ok Persistence) (\<lambda>_.
     bindE (ok_or Persistence (account_state (as_connection s))) (\<lambda>row.
     bindE (get_u8 (row_phase row)) (\<lambda>stored_phase.
     bindE (get_opt_u8 (row_reason row)) (\<lambda>stored_reason.
     bindE (ok_or Configuration (phase_from_stored stored_phase)) (\<lambda>phase.
     bindE (u64_try_from (row_generation row)) (\<lambda>generation.
     bindE (case stored_reason of
              Some v \<Rightarrow> bindE (ok_or Configuration (reason_from_stored v)) (\<lambda>r. Inr (Some r))
            | None \<Rightarrow> Inr None) (\<lambda>reason.
     bindE (u64_try_from (row_updated_at_ms row)) (\<lambda>updated_at_ms.
     bindE (validate_reason phase reason) (\<lambda>_.
     Inr \<lparr>sn_local_id = as_local_id s, sn_phase = phase, sn_generation = generation,
          sn_reason = reason, sn_updated_at_ms = updated_at_ms\<rparr>)))))))))"

text \<open>The patterns of the \<open>matches!\<close> in \<open>validate_transition\<close>.\<close>

definition phase_change_allowed :: "account_phase \<Rightarrow> account_phase \<Rightarrow> bool" where
  "phase_change_allowed previous next \<longleftrightarrow>
     ((previous = PhStopped \<or> previous = PhProtectiveOffline) \<and> next = PhStarting)
   \<or> (previous = PhStarting \<and> (next = PhActive \<or> next = PhStopped \<or> next = PhProtectiveOffline))
   \<or> (previous = PhActive \<and> (next = PhStopped \<or> next = PhProtectiveOffline))"

definition validate_transition ::
  "account_snapshot \<Rightarrow> account_transition \<Rightarrow> account_runtime_error + unit" where
  "validate_transition previous requested =
     bindE (map_err (\<lambda>_. TransitionRejected) (validate_reason (tr_next requested) (tr_reason requested))) (\<lambda>_.
     if tr_occurred_at_ms requested < sn_updated_at_ms previous then Inl TransitionRejected
     else if phase_change_allowed (sn_phase previous) (tr_next requested) then Inr ()
     else Inl TransitionRejected)"

definition reason_int :: "protective_reason option \<Rightarrow> int option" where
  "reason_int r = map_option (\<lambda>r. int (reason_code r)) r"

definition state_row :: "account_phase \<Rightarrow> int \<Rightarrow> protective_reason option \<Rightarrow> int \<Rightarrow> account_row" where
  "state_row phase generation reason updated_at_ms =
     \<lparr>row_phase = int (phase_code phase), row_generation = generation, row_reason = reason_int reason,
      row_updated_at_ms = updated_at_ms\<rparr>"

text \<open>\<open>UPDATE \<dots> WHERE singleton = 1 AND phase = ?5 AND generation = ?6\<close>: the rows changed, 0 or 1.\<close>

definition update_state :: "account_row \<Rightarrow> int \<Rightarrow> int \<Rightarrow> account_db \<Rightarrow> nat \<times> account_db" where
  "update_state new_row phase generation db =
     (case account_state db of
        Some old \<Rightarrow> if row_phase old = phase \<and> row_generation old = generation
                     then (1, db\<lparr>account_state := Some new_row\<rparr>) else (0, db)
      | None \<Rightarrow> (0, db))"

definition commit_transition ::
  "sqlite_outcome \<Rightarrow> account_snapshot \<Rightarrow> account_snapshot \<Rightarrow> account_db \<Rightarrow> account_runtime_error + account_db" where
  "commit_transition io previous current db =
     bindE (guardE (io_begin io) Persistence) (\<lambda>_.
     bindE (to_i64 (sn_generation current)) (\<lambda>generation.
     bindE (to_i64 (sn_updated_at_ms current)) (\<lambda>updated_at_ms.
     bindE (to_i64 (sn_generation previous)) (\<lambda>previous_generation.
     case update_state (state_row (sn_phase current) generation (sn_reason current) updated_at_ms)
            (int (phase_code (sn_phase previous))) previous_generation db of
       (updated, db') \<Rightarrow>
         if updated \<noteq> 1 then Inl Persistence
         else if \<not> io_write io then Inl Persistence
         else Inr (db'\<lparr>account_transitions := account_transitions db' @
           [\<lparr>jr_generation = generation, jr_from_phase = int (phase_code (sn_phase previous)),
             jr_to_phase = int (phase_code (sn_phase current)), jr_reason = reason_int (sn_reason current),
             jr_occurred_at_ms = updated_at_ms\<rparr>]\<rparr>)))))"

definition store_transition ::
  "sqlite_outcome \<Rightarrow> account_transition \<Rightarrow> (account_store, account_runtime_error, transition_receipt) op" where
  "store_transition io requested s =
     (case bindE (store_snapshot (io_read io) s) (\<lambda>previous.
           bindE (validate_transition previous requested) (\<lambda>_.
           bindE (if tr_next requested = PhStarting
                  then ok_or TransitionRejected (u64_checked_add (sn_generation previous) 1)
                  else Inr (sn_generation previous)) (\<lambda>generation.
           let current = \<lparr>sn_local_id = as_local_id s, sn_phase = tr_next requested,
                 sn_generation = generation, sn_reason = tr_reason requested,
                 sn_updated_at_ms = tr_occurred_at_ms requested\<rparr>
           in bindE (commit_transition io previous current (as_connection s)) (\<lambda>db.
              Inr (\<lparr>rc_previous = previous, rc_current = current\<rparr>, db))))) of
        Inl e \<Rightarrow> (Inl e, s)
      | Inr (receipt, db) \<Rightarrow> (Inr receipt, s\<lparr>as_connection := db\<rparr>))"

definition recover_interrupted :: "bool \<Rightarrow> sqlite_outcome \<Rightarrow> u64 \<Rightarrow> (account_store, account_runtime_error, unit) op" where
  "recover_interrupted read_ok io occurred_at_ms s =
     (case store_snapshot read_ok s of
        Inl e \<Rightarrow> (Inl e, s)
      | Inr snapshot \<Rightarrow>
          if sn_phase snapshot = PhStarting \<or> sn_phase snapshot = PhActive then
            bindS (store_transition io
              \<lparr>tr_next = PhProtectiveOffline, tr_reason = Some ProcessRestart,
               tr_occurred_at_ms = max occurred_at_ms (sn_updated_at_ms snapshot)\<rparr>) (\<lambda>_. retS ()) s
          else (Inr (), s))"

definition create_schema :: "sqlite_outcome \<Rightarrow> u64 \<Rightarrow> account_db \<Rightarrow> account_runtime_error + account_db" where
  "create_schema io created_at_ms db =
     bindE (to_i64 created_at_ms) (\<lambda>created.
     if \<not> io_begin io \<or> \<not> io_write io then Inl Persistence
     else Inr (db\<lparr>account_state := Some (state_row PhStopped 0 None created), account_transitions := [],
                 user_version := SCHEMA_VERSION\<rparr>))"

definition migrate :: "sqlite_outcome \<Rightarrow> u64 \<Rightarrow> account_db \<Rightarrow> account_runtime_error + account_db" where
  "migrate io created_at_ms db =
     (if \<not> io_read io then Inl Persistence
      else if user_version db = SCHEMA_VERSION then Inr db
      else if user_version db = 0 then create_schema io created_at_ms db
      else Inl Configuration)"

text \<open>\<open>AccountStore::open\<close> on the database the file holds; an empty file has version 0 and no tables.\<close>

definition store_open ::
  "open_outcome \<Rightarrow> account_local_id \<Rightarrow> u64 \<Rightarrow> account_db \<Rightarrow> (account_runtime_error + account_store) \<times> account_db" where
  "store_open oo local_id recovery_at_ms db =
     (case (case oo_file oo of Some e \<Rightarrow> Inl e | None \<Rightarrow> migrate (oo_migrate oo) recovery_at_ms db) of
        Inl e \<Rightarrow> (Inl e, db)
      | Inr db' \<Rightarrow>
          (case recover_interrupted (oo_recover_read oo) (oo_recover oo) recovery_at_ms \<lparr>as_local_id = local_id, as_connection = db'\<rparr> of
             (Inl e, s) \<Rightarrow> (Inl e, as_connection s)
           | (Inr _, s) \<Rightarrow> (Inr s, as_connection s)))"

definition empty_db :: account_db where
  "empty_db = \<lparr>user_version = 0, account_state = None, account_transitions = []\<rparr>"

section \<open>The lifecycle the journal records\<close>

text \<open>Phase, generation, reason and time, free of their storage; one step; and a journal as a run.\<close>

type_synonym life = "account_phase \<times> nat \<times> protective_reason option \<times> nat"

fun life_step :: "life \<Rightarrow> life \<Rightarrow> bool" where
  "life_step (p, g, r, t) (p', g', r', t') \<longleftrightarrow>
     phase_change_allowed p p' \<and> (p' = PhProtectiveOffline) = (r' \<noteq> None) \<and> t \<le> t' \<and>
     g' = (if p' = PhStarting then g + 1 else g)"

fun life_row :: "life \<Rightarrow> account_row" where
  "life_row (p, g, r, t) = state_row p (int g) r (int t)"

fun life_entry :: "life \<Rightarrow> life \<Rightarrow> transition_row" where
  "life_entry (p, g, r, t) (p', g', r', t') =
     \<lparr>jr_generation = int g', jr_from_phase = int (phase_code p), jr_to_phase = int (phase_code p'),
      jr_reason = reason_int r', jr_occurred_at_ms = int t'\<rparr>"

inductive replays :: "life \<Rightarrow> transition_row list \<Rightarrow> life \<Rightarrow> bool" where
  replays_start: "replays a [] a"
| replays_step: "replays a js b \<Longrightarrow> life_step b c \<Longrightarrow> replays a (js @ [life_entry b c]) c"

inductive_cases replays_snocE: "replays a (js @ [j]) c"

fun life_ok :: "life \<Rightarrow> bool" where
  "life_ok (p, g, r, t) \<longleftrightarrow> g < 2 ^ 63 \<and> t < 2 ^ 63 \<and> (p = PhProtectiveOffline) = (r \<noteq> None)"

definition db_at :: "account_db \<Rightarrow> nat \<Rightarrow> life \<Rightarrow> bool" where
  "db_at db t0 l \<longleftrightarrow> user_version db = 1 \<and> t0 < 2 ^ 63 \<and> life_ok l \<and> account_state db = Some (life_row l) \<and>
     replays (PhStopped, 0, None, t0) (account_transitions db) l"

lemma phase_roundtrip [simp]: "phase_from_stored (phase_code p) = Some p"
  by (cases p) (simp_all add: phase_from_stored_def)

lemma phase_code_small [simp]: "phase_code p < 256"
  by (cases p) simp_all

lemma phase_code_eq [simp]: "phase_code p = phase_code q \<longleftrightarrow> p = q"
  by (cases p; cases q) simp_all

lemma reason_roundtrip [simp]: "reason_from_stored (reason_code r) = Some r"
  by (cases r) (simp_all add: reason_from_stored_def)

lemma reason_code_small [simp]: "reason_code r < 256"
  by (cases r) simp_all

fun life_snapshot :: "account_local_id \<Rightarrow> life \<Rightarrow> account_snapshot" where
  "life_snapshot i (p, g, r, t) =
     \<lparr>sn_local_id = i, sn_phase = p, sn_generation = of_nat g, sn_reason = r, sn_updated_at_ms = of_nat t\<rparr>"

lemma store_snapshot_at:
  assumes "db_at (as_connection s) t0 l"
  shows "store_snapshot True s = Inr (life_snapshot (as_local_id s) l)"
proof -
  obtain p g r t where l: "l = (p, g, r, t)" by (cases l)
  with assms show ?thesis
    by (cases p; cases r)
      (simp_all add: db_at_def store_snapshot_def state_row_def reason_int_def get_u8_def get_opt_u8_def
        u64_try_from_def validate_reason_def phase_from_stored_def)
qed

lemma store_snapshot_unread [simp]: "store_snapshot False s = Inl Persistence"
  by (simp add: store_snapshot_def)

text \<open>The requested next state, and the exact effect of a transition on a journal at \<open>l\<close>.\<close>

fun life_request :: "life \<Rightarrow> account_transition \<Rightarrow> life" where
  "life_request (p, g, r, t) q =
     (tr_next q, if tr_next q = PhStarting then g + 1 else g, tr_reason q, unat (tr_occurred_at_ms q))"

lemma store_transition_at:
  assumes at: "db_at (as_connection s) t0 l" and run: "store_transition io q s = (res, s')"
  shows "case res of
      Inl e \<Rightarrow> s' = s
    | Inr receipt \<Rightarrow> io_ok io \<and> life_step l (life_request l q) \<and> life_ok (life_request l q) \<and>
        receipt = \<lparr>rc_previous = life_snapshot (as_local_id s) l,
                   rc_current = life_snapshot (as_local_id s) (life_request l q)\<rparr> \<and>
        as_local_id s' = as_local_id s \<and> db_at (as_connection s') t0 (life_request l q) \<and>
        account_transitions (as_connection s') =
          account_transitions (as_connection s) @ [life_entry l (life_request l q)]"
proof (cases res)
  case (Inl e)
  with run show ?thesis by (auto simp: store_transition_def split: sum.splits prod.splits)
next
  case (Inr receipt)
  obtain p g r t where l: "l = (p, g, r, t)" by (cases l)
  let ?g = "if tr_next q = PhStarting then g + 1 else g"
  have bounds: "g < 2 ^ 63" "t < 2 ^ 63" using at l by (simp_all add: db_at_def)
  then have "unat (of_nat g :: u64) = g" "unat (of_nat t :: u64) = t"
    by (simp_all add: u64_small del: of_nat_Suc)
  moreover have "unat (of_nat (g + 1) :: u64) = g + 1"
    by (rule of_nat_inverse [OF refl]) (use bounds in simp)
  ultimately have unat: "unat (of_nat g :: u64) = g" "unat (of_nat t :: u64) = t"
    "unat (of_nat (g + 1) :: u64) = g + 1" by simp_all
  note snap = store_snapshot_at [OF at]
  let ?current = "\<lparr>sn_local_id = as_local_id s, sn_phase = tr_next q, sn_generation = of_nat ?g,
      sn_reason = tr_reason q, sn_updated_at_ms = tr_occurred_at_ms q\<rparr>"
  have checked: "u64_checked_add (of_nat g) 1 = Some (of_nat (g + 1))"
    using bounds unat by (simp add: u64_checked_add_def add.commute)
  have read: "io_read io"
    using run Inr by (cases "io_read io") (auto simp: store_transition_def)
  from run Inr obtain db where valid: "validate_transition (life_snapshot (as_local_id s) l) q = Inr ()"
    and commit: "commit_transition io (life_snapshot (as_local_id s) l) ?current (as_connection s) = Inr db"
    and receipt: "receipt = \<lparr>rc_previous = life_snapshot (as_local_id s) l, rc_current = ?current\<rparr>"
    and s': "s' = s\<lparr>as_connection := db\<rparr>"
    unfolding store_transition_def using read snap l checked
    by (auto simp: bindE_Inr Let_def split: sum.splits if_splits)
  have step: "life_step l (life_request l q)"
    using valid l unat
    by (auto simp: validate_transition_def validate_reason_def bindE_Inr map_err_Inr not_less
        word_le_nat_alt split: if_splits)
  have unat_g: "unat (of_nat ?g :: u64) = ?g" using unat by auto
  from commit have time: "unat (tr_occurred_at_ms q) < 2 ^ 63" and gen: "?g < 2 ^ 63" and ok: "io_ok io"
    using unat_g read by (auto simp: commit_transition_def bindE_Inr guardE_Inr to_i64_def io_ok_def split: if_splits prod.splits)
  have ok': "life_ok (life_request l q)"
    using step time gen l by auto
  have db: "db = (as_connection s)\<lparr>account_state := Some (life_row (life_request l q)),
      account_transitions := account_transitions (as_connection s) @ [life_entry l (life_request l q)]\<rparr>"
    using commit at l unat unat_g time gen
    by (auto simp: commit_transition_def bindE_Inr guardE_Inr to_i64_def update_state_def db_at_def state_row_def
        split: if_splits)
  have "db_at db t0 (life_request l q)"
    using at ok' step by (auto simp: db db_at_def intro: replays_step)
  moreover have "?current = life_snapshot (as_local_id s) (life_request l q)"
    using l time by simp
  ultimately show ?thesis
    using Inr ok step ok' receipt s' by (simp add: db)
qed

lemma store_transition_accepts:
  assumes at: "db_at (as_connection s) t0 l"
    and step: "life_step l (life_request l q)" "life_ok (life_request l q)"
    and io: "io_ok io"
  shows "\<exists>receipt s'. store_transition io q s = (Inr receipt, s')"
proof -
  obtain p g r t where l: "l = (p, g, r, t)" by (cases l)
  let ?g = "if tr_next q = PhStarting then g + 1 else g"
  have bounds: "g < 2 ^ 63" "t < 2 ^ 63" using at l by (simp_all add: db_at_def)
  have unat: "unat (of_nat g :: u64) = g" "unat (of_nat t :: u64) = t"
    using bounds by (simp_all add: u64_small)
  have unat_g: "unat (of_nat ?g :: u64) = ?g" using step(2) l by (intro u64_small) simp
  have checked: "u64_checked_add (of_nat g) 1 = Some (of_nat (g + 1))"
    using bounds unat by (simp add: u64_checked_add_def add.commute)
  have valid: "validate_transition (life_snapshot (as_local_id s) l) q = Inr ()"
    using step(1) l unat
    by (auto simp: validate_transition_def validate_reason_def not_less word_le_nat_alt)
  let ?current = "\<lparr>sn_local_id = as_local_id s, sn_phase = tr_next q, sn_generation = of_nat ?g,
      sn_reason = tr_reason q, sn_updated_at_ms = tr_occurred_at_ms q\<rparr>"
  have "\<exists>db. commit_transition io (life_snapshot (as_local_id s) l) ?current (as_connection s) = Inr db"
    using at l unat unat_g step(2) io
    by (auto simp: io_ok_def commit_transition_def to_i64_def update_state_def db_at_def state_row_def)
  then obtain db where "commit_transition io (life_snapshot (as_local_id s) l) ?current (as_connection s) = Inr db" ..
  then show ?thesis
    unfolding store_transition_def using io store_snapshot_at [OF at] valid l checked by (auto simp: Let_def io_ok_def)
qed

text \<open>Reopening the database: a fresh file gets its schema, an interrupted run is closed.\<close>

definition interrupted :: "life \<Rightarrow> bool" where
  "interrupted l \<longleftrightarrow> fst l = PhStarting \<or> fst l = PhActive"

lemma store_open_at:
  assumes "db_at db t0 l" "store_open oo i now db = (res, db')"
  shows "case res of
      Inl e \<Rightarrow> db' = db
    | Inr s \<Rightarrow> as_connection s = db' \<and> as_local_id s = i \<and>
        (\<exists>l'. db_at db' t0 l' \<and> \<not> interrupted l' \<and> (if interrupted l then fst (snd l') = fst (snd l) \<and>
           fst l' = PhProtectiveOffline \<and> fst (snd (snd l')) = Some ProcessRestart \<and>
           account_transitions db' = account_transitions db @ [life_entry l l']
         else db' = db \<and> l' = l))"
proof -
  let ?s = "\<lparr>as_local_id = i, as_connection = db\<rparr>"
  obtain p g r t where l: "l = (p, g, r, t)" by (cases l)
  have at: "db_at (as_connection ?s) t0 l" using assms(1) by simp
  note snap = store_snapshot_at [OF at]
  show ?thesis
  proof (cases "oo_file oo = None \<and> io_read (oo_migrate oo) \<and> oo_recover_read oo")
    case False
    then have "\<exists>e. store_open oo i now db = (Inl e, db)"
      by (cases "oo_file oo"; cases "io_read (oo_migrate oo)"; cases "oo_recover_read oo")
        (use assms(1) in \<open>auto simp: store_open_def migrate_def db_at_def SCHEMA_VERSION_def recover_interrupted_def\<close>)
    with assms(2) show ?thesis by auto
  next
    case io: True
    then have mig: "migrate (oo_migrate oo) now db = Inr db"
      using assms(1) by (simp add: migrate_def db_at_def SCHEMA_VERSION_def)
    show ?thesis
    proof (cases "interrupted l")
      case False
      then have "store_open oo i now db = (Inr ?s, db)"
        using snap l io mig by (auto simp: store_open_def recover_interrupted_def interrupted_def)
      with assms(2) have "res = Inr ?s" "db' = db" by auto
      with assms(1) False show ?thesis by (auto simp del: split_paired_Ex intro!: exI [of _ l])
    next
      case True
      let ?q = "\<lparr>tr_next = PhProtectiveOffline, tr_reason = Some ProcessRestart,
          tr_occurred_at_ms = max now (of_nat t)\<rparr>"
      obtain res2 s2 where run: "store_transition (oo_recover oo) ?q ?s = (res2, s2)" by fastforce
      have "recover_interrupted (oo_recover_read oo) (oo_recover oo) now ?s =
          bindS (store_transition (oo_recover oo) ?q) (\<lambda>_. retS ()) ?s"
        using snap l True io by (auto simp: recover_interrupted_def interrupted_def)
      then have res: "store_open oo i now db =
          (case res2 of Inl e \<Rightarrow> (Inl e, as_connection s2) | Inr _ \<Rightarrow> (Inr s2, as_connection s2))"
        using run io mig by (auto simp: store_open_def bindS_def retS_def split: sum.splits)
      show ?thesis
      proof (cases res2)
        case (Inl e)
        with store_transition_at [OF at run] res assms(2) show ?thesis by auto
      next
        case (Inr receipt)
        with store_transition_at [OF at run]
        have eff: "as_local_id s2 = i" "db_at (as_connection s2) t0 (life_request l ?q)"
          "account_transitions (as_connection s2) = account_transitions db @ [life_entry l (life_request l ?q)]"
          by simp_all
        have "res = Inr s2" "db' = as_connection s2" using res Inr assms(2) by simp_all
        moreover have "\<not> interrupted (life_request l ?q)" "fst (snd (life_request l ?q)) = fst (snd l)"
          "fst (life_request l ?q) = PhProtectiveOffline"
          "fst (snd (snd (life_request l ?q))) = Some ProcessRestart"
          by (simp_all add: l interrupted_def)
        ultimately show ?thesis using eff True
          by (simp del: split_paired_Ex) (rule exI [of _ "life_request l ?q"], simp)
      qed
    qed
  qed
qed

text \<open>
  Opening a fresh file: nothing happens to it, or it gets its schema. The schema stays when the query of
  the recovery fails, which is then the error.
\<close>

lemma store_open_empty:
  assumes "store_open oo i now empty_db = (res, db')"
  shows "(\<exists>e. res = Inl e \<and> db' = empty_db) \<or>
    (unat now < 2 ^ 63 \<and> (res = Inr \<lparr>as_local_id = i, as_connection = db'\<rparr> \<or> (\<exists>e. res = Inl e)) \<and>
     db_at db' (unat now) (PhStopped, 0, None, unat now))"
proof (cases "oo_file oo = None \<and> io_ok (oo_migrate oo) \<and> unat now < 2 ^ 63")
  case True
  let ?db = "empty_db\<lparr>account_state := Some (state_row PhStopped 0 None (int (unat now))),
    account_transitions := [], user_version := 1\<rparr>"
  have at: "db_at ?db (unat now) (PhStopped, 0, None, unat now)"
    using True by (simp add: db_at_def replays_start)
  have mig: "migrate (oo_migrate oo) now empty_db = Inr ?db"
    using True by (simp add: migrate_def create_schema_def empty_db_def to_i64_def SCHEMA_VERSION_def io_ok_def)
  have "store_snapshot True \<lparr>as_local_id = i, as_connection = ?db\<rparr> =
      Inr (life_snapshot i (PhStopped, 0, None, unat now))"
    using store_snapshot_at [of "\<lparr>as_local_id = i, as_connection = ?db\<rparr>"] at by simp
  then have "store_open oo i now empty_db =
      (if oo_recover_read oo then Inr \<lparr>as_local_id = i, as_connection = ?db\<rparr> else Inl Persistence, ?db)"
    using True mig by (simp add: store_open_def recover_interrupted_def)
  with assms at True show ?thesis by (auto split: if_splits)
next
  case False
  then have "\<exists>e. store_open oo i now empty_db = (Inl e, empty_db)"
    by (cases "oo_file oo")
      (auto simp: store_open_def migrate_def create_schema_def empty_db_def to_i64_def SCHEMA_VERSION_def io_ok_def)
  with assms show ?thesis by auto
qed

section \<open>The life of a database file\<close>

text \<open>Process runs: opening the file, and transitions through an open store.\<close>

datatype account_call =
    OpenStore open_outcome account_local_id u64
  | Transition sqlite_outcome account_transition

fun account_run :: "account_store option \<times> account_db \<Rightarrow> account_call \<Rightarrow> account_store option \<times> account_db" where
  "account_run (open_store, db) (OpenStore oo i now) =
     (case store_open oo i now db of
        (Inl e, db') \<Rightarrow> (None, db')
      | (Inr s, db') \<Rightarrow> (Some s, db'))"
| "account_run (None, db) (Transition io q) = (None, db)"
| "account_run (Some s, db) (Transition io q) =
     (case store_transition io q s of (r, s') \<Rightarrow> (Some s', as_connection s'))"

definition db_ok :: "account_db \<Rightarrow> bool" where
  "db_ok db \<longleftrightarrow> (\<exists>t0 l. db_at db t0 l)"

lemma db_okI: "db_at db t0 l \<Longrightarrow> db_ok db"
  unfolding db_ok_def by blast

definition account_inv :: "account_store option \<times> account_db \<Rightarrow> bool" where
  "account_inv sd \<longleftrightarrow>
     (case sd of
        (None, db) \<Rightarrow> db = empty_db \<or> db_ok db
      | (Some s, db) \<Rightarrow> as_connection s = db \<and> db_ok db)"

lemma store_open_ok:
  assumes "db = empty_db \<or> db_ok db" "store_open oo i now db = (res, db')"
  shows "case res of Inl e \<Rightarrow> db' = empty_db \<or> db_ok db' | Inr s \<Rightarrow> as_connection s = db' \<and> db_ok db'"
proof (cases "db = empty_db")
  case True
  with store_open_empty [of oo i now res db'] assms(2) show ?thesis by (auto intro: db_okI)
next
  case False
  with assms(1) obtain t0 l where "db_at db t0 l" by (auto simp: db_ok_def simp del: split_paired_Ex)
  from store_open_at [OF this assms(2)] this show ?thesis
    by (cases res) (auto simp del: split_paired_Ex intro: db_okI)
qed

lemma account_run_inv:
  assumes "account_inv sd"
  shows "account_inv (account_run sd c)"
proof -
  obtain open_store db where sd: "sd = (open_store, db)" by (cases sd)
  show ?thesis
  proof (cases c)
    case (OpenStore oo i now)
    obtain res db' where run: "store_open oo i now db = (res, db')" by fastforce
    have "db = empty_db \<or> db_ok db" using assms sd by (auto simp: account_inv_def split: option.splits)
    from store_open_ok [OF this run] run OpenStore sd show ?thesis
      by (cases res) (auto simp: account_inv_def)
  next
    case (Transition io q)
    show ?thesis
    proof (cases open_store)
      case None
      with assms sd Transition show ?thesis by simp
    next
      case (Some s)
      with assms sd obtain t0 l where at: "db_at (as_connection s) t0 l"
        by (auto simp: account_inv_def db_ok_def simp del: split_paired_Ex)
      obtain res s' where run: "store_transition io q s = (res, s')" by fastforce
      from store_transition_at [OF at run] at have "db_ok (as_connection s')"
        by (cases res) (auto intro: db_okI)
      with run Some sd Transition show ?thesis by (auto simp: account_inv_def)
    qed
  qed
qed

interpretation account: machine account_run account_inv
  by unfold_locales (rule account_run_inv)

lemma replays_generations:
  "replays a js c \<Longrightarrow> a = (PhStopped, 0, None, t0) \<Longrightarrow>
   map jr_generation (filter (\<lambda>j. jr_to_phase j = 1) js) = map int [1..<Suc (fst (snd c))]"
proof (induction rule: replays.induct)
  case (replays_start a)
  then show ?case by simp
next
  case (replays_step a js b c)
  obtain p g r t where b: "b = (p, g, r, t)" by (cases b)
  obtain p' g' r' t' where c: "c = (p', g', r', t')" by (cases c)
  have "int (phase_code p') = 1 \<longleftrightarrow> p' = PhStarting" by (cases p') simp_all
  with replays_step b c show ?case by auto
qed

lemma replays_times:
  "replays a js c \<Longrightarrow> sorted_wrt (\<le>) (map jr_occurred_at_ms js @ [int (snd (snd (snd c)))]) \<and>
   (\<forall>j \<in> set js. jr_occurred_at_ms j \<le> int (snd (snd (snd c))))"
proof (induction rule: replays.induct)
  case (replays_start a)
  then show ?case by simp
next
  case (replays_step a js b c)
  obtain p g r t where b: "b = (p, g, r, t)" by (cases b)
  obtain p' g' r' t' where c: "c = (p', g', r', t')" by (cases c)
  from replays_step b c show ?case by (force simp: sorted_wrt_append)
qed

lemma db_ok_journal:
  assumes "db_ok db"
  shows "\<exists>t0 p g r t. user_version db = 1 \<and>
      account_state db = Some (state_row p (int g) r (int t)) \<and>
      replays (PhStopped, 0, None, t0) (account_transitions db) (p, g, r, t) \<and>
      map jr_generation (filter (\<lambda>j. jr_to_phase j = 1) (account_transitions db)) = map int [1..<Suc g] \<and>
      sorted_wrt (\<le>) (map jr_occurred_at_ms (account_transitions db) @ [int t]) \<and>
      g < 2 ^ 63 \<and> t < 2 ^ 63 \<and> (p = PhProtectiveOffline) = (r \<noteq> None)"
proof -
  from assms obtain t0 p g r t where at: "db_at db t0 (p, g, r, t)" unfolding db_ok_def by auto
  then have run: "replays (PhStopped, 0, None, t0) (account_transitions db) (p, g, r, t)"
    by (simp add: db_at_def)
  show ?thesis
    by (intro exI [of _ t0] exI [of _ p] exI [of _ g] exI [of _ r] exI [of _ t])
      (use at run replays_generations [OF run refl] replays_times [OF run] in \<open>simp add: db_at_def\<close>)
qed

lemma reachable_db:
  "snd (foldl account_run (None, empty_db) calls) = empty_db \<or>
   db_ok (snd (foldl account_run (None, empty_db) calls))"
proof -
  let ?final = "foldl account_run (None, empty_db) calls"
  have "account_inv ?final" by (rule account.run_inv) (simp add: account_inv_def)
  then show ?thesis by (cases ?final) (auto simp: account_inv_def split: option.splits)
qed

text \<open>
  C4: Over every sequence of process runs (opening the database and lifecycle transitions, valid or not,
  with SQLite failing or not at each query, at the opening of each transaction and in it) the database of an account stays empty or keeps an exact
  journal: the recorded transitions are a run of the lifecycle automaton from \<open>Stopped\<close> generation
  0 to the row in \<open>account_state\<close>, each start has the next generation number (1, 2, 3, ... with no
  gap or repetition), times never go backwards, and a reason is stored exactly in
  \<open>ProtectiveOffline\<close>.
\<close>

theorem account_journal_replays:
  "let db = snd (foldl account_run (None, empty_db) calls) in
   db = empty_db \<or>
   (\<exists>t0 p g r t. account_state db = Some (state_row p (int g) r (int t)) \<and>
      replays (PhStopped, 0, None, t0) (account_transitions db) (p, g, r, t) \<and>
      map jr_generation (filter (\<lambda>j. jr_to_phase j = 1) (account_transitions db)) = map int [1..<Suc g] \<and>
      sorted_wrt (\<le>) (map jr_occurred_at_ms (account_transitions db) @ [int t]) \<and>
      (p = PhProtectiveOffline) = (r \<noteq> None))"
  using reachable_db [of calls] db_ok_journal unfolding Let_def by blast

lemma store_open_succeeds:
  assumes db: "db = empty_db \<or> db_ok db" and now: "unat now < 2 ^ 63"
  shows "\<exists>s db' l t0. store_open opening_works i now db = (Inr s, db') \<and> as_local_id s = i \<and> as_connection s = db' \<and>
    db_at db' t0 l \<and> \<not> interrupted l"
proof (cases "db = empty_db")
  case True
  have "\<not> (\<exists>e. fst (store_open opening_works i now empty_db) = Inl e)"
    using now by (auto simp: opening_works_def store_open_def migrate_def create_schema_def empty_db_def to_i64_def
        SCHEMA_VERSION_def recover_interrupted_def store_snapshot_def state_row_def get_u8_def get_opt_u8_def
        reason_int_def phase_from_stored_def u64_try_from_def validate_reason_def)
  with store_open_empty [of opening_works i now] True show ?thesis
    by (cases "store_open opening_works i now empty_db")
      (auto simp: interrupted_def simp del: split_paired_Ex
        intro!: exI [of _ "(PhStopped, 0, None, unat now)"])
next
  case False
  with db obtain t0 l where at: "db_at db t0 l" by (auto simp: db_ok_def simp del: split_paired_Ex)
  obtain p g r t where l: "l = (p, g, r, t)" by (cases l)
  let ?s = "\<lparr>as_local_id = i, as_connection = db\<rparr>"
  let ?q = "\<lparr>tr_next = PhProtectiveOffline, tr_reason = Some ProcessRestart,
      tr_occurred_at_ms = max now (of_nat t)\<rparr>"
  have "unat (of_nat t :: u64) = t" "t < 2 ^ 63" using at l by (simp_all add: db_at_def u64_small)
  then have t: "t \<le> unat (max now (of_nat t))" "unat (max now (of_nat t)) < 2 ^ 63"
    using now by (auto simp: max_def word_le_nat_alt)
  have "\<exists>s. store_open opening_works i now db = (Inr s, as_connection s)"
  proof (cases "interrupted l")
    case True
    have "life_step l (life_request l ?q)" "life_ok (life_request l ?q)"
      using True t l at by (auto simp: interrupted_def phase_change_allowed_def db_at_def)
    with store_transition_accepts [of ?s t0 l ?q sqlite_works] at
    obtain receipt s' where "store_transition sqlite_works ?q ?s = (Inr receipt, s')" by auto
    moreover have "migrate sqlite_works now db = Inr db" using at by (simp add: migrate_def db_at_def SCHEMA_VERSION_def)
    moreover have "store_snapshot True ?s = Inr (life_snapshot i l)" using store_snapshot_at [of ?s] at by simp
    ultimately show ?thesis
      using True l by (auto simp: opening_works_def store_open_def recover_interrupted_def interrupted_def bindS_def retS_def)
  next
    case False
    moreover have "migrate sqlite_works now db = Inr db" using at by (simp add: migrate_def db_at_def SCHEMA_VERSION_def)
    moreover have "store_snapshot True ?s = Inr (life_snapshot i l)" using store_snapshot_at [of ?s] at by simp
    ultimately show ?thesis
      using l by (auto simp: opening_works_def store_open_def recover_interrupted_def interrupted_def)
  qed
  then obtain s where run: "store_open opening_works i now db = (Inr s, as_connection s)" ..
  from store_open_at [OF at this] have "as_local_id s = i" "\<exists>l'. db_at (as_connection s) t0 l' \<and> \<not> interrupted l'"
    by (auto simp del: split_paired_Ex)
  then show ?thesis using run by (auto simp del: split_paired_Ex)
qed

text \<open>
  C17: A restart never resumes a half-finished run. Whatever happened to the database before, opening
  it with a working SQLite (and a clock below 2^63 ms) succeeds, and the account is then in
  \<open>Stopped\<close> or \<open>ProtectiveOffline\<close>, the phases from which only an explicit start leads on; a phase
  that was \<open>Starting\<close> or \<open>Active\<close> has become \<open>ProtectiveOffline\<close> for \<open>ProcessRestart\<close> in the same
  generation.
\<close>

theorem account_reopen_closes_interrupted:
  assumes "db = snd (foldl account_run (None, empty_db) calls)" "unat now < 2 ^ 63"
  shows "\<exists>s db' snapshot. store_open opening_works i now db = (Inr s, db') \<and> as_connection s = db' \<and>
      store_snapshot True s = Inr snapshot \<and> sn_local_id snapshot = i \<and>
      (sn_phase snapshot = PhStopped \<or> sn_phase snapshot = PhProtectiveOffline) \<and>
      (\<forall>before. store_snapshot True \<lparr>as_local_id = i, as_connection = db\<rparr> = Inr before \<longrightarrow>
         (if sn_phase before = PhStarting \<or> sn_phase before = PhActive
          then sn_phase snapshot = PhProtectiveOffline \<and> sn_reason snapshot = Some ProcessRestart \<and>
               sn_generation snapshot = sn_generation before
          else snapshot = before))"
proof -
  let ?s0 = "\<lparr>as_local_id = i, as_connection = db\<rparr>"
  have db: "db = empty_db \<or> db_ok db" unfolding assms(1) by (rule reachable_db)
  from store_open_succeeds [OF this assms(2), of i] obtain s db' l t0 where
    run: "store_open opening_works i now db = (Inr s, db')" and s: "as_local_id s = i" "as_connection s = db'"
    and at: "db_at db' t0 l" and stopped: "\<not> interrupted l" by blast
  obtain p g r t where l: "l = (p, g, r, t)" by (cases l)
  have snap: "store_snapshot True s = Inr (life_snapshot i l)" using store_snapshot_at [of s t0 l] s at by simp
  have phase: "sn_phase (life_snapshot i l) = PhStopped \<or> sn_phase (life_snapshot i l) = PhProtectiveOffline"
    using stopped l by (cases p) (auto simp: interrupted_def)
  have old: "if sn_phase before = PhStarting \<or> sn_phase before = PhActive
      then sn_phase (life_snapshot i l) = PhProtectiveOffline \<and>
        sn_reason (life_snapshot i l) = Some ProcessRestart \<and>
        sn_generation (life_snapshot i l) = sn_generation before
      else life_snapshot i l = before" if before: "store_snapshot True ?s0 = Inr before" for before
  proof -
    from before have "db \<noteq> empty_db" by (auto simp: empty_db_def store_snapshot_def)
    with db obtain t1 l1 where at1: "db_at db t1 l1" by (auto simp: db_ok_def simp del: split_paired_Ex)
    obtain p1 g1 r1 x1 where l1: "l1 = (p1, g1, r1, x1)" by (cases l1)
    have before1: "before = life_snapshot i l1" using before store_snapshot_at [of ?s0 t1 l1] at1 by simp
    from store_open_at [OF at1 run] obtain l' where at': "db_at db' t1 l'"
      and eff: "if interrupted l1 then fst (snd l') = fst (snd l1) \<and> fst l' = PhProtectiveOffline \<and>
          fst (snd (snd l')) = Some ProcessRestart else l' = l1"
      by (auto simp del: split_paired_Ex split: if_splits)
    have "life_snapshot i l' = life_snapshot i l"
      using snap s store_snapshot_at [of s t1 l'] at' by simp
    with eff before1 l l1 show ?thesis by (cases l') (auto simp: interrupted_def split: if_splits)
  qed
  show ?thesis
  proof (intro exI [of _ s] exI [of _ db'] exI [of _ "life_snapshot i l"] conjI allI impI)
    show "sn_local_id (life_snapshot i l) = i" by (simp add: l)
  qed (rule run s snap phase old; assumption)+
qed

theorem account_reopen_closes_interrupted_witness:
  "\<exists>s db' snapshot.
     store_open opening_works (AccountLocalId [1]) 9 (snd (foldl account_run (None, empty_db)
       [OpenStore opening_works (AccountLocalId [1]) 5, Transition sqlite_works \<lparr>tr_next = PhStarting, tr_reason = None, tr_occurred_at_ms = 7\<rparr>]))
     = (Inr s, db') \<and> store_snapshot True s = Inr snapshot \<and>
     (sn_phase snapshot = PhStopped \<or> sn_phase snapshot = PhProtectiveOffline)"
  using account_reopen_closes_interrupted
    [OF refl, of 9 "AccountLocalId [1]" "[OpenStore opening_works (AccountLocalId [1]) 5,
      Transition sqlite_works \<lparr>tr_next = PhStarting, tr_reason = None, tr_occurred_at_ms = 7\<rparr>]"]
  by auto

text \<open>The same, stated over the snapshots a caller sees.\<close>

lemma transition_effect:
  assumes at: "db_at (as_connection s) t0 l"
  shows "case store_transition io q s of
       (Inl e, s') \<Rightarrow> s' = s
     | (Inr receipt, s') \<Rightarrow> rc_previous receipt = life_snapshot (as_local_id s) l \<and>
         store_snapshot True s' = Inr (rc_current receipt) \<and>
         sn_phase (rc_current receipt) = tr_next q \<and> sn_reason (rc_current receipt) = tr_reason q \<and>
         sn_updated_at_ms (rc_current receipt) = tr_occurred_at_ms q \<and>
         sn_generation (rc_current receipt) = sn_generation (life_snapshot (as_local_id s) l) +
           (if tr_next q = PhStarting then 1 else 0) \<and>
         account_transitions (as_connection s') = account_transitions (as_connection s) @
           [\<lparr>jr_generation = uint (sn_generation (rc_current receipt)),
             jr_from_phase = int (phase_code (sn_phase (life_snapshot (as_local_id s) l))),
             jr_to_phase = int (phase_code (tr_next q)),
             jr_reason = reason_int (tr_reason q), jr_occurred_at_ms = uint (tr_occurred_at_ms q)\<rparr>]"
proof -
  obtain p g r t where l: "l = (p, g, r, t)" by (cases l)
  obtain res s' where run: "store_transition io q s = (res, s')" by fastforce
  show ?thesis
  proof (cases res)
    case (Inl e)
    with store_transition_at [OF at run] run show ?thesis by simp
  next
    case (Inr receipt)
    with store_transition_at [OF at run] have eff:
      "receipt = \<lparr>rc_previous = life_snapshot (as_local_id s) l,
                  rc_current = life_snapshot (as_local_id s) (life_request l q)\<rparr>"
      "as_local_id s' = as_local_id s" "db_at (as_connection s') t0 (life_request l q)"
      "account_transitions (as_connection s') =
        account_transitions (as_connection s) @ [life_entry l (life_request l q)]" by simp_all
    have "unat (of_nat (if tr_next q = PhStarting then g + 1 else g) :: u64) =
        (if tr_next q = PhStarting then g + 1 else g)"
      using eff(3) l by (intro u64_small) (simp add: db_at_def)
    then have "uint (of_nat (if tr_next q = PhStarting then g + 1 else g) :: u64) =
        int (if tr_next q = PhStarting then g + 1 else g)"
      by (simp only: uint_nat)
    then show ?thesis
      using eff store_snapshot_at [OF eff(3)] l run Inr
      by (simp del: of_nat_Suc add: add.commute split del: if_split) simp
  qed
qed

lemma transition_gate:
  assumes at: "db_at (as_connection s) t0 l"
  shows "(\<exists>receipt s'. store_transition io q s = (Inr receipt, s')) \<longleftrightarrow>
     io_ok io \<and> phase_change_allowed (sn_phase (life_snapshot (as_local_id s) l)) (tr_next q) \<and>
     (tr_next q = PhProtectiveOffline) = (tr_reason q \<noteq> None) \<and>
     sn_updated_at_ms (life_snapshot (as_local_id s) l) \<le> tr_occurred_at_ms q \<and>
     unat (tr_occurred_at_ms q) < 2 ^ 63 \<and>
     unat (sn_generation (life_snapshot (as_local_id s) l)) + (if tr_next q = PhStarting then 1 else 0) < 2 ^ 63"
  (is "?run \<longleftrightarrow> io_ok io \<and> ?gate")
proof -
  obtain p g r t where l: "l = (p, g, r, t)" by (cases l)
  have "unat (of_nat g :: u64) = g" "unat (of_nat t :: u64) = t"
    using at l by (simp_all add: db_at_def u64_small)
  then have gate: "?gate \<longleftrightarrow> life_step l (life_request l q) \<and> life_ok (life_request l q)"
    using l by (auto simp: word_le_nat_alt)
  show ?thesis
  proof
    assume ?run
    then obtain receipt s' where "store_transition io q s = (Inr receipt, s')" by blast
    from store_transition_at [OF at this] gate show "io_ok io \<and> ?gate" by simp
  next
    assume "io_ok io \<and> ?gate"
    with gate store_transition_accepts [OF at] show ?run by auto
  qed
qed

text \<open>
  C18: The lifecycle gate is exact. On any database that runs have produced, a transition is recorded
  if and only if SQLite carries it out and it is a step of the lifecycle automaton (allowed phase
  pair, a reason exactly for \<open>ProtectiveOffline\<close>, no time going back) whose numbers fit SQLite's
  integers; it then appends exactly its own journal row and the receipt names the state before and
  after. A refused transition changes nothing.
\<close>

theorem account_transition_exact:
  assumes "foldl account_run (None, empty_db) calls = (Some s, db)"
  shows "\<exists>before. store_snapshot True s = Inr before \<and>
    (case store_transition io q s of
       (Inl e, s') \<Rightarrow> s' = s
     | (Inr receipt, s') \<Rightarrow> rc_previous receipt = before \<and> store_snapshot True s' = Inr (rc_current receipt) \<and>
         sn_phase (rc_current receipt) = tr_next q \<and> sn_reason (rc_current receipt) = tr_reason q \<and>
         sn_updated_at_ms (rc_current receipt) = tr_occurred_at_ms q \<and>
         sn_generation (rc_current receipt) = sn_generation before + (if tr_next q = PhStarting then 1 else 0) \<and>
         account_transitions (as_connection s') = account_transitions (as_connection s) @
           [\<lparr>jr_generation = uint (sn_generation (rc_current receipt)),
             jr_from_phase = int (phase_code (sn_phase before)), jr_to_phase = int (phase_code (tr_next q)),
             jr_reason = reason_int (tr_reason q), jr_occurred_at_ms = uint (tr_occurred_at_ms q)\<rparr>]) \<and>
    ((\<exists>receipt s'. store_transition io q s = (Inr receipt, s')) \<longleftrightarrow>
       io_ok io \<and> phase_change_allowed (sn_phase before) (tr_next q) \<and>
       (tr_next q = PhProtectiveOffline) = (tr_reason q \<noteq> None) \<and>
       sn_updated_at_ms before \<le> tr_occurred_at_ms q \<and> unat (tr_occurred_at_ms q) < 2 ^ 63 \<and>
       unat (sn_generation before) + (if tr_next q = PhStarting then 1 else 0) < 2 ^ 63)"
proof -
  have "account_inv (foldl account_run (None, empty_db) calls)"
    by (rule account.run_inv) (simp add: account_inv_def)
  then obtain t0 l where at: "db_at (as_connection s) t0 l"
    using assms by (auto simp: account_inv_def db_ok_def simp del: split_paired_Ex)
  show ?thesis
  proof (intro exI [of _ "life_snapshot (as_local_id s) l"] conjI)
    show "store_snapshot True s = Inr (life_snapshot (as_local_id s) l)" using at by (rule store_snapshot_at)
  qed (rule transition_effect [OF at] transition_gate [OF at])+
qed

definition example_store :: account_store where
  "example_store = \<lparr>as_local_id = AccountLocalId [1],
     as_connection = \<lparr>user_version = 1, account_state = Some (state_row PhStopped 0 None 5),
       account_transitions = []\<rparr>\<rparr>"

theorem account_transition_exact_witness:
  "\<exists>receipt s'. store_transition sqlite_works
     \<lparr>tr_next = PhStarting, tr_reason = None, tr_occurred_at_ms = 7\<rparr> example_store = (Inr receipt, s')"
proof -
  have "foldl account_run (None, empty_db) [OpenStore opening_works (AccountLocalId [1]) 5] =
      (Some example_store, as_connection example_store)"
    by (simp add: opening_works_def store_open_def migrate_def create_schema_def empty_db_def to_i64_def SCHEMA_VERSION_def
        recover_interrupted_def store_snapshot_def state_row_def get_u8_def get_opt_u8_def reason_int_def
        phase_from_stored_def u64_try_from_def validate_reason_def example_store_def)
  from account_transition_exact [OF this, where io = sqlite_works
      and q = "\<lparr>tr_next = PhStarting, tr_reason = None, tr_occurred_at_ms = 7\<rparr>"]
  obtain before where snap: "store_snapshot True example_store = Inr before"
    and gate: "(\<exists>receipt s'. store_transition sqlite_works
        \<lparr>tr_next = PhStarting, tr_reason = None, tr_occurred_at_ms = 7\<rparr> example_store = (Inr receipt, s')) \<longleftrightarrow>
      phase_change_allowed (sn_phase before) PhStarting \<and> sn_updated_at_ms before \<le> 7 \<and>
      unat (sn_generation before) + 1 < 2 ^ 63"
    by auto
  have "before = \<lparr>sn_local_id = AccountLocalId [1], sn_phase = PhStopped, sn_generation = 0,
      sn_reason = None, sn_updated_at_ms = 5\<rparr>"
    using snap by (simp add: example_store_def store_snapshot_def state_row_def get_u8_def get_opt_u8_def
        reason_int_def phase_from_stored_def u64_try_from_def validate_reason_def)
  then show ?thesis using gate by (simp add: phase_change_allowed_def)
qed

end
