(* ===== verification/Grants.thy ===== *)
theory Grants
  imports Account
begin

text \<open>
  The installation-wide grant planner of \<open>crates/account-runtime/src/grant.rs\<close>. Requests arrive as
  the list the iterator yields; the maps and sets are those of the theory \<open>Btree\<close>. \<open>usize\<close> holds
  every \<open>u32\<close>, so \<open>max_accounts as usize\<close> is its value.
\<close>

section \<open>Requests, availability and plans\<close>

datatype account_grant_mode = ModePublic | RequireGrant | AllowPublicFallback

record account_grant_request =
  gr_local_id :: account_local_id
  gr_mode :: account_grant_mode

datatype grant_availability = PublicOnly | BoundedFull u32 | UnboundedFull

datatype assigned_realm = Public | Full

record grant_plan =
  assignments :: "(account_local_id, assigned_realm) btree_map"
  public_fallbacks :: "account_local_id list"

datatype grant_plan_error =
    GrantDuplicateAccount account_local_id
  | GrantRequired "account_local_id list"
  | FullQuotaExceeded u32 "account_local_id list"

definition assigned_realm_of :: "grant_plan \<Rightarrow> account_local_id \<Rightarrow> assigned_realm option" where
  "assigned_realm_of plan local_id = btree_get (assignments plan) local_id"

definition protective_offline_on_revocation :: "grant_plan \<Rightarrow> account_local_id list" where
  "protective_offline_on_revocation plan = btree_set_of (keys_where (\<lambda>realm. realm = Full) (assignments plan))"

section \<open>Planning\<close>

text \<open>The loop of \<open>collect_unique\<close>: \<open>BTreeMap::insert\<close> returns the value the key had.\<close>

fun collect_unique_loop ::
  "account_grant_request list \<Rightarrow> (account_local_id, account_grant_mode) btree_map \<Rightarrow>
   grant_plan_error + (account_local_id, account_grant_mode) btree_map" where
  "collect_unique_loop [] unique = Inr unique"
| "collect_unique_loop (request # rest) unique =
     (if btree_get unique (gr_local_id request) \<noteq> None
      then Inl (GrantDuplicateAccount (gr_local_id request))
      else collect_unique_loop rest (btree_insert (gr_local_id request) (gr_mode request) unique))"

definition collect_unique ::
  "account_grant_request list \<Rightarrow> grant_plan_error + (account_local_id, account_grant_mode) btree_map" where
  "collect_unique requests = collect_unique_loop requests []"

definition plan_public_only ::
  "(account_local_id, account_grant_mode) btree_map \<Rightarrow> grant_plan_error + grant_plan" where
  "plan_public_only requests =
     (let required = btree_set_of (keys_where (\<lambda>mode. mode = RequireGrant) requests) in
      if required \<noteq> [] then Inl (GrantRequired required)
      else Inr \<lparr>assignments = btree_of (map (\<lambda>local_id. (local_id, Public)) (btree_keys requests)),
                public_fallbacks = btree_set_of (keys_where (\<lambda>mode. mode = AllowPublicFallback) requests)\<rparr>)"

fun realm_with_full :: "account_grant_mode \<Rightarrow> assigned_realm" where
  "realm_with_full ModePublic = Public"
| "realm_with_full RequireGrant = Full"
| "realm_with_full AllowPublicFallback = Full"

definition plan_with_full :: "(account_local_id, account_grant_mode) btree_map \<Rightarrow> grant_plan" where
  "plan_with_full requests =
     \<lparr>assignments = btree_of (map (\<lambda>(local_id, mode). (local_id, realm_with_full mode)) requests),
      public_fallbacks = btree_set_of []\<rparr>"

definition plan_account_grants ::
  "account_grant_request list \<Rightarrow> grant_availability \<Rightarrow> grant_plan_error + grant_plan" where
  "plan_account_grants requests availability =
     bindE (collect_unique requests) (\<lambda>requests.
     let full_candidates = btree_set_of (keys_where (\<lambda>mode. mode \<noteq> ModePublic) requests) in
     case availability of
       PublicOnly \<Rightarrow> plan_public_only requests
     | BoundedFull max_accounts \<Rightarrow>
         if unat max_accounts < length full_candidates
         then Inl (FullQuotaExceeded max_accounts full_candidates)
         else Inr (plan_with_full requests)
     | UnboundedFull \<Rightarrow> Inr (plan_with_full requests))"

section \<open>What a plan grants\<close>

abbreviation request_pairs :: "account_grant_request list \<Rightarrow> (account_local_id \<times> account_grant_mode) list" where
  "request_pairs requests \<equiv> map (\<lambda>r. (gr_local_id r, gr_mode r)) requests"

text \<open>The mode an account asked for, in a list that names it once.\<close>

definition asked :: "account_grant_request list \<Rightarrow> account_local_id \<Rightarrow> account_grant_mode option" where
  "asked requests i = map_of (request_pairs requests) i"

definition wants_full :: "account_grant_request list \<Rightarrow> account_local_id \<Rightarrow> bool" where
  "wants_full requests i \<longleftrightarrow> (\<exists>mode. asked requests i = Some mode \<and> mode \<noteq> ModePublic)"

lemma collect_unique_loop_Inr:
  "btree_ok m \<Longrightarrow> collect_unique_loop rs m = Inr u \<Longrightarrow>
   btree_ok u \<and> distinct (map gr_local_id rs) \<and> (\<forall>i \<in> set (map gr_local_id rs). btree_get m i = None) \<and>
   (\<forall>i. btree_get u i = (case asked rs i of None \<Rightarrow> btree_get m i | Some mode \<Rightarrow> Some mode))"
proof (induction rs arbitrary: m)
  case Nil
  then show ?case by (simp add: asked_def)
next
  case (Cons r rs)
  then have fresh: "btree_get m (gr_local_id r) = None"
    and rest: "collect_unique_loop rs (btree_insert (gr_local_id r) (gr_mode r) m) = Inr u"
    by (auto split: if_splits)
  note IH = Cons.IH [OF btree.inv_insert [OF Cons.prems(1)] rest]
  from IH Cons.prems(1) have new: "gr_local_id r \<notin> set (map gr_local_id rs)"
    by (force simp: btree_get_insert)
  then have "asked rs (gr_local_id r) = None"
    by (auto simp: asked_def map_of_eq_None_iff)
  with IH fresh new Cons.prems(1) show ?case
    by (auto simp: asked_def btree_get_insert split: option.splits if_splits)
qed

lemma collect_unique_loop_Inl:
  "btree_ok m \<Longrightarrow> collect_unique_loop rs m = Inl e \<Longrightarrow>
   \<exists>pre r post. rs = pre @ r # post \<and> e = GrantDuplicateAccount (gr_local_id r) \<and> distinct (map gr_local_id pre) \<and>
     (gr_local_id r \<in> gr_local_id ` set pre \<or> btree_get m (gr_local_id r) \<noteq> None) \<and>
     (\<forall>i \<in> gr_local_id ` set pre. btree_get m i = None)"
proof (induction rs arbitrary: m)
  case Nil
  then show ?case by simp
next
  case (Cons r rs)
  show ?case
  proof (cases "btree_get m (gr_local_id r) = None")
    case True
    with Cons.prems have "collect_unique_loop rs (btree_insert (gr_local_id r) (gr_mode r) m) = Inl e" by simp
    from Cons.IH [OF btree.inv_insert [OF Cons.prems(1)] this] obtain pre r' post where split:
      "rs = pre @ r' # post" "e = GrantDuplicateAccount (gr_local_id r')" "distinct (map gr_local_id pre)"
      and seen: "gr_local_id r' \<in> gr_local_id ` set pre \<or>
        btree_get (btree_insert (gr_local_id r) (gr_mode r) m) (gr_local_id r') \<noteq> None"
      and new: "\<forall>i \<in> gr_local_id ` set pre. btree_get (btree_insert (gr_local_id r) (gr_mode r) m) i = None"
      by blast
    have "\<forall>i \<in> gr_local_id ` set pre. i \<noteq> gr_local_id r \<and> btree_get m i = None"
      using new Cons.prems(1) by (metis btree_get_insert option.distinct(1))
    moreover have "gr_local_id r' \<in> gr_local_id ` set pre \<or> gr_local_id r' = gr_local_id r \<or>
        btree_get m (gr_local_id r') \<noteq> None"
      using seen Cons.prems(1) by (metis btree_get_insert)
    ultimately show ?thesis
      using split True by (intro exI [of _ "r # pre"] exI [of _ r'] exI [of _ post]) auto
  next
    case False
    with Cons.prems show ?thesis
      by (intro exI [of _ "[]"] exI [of _ r] exI [of _ rs]) auto
  qed
qed

lemma collect_unique_Inr:
  assumes "collect_unique rs = Inr u"
  shows "btree_ok u" "distinct (map gr_local_id rs)" "btree_get u i = asked rs i"
  using collect_unique_loop_Inr [of "[]" rs u] assms
  by (auto simp: collect_unique_def btree.inv_empty btree_get_def split: option.splits)

lemma collect_unique_cases:
  "(distinct (map gr_local_id rs) \<and> (\<exists>u. collect_unique rs = Inr u)) \<or>
   (\<exists>pre r post. collect_unique rs = Inl (GrantDuplicateAccount (gr_local_id r)) \<and> rs = pre @ r # post \<and>
     distinct (map gr_local_id pre) \<and> gr_local_id r \<in> gr_local_id ` set pre)"
proof (cases "collect_unique rs")
  case (Inl e)
  from collect_unique_loop_Inl [of "[]" rs e] Inl show ?thesis
    by (auto simp: collect_unique_def btree.inv_empty btree_get_def)
next
  case (Inr u)
  with collect_unique_Inr(2) show ?thesis by blast
qed

lemma asked_distinct:
  "distinct (map gr_local_id rs) \<Longrightarrow> asked rs i = Some mode \<longleftrightarrow> (\<exists>r \<in> set rs. gr_local_id r = i \<and> gr_mode r = mode)"
  by (auto simp: asked_def map_of_eq_Some_iff comp_def image_iff)

lemma keys_where_asked:
  assumes "collect_unique rs = Inr u"
  shows "set (keys_where P u) = {i. \<exists>mode. asked rs i = Some mode \<and> P mode}"
  using collect_unique_Inr [OF assms] by (simp add: set_keys_where)

lemma length_keys_where_asked:
  assumes "collect_unique rs = Inr u"
  shows "length (btree_set_of (keys_where P u)) = card {i. \<exists>mode. asked rs i = Some mode \<and> P mode}"
  by (simp add: length_btree_set_of keys_where_asked [OF assms])

lemma plan_with_full_realm:
  assumes "collect_unique rs = Inr u"
  shows "assigned_realm_of (plan_with_full u) i = map_option realm_with_full (asked rs i)"
proof -
  have "distinct (map fst u)"
    using collect_unique_Inr(1) [OF assms] by (simp add: btree_ok_def strict_sorted_iff)
  then have "assigned_realm_of (plan_with_full u) i = map_of (map (\<lambda>(k, v). (k, realm_with_full v)) u) i"
    by (simp add: assigned_realm_of_def plan_with_full_def btree_get_of case_prod_unfold comp_def)
  also have "\<dots> = map_option realm_with_full (btree_get u i)"
    by (simp add: map_of_map btree_get_def)
  finally show ?thesis using collect_unique_Inr(3) [OF assms] by simp
qed

lemma plan_public_only_realm:
  assumes "collect_unique rs = Inr u" "plan_public_only u = Inr plan"
  shows "assigned_realm_of plan i = map_option (\<lambda>_. Public) (asked rs i)"
proof -
  have "distinct (map fst u)"
    using collect_unique_Inr(1) [OF assms(1)] by (simp add: btree_ok_def strict_sorted_iff)
  then have "assigned_realm_of plan i = map_of (map (\<lambda>k. (k, Public)) (map fst u)) i"
    using assms(2) by (auto simp: assigned_realm_of_def plan_public_only_def Let_def btree_get_of comp_def
        btree_keys_def split: if_splits)
  also have "\<dots> = map_option (\<lambda>_. Public) (btree_get u i)"
    by (induction u) (auto simp: btree_get_def)
  finally show ?thesis using collect_unique_Inr(3) [OF assms(1)] by simp
qed

lemma set_protective_offline:
  "btree_ok (assignments plan) \<Longrightarrow>
   set (protective_offline_on_revocation plan) = {i. assigned_realm_of plan i = Some Full}"
  by (simp add: protective_offline_on_revocation_def assigned_realm_of_def set_keys_where)

lemma realm_with_full_eq: "realm_with_full mode = Full \<longleftrightarrow> mode \<noteq> ModePublic"
  by (cases mode) simp_all

section \<open>Properties\<close>

text \<open>The outcome a planner owes its caller, for requests that name each account once.\<close>

fun grant_outcome_ok ::
  "account_grant_request list \<Rightarrow> grant_availability \<Rightarrow> grant_plan_error + grant_plan \<Rightarrow> bool" where
  "grant_outcome_ok rs availability (Inl (GrantDuplicateAccount i)) \<longleftrightarrow> False"
| "grant_outcome_ok rs availability (Inl (GrantRequired accounts)) \<longleftrightarrow>
     availability = PublicOnly \<and> accounts \<noteq> [] \<and> set accounts = {i. asked rs i = Some RequireGrant}"
| "grant_outcome_ok rs availability (Inl (FullQuotaExceeded limit accounts)) \<longleftrightarrow>
     availability = BoundedFull limit \<and> unat limit < card (set accounts) \<and>
     set accounts = {i. wants_full rs i}"
| "grant_outcome_ok rs availability (Inr plan) \<longleftrightarrow>
     (\<forall>i. assigned_realm_of plan i =
        map_option (\<lambda>mode. if availability = PublicOnly \<or> mode = ModePublic then Public else Full) (asked rs i)) \<and>
     (availability = PublicOnly \<longrightarrow> (\<forall>i. asked rs i \<noteq> Some RequireGrant)) \<and>
     set (public_fallbacks plan) =
       (if availability = PublicOnly then {i. asked rs i = Some AllowPublicFallback} else {}) \<and>
     set (protective_offline_on_revocation plan) = {i. assigned_realm_of plan i = Some Full} \<and>
     (\<forall>limit. availability = BoundedFull limit \<longrightarrow> card (set (protective_offline_on_revocation plan)) \<le> unat limit)"

lemma outcome_public_only:
  assumes u: "collect_unique rs = Inr u"
  shows "grant_outcome_ok rs PublicOnly (plan_public_only u)"
proof (cases "plan_public_only u")
  case (Inl e)
  then show ?thesis
    using keys_where_asked [OF u, of "\<lambda>mode. mode = RequireGrant"]
    by (auto simp: plan_public_only_def Let_def split: if_splits)
next
  case (Inr plan)
  then have none: "btree_set_of (keys_where (\<lambda>mode. mode = RequireGrant) u) = []"
    and plan: "public_fallbacks plan = btree_set_of (keys_where (\<lambda>mode. mode = AllowPublicFallback) u)"
      "btree_ok (assignments plan)"
    by (auto simp: plan_public_only_def Let_def split: if_splits)
  from arg_cong [OF none, of set] have "asked rs i \<noteq> Some RequireGrant" for i
    using keys_where_asked [OF u, of "\<lambda>mode. mode = RequireGrant"] by auto
  then show ?thesis
    using plan_public_only_realm [OF u Inr] set_protective_offline [OF plan(2)] plan(1)
      keys_where_asked [OF u, of "\<lambda>mode. mode = AllowPublicFallback"]
    by (simp add: Inr)
qed

lemma outcome_with_full:
  assumes u: "collect_unique rs = Inr u" and full: "availability \<noteq> PublicOnly"
    and room: "\<And>limit. availability = BoundedFull limit \<Longrightarrow>
      card {i. wants_full rs i} \<le> unat limit"
  shows "grant_outcome_ok rs availability (Inr (plan_with_full u))"
proof -
  have realm: "assigned_realm_of (plan_with_full u) i = map_option realm_with_full (asked rs i)" for i
    by (rule plan_with_full_realm [OF u])
  moreover have "realm_with_full = (\<lambda>mode. if mode = ModePublic then Public else Full)"
    by (rule ext) (metis (full_types) realm_with_full.simps account_grant_mode.exhaust)
  moreover have "set (protective_offline_on_revocation (plan_with_full u)) =
      {i. assigned_realm_of (plan_with_full u) i = Some Full}"
    by (rule set_protective_offline) (simp add: plan_with_full_def)
  moreover have "{i. assigned_realm_of (plan_with_full u) i = Some Full} =
      {i. wants_full rs i}"
    using realm by (auto simp: realm_with_full_eq wants_full_def)
  moreover have "public_fallbacks (plan_with_full u) = []"
    by (simp add: plan_with_full_def btree_set_of_def btree_of_def btree_keys_def)
  ultimately show ?thesis using full room by simp
qed

text \<open>
  C19: The grant plan is decided for the installation as a whole. A repeated account is reported, and
  it is the first one repeated. Otherwise: with Public only, every account that requires a grant is
  named in the refusal, and if there is none all accounts are Public and exactly those that allow it
  carry the fallback warning; with Full, exactly the accounts not configured Public get it and must
  go offline on revocation, and when they exceed a bounded grant all of them are named and nobody is
  dropped silently.
\<close>

theorem grant_plan_exact:
  "(distinct (map gr_local_id requests) \<and>
    grant_outcome_ok requests availability (plan_account_grants requests availability)) \<or>
   (\<exists>pre r post. requests = pre @ r # post \<and> distinct (map gr_local_id pre) \<and>
      gr_local_id r \<in> gr_local_id ` set pre \<and>
      plan_account_grants requests availability = Inl (GrantDuplicateAccount (gr_local_id r)))"
proof (cases "collect_unique requests")
  case (Inl e)
  with collect_unique_cases [of requests] show ?thesis by (auto simp: plan_account_grants_def)
next
  case (Inr u)
  have full: "set (keys_where (\<lambda>mode. mode \<noteq> ModePublic) u) = {i. wants_full requests i}"
    "length (btree_set_of (keys_where (\<lambda>mode. mode \<noteq> ModePublic) u)) = card {i. wants_full requests i}"
    using keys_where_asked [OF Inr, of "\<lambda>mode. mode \<noteq> ModePublic"]
      length_keys_where_asked [OF Inr, of "\<lambda>mode. mode \<noteq> ModePublic"]
    by (simp_all add: wants_full_def)
  have "grant_outcome_ok requests availability (plan_account_grants requests availability)"
  proof (cases availability)
    case PublicOnly
    with outcome_public_only [OF Inr] Inr show ?thesis by (simp add: plan_account_grants_def)
  next
    case (BoundedFull limit)
    show ?thesis
    proof (cases "unat limit < card {i. wants_full requests i}")
      case True
      with full Inr BoundedFull show ?thesis by (simp add: plan_account_grants_def)
    next
      case False
      then have "grant_outcome_ok requests availability (Inr (plan_with_full u))"
        using BoundedFull by (intro outcome_with_full [OF Inr]) simp_all
      with False full Inr BoundedFull show ?thesis
        by (simp add: plan_account_grants_def del: grant_outcome_ok.simps)
    qed
  next
    case UnboundedFull
    with outcome_with_full [OF Inr, of availability] Inr show ?thesis
      by (simp add: plan_account_grants_def)
  qed
  with collect_unique_Inr(2) [OF Inr] show ?thesis by blast
qed

end
