(* ===== verification/Supervisor.thy ===== *)
theory Supervisor
  imports Account Marked
begin

text \<open>
  The single-writer actor (\<open>actor.rs\<close>), the names of the database files (\<open>id.rs\<close>) and the
  supervisor (\<open>supervisor.rs\<close>) of \<open>crates/account-runtime\<close>.

  The bounded \<open>mpsc\<close> channel is the list of the commands it holds, oldest first, as tokio documents
  it; sends and receives interleave as an explicit schedule. Each command carries what SQLite will do
  for it. The connection of a live actor is its file: what a transaction commits is on disk at once, and
  a crash of the process loses the actors and their queues but no file. A path is the directory and the file name in it. The writer thread ends only by
  a shutdown command or when every handle is gone; panics are not modelled.
\<close>

section \<open>Configuration and file names\<close>

definition MAX_QUEUE_CAPACITY :: nat where
  "MAX_QUEUE_CAPACITY = 1024"

record account_runtime_config =
  state_directory :: rstr
  cfg_local_id :: account_local_id
  queue_capacity :: nat

definition account_runtime_config_new ::
  "rstr \<Rightarrow> account_local_id \<Rightarrow> nat \<Rightarrow> account_runtime_error + account_runtime_config" where
  "account_runtime_config_new directory local_id capacity =
     (if directory = [] \<or> capacity = 0 \<or> MAX_QUEUE_CAPACITY < capacity then Inl Configuration
      else Inr \<lparr>state_directory = directory, cfg_local_id = local_id, queue_capacity = capacity\<rparr>)"

fun hex_pairs :: "bytes \<Rightarrow> rstr" where
  "hex_pairs [] = []"
| "hex_pairs (b # bs) = hex_digit (drop_bit 4 b) # hex_digit (b AND 0x0f) # hex_pairs bs"

definition file_stem :: "account_local_id \<Rightarrow> rstr" where
  "file_stem local_id = hex_pairs (local_id_bytes local_id)"

text \<open>\<open>directory.join(format!("{}.sqlite3", ..))\<close>.\<close>

definition database_path :: "account_local_id \<Rightarrow> rstr \<Rightarrow> rstr \<times> rstr" where
  "database_path local_id directory =
     (directory, file_stem local_id @ [0x2e, 0x73, 0x71, 0x6c, 0x69, 0x74, 0x65, 0x33])"

section \<open>The actor\<close>

datatype command = CmdSnapshot | CmdTransition account_transition | CmdShutdown

datatype reply =
    SnapshotReply "account_runtime_error + account_snapshot"
  | TransitionReply "account_runtime_error + transition_receipt"

type_synonym queued = "command \<times> sqlite_outcome"

text \<open>
  One turn of the loop of \<open>run_writer\<close>: the reply, the store, and the thread's result when the loop
  ends.
\<close>

fun writer_turn ::
  "account_store \<Rightarrow> queued \<Rightarrow> reply \<times> account_store \<times> (account_runtime_error + unit) option" where
  "writer_turn store (CmdSnapshot, io) = (SnapshotReply (store_snapshot (io_read io) store), store, None)"
| "writer_turn store (CmdTransition requested, io) =
     (case store_transition io requested store of (result, store') \<Rightarrow> (TransitionReply result, store', None))"
| "writer_turn store (CmdShutdown, io) =
     (let snapshot = store_snapshot (io_read io) store in
      (SnapshotReply snapshot, store, Some (if is_ok snapshot then Inr () else Inl Persistence)))"

text \<open>The loop over the commands the channel delivers; it is empty when every sender is gone.\<close>

fun run_writer_loop ::
  "account_store \<Rightarrow> queued list \<Rightarrow> reply list \<times> account_store \<times> (account_runtime_error + unit)" where
  "run_writer_loop store [] = ([], store, Inr ())"
| "run_writer_loop store (command # receiver) =
     (case writer_turn store command of
        (r, store', Some result) \<Rightarrow> ([r], store', result)
      | (r, store', None) \<Rightarrow>
          (case run_writer_loop store' receiver of (rs, store'', result) \<Rightarrow> (r # rs, store'', result)))"

record account_runtime =
  rt_local_id :: account_local_id
  rt_directory :: rstr
  rt_capacity :: nat
  rt_queue :: "queued list"
  rt_store :: account_store

definition remaining_capacity :: "account_runtime \<Rightarrow> nat" where
  "remaining_capacity runtime = rt_capacity runtime - length (rt_queue runtime)"

text \<open>\<open>sender.send(command).await\<close> completes when the channel has a free slot; until then it waits (None).\<close>

definition handle_send :: "queued \<Rightarrow> account_runtime \<Rightarrow> account_runtime option" where
  "handle_send command runtime =
     (if remaining_capacity runtime = 0 then None
      else Some (runtime\<lparr>rt_queue := rt_queue runtime @ [command]\<rparr>))"

definition spawn_account ::
  "open_outcome \<Rightarrow> bool \<Rightarrow> account_runtime_config \<Rightarrow> u64 \<Rightarrow> account_db \<Rightarrow>
   (account_runtime_error + account_runtime) \<times> account_db" where
  "spawn_account oo thread_ok cfg recovery_at_ms db =
     (case store_open oo (cfg_local_id cfg) recovery_at_ms db of
        (Inl e, db') \<Rightarrow> (Inl e, db')
      | (Inr store, db') \<Rightarrow>
          if \<not> thread_ok then (Inl WorkerFailed, db')
          else (Inr \<lparr>rt_local_id = cfg_local_id cfg, rt_directory = state_directory cfg,
                     rt_capacity = queue_capacity cfg, rt_queue = [], rt_store = store\<rparr>, db'))"

text \<open>
  \<open>AccountRuntime::shutdown\<close>: the command waits for its slot behind the earlier ones, the writer
  works through them, and the caller gets the last snapshot; its failure is the thread's failure.
\<close>

definition runtime_shutdown ::
  "sqlite_outcome \<Rightarrow> account_runtime \<Rightarrow> (account_runtime_error + account_snapshot) \<times> account_db" where
  "runtime_shutdown io runtime =
     (case run_writer_loop (rt_store runtime) (rt_queue runtime @ [(CmdShutdown, io)]) of
        (replies, store, result) \<Rightarrow>
          ((case last replies of
              SnapshotReply (Inr snapshot) \<Rightarrow> bindE result (\<lambda>_. Inr snapshot)
            | SnapshotReply (Inl e) \<Rightarrow> Inl e
            | TransitionReply _ \<Rightarrow> Inl Closed),
           as_connection store))"

section \<open>The supervisor\<close>

type_synonym disk = "rstr \<times> rstr \<Rightarrow> account_db"

record account_supervisor =
  accounts :: "(account_local_id, account_runtime) btree_map"

definition supervisor_new :: account_supervisor where
  "supervisor_new = \<lparr>accounts = []\<rparr>"

definition supervisor_len :: "account_supervisor \<Rightarrow> nat" where
  "supervisor_len s = length (accounts s)"

text \<open>The supervisor with the database files it opens.\<close>

type_synonym 'a supervisor_op = "(account_supervisor \<times> disk, account_runtime_error, 'a) op"

definition supervisor_spawn ::
  "open_outcome \<Rightarrow> bool \<Rightarrow> account_runtime_config \<Rightarrow> u64 \<Rightarrow> account_runtime supervisor_op" where
  "supervisor_spawn oo thread_ok cfg recovery_at_ms = (\<lambda>(s, files).
     let local_id = cfg_local_id cfg; path = database_path local_id (state_directory cfg) in
     if btree_get (accounts s) local_id \<noteq> None then (Inl DuplicateAccount, s, files)
     else case spawn_account oo thread_ok cfg recovery_at_ms (files path) of
       (Inl e, db) \<Rightarrow> (Inl e, s, files(path := db))
     | (Inr runtime, db) \<Rightarrow>
         (Inr runtime, s\<lparr>accounts := btree_insert local_id runtime (accounts s)\<rparr>, files(path := db)))"

definition supervisor_handle ::
  "account_local_id \<Rightarrow> account_supervisor \<Rightarrow> account_runtime_error + account_runtime" where
  "supervisor_handle local_id s = ok_or UnknownAccount (btree_get (accounts s) local_id)"

definition supervisor_shutdown :: "sqlite_outcome \<Rightarrow> account_local_id \<Rightarrow> account_snapshot supervisor_op" where
  "supervisor_shutdown io local_id = (\<lambda>(s, files).
     case btree_get (accounts s) local_id of
       None \<Rightarrow> (Inl UnknownAccount, s, files)
     | Some runtime \<Rightarrow>
         (case runtime_shutdown io runtime of (result, db) \<Rightarrow>
            (result, s\<lparr>accounts := btree_remove local_id (accounts s)\<rparr>,
             files(database_path (rt_local_id runtime) (rt_directory runtime) := db))))"

text \<open>
  The loop of \<open>shutdown_all\<close>; \<open>get_or_insert\<close> keeps the first error. SQLite's outcome is one per account.
\<close>

fun shutdown_loop ::
  "(account_local_id \<Rightarrow> sqlite_outcome) \<Rightarrow> (account_local_id \<times> account_runtime) list \<Rightarrow>
   account_runtime_error option \<Rightarrow> disk \<Rightarrow> account_runtime_error option \<times> disk" where
  "shutdown_loop io [] first_error files = (first_error, files)"
| "shutdown_loop io ((local_id, runtime) # rest) first_error files =
     (case runtime_shutdown (io local_id) runtime of (result, db) \<Rightarrow>
        shutdown_loop io rest
          (case result of
             Inl e \<Rightarrow> (case first_error of None \<Rightarrow> Some e | Some e' \<Rightarrow> Some e')
           | Inr _ \<Rightarrow> first_error)
          (files(database_path (rt_local_id runtime) (rt_directory runtime) := db)))"

definition supervisor_shutdown_all :: "(account_local_id \<Rightarrow> sqlite_outcome) \<Rightarrow> unit supervisor_op" where
  "supervisor_shutdown_all io = (\<lambda>(s, files).
     case shutdown_loop io (accounts s) None files of
       (first_error, files') \<Rightarrow>
         ((case first_error of None \<Rightarrow> Inr () | Some e \<Rightarrow> Inl e), s\<lparr>accounts := []\<rparr>, files'))"

section \<open>The writer over a queue\<close>

lemma writer_turn_store:
  assumes "db_ok (as_connection store)" "writer_turn store c = (r, store', res)"
  shows "db_ok (as_connection store')" "as_local_id store' = as_local_id store"
    "fst c \<noteq> CmdShutdown \<Longrightarrow> res = None"
proof -
  obtain cmd io where c: "c = (cmd, io)" by (cases c)
  from assms(1) obtain t0 l where at: "db_at (as_connection store) t0 l"
    by (auto simp: db_ok_def simp del: split_paired_Ex)
  have "db_ok (as_connection store') \<and> as_local_id store' = as_local_id store \<and> (cmd \<noteq> CmdShutdown \<longrightarrow> res = None)"
  proof (cases cmd)
    case (CmdTransition q)
    then have run: "store_transition io q store = (fst (store_transition io q store), store')" "res = None"
      using assms(2) c by (auto split: prod.splits)
    from store_transition_at [OF at run(1)] assms(1) run(2) show ?thesis
      by (auto split: sum.splits intro: db_okI)
  qed (use assms c in \<open>auto simp: Let_def\<close>)
  then show "db_ok (as_connection store')" "as_local_id store' = as_local_id store"
    "fst c \<noteq> CmdShutdown \<Longrightarrow> res = None" using c by simp_all
qed

definition client_commands :: "queued list \<Rightarrow> bool" where
  "client_commands cs \<longleftrightarrow> (\<forall>c \<in> set cs. fst c \<noteq> CmdShutdown)"

lemma writer_turn_client: "fst c \<noteq> CmdShutdown \<Longrightarrow> snd (snd (writer_turn store c)) = None"
  by (cases "(store, c)" rule: writer_turn.cases) (auto split: prod.splits)

lemma run_writer_client:
  "client_commands cs \<Longrightarrow> snd (snd (run_writer_loop store cs)) = Inr ()"
proof (induction cs arbitrary: store)
  case (Cons c cs)
  then have "snd (snd (writer_turn store c)) = None" by (simp add: client_commands_def writer_turn_client)
  then obtain r store' where "writer_turn store c = (r, store', None)" by (cases "writer_turn store c") auto
  with Cons show ?case by (simp add: client_commands_def case_prod_unfold)
qed simp

lemma run_writer_append:
  "client_commands cs \<Longrightarrow> run_writer_loop store cs = (rs, store', res) \<Longrightarrow>
   run_writer_loop store' ds = (rs', store'', res') \<Longrightarrow>
   run_writer_loop store (cs @ ds) = (rs @ rs', store'', res')"
proof (induction cs arbitrary: store rs)
  case (Cons c cs)
  then have "snd (snd (writer_turn store c)) = None" by (simp add: client_commands_def writer_turn_client)
  then obtain r store1 where "writer_turn store c = (r, store1, None)" by (cases "writer_turn store c") auto
  with Cons show ?case by (auto simp: client_commands_def split: prod.splits)
qed simp

lemma run_writer_store:
  "db_ok (as_connection store) \<Longrightarrow> run_writer_loop store cs = (rs, store', res) \<Longrightarrow>
   db_ok (as_connection store') \<and> as_local_id store' = as_local_id store"
proof (induction cs arbitrary: store rs)
  case (Cons c cs)
  obtain r store1 res1 where turn: "writer_turn store c = (r, store1, res1)" by (cases "writer_turn store c")
  from writer_turn_store(1,2) [OF Cons.prems(1) turn] turn Cons show ?case
    by (cases res1) (auto split: prod.splits)
qed simp

lemma runtime_shutdown_final:
  assumes "client_commands (rt_queue rt)" "run_writer_loop (rt_store rt) (rt_queue rt) = (rs, store, res)"
  shows "runtime_shutdown io rt = (store_snapshot (io_read io) store, as_connection store)"
proof -
  have "run_writer_loop (rt_store rt) (rt_queue rt @ [(CmdShutdown, io)]) =
      (rs @ [SnapshotReply (store_snapshot (io_read io) store)], store,
       if is_ok (store_snapshot (io_read io) store) then Inr () else Inl Persistence)"
    by (rule run_writer_append [OF assms]) (simp add: Let_def)
  then show ?thesis
    by (cases "store_snapshot (io_read io) store") (simp_all add: runtime_shutdown_def)
qed

section \<open>Any schedule of the actor\<close>

text \<open>A client's send through a handle, or a turn of the writer on the oldest queued command.\<close>

datatype actor_event = SendSnapshot sqlite_outcome | SendTransition account_transition sqlite_outcome | WriterTurn

type_synonym actor_run = "account_runtime \<times> reply list \<times> queued list"

definition actor_send :: "queued \<Rightarrow> actor_run \<Rightarrow> actor_run" where
  "actor_send c a =
     (case a of (rt, replies, sent) \<Rightarrow>
        (case handle_send c rt of None \<Rightarrow> (rt, replies, sent) | Some rt' \<Rightarrow> (rt', replies, sent @ [c])))"

fun actor_step :: "actor_run \<Rightarrow> actor_event \<Rightarrow> actor_run" where
  "actor_step a (SendSnapshot io) = actor_send (CmdSnapshot, io) a"
| "actor_step a (SendTransition q io) = actor_send (CmdTransition q, io) a"
| "actor_step (rt, replies, sent) WriterTurn =
     (case rt_queue rt of
        [] \<Rightarrow> (rt, replies, sent)
      | c # cs \<Rightarrow>
          (case writer_turn (rt_store rt) c of (r, store, _) \<Rightarrow>
             (rt\<lparr>rt_queue := cs, rt_store := store\<rparr>, replies @ [r], sent)))"

text \<open>The replies given, continued by those still owed, are those of the commands in sending order.\<close>

definition actor_serial :: "account_store \<Rightarrow> nat \<Rightarrow> actor_run \<Rightarrow> bool" where
  "actor_serial store0 capacity a \<longleftrightarrow>
     (case a of (rt, replies, sent) \<Rightarrow>
        client_commands (rt_queue rt) \<and> client_commands sent \<and>
        rt_capacity rt = capacity \<and> length (rt_queue rt) \<le> capacity \<and>
        (case run_writer_loop (rt_store rt) (rt_queue rt) of (owed, store, _) \<Rightarrow>
           run_writer_loop store0 sent = (replies @ owed, store, Inr ())))"

lemma actor_send_serial:
  assumes "actor_serial store0 capacity a" "fst c \<noteq> CmdShutdown"
  shows "actor_serial store0 capacity (actor_send c a)"
proof -
  obtain rt replies sent where a: "a = (rt, replies, sent)" by (cases a)
  obtain owed store res where run: "run_writer_loop (rt_store rt) (rt_queue rt) = (owed, store, res)"
    by (cases "run_writer_loop (rt_store rt) (rt_queue rt)")
  obtain r store' where turn: "writer_turn store c = (r, store', None)"
    using writer_turn_client [OF assms(2), of store] by (cases "writer_turn store c") auto
  then have last: "run_writer_loop store [c] = ([r], store', Inr ())" by simp
  from assms a run have inv: "client_commands (rt_queue rt)" "client_commands sent"
    "run_writer_loop store0 sent = (replies @ owed, store, Inr ())"
    by (simp_all add: actor_serial_def)
  from run_writer_append [OF inv(1) run last] run_writer_append [OF inv(2,3) last] assms a
  show ?thesis
    by (auto simp: actor_send_def actor_serial_def handle_send_def remaining_capacity_def client_commands_def
        split: option.splits)
qed

lemma actor_step_serial:
  assumes "actor_serial store0 capacity a"
  shows "actor_serial store0 capacity (actor_step a e)"
proof (cases e)
  case WriterTurn
  obtain rt replies sent where a: "a = (rt, replies, sent)" by (cases a)
  show ?thesis
  proof (cases "rt_queue rt")
    case Nil
    with assms a WriterTurn show ?thesis by simp
  next
    case (Cons c cs)
    with assms a have "fst c \<noteq> CmdShutdown" by (simp add: actor_serial_def client_commands_def)
    then obtain r store where "writer_turn (rt_store rt) c = (r, store, None)"
      using writer_turn_client [of c "rt_store rt"] by (cases "writer_turn (rt_store rt) c") auto
    with assms a Cons WriterTurn show ?thesis
      by (auto simp: actor_serial_def client_commands_def split: prod.splits)
  qed
qed (use assms in \<open>simp_all add: actor_send_serial\<close>)

interpretation actor: machine actor_step "actor_serial store0 capacity"
  by unfold_locales (rule actor_step_serial)

section \<open>File names\<close>

lemma and_0f: "(b :: u8) AND 0x0f = take_bit 4 b"
  by (simp add: take_bit_eq_mask mask_eq_exp_minus_1)

lemma hex_digit_inj:
  assumes "hex_digit m = hex_digit n" "m < 16" "n < 16"
  shows "m = n"
proof -
  have "unat (hex_digit k) = (if unat k < 10 then unat k + 48 else unat k + 87)" if "k < 16" for k
  proof -
    from that have "unat k < 16" by (simp add: word_less_nat_alt)
    then have "hex_digit k = of_nat (if unat k < 10 then unat k + 48 else unat k + 87)"
      by (auto simp: hex_digit_def word_less_nat_alt)
    moreover have "(if unat k < 10 then unat k + 48 else unat k + 87) < 2 ^ 8"
      using \<open>unat k < 16\<close> by simp
    ultimately show ?thesis using of_nat_inverse [where 'a = 8, OF refl] by simp
  qed
  with assms(2,3) arg_cong [OF assms(1), of unat] show ?thesis
    by (simp split: if_splits add: word_less_nat_alt word_unat_eq_iff)
qed

lemma hex_pairs_inj: "hex_pairs xs = hex_pairs ys \<Longrightarrow> xs = ys"
proof (induction xs arbitrary: ys)
  case Nil
  then show ?case by (cases ys) simp_all
next
  case (Cons x xs)
  then obtain y ys' where ys: "ys = y # ys'" by (cases ys) simp_all
  have high: "drop_bit 4 b < 16" for b :: u8
    using unat_u8_less [of b] by (simp add: word_less_nat_alt unat_drop_bit less_mult_imp_div_less)
  have low: "b AND 0x0f < 16" for b :: u8
  proof -
    have "unat (take_bit 4 b) = take_bit 4 (unat b)" by (simp add: unsigned_take_bit_eq)
    then show ?thesis unfolding and_0f by (simp only: word_less_nat_alt take_bit_eq_mod) simp
  qed
  have eq: "drop_bit 4 x = drop_bit 4 y" "take_bit 4 x = take_bit 4 y"
    using Cons.prems ys hex_digit_inj high low by (auto simp flip: and_0f)
  have "push_bit 4 (drop_bit 4 b) + take_bit 4 b = b" for b :: u8
    by (simp add: bits_ident)
  then have "x = y" using eq by metis
  with Cons ys show ?case by simp
qed

lemma database_path_inj: "database_path i d = database_path j e \<Longrightarrow> i = j \<and> d = e"
  by (auto simp: database_path_def file_stem_def intro: account_local_id.expand dest: hex_pairs_inj)

section \<open>Any sequence of supervisor calls\<close>

text \<open>
  The calls, the events of the actors, whose commits reach the file, and a crash of the process, after
  which a new supervisor finds the files.
\<close>

datatype supervisor_call =
    Spawn open_outcome bool account_runtime_config u64
  | Actor account_local_id actor_event
  | Shutdown sqlite_outcome account_local_id
  | ShutdownAll "account_local_id \<Rightarrow> sqlite_outcome"
  | Crash

definition actor_path :: "account_runtime \<Rightarrow> rstr \<times> rstr" where
  "actor_path rt = database_path (rt_local_id rt) (rt_directory rt)"

definition supervisor_actor :: "account_local_id \<Rightarrow> actor_event \<Rightarrow> account_supervisor \<times> disk \<Rightarrow> account_supervisor \<times> disk" where
  "supervisor_actor i e = (\<lambda>(s, files).
     case supervisor_handle i s of
       Inl _ \<Rightarrow> (s, files)
     | Inr rt \<Rightarrow>
         (case actor_step (rt, [], []) e of (rt', _, _) \<Rightarrow>
            (s\<lparr>accounts := btree_insert i rt' (accounts s)\<rparr>,
             files(actor_path rt := as_connection (rt_store rt')))))"

fun supervisor_step :: "account_supervisor \<times> disk \<Rightarrow> supervisor_call \<Rightarrow> account_supervisor \<times> disk" where
  "supervisor_step w (Spawn oo thread_ok cfg now) = snd (supervisor_spawn oo thread_ok cfg now w)"
| "supervisor_step w (Actor i e) = supervisor_actor i e w"
| "supervisor_step w (Shutdown io i) = snd (supervisor_shutdown io i w)"
| "supervisor_step w (ShutdownAll io) = snd (supervisor_shutdown_all io w)"
| "supervisor_step (s, files) Crash = (supervisor_new, files)"

definition file_ok :: "account_db \<Rightarrow> bool" where
  "file_ok db \<longleftrightarrow> db = empty_db \<or> db_ok db"

definition runtime_ok :: "account_local_id \<Rightarrow> account_runtime \<Rightarrow> bool" where
  "runtime_ok i rt \<longleftrightarrow> rt_local_id rt = i \<and> as_local_id (rt_store rt) = i \<and>
     client_commands (rt_queue rt) \<and> db_ok (as_connection (rt_store rt))"

text \<open>The database an actor leaves once it has worked through its queue.\<close>

definition final_db :: "account_runtime \<Rightarrow> account_db" where
  "final_db rt = as_connection (fst (snd (run_writer_loop (rt_store rt) (rt_queue rt))))"

definition supervisor_inv :: "account_supervisor \<times> disk \<Rightarrow> bool" where
  "supervisor_inv w \<longleftrightarrow>
     (case w of (s, files) \<Rightarrow> btree_ok (accounts s) \<and> (\<forall>path. file_ok (files path)) \<and>
        (\<forall>i rt. btree_get (accounts s) i = Some rt \<longrightarrow>
           runtime_ok i rt \<and> files (actor_path rt) = as_connection (rt_store rt)))"

lemma actor_path_inj: "runtime_ok i rt \<Longrightarrow> runtime_ok j rt' \<Longrightarrow> actor_path rt = actor_path rt' \<Longrightarrow> i = j"
  by (auto simp: actor_path_def runtime_ok_def dest!: database_path_inj)

lemma supervisor_inv_init: "supervisor_inv (supervisor_new, files) \<longleftrightarrow> (\<forall>path. file_ok (files path))"
  by (simp add: supervisor_inv_def supervisor_new_def btree.inv_empty btree_get_def)

text \<open>Replacing one account's actor and file, or removing it, leaves the others as they are.\<close>

lemma supervisor_inv_insert:
  assumes inv: "supervisor_inv (s, files)" and rt: "runtime_ok i rt"
    and free: "\<And>old. btree_get (accounts s) i = Some old \<Longrightarrow> actor_path old = actor_path rt"
  shows "supervisor_inv (s\<lparr>accounts := btree_insert i rt (accounts s)\<rparr>, files(actor_path rt := as_connection (rt_store rt)))"
proof -
  note inv' = inv [unfolded supervisor_inv_def prod.case]
  have "runtime_ok j rt' \<and> (files(actor_path rt := as_connection (rt_store rt))) (actor_path rt') = as_connection (rt_store rt')"
    if get: "btree_get (btree_insert i rt (accounts s)) j = Some rt'" for j rt'
  proof (cases "j = i")
    case True
    with get inv' rt show ?thesis by (simp add: btree_get_insert)
  next
    case False
    with get inv' have old: "btree_get (accounts s) j = Some rt'" by (simp add: btree_get_insert)
    with inv' have ok: "runtime_ok j rt'" "files (actor_path rt') = as_connection (rt_store rt')" by blast+
    with actor_path_inj [OF ok(1) rt] False show ?thesis by auto
  qed
  moreover have "file_ok (as_connection (rt_store rt))" using rt by (simp add: runtime_ok_def file_ok_def)
  ultimately show ?thesis
    using inv' by (simp add: supervisor_inv_def btree.inv_insert)
qed

lemma supervisor_inv_remove:
  assumes inv: "supervisor_inv (s, files)" and get: "btree_get (accounts s) i = Some rt" and db: "file_ok db"
  shows "supervisor_inv (s\<lparr>accounts := btree_remove i (accounts s)\<rparr>, files(actor_path rt := db))"
proof -
  note inv' = inv [unfolded supervisor_inv_def prod.case]
  have rt: "runtime_ok i rt" using inv' get by blast
  have "runtime_ok j rt' \<and> (files(actor_path rt := db)) (actor_path rt') = as_connection (rt_store rt')"
    if "btree_get (btree_remove i (accounts s)) j = Some rt'" for j rt'
  proof -
    from that inv' have "j \<noteq> i" and old: "btree_get (accounts s) j = Some rt'"
      by (auto simp: btree.get_remove split: if_splits)
    with inv' have ok: "runtime_ok j rt'" "files (actor_path rt') = as_connection (rt_store rt')" by blast+
    with actor_path_inj [OF ok(1) rt] \<open>j \<noteq> i\<close> show ?thesis by auto
  qed
  with inv' db show ?thesis by (simp add: supervisor_inv_def btree.inv_remove)
qed

lemma supervisor_inv_file:
  assumes "supervisor_inv (s, files)" "file_ok db" "\<And>i rt. btree_get (accounts s) i = Some rt \<Longrightarrow> actor_path rt \<noteq> path"
  shows "supervisor_inv (s, files(path := db))"
  using assms by (auto simp: supervisor_inv_def)

lemma runtime_shutdown_ok:
  assumes "runtime_ok i rt"
  shows "\<exists>snapshot. runtime_shutdown io rt = (if io_read io then Inr snapshot else Inl Persistence, final_db rt)"
    "db_ok (final_db rt)"
proof -
  obtain rs store res where run: "run_writer_loop (rt_store rt) (rt_queue rt) = (rs, store, res)"
    by (cases "run_writer_loop (rt_store rt) (rt_queue rt)")
  with run_writer_store assms have db: "db_ok (as_connection store)"
    by (auto simp: runtime_ok_def)
  then obtain t0 l where "db_at (as_connection store) t0 l"
    by (auto simp: db_ok_def simp del: split_paired_Ex)
  from store_snapshot_at [OF this] runtime_shutdown_final [OF _ run, of io] assms run
  show "\<exists>snapshot. runtime_shutdown io rt = (if io_read io then Inr snapshot else Inl Persistence, final_db rt)"
    by (cases "io_read io") (auto simp: runtime_ok_def final_db_def)
  show "db_ok (final_db rt)" using db run by (simp add: final_db_def)
qed

lemma actor_step_ok:
  assumes "runtime_ok i rt" "actor_step (rt, [], []) e = (rt', rs, cs)"
  shows "runtime_ok i rt' \<and> actor_path rt' = actor_path rt"
proof (cases e)
  case WriterTurn
  show ?thesis
  proof (cases "rt_queue rt")
    case Nil
    with assms WriterTurn show ?thesis by simp
  next
    case (Cons c cs)
    obtain r store res where turn: "writer_turn (rt_store rt) c = (r, store, res)"
      by (cases "writer_turn (rt_store rt) c")
    with writer_turn_store(1,2) [OF _ turn] assms Cons WriterTurn show ?thesis
      by (auto simp: runtime_ok_def client_commands_def actor_path_def)
  qed
qed (use assms in \<open>auto simp: actor_send_def handle_send_def runtime_ok_def client_commands_def actor_path_def split: option.splits if_splits\<close>)

text \<open>The loop of \<open>shutdown_all\<close>: every file gets its actor's last state, and the first failed query is the error.\<close>

lemma shutdown_loop_ok:
  assumes "\<forall>(i, rt) \<in> set rs. runtime_ok i rt" "distinct (map fst rs)" "\<forall>path. file_ok (files path)"
  shows "\<exists>files'. shutdown_loop io rs first_error files =
      (if first_error \<noteq> None \<or> list_all (\<lambda>(i, rt). io_read (io i)) rs then first_error else Some Persistence, files') \<and>
    (\<forall>path. file_ok (files' path)) \<and>
    list_all (\<lambda>(i, rt). files' (actor_path rt) = final_db rt) rs \<and>
    (\<forall>path. path \<notin> (\<lambda>(i, rt). actor_path rt) ` set rs \<longrightarrow> files' path = files path)"
  using assms
proof (induction rs arbitrary: files first_error)
  case Nil
  then show ?case by simp
next
  case (Cons p rs)
  obtain i rt where p: "p = (i, rt)" by fastforce
  with Cons.prems have ok: "runtime_ok i rt" by simp
  obtain snapshot where stop: "runtime_shutdown (io i) rt = (if io_read (io i) then Inr snapshot else Inl Persistence, final_db rt)"
    using runtime_shutdown_ok(1) [OF ok, of "io i"] by blast
  let ?path = "actor_path rt"
  let ?first = "if io_read (io i) \<or> first_error \<noteq> None then first_error else Some Persistence"
  have files: "\<forall>path. file_ok ((files(?path := final_db rt)) path)"
    using Cons.prems(3) runtime_shutdown_ok(2) [OF ok] by (simp add: file_ok_def)
  have "\<exists>files'. shutdown_loop io rs ?first (files(?path := final_db rt)) =
      (if ?first \<noteq> None \<or> list_all (\<lambda>(i, rt). io_read (io i)) rs then ?first else Some Persistence, files') \<and>
      (\<forall>path. file_ok (files' path)) \<and>
      list_all (\<lambda>(i, rt). files' (actor_path rt) = final_db rt) rs \<and>
      (\<forall>path. path \<notin> (\<lambda>(i, rt). actor_path rt) ` set rs \<longrightarrow> files' path = (files(?path := final_db rt)) path)"
    by (rule Cons.IH) (use Cons.prems files in simp_all)
  then obtain files' where
    run: "shutdown_loop io rs ?first (files(?path := final_db rt)) =
      (if ?first \<noteq> None \<or> list_all (\<lambda>(i, rt). io_read (io i)) rs then ?first else Some Persistence, files')"
    and rest: "\<forall>path. file_ok (files' path)"
      "list_all (\<lambda>(i, rt). files' (actor_path rt) = final_db rt) rs"
    and same: "\<And>path. path \<notin> (\<lambda>(i, rt). actor_path rt) ` set rs \<Longrightarrow>
      files' path = (files(?path := final_db rt)) path"
    by blast
  have "?path \<notin> (\<lambda>(i, rt). actor_path rt) ` set rs"
  proof
    assume "?path \<in> (\<lambda>(i, rt). actor_path rt) ` set rs"
    then obtain j rt' where j: "(j, rt') \<in> set rs" "?path = actor_path rt'" by (auto simp del: fun_upd_apply)
    with Cons.prems(1) have "runtime_ok j rt'" by auto
    from actor_path_inj [OF ok this j(2)] have "i \<in> fst ` set rs" using j(1) by force
    then show False using Cons.prems(2) p by simp
  qed
  from same [OF this] have "files' ?path = final_db rt" by simp
  moreover have "shutdown_loop io (p # rs) first_error files = shutdown_loop io rs ?first (files(?path := final_db rt))"
    using p stop ok by (cases first_error) (auto simp: runtime_ok_def actor_path_def)
  moreover have "(if ?first \<noteq> None \<or> list_all (\<lambda>(i, rt). io_read (io i)) rs then ?first else Some Persistence) =
      (if first_error \<noteq> None \<or> list_all (\<lambda>(i, rt). io_read (io i)) (p # rs) then first_error else Some Persistence)"
    using p by simp
  moreover have "files' path = files path" if "path \<notin> (\<lambda>(i, rt). actor_path rt) ` set (p # rs)" for path
    using same [of path] that p by simp
  ultimately show ?case
    using run rest by (intro exI [of _ files']) (simp add: p)
qed

lemma recover_interrupted_local:
  "recover_interrupted read_ok io now s = (r, s') \<Longrightarrow> as_local_id s' = as_local_id s"
  by (auto simp: recover_interrupted_def store_transition_def bindS_def retS_def
      split: sum.splits if_splits prod.splits)

lemma live_accounts:
  assumes "supervisor_inv (s, files)"
  shows "distinct (map fst (accounts s))" "\<forall>(i, rt) \<in> set (accounts s). runtime_ok i rt"
    "\<forall>(i, rt) \<in> set (accounts s). files (actor_path rt) = as_connection (rt_store rt)"
proof -
  note inv = assms [unfolded supervisor_inv_def prod.case]
  show d: "distinct (map fst (accounts s))"
    using inv btree.keys_distinct [of "accounts s"] by (simp add: btree_keys_def)
  with inv show "\<forall>(i, rt) \<in> set (accounts s). runtime_ok i rt"
    "\<forall>(i, rt) \<in> set (accounts s). files (actor_path rt) = as_connection (rt_store rt)"
    by (auto simp: btree_get_def)
qed

lemma supervisor_inv_files: "supervisor_inv (s, files) \<Longrightarrow> file_ok (files path)"
  unfolding supervisor_inv_def prod.case by blast

lemma supervisor_spawn_inv:
  assumes inv: "supervisor_inv (s, files)"
  shows "supervisor_inv (snd (supervisor_spawn oo thread_ok cfg now (s, files)))"
proof (cases "btree_get (accounts s) (cfg_local_id cfg)")
  case (Some rt)
  with inv show ?thesis by (simp add: supervisor_spawn_def Let_def)
next
  case None
  let ?i = "cfg_local_id cfg"
  let ?path = "database_path ?i (state_directory cfg)"
  obtain res db where run: "store_open oo ?i now (files ?path) = (res, db)" by fastforce
  have "file_ok (files ?path)" by (rule supervisor_inv_files [OF inv])
  from store_open_ok [OF this [unfolded file_ok_def] run] have db: "file_ok db"
    and opened: "\<And>store. res = Inr store \<Longrightarrow> as_connection store = db \<and> db_ok db"
    by (auto simp: file_ok_def split: sum.splits)
  have other: "actor_path rt \<noteq> ?path" if "btree_get (accounts s) j = Some rt" for j rt
    using that None inv by (auto simp: supervisor_inv_def runtime_ok_def actor_path_def dest!: database_path_inj)
  show ?thesis
  proof (cases "\<exists>store. res = Inr store \<and> thread_ok")
    case False
    then have "snd (supervisor_spawn oo thread_ok cfg now (s, files)) = (s, files(?path := db))"
      using None run by (auto simp: supervisor_spawn_def spawn_account_def Let_def split: sum.splits)
    with supervisor_inv_file [OF inv db other] show ?thesis by simp
  next
    case True
    then obtain store where store: "res = Inr store" "thread_ok" by blast
    let ?rt = "\<lparr>rt_local_id = ?i, rt_directory = state_directory cfg, rt_capacity = queue_capacity cfg,
        rt_queue = [], rt_store = store\<rparr>"
    have "as_local_id store = ?i"
      using run store by (auto simp: store_open_def recover_interrupted_local split: sum.splits prod.splits)
    with opened [OF store(1)] have "runtime_ok ?i ?rt" by (simp add: runtime_ok_def client_commands_def)
    from supervisor_inv_insert [OF inv this] None opened [OF store(1)]
    have "supervisor_inv (s\<lparr>accounts := btree_insert ?i ?rt (accounts s)\<rparr>, files(?path := db))"
      by (simp add: actor_path_def)
    with None run store show ?thesis by (simp add: supervisor_spawn_def spawn_account_def Let_def)
  qed
qed

lemma supervisor_step_inv:
  assumes inv: "supervisor_inv w"
  shows "supervisor_inv (supervisor_step w call)"
proof -
  obtain s files where w: "w = (s, files)" by fastforce
  show ?thesis
  proof (cases call)
    case (Spawn oo thread_ok cfg now)
    with supervisor_spawn_inv inv w show ?thesis by simp
  next
    case (Actor i e)
    show ?thesis
    proof (cases "btree_get (accounts s) i")
      case None
      with inv w Actor show ?thesis by (simp add: supervisor_actor_def supervisor_handle_def)
    next
      case (Some rt)
      obtain rt' rs cs where step: "actor_step (rt, [], []) e = (rt', rs, cs)"
        by (cases "actor_step (rt, [], []) e")
      have "runtime_ok i rt" using inv w Some by (auto simp: supervisor_inv_def)
      from actor_step_ok [OF this step] have ok: "runtime_ok i rt'" "actor_path rt' = actor_path rt" by simp_all
      from supervisor_inv_insert [OF _ ok(1), of s files] inv w Some ok(2) step Actor show ?thesis
        by (simp add: supervisor_actor_def supervisor_handle_def)
    qed
  next
    case (Shutdown io i)
    show ?thesis
    proof (cases "btree_get (accounts s) i")
      case None
      with inv w Shutdown show ?thesis by (simp add: supervisor_shutdown_def)
    next
      case (Some rt)
      have ok: "runtime_ok i rt" using inv w Some by (auto simp: supervisor_inv_def)
      obtain result where stop: "runtime_shutdown io rt = (result, final_db rt)"
        using runtime_shutdown_ok(1) [OF ok, of io] by blast
      have "supervisor_inv (s\<lparr>accounts := btree_remove i (accounts s)\<rparr>, files(actor_path rt := final_db rt))"
        using supervisor_inv_remove [OF _ Some] inv w runtime_shutdown_ok(2) [OF ok] by (simp add: file_ok_def)
      then show ?thesis using w Some Shutdown stop by (simp add: supervisor_shutdown_def actor_path_def)
    qed
  next
    case (ShutdownAll io)
    have "\<forall>path. file_ok (files path)" using supervisor_inv_files inv w by blast
    with live_accounts [of s files] inv w obtain r files' where "shutdown_loop io (accounts s) None files = (r, files')"
      "\<forall>path. file_ok (files' path)"
      using shutdown_loop_ok [of "accounts s" files io None] by blast
    with w ShutdownAll show ?thesis
      by (simp add: supervisor_shutdown_all_def supervisor_inv_def btree.inv_empty btree_get_def)
  next
    case Crash
    with inv w show ?thesis by (simp add: supervisor_inv_init) (simp add: supervisor_inv_def)
  qed
qed

interpretation supervisor: machine supervisor_step supervisor_inv
  by unfold_locales (rule supervisor_step_inv)

section \<open>Properties\<close>

text \<open>
  C20: An account actor behaves as its commands run one after another in the order they were accepted,
  under every schedule of client sends and writer turns. The replies given so far, continued by those
  of the queued commands, are the replies of the sequential run; the queue never exceeds its
  configured capacity; and a shutdown at any moment still works through every accepted command and
  reports and leaves the state after the last of them.
\<close>

theorem actor_refines_sequential_run:
  "case foldl actor_step
      (\<lparr>rt_local_id = i, rt_directory = d, rt_capacity = capacity, rt_queue = [], rt_store = store0\<rparr>, [], [])
      events of
     (rt, replies, sent) \<Rightarrow>
       (case run_writer_loop store0 sent of
          (all_replies, final, result) \<Rightarrow>
            all_replies = replies @ fst (run_writer_loop (rt_store rt) (rt_queue rt)) \<and>
            result = Inr () \<and>
            length (rt_queue rt) \<le> capacity \<and>
            runtime_shutdown io rt = (store_snapshot (io_read io) final, as_connection final))"
proof -
  let ?rt0 = "\<lparr>rt_local_id = i, rt_directory = d, rt_capacity = capacity, rt_queue = [], rt_store = store0\<rparr>"
  have "actor_serial store0 capacity (foldl actor_step (?rt0, [], []) events)"
    by (rule actor.run_inv) (simp add: actor_serial_def client_commands_def)
  then show ?thesis
    by (auto simp: actor_serial_def runtime_shutdown_final split: prod.splits)
qed

text \<open>
  C21: The supervisor keeps accounts apart and never leaves a database in between. After any sequence
  of spawns, commands, writer turns, shutdowns and crashes of the process, with SQLite failing anywhere,
  starting without accounts and files, every database file is empty or holds an exact journal, every
  actor runs under its own identifier and its file holds its latest committed state. Stopping them all
  then leaves no actor and in each account's file exactly what its own accepted commands make of it, and
  touches no other file; it succeeds when every actor can read its last snapshot, and reports a
  persistence error otherwise.
\<close>

theorem supervisor_keeps_databases:
  "case foldl supervisor_step (supervisor_new, \<lambda>_. empty_db) calls of
     (s, files) \<Rightarrow>
       (\<forall>path. file_ok (files path)) \<and>
       distinct (btree_keys (accounts s)) \<and>
       list_all (\<lambda>(i, rt). rt_local_id rt = i \<and> db_ok (as_connection (rt_store rt)) \<and>
          files (database_path i (rt_directory rt)) = as_connection (rt_store rt)) (accounts s) \<and>
       (\<exists>files'. supervisor_shutdown_all io (s, files) =
            (if list_all (\<lambda>(i, rt). io_read (io i)) (accounts s) then Inr () else Inl Persistence, supervisor_new, files') \<and>
          list_all (\<lambda>(i, rt). files' (database_path i (rt_directory rt)) = final_db rt \<and> db_ok (final_db rt)) (accounts s) \<and>
          {path. files' path \<noteq> files path} \<subseteq> (\<lambda>(i, rt). database_path i (rt_directory rt)) ` set (accounts s))"
proof -
  obtain s files where run: "foldl supervisor_step (supervisor_new, \<lambda>_. empty_db) calls = (s, files)"
    by fastforce
  have "supervisor_inv (foldl supervisor_step (supervisor_new, \<lambda>_. empty_db) calls)"
    by (rule supervisor.run_inv) (simp add: supervisor_inv_init file_ok_def)
  then have inv: "supervisor_inv (s, files)" unfolding run .
  then have ok: "\<forall>path. file_ok (files path)" using supervisor_inv_files by blast
  note live = live_accounts [OF inv]
  from shutdown_loop_ok [OF live(2,1) ok, of io None] obtain files' where
    stop: "shutdown_loop io (accounts s) None files =
      (if list_all (\<lambda>(i, rt). io_read (io i)) (accounts s) then None else Some Persistence, files')"
    and left: "list_all (\<lambda>(i, rt). files' (actor_path rt) = final_db rt) (accounts s)"
    and same: "\<forall>path. path \<notin> (\<lambda>(i, rt). actor_path rt) ` set (accounts s) \<longrightarrow> files' path = files path"
    by auto
  have path: "actor_path rt = database_path i (rt_directory rt)" if "(i, rt) \<in> set (accounts s)" for i rt
    using that live(2) by (auto simp: actor_path_def runtime_ok_def)
  have "supervisor_shutdown_all io (s, files) =
      (if list_all (\<lambda>(i, rt). io_read (io i)) (accounts s) then Inr () else Inl Persistence, supervisor_new, files')"
    using stop by (simp add: supervisor_shutdown_all_def supervisor_new_def)
  moreover have "list_all (\<lambda>(i, rt). files' (database_path i (rt_directory rt)) = final_db rt \<and> db_ok (final_db rt)) (accounts s)"
    using left live(2) runtime_shutdown_ok(2) path by (fastforce simp: list_all_iff)
  moreover have "list_all (\<lambda>(i, rt). rt_local_id rt = i \<and> db_ok (as_connection (rt_store rt)) \<and>
          files (database_path i (rt_directory rt)) = as_connection (rt_store rt)) (accounts s)"
    using live(2,3) path by (fastforce simp: list_all_iff runtime_ok_def)
  moreover have "(\<lambda>(i, rt). database_path i (rt_directory rt)) ` set (accounts s) = (\<lambda>(i, rt). actor_path rt) ` set (accounts s)"
    using path by (intro image_cong) auto
  moreover have "{path. files' path \<noteq> files path} \<subseteq> (\<lambda>(i, rt). actor_path rt) ` set (accounts s)"
    using same by blast
  ultimately show ?thesis using run ok live(1) by (simp add: btree_keys_def)
qed

end
