(* ===== verification/Device.thy ===== *)
theory Device
  imports Rust_Str
begin

text \<open>
  The synthetic device profile of \<open>crates/qq-domain/src/device.rs\<close>: portraits and profiles with their
  validation, and the snapshot codec with its reader. A \<open>String\<close> is valid UTF-8 and the arrays have
  their lengths by type; \<open>device_typed\<close> and \<open>portrait_texts\<close> state it where it is used.
\<close>

unbundle bit_operations_syntax

section \<open>Portraits and profiles\<close>

definition MAX_TEXT_BYTES :: nat where
  "MAX_TEXT_BYTES = 96"

definition SNAPSHOT_VERSION :: u8 where
  "SNAPSHOT_VERSION = 1"

datatype device_profile_error = DeviceProfileError

record device_portrait =
  dp_archetype :: rstr
  dp_profile_category :: rstr
  dp_hostname :: rstr
  dp_device_name :: rstr
  dp_hardware_model :: rstr
  dp_os_release :: rstr
  dp_distro :: rstr
  dp_desktop_environment :: rstr
  dp_session_type :: rstr
  dp_login_name :: rstr
  dp_network_interface :: rstr
  dp_root_filesystem_bytes :: rstr
  dp_memory_total_kib :: rstr
  dp_timezone :: rstr

datatype device_power = Desktop | Portable u8 bool

record device_profile =
  dev_guid :: bytes
  dev_mac_address :: bytes
  dev_device_name :: rstr
  dev_model :: rstr
  dev_system_kernel :: rstr
  dev_kernel_version :: rstr
  dev_power :: device_power
  dev_portrait :: device_portrait

definition valid_text :: "rstr \<Rightarrow> bool" where
  "valid_text v \<longleftrightarrow> v \<noteq> [] \<and> length v \<le> MAX_TEXT_BYTES \<and> is_trimmed v \<and> \<not> list_ex is_control (chars v)"

definition valid_hostname :: "rstr \<Rightarrow> bool" where
  "valid_hostname v \<longleftrightarrow> length v \<le> 63 \<and>
     list_all (\<lambda>b. is_ascii_lowercase b \<or> is_ascii_digit b \<or> b = 0x2D) v \<and>
     \<not> starts_with [0x2D] v \<and> \<not> ends_with [0x2D] v"

definition valid_positive_decimal :: "rstr \<Rightarrow> bool" where
  "valid_positive_decimal v \<longleftrightarrow>
     list_all is_ascii_digit v \<and> (case parse_u64 v of None \<Rightarrow> False | Some n \<Rightarrow> 0 < n)"

definition device_portrait_new ::
  "rstr \<Rightarrow> rstr \<Rightarrow> rstr \<Rightarrow> rstr \<Rightarrow> rstr \<Rightarrow> rstr \<Rightarrow> rstr \<Rightarrow> rstr \<Rightarrow> rstr \<Rightarrow> rstr \<Rightarrow> rstr \<Rightarrow> rstr \<Rightarrow> rstr \<Rightarrow> rstr \<Rightarrow>
   device_profile_error + device_portrait" where
  "device_portrait_new archetype profile_category hostname device_name hardware_model os_release distro
     desktop_environment session_type login_name network_interface root_filesystem_bytes memory_total_kib
     timezone =
     (if list_ex (\<lambda>v. \<not> valid_text v)
           [archetype, profile_category, hostname, device_name, hardware_model, os_release, distro,
            desktop_environment, session_type, login_name, network_interface, root_filesystem_bytes,
            memory_total_kib, timezone]
         \<or> \<not> valid_hostname hostname
         \<or> \<not> valid_positive_decimal root_filesystem_bytes
         \<or> \<not> valid_positive_decimal memory_total_kib
      then Inl DeviceProfileError
      else Inr \<lparr>dp_archetype = archetype, dp_profile_category = profile_category, dp_hostname = hostname,
                dp_device_name = device_name, dp_hardware_model = hardware_model, dp_os_release = os_release,
                dp_distro = distro, dp_desktop_environment = desktop_environment,
                dp_session_type = session_type, dp_login_name = login_name,
                dp_network_interface = network_interface,
                dp_root_filesystem_bytes = root_filesystem_bytes,
                dp_memory_total_kib = memory_total_kib, dp_timezone = timezone\<rparr>)"

text \<open>\<open>matches!(power, DevicePower::Portable { percent, .. } if percent > 100)\<close>.\<close>

fun invalid_power :: "device_power \<Rightarrow> bool" where
  "invalid_power Desktop = False"
| "invalid_power (Portable percent charging) \<longleftrightarrow> 100 < percent"

text \<open>The checks both constructors make of the stable identifiers.\<close>

definition invalid_ids :: "bytes \<Rightarrow> bytes \<Rightarrow> bool" where
  "invalid_ids guid mac \<longleftrightarrow>
     guid = replicate 16 0 \<or> mac = replicate 6 0 \<or> mac = replicate 6 0xff \<or> mac ! 0 AND 1 \<noteq> 0"

definition device_profile_new ::
  "bytes \<Rightarrow> bytes \<Rightarrow> rstr \<Rightarrow> rstr \<Rightarrow> rstr \<Rightarrow> rstr \<Rightarrow> device_power \<Rightarrow> device_profile_error + device_profile" where
  "device_profile_new guid mac device_name model system_kernel kernel_version pow =
     (if invalid_ids guid mac
         \<or> list_ex (\<lambda>v. \<not> valid_text v) [device_name, model, system_kernel, kernel_version]
         \<or> invalid_power pow
      then Inl DeviceProfileError
      else bindE (device_portrait_new (lit ''custom'') (lit ''custom'') device_name model model
                   (system_kernel @ lit '' x86_64'') (lit ''Linux'') (lit ''unknown'') (lit ''x11'')
                   (lit ''user'') (lit ''eth0'') (lit ''499963174912'') (lit ''16325684'')
                   (lit ''Asia/Shanghai'')) (\<lambda>portrait.
           Inr \<lparr>dev_guid = guid, dev_mac_address = mac, dev_device_name = device_name, dev_model = model,
                dev_system_kernel = system_kernel, dev_kernel_version = kernel_version,
                dev_power = pow, dev_portrait = portrait\<rparr>))"

definition unwrap_or_self :: "rstr option \<Rightarrow> rstr \<Rightarrow> rstr" where
  "unwrap_or_self stripped original = (case stripped of None \<Rightarrow> original | Some s \<Rightarrow> s)"

definition device_profile_from_portrait ::
  "bytes \<Rightarrow> bytes \<Rightarrow> device_portrait \<Rightarrow> device_power \<Rightarrow> device_profile_error + device_profile" where
  "device_profile_from_portrait guid mac portrait pow =
     (if invalid_ids guid mac \<or> invalid_power pow then Inl DeviceProfileError
      else
        let system_kernel = unwrap_or_self (strip_suffix (lit '' x86_64'') (dp_os_release portrait))
              (dp_os_release portrait);
            kernel_version = unwrap_or_self (strip_prefix (lit ''Linux '') system_kernel) system_kernel
        in Inr \<lparr>dev_guid = guid, dev_mac_address = mac, dev_device_name = dp_hostname portrait,
                dev_model = dp_hardware_model portrait, dev_system_kernel = system_kernel,
                dev_kernel_version = kernel_version, dev_power = pow, dev_portrait = portrait\<rparr>)"

section \<open>Snapshots\<close>

text \<open>The array of texts \<open>encode_snapshot\<close> walks, in its order.\<close>

definition portrait_texts :: "device_portrait \<Rightarrow> rstr list" where
  "portrait_texts p =
     [dp_archetype p, dp_profile_category p, dp_hostname p, dp_device_name p, dp_hardware_model p,
      dp_os_release p, dp_distro p, dp_desktop_environment p, dp_session_type p, dp_login_name p,
      dp_network_interface p, dp_root_filesystem_bytes p, dp_memory_total_kib p, dp_timezone p]"

text \<open>\<open>u8::try_from(value.len()).unwrap_or(u8::MAX)\<close> and the text.\<close>

definition snapshot_text :: "rstr \<Rightarrow> bytes" where
  "snapshot_text v = (if length v < 2 ^ 8 then of_nat (length v) else 0xff) # v"

fun snapshot_power :: "device_power \<Rightarrow> bytes" where
  "snapshot_power Desktop = [0, 0, 0]"
| "snapshot_power (Portable percent charging) = [1, percent, if charging then 1 else 0]"

definition encode_snapshot :: "device_profile \<Rightarrow> bytes" where
  "encode_snapshot p =
     SNAPSHOT_VERSION # dev_guid p @ dev_mac_address p @
     concat (map snapshot_text (portrait_texts (dev_portrait p))) @ snapshot_power (dev_power p)"

text \<open>\<open>SnapshotReader\<close>: the bytes still to read.\<close>

type_synonym 'a snapshot_op = "(bytes, device_profile_error, 'a) op"

definition snapshot_byte :: "u8 snapshot_op" where
  "snapshot_byte r = (case r of [] \<Rightarrow> (Inl DeviceProfileError, r) | b # rest \<Rightarrow> (Inr b, rest))"

definition snapshot_array :: "nat \<Rightarrow> bytes snapshot_op" where
  "snapshot_array n r = (if n \<le> length r then (Inr (take n r), drop n r) else (Inl DeviceProfileError, r))"

definition snapshot_read_text :: "rstr snapshot_op" where
  "snapshot_read_text =
     bindS snapshot_byte (\<lambda>len.
     bindS (snapshot_array (unat len)) (\<lambda>bs.
     liftS (from_utf8 DeviceProfileError bs)))"

definition snapshot_read_power :: "device_power snapshot_op" where
  "snapshot_read_power =
     bindS snapshot_byte (\<lambda>a. bindS snapshot_byte (\<lambda>b. bindS snapshot_byte (\<lambda>c.
     liftS (if a = 0 \<and> b = 0 \<and> c = 0 then Inr Desktop
            else if a = 1 \<and> (c = 0 \<or> c = 1) then Inr (Portable b (c = 1))
            else Inl DeviceProfileError))))"

text \<open>The arguments of \<open>DevicePortrait::new\<close> are read from left to right.\<close>

definition snapshot_read_portrait :: "device_portrait snapshot_op" where
  "snapshot_read_portrait =
     bindS snapshot_read_text (\<lambda>a. bindS snapshot_read_text (\<lambda>b. bindS snapshot_read_text (\<lambda>c.
     bindS snapshot_read_text (\<lambda>d. bindS snapshot_read_text (\<lambda>e. bindS snapshot_read_text (\<lambda>f.
     bindS snapshot_read_text (\<lambda>g. bindS snapshot_read_text (\<lambda>h. bindS snapshot_read_text (\<lambda>i.
     bindS snapshot_read_text (\<lambda>j. bindS snapshot_read_text (\<lambda>k. bindS snapshot_read_text (\<lambda>l.
     bindS snapshot_read_text (\<lambda>m. bindS snapshot_read_text (\<lambda>n.
     liftS (device_portrait_new a b c d e f g h i j k l m n)))))))))))))))"

definition decode_snapshot :: "bytes \<Rightarrow> device_profile_error + device_profile" where
  "decode_snapshot bs =
     fst (bindS snapshot_byte (\<lambda>version.
          bindS (liftS (guardE (version = SNAPSHOT_VERSION) DeviceProfileError)) (\<lambda>_.
          bindS (snapshot_array 16) (\<lambda>guid.
          bindS (snapshot_array 6) (\<lambda>mac.
          bindS snapshot_read_portrait (\<lambda>portrait.
          bindS snapshot_read_power (\<lambda>pow.
          bindS (\<lambda>remaining. (guardE (remaining = []) DeviceProfileError, remaining)) (\<lambda>_.
          liftS (device_profile_from_portrait guid mac portrait pow)))))))) bs)"

section \<open>What the reader accepts\<close>

lemma snapshot_byte_Inr: "snapshot_byte r = (Inr b, r') \<longleftrightarrow> r = b # r'"
  by (cases r) (auto simp: snapshot_byte_def)

lemma snapshot_array_Inr: "snapshot_array n r = (Inr bs, r') \<longleftrightarrow> length bs = n \<and> r = bs @ r'"
  by (auto simp: snapshot_array_def intro: append_take_drop_id [symmetric])

text \<open>A text the format can carry.\<close>

definition text_fits :: "rstr \<Rightarrow> bool" where
  "text_fits v \<longleftrightarrow> utf8_valid v \<and> length v < 256"

lemma snapshot_read_text_Inr:
  "snapshot_read_text r = (Inr v, r') \<longleftrightarrow> text_fits v \<and> r = snapshot_text v @ r'"
proof -
  have "snapshot_read_text r = (Inr v, r') \<longleftrightarrow>
      (\<exists>len. r = len # v @ r' \<and> unat len = length v \<and> utf8_valid v)"
    by (auto simp: snapshot_read_text_def bindS_Inr snapshot_byte_Inr snapshot_array_Inr liftS_def
        from_utf8_Inr)
  also have "\<dots> \<longleftrightarrow> text_fits v \<and> r = snapshot_text v @ r'"
  proof
    assume "\<exists>len. r = len # v @ r' \<and> unat len = length v \<and> utf8_valid v"
    then obtain len where len: "r = len # v @ r'" "unat len = length v" "utf8_valid v" by blast
    then have "length v < 256" using unat_u8_less [of len] by simp
    moreover have "of_nat (length v) = len" by (simp flip: len(2))
    ultimately show "text_fits v \<and> r = snapshot_text v @ r'"
      using len by (simp add: text_fits_def snapshot_text_def)
  next
    assume "text_fits v \<and> r = snapshot_text v @ r'"
    moreover from this have "unat (of_nat (length v) :: u8) = length v"
      by (simp add: text_fits_def of_nat_inverse)
    ultimately show "\<exists>len. r = len # v @ r' \<and> unat len = length v \<and> utf8_valid v"
      by (simp add: text_fits_def snapshot_text_def)
  qed
  finally show ?thesis .
qed

lemma snapshot_read_power_Inr:
  "snapshot_read_power r = (Inr p, r') \<longleftrightarrow> r = snapshot_power p @ r'"
  by (cases p) (auto simp: snapshot_read_power_def bindS_Inr snapshot_byte_Inr liftS_def split: if_splits,
      (metis zero_neq_one)+)

definition portrait_ok :: "device_portrait \<Rightarrow> bool" where
  "portrait_ok p \<longleftrightarrow> list_all (\<lambda>v. valid_text v \<and> utf8_valid v) (portrait_texts p) \<and> valid_hostname (dp_hostname p) \<and>
     valid_positive_decimal (dp_root_filesystem_bytes p) \<and> valid_positive_decimal (dp_memory_total_kib p)"

lemma valid_text_fits: "valid_text v \<Longrightarrow> utf8_valid v \<Longrightarrow> text_fits v"
  by (simp add: valid_text_def text_fits_def MAX_TEXT_BYTES_def)

lemma snapshot_read_portrait_Inr:
  "snapshot_read_portrait r = (Inr p, r') \<longleftrightarrow>
     portrait_ok p \<and> r = concat (map snapshot_text (portrait_texts p)) @ r'"
proof
  assume "snapshot_read_portrait r = (Inr p, r')"
  then show "portrait_ok p \<and> r = concat (map snapshot_text (portrait_texts p)) @ r'"
    unfolding snapshot_read_portrait_def bindS_Inr snapshot_read_text_Inr liftS_def
    by (auto simp: device_portrait_new_def portrait_ok_def portrait_texts_def text_fits_def split: if_splits)
next
  assume p: "portrait_ok p \<and> r = concat (map snapshot_text (portrait_texts p)) @ r'"
  then have fits: "\<And>v. v \<in> set (portrait_texts p) \<Longrightarrow> valid_text v \<and> text_fits v"
    by (auto simp: portrait_ok_def list_all_iff intro: valid_text_fits)
  then have "snapshot_read_text (snapshot_text v @ rest) = (Inr v, rest)" if "v \<in> set (portrait_texts p)" for v rest
    using that by (simp add: snapshot_read_text_Inr)
  note read = this [unfolded portrait_texts_def]
  have new: "device_portrait_new (dp_archetype p) (dp_profile_category p) (dp_hostname p) (dp_device_name p)
      (dp_hardware_model p) (dp_os_release p) (dp_distro p) (dp_desktop_environment p) (dp_session_type p)
      (dp_login_name p) (dp_network_interface p) (dp_root_filesystem_bytes p) (dp_memory_total_kib p)
      (dp_timezone p) = Inr p"
    using p fits by (simp add: device_portrait_new_def portrait_ok_def portrait_texts_def)
  show "snapshot_read_portrait r = (Inr p, r')"
    using p read by (simp add: snapshot_read_portrait_def portrait_texts_def bindS_ok liftS_def new)
qed

section \<open>Properties\<close>

text \<open>What the types of the source already say of a profile: array lengths and UTF-8 texts.\<close>

definition device_typed :: "bytes \<Rightarrow> bytes \<Rightarrow> bool" where
  "device_typed guid mac \<longleftrightarrow> length guid = 16 \<and> length mac = 6"

lemma decode_snapshot_Inr:
  "decode_snapshot bs = Inr p \<longleftrightarrow>
     (\<exists>guid mac portrait pow. device_typed guid mac \<and> portrait_ok portrait \<and>
        device_profile_from_portrait guid mac portrait pow = Inr p \<and>
        bs = SNAPSHOT_VERSION # guid @ mac @ concat (map snapshot_text (portrait_texts portrait)) @ snapshot_power pow)"
proof -
  have "decode_snapshot bs = Inr p \<longleftrightarrow> (\<exists>r. bindS snapshot_byte (\<lambda>version.
          bindS (liftS (guardE (version = SNAPSHOT_VERSION) DeviceProfileError)) (\<lambda>_.
          bindS (snapshot_array 16) (\<lambda>guid.
          bindS (snapshot_array 6) (\<lambda>mac.
          bindS snapshot_read_portrait (\<lambda>portrait.
          bindS snapshot_read_power (\<lambda>pow.
          bindS (\<lambda>remaining. (guardE (remaining = []) DeviceProfileError, remaining)) (\<lambda>_.
          liftS (device_profile_from_portrait guid mac portrait pow)))))))) bs = (Inr p, r))"
    unfolding decode_snapshot_def by (auto simp: fst_def split: prod.splits)
  also have "\<dots> \<longleftrightarrow> (\<exists>guid mac portrait pow. device_typed guid mac \<and> portrait_ok portrait \<and>
        device_profile_from_portrait guid mac portrait pow = Inr p \<and>
        bs = SNAPSHOT_VERSION # guid @ mac @ concat (map snapshot_text (portrait_texts portrait)) @ snapshot_power pow)"
    unfolding bindS_Inr snapshot_byte_Inr snapshot_array_Inr snapshot_read_portrait_Inr snapshot_read_power_Inr
      liftS_def
    by (fastforce simp: guardE_Inr device_typed_def)
  finally show ?thesis .
qed

lemma from_portrait_fields:
  "device_profile_from_portrait guid mac portrait pow = Inr p \<Longrightarrow>
   dev_guid p = guid \<and> dev_mac_address p = mac \<and> dev_portrait p = portrait \<and> dev_power p = pow"
  by (auto simp: device_profile_from_portrait_def Let_def split: if_splits)

text \<open>
  C22: A snapshot is the canonical form of a profile made from a portrait. Decoding accepts exactly
  the snapshots that encoding produces for the profiles \<open>from_portrait\<close> yields from identifiers,
  portrait and power of valid widths and texts, and returns the profile encoded. No second spelling of
  such a profile decodes, and none of its fields is lost. A profile built by \<open>new\<close> with texts that
  \<open>from_portrait\<close> would not derive from its portrait is outside: its snapshot does not keep them.
\<close>

theorem device_snapshot_canonical:
  "decode_snapshot bs = Inr p \<longleftrightarrow>
     bs = encode_snapshot p \<and> device_typed (dev_guid p) (dev_mac_address p) \<and> portrait_ok (dev_portrait p) \<and>
     device_profile_from_portrait (dev_guid p) (dev_mac_address p) (dev_portrait p) (dev_power p) = Inr p"
proof
  assume "decode_snapshot bs = Inr p"
  then obtain guid mac portrait pow where typed: "device_typed guid mac" "portrait_ok portrait"
    and made: "device_profile_from_portrait guid mac portrait pow = Inr p"
    and bs: "bs = SNAPSHOT_VERSION # guid @ mac @ concat (map snapshot_text (portrait_texts portrait)) @
      snapshot_power pow"
    unfolding decode_snapshot_Inr by blast
  from from_portrait_fields [OF made] typed made bs
  show "bs = encode_snapshot p \<and> device_typed (dev_guid p) (dev_mac_address p) \<and> portrait_ok (dev_portrait p) \<and>
     device_profile_from_portrait (dev_guid p) (dev_mac_address p) (dev_portrait p) (dev_power p) = Inr p"
    by (simp add: encode_snapshot_def)
next
  assume "bs = encode_snapshot p \<and> device_typed (dev_guid p) (dev_mac_address p) \<and> portrait_ok (dev_portrait p) \<and>
     device_profile_from_portrait (dev_guid p) (dev_mac_address p) (dev_portrait p) (dev_power p) = Inr p"
  then show "decode_snapshot bs = Inr p"
    unfolding decode_snapshot_Inr encode_snapshot_def by blast
qed

end
