(* ===== verification/Ceylith_Frame.thy ===== *)
theory Ceylith_Frame
  imports Prelude
begin

text \<open>
  The outer frames of the Ceylith protocol, \<open>crates/ceylith-protocol\<close>: errors (\<open>error.rs\<close>), bounds
  (\<open>bounds.rs\<close>), fixed-width identifiers (\<open>ids.rs\<close>), limits and frame types (\<open>frame/mod.rs\<close>) and
  the two codecs (\<open>frame/handshake.rs\<close>, \<open>frame/secure.rs\<close>). A fixed-width identifier is its bytes; its
  length is a type invariant, stated where a theorem needs it.
\<close>

section \<open>Errors and bounds\<close>

datatype frame_kind = FkHandshake | FkSecure | FkInner

datatype length_kind =
    LkOuterFrame | LkHandshakePayload | LkCiphertext | LkInnerFrame | LkField | LkCollection

datatype codec_error =
    CTruncated nat nat
  | CTrailingBytes nat nat
  | CInvalidMagic frame_kind
  | CUnsupportedVersion
  | CInvalidHandshakeStep
  | CInvalidFlags
  | CLengthLimitExceeded length_kind nat nat
  | CLengthOverflow
  | CProtobuf
  | CInvalidContract
  | CUnsupportedBody
  | CInvalidField

definition HARD_MAX_OUTER_FRAME_LEN :: nat where
  "HARD_MAX_OUTER_FRAME_LEN = 2 * 1024 * 1024"

definition DEFAULT_INNER_FRAME_LEN :: nat where
  "DEFAULT_INNER_FRAME_LEN = 60 * 1024"

definition DEFAULT_SECURE_CIPHERTEXT_LEN :: nat where
  "DEFAULT_SECURE_CIPHERTEXT_LEN = DEFAULT_INNER_FRAME_LEN + 16"

definition CURRENT_WIRE_VERSION :: u16 where
  "CURRENT_WIRE_VERSION = 2"

text \<open>\<open>*b"CYH2"\<close> and \<open>*b"CYF2"\<close>.\<close>

definition HANDSHAKE_MAGIC :: bytes where
  "HANDSHAKE_MAGIC = [0x43, 0x59, 0x48, 0x32]"

definition HANDSHAKE_HEADER_LEN :: nat where
  "HANDSHAKE_HEADER_LEN = 12"

definition SECURE_FRAME_MAGIC :: bytes where
  "SECURE_FRAME_MAGIC = [0x43, 0x59, 0x46, 0x32]"

definition SECURE_FRAME_HEADER_LEN :: nat where
  "SECURE_FRAME_HEADER_LEN = 52"

definition HARD_MAX_HANDSHAKE_PAYLOAD_LEN :: nat where
  "HARD_MAX_HANDSHAKE_PAYLOAD_LEN = HARD_MAX_OUTER_FRAME_LEN - HANDSHAKE_HEADER_LEN"

definition HARD_MAX_CIPHERTEXT_LEN :: nat where
  "HARD_MAX_CIPHERTEXT_LEN = HARD_MAX_OUTER_FRAME_LEN - SECURE_FRAME_HEADER_LEN"

named_theorems ceylith_limits
declare HARD_MAX_OUTER_FRAME_LEN_def [ceylith_limits] DEFAULT_INNER_FRAME_LEN_def [ceylith_limits]
  DEFAULT_SECURE_CIPHERTEXT_LEN_def [ceylith_limits] HANDSHAKE_HEADER_LEN_def [ceylith_limits]
  SECURE_FRAME_HEADER_LEN_def [ceylith_limits] HARD_MAX_HANDSHAKE_PAYLOAD_LEN_def [ceylith_limits]
  HARD_MAX_CIPHERTEXT_LEN_def [ceylith_limits]

text \<open>\<open>TryFrom<&[u8]>\<close> of the \<open>fixed_bytes!\<close> types, with the callers' \<open>map_err\<close>.\<close>

definition fixed_bytes :: "nat \<Rightarrow> bytes \<Rightarrow> codec_error + bytes" where
  "fixed_bytes width bs = (if length bs = width then Inr bs else Inl CInvalidField)"

section \<open>Frames\<close>

datatype handshake_step = ClientHello | ServerWelcome

fun step_code :: "handshake_step \<Rightarrow> u8" where
  "step_code ClientHello = 1"
| "step_code ServerWelcome = 2"

definition handshake_step_try_from :: "u8 \<Rightarrow> codec_error + handshake_step" where
  "handshake_step_try_from v =
     (if v = 1 then Inr ClientHello else if v = 2 then Inr ServerWelcome else Inl CInvalidHandshakeStep)"

record wire_limits =
  handshake_payload :: nat
  max_ciphertext :: nat
  inner_frame :: nat

definition enforce_limit :: "length_kind \<Rightarrow> nat \<Rightarrow> nat \<Rightarrow> codec_error + unit" where
  "enforce_limit kind actual limit =
     (if limit < actual then Inl (CLengthLimitExceeded kind limit actual) else Inr ())"

definition wire_limits_new :: "nat \<Rightarrow> nat \<Rightarrow> nat \<Rightarrow> codec_error + wire_limits" where
  "wire_limits_new max_handshake_payload_len max_ciphertext_len max_inner_frame_len =
     (if HARD_MAX_HANDSHAKE_PAYLOAD_LEN < max_handshake_payload_len then
        Inl (CLengthLimitExceeded LkHandshakePayload HARD_MAX_HANDSHAKE_PAYLOAD_LEN max_handshake_payload_len)
      else if HARD_MAX_CIPHERTEXT_LEN < max_ciphertext_len then
        Inl (CLengthLimitExceeded LkCiphertext HARD_MAX_CIPHERTEXT_LEN max_ciphertext_len)
      else if HARD_MAX_OUTER_FRAME_LEN < max_inner_frame_len then
        Inl (CLengthLimitExceeded LkInnerFrame HARD_MAX_OUTER_FRAME_LEN max_inner_frame_len)
      else Inr \<lparr>handshake_payload = max_handshake_payload_len, max_ciphertext = max_ciphertext_len,
                inner_frame = max_inner_frame_len\<rparr>)"

definition wire_limits_default :: wire_limits where
  "wire_limits_default =
     \<lparr>handshake_payload = HARD_MAX_HANDSHAKE_PAYLOAD_LEN, max_ciphertext = DEFAULT_SECURE_CIPHERTEXT_LEN,
      inner_frame = DEFAULT_INNER_FRAME_LEN\<rparr>"

record handshake_envelope =
  he_step :: handshake_step
  he_payload :: bytes

definition handshake_envelope_new ::
  "handshake_step \<Rightarrow> bytes \<Rightarrow> wire_limits \<Rightarrow> codec_error + handshake_envelope" where
  "handshake_envelope_new s payload limits =
     bindE (enforce_limit LkHandshakePayload (length payload) (handshake_payload limits)) (\<lambda>_.
     Inr \<lparr>he_step = s, he_payload = payload\<rparr>)"

record secure_frame =
  fr_session_id :: bytes
  fr_counter :: u64
  fr_request_id :: bytes
  fr_ciphertext :: bytes

definition secure_frame_new ::
  "bytes \<Rightarrow> u64 \<Rightarrow> bytes \<Rightarrow> bytes \<Rightarrow> wire_limits \<Rightarrow> codec_error + secure_frame" where
  "secure_frame_new session_id counter request_id ciphertext limits =
     bindE (enforce_limit LkCiphertext (length ciphertext) (max_ciphertext limits)) (\<lambda>_.
     Inr \<lparr>fr_session_id = session_id, fr_counter = counter, fr_request_id = request_id,
          fr_ciphertext = ciphertext\<rparr>)"

definition validate_version :: "u16 \<Rightarrow> codec_error + unit" where
  "validate_version version = (if version = CURRENT_WIRE_VERSION then Inr () else Inl CUnsupportedVersion)"

definition decode_u32_len :: "bytes \<Rightarrow> codec_error + nat" where
  "decode_u32_len bs = (if length bs = 4 then Inr (unat (from_be bs :: u32)) else Inl CLengthOverflow)"

definition require_header :: "bytes \<Rightarrow> nat \<Rightarrow> codec_error + unit" where
  "require_header input needed =
     (if length input < needed then Inl (CTruncated needed (length input)) else Inr ())"

definition require_exact_len :: "bytes \<Rightarrow> nat \<Rightarrow> codec_error + unit" where
  "require_exact_len input expected =
     (if length input < expected then Inl (CTruncated expected (length input))
      else if expected < length input then Inl (CTrailingBytes expected (length input))
      else Inr ())"

text \<open>\<open>u32::try_from(len)\<close>.\<close>

definition u32_len :: "nat \<Rightarrow> codec_error + u32" where
  "u32_len n = (if n < 2 ^ 32 then Inr (of_nat n) else Inl CLengthOverflow)"

text \<open>\<open>&input[a..b]\<close>; every use is behind a length check.\<close>

definition slice :: "nat \<Rightarrow> nat \<Rightarrow> bytes \<Rightarrow> bytes" where
  "slice a b input = take (b - a) (drop a input)"

section \<open>Handshake envelopes\<close>

definition encode_handshake_envelope :: "handshake_envelope \<Rightarrow> wire_limits \<Rightarrow> codec_error + bytes" where
  "encode_handshake_envelope envelope limits =
     (let payload_len = length (he_payload envelope) in
      bindE (enforce_limit LkHandshakePayload payload_len (handshake_payload limits)) (\<lambda>_.
      bindE (ok_or CLengthOverflow (usize_add HANDSHAKE_HEADER_LEN payload_len)) (\<lambda>total_len.
      bindE (enforce_limit LkOuterFrame total_len HARD_MAX_OUTER_FRAME_LEN) (\<lambda>_.
      bindE (u32_len payload_len) (\<lambda>encoded_len.
      Inr (HANDSHAKE_MAGIC @ to_be 2 CURRENT_WIRE_VERSION @ [step_code (he_step envelope)] @ [0] @
           to_be 4 encoded_len @ he_payload envelope))))))"

definition decode_handshake_envelope :: "bytes \<Rightarrow> wire_limits \<Rightarrow> codec_error + handshake_envelope" where
  "decode_handshake_envelope input limits =
     bindE (require_header input HANDSHAKE_HEADER_LEN) (\<lambda>_.
     if slice 0 4 input \<noteq> HANDSHAKE_MAGIC then Inl (CInvalidMagic FkHandshake)
     else
       bindE (validate_version (from_be [input ! 4, input ! 5])) (\<lambda>_.
       bindE (handshake_step_try_from (input ! 6)) (\<lambda>s.
       if input ! 7 \<noteq> 0 then Inl CInvalidFlags
       else
         bindE (decode_u32_len (slice 8 12 input)) (\<lambda>declared.
         bindE (enforce_limit LkHandshakePayload declared (handshake_payload limits)) (\<lambda>_.
         bindE (ok_or CLengthOverflow (usize_add HANDSHAKE_HEADER_LEN declared)) (\<lambda>total_len.
         bindE (require_exact_len input total_len) (\<lambda>_.
         handshake_envelope_new s (drop HANDSHAKE_HEADER_LEN input) limits)))))))"

section \<open>Secure frames\<close>

definition encode_secure_frame_header ::
  "bytes \<Rightarrow> u64 \<Rightarrow> bytes \<Rightarrow> nat \<Rightarrow> wire_limits \<Rightarrow> codec_error + bytes" where
  "encode_secure_frame_header session_id counter request_id ciphertext_len limits =
     bindE (enforce_limit LkCiphertext ciphertext_len (max_ciphertext limits)) (\<lambda>_.
     bindE (ok_or CLengthOverflow (usize_add SECURE_FRAME_HEADER_LEN ciphertext_len)) (\<lambda>total_len.
     bindE (enforce_limit LkOuterFrame total_len HARD_MAX_OUTER_FRAME_LEN) (\<lambda>_.
     bindE (u32_len ciphertext_len) (\<lambda>encoded_len.
     Inr (SECURE_FRAME_MAGIC @ to_be 2 CURRENT_WIRE_VERSION @ to_be 2 (0 :: u16) @ session_id @
          to_be 8 counter @ request_id @ to_be 4 encoded_len)))))"

definition encode_secure_frame :: "secure_frame \<Rightarrow> wire_limits \<Rightarrow> codec_error + bytes" where
  "encode_secure_frame frame limits =
     bindE (encode_secure_frame_header (fr_session_id frame) (fr_counter frame) (fr_request_id frame)
              (length (fr_ciphertext frame)) limits) (\<lambda>header.
     bindE (ok_or CLengthOverflow (usize_add (length header) (length (fr_ciphertext frame)))) (\<lambda>_.
     Inr (header @ fr_ciphertext frame)))"

definition decode_secure_frame :: "bytes \<Rightarrow> wire_limits \<Rightarrow> codec_error + secure_frame" where
  "decode_secure_frame input limits =
     bindE (require_header input SECURE_FRAME_HEADER_LEN) (\<lambda>_.
     if slice 0 4 input \<noteq> SECURE_FRAME_MAGIC then Inl (CInvalidMagic FkSecure)
     else
       bindE (validate_version (from_be [input ! 4, input ! 5])) (\<lambda>_.
       if slice 6 8 input \<noteq> [0, 0] then Inl CInvalidFlags
       else
         bindE (fixed_bytes 16 (slice 8 24 input)) (\<lambda>session_id.
         let counter = from_be (slice 24 32 input) in
         bindE (fixed_bytes 16 (slice 32 48 input)) (\<lambda>request_id.
         bindE (decode_u32_len (slice 48 52 input)) (\<lambda>declared.
         bindE (enforce_limit LkCiphertext declared (max_ciphertext limits)) (\<lambda>_.
         bindE (ok_or CLengthOverflow (usize_add SECURE_FRAME_HEADER_LEN declared)) (\<lambda>total_len.
         bindE (require_exact_len input total_len) (\<lambda>_.
         secure_frame_new session_id counter request_id (drop SECURE_FRAME_HEADER_LEN input) limits))))))))"

section \<open>The formats\<close>

definition limits_ok :: "wire_limits \<Rightarrow> bool" where
  "limits_ok limits \<longleftrightarrow> handshake_payload limits \<le> HARD_MAX_HANDSHAKE_PAYLOAD_LEN \<and>
     max_ciphertext limits \<le> HARD_MAX_CIPHERTEXT_LEN \<and> inner_frame limits \<le> HARD_MAX_OUTER_FRAME_LEN"

lemma wire_limits_new_ok: "wire_limits_new a b c = Inr limits \<Longrightarrow> limits_ok limits"
  by (auto simp: wire_limits_new_def limits_ok_def split: if_splits)

lemma wire_limits_default_ok: "limits_ok wire_limits_default"
  by (simp add: wire_limits_default_def limits_ok_def ceylith_limits)

definition handshake_layout :: "handshake_envelope \<Rightarrow> bytes" where
  "handshake_layout e = HANDSHAKE_MAGIC @ to_be 2 CURRENT_WIRE_VERSION @ [step_code (he_step e), 0] @
     to_be 4 (of_nat (length (he_payload e)) :: u32) @ he_payload e"

definition secure_layout :: "secure_frame \<Rightarrow> bytes" where
  "secure_layout f = SECURE_FRAME_MAGIC @ to_be 2 CURRENT_WIRE_VERSION @ [0, 0] @ fr_session_id f @
     to_be 8 (fr_counter f) @ fr_request_id f @ to_be 4 (of_nat (length (fr_ciphertext f)) :: u32) @
     fr_ciphertext f"

definition secure_typed :: "secure_frame \<Rightarrow> bool" where
  "secure_typed f \<longleftrightarrow> length (fr_session_id f) = 16 \<and> length (fr_request_id f) = 16"

lemma enforce_limit_Inr [simp]: "enforce_limit k n limit = Inr u \<longleftrightarrow> n \<le> limit"
  by (auto simp: enforce_limit_def)

lemma require_header_Inr [simp]: "require_header input n = Inr u \<longleftrightarrow> n \<le> length input"
  by (auto simp: require_header_def)

lemma require_exact_len_Inr [simp]: "require_exact_len input n = Inr u \<longleftrightarrow> length input = n"
  by (auto simp: require_exact_len_def)

lemma validate_version_Inr [simp]: "validate_version v = Inr u \<longleftrightarrow> v = 2"
  by (auto simp: validate_version_def CURRENT_WIRE_VERSION_def)

lemma fixed_bytes_Inr [simp]: "fixed_bytes n bs = Inr r \<longleftrightarrow> r = bs \<and> length bs = n"
  by (auto simp: fixed_bytes_def)

lemma step_try_from_Inr [simp]: "handshake_step_try_from v = Inr s \<longleftrightarrow> v = step_code s"
  by (cases s) (auto simp: handshake_step_try_from_def)

lemma encode_handshake_Inr:
  assumes "limits_ok limits"
  shows "encode_handshake_envelope e limits = Inr bs \<longleftrightarrow>
    length (he_payload e) \<le> handshake_payload limits \<and> bs = handshake_layout e"
  using assms
  by (auto simp: encode_handshake_envelope_def handshake_layout_def bindE_Inr Let_def usize_add_def u32_len_def
      usize_limit_def limits_ok_def ceylith_limits ok_or_def)

lemma to_be_zero_u16 [simp]: "to_be 2 (0 :: u16) = [0, 0]"
  by (simp add: to_be_def nat_be_numeral)

lemma encode_secure_Inr:
  assumes "limits_ok limits" "secure_typed f"
  shows "encode_secure_frame f limits = Inr bs \<longleftrightarrow>
    length (fr_ciphertext f) \<le> max_ciphertext limits \<and> bs = secure_layout f"
  using assms
  by (auto simp: encode_secure_frame_def encode_secure_frame_header_def secure_layout_def bindE_Inr Let_def
      usize_add_def u32_len_def usize_limit_def limits_ok_def ceylith_limits ok_or_def secure_typed_def
      SECURE_FRAME_MAGIC_def to_be_u16)

lemma slice_here: "length xs = n \<Longrightarrow> slice 0 n (xs @ ys) = xs"
  by (simp add: slice_def)

lemma slice_after: "length xs = k \<Longrightarrow> k \<le> a \<Longrightarrow> slice a b (xs @ ys) = slice (a - k) (b - k) ys"
  by (simp add: slice_def)

lemma chop: "sum_list ns \<le> length xs \<Longrightarrow> \<exists>parts rest. xs = concat parts @ rest \<and> map length parts = ns"
proof (induction ns arbitrary: xs)
  case (Cons n ns)
  then have "sum_list ns \<le> length (drop n xs)" by simp
  from Cons.IH [OF this] obtain parts rest where "drop n xs = concat parts @ rest" "map length parts = ns"
    by blast
  with Cons.prems have "xs = concat (take n xs # parts) @ rest \<and> map length (take n xs # parts) = n # ns"
    by (metis append_assoc append_take_drop_id concat.simps(2) length_take list.simps(9) min.absorb2
        add_leD1 sum_list.Cons)
  then show ?case by (intro exI [of _ "take n xs # parts"] exI [of _ rest])
qed simp

lemma from_be_two: "length b = 2 \<Longrightarrow> from_be [b ! 0, b ! 1] = (from_be b :: u16)"
  by (cases b; cases "tl b") auto

lemma from_be_eq: "length b = 2 \<Longrightarrow> (from_be b = (w :: u16)) \<longleftrightarrow> b = to_be 2 w"
  using to_be_u16 by force

lemma length_two_eq: "length b = 2 \<Longrightarrow> b = [x, y] \<longleftrightarrow> b ! 0 = x \<and> b ! 1 = y"
  by (cases b; cases "tl b") auto

lemma length_magic [simp]: "length HANDSHAKE_MAGIC = 4" "length SECURE_FRAME_MAGIC = 4"
  by (simp_all add: HANDSHAKE_MAGIC_def SECURE_FRAME_MAGIC_def)

lemma declared_eq:
  assumes "length len = 4" "k < 2 ^ 32"
  shows "unat (from_be len :: u32) = k \<longleftrightarrow> len = to_be 4 (of_nat k :: u32)"
proof
  assume "unat (from_be len :: u32) = k"
  then have "of_nat k = (from_be len :: u32)" by auto
  then show "len = to_be 4 (of_nat k :: u32)" using to_be_u32 [OF assms(1)] by simp
next
  assume "len = to_be 4 (of_nat k :: u32)"
  then show "unat (from_be len :: u32) = k" using assms(2) by (simp add: of_nat_inverse)
qed

lemma decode_handshake_Inr:
  assumes "limits_ok limits"
  shows "decode_handshake_envelope input limits = Inr e \<longleftrightarrow>
    length (he_payload e) \<le> handshake_payload limits \<and> input = handshake_layout e"
proof (cases "12 \<le> length input")
  case False
  then show ?thesis
    by (auto simp: decode_handshake_envelope_def bindE_Inr handshake_layout_def HANDSHAKE_MAGIC_def
        HANDSHAKE_HEADER_LEN_def)
next
  case True
  then have "sum_list [4, 2, 1, 1, 4] \<le> length input" by simp
  from chop [OF this] obtain magic version sb fb len payload where
    cut: "input = magic @ version @ sb @ fb @ len @ payload" "length magic = 4" "length version = 2"
    "length sb = 1" "length fb = 1" "length len = 4"
    by (auto simp: map_eq_Cons_conv)
  then obtain s f where one: "sb = [s]" "fb = [f]"
    by (auto simp: length_Suc_conv numeral_eq_Suc)
  note input = cut(1) [unfolded one]
  have parts: "slice 0 4 input = magic" "from_be [input ! 4, input ! 5] = (from_be version :: u16)"
    "input ! 6 = s" "input ! 7 = f" "slice 8 12 input = len" "drop 12 input = payload"
    using cut(2,3,6) from_be_two [of version]
    by (simp_all add: input slice_here slice_after nth_append) (simp add: slice_def)
  have "decode_handshake_envelope input limits = Inr e \<longleftrightarrow>
      magic = HANDSHAKE_MAGIC \<and> version = to_be 2 CURRENT_WIRE_VERSION \<and> s = step_code (he_step e) \<and> f = 0 \<and>
      len = to_be 4 (of_nat (length (he_payload e)) :: u32) \<and> payload = he_payload e \<and>
      length (he_payload e) \<le> handshake_payload limits"
  proof -
    have "decode_handshake_envelope input limits = Inr e \<longleftrightarrow>
        magic = HANDSHAKE_MAGIC \<and> (from_be version :: u16) = 2 \<and> s = step_code (he_step e) \<and> f = 0 \<and>
        unat (from_be len :: u32) \<le> handshake_payload limits \<and> length payload = unat (from_be len :: u32) \<and>
        payload = he_payload e"
      using cut(2-6) assms unfolding decode_handshake_envelope_def HANDSHAKE_HEADER_LEN_def parts
      by (cases e) (auto simp: bindE_Inr decode_u32_len_def usize_add_def ok_or_def input limits_ok_def one
          ceylith_limits usize_limit_def handshake_envelope_new_def)
    also have "\<dots> \<longleftrightarrow> magic = HANDSHAKE_MAGIC \<and> version = to_be 2 CURRENT_WIRE_VERSION \<and>
        s = step_code (he_step e) \<and> f = 0 \<and> len = to_be 4 (of_nat (length (he_payload e)) :: u32) \<and>
        payload = he_payload e \<and> length (he_payload e) \<le> handshake_payload limits"
    proof -
      have "len = to_be 4 (of_nat (length (he_payload e)) :: u32) \<longleftrightarrow>
          unat (from_be len :: u32) = length (he_payload e)"
        if "length (he_payload e) \<le> handshake_payload limits"
        using that assms declared_eq [OF cut(6), of "length (he_payload e)"]
        by (simp add: limits_ok_def ceylith_limits)
      then show ?thesis
        using from_be_eq [OF cut(3), of 2] by (auto simp: CURRENT_WIRE_VERSION_def)
    qed
    finally show ?thesis .
  qed
  moreover have "input = handshake_layout e \<longleftrightarrow>
      magic = HANDSHAKE_MAGIC \<and> version = to_be 2 CURRENT_WIRE_VERSION \<and> s = step_code (he_step e) \<and> f = 0 \<and>
      len = to_be 4 (of_nat (length (he_payload e)) :: u32) \<and> payload = he_payload e"
    using cut(2,3,6) by (simp add: input handshake_layout_def append_eq_append_conv)
  ultimately show ?thesis by blast
qed

lemma decode_secure_Inr:
  assumes "limits_ok limits"
  shows "decode_secure_frame input limits = Inr frame \<longleftrightarrow>
    secure_typed frame \<and> length (fr_ciphertext frame) \<le> max_ciphertext limits \<and> input = secure_layout frame"
proof (cases "52 \<le> length input")
  case False
  then show ?thesis
    by (auto simp: decode_secure_frame_def bindE_Inr secure_layout_def secure_typed_def SECURE_FRAME_HEADER_LEN_def)
next
  case True
  then have "sum_list [4, 2, 2, 16, 8, 16, 4] \<le> length input" by simp
  from chop [OF this] obtain magic version flags session counter request len ciphertext where
    input: "input = magic @ version @ flags @ session @ counter @ request @ len @ ciphertext"
    and cut: "length magic = 4" "length version = 2" "length flags = 2" "length session = 16"
    "length counter = 8" "length request = 16" "length len = 4"
    by (auto simp: map_eq_Cons_conv)
  have parts: "slice 0 4 input = magic" "from_be [input ! 4, input ! 5] = (from_be version :: u16)"
    "slice 6 8 input = flags" "slice 8 24 input = session" "slice 24 32 input = counter"
    "slice 32 48 input = request" "slice 48 52 input = len" "drop 52 input = ciphertext"
    using cut from_be_two [of version]
    by (simp_all add: input slice_here slice_after nth_append)
  have "decode_secure_frame input limits = Inr frame \<longleftrightarrow>
      magic = SECURE_FRAME_MAGIC \<and> (from_be version :: u16) = 2 \<and> flags = [0, 0] \<and>
      unat (from_be len :: u32) \<le> max_ciphertext limits \<and> length ciphertext = unat (from_be len :: u32) \<and>
      session = fr_session_id frame \<and> from_be counter = fr_counter frame \<and> request = fr_request_id frame \<and>
      ciphertext = fr_ciphertext frame"
    using cut assms unfolding decode_secure_frame_def SECURE_FRAME_HEADER_LEN_def parts
    by (cases frame) (auto simp: bindE_Inr decode_u32_len_def usize_add_def ok_or_def input limits_ok_def Let_def
        ceylith_limits usize_limit_def secure_frame_new_def)
  moreover have "len = to_be 4 (of_nat (length (fr_ciphertext frame)) :: u32) \<longleftrightarrow>
      unat (from_be len :: u32) = length (fr_ciphertext frame)"
    if "length (fr_ciphertext frame) \<le> max_ciphertext limits"
    using that assms declared_eq [OF cut(7), of "length (fr_ciphertext frame)"]
    by (simp add: limits_ok_def ceylith_limits)
  moreover have "counter = to_be 8 (fr_counter frame) \<longleftrightarrow> from_be counter = fr_counter frame"
    using to_be_u64 [OF cut(5)] by auto
  moreover have "(from_be version :: u16) = 2 \<longleftrightarrow> version = to_be 2 CURRENT_WIRE_VERSION"
    using from_be_eq [OF cut(2), of 2] by (simp add: CURRENT_WIRE_VERSION_def)
  moreover have "input = secure_layout frame \<longleftrightarrow> magic = SECURE_FRAME_MAGIC \<and>
      version = to_be 2 CURRENT_WIRE_VERSION \<and> flags = [0, 0] \<and> session = fr_session_id frame \<and>
      counter = to_be 8 (fr_counter frame) \<and> request = fr_request_id frame \<and>
      len = to_be 4 (of_nat (length (fr_ciphertext frame)) :: u32) \<and> ciphertext = fr_ciphertext frame"
    if "secure_typed frame"
  proof -
    obtain x y where "flags = [x, y]" using cut(3) by (auto simp: length_Suc_conv numeral_eq_Suc)
    then show ?thesis
      using cut that by (simp add: input secure_typed_def secure_layout_def append_eq_append_conv)
  qed
  moreover have "secure_typed frame" if "session = fr_session_id frame" "request = fr_request_id frame"
    using that cut by (simp add: secure_typed_def)
  ultimately show ?thesis by metis
qed

text \<open>
  C23: The outer frames are canonical. Under limits that \<open>WireLimits::new\<close> accepts, decoding an input
  yields a frame exactly when encoding that frame yields the input, for handshake envelopes and for
  encrypted frames (whose identifiers have their fixed width): no input is accepted that the encoder
  would not emit, and every emitted frame is read back as it was.
\<close>

theorem outer_frames_canonical:
  assumes "wire_limits_new a b c = Inr limits"
  shows "(decode_handshake_envelope input limits = Inr envelope \<longleftrightarrow>
       encode_handshake_envelope envelope limits = Inr input) \<and>
     (decode_secure_frame input limits = Inr frame \<longleftrightarrow>
       secure_typed frame \<and> encode_secure_frame frame limits = Inr input)"
proof
  have ok: "limits_ok limits" using assms by (rule wire_limits_new_ok)
  show "decode_handshake_envelope input limits = Inr envelope \<longleftrightarrow>
      encode_handshake_envelope envelope limits = Inr input"
    by (simp add: decode_handshake_Inr [OF ok] encode_handshake_Inr [OF ok])
  show "decode_secure_frame input limits = Inr frame \<longleftrightarrow>
      secure_typed frame \<and> encode_secure_frame frame limits = Inr input"
    using encode_secure_Inr [OF ok] decode_secure_Inr [OF ok] by blast
qed

theorem outer_frames_canonical_witness:
  "encode_handshake_envelope \<lparr>he_step = ServerWelcome, he_payload = [7, 8]\<rparr>
     \<lparr>handshake_payload = 64, max_ciphertext = 64, inner_frame = 64\<rparr> =
     Inr [0x43, 0x59, 0x48, 0x32, 0, 2, 2, 0, 0, 0, 0, 2, 7, 8] \<and>
   decode_handshake_envelope [0x43, 0x59, 0x48, 0x32, 0, 2, 2, 0, 0, 0, 0, 2, 7, 8]
     \<lparr>handshake_payload = 64, max_ciphertext = 64, inner_frame = 64\<rparr> =
     Inr \<lparr>he_step = ServerWelcome, he_payload = [7, 8]\<rparr>"
proof -
  let ?limits = "\<lparr>handshake_payload = 64, max_ciphertext = 64, inner_frame = 64\<rparr>"
  have limits: "wire_limits_new 64 64 64 = Inr ?limits"
    by (simp add: wire_limits_new_def ceylith_limits)
  have "encode_handshake_envelope \<lparr>he_step = ServerWelcome, he_payload = [7, 8]\<rparr> ?limits =
      Inr [0x43, 0x59, 0x48, 0x32, 0, 2, 2, 0, 0, 0, 0, 2, 7, 8]"
    by (simp add: encode_handshake_Inr [OF wire_limits_new_ok [OF limits]] handshake_layout_def
        HANDSHAKE_MAGIC_def CURRENT_WIRE_VERSION_def to_be_def nat_be_numeral)
  then show ?thesis
    using outer_frames_canonical [OF limits, of "[0x43, 0x59, 0x48, 0x32, 0, 2, 2, 0, 0, 0, 0, 2, 7, 8]"
      "\<lparr>he_step = ServerWelcome, he_payload = [7, 8]\<rparr>"] by blast
qed

end
