(* ===== verification/Ceylith_Scan.thy ===== *)
theory Ceylith_Scan
  imports Ceylith_Frame Marked
begin

text \<open>
  The pre-decoding scan of inner frames, \<open>crates/ceylith-protocol/src/inner/wire_scan.rs\<close>: the raw
  protobuf bytes are walked before the generated decoder sees them, so that repeated contracts and
  bodies, which protobuf would merge, and tags without a compiled body in the range of bodies are refused. The state of the readers is the position. What a
  varint and a field body are is shared with the theory \<open>Marked\<close>.
\<close>

unbundle bit_operations_syntax

section \<open>The scan\<close>

definition CURRENT_INNER_CONTRACT :: u32 where
  "CURRENT_INNER_CONTRACT = 4"

definition MIN_BODY_TAG :: u64 where
  "MIN_BODY_TAG = 10"

definition MAX_BODY_TAG :: u64 where
  "MAX_BODY_TAG = 63"

definition known_body_tag :: "u64 \<Rightarrow> bool" where
  "known_body_tag tag \<longleftrightarrow> tag \<in> {10, 11, 12, 13, 14, 15, 16, 17, 18, 19, 20, 21, 63}"

text \<open>The loop of \<open>read_varint\<close> over \<open>(0..70).step_by(7)\<close>.\<close>

function scan_varint_at :: "bytes \<Rightarrow> nat \<Rightarrow> u64 \<Rightarrow> (nat, codec_error, u64) op" where
  "scan_varint_at input shift acc position =
     (if shift < 70 then
        if length input \<le> position
        then (Inl (CTruncated (min (position + 1) (usize_limit - 1)) (length input)), position)
        else let b = input ! position in
          case usize_add position 1 of
            None \<Rightarrow> (Inl CLengthOverflow, position)
          | Some position' \<Rightarrow>
              if shift = 63 \<and> 1 < b then (Inl CProtobuf, position')
              else let acc' = acc OR push_bit shift (ucast (b AND 0x7f)) in
                if b AND 0x80 = 0 then (Inr acc', position')
                else scan_varint_at input (shift + 7) acc' position'
      else (Inl CProtobuf, position))"
  by pat_completeness auto
termination
  by (relation "measure (\<lambda>(_, shift, _, _). 70 - shift)") auto

declare scan_varint_at.simps [simp del]

definition scan_varint :: "bytes \<Rightarrow> (nat, codec_error, u64) op" where
  "scan_varint input = scan_varint_at input 0 0"

text \<open>The bounds check and the move at the end of \<open>skip_value\<close>.\<close>

definition skip_width :: "bytes \<Rightarrow> nat \<Rightarrow> (nat, codec_error, unit) op" where
  "skip_width input n position =
     (case usize_add position n of
        None \<Rightarrow> (Inl CLengthOverflow, position)
      | Some stop \<Rightarrow>
          if length input < stop then (Inl (CTruncated stop (length input)), position)
          else (Inr (), stop))"

definition skip_value :: "bytes \<Rightarrow> u64 \<Rightarrow> (nat, codec_error, unit) op" where
  "skip_value input wire_type =
     (if wire_type = 0 then bindS (scan_varint input) (\<lambda>_. retS ())
      else if wire_type = 1 then skip_width input 8
      else if wire_type = 2 then bindS (scan_varint input) (\<lambda>len. skip_width input (unat len))
      else if wire_type = 5 then skip_width input 4
      else failS CProtobuf)"

text \<open>On success the readers are those of the identity encoder.\<close>

lemma scan_varint_at_ok:
  assumes "slice_ok input"
  shows "scan_varint_at input shift acc position = (Inr v, position') \<longleftrightarrow>
    read_varint_at input shift acc position = (Inr v, position')"
  using assms
proof (induction input shift acc position rule: scan_varint_at.induct)
  case (1 input shift acc position)
  have next_ok: "usize_add position 1 = Some (Suc position)" if "position < length input"
    using that 1 by (simp add: usize_limit_def slice_ok_def)
  show ?case
    by (subst scan_varint_at.simps, subst read_varint_at.simps)
      (use 1 next_ok in \<open>simp add: Let_def not_le del: usize_add_Some\<close>)
qed

lemma scan_varint_ok:
  "slice_ok input \<Longrightarrow> scan_varint input position = (Inr v, position') \<longleftrightarrow>
   read_varint input position = (Inr v, position')"
  by (simp add: scan_varint_def read_varint_def scan_varint_at_ok)

lemma skip_width_ok:
  "skip_width input n position = (Inr u, position') \<longleftrightarrow> skip_by input n position = (Inr u, position')"
  by (auto simp: skip_width_def skip_by_def split: option.splits)

lemma skip_value_ok:
  "slice_ok input \<Longrightarrow> skip_value input wire_type position = (Inr u, position') \<longleftrightarrow>
   skip_field input wire_type position = (Inr u, position')"
  by (simp add: skip_value_def skip_field_def bindS_Inr scan_varint_ok skip_width_ok retS_def failS_def)

lemma scan_varint_at_progress:
  "scan_varint_at input shift acc position = (Inr v, position') \<Longrightarrow>
   position < position' \<and> position' \<le> length input"
proof (induction input shift acc position rule: scan_varint_at.induct)
  case (1 input shift acc position)
  from "1.prems" show ?case
    unfolding scan_varint_at.simps [of input shift]
    using "1.IH" by (auto simp: Let_def split: if_splits option.splits dest: Suc_lessD)
qed

lemma skip_width_forward: "skip_width input n position = (Inr u, position') \<Longrightarrow> position \<le> position'"
  by (auto simp: skip_width_def split: option.splits if_splits)

lemma skip_value_forward: "skip_value input wire_type position = (Inr u, position') \<Longrightarrow> position \<le> position'"
  by (auto simp: skip_value_def bindS_Inr scan_varint_def retS_def failS_def
      dest!: scan_varint_at_progress skip_width_forward split: if_splits)

text \<open>The loop of \<open>validate_top_level\<close> and the checks after it.\<close>

function scan_loop :: "bytes \<Rightarrow> nat \<Rightarrow> bool \<Rightarrow> bool \<Rightarrow> codec_error + unit" where
  "scan_loop input position contract_seen body_seen =
     (if position < length input then
        (case scan_varint input position of
           (Inl e, _) \<Rightarrow> Inl e
         | (Inr key, position1) \<Rightarrow>
             let tag = drop_bit 3 key; wire_type = key AND 7;
                 body_tag = (MIN_BODY_TAG \<le> tag \<and> tag \<le> MAX_BODY_TAG) in
             if tag = 0 then Inl CProtobuf
             else if tag = 1 then
               (if contract_seen \<or> wire_type \<noteq> 0 then Inl CInvalidContract
                else case scan_varint input position1 of
                  (Inl e, _) \<Rightarrow> Inl e
                | (Inr contract, position2) \<Rightarrow>
                    if contract \<noteq> ucast CURRENT_INNER_CONTRACT then Inl CInvalidContract
                    else scan_loop input position2 True body_seen)
             else if body_tag \<and> (\<not> known_body_tag tag \<or> body_seen \<or> wire_type \<noteq> 2)
             then Inl CUnsupportedBody
             else (case skip_value input wire_type position1 of
                  (Inl e, _) \<Rightarrow> Inl e
                | (Inr _, position2) \<Rightarrow> scan_loop input position2 contract_seen (body_seen \<or> body_tag)))
      else if \<not> contract_seen then Inl CInvalidContract
      else if \<not> body_seen then Inl CUnsupportedBody
      else Inr ())"
  by pat_completeness auto
termination
proof (relation "measure (\<lambda>(input, position, _). length input - position)", goal_cases)
  case (2 input position contract_seen body_seen r position1 key tag wire_type body_tag q position2 contract)
  then have "position < position1" "position1 \<le> length input" "position1 < position2"
    unfolding scan_varint_def by (auto dest!: scan_varint_at_progress sym [of _ "scan_varint_at _ _ _ _"])
  with 2 show ?case by simp
next
  case (3 input position contract_seen body_seen r position1 key tag wire_type body_tag q position2 u)
  then have "position < position1" "position1 \<le> length input"
    unfolding scan_varint_def by (auto dest!: scan_varint_at_progress sym [of _ "scan_varint_at _ _ _ _"])
  moreover have "position1 \<le> position2"
    using 3 skip_value_forward [of input wire_type position1 u position2] by simp
  ultimately show ?case using 3 by simp
qed simp

declare scan_loop.simps [simp del]

definition validate_top_level :: "bytes \<Rightarrow> codec_error + unit" where
  "validate_top_level input = scan_loop input 0 False False"

section \<open>What the scan accepts\<close>

definition is_body_tag :: "u64 \<Rightarrow> bool" where
  "is_body_tag tag \<longleftrightarrow> 10 \<le> tag \<and> tag \<le> 63"

lemma body_tag_bounds: "MIN_BODY_TAG \<le> tag \<and> tag \<le> MAX_BODY_TAG \<longleftrightarrow> is_body_tag tag"
  by (simp add: is_body_tag_def MIN_BODY_TAG_def MAX_BODY_TAG_def)

lemma not_body_tag [simp]: "\<not> is_body_tag 0" "\<not> is_body_tag 1"
  by (simp_all add: is_body_tag_def word_le_nat_alt)

text \<open>The bytes of one admissible field: the contract varint, a known body, or any other field.\<close>

definition scan_field :: "u64 \<Rightarrow> bytes \<Rightarrow> bool" where
  "scan_field tag raw \<longleftrightarrow> (\<exists>key kb body. raw = kb @ body \<and> is_varint 0 0 kb key \<and> tag = drop_bit 3 key \<and> tag \<noteq> 0 \<and>
     (if tag = 1 then key AND 7 = 0 \<and> is_varint 0 0 body 4
      else is_body (key AND 7) body \<and> (is_body_tag tag \<longrightarrow> known_body_tag tag \<and> key AND 7 = 2)))"

lemma scan_field_nonempty: "scan_field tag raw \<Longrightarrow> raw \<noteq> []"
  by (auto simp: scan_field_def)

text \<open>Reading a key and then its value, as one field of the remaining input.\<close>

lemma scan_loop_unfold:
  assumes size: "slice_ok input" and lt: "position < length input"
  shows "scan_loop input position cs bs = Inr () \<longleftrightarrow>
   (\<exists>key p1 p2. read_varint input position = (Inr key, p1) \<and> drop_bit 3 key \<noteq> 0 \<and>
      (if drop_bit 3 key = 1
       then \<not> cs \<and> key AND 7 = 0 \<and> read_varint input p1 = (Inr 4, p2)
       else skip_field input (key AND 7) p1 = (Inr (), p2) \<and>
            (is_body_tag (drop_bit 3 key) \<longrightarrow> known_body_tag (drop_bit 3 key) \<and> key AND 7 = 2 \<and> \<not> bs)) \<and>
      scan_loop input p2 (cs \<or> drop_bit 3 key = 1) (bs \<or> is_body_tag (drop_bit 3 key)) = Inr ())"
proof (cases "scan_varint input position")
  case (Pair r p1)
  show ?thesis
  proof (cases r)
    case (Inl e)
    then have "\<not> (\<exists>key p1. read_varint input position = (Inr key, p1))"
      using Pair scan_varint_ok [OF size, of position] by auto
    then show ?thesis
      using Pair Inl lt by (simp add: scan_loop.simps [of input position])
  next
    case (Inr key)
    then have key: "read_varint input position = (Inr key, p1)"
      using Pair scan_varint_ok [OF size] by simp
    show ?thesis
    proof (cases "drop_bit 3 key = 1")
      case True
      have "(case scan_varint input p1 of (Inl e, _) \<Rightarrow> Inl e
             | (Inr contract, p2) \<Rightarrow> if contract \<noteq> ucast CURRENT_INNER_CONTRACT then Inl CInvalidContract
                 else scan_loop input p2 True bs) = Inr () \<longleftrightarrow>
          (\<exists>p2. read_varint input p1 = (Inr 4, p2) \<and> scan_loop input p2 True bs = Inr ())"
        unfolding scan_varint_ok [OF size, symmetric]
        by (auto simp: CURRENT_INNER_CONTRACT_def split: prod.splits sum.splits)
      with True show ?thesis
        using lt Pair Inr key
        by (subst scan_loop.simps) (auto simp: Let_def)
    next
      case False
      have "(case skip_value input (key AND 7) p1 of (Inl e, _) \<Rightarrow> Inl e
             | (Inr _, p2) \<Rightarrow> scan_loop input p2 cs (bs \<or> is_body_tag (drop_bit 3 key))) = Inr () \<longleftrightarrow>
          (\<exists>p2. skip_field input (key AND 7) p1 = (Inr (), p2) \<and>
             scan_loop input p2 cs (bs \<or> is_body_tag (drop_bit 3 key)) = Inr ())"
        unfolding skip_value_ok [OF size, symmetric]
        by (auto split: prod.splits sum.splits)
      moreover have "scan_loop input position cs bs =
          (if drop_bit 3 key = 0 then Inl CProtobuf
           else if is_body_tag (drop_bit 3 key) \<and> (\<not> known_body_tag (drop_bit 3 key) \<or> bs \<or> key AND 7 \<noteq> 2)
           then Inl CUnsupportedBody
           else case skip_value input (key AND 7) p1 of (Inl e, _) \<Rightarrow> Inl e
             | (Inr _, p2) \<Rightarrow> scan_loop input p2 cs (bs \<or> is_body_tag (drop_bit 3 key)))"
        using False lt Pair Inr
        by (subst scan_loop.simps) (simp add: Let_def body_tag_bounds)
      ultimately show ?thesis
        using False key by (auto split: if_splits)
    qed
  qed
qed

lemma scan_loop_step:
  assumes size: "slice_ok input" and lt: "position < length input"
  shows "scan_loop input position cs bs = Inr () \<longleftrightarrow>
   (\<exists>tag raw rest. drop position input = raw @ rest \<and> scan_field tag raw \<and> \<not> (tag = 1 \<and> cs) \<and>
      \<not> (is_body_tag tag \<and> bs) \<and>
      scan_loop input (position + length raw) (cs \<or> tag = 1) (bs \<or> is_body_tag tag) = Inr ())"
    (is "_ \<longleftrightarrow> ?rhs")
proof
  assume "scan_loop input position cs bs = Inr ()"
  then obtain key p1 p2 where key: "read_varint input position = (Inr key, p1)" "drop_bit 3 key \<noteq> 0"
    and val: "if drop_bit 3 key = 1
       then \<not> cs \<and> key AND 7 = 0 \<and> read_varint input p1 = (Inr 4, p2)
       else skip_field input (key AND 7) p1 = (Inr (), p2) \<and>
            (is_body_tag (drop_bit 3 key) \<longrightarrow> known_body_tag (drop_bit 3 key) \<and> key AND 7 = 2 \<and> \<not> bs)"
    and loop: "scan_loop input p2 (cs \<or> drop_bit 3 key = 1) (bs \<or> is_body_tag (drop_bit 3 key)) = Inr ()"
    unfolding scan_loop_unfold [OF assms] by blast
  from key(1) obtain kb rest where kb: "drop position input = kb @ rest" "p1 = position + length kb"
    "is_varint 0 0 kb key" by (auto simp: read_varint_Inr)
  have "p1 \<le> length input" using read_varint_progress [OF key(1)] by simp
  with val skip_field_Inr [OF size this] drop_after [OF kb(1)] kb(2)
  obtain body rest' where body: "rest = body @ rest'" "p2 = p1 + length body"
    "if drop_bit 3 key = 1 then key AND 7 = 0 \<and> is_varint 0 0 body 4 else is_body (key AND 7) body"
    by (auto simp: read_varint_Inr split: if_splits)
  have "scan_field (drop_bit 3 key) (kb @ body)"
    unfolding scan_field_def using kb(3) key(2) body(3) val by (intro exI [of _ key] exI [of _ kb] exI [of _ body]) auto
  then show ?rhs
    using kb body key val loop
    by - (rule exI [of _ "drop_bit 3 key"], rule exI [of _ "kb @ body"], rule exI [of _ rest'],
        auto simp: add.assoc split: if_splits)
next
  assume ?rhs
  then obtain tag raw rest where raw: "drop position input = raw @ rest" "scan_field tag raw" "\<not> (tag = 1 \<and> cs)"
    "\<not> (is_body_tag tag \<and> bs)"
    and loop: "scan_loop input (position + length raw) (cs \<or> tag = 1) (bs \<or> is_body_tag tag) = Inr ()" by blast
  then obtain key kb body where key: "raw = kb @ body" "is_varint 0 0 kb key" "tag = drop_bit 3 key" "tag \<noteq> 0"
    and val: "if tag = 1 then key AND 7 = 0 \<and> is_varint 0 0 body 4
      else is_body (key AND 7) body \<and> (is_body_tag tag \<longrightarrow> known_body_tag tag \<and> key AND 7 = 2)"
    by (auto simp: scan_field_def)
  have read: "read_varint input position = (Inr key, position + length kb)"
    using raw(1) key(1,2) by (auto simp: read_varint_Inr)
  have p1: "position + length kb \<le> length input" using read_varint_progress [OF read] by simp
  have rest: "drop (position + length kb) input = body @ rest"
    using raw(1) key(1) by (intro drop_after) simp
  have "if tag = 1 then read_varint input (position + length kb) = (Inr 4, position + length raw)
      else skip_field input (key AND 7) (position + length kb) = (Inr (), position + length raw)"
    using val rest key(1) by (auto simp: read_varint_Inr skip_field_Inr [OF size p1])
  then show "scan_loop input position cs bs = Inr ()"
    unfolding scan_loop_unfold [OF assms] using read key val raw(3,4) loop
    by (intro exI [of _ key] exI [of _ "position + length kb"] exI [of _ "position + length raw"])
      (auto split: if_splits)
qed

definition contract_fields :: "(u64 \<times> bytes) list \<Rightarrow> nat" where
  "contract_fields fs = length (filter (\<lambda>f. fst f = 1) fs)"

definition body_fields :: "(u64 \<times> bytes) list \<Rightarrow> nat" where
  "body_fields fs = length (filter (\<lambda>f. is_body_tag (fst f)) fs)"

lemma scan_loop_fields:
  assumes size: "slice_ok input"
  shows "position \<le> length input \<Longrightarrow>
    scan_loop input position cs bs = Inr () \<longleftrightarrow>
    (\<exists>fs. drop position input = concat (map snd fs) \<and> (\<forall>(tag, raw) \<in> set fs. scan_field tag raw) \<and>
       contract_fields fs = (if cs then 0 else 1) \<and> body_fields fs = (if bs then 0 else 1))"
proof (induction "length input - position" arbitrary: position cs bs rule: less_induct)
  case less
  show ?case
  proof (cases "position = length input")
    case True
    have "drop position input = concat (map snd fs) \<and> (\<forall>(tag, raw) \<in> set fs. scan_field tag raw) \<longleftrightarrow> fs = []" for fs
      using True scan_field_nonempty by (cases fs) (auto simp: split_beta)
    then have "(\<exists>fs. (drop position input = concat (map snd fs) \<and> (\<forall>(tag, raw) \<in> set fs. scan_field tag raw)) \<and>
        contract_fields fs = (if cs then 0 else 1) \<and> body_fields fs = (if bs then 0 else 1)) \<longleftrightarrow> cs \<and> bs"
      by (simp only:) (simp add: contract_fields_def body_fields_def)
    then have "(\<exists>fs. drop position input = concat (map snd fs) \<and> (\<forall>(tag, raw) \<in> set fs. scan_field tag raw) \<and>
        contract_fields fs = (if cs then 0 else 1) \<and> body_fields fs = (if bs then 0 else 1)) \<longleftrightarrow> cs \<and> bs"
      unfolding conj_assoc .
    moreover have "scan_loop input position cs bs = Inr () \<longleftrightarrow> cs \<and> bs"
      using True by (cases cs; cases bs) (simp_all add: scan_loop.simps)
    ultimately show ?thesis by blast
  next
    case False
    with less.prems have lt: "position < length input" by simp
    show ?thesis
    proof
      assume "scan_loop input position cs bs = Inr ()"
      then obtain tag raw rest where f: "drop position input = raw @ rest" "scan_field tag raw"
        "\<not> (tag = 1 \<and> cs)" "\<not> (is_body_tag tag \<and> bs)"
        and loop: "scan_loop input (position + length raw) (cs \<or> tag = 1) (bs \<or> is_body_tag tag) = Inr ()"
        unfolding scan_loop_step [OF size lt] by blast
      have len: "position + length raw \<le> length input"
        using arg_cong [OF f(1), of length] lt by simp
      have "length input - (position + length raw) < length input - position"
        using scan_field_nonempty [OF f(2)] lt by (cases raw) auto
      from less.hyps [OF this len] loop obtain fs where
        "drop (position + length raw) input = concat (map snd fs)" "\<forall>(tag, raw) \<in> set fs. scan_field tag raw"
        "contract_fields fs = (if cs \<or> tag = 1 then 0 else 1)" "body_fields fs = (if bs \<or> is_body_tag tag then 0 else 1)"
        by blast
      with f drop_after [OF f(1)] show "\<exists>fs. drop position input = concat (map snd fs) \<and>
          (\<forall>(tag, raw) \<in> set fs. scan_field tag raw) \<and>
          contract_fields fs = (if cs then 0 else 1) \<and> body_fields fs = (if bs then 0 else 1)"
        by (intro exI [of _ "(tag, raw) # fs"]) (auto simp: contract_fields_def body_fields_def split: if_splits)
    next
      assume "\<exists>fs. drop position input = concat (map snd fs) \<and> (\<forall>(tag, raw) \<in> set fs. scan_field tag raw) \<and>
          contract_fields fs = (if cs then 0 else 1) \<and> body_fields fs = (if bs then 0 else 1)"
      then obtain fs where fs: "drop position input = concat (map snd fs)" "\<forall>(tag, raw) \<in> set fs. scan_field tag raw"
        "contract_fields fs = (if cs then 0 else 1)" "body_fields fs = (if bs then 0 else 1)" by blast
      with lt obtain tag raw fs' where cons: "fs = (tag, raw) # fs'" by (cases fs) auto
      with fs have f: "drop position input = raw @ concat (map snd fs')" "scan_field tag raw" by simp_all
      have len: "position + length raw \<le> length input"
        using arg_cong [OF f(1), of length] lt by simp
      have shorter: "length input - (position + length raw) < length input - position"
        using scan_field_nonempty [OF f(2)] lt by (cases raw) auto
      have "scan_loop input (position + length raw) (cs \<or> tag = 1) (bs \<or> is_body_tag tag) = Inr ()"
        using fs cons drop_after [OF f(1)]
        by (subst less.hyps [OF shorter len], intro exI [of _ fs'])
          (auto simp: contract_fields_def body_fields_def split: if_splits)
      moreover have "\<not> (tag = 1 \<and> cs)" "\<not> (is_body_tag tag \<and> bs)"
        using fs(3,4) cons by (auto simp: contract_fields_def body_fields_def split: if_splits)
      ultimately show "scan_loop input position cs bs = Inr ()"
        unfolding scan_loop_step [OF size lt] using f by blast
    qed
  qed
qed

text \<open>
  C24: The scan admits unambiguous frames only. It accepts an input exactly when the input is a
  sequence of well-formed protobuf fields with precisely one contract field, a varint of value 4, and
  precisely one body field, of a compiled tag and length-delimited. So no second contract or body
  that protobuf would silently merge passes, and no tag from 10 to 63 but the body's. Fields numbered
  2 to 9 or above 63 are well-formed fields too: the scan skips them, as the decoder after it does.
\<close>

theorem scan_admits_one_body:
  assumes "slice_ok input"
  shows "validate_top_level input = Inr () \<longleftrightarrow>
    (\<exists>fs. input = concat (map snd fs) \<and> (\<forall>(tag, raw) \<in> set fs. scan_field tag raw) \<and>
       contract_fields fs = 1 \<and> body_fields fs = 1)"
  using scan_loop_fields [OF assms, of 0 False False] by (simp add: validate_top_level_def)

theorem scan_admits_one_body_witness: "validate_top_level [0x08, 0x04, 0x72, 0x01, 0xff] = Inr ()"
proof -
  let ?fs = "[(1, [0x08, 0x04]), (14, [0x72, 0x01, 0xff])] :: (u64 \<times> bytes) list"
  have "scan_field 1 [0x08, 0x04]"
    unfolding scan_field_def by (intro exI [of _ 8] exI [of _ "[0x08]"] exI [of _ "[0x04]"]) simp
  moreover have "scan_field 14 [0x72, 0x01, 0xff]"
    unfolding scan_field_def
    by (intro exI [of _ "0x72"] exI [of _ "[0x72]"] exI [of _ "[0x01, 0xff]"])
      (simp add: is_body_def is_body_tag_def known_body_tag_def word_le_nat_alt,
        rule exI [of _ 1], rule exI [of _ "[0x01]"], rule exI [of _ "[0xff]"], simp)
  moreover have "contract_fields ?fs = 1" "body_fields ?fs = 1"
    by (simp_all add: contract_fields_def body_fields_def is_body_tag_def word_le_nat_alt)
  moreover have "slice_ok [0x08, 0x04, 0x72, 0x01, 0xff]" by (simp add: slice_ok_def usize_limit_def)
  ultimately show ?thesis
    by (subst scan_admits_one_body) (assumption, rule exI [of _ ?fs], simp)
qed

end
