(* ===== verification/Ceylith_Proto.thy ===== *)
theory Ceylith_Proto
  imports Prelude
begin

text \<open>
  The messages of \<open>schemas/ceylith/v2.proto\<close>, as the Rust types prost derives from them: a protobuf
  enum is an open \<open>i32\<close> field together with a checked conversion to the variants, a message field is
  optional, a repeated field is a list and the oneof of the inner frame is an optional tagged union.
\<close>

section \<open>Enumerations and their conversions\<close>

datatype pb_grant_class =
    GrantUnspecified
  | GrantPublic
  | GrantCommunity
  | GrantFull

definition pb_grant_class_try_from :: "i32 \<Rightarrow> pb_grant_class option" where
  "pb_grant_class_try_from v =
     (if v = 0 then Some GrantUnspecified
      else if v = 1 then Some GrantPublic
      else if v = 2 then Some GrantCommunity
      else if v = 3 then Some GrantFull
      else None)"

datatype pb_profile_status =
    StatusUnspecified
  | StatusReady
  | StatusClientUpgradeRequired
  | StatusUnavailable

definition pb_profile_status_try_from :: "i32 \<Rightarrow> pb_profile_status option" where
  "pb_profile_status_try_from v =
     (if v = 0 then Some StatusUnspecified
      else if v = 1 then Some StatusReady
      else if v = 2 then Some StatusClientUpgradeRequired
      else if v = 3 then Some StatusUnavailable
      else None)"

datatype pb_watch_event_kind =
    KindUnspecified
  | KindGrantExpiring
  | KindRenewalPaused
  | KindGrantRevoked
  | KindQuotaChanged
  | KindPolicyChanged
  | KindProfileChanged
  | KindMaintenance
  | KindGrantRestored

definition pb_watch_event_kind_try_from :: "i32 \<Rightarrow> pb_watch_event_kind option" where
  "pb_watch_event_kind_try_from v =
     (if v = 0 then Some KindUnspecified
      else if v = 1 then Some KindGrantExpiring
      else if v = 2 then Some KindRenewalPaused
      else if v = 3 then Some KindGrantRevoked
      else if v = 4 then Some KindQuotaChanged
      else if v = 5 then Some KindPolicyChanged
      else if v = 6 then Some KindProfileChanged
      else if v = 7 then Some KindMaintenance
      else if v = 8 then Some KindGrantRestored
      else None)"

datatype pb_renewal_state =
    RenewalUnspecified
  | RenewalCurrent
  | RenewalPaused
  | RenewalRevoked

definition pb_renewal_state_try_from :: "i32 \<Rightarrow> pb_renewal_state option" where
  "pb_renewal_state_try_from v =
     (if v = 0 then Some RenewalUnspecified
      else if v = 1 then Some RenewalCurrent
      else if v = 2 then Some RenewalPaused
      else if v = 3 then Some RenewalRevoked
      else None)"

datatype pb_action_observation_kind =
    ObsUnspecified
  | ObsResponse
  | ObsTransportFailure
  | ObsTimeout
  | ObsCancelled
  | ObsStaleTransport
  | ObsLocalEncodeFailure

definition pb_action_observation_kind_try_from :: "i32 \<Rightarrow> pb_action_observation_kind option" where
  "pb_action_observation_kind_try_from v =
     (if v = 0 then Some ObsUnspecified
      else if v = 1 then Some ObsResponse
      else if v = 2 then Some ObsTransportFailure
      else if v = 3 then Some ObsTimeout
      else if v = 4 then Some ObsCancelled
      else if v = 5 then Some ObsStaleTransport
      else if v = 6 then Some ObsLocalEncodeFailure
      else None)"

datatype pb_action_flow_status =
    FlowUnspecified
  | FlowAction
  | FlowComplete

definition pb_action_flow_status_try_from :: "i32 \<Rightarrow> pb_action_flow_status option" where
  "pb_action_flow_status_try_from v =
     (if v = 0 then Some FlowUnspecified
      else if v = 1 then Some FlowAction
      else if v = 2 then Some FlowComplete
      else None)"

datatype pb_group_count_bucket =
    GcbUnspecified
  | GcbZero
  | GcbOneToFive
  | GcbSixToTwenty
  | GcbTwentyOneToFifty
  | GcbFiftyOneToOneHundred
  | GcbOneHundredOneToTwoHundred
  | GcbTwoHundredOneToFiveHundred
  | GcbOverFiveHundred

definition pb_group_count_bucket_try_from :: "i32 \<Rightarrow> pb_group_count_bucket option" where
  "pb_group_count_bucket_try_from v =
     (if v = 0 then Some GcbUnspecified
      else if v = 1 then Some GcbZero
      else if v = 2 then Some GcbOneToFive
      else if v = 3 then Some GcbSixToTwenty
      else if v = 4 then Some GcbTwentyOneToFifty
      else if v = 5 then Some GcbFiftyOneToOneHundred
      else if v = 6 then Some GcbOneHundredOneToTwoHundred
      else if v = 7 then Some GcbTwoHundredOneToFiveHundred
      else if v = 8 then Some GcbOverFiveHundred
      else None)"

datatype pb_message_count_bucket =
    McbUnspecified
  | McbZero
  | McbOneToTwenty
  | McbTwentyOneToOneHundred
  | McbOneHundredOneToFiveHundred
  | McbFiveHundredOneToTwoThousand
  | McbTwoThousandOneToTenThousand
  | McbOverTenThousand

definition pb_message_count_bucket_try_from :: "i32 \<Rightarrow> pb_message_count_bucket option" where
  "pb_message_count_bucket_try_from v =
     (if v = 0 then Some McbUnspecified
      else if v = 1 then Some McbZero
      else if v = 2 then Some McbOneToTwenty
      else if v = 3 then Some McbTwentyOneToOneHundred
      else if v = 4 then Some McbOneHundredOneToFiveHundred
      else if v = 5 then Some McbFiveHundredOneToTwoThousand
      else if v = 6 then Some McbTwoThousandOneToTenThousand
      else if v = 7 then Some McbOverTenThousand
      else None)"

datatype pb_active_duration_bucket =
    AdbUnspecified
  | AdbZero
  | AdbUnderOneHour
  | AdbOneToFourHours
  | AdbFourToEightHours
  | AdbEightToSixteenHours
  | AdbSixteenToTwentyFourHours

definition pb_active_duration_bucket_try_from :: "i32 \<Rightarrow> pb_active_duration_bucket option" where
  "pb_active_duration_bucket_try_from v =
     (if v = 0 then Some AdbUnspecified
      else if v = 1 then Some AdbZero
      else if v = 2 then Some AdbUnderOneHour
      else if v = 3 then Some AdbOneToFourHours
      else if v = 4 then Some AdbFourToEightHours
      else if v = 5 then Some AdbEightToSixteenHours
      else if v = 6 then Some AdbSixteenToTwentyFourHours
      else None)"

datatype pb_account_churn_bucket =
    AcbUnspecified
  | AcbZero
  | AcbOne
  | AcbTwoToThree
  | AcbFourToSeven
  | AcbEightOrMore

definition pb_account_churn_bucket_try_from :: "i32 \<Rightarrow> pb_account_churn_bucket option" where
  "pb_account_churn_bucket_try_from v =
     (if v = 0 then Some AcbUnspecified
      else if v = 1 then Some AcbZero
      else if v = 2 then Some AcbOne
      else if v = 3 then Some AcbTwoToThree
      else if v = 4 then Some AcbFourToSeven
      else if v = 5 then Some AcbEightOrMore
      else None)"

section \<open>Messages\<close>

record pb_client_runtime =
  cr_runtime_abi :: u32
  cr_envelope_contract :: u32
  cr_action_contracts :: "u32 list"
  cr_source_contracts :: "u32 list"
  cr_platform :: u32
  cr_architecture :: u32
  cr_build_digest :: bytes

record pb_session_hello =
  sh_installation_id :: bytes
  sh_installation_sign_public_key :: bytes
  sh_installation_noise_public_key :: bytes
  sh_transcript_signature :: bytes
  sh_access_token :: bytes
  sh_runtime :: "pb_client_runtime option"
  sh_requested_feature_bits :: u64

record pb_session_welcome =
  sw_session_id :: bytes
  sw_runtime_lease :: bytes
  sw_lease_expires_at_ms :: u64
  sw_grant_class :: i32
  sw_max_full_accounts :: u32
  sw_max_active_installations :: u32
  sw_max_registered_installations :: u32
  sw_server_time_ms :: u64
  sw_policy_epoch :: u64
  sw_accepted_contracts :: "u32 list"

record pb_profile_request =
  pq_runtime_lease :: bytes
  pq_profile_id :: bytes
  pq_cached_manifest_digest :: bytes
  pq_requested_access :: u32
  pq_runtime :: "pb_client_runtime option"

record pb_profile_decision =
  pd_status :: i32
  pd_profile_id :: bytes
  pd_required_runtime_abi :: u32
  pd_manifest :: bytes
  pd_manifest_digest :: bytes
  pd_manifest_signature :: bytes
  pd_expires_at_ms :: u64
  pd_policy_epoch :: u64

record pb_opaque_slot =
  os_slot :: u32
  os_value :: bytes

record pb_opaque_exchange_request =
  oq_runtime_lease :: bytes
  oq_exchange_id :: bytes
  oq_account_slot_id :: bytes
  oq_generation :: u64
  oq_slots :: "pb_opaque_slot list"
  oq_expires_at_ms :: u64
  oq_binding_digest :: bytes

record pb_opaque_exchange_response =
  or_exchange_id :: bytes
  or_generation :: u64
  or_slots :: "pb_opaque_slot list"
  or_expires_at_ms :: u64
  or_binding_digest :: bytes

record pb_action_flow_begin =
  fb_runtime_lease :: bytes
  fb_flow_id :: bytes
  fb_account_slot_id :: bytes
  fb_login_epoch :: u64
  fb_online_epoch :: u64
  fb_transport_epoch :: u64
  fb_inputs :: "pb_opaque_slot list"
  fb_expires_at_ms :: u64
  fb_binding_digest :: bytes

record pb_action_observation =
  ao_runtime_lease :: bytes
  ao_flow_id :: bytes
  ao_action_id :: bytes
  ao_action_digest :: bytes
  ao_outcome :: i32
  ao_payload :: bytes
  ao_observed_at_ms :: u64
  ao_binding_digest :: bytes

record pb_action_mark =
  am_slot :: u32
  am_value :: bytes

record pb_action_directive =
  ad_action_id :: bytes
  ad_route_shard :: bytes
  ad_body_shard :: bytes
  ad_envelope_contract :: u32
  ad_marks :: "pb_action_mark list"
  ad_expected_body_digest :: bytes
  ad_transport_epoch :: u64
  ad_response_policy :: u32
  ad_timeout_ms :: u32
  ad_action_digest :: bytes
  ad_delay_ms :: u32

record pb_action_flow_update =
  fu_flow_id :: bytes
  fu_status :: i32
  fu_action :: "pb_action_directive option"
  fu_expires_at_ms :: u64

record pb_community_telemetry_report =
  tr_runtime_lease :: bytes
  tr_report_id :: bytes
  tr_utc_day :: u32
  tr_group_count :: i32
  tr_messages_received :: i32
  tr_messages_sent :: i32
  tr_active_duration :: i32
  tr_profile_id :: bytes
  tr_profile_manifest_digest :: bytes
  tr_build_digest :: bytes
  tr_platform :: u32
  tr_architecture :: u32
  tr_account_churn :: i32
  tr_generated_at_ms :: u64
  tr_installation_signature :: bytes

record pb_telemetry_receipt =
  tc_report_id :: bytes
  tc_accepted :: bool
  tc_code :: u32

record pb_watch_request =
  wq_runtime_lease :: bytes
  wq_cursor :: u64
  wq_max_wait_ms :: u32

record pb_watch_grant_snapshot =
  wg_grant_class :: i32
  wg_max_full_accounts :: u32
  wg_max_active_installations :: u32
  wg_expires_at_ms :: u64
  wg_renewal_state :: i32
  wg_policy_epoch :: u64

record pb_watch_event =
  we_cursor :: u64
  we_kind :: i32
  we_occurred_at_ms :: u64
  we_account_slot_id :: bytes
  we_reason_code :: u32
  we_payload :: bytes
  we_grant :: "pb_watch_grant_snapshot option"

record pb_generic_result =
  gr_accepted :: bool
  gr_code :: u32
  gr_payload :: bytes

record pb_error_frame =
  ef_code :: u32
  ef_retryable :: bool
  ef_retry_after_ms :: u64
  ef_incident_id :: bytes
  ef_required_runtime_abi :: u32

datatype inner_body =
    BodyProfileRequest pb_profile_request
  | BodyProfileDecision pb_profile_decision
  | BodyOpaqueExchangeRequest pb_opaque_exchange_request
  | BodyOpaqueExchangeResponse pb_opaque_exchange_response
  | BodyWatchRequest pb_watch_request
  | BodyWatchEvent pb_watch_event
  | BodyGenericResult pb_generic_result
  | BodyActionFlowBegin pb_action_flow_begin
  | BodyActionObservation pb_action_observation
  | BodyActionFlowUpdate pb_action_flow_update
  | BodyCommunityTelemetryReport pb_community_telemetry_report
  | BodyTelemetryReceipt pb_telemetry_receipt
  | BodyError pb_error_frame

record inner_frame =
  if_contract :: u32
  if_body :: "inner_body option"

end
