(* ===== verification/Ceylith_Opaque.thy ===== *)
theory Ceylith_Opaque
  imports Ceylith_Frame Ceylith_Proto Rust_Str "HOL-Library.Multiset"
begin

text \<open>
  Opaque slots and the binding digests of \<open>crates/ceylith-protocol/src/opaque.rs\<close> and
  \<open>action.rs\<close>. SHA-256 is a parameter: the digests are taken of the transcripts defined here, and what
  is proved is that a transcript determines every value it binds.
\<close>

section \<open>Slots\<close>

definition MAX_OPAQUE_SLOT_LEN :: nat where
  "MAX_OPAQUE_SLOT_LEN = 4 * 1024"

definition MAX_OPAQUE_SLOTS :: nat where
  "MAX_OPAQUE_SLOTS = 64"

definition MAX_OPAQUE_AGGREGATE_LEN :: nat where
  "MAX_OPAQUE_AGGREGATE_LEN = 48 * 1024"

datatype opaque_error = InvalidSlotId | InvalidSlotValue | DuplicateSlot | SlotBounds

record opaque_slot =
  slot_id :: u32
  slot_value :: bytes

type_synonym opaque_slots = "opaque_slot list"

definition opaque_slot_id_new :: "u32 \<Rightarrow> opaque_error + u32" where
  "opaque_slot_id_new v = (if v = 0 then Inl InvalidSlotId else Inr v)"

definition opaque_slot_new :: "u32 \<Rightarrow> bytes \<Rightarrow> opaque_error + opaque_slot" where
  "opaque_slot_new i v =
     (if v = [] \<or> MAX_OPAQUE_SLOT_LEN < length v then Inl InvalidSlotValue
      else Inr \<lparr>slot_id = i, slot_value = v\<rparr>)"

text \<open>\<open>windows(2).any(..)\<close>: two neighbours carry the same identifier.\<close>

fun neighbours_equal :: "opaque_slot list \<Rightarrow> bool" where
  "neighbours_equal (s # t # ss) \<longleftrightarrow> slot_id s = slot_id t \<or> neighbours_equal (t # ss)"
| "neighbours_equal _ \<longleftrightarrow> False"

text \<open>\<open>try_fold\<close> with \<open>checked_add\<close> over the lengths.\<close>

fun aggregate_from :: "nat \<Rightarrow> opaque_slot list \<Rightarrow> nat option" where
  "aggregate_from acc [] = Some acc"
| "aggregate_from acc (s # ss) =
     (case usize_add acc (length (slot_value s)) of
        None \<Rightarrow> None | Some acc' \<Rightarrow> aggregate_from acc' ss)"

definition opaque_slots_new :: "opaque_slot list \<Rightarrow> opaque_error + opaque_slots" where
  "opaque_slots_new slots =
     (if MAX_OPAQUE_SLOTS < length slots then Inl SlotBounds
      else let slots = sort_key slot_id slots in
        if neighbours_equal slots then Inl DuplicateSlot
        else case aggregate_from 0 slots of
               None \<Rightarrow> Inl SlotBounds
             | Some n \<Rightarrow> if MAX_OPAQUE_AGGREGATE_LEN < n then Inl SlotBounds else Inr slots)"

definition slot_from_wire :: "pb_opaque_slot \<Rightarrow> opaque_error + opaque_slot" where
  "slot_from_wire s = bindE (opaque_slot_id_new (os_slot s)) (\<lambda>i. opaque_slot_new i (os_value s))"

definition opaque_slots_from_wire :: "pb_opaque_slot list \<Rightarrow> opaque_error + opaque_slots" where
  "opaque_slots_from_wire slots = bindE (collect_results (map slot_from_wire slots)) opaque_slots_new"

definition slot_to_wire :: "opaque_slot \<Rightarrow> pb_opaque_slot" where
  "slot_to_wire s = \<lparr>os_slot = slot_id s, os_value = slot_value s\<rparr>"

definition opaque_slots_to_wire :: "opaque_slots \<Rightarrow> pb_opaque_slot list" where
  "opaque_slots_to_wire slots = map slot_to_wire slots"

text \<open>\<open>binary_search_by_key\<close> over the window from \<open>low\<close> below \<open>high\<close>.\<close>

function search_slot :: "opaque_slots \<Rightarrow> u32 \<Rightarrow> nat \<Rightarrow> nat \<Rightarrow> nat option" where
  "search_slot slots i low high =
     (if low < high then
        let mid = low + (high - low) div 2; k = slot_id (slots ! mid) in
        if k = i then Some mid
        else if k < i then search_slot slots i (mid + 1) high
        else search_slot slots i low mid
      else None)"
  by pat_completeness auto
termination
  by (relation "measure (\<lambda>(slots, i, low, high). high - low)") auto

declare search_slot.simps [simp del]

definition opaque_slots_get :: "opaque_slots \<Rightarrow> u32 \<Rightarrow> opaque_slot option" where
  "opaque_slots_get slots i = map_option (\<lambda>k. slots ! k) (search_slot slots i 0 (length slots))"

section \<open>Binding digests\<close>

definition OPAQUE_BINDING_DOMAIN :: bytes where
  "OPAQUE_BINDING_DOMAIN = lit ''ceylith/v2/opaque-binding/v1''"

definition FLOW_BINDING_DOMAIN :: bytes where
  "FLOW_BINDING_DOMAIN = lit ''ceylith/v3/action-flow/v1''"

definition OBSERVATION_BINDING_DOMAIN :: bytes where
  "OBSERVATION_BINDING_DOMAIN = lit ''ceylith/v3/action-observation/v1''"

text \<open>\<open>u32::try_from(len).unwrap_or(u32::MAX)\<close>.\<close>

definition len_or_max :: "nat \<Rightarrow> u32" where
  "len_or_max n = (if n < 2 ^ 32 then of_nat n else - 1)"

definition slot_transcript :: "opaque_slot \<Rightarrow> bytes" where
  "slot_transcript s = to_be 4 (slot_id s) @ to_be 4 (len_or_max (length (slot_value s))) @ slot_value s"

definition slots_transcript :: "opaque_slots \<Rightarrow> bytes" where
  "slots_transcript slots = to_be 4 (len_or_max (length slots)) @ concat (map slot_transcript slots)"

definition opaque_binding_transcript :: "bytes \<Rightarrow> bytes \<Rightarrow> u64 \<Rightarrow> u64 \<Rightarrow> opaque_slots \<Rightarrow> bytes" where
  "opaque_binding_transcript exchange_id account_slot_id generation expires_at_ms slots =
     OPAQUE_BINDING_DOMAIN @ exchange_id @ account_slot_id @ to_be 8 generation @
     to_be 8 expires_at_ms @ slots_transcript slots"

definition opaque_binding_digest ::
    "(bytes \<Rightarrow> bytes) \<Rightarrow> bytes \<Rightarrow> bytes \<Rightarrow> u64 \<Rightarrow> u64 \<Rightarrow> opaque_slots \<Rightarrow> bytes" where
  "opaque_binding_digest sha256 exchange_id account_slot_id generation expires_at_ms slots =
     sha256 (opaque_binding_transcript exchange_id account_slot_id generation expires_at_ms slots)"

record action_flow_context =
  fc_flow_id :: bytes
  fc_account_slot_id :: bytes
  fc_login_epoch :: u64
  fc_online_epoch :: u64
  fc_transport_epoch :: u64
  fc_expires_at_ms :: u64

definition action_flow_transcript :: "action_flow_context \<Rightarrow> opaque_slots \<Rightarrow> bytes" where
  "action_flow_transcript c inputs =
     FLOW_BINDING_DOMAIN @ fc_flow_id c @ fc_account_slot_id c @ to_be 8 (fc_login_epoch c) @
     to_be 8 (fc_online_epoch c) @ to_be 8 (fc_transport_epoch c) @ to_be 8 (fc_expires_at_ms c) @
     slots_transcript inputs"

definition action_flow_binding_digest ::
    "(bytes \<Rightarrow> bytes) \<Rightarrow> action_flow_context \<Rightarrow> opaque_slots \<Rightarrow> bytes" where
  "action_flow_binding_digest sha256 c inputs = sha256 (action_flow_transcript c inputs)"

datatype action_observation_kind =
    ResponseOutcome | TransportFailureOutcome | TimeoutOutcome | CancelledOutcome | StaleTransportOutcome
  | LocalEncodeFailureOutcome

fun observation_code :: "action_observation_kind \<Rightarrow> u32" where
  "observation_code ResponseOutcome = 1"
| "observation_code TransportFailureOutcome = 2"
| "observation_code TimeoutOutcome = 3"
| "observation_code CancelledOutcome = 4"
| "observation_code StaleTransportOutcome = 5"
| "observation_code LocalEncodeFailureOutcome = 6"

record action_observation =
  ob_flow_id :: bytes
  ob_action_id :: bytes
  ob_action_digest :: bytes
  ob_outcome :: action_observation_kind
  ob_payload :: bytes
  ob_observed_at_ms :: u64

definition action_observation_transcript :: "action_observation \<Rightarrow> bytes" where
  "action_observation_transcript ob =
     OBSERVATION_BINDING_DOMAIN @ ob_flow_id ob @ ob_action_id ob @ ob_action_digest ob @
     to_be 4 (observation_code (ob_outcome ob)) @ to_be 8 (ob_observed_at_ms ob) @
     to_be 4 (len_or_max (length (ob_payload ob))) @ ob_payload ob"

definition action_observation_binding_digest :: "(bytes \<Rightarrow> bytes) \<Rightarrow> action_observation \<Rightarrow> bytes" where
  "action_observation_binding_digest sha256 ob = sha256 (action_observation_transcript ob)"

section \<open>Collections in canonical order\<close>

definition slot_ok :: "opaque_slot \<Rightarrow> bool" where
  "slot_ok s \<longleftrightarrow> slot_value s \<noteq> [] \<and> length (slot_value s) \<le> MAX_OPAQUE_SLOT_LEN"

definition slots_length :: "opaque_slot list \<Rightarrow> nat" where
  "slots_length slots = sum_list (map (length \<circ> slot_value) slots)"

text \<open>What the type \<open>OpaqueSlots\<close> promises.\<close>

definition opaque_slots_ok :: "opaque_slots \<Rightarrow> bool" where
  "opaque_slots_ok slots \<longleftrightarrow> sorted_wrt (<) (map slot_id slots) \<and> length slots \<le> MAX_OPAQUE_SLOTS \<and>
     slots_length slots \<le> MAX_OPAQUE_AGGREGATE_LEN"

lemma sorted_neighbours:
  "sorted (map slot_id slots) \<Longrightarrow> neighbours_equal slots \<longleftrightarrow> \<not> distinct (map slot_id slots)"
  by (induction slots rule: neighbours_equal.induct) auto

lemma aggregate_bounded:
  "(case aggregate_from acc slots of None \<Rightarrow> False | Some n \<Rightarrow> n \<le> MAX_OPAQUE_AGGREGATE_LEN) \<longleftrightarrow>
   acc + slots_length slots \<le> MAX_OPAQUE_AGGREGATE_LEN"
proof (induction slots arbitrary: acc)
  case (Cons s ss)
  show ?case
    using Cons.IH [of "acc + length (slot_value s)"]
    by (auto simp: slots_length_def MAX_OPAQUE_AGGREGATE_LEN_def usize_limit_def usize_add_def add.assoc
        split: option.splits if_splits)
qed (simp add: slots_length_def)

lemma slots_length_mset: "mset slots = mset slots' \<Longrightarrow> slots_length slots = slots_length slots'"
  unfolding slots_length_def by (metis mset_map sum_mset_sum_list)

lemma slots_length_sort: "slots_length (sort_key f slots) = slots_length slots"
  by (rule slots_length_mset) simp

lemma opaque_slots_new_Inr:
  "opaque_slots_new slots = Inr s \<longleftrightarrow>
   s = sort_key slot_id slots \<and> distinct (map slot_id slots) \<and> length slots \<le> MAX_OPAQUE_SLOTS \<and>
   slots_length slots \<le> MAX_OPAQUE_AGGREGATE_LEN"
proof -
  have "distinct (map slot_id (sort_key slot_id slots)) \<longleftrightarrow> distinct (map slot_id slots)"
    by (metis mset_map mset_sort mset_eq_imp_distinct_iff)
  then show ?thesis
    using aggregate_bounded [of 0 "sort_key slot_id slots"]
    by (auto simp: opaque_slots_new_def Let_def sorted_neighbours slots_length_sort not_less
        split: option.splits)
qed

lemma opaque_slots_new_ok:
  assumes "opaque_slots_new slots = Inr s"
  shows "opaque_slots_ok s" "mset s = mset slots"
proof -
  from assms have s: "s = sort_key slot_id slots" "distinct (map slot_id slots)"
    and bounds: "length slots \<le> MAX_OPAQUE_SLOTS" "slots_length slots \<le> MAX_OPAQUE_AGGREGATE_LEN"
    by (simp_all add: opaque_slots_new_Inr)
  then have "distinct (map slot_id s)"
    by (metis mset_map mset_sort mset_eq_imp_distinct_iff)
  with s show "opaque_slots_ok s"
    using bounds by (simp add: opaque_slots_ok_def strict_sorted_iff slots_length_sort)
  show "mset s = mset slots" using s by simp
qed

lemma opaque_slots_new_canonical:
  assumes "opaque_slots_ok s"
  shows "opaque_slots_new s = Inr s"
  using assms sort_key_id_if_sorted [of slot_id s]
  by (auto simp: opaque_slots_new_Inr opaque_slots_ok_def strict_sorted_iff)

text \<open>The collection does not depend on the order the slots arrived in.\<close>

lemma sorted_slots_unique:
  assumes "opaque_slots_ok s" "opaque_slots_ok t" "mset s = mset t"
  shows "s = t"
proof (rule map_inj_on)
  from assms(3) have "mset (map slot_id s) = mset (map slot_id t)" by simp
  moreover have "sorted (map slot_id s)" "sorted (map slot_id t)"
    using assms(1,2) by (simp_all add: opaque_slots_ok_def strict_sorted_iff)
  ultimately show "map slot_id s = map slot_id t" by (metis properties_for_sort)
  show "inj_on slot_id (set s \<union> set t)"
    using assms mset_eq_setD [OF assms(3)]
    by (simp add: opaque_slots_ok_def strict_sorted_iff distinct_map)
qed

section \<open>Wire form\<close>

definition slot_wire_ok :: "opaque_slot \<Rightarrow> bool" where
  "slot_wire_ok s \<longleftrightarrow> slot_id s \<noteq> 0 \<and> slot_ok s"

definition slots_wire_ok :: "opaque_slots \<Rightarrow> bool" where
  "slots_wire_ok slots \<longleftrightarrow> opaque_slots_ok slots \<and> (\<forall>slot \<in> set slots. slot_wire_ok slot)"

lemma slot_from_wire_Inr: "slot_from_wire w = Inr s \<longleftrightarrow> slot_wire_ok s \<and> slot_to_wire s = w"
  by (cases w; cases s)
    (auto simp: slot_from_wire_def opaque_slot_id_new_def opaque_slot_new_def slot_wire_ok_def slot_ok_def
      slot_to_wire_def bindE_Inr)

definition slot_of_wire :: "pb_opaque_slot \<Rightarrow> opaque_slot" where
  "slot_of_wire w = \<lparr>slot_id = os_slot w, slot_value = os_value w\<rparr>"

lemma slot_of_wire: "slot_of_wire (slot_to_wire s) = s" "slot_to_wire (slot_of_wire w) = w"
  by (simp_all add: slot_of_wire_def slot_to_wire_def)

lemma slots_from_wire_collect:
  "collect_results (map slot_from_wire ws) = Inr ss \<longleftrightarrow> (\<forall>s \<in> set ss. slot_wire_ok s) \<and> map slot_to_wire ss = ws"
  by (induction ws arbitrary: ss) (auto simp: bindE_Inr slot_from_wire_Inr)

lemma opaque_slots_from_wire_Inr:
  "opaque_slots_from_wire ws = Inr s \<longleftrightarrow>
   slots_wire_ok s \<and> mset (opaque_slots_to_wire s) = mset ws"
  unfolding slots_wire_ok_def conj_assoc
proof
  assume "opaque_slots_from_wire ws = Inr s"
  then obtain ss where ss: "\<forall>x \<in> set ss. slot_wire_ok x" "map slot_to_wire ss = ws" "opaque_slots_new ss = Inr s"
    by (auto simp: opaque_slots_from_wire_def bindE_Inr slots_from_wire_collect)
  note s = opaque_slots_new_ok [OF ss(3)]
  from s(2) have "mset (map slot_to_wire s) = mset (map slot_to_wire ss)" by simp
  with s(1) ss mset_eq_setD [OF s(2)]
  show "opaque_slots_ok s \<and> (\<forall>slot \<in> set s. slot_wire_ok slot) \<and> mset (opaque_slots_to_wire s) = mset ws"
    by (simp add: opaque_slots_to_wire_def)
next
  assume s: "opaque_slots_ok s \<and> (\<forall>slot \<in> set s. slot_wire_ok slot) \<and> mset (opaque_slots_to_wire s) = mset ws"
  define ss where "ss = map slot_of_wire ws"
  have ss: "mset ss = mset s" "map slot_to_wire ss = ws"
    using s by (auto simp: ss_def opaque_slots_to_wire_def slot_of_wire multiset.map_comp comp_def
        dest!: sym [of "image_mset slot_to_wire (mset s)"])
  have distinct: "distinct (map slot_id ss)"
    using s mset_eq_imp_distinct_iff [of "map slot_id ss" "map slot_id s"] ss(1)
    by (simp add: opaque_slots_ok_def strict_sorted_iff)
  obtain s' where s': "opaque_slots_new ss = Inr s'"
    using s ss(1) distinct slots_length_mset [OF ss(1)] mset_eq_length [OF ss(1)]
    by (auto simp: opaque_slots_new_Inr opaque_slots_ok_def)
  have "s' = s"
    using sorted_slots_unique [of s' s] opaque_slots_new_ok [OF s'] s ss(1) by simp
  with s' s ss mset_eq_setD [OF ss(1)] show "opaque_slots_from_wire ws = Inr s"
    by (auto simp: opaque_slots_from_wire_def bindE_Inr slots_from_wire_collect)
qed

text \<open>
  C28: An opaque collection is a canonical form. Decoding wire slots succeeds with exactly the one collection
  that is strictly ordered by identifier, within the three bounds, of non-zero identifiers with non-empty
  values, and holds the same slots as the message: the order of arrival is immaterial, nothing is
  added, merged or dropped, and decoding what a collection was encoded to returns it.
\<close>

theorem opaque_slots_canonical:
  "opaque_slots_from_wire ws = Inr s \<longleftrightarrow>
   slots_wire_ok s \<and> mset (opaque_slots_to_wire s) = mset ws"
  by (rule opaque_slots_from_wire_Inr)

section \<open>Lookup\<close>

lemma search_slot_Some:
  assumes "sorted_wrt (<) (map slot_id slots)"
  shows "high \<le> length slots \<Longrightarrow>
    search_slot slots i low high = Some k \<longleftrightarrow> low \<le> k \<and> k < high \<and> slot_id (slots ! k) = i"
  using assms
proof (induction slots i low high rule: search_slot.induct)
  case (1 slots i low high)
  let ?mid = "low + (high - low) div 2"
  have less: "slot_id (slots ! a) < slot_id (slots ! b) \<longleftrightarrow> a < b" if "a < length slots" "b < length slots" for a b
    using that 1(4) sorted_wrt_nth_less [of "(<)" "map slot_id slots"]
    by (metis length_map linorder_neqE_nat nth_map order_less_asym order_less_irrefl)
  show ?case
  proof (cases "low < high")
    case True
    then have mid: "low \<le> ?mid" "?mid < high" by auto
    then have lt: "?mid < length slots" using 1(3) by simp
    have above: "?mid < k" if "slot_id (slots ! ?mid) < slot_id (slots ! k)" "k < high"
      using that less [OF lt, of k] 1(3) by simp
    have below: "k < ?mid" if "slot_id (slots ! k) < slot_id (slots ! ?mid)" "k < high"
      using that less [OF _ lt, of k] 1(3) by simp
    have same: "k = ?mid" if "slot_id (slots ! k) = slot_id (slots ! ?mid)" "k < high"
      using that less [OF lt, of k] less [OF _ lt, of k] 1(3) by (cases k ?mid rule: linorder_cases) auto
    consider "slot_id (slots ! ?mid) = i" | "slot_id (slots ! ?mid) < i" | "i < slot_id (slots ! ?mid)"
      by fastforce
    then show ?thesis
    proof cases
      case 1
      then show ?thesis
        unfolding search_slot.simps [of slots i low high] using True mid same by (auto simp: Let_def)
    next
      case 2
      then show ?thesis
        unfolding search_slot.simps [of slots i low high]
        using True mid above "1.IH"(1) [OF True refl refl] 1(3,4) by (auto simp: Let_def)
    next
      case 3
      then show ?thesis
        unfolding search_slot.simps [of slots i low high]
        using True mid below "1.IH"(2) [OF True refl refl] 1(3,4) by (auto simp: Let_def)
    qed
  next
    case False
    then show ?thesis by (simp add: search_slot.simps [of slots i low high])
  qed
qed

lemma opaque_slots_get_Some:
  assumes "opaque_slots_ok slots"
  shows "opaque_slots_get slots i = Some slot \<longleftrightarrow> slot \<in> set slots \<and> slot_id slot = i"
  using assms search_slot_Some [of slots "length slots" i 0]
  by (auto simp: opaque_slots_get_def opaque_slots_ok_def in_set_conv_nth)

section \<open>What the digests bind\<close>

lemma length_slot_value: "slot_ok s \<Longrightarrow> length (slot_value s) < 2 ^ 32"
  by (simp add: slot_ok_def MAX_OPAQUE_SLOT_LEN_def)

lemma len_or_max_eq [simp]:
  "m < 2 ^ 32 \<Longrightarrow> n < 2 ^ 32 \<Longrightarrow> len_or_max m = len_or_max n \<longleftrightarrow> m = n"
  by (auto simp: len_or_max_def unsigned_of_nat take_bit_nat_eq_self dest: arg_cong [of _ _ unat])

lemma slot_transcript_eq:
  assumes "slot_ok s" "slot_ok t"
  shows "slot_transcript s @ xs = slot_transcript t @ ys \<longleftrightarrow> s = t \<and> xs = ys"
  using length_slot_value [OF assms(1)] length_slot_value [OF assms(2)]
  by (auto simp: slot_transcript_def intro: opaque_slot.equality)

lemma slot_transcripts_eq:
  "\<forall>s \<in> set ss. slot_ok s \<Longrightarrow> \<forall>t \<in> set ts. slot_ok t \<Longrightarrow> length ss = length ts \<Longrightarrow>
   concat (map slot_transcript ss) @ xs = concat (map slot_transcript ts) @ ys \<longleftrightarrow> ss = ts \<and> xs = ys"
  by (induction ss ts rule: list_induct2') (auto simp: slot_transcript_eq)

lemma slots_transcript_eq:
  assumes "opaque_slots_ok ss" "\<forall>s \<in> set ss. slot_ok s" "opaque_slots_ok ts" "\<forall>t \<in> set ts. slot_ok t"
  shows "slots_transcript ss = slots_transcript ts \<longleftrightarrow> ss = ts"
proof -
  have "length ss < 2 ^ 32" "length ts < 2 ^ 32"
    using assms by (simp_all add: opaque_slots_ok_def MAX_OPAQUE_SLOTS_def)
  then show ?thesis
    using slot_transcripts_eq [OF assms(2,4), of "[]" "[]"]
    by (auto simp: slots_transcript_def)
qed

definition flow_context_typed :: "action_flow_context \<Rightarrow> bool" where
  "flow_context_typed c \<longleftrightarrow> length (fc_flow_id c) = 16 \<and> length (fc_account_slot_id c) = 16"

definition observation_typed :: "action_observation \<Rightarrow> bool" where
  "observation_typed ob \<longleftrightarrow> length (ob_flow_id ob) = 16 \<and> length (ob_action_id ob) = 16 \<and>
     length (ob_action_digest ob) = 32 \<and> length (ob_payload ob) < 2 ^ 32"

definition slots_typed :: "opaque_slots \<Rightarrow> bool" where
  "slots_typed slots \<longleftrightarrow> opaque_slots_ok slots \<and> (\<forall>s \<in> set slots. slot_ok s)"

lemma to_be_u64_eq [simp]: "to_be 8 v = to_be 8 w \<longleftrightarrow> v = (w :: u64)"
  by (metis from_be_u64)

lemma observation_code_eq [simp]: "observation_code a = observation_code b \<longleftrightarrow> a = b"
  by (cases a; cases b) simp_all

text \<open>The values a digest of the protocol can be taken of.\<close>

datatype bound_request =
    BoundExchange bytes bytes u64 u64 opaque_slots
  | BoundFlow action_flow_context opaque_slots
  | BoundObservation action_observation

fun request_typed :: "bound_request \<Rightarrow> bool" where
  "request_typed (BoundExchange e a g x slots) \<longleftrightarrow> length e = 16 \<and> length a = 16 \<and> slots_typed slots"
| "request_typed (BoundFlow c slots) \<longleftrightarrow> flow_context_typed c \<and> slots_typed slots"
| "request_typed (BoundObservation ob) \<longleftrightarrow> observation_typed ob"

fun request_transcript :: "bound_request \<Rightarrow> bytes" where
  "request_transcript (BoundExchange e a g x slots) = opaque_binding_transcript e a g x slots"
| "request_transcript (BoundFlow c slots) = action_flow_transcript c slots"
| "request_transcript (BoundObservation ob) = action_observation_transcript ob"

fun request_digest :: "(bytes \<Rightarrow> bytes) \<Rightarrow> bound_request \<Rightarrow> bytes" where
  "request_digest sha256 (BoundExchange e a g x slots) = opaque_binding_digest sha256 e a g x slots"
| "request_digest sha256 (BoundFlow c slots) = action_flow_binding_digest sha256 c slots"
| "request_digest sha256 (BoundObservation ob) = action_observation_binding_digest sha256 ob"

lemma request_digest_transcript: "request_digest sha256 r = sha256 (request_transcript r)"
  by (cases r) (simp_all add: opaque_binding_digest_def action_flow_binding_digest_def
      action_observation_binding_digest_def)

lemmas transcript_defs = opaque_binding_transcript_def action_flow_transcript_def
  action_observation_transcript_def

text \<open>Byte 19 of the domains separates the three kinds.\<close>

lemma domains_differ:
  "take 20 (opaque_binding_transcript e a g x slots) = lit ''ceylith/v2/opaque-bi''"
  "take 20 (action_flow_transcript c slots) = lit ''ceylith/v3/action-fl''"
  "take 20 (action_observation_transcript ob) = lit ''ceylith/v3/action-ob''"
  by (simp_all add: transcript_defs OPAQUE_BINDING_DOMAIN_def FLOW_BINDING_DOMAIN_def
      OBSERVATION_BINDING_DOMAIN_def lit_def)

lemma kinds_differ:
  "opaque_binding_transcript e a g x slots \<noteq> action_flow_transcript c inputs"
  "opaque_binding_transcript e a g x slots \<noteq> action_observation_transcript ob"
  "action_flow_transcript c inputs \<noteq> action_observation_transcript ob"
  by (rule notI, drule arg_cong [of _ _ "take 20"], simp add: domains_differ lit_def)+

lemma request_transcript_inj:
  assumes "request_typed r" "request_typed r'" "request_transcript r = request_transcript r'"
  shows "r = r'"
proof (cases r)
  case r: (BoundExchange e a g x slots)
  then obtain e' a' g' x' slots' where "r' = BoundExchange e' a' g' x' slots'"
    using assms(3) by (cases r') (simp_all add: kinds_differ)
  then show ?thesis
    using assms r by (simp add: opaque_binding_transcript_def slots_typed_def slots_transcript_eq)
next
  case r: (BoundFlow c slots)
  then obtain c' slots' where "r' = BoundFlow c' slots'"
    using assms(3) by (cases r') (simp_all add: kinds_differ kinds_differ [symmetric])
  then show ?thesis
    using assms r
    by (auto simp: action_flow_transcript_def slots_typed_def slots_transcript_eq flow_context_typed_def
        intro: action_flow_context.equality)
next
  case r: (BoundObservation ob)
  then obtain ob' where "r' = BoundObservation ob'"
    using assms(3) by (cases r') (simp_all add: kinds_differ [symmetric])
  then show ?thesis
    using assms r
    by (auto simp: action_observation_transcript_def observation_typed_def intro: action_observation.equality)
qed

text \<open>
  C27: The binding digests commit to everything they are given. Every digest of an opaque exchange, an
  action flow or an action observation is SHA-256 of its own transcript, and well-typed requests with equal
  transcripts are the same request of the same kind: no identifier, epoch, deadline, slot number, slot
  boundary, outcome or payload byte can change, and no request of one kind be taken for one of another,
  without a collision of the hash.
\<close>

theorem binding_transcripts_injective:
  "request_digest sha256 r = sha256 (request_transcript r) \<and>
   (\<forall>r r'. request_typed r \<and> request_typed r' \<longrightarrow>
      (request_transcript r = request_transcript r' \<longleftrightarrow> r = r'))"
  using request_transcript_inj request_digest_transcript by blast

definition sample_flow :: "u64 \<Rightarrow> action_flow_context" where
  "sample_flow epoch = \<lparr>fc_flow_id = replicate 16 1, fc_account_slot_id = replicate 16 2, fc_login_epoch = 1,
     fc_online_epoch = 0, fc_transport_epoch = epoch, fc_expires_at_ms = 9\<rparr>"

theorem binding_transcripts_injective_witness:
  "request_transcript (BoundFlow (sample_flow 1) [\<lparr>slot_id = 7, slot_value = [1]\<rparr>]) \<noteq>
   request_transcript (BoundFlow (sample_flow 2) [\<lparr>slot_id = 7, slot_value = [1]\<rparr>])"
proof -
  have "request_typed (BoundFlow (sample_flow epoch) [\<lparr>slot_id = 7, slot_value = [1]\<rparr>])" for epoch
    by (simp add: sample_flow_def flow_context_typed_def slots_typed_def opaque_slots_ok_def slots_length_def
        slot_ok_def MAX_OPAQUE_SLOTS_def MAX_OPAQUE_AGGREGATE_LEN_def MAX_OPAQUE_SLOT_LEN_def)
  moreover have "sample_flow 1 \<noteq> sample_flow 2" by (simp add: sample_flow_def)
  ultimately show ?thesis
    using binding_transcripts_injective by blast
qed

end
