(* ===== verification/Ceylith_Admission.thy ===== *)
theory Ceylith_Admission
  imports Ceylith_Opaque
begin

text \<open>
  Session admission, profile decisions and telemetry of \<open>crates/ceylith-protocol/src/session.rs\<close>,
  \<open>profile.rs\<close> and \<open>telemetry.rs\<close>. Protobuf encoding is a parameter: \<open>encoded_len\<close> and \<open>encode\<close> of
  the generated message, the latter failing as \<open>prost::Message::encode\<close> may.
\<close>

section \<open>Admission\<close>

definition MAX_ACCESS_TOKEN_LEN :: nat where
  "MAX_ACCESS_TOKEN_LEN = 512"

definition MAX_RUNTIME_LEASE_LEN :: nat where
  "MAX_RUNTIME_LEASE_LEN = 512"

definition MAX_CONTRACTS :: nat where
  "MAX_CONTRACTS = 128"

definition HELLO_SIGNATURE_DOMAIN :: bytes where
  "HELLO_SIGNATURE_DOMAIN = lit ''Ceylith session hello v2'' @ [0]"

definition PROFILE_SIGNATURE_DOMAIN :: bytes where
  "PROFILE_SIGNATURE_DOMAIN = lit ''Ceylith profile decision v2'' @ [0]"

datatype grant_class = Public | Community | Full

record session_admission =
  sa_session_id :: bytes
  sa_runtime_lease :: bytes
  sa_lease_expires_at_ms :: u64
  sa_grant_class :: grant_class
  sa_max_full_accounts :: u32
  sa_max_active_installations :: u32
  sa_max_registered_installations :: u32
  sa_server_time_ms :: u64
  sa_policy_epoch :: u64
  sa_accepted_contracts :: "u32 list"

text \<open>The \<open>BTreeSet\<close> loop of \<open>validate_contracts\<close>; \<open>unique\<close> holds the contracts inserted so far.\<close>

fun contracts_loop :: "u32 list \<Rightarrow> u32 list \<Rightarrow> codec_error + unit" where
  "contracts_loop unique [] = Inr ()"
| "contracts_loop unique (c # cs) =
     (if c = 0 \<or> c \<in> set unique then Inl CInvalidField else contracts_loop (c # unique) cs)"

definition validate_contracts :: "u32 list \<Rightarrow> codec_error + unit" where
  "validate_contracts contracts =
     (if contracts = [] \<or> MAX_CONTRACTS < length contracts then Inl CInvalidField
      else contracts_loop [] contracts)"

definition validate_exact :: "bytes \<Rightarrow> nat \<Rightarrow> codec_error + unit" where
  "validate_exact v expected = (if length v = expected then Inr () else Inl CInvalidField)"

definition validate_client_runtime :: "pb_client_runtime \<Rightarrow> codec_error + unit" where
  "validate_client_runtime runtime =
     (if cr_runtime_abi runtime = 0 \<or> cr_envelope_contract runtime = 0 \<or> cr_platform runtime = 0 \<or>
         cr_architecture runtime = 0
      then Inl CInvalidField
      else bindE (fixed_bytes 32 (cr_build_digest runtime)) (\<lambda>_.
        bindE (validate_contracts (cr_action_contracts runtime)) (\<lambda>_.
        validate_contracts (cr_source_contracts runtime))))"

definition validate_session_hello :: "pb_session_hello \<Rightarrow> codec_error + unit" where
  "validate_session_hello hello =
     bindE (fixed_bytes 16 (sh_installation_id hello)) (\<lambda>_.
     bindE (validate_exact (sh_installation_sign_public_key hello) 32) (\<lambda>_.
     bindE (validate_exact (sh_installation_noise_public_key hello) 32) (\<lambda>_.
     bindE (validate_exact (sh_transcript_signature hello) 64) (\<lambda>_.
     if MAX_ACCESS_TOKEN_LEN < length (sh_access_token hello) then Inl CInvalidField
     else bindE (ok_or CInvalidField (sh_runtime hello)) validate_client_runtime))))"

text \<open>A signing transcript: the domain and the message encoded without its signature.\<close>

definition signing_transcript ::
    "bytes \<Rightarrow> ('m \<Rightarrow> nat) \<Rightarrow> ('m \<Rightarrow> bytes option) \<Rightarrow> 'm \<Rightarrow> codec_error + bytes" where
  "signing_transcript domain encoded_len encode bare =
     bindE (ok_or CLengthOverflow (usize_add (length domain) (encoded_len bare))) (\<lambda>_.
     bindE (ok_or CProtobuf (encode bare)) (\<lambda>encoded.
     Inr (domain @ encoded)))"

definition session_hello_signing_transcript ::
    "(pb_session_hello \<Rightarrow> nat) \<Rightarrow> (pb_session_hello \<Rightarrow> bytes option) \<Rightarrow> pb_session_hello \<Rightarrow>
     codec_error + bytes" where
  "session_hello_signing_transcript encoded_len encode hello =
     signing_transcript HELLO_SIGNATURE_DOMAIN encoded_len encode
       (hello\<lparr>sh_transcript_signature := []\<rparr>)"

definition profile_decision_signing_transcript ::
    "(pb_profile_decision \<Rightarrow> nat) \<Rightarrow> (pb_profile_decision \<Rightarrow> bytes option) \<Rightarrow> pb_profile_decision \<Rightarrow>
     codec_error + bytes" where
  "profile_decision_signing_transcript encoded_len encode decision =
     signing_transcript PROFILE_SIGNATURE_DOMAIN encoded_len encode
       (decision\<lparr>pd_manifest_signature := []\<rparr>)"

fun grant_class_of :: "pb_grant_class \<Rightarrow> codec_error + grant_class" where
  "grant_class_of GrantPublic = Inr Public"
| "grant_class_of GrantCommunity = Inr Community"
| "grant_class_of GrantFull = Inr Full"
| "grant_class_of GrantUnspecified = Inl CInvalidField"

definition validate_quotas :: "pb_session_welcome \<Rightarrow> grant_class \<Rightarrow> codec_error + unit" where
  "validate_quotas welcome g =
     (if g = Public \<and> sw_max_full_accounts welcome \<noteq> 0 then Inl CInvalidField
      else if g = Community \<and> (sw_max_full_accounts welcome = 0 \<or>
                sw_max_active_installations welcome = 0 \<or> sw_max_registered_installations welcome = 0)
      then Inl CInvalidField
      else Inr ())"

definition decode_session_welcome :: "pb_session_welcome \<Rightarrow> codec_error + session_admission" where
  "decode_session_welcome welcome =
     bindE (fixed_bytes 16 (sw_session_id welcome)) (\<lambda>session_id.
     if sw_runtime_lease welcome = [] \<or> MAX_RUNTIME_LEASE_LEN < length (sw_runtime_lease welcome)
     then Inl CInvalidField
     else if sw_lease_expires_at_ms welcome \<le> sw_server_time_ms welcome \<or>
       sw_server_time_ms welcome = 0 \<or> sw_policy_epoch welcome = 0
     then Inl CInvalidField
     else
       bindE (ok_or CInvalidField (pb_grant_class_try_from (sw_grant_class welcome))) (\<lambda>g.
       bindE (grant_class_of g) (\<lambda>grant.
       bindE (validate_quotas welcome grant) (\<lambda>_.
       bindE (validate_contracts (sw_accepted_contracts welcome)) (\<lambda>_.
       Inr \<lparr>sa_session_id = session_id, sa_runtime_lease = sw_runtime_lease welcome,
         sa_lease_expires_at_ms = sw_lease_expires_at_ms welcome, sa_grant_class = grant,
         sa_max_full_accounts = sw_max_full_accounts welcome,
         sa_max_active_installations = sw_max_active_installations welcome,
         sa_max_registered_installations = sw_max_registered_installations welcome,
         sa_server_time_ms = sw_server_time_ms welcome, sa_policy_epoch = sw_policy_epoch welcome,
         sa_accepted_contracts = sw_accepted_contracts welcome\<rparr>)))))"

section \<open>Profile decisions\<close>

definition MAX_MANIFEST_LEN :: nat where
  "MAX_MANIFEST_LEN = 32 * 1024"

datatype profile_error = InvalidStatus | InvalidProfileId | IncompleteReady | UnexpectedManifest | ProfileBounds

record ready_profile =
  rp_profile_id :: bytes
  rp_manifest :: bytes
  rp_manifest_digest :: bytes
  rp_manifest_signature :: bytes
  rp_expires_at_ms :: u64
  rp_policy_epoch :: u64

datatype profile_outcome =
    ProfileReady ready_profile
  | ClientUpgradeRequired bytes u32 u64
  | ProfileUnavailable bytes u64

definition decode_ready :: "pb_profile_decision \<Rightarrow> bytes \<Rightarrow> profile_error + ready_profile" where
  "decode_ready decision profile_id =
     (if pd_manifest decision = [] \<or> MAX_MANIFEST_LEN < length (pd_manifest decision) \<or>
         pd_expires_at_ms decision = 0
      then Inl IncompleteReady
      else bindE (map_err (\<lambda>_. IncompleteReady) (fixed_bytes 32 (pd_manifest_digest decision))) (\<lambda>digest.
        bindE (map_err (\<lambda>_. IncompleteReady) (fixed_bytes 64 (pd_manifest_signature decision))) (\<lambda>signature.
        Inr \<lparr>rp_profile_id = profile_id, rp_manifest = pd_manifest decision, rp_manifest_digest = digest,
          rp_manifest_signature = signature, rp_expires_at_ms = pd_expires_at_ms decision,
          rp_policy_epoch = pd_policy_epoch decision\<rparr>)))"

definition require_empty_manifest :: "pb_profile_decision \<Rightarrow> profile_error + unit" where
  "require_empty_manifest decision =
     (if pd_manifest decision = [] \<and> pd_manifest_digest decision = [] \<and>
         pd_manifest_signature decision = [] \<and> pd_expires_at_ms decision = 0
      then Inr () else Inl UnexpectedManifest)"

definition decode_profile_outcome :: "pb_profile_decision \<Rightarrow> profile_error + profile_outcome" where
  "decode_profile_outcome decision =
     bindE (map_err (\<lambda>_. InvalidProfileId) (fixed_bytes 16 (pd_profile_id decision))) (\<lambda>profile_id.
     bindE (ok_or InvalidStatus (pb_profile_status_try_from (pd_status decision))) (\<lambda>status.
     case status of
       StatusReady \<Rightarrow> bindE (decode_ready decision profile_id) (\<lambda>r. Inr (ProfileReady r))
     | StatusClientUpgradeRequired \<Rightarrow>
         bindE (require_empty_manifest decision) (\<lambda>_.
         if pd_required_runtime_abi decision = 0 then Inl InvalidStatus
         else Inr (ClientUpgradeRequired profile_id (pd_required_runtime_abi decision)
                (pd_policy_epoch decision)))
     | StatusUnavailable \<Rightarrow>
         bindE (require_empty_manifest decision) (\<lambda>_.
         Inr (ProfileUnavailable profile_id (pd_policy_epoch decision)))
     | StatusUnspecified \<Rightarrow> Inl InvalidStatus))"

section \<open>Telemetry\<close>

definition TELEMETRY_TRANSCRIPT_DOMAIN :: bytes where
  "TELEMETRY_TRANSCRIPT_DOMAIN = lit ''ceylith-v2-community-telemetry-v1''"

datatype group_count_bucket =
    GroupsZero | GroupsOneToFive | GroupsSixToTwenty | GroupsTwentyOneToFifty | GroupsFiftyOneToOneHundred
  | GroupsOneHundredOneToTwoHundred | GroupsTwoHundredOneToFiveHundred | GroupsOverFiveHundred

definition group_bucket :: "u64 \<Rightarrow> group_count_bucket" where
  "group_bucket v =
     (if v = 0 then GroupsZero
      else if v \<le> 5 then GroupsOneToFive
      else if v \<le> 20 then GroupsSixToTwenty
      else if v \<le> 50 then GroupsTwentyOneToFifty
      else if v \<le> 100 then GroupsFiftyOneToOneHundred
      else if v \<le> 200 then GroupsOneHundredOneToTwoHundred
      else if v \<le> 500 then GroupsTwoHundredOneToFiveHundred
      else GroupsOverFiveHundred)"

fun group_bucket_to_wire :: "group_count_bucket \<Rightarrow> pb_group_count_bucket" where
  "group_bucket_to_wire GroupsZero = GcbZero"
| "group_bucket_to_wire GroupsOneToFive = GcbOneToFive"
| "group_bucket_to_wire GroupsSixToTwenty = GcbSixToTwenty"
| "group_bucket_to_wire GroupsTwentyOneToFifty = GcbTwentyOneToFifty"
| "group_bucket_to_wire GroupsFiftyOneToOneHundred = GcbFiftyOneToOneHundred"
| "group_bucket_to_wire GroupsOneHundredOneToTwoHundred = GcbOneHundredOneToTwoHundred"
| "group_bucket_to_wire GroupsTwoHundredOneToFiveHundred = GcbTwoHundredOneToFiveHundred"
| "group_bucket_to_wire GroupsOverFiveHundred = GcbOverFiveHundred"

datatype message_count_bucket =
    MessagesZero | MessagesOneToTwenty | MessagesTwentyOneToOneHundred | MessagesOneHundredOneToFiveHundred
  | MessagesFiveHundredOneToTwoThousand | MessagesTwoThousandOneToTenThousand | MessagesOverTenThousand

definition message_bucket :: "u64 \<Rightarrow> message_count_bucket" where
  "message_bucket v =
     (if v = 0 then MessagesZero
      else if v \<le> 20 then MessagesOneToTwenty
      else if v \<le> 100 then MessagesTwentyOneToOneHundred
      else if v \<le> 500 then MessagesOneHundredOneToFiveHundred
      else if v \<le> 2000 then MessagesFiveHundredOneToTwoThousand
      else if v \<le> 10000 then MessagesTwoThousandOneToTenThousand
      else MessagesOverTenThousand)"

fun message_bucket_to_wire :: "message_count_bucket \<Rightarrow> pb_message_count_bucket" where
  "message_bucket_to_wire MessagesZero = McbZero"
| "message_bucket_to_wire MessagesOneToTwenty = McbOneToTwenty"
| "message_bucket_to_wire MessagesTwentyOneToOneHundred = McbTwentyOneToOneHundred"
| "message_bucket_to_wire MessagesOneHundredOneToFiveHundred = McbOneHundredOneToFiveHundred"
| "message_bucket_to_wire MessagesFiveHundredOneToTwoThousand = McbFiveHundredOneToTwoThousand"
| "message_bucket_to_wire MessagesTwoThousandOneToTenThousand = McbTwoThousandOneToTenThousand"
| "message_bucket_to_wire MessagesOverTenThousand = McbOverTenThousand"

datatype active_duration_bucket =
    DurationZero | UnderOneHour | OneToFourHours | FourToEightHours | EightToSixteenHours
  | SixteenToTwentyFourHours

definition duration_bucket :: "u64 \<Rightarrow> active_duration_bucket" where
  "duration_bucket v =
     (if v = 0 then DurationZero
      else if v < 60 * 60 * 1000 then UnderOneHour
      else if v \<le> 14400000 then OneToFourHours
      else if v \<le> 28800000 then FourToEightHours
      else if v \<le> 57600000 then EightToSixteenHours
      else SixteenToTwentyFourHours)"

fun duration_bucket_to_wire :: "active_duration_bucket \<Rightarrow> pb_active_duration_bucket" where
  "duration_bucket_to_wire DurationZero = AdbZero"
| "duration_bucket_to_wire UnderOneHour = AdbUnderOneHour"
| "duration_bucket_to_wire OneToFourHours = AdbOneToFourHours"
| "duration_bucket_to_wire FourToEightHours = AdbFourToEightHours"
| "duration_bucket_to_wire EightToSixteenHours = AdbEightToSixteenHours"
| "duration_bucket_to_wire SixteenToTwentyFourHours = AdbSixteenToTwentyFourHours"

datatype account_churn_bucket = ChurnZero | ChurnOne | ChurnTwoToThree | ChurnFourToSeven | ChurnEightOrMore

definition churn_bucket :: "u64 \<Rightarrow> account_churn_bucket" where
  "churn_bucket v =
     (if v = 0 then ChurnZero
      else if v = 1 then ChurnOne
      else if v \<le> 3 then ChurnTwoToThree
      else if v \<le> 7 then ChurnFourToSeven
      else ChurnEightOrMore)"

fun churn_bucket_to_wire :: "account_churn_bucket \<Rightarrow> pb_account_churn_bucket" where
  "churn_bucket_to_wire ChurnZero = AcbZero"
| "churn_bucket_to_wire ChurnOne = AcbOne"
| "churn_bucket_to_wire ChurnTwoToThree = AcbTwoToThree"
| "churn_bucket_to_wire ChurnFourToSeven = AcbFourToSeven"
| "churn_bucket_to_wire ChurnEightOrMore = AcbEightOrMore"

definition closed_bucket :: "(i32 \<Rightarrow> 'b option) \<Rightarrow> i32 \<Rightarrow> codec_error + unit" where
  "closed_bucket try_from v = (if v = 0 \<or> try_from v = None then Inl CInvalidField else Inr ())"

definition validate_report_fields :: "pb_community_telemetry_report \<Rightarrow> bool \<Rightarrow> codec_error + unit" where
  "validate_report_fields report require_signature =
     (if tr_runtime_lease report = [] \<or> tr_utc_day report = 0 \<or> tr_generated_at_ms report = 0 \<or>
         length (tr_profile_id report) \<noteq> 16 \<or> length (tr_profile_manifest_digest report) \<noteq> 32 \<or>
         length (tr_build_digest report) \<noteq> 32 \<or> tr_platform report = 0 \<or> tr_architecture report = 0 \<or>
         (require_signature \<and> length (tr_installation_signature report) \<noteq> 64) \<or>
         (\<not> require_signature \<and> tr_installation_signature report \<noteq> [] \<and>
            length (tr_installation_signature report) \<noteq> 64)
      then Inl CInvalidField
      else
        bindE (fixed_bytes 16 (tr_report_id report)) (\<lambda>_.
        bindE (closed_bucket pb_group_count_bucket_try_from (tr_group_count report)) (\<lambda>_.
        bindE (closed_bucket pb_message_count_bucket_try_from (tr_messages_received report)) (\<lambda>_.
        bindE (closed_bucket pb_message_count_bucket_try_from (tr_messages_sent report)) (\<lambda>_.
        bindE (closed_bucket pb_active_duration_bucket_try_from (tr_active_duration report)) (\<lambda>_.
        closed_bucket pb_account_churn_bucket_try_from (tr_account_churn report)))))))"

definition validate_report :: "pb_community_telemetry_report \<Rightarrow> codec_error + unit" where
  "validate_report report = validate_report_fields report True"

definition validate_receipt :: "pb_telemetry_receipt \<Rightarrow> codec_error + unit" where
  "validate_receipt receipt =
     bindE (fixed_bytes 16 (tc_report_id receipt)) (\<lambda>_.
     if \<not> tc_accepted receipt \<or> tc_code receipt = 0 then Inl CInvalidField else Inr ())"

definition telemetry_signing_transcript ::
    "(pb_community_telemetry_report \<Rightarrow> bytes option) \<Rightarrow> pb_community_telemetry_report \<Rightarrow>
     codec_error + bytes" where
  "telemetry_signing_transcript encode report =
     bindE (validate_report_fields report False) (\<lambda>_.
     bindE (ok_or CProtobuf (encode (report\<lparr>tr_installation_signature := []\<rparr>))) (\<lambda>encoded.
     Inr (TELEMETRY_TRANSCRIPT_DOMAIN @ encoded)))"

section \<open>What admission establishes\<close>

lemma contracts_loop_Inr:
  "contracts_loop unique cs = Inr () \<longleftrightarrow> distinct cs \<and> 0 \<notin> set cs \<and> set unique \<inter> set cs = {}"
  by (induction cs arbitrary: unique) auto

lemma validate_contracts_Inr:
  "validate_contracts cs = Inr () \<longleftrightarrow> cs \<noteq> [] \<and> length cs \<le> MAX_CONTRACTS \<and> distinct cs \<and> 0 \<notin> set cs"
  by (auto simp: validate_contracts_def contracts_loop_Inr)

definition contracts_ok :: "u32 list \<Rightarrow> bool" where
  "contracts_ok cs \<longleftrightarrow> cs \<noteq> [] \<and> length cs \<le> MAX_CONTRACTS \<and> distinct cs \<and> 0 \<notin> set cs"

fun quotas_ok :: "grant_class \<Rightarrow> u32 \<Rightarrow> u32 \<Rightarrow> u32 \<Rightarrow> bool" where
  "quotas_ok Public full active registered \<longleftrightarrow> full = 0"
| "quotas_ok Community full active registered \<longleftrightarrow> full \<noteq> 0 \<and> active \<noteq> 0 \<and> registered \<noteq> 0"
| "quotas_ok Full full active registered \<longleftrightarrow> True"

text \<open>What the type \<open>SessionAdmission\<close> promises its holders.\<close>

definition admission_ok :: "session_admission \<Rightarrow> bool" where
  "admission_ok a \<longleftrightarrow> length (sa_session_id a) = 16 \<and> sa_runtime_lease a \<noteq> [] \<and>
     length (sa_runtime_lease a) \<le> MAX_RUNTIME_LEASE_LEN \<and> 0 < sa_server_time_ms a \<and>
     sa_server_time_ms a < sa_lease_expires_at_ms a \<and> sa_policy_epoch a \<noteq> 0 \<and>
     quotas_ok (sa_grant_class a) (sa_max_full_accounts a) (sa_max_active_installations a)
       (sa_max_registered_installations a) \<and> contracts_ok (sa_accepted_contracts a)"

fun grant_code :: "grant_class \<Rightarrow> i32" where
  "grant_code Public = 1"
| "grant_code Community = 2"
| "grant_code Full = 3"

definition welcome_of :: "session_admission \<Rightarrow> pb_session_welcome" where
  "welcome_of a = \<lparr>sw_session_id = sa_session_id a, sw_runtime_lease = sa_runtime_lease a,
     sw_lease_expires_at_ms = sa_lease_expires_at_ms a, sw_grant_class = grant_code (sa_grant_class a),
     sw_max_full_accounts = sa_max_full_accounts a, sw_max_active_installations = sa_max_active_installations a,
     sw_max_registered_installations = sa_max_registered_installations a,
     sw_server_time_ms = sa_server_time_ms a, sw_policy_epoch = sa_policy_epoch a,
     sw_accepted_contracts = sa_accepted_contracts a\<rparr>"

lemma grant_class_Inr:
  "bindE (ok_or CInvalidField (pb_grant_class_try_from c)) grant_class_of = Inr g \<longleftrightarrow> c = grant_code g"
  by (cases g) (auto simp: pb_grant_class_try_from_def)

lemma grant_code_of:
  "ok_or CInvalidField (pb_grant_class_try_from c) = Inr w \<Longrightarrow> grant_class_of w = Inr g \<Longrightarrow> c = grant_code g"
  using grant_class_Inr [of c g] by simp

lemma validate_quotas_Inr:
  "validate_quotas w g = Inr () \<longleftrightarrow>
   quotas_ok g (sw_max_full_accounts w) (sw_max_active_installations w) (sw_max_registered_installations w)"
  by (cases g) (auto simp: validate_quotas_def)

lemma grant_class_bind:
  "bindE (ok_or CInvalidField (pb_grant_class_try_from c)) (\<lambda>g. bindE (grant_class_of g) f) = Inr r \<longleftrightarrow>
   (\<exists>g. c = grant_code g \<and> f g = Inr r)"
  using grant_class_Inr [of c, unfolded bindE_Inr] unfolding bindE_Inr by blast

text \<open>
  C30: Admissions are well-formed by construction. Decoding a welcome returns an admission exactly when the welcome
  is that admission field by field and the admission is well-formed: identifiers at their width, a
  bounded non-empty lease that expires after the server's time, a policy generation, quotas that fit the
  grant class and a non-empty list of distinct non-zero contracts. The quotas are those the code
  checks: no full accounts under Public, none of the three zero under Community, anything under Full
  (the comments on the accessors allow a zero under Full only).
\<close>

theorem session_admission_typed:
  "decode_session_welcome w = Inr a \<longleftrightarrow> admission_ok a \<and> w = welcome_of a"
  unfolding decode_session_welcome_def bindE_Inr [of "fixed_bytes 16 (sw_session_id w)"] fixed_bytes_Inr
  by (cases w; cases a)
    (auto simp: grant_class_bind grant_class_Inr [unfolded bindE_Inr] bindE_Inr validate_quotas_Inr validate_contracts_Inr admission_ok_def
      contracts_ok_def welcome_of_def word_neq_0_conv not_le not_less
      split: if_splits dest: grant_code_of)

end
