(* ===== verification/Ceylith_Inner.thy ===== *)
theory Ceylith_Inner
  imports Ceylith_Admission Ceylith_Scan
begin

text \<open>
  Validation and coding of inner frames, \<open>crates/ceylith-protocol/src/inner/validate.rs\<close> and
  \<open>inner/mod.rs\<close>, and the decoding of Watch responses, \<open>watch.rs\<close>. SHA-256 and the generated protobuf codec
  are parameters.
\<close>

section \<open>Bounds\<close>

definition MAX_WATCH_PAYLOAD_LEN :: nat where
  "MAX_WATCH_PAYLOAD_LEN = 16 * 1024"

definition MAX_WATCH_WAIT_MS :: u32 where
  "MAX_WATCH_WAIT_MS = 30000"

definition MAX_ACTION_PAYLOAD_LEN :: nat where
  "MAX_ACTION_PAYLOAD_LEN = 48 * 1024"

definition MAX_ACTION_BODY_LEN :: nat where
  "MAX_ACTION_BODY_LEN = 48 * 1024"

definition MAX_ACTION_ROUTE_LEN :: nat where
  "MAX_ACTION_ROUTE_LEN = 512"

definition MAX_ACTION_MARKS :: nat where
  "MAX_ACTION_MARKS = 16"

definition MAX_ACTION_MARK_LEN :: nat where
  "MAX_ACTION_MARK_LEN = 4 * 1024"

definition MAX_ACTION_MARK_AGGREGATE_LEN :: nat where
  "MAX_ACTION_MARK_AGGREGATE_LEN = 8 * 1024"

definition MAX_ACTION_TIMEOUT_MS :: u32 where
  "MAX_ACTION_TIMEOUT_MS = 30000"

definition MAX_ACTION_DELAY_MS :: u32 where
  "MAX_ACTION_DELAY_MS = 300000"

definition validate_bounded_len :: "nat \<Rightarrow> nat \<Rightarrow> codec_error + unit" where
  "validate_bounded_len len bound =
     (if bound < len then Inl (CLengthLimitExceeded LkField bound len) else Inr ())"

definition validate_bounded :: "bytes \<Rightarrow> nat \<Rightarrow> codec_error + unit" where
  "validate_bounded v bound = validate_bounded_len (length v) bound"

definition validate_runtime_lease :: "bytes \<Rightarrow> codec_error + unit" where
  "validate_runtime_lease v =
     (if v = [] then Inl CInvalidField else validate_bounded v MAX_RUNTIME_LEASE_LEN)"

section \<open>Slots and exchanges\<close>

fun slots_loop :: "u32 list \<Rightarrow> nat \<Rightarrow> pb_opaque_slot list \<Rightarrow> codec_error + nat" where
  "slots_loop unique aggregate [] = Inr aggregate"
| "slots_loop unique aggregate (s # ss) =
     (if os_slot s = 0 \<or> os_slot s \<in> set unique then Inl CInvalidField
      else bindE (validate_bounded (os_value s) MAX_OPAQUE_SLOT_LEN) (\<lambda>_.
        bindE (ok_or CLengthOverflow (usize_add aggregate (length (os_value s)))) (\<lambda>aggregate.
        slots_loop (os_slot s # unique) aggregate ss)))"

definition validate_slots :: "pb_opaque_slot list \<Rightarrow> codec_error + unit" where
  "validate_slots slots =
     (if slots = [] \<or> MAX_OPAQUE_SLOTS < length slots then Inl CInvalidField
      else bindE (slots_loop [] 0 slots) (\<lambda>aggregate.
        validate_bounded_len aggregate MAX_OPAQUE_AGGREGATE_LEN))"

definition validate_opaque_request :: "pb_opaque_exchange_request \<Rightarrow> codec_error + unit" where
  "validate_opaque_request v =
     bindE (validate_runtime_lease (oq_runtime_lease v)) (\<lambda>_.
     bindE (fixed_bytes 16 (oq_exchange_id v)) (\<lambda>_.
     bindE (fixed_bytes 16 (oq_account_slot_id v)) (\<lambda>_.
     if oq_generation v = 0 \<or> oq_expires_at_ms v = 0 then Inl CInvalidField
     else bindE (fixed_bytes 32 (oq_binding_digest v)) (\<lambda>_. validate_slots (oq_slots v)))))"

definition validate_opaque_response :: "pb_opaque_exchange_response \<Rightarrow> codec_error + unit" where
  "validate_opaque_response v =
     bindE (fixed_bytes 16 (or_exchange_id v)) (\<lambda>_.
     if or_generation v = 0 \<or> or_expires_at_ms v = 0 then Inl CInvalidField
     else bindE (fixed_bytes 32 (or_binding_digest v)) (\<lambda>_. validate_slots (or_slots v)))"

section \<open>Actions\<close>

definition validate_action_flow_begin :: "(bytes \<Rightarrow> bytes) \<Rightarrow> pb_action_flow_begin \<Rightarrow> codec_error + unit" where
  "validate_action_flow_begin sha256 v =
     bindE (validate_runtime_lease (fb_runtime_lease v)) (\<lambda>_.
     bindE (fixed_bytes 16 (fb_flow_id v)) (\<lambda>_.
     bindE (fixed_bytes 16 (fb_account_slot_id v)) (\<lambda>_.
     if fb_login_epoch v = 0 \<or> fb_transport_epoch v = 0 \<or> fb_expires_at_ms v = 0 \<or> fb_inputs v = []
     then Inl CInvalidField
     else
       bindE (fixed_bytes 32 (fb_binding_digest v)) (\<lambda>binding.
       bindE (validate_slots (fb_inputs v)) (\<lambda>_.
       bindE (map_err (\<lambda>_. CInvalidField) (opaque_slots_from_wire (fb_inputs v))) (\<lambda>inputs.
       bindE (fixed_bytes 16 (fb_flow_id v)) (\<lambda>flow_id.
       bindE (fixed_bytes 16 (fb_account_slot_id v)) (\<lambda>account_slot_id.
       let context = \<lparr>fc_flow_id = flow_id, fc_account_slot_id = account_slot_id,
             fc_login_epoch = fb_login_epoch v, fc_online_epoch = fb_online_epoch v,
             fc_transport_epoch = fb_transport_epoch v, fc_expires_at_ms = fb_expires_at_ms v\<rparr> in
       if binding \<noteq> action_flow_binding_digest sha256 context inputs then Inl CInvalidField
       else Inr ())))))))) "

fun observation_kind_of :: "pb_action_observation_kind \<Rightarrow> codec_error + action_observation_kind" where
  "observation_kind_of ObsResponse = Inr ResponseOutcome"
| "observation_kind_of ObsTransportFailure = Inr TransportFailureOutcome"
| "observation_kind_of ObsTimeout = Inr TimeoutOutcome"
| "observation_kind_of ObsCancelled = Inr CancelledOutcome"
| "observation_kind_of ObsStaleTransport = Inr StaleTransportOutcome"
| "observation_kind_of ObsLocalEncodeFailure = Inr LocalEncodeFailureOutcome"
| "observation_kind_of ObsUnspecified = Inl CInvalidField"

definition validate_action_observation :: "(bytes \<Rightarrow> bytes) \<Rightarrow> pb_action_observation \<Rightarrow> codec_error + unit" where
  "validate_action_observation sha256 v =
     bindE (validate_runtime_lease (ao_runtime_lease v)) (\<lambda>_.
     bindE (fixed_bytes 16 (ao_flow_id v)) (\<lambda>_.
     bindE (fixed_bytes 16 (ao_action_id v)) (\<lambda>_.
     bindE (fixed_bytes 32 (ao_action_digest v)) (\<lambda>_.
     bindE (fixed_bytes 32 (ao_binding_digest v)) (\<lambda>binding.
     bindE (ok_or CInvalidField (pb_action_observation_kind_try_from (ao_outcome v))) (\<lambda>outcome.
     if outcome = ObsUnspecified \<or> ao_observed_at_ms v = 0 then Inl CInvalidField
     else if (outcome = ObsResponse) = (ao_payload v = []) then Inl CInvalidField
     else
       bindE (validate_bounded (ao_payload v) MAX_ACTION_PAYLOAD_LEN) (\<lambda>_.
       bindE (observation_kind_of outcome) (\<lambda>outcome.
       bindE (fixed_bytes 16 (ao_flow_id v)) (\<lambda>flow_id.
       bindE (fixed_bytes 16 (ao_action_id v)) (\<lambda>action_id.
       bindE (fixed_bytes 32 (ao_action_digest v)) (\<lambda>action_digest.
       let observation = \<lparr>ob_flow_id = flow_id, ob_action_id = action_id, ob_action_digest = action_digest,
             ob_outcome = outcome, ob_payload = ao_payload v, ob_observed_at_ms = ao_observed_at_ms v\<rparr> in
       if binding \<noteq> action_observation_binding_digest sha256 observation then Inl CInvalidField
       else Inr ())))))))))))"

text \<open>\<open>u16::try_from\<close> of a mark's slot.\<close>

definition u16_of :: "u32 \<Rightarrow> u16 option" where
  "u16_of v = (if unat v < 2 ^ 16 then Some (ucast v) else None)"

fun marks_loop :: "u16 list \<Rightarrow> nat \<Rightarrow> pb_action_mark list \<Rightarrow> codec_error + nat" where
  "marks_loop unique aggregate [] = Inr aggregate"
| "marks_loop unique aggregate (m # ms) =
     bindE (ok_or CInvalidField (u16_of (am_slot m))) (\<lambda>slot.
     if slot = 0 \<or> am_value m = [] \<or> slot \<in> set unique then Inl CInvalidField
     else bindE (validate_bounded (am_value m) MAX_ACTION_MARK_LEN) (\<lambda>_.
       bindE (ok_or CLengthOverflow (usize_add aggregate (length (am_value m)))) (\<lambda>aggregate.
       marks_loop (slot # unique) aggregate ms)))"

definition validate_action_marks :: "pb_action_mark list \<Rightarrow> codec_error + unit" where
  "validate_action_marks marks =
     (if MAX_ACTION_MARKS < length marks then Inl CInvalidField
      else bindE (marks_loop [] 0 marks) (\<lambda>aggregate.
        validate_bounded_len aggregate MAX_ACTION_MARK_AGGREGATE_LEN))"

definition validate_action :: "pb_action_directive \<Rightarrow> codec_error + unit" where
  "validate_action v =
     bindE (fixed_bytes 16 (ad_action_id v)) (\<lambda>_.
     bindE (fixed_bytes 32 (ad_expected_body_digest v)) (\<lambda>_.
     bindE (fixed_bytes 32 (ad_action_digest v)) (\<lambda>_.
     if ad_route_shard v = [] \<or> ad_body_shard v = [] \<or> ad_envelope_contract v = 0 \<or>
        ad_transport_epoch v = 0 \<or> ad_response_policy v \<notin> {1, 2} \<or> ad_timeout_ms v = 0 \<or>
        MAX_ACTION_TIMEOUT_MS < ad_timeout_ms v \<or> MAX_ACTION_DELAY_MS < ad_delay_ms v
     then Inl CInvalidField
     else
       bindE (validate_bounded (ad_route_shard v) MAX_ACTION_ROUTE_LEN) (\<lambda>_.
       bindE (validate_bounded (ad_body_shard v) MAX_ACTION_BODY_LEN) (\<lambda>_.
       validate_action_marks (ad_marks v))))))"

definition validate_action_flow_update :: "pb_action_flow_update \<Rightarrow> codec_error + unit" where
  "validate_action_flow_update v =
     bindE (fixed_bytes 16 (fu_flow_id v)) (\<lambda>_.
     bindE (ok_or CInvalidField (pb_action_flow_status_try_from (fu_status v))) (\<lambda>status.
     if fu_expires_at_ms v = 0 then Inl CInvalidField
     else case status of
       FlowAction \<Rightarrow> bindE (ok_or CInvalidField (fu_action v)) validate_action
     | FlowComplete \<Rightarrow> if fu_action v = None then Inr () else Inl CInvalidField
     | FlowUnspecified \<Rightarrow> Inl CInvalidField))"

section \<open>Profiles, Watch and errors\<close>

definition validate_profile_request :: "pb_profile_request \<Rightarrow> codec_error + unit" where
  "validate_profile_request v =
     bindE (validate_runtime_lease (pq_runtime_lease v)) (\<lambda>_.
     bindE (fixed_bytes 16 (pq_profile_id v)) (\<lambda>_.
     bindE (if pq_cached_manifest_digest v \<noteq> []
            then bindE (fixed_bytes 32 (pq_cached_manifest_digest v)) (\<lambda>_. Inr ()) else Inr ()) (\<lambda>_.
     if pq_requested_access v \<notin> {1, 2} then Inl CInvalidField
     else bindE (ok_or CInvalidField (pq_runtime v)) validate_client_runtime)))"

definition validate_watch_request :: "pb_watch_request \<Rightarrow> codec_error + unit" where
  "validate_watch_request v =
     bindE (validate_runtime_lease (wq_runtime_lease v)) (\<lambda>_.
     if wq_max_wait_ms v = 0 \<or> MAX_WATCH_WAIT_MS < wq_max_wait_ms v then Inl CInvalidField else Inr ())"

definition validate_watch_grant :: "pb_watch_grant_snapshot \<Rightarrow> codec_error + unit" where
  "validate_watch_grant v =
     bindE (ok_or CInvalidField (pb_grant_class_try_from (wg_grant_class v))) (\<lambda>grant.
     bindE (ok_or CInvalidField (pb_renewal_state_try_from (wg_renewal_state v))) (\<lambda>renewal.
     if grant = GrantUnspecified \<or> renewal = RenewalUnspecified \<or> wg_expires_at_ms v = 0 \<or>
        wg_policy_epoch v = 0
     then Inl CInvalidField
     else if grant = GrantPublic \<and> wg_max_full_accounts v \<noteq> 0 then Inl CInvalidField
     else if grant = GrantCommunity \<and> (wg_max_full_accounts v = 0 \<or> wg_max_active_installations v = 0)
     then Inl CInvalidField
     else Inr ()))"

definition validate_watch_kind_grant ::
    "pb_watch_event_kind \<Rightarrow> pb_watch_grant_snapshot \<Rightarrow> codec_error + unit" where
  "validate_watch_kind_grant kind grant =
     bindE (ok_or CInvalidField (pb_renewal_state_try_from (wg_renewal_state grant))) (\<lambda>renewal.
     if kind = KindRenewalPaused \<and> renewal \<noteq> RenewalPaused then Inl CInvalidField
     else if kind = KindGrantRevoked \<and> renewal \<noteq> RenewalRevoked then Inl CInvalidField
     else if kind = KindGrantRestored \<and> renewal \<noteq> RenewalCurrent then Inl CInvalidField
     else if kind \<in> {KindGrantExpiring, KindQuotaChanged, KindPolicyChanged} \<and> renewal = RenewalRevoked
     then Inl CInvalidField
     else Inr ())"

definition validate_watch_event :: "pb_watch_event \<Rightarrow> codec_error + unit" where
  "validate_watch_event v =
     bindE (ok_or CInvalidField (pb_watch_event_kind_try_from (we_kind v))) (\<lambda>kind.
     if we_cursor v = 0 \<or> kind = KindUnspecified \<or> we_occurred_at_ms v = 0 \<or> we_reason_code v = 0
     then Inl CInvalidField
     else
       bindE (if we_account_slot_id v \<noteq> []
              then bindE (fixed_bytes 16 (we_account_slot_id v)) (\<lambda>_. Inr ()) else Inr ()) (\<lambda>_.
       bindE (validate_bounded (we_payload v) MAX_WATCH_PAYLOAD_LEN) (\<lambda>_.
       if kind \<in> {KindGrantExpiring, KindRenewalPaused, KindGrantRevoked, KindQuotaChanged,
                  KindPolicyChanged, KindGrantRestored}
       then bindE (ok_or CInvalidField (we_grant v)) (\<lambda>grant.
         bindE (validate_watch_grant grant) (\<lambda>_. validate_watch_kind_grant kind grant))
       else if kind \<in> {KindProfileChanged, KindMaintenance}
       then (if we_grant v \<noteq> None then Inl CInvalidField else Inr ())
       else Inl CInvalidField)))"

definition validate_error :: "pb_error_frame \<Rightarrow> codec_error + unit" where
  "validate_error v =
     (if ef_code v = 0 then Inl CInvalidField
      else if ef_incident_id v \<noteq> [] then bindE (fixed_bytes 16 (ef_incident_id v)) (\<lambda>_. Inr ())
      else Inr ())"

section \<open>Inner frames\<close>

fun validate_body :: "(bytes \<Rightarrow> bytes) \<Rightarrow> inner_body \<Rightarrow> codec_error + unit" where
  "validate_body sha256 (BodyProfileRequest v) = validate_profile_request v"
| "validate_body sha256 (BodyProfileDecision v) =
     bindE (map_err (\<lambda>_. CInvalidField) (decode_profile_outcome v)) (\<lambda>_. Inr ())"
| "validate_body sha256 (BodyOpaqueExchangeRequest v) = validate_opaque_request v"
| "validate_body sha256 (BodyOpaqueExchangeResponse v) = validate_opaque_response v"
| "validate_body sha256 (BodyWatchRequest v) = validate_watch_request v"
| "validate_body sha256 (BodyWatchEvent v) = validate_watch_event v"
| "validate_body sha256 (BodyActionFlowBegin v) = validate_action_flow_begin sha256 v"
| "validate_body sha256 (BodyActionObservation v) = validate_action_observation sha256 v"
| "validate_body sha256 (BodyActionFlowUpdate v) = validate_action_flow_update v"
| "validate_body sha256 (BodyCommunityTelemetryReport v) = validate_report v"
| "validate_body sha256 (BodyTelemetryReceipt v) = validate_receipt v"
| "validate_body sha256 (BodyGenericResult v) = validate_bounded (gr_payload v) MAX_WATCH_PAYLOAD_LEN"
| "validate_body sha256 (BodyError v) = validate_error v"

definition validate_inner :: "(bytes \<Rightarrow> bytes) \<Rightarrow> inner_frame \<Rightarrow> codec_error + unit" where
  "validate_inner sha256 frame =
     (if if_contract frame \<noteq> CURRENT_INNER_CONTRACT then Inl CInvalidContract
      else bindE (ok_or CUnsupportedBody (if_body frame)) (validate_body sha256))"

definition enforce_inner_limit :: "nat \<Rightarrow> wire_limits \<Rightarrow> codec_error + unit" where
  "enforce_inner_limit len limits =
     (if inner_frame limits < len
      then Inl (CLengthLimitExceeded LkInnerFrame (inner_frame limits) len) else Inr ())"

definition encode_inner_frame ::
    "(bytes \<Rightarrow> bytes) \<Rightarrow> (inner_frame \<Rightarrow> nat) \<Rightarrow> (inner_frame \<Rightarrow> bytes option) \<Rightarrow> inner_frame \<Rightarrow>
     wire_limits \<Rightarrow> codec_error + bytes" where
  "encode_inner_frame sha256 encoded_len encode frame limits =
     bindE (validate_inner sha256 frame) (\<lambda>_.
     bindE (enforce_inner_limit (encoded_len frame) limits) (\<lambda>_.
     ok_or CProtobuf (encode frame)))"

definition decode_inner_frame ::
    "(bytes \<Rightarrow> bytes) \<Rightarrow> (bytes \<Rightarrow> inner_frame option) \<Rightarrow> bytes \<Rightarrow> wire_limits \<Rightarrow>
     codec_error + inner_frame" where
  "decode_inner_frame sha256 decode input limits =
     bindE (enforce_inner_limit (length input) limits) (\<lambda>_.
     bindE (validate_top_level input) (\<lambda>_.
     bindE (ok_or CProtobuf (decode input)) (\<lambda>frame.
     bindE (validate_inner sha256 frame) (\<lambda>_.
     Inr frame))))"

section \<open>Watch responses\<close>

definition WATCH_IDLE_CODE :: u32 where
  "WATCH_IDLE_CODE = 1"

datatype watch_event_kind =
    GrantExpiring | RenewalPausedEvent | GrantRevoked | QuotaChanged | PolicyChanged | ProfileChanged
  | Maintenance | GrantRestored

datatype renewal_state = CurrentRenewal | PausedRenewal | RevokedRenewal

record watch_grant_snapshot =
  gs_grant_class :: grant_class
  gs_max_full_accounts :: u32
  gs_max_active_installations :: u32
  gs_expires_at_ms :: u64
  gs_renewal_state :: renewal_state
  gs_policy_epoch :: u64

record watch_event =
  ev_cursor :: u64
  ev_kind :: watch_event_kind
  ev_occurred_at_ms :: u64
  ev_account_slot_id :: "bytes option"
  ev_reason_code :: u32
  ev_payload :: bytes
  ev_grant :: "watch_grant_snapshot option"

datatype watch_outcome = WatchEvent watch_event | WatchIdle u64

fun kind_of :: "pb_watch_event_kind \<Rightarrow> codec_error + watch_event_kind" where
  "kind_of KindGrantExpiring = Inr GrantExpiring"
| "kind_of KindRenewalPaused = Inr RenewalPausedEvent"
| "kind_of KindGrantRevoked = Inr GrantRevoked"
| "kind_of KindQuotaChanged = Inr QuotaChanged"
| "kind_of KindPolicyChanged = Inr PolicyChanged"
| "kind_of KindProfileChanged = Inr ProfileChanged"
| "kind_of KindMaintenance = Inr Maintenance"
| "kind_of KindGrantRestored = Inr GrantRestored"
| "kind_of KindUnspecified = Inl CInvalidField"

definition decode_kind :: "i32 \<Rightarrow> codec_error + watch_event_kind" where
  "decode_kind v = bindE (ok_or CInvalidField (pb_watch_event_kind_try_from v)) kind_of"

fun renewal_of :: "pb_renewal_state \<Rightarrow> codec_error + renewal_state" where
  "renewal_of RenewalCurrent = Inr CurrentRenewal"
| "renewal_of RenewalPaused = Inr PausedRenewal"
| "renewal_of RenewalRevoked = Inr RevokedRenewal"
| "renewal_of RenewalUnspecified = Inl CInvalidField"

definition decode_grant :: "pb_watch_grant_snapshot \<Rightarrow> codec_error + watch_grant_snapshot" where
  "decode_grant v =
     bindE (ok_or CInvalidField (pb_grant_class_try_from (wg_grant_class v))) (\<lambda>g.
     bindE (grant_class_of g) (\<lambda>grant.
     bindE (ok_or CInvalidField (pb_renewal_state_try_from (wg_renewal_state v))) (\<lambda>r.
     bindE (renewal_of r) (\<lambda>renewal.
     Inr \<lparr>gs_grant_class = grant, gs_max_full_accounts = wg_max_full_accounts v,
       gs_max_active_installations = wg_max_active_installations v, gs_expires_at_ms = wg_expires_at_ms v,
       gs_renewal_state = renewal, gs_policy_epoch = wg_policy_epoch v\<rparr>))))"

definition decode_event :: "pb_watch_event \<Rightarrow> codec_error + watch_event" where
  "decode_event v =
     bindE (decode_kind (we_kind v)) (\<lambda>kind.
     bindE (if we_account_slot_id v = [] then Inr None
            else bindE (fixed_bytes 16 (we_account_slot_id v)) (\<lambda>i. Inr (Some i))) (\<lambda>account_slot_id.
     bindE (case we_grant v of None \<Rightarrow> Inr None
            | Some g \<Rightarrow> bindE (decode_grant g) (\<lambda>g. Inr (Some g))) (\<lambda>grant.
     Inr \<lparr>ev_cursor = we_cursor v, ev_kind = kind, ev_occurred_at_ms = we_occurred_at_ms v,
       ev_account_slot_id = account_slot_id, ev_reason_code = we_reason_code v,
       ev_payload = we_payload v, ev_grant = grant\<rparr>)))"

definition decode_watch_response :: "(bytes \<Rightarrow> bytes) \<Rightarrow> inner_frame \<Rightarrow> u64 \<Rightarrow> codec_error + watch_outcome" where
  "decode_watch_response sha256 frame requested_cursor =
     bindE (validate_inner sha256 frame) (\<lambda>_.
     bindE (ok_or CUnsupportedBody (if_body frame)) (\<lambda>body.
     case body of
       BodyWatchEvent v \<Rightarrow>
         if requested_cursor < we_cursor v then bindE (decode_event v) (\<lambda>e. Inr (WatchEvent e))
         else Inl CInvalidField
     | BodyGenericResult v \<Rightarrow>
         if gr_accepted v \<and> gr_code v = WATCH_IDLE_CODE \<and> gr_payload v = []
         then Inr (WatchIdle requested_cursor) else Inl CInvalidField
     | _ \<Rightarrow> Inl CInvalidField))"

section \<open>What Watch accepts\<close>

fun kind_code :: "watch_event_kind \<Rightarrow> i32" where
  "kind_code GrantExpiring = 1"
| "kind_code RenewalPausedEvent = 2"
| "kind_code GrantRevoked = 3"
| "kind_code QuotaChanged = 4"
| "kind_code PolicyChanged = 5"
| "kind_code ProfileChanged = 6"
| "kind_code Maintenance = 7"
| "kind_code GrantRestored = 8"

fun renewal_code :: "renewal_state \<Rightarrow> i32" where
  "renewal_code CurrentRenewal = 1"
| "renewal_code PausedRenewal = 2"
| "renewal_code RevokedRenewal = 3"

definition grant_to_wire :: "watch_grant_snapshot \<Rightarrow> pb_watch_grant_snapshot" where
  "grant_to_wire g = \<lparr>wg_grant_class = grant_code (gs_grant_class g),
     wg_max_full_accounts = gs_max_full_accounts g,
     wg_max_active_installations = gs_max_active_installations g, wg_expires_at_ms = gs_expires_at_ms g,
     wg_renewal_state = renewal_code (gs_renewal_state g), wg_policy_epoch = gs_policy_epoch g\<rparr>"

definition event_to_wire :: "watch_event \<Rightarrow> pb_watch_event" where
  "event_to_wire e = \<lparr>we_cursor = ev_cursor e, we_kind = kind_code (ev_kind e),
     we_occurred_at_ms = ev_occurred_at_ms e,
     we_account_slot_id = (case ev_account_slot_id e of None \<Rightarrow> [] | Some i \<Rightarrow> i),
     we_reason_code = ev_reason_code e, we_payload = ev_payload e,
     we_grant = map_option grant_to_wire (ev_grant e)\<rparr>"

definition grant_ok :: "watch_grant_snapshot \<Rightarrow> bool" where
  "grant_ok g \<longleftrightarrow> gs_expires_at_ms g \<noteq> 0 \<and> gs_policy_epoch g \<noteq> 0 \<and>
     (case gs_grant_class g of
        Public \<Rightarrow> gs_max_full_accounts g = 0
      | Community \<Rightarrow> gs_max_full_accounts g \<noteq> 0 \<and> gs_max_active_installations g \<noteq> 0
      | Full \<Rightarrow> True)"

text \<open>The grant snapshot an event of a kind must carry.\<close>

fun kind_grant_ok :: "watch_event_kind \<Rightarrow> watch_grant_snapshot option \<Rightarrow> bool" where
  "kind_grant_ok ProfileChanged g \<longleftrightarrow> g = None"
| "kind_grant_ok Maintenance g \<longleftrightarrow> g = None"
| "kind_grant_ok k None \<longleftrightarrow> False"
| "kind_grant_ok RenewalPausedEvent (Some g) \<longleftrightarrow> grant_ok g \<and> gs_renewal_state g = PausedRenewal"
| "kind_grant_ok GrantRevoked (Some g) \<longleftrightarrow> grant_ok g \<and> gs_renewal_state g = RevokedRenewal"
| "kind_grant_ok GrantRestored (Some g) \<longleftrightarrow> grant_ok g \<and> gs_renewal_state g = CurrentRenewal"
| "kind_grant_ok k (Some g) \<longleftrightarrow> grant_ok g \<and> gs_renewal_state g \<noteq> RevokedRenewal"

definition watch_event_ok :: "watch_event \<Rightarrow> bool" where
  "watch_event_ok e \<longleftrightarrow> ev_occurred_at_ms e \<noteq> 0 \<and> ev_reason_code e \<noteq> 0 \<and>
     length (ev_payload e) \<le> MAX_WATCH_PAYLOAD_LEN \<and>
     (case ev_account_slot_id e of None \<Rightarrow> True | Some i \<Rightarrow> length i = 16) \<and>
     kind_grant_ok (ev_kind e) (ev_grant e)"

lemma validate_bounded_len_Inr [simp]: "validate_bounded_len len bound = Inr () \<longleftrightarrow> len \<le> bound"
  by (auto simp: validate_bounded_len_def)

lemma validate_bounded_Inr [simp]: "validate_bounded v bound = Inr () \<longleftrightarrow> length v \<le> bound"
  by (simp add: validate_bounded_def)

lemma kind_try_from [simp]:
  "pb_watch_event_kind_try_from (kind_code k) =
   Some (case k of GrantExpiring \<Rightarrow> KindGrantExpiring | RenewalPausedEvent \<Rightarrow> KindRenewalPaused
     | GrantRevoked \<Rightarrow> KindGrantRevoked | QuotaChanged \<Rightarrow> KindQuotaChanged | PolicyChanged \<Rightarrow> KindPolicyChanged
     | ProfileChanged \<Rightarrow> KindProfileChanged | Maintenance \<Rightarrow> KindMaintenance | GrantRestored \<Rightarrow> KindGrantRestored)"
  by (cases k) (simp_all add: pb_watch_event_kind_try_from_def)

lemma renewal_try_from [simp]:
  "pb_renewal_state_try_from (renewal_code r) =
   Some (case r of CurrentRenewal \<Rightarrow> RenewalCurrent | PausedRenewal \<Rightarrow> RenewalPaused | RevokedRenewal \<Rightarrow> RenewalRevoked)"
  by (cases r) (simp_all add: pb_renewal_state_try_from_def)

lemma grant_try_from [simp]:
  "pb_grant_class_try_from (grant_code g) =
   Some (case g of Public \<Rightarrow> GrantPublic | Community \<Rightarrow> GrantCommunity | Full \<Rightarrow> GrantFull)"
  by (cases g) (simp_all add: pb_grant_class_try_from_def)

lemma decode_kind_Inr: "decode_kind v = Inr k \<longleftrightarrow> v = kind_code k"
  by (cases k) (auto simp: decode_kind_def pb_watch_event_kind_try_from_def)

lemma renewal_Inr:
  "bindE (ok_or CInvalidField (pb_renewal_state_try_from v)) (\<lambda>r. bindE (renewal_of r) f) = Inr b \<longleftrightarrow>
   (\<exists>r. v = renewal_code r \<and> f r = Inr b)"
proof
  assume "bindE (ok_or CInvalidField (pb_renewal_state_try_from v)) (\<lambda>r. bindE (renewal_of r) f) = Inr b"
  then show "\<exists>r. v = renewal_code r \<and> f r = Inr b"
    unfolding pb_renewal_state_try_from_def by (auto split: if_splits intro: exI [of _ CurrentRenewal] exI [of _ PausedRenewal] exI [of _ RevokedRenewal])
next
  assume "\<exists>r. v = renewal_code r \<and> f r = Inr b"
  then show "bindE (ok_or CInvalidField (pb_renewal_state_try_from v)) (\<lambda>r. bindE (renewal_of r) f) = Inr b"
    by (auto split: renewal_state.splits)
qed

declare kind_code.simps [simp del] renewal_code.simps [simp del] grant_code.simps [simp del]

lemma decode_grant_Inr: "decode_grant w = Inr g \<longleftrightarrow> w = grant_to_wire g"
  unfolding decode_grant_def grant_class_bind renewal_Inr by (cases w; cases g) (auto simp: grant_to_wire_def)

lemma decode_event_Inr:
  "decode_event v = Inr e \<longleftrightarrow>
   v = event_to_wire e \<and> (case ev_account_slot_id e of None \<Rightarrow> True | Some i \<Rightarrow> length i = 16)"
  by (cases v; cases e)
    (auto simp: decode_event_def bindE_Inr decode_kind_Inr decode_grant_Inr fixed_bytes_Inr event_to_wire_def
      eq_commute [of "Some _" "map_option _ _"] split: option.splits if_splits)

lemma validate_watch_grant_wire: "validate_watch_grant (grant_to_wire g) = Inr () \<longleftrightarrow> grant_ok g"
  by (auto simp: validate_watch_grant_def grant_to_wire_def grant_ok_def
      split: grant_class.splits renewal_state.splits if_splits)

lemma validate_watch_kind_grant_wire:
  "validate_watch_kind_grant k (grant_to_wire g) = Inr () \<longleftrightarrow>
   \<not> (k = KindRenewalPaused \<and> gs_renewal_state g \<noteq> PausedRenewal) \<and>
   \<not> (k = KindGrantRevoked \<and> gs_renewal_state g \<noteq> RevokedRenewal) \<and>
   \<not> (k = KindGrantRestored \<and> gs_renewal_state g \<noteq> CurrentRenewal) \<and>
   \<not> (k \<in> {KindGrantExpiring, KindQuotaChanged, KindPolicyChanged} \<and> gs_renewal_state g = RevokedRenewal)"
  by (cases "gs_renewal_state g") (auto simp: validate_watch_kind_grant_def grant_to_wire_def)

lemma event_to_wire_cursor [simp]: "we_cursor (event_to_wire e) = ev_cursor e"
  by (simp add: event_to_wire_def)

lemma validate_watch_event_wire:
  assumes "case ev_account_slot_id e of None \<Rightarrow> True | Some i \<Rightarrow> length i = 16"
  shows "validate_watch_event (event_to_wire e) = Inr () \<longleftrightarrow> ev_cursor e \<noteq> 0 \<and> watch_event_ok e"
proof -
  have slot: "(if we_account_slot_id (event_to_wire e) \<noteq> []
      then bindE (fixed_bytes 16 (we_account_slot_id (event_to_wire e))) (\<lambda>_. Inr ()) else Inr ()) = Inr ()"
    using assms by (auto simp: event_to_wire_def fixed_bytes_def split: option.splits)
  have fields: "we_kind (event_to_wire e) = kind_code (ev_kind e)" "we_cursor (event_to_wire e) = ev_cursor e"
    "we_occurred_at_ms (event_to_wire e) = ev_occurred_at_ms e"
    "we_reason_code (event_to_wire e) = ev_reason_code e" "we_payload (event_to_wire e) = ev_payload e"
    "we_grant (event_to_wire e) = map_option grant_to_wire (ev_grant e)"
    by (simp_all add: event_to_wire_def)
  show ?thesis
    using assms unfolding validate_watch_event_def slot fields watch_event_ok_def kind_try_from
    by (cases "ev_kind e"; cases "ev_grant e")
      (simp_all add: bindE_Inr validate_watch_grant_wire validate_watch_kind_grant_wire conj_ac)
qed

text \<open>
  C29: Watch delivers exactly the coherent, newer events. A response to a poll with a cursor is accepted iff it is an
  inner frame of the compiled contract that holds either the idle result, and then the cursor stays, or the wire
  form of an event with a strictly greater cursor, a time, a reason, a bounded payload and the grant snapshot its
  kind demands: none for profile changes and maintenance, otherwise one with quotas that fit its class and the
  renewal state of the kind. Decoding loses no event that validation admitted.
\<close>

theorem watch_outcome_exact:
  "decode_watch_response sha256 frame requested = Inr outcome \<longleftrightarrow>
   if_contract frame = CURRENT_INNER_CONTRACT \<and>
   (case outcome of
      WatchIdle cursor \<Rightarrow> cursor = requested \<and>
        if_body frame = Some (BodyGenericResult \<lparr>gr_accepted = True, gr_code = WATCH_IDLE_CODE, gr_payload = []\<rparr>)
    | WatchEvent e \<Rightarrow> requested < ev_cursor e \<and> watch_event_ok e \<and>
        if_body frame = Some (BodyWatchEvent (event_to_wire e)))"
proof (cases "if_body frame")
  case None
  then show ?thesis
    by (auto simp: decode_watch_response_def validate_inner_def split: watch_outcome.splits)
next
  case (Some body)
  show ?thesis
  proof (cases body)
    case (BodyWatchEvent v)
    have nonzero: "ev_cursor e \<noteq> 0" if "requested < ev_cursor e" for e
      using that by (simp add: word_gt_0_no [symmetric] word_neq_0_conv) (metis word_not_simps(1) le_less_trans word_zero_le)
    show ?thesis
      using Some BodyWatchEvent nonzero validate_watch_event_wire
      by (auto simp: decode_watch_response_def validate_inner_def bindE_Inr decode_event_Inr watch_event_ok_def
          split: watch_outcome.splits if_splits)
  next
    case (BodyGenericResult v)
    then show ?thesis
      using Some
      by (cases v) (auto simp: decode_watch_response_def validate_inner_def bindE_Inr split: watch_outcome.splits)
  qed (use Some in \<open>auto simp: decode_watch_response_def bindE_Inr split: watch_outcome.splits\<close>)
qed

end
