(* ===== verification/Ceylith_Channel.thy ===== *)
theory Ceylith_Channel
  imports Ceylith_Inner
begin

text \<open>
  The secure channel to Ceylith: the counter-bound session of \<open>crates/ceylith-crypto/src/session.rs\<close> and
  sealing and opening of frames in \<open>crates/ceylith-client/src/connection.rs\<close>. The AEAD cipher state of the Noise
  library, SHA-256 and the generated protobuf codec are parameters.
\<close>

section \<open>The cipher and the codec the code is given\<close>

text \<open>
  \<open>CipherState\<close>: the next counter, sealing and opening with associated data, each with the state
  afterwards.
\<close>

record 'c cipher_ops =
  next_n :: "'c \<Rightarrow> u64"
  encrypt_ad :: "'c \<Rightarrow> bytes \<Rightarrow> bytes \<Rightarrow> bytes \<times> 'c"
  decrypt_ad :: "'c \<Rightarrow> bytes \<Rightarrow> bytes \<Rightarrow> bytes option \<times> 'c"

record inner_codec =
  ic_sha256 :: "bytes \<Rightarrow> bytes"
  ic_encoded_len :: "inner_frame \<Rightarrow> nat"
  ic_encode :: "inner_frame \<Rightarrow> bytes option"
  ic_decode :: "bytes \<Rightarrow> inner_frame option"

section \<open>Secure sessions\<close>

datatype secure_session_error =
    EntropyUnavailable | InvalidPublicKey | HandshakeFailed | MessageTooLarge | CounterMismatch
  | SessionExpired | AuthenticationFailed | SessionClosed | InvalidLimit

definition NOISE_TAG_LEN :: nat where
  "NOISE_TAG_LEN = 16"

definition TRANSPORT_TAG_LEN :: nat where
  "TRANSPORT_TAG_LEN = NOISE_TAG_LEN"

definition MAX_NOISE_MESSAGE_LEN :: nat where
  "MAX_NOISE_MESSAGE_LEN = 65535"

definition DEFAULT_SESSION_MESSAGE_LIMIT :: u64 where
  "DEFAULT_SESSION_MESSAGE_LIMIT = push_bit 20 1"

record 'c secure_session =
  ss_send :: 'c
  ss_receive :: 'c
  ss_message_limit :: u64
  ss_closed :: bool

definition secure_session_new :: "'c \<Rightarrow> 'c \<Rightarrow> 'c secure_session" where
  "secure_session_new snd_cipher receive =
     \<lparr>ss_send = snd_cipher, ss_receive = receive, ss_message_limit = DEFAULT_SESSION_MESSAGE_LIMIT,
      ss_closed = False\<rparr>"

definition with_message_limit :: "u64 \<Rightarrow> 'c secure_session \<Rightarrow> secure_session_error + 'c secure_session" where
  "with_message_limit n s =
     (if n = 0 \<or> DEFAULT_SESSION_MESSAGE_LIMIT < n then Inl InvalidLimit
      else Inr (s\<lparr>ss_message_limit := n\<rparr>))"

definition session_seal ::
    "'c cipher_ops \<Rightarrow> u64 \<Rightarrow> bytes \<Rightarrow> bytes \<Rightarrow> ('c secure_session, secure_session_error, bytes) op" where
  "session_seal ops counter header plaintext s =
     (if ss_closed s then (Inl SessionClosed, s)
      else if counter \<noteq> next_n ops (ss_send s) then (Inl CounterMismatch, s\<lparr>ss_closed := True\<rparr>)
      else if ss_message_limit s \<le> counter then (Inl SessionExpired, s\<lparr>ss_closed := True\<rparr>)
      else if MAX_NOISE_MESSAGE_LEN - NOISE_TAG_LEN < length plaintext then (Inl MessageTooLarge, s)
      else let (ciphertext, cipher) = encrypt_ad ops (ss_send s) header plaintext in
        (Inr ciphertext, s\<lparr>ss_send := cipher\<rparr>))"

definition session_open ::
    "'c cipher_ops \<Rightarrow> u64 \<Rightarrow> bytes \<Rightarrow> bytes \<Rightarrow> ('c secure_session, secure_session_error, bytes) op" where
  "session_open ops counter header ciphertext s =
     (if ss_closed s then (Inl SessionClosed, s)
      else if counter \<noteq> next_n ops (ss_receive s) then (Inl CounterMismatch, s\<lparr>ss_closed := True\<rparr>)
      else if ss_message_limit s \<le> counter then (Inl SessionExpired, s\<lparr>ss_closed := True\<rparr>)
      else if length ciphertext < NOISE_TAG_LEN \<or> MAX_NOISE_MESSAGE_LEN < length ciphertext
      then (Inl MessageTooLarge, s)
      else case decrypt_ad ops (ss_receive s) header ciphertext of
          (None, cipher) \<Rightarrow> (Inl AuthenticationFailed, s\<lparr>ss_receive := cipher, ss_closed := True\<rparr>)
        | (Some plaintext, cipher) \<Rightarrow> (Inr plaintext, s\<lparr>ss_receive := cipher\<rparr>))"

section \<open>Connections\<close>

datatype client_error =
    Protocol | SecureSessionFailure | SessionBinding | ClosedConnection | IdentityFailure
  | ProfileAuthentication | Carrier | Configuration | Worker

text \<open>The \<open>From\<close> conversions.\<close>

definition of_codec :: "codec_error + 'a \<Rightarrow> client_error + 'a" where
  "of_codec r = map_err (\<lambda>_. Protocol) r"

definition of_session :: "secure_session_error \<Rightarrow> client_error" where
  "of_session e = SecureSessionFailure"

record 'c client_connection =
  cc_admission :: session_admission
  cc_session :: "'c secure_session"
  cc_limits :: wire_limits
  cc_closed :: bool

definition connection_new :: "session_admission \<Rightarrow> 'c secure_session \<Rightarrow> wire_limits \<Rightarrow> 'c client_connection" where
  "connection_new admission session limits =
     \<lparr>cc_admission = admission, cc_session = session, cc_limits = limits, cc_closed = False\<rparr>"

definition is_closed :: "'c client_connection \<Rightarrow> bool" where
  "is_closed c \<longleftrightarrow> cc_closed c \<or> ss_closed (cc_session c)"

definition ensure_open :: "('c client_connection, client_error, unit) op" where
  "ensure_open c = (if is_closed c then Inl ClosedConnection else Inr (), c)"

definition connection_seal ::
    "'c cipher_ops \<Rightarrow> inner_codec \<Rightarrow> bytes \<Rightarrow> inner_frame \<Rightarrow> ('c client_connection, client_error, bytes) op" where
  "connection_seal ops codec request_id inner c =
     (if is_closed c then (Inl ClosedConnection, c)
      else
        let limits = cc_limits c; session_id = sa_session_id (cc_admission c);
            counter = next_n ops (ss_send (cc_session c)) in
        case bindE (of_codec (encode_inner_frame (ic_sha256 codec) (ic_encoded_len codec) (ic_encode codec)
                     inner limits)) (\<lambda>plaintext.
             bindE (ok_or Protocol (usize_add (length plaintext) TRANSPORT_TAG_LEN)) (\<lambda>ciphertext_len.
             bindE (of_codec (encode_secure_frame_header session_id counter request_id ciphertext_len
                     limits)) (\<lambda>header.
             Inr (plaintext, header)))) of
          Inl e \<Rightarrow> (Inl e, c)
        | Inr (plaintext, header) \<Rightarrow>
            (case session_seal ops counter header plaintext (cc_session c) of
               (r, session) \<Rightarrow>
                 (bindE (map_err of_session r) (\<lambda>ciphertext.
                  bindE (of_codec (secure_frame_new session_id counter request_id ciphertext limits)) (\<lambda>frame.
                  of_codec (encode_secure_frame frame limits))),
                  c\<lparr>cc_session := session\<rparr>)))"

definition connection_open ::
    "'c cipher_ops \<Rightarrow> inner_codec \<Rightarrow> bytes \<Rightarrow> ('c client_connection, client_error, bytes \<times> inner_frame) op" where
  "connection_open ops codec encoded c =
     (if is_closed c then (Inl ClosedConnection, c)
      else case decode_secure_frame encoded (cc_limits c) of
        Inl e \<Rightarrow> (Inl Protocol, c\<lparr>cc_closed := True\<rparr>)
      | Inr frame \<Rightarrow>
          if fr_session_id frame \<noteq> sa_session_id (cc_admission c)
          then (Inl SessionBinding, c\<lparr>cc_closed := True\<rparr>)
          else case encode_secure_frame_header (fr_session_id frame) (fr_counter frame) (fr_request_id frame)
                      (length (fr_ciphertext frame)) (cc_limits c) of
            Inl e \<Rightarrow> (Inl Protocol, c)
          | Inr header \<Rightarrow>
              (case session_open ops (fr_counter frame) header (fr_ciphertext frame) (cc_session c) of
                 (Inl e, session) \<Rightarrow> (Inl (of_session e), c\<lparr>cc_session := session, cc_closed := True\<rparr>)
               | (Inr plaintext, session) \<Rightarrow>
                   let c = c\<lparr>cc_session := session\<rparr> in
                   case decode_inner_frame (ic_sha256 codec) (ic_decode codec) plaintext (cc_limits c) of
                     Inl e \<Rightarrow> (Inl Protocol, c\<lparr>cc_closed := True\<rparr>)
                   | Inr inner \<Rightarrow> (Inr (fr_request_id frame, inner), c)))"

section \<open>What the cipher and the codec promise\<close>

text \<open>
  The AEAD of the Noise library is deterministic under its counter: sealing advances the counter by one and adds
  a tag of 16 bytes, and opening accepts precisely what sealing with the same state and associated data produces.
\<close>

definition cipher_laws :: "'c cipher_ops \<Rightarrow> bool" where
  "cipher_laws ops \<longleftrightarrow>
     (\<forall>c ad p. next_n ops (snd (encrypt_ad ops c ad p)) = next_n ops c + 1 \<and>
        length (fst (encrypt_ad ops c ad p)) = length p + 16) \<and>
     (\<forall>c ad ct p c'. decrypt_ad ops c ad ct = (Some p, c') \<longleftrightarrow> encrypt_ad ops c ad p = (ct, c'))"

lemma decrypt_Some:
  "cipher_laws ops \<Longrightarrow> decrypt_ad ops c ad ct = (Some p, c') \<longleftrightarrow> encrypt_ad ops c ad p = (ct, c')"
  by (simp add: cipher_laws_def)

lemma encrypt_next:
  "cipher_laws ops \<Longrightarrow> encrypt_ad ops c ad p = (ct, c') \<Longrightarrow> next_n ops c' = next_n ops c + 1 \<and> length ct = length p + 16"
  unfolding cipher_laws_def by (metis fst_conv snd_conv)

text \<open>The bytes \<open>encode_secure_frame_header\<close> emits.\<close>

definition secure_header :: "bytes \<Rightarrow> u64 \<Rightarrow> bytes \<Rightarrow> nat \<Rightarrow> bytes" where
  "secure_header session_id counter request_id n =
     SECURE_FRAME_MAGIC @ to_be 2 CURRENT_WIRE_VERSION @ [0, 0] @ session_id @ to_be 8 counter @ request_id @
     to_be 4 (of_nat n :: u32)"

lemma secure_layout_header:
  "secure_layout f = secure_header (fr_session_id f) (fr_counter f) (fr_request_id f) (length (fr_ciphertext f)) @
     fr_ciphertext f"
  by (simp add: secure_layout_def secure_header_def)

lemma secure_header_Inr:
  assumes "limits_ok limits"
  shows "encode_secure_frame_header session_id counter request_id n limits = Inr header \<longleftrightarrow>
    n \<le> max_ciphertext limits \<and> header = secure_header session_id counter request_id n"
  using assms
  by (auto simp: encode_secure_frame_header_def secure_header_def bindE_Inr ok_or_Inr u32_len_def limits_ok_def
      ceylith_limits usize_limit_def)

text \<open>
  One message on the wire: the frame that carries a plaintext under a cipher state, and the state after it.
\<close>

definition sealed ::
    "'c cipher_ops \<Rightarrow> 'c client_connection \<Rightarrow> 'c \<Rightarrow> bytes \<Rightarrow> bytes \<Rightarrow> bytes \<times> 'c \<Rightarrow> bool" where
  "sealed ops c cipher request_id plaintext out \<longleftrightarrow>
     (let n = length plaintext + 16;
          header = secure_header (sa_session_id (cc_admission c)) (next_n ops cipher) request_id n;
          (ciphertext, cipher') = encrypt_ad ops cipher header plaintext in
      next_n ops cipher < ss_message_limit (cc_session c) \<and> n \<le> MAX_NOISE_MESSAGE_LEN \<and>
      n \<le> max_ciphertext (cc_limits c) \<and> length request_id = 16 \<and> out = (header @ ciphertext, cipher'))"

lemma sealed_iff:
  "sealed ops c cipher request_id plaintext (out, cipher') \<longleftrightarrow>
   (\<exists>ciphertext. encrypt_ad ops cipher (secure_header (sa_session_id (cc_admission c)) (next_n ops cipher) request_id
        (length plaintext + 16)) plaintext = (ciphertext, cipher') \<and>
      out = secure_header (sa_session_id (cc_admission c)) (next_n ops cipher) request_id (length plaintext + 16) @ ciphertext \<and>
      next_n ops cipher < ss_message_limit (cc_session c) \<and> length plaintext + 16 \<le> MAX_NOISE_MESSAGE_LEN \<and>
      length plaintext + 16 \<le> max_ciphertext (cc_limits c) \<and> length request_id = 16)"
  by (auto simp: sealed_def Let_def split: prod.splits)

definition connection_ok :: "'c client_connection \<Rightarrow> bool" where
  "connection_ok c \<longleftrightarrow> limits_ok (cc_limits c) \<and> length (sa_session_id (cc_admission c)) = 16"

text \<open>Opening accepts exactly what is sealed under the receiving cipher and holds a valid frame.\<close>

lemma connection_open_Inr:
  assumes laws: "cipher_laws ops" and ok: "connection_ok c"
  shows "connection_open ops codec input c = (Inr (request_id, inner), c') \<longleftrightarrow>
    \<not> is_closed c \<and> (\<exists>plaintext cipher.
       sealed ops c (ss_receive (cc_session c)) request_id plaintext (input, cipher) \<and>
       decode_inner_frame (ic_sha256 codec) (ic_decode codec) plaintext (cc_limits c) = Inr inner \<and>
       c' = c\<lparr>cc_session := (cc_session c)\<lparr>ss_receive := cipher\<rparr>\<rparr>)"
    (is "?l \<longleftrightarrow> ?r")
proof
  assume ?l
  from ok have limits: "limits_ok (cc_limits c)" by (simp add: connection_ok_def)
  from \<open>?l\<close> have open_c: "\<not> is_closed c" by (auto simp: connection_open_def split: if_splits)
  with \<open>?l\<close> obtain frame header plaintext session where
    frame: "decode_secure_frame input (cc_limits c) = Inr frame" "fr_session_id frame = sa_session_id (cc_admission c)"
    and header: "encode_secure_frame_header (fr_session_id frame) (fr_counter frame) (fr_request_id frame)
        (length (fr_ciphertext frame)) (cc_limits c) = Inr header"
    and session: "session_open ops (fr_counter frame) header (fr_ciphertext frame) (cc_session c) = (Inr plaintext, session)"
    and inner: "decode_inner_frame (ic_sha256 codec) (ic_decode codec) plaintext (cc_limits c) = Inr inner"
    and c': "request_id = fr_request_id frame" "c' = c\<lparr>cc_session := session\<rparr>"
    by (auto simp: connection_open_def Let_def split: if_splits sum.splits prod.splits)
  from session obtain cipher where
    cipher: "decrypt_ad ops (ss_receive (cc_session c)) header (fr_ciphertext frame) = (Some plaintext, cipher)"
    "session = (cc_session c)\<lparr>ss_receive := cipher\<rparr>" "fr_counter frame = next_n ops (ss_receive (cc_session c))"
    "fr_counter frame < ss_message_limit (cc_session c)" "length (fr_ciphertext frame) \<le> MAX_NOISE_MESSAGE_LEN"
    by (auto simp: session_open_def not_le split: if_splits prod.splits option.splits)
  then have enc: "encrypt_ad ops (ss_receive (cc_session c)) header plaintext = (fr_ciphertext frame, cipher)"
    using decrypt_Some [OF laws] by simp
  note len = encrypt_next [OF laws enc]
  have "sealed ops c (ss_receive (cc_session c)) request_id plaintext (input, cipher)"
    using frame header cipher enc len c'(1)
    by (auto simp: sealed_def decode_secure_Inr [OF limits] secure_header_Inr [OF limits] secure_typed_def
        secure_layout_header Let_def)
  with open_c inner cipher(2) c'(2) show ?r by auto
next
  assume ?r
  then obtain plaintext cipher where open_c: "\<not> is_closed c"
    and sealed: "sealed ops c (ss_receive (cc_session c)) request_id plaintext (input, cipher)"
    and inner: "decode_inner_frame (ic_sha256 codec) (ic_decode codec) plaintext (cc_limits c) = Inr inner"
    and c': "c' = c\<lparr>cc_session := (cc_session c)\<lparr>ss_receive := cipher\<rparr>\<rparr>" by blast
  from ok have limits: "limits_ok (cc_limits c)" by (simp add: connection_ok_def)
  let ?cipher = "ss_receive (cc_session c)"
  let ?header = "secure_header (sa_session_id (cc_admission c)) (next_n ops ?cipher) request_id (length plaintext + 16)"
  from sealed obtain ciphertext where enc: "encrypt_ad ops ?cipher ?header plaintext = (ciphertext, cipher)"
    and input: "input = ?header @ ciphertext"
    and bounds: "next_n ops ?cipher < ss_message_limit (cc_session c)" "length plaintext + 16 \<le> MAX_NOISE_MESSAGE_LEN"
      "length plaintext + 16 \<le> max_ciphertext (cc_limits c)" "length request_id = 16"
    by (auto simp: sealed_def Let_def split: prod.splits)
  note len = encrypt_next [OF laws enc]
  let ?frame = "\<lparr>fr_session_id = sa_session_id (cc_admission c), fr_counter = next_n ops ?cipher,
      fr_request_id = request_id, fr_ciphertext = ciphertext\<rparr>"
  have "decode_secure_frame input (cc_limits c) = Inr ?frame"
    using bounds len ok by (simp add: decode_secure_Inr [OF limits] secure_typed_def secure_layout_header input connection_ok_def)
  moreover have "encode_secure_frame_header (sa_session_id (cc_admission c)) (next_n ops ?cipher) request_id
      (length ciphertext) (cc_limits c) = Inr ?header"
    using bounds len by (simp add: secure_header_Inr [OF limits])
  moreover have "session_open ops (next_n ops ?cipher) ?header ciphertext (cc_session c) =
      (Inr plaintext, (cc_session c)\<lparr>ss_receive := cipher\<rparr>)"
    using bounds len open_c enc decrypt_Some [OF laws, of ?cipher ?header ciphertext plaintext cipher]
    by (simp add: session_open_def is_closed_def not_le NOISE_TAG_LEN_def not_less)
  ultimately show ?l
    using open_c inner c' by (simp add: connection_open_def Let_def)
qed

text \<open>Whatever opening refuses closes the connection for good.\<close>

lemma connection_open_Inl:
  assumes ok: "connection_ok c" and err: "connection_open ops codec input c = (Inl e, c')"
  shows "is_closed c'"
proof -
  from ok have limits: "limits_ok (cc_limits c)" by (simp add: connection_ok_def)
  show ?thesis
  proof (cases "is_closed c \<or> (\<exists>e. decode_secure_frame input (cc_limits c) = Inl e)")
    case True
    then show ?thesis using err by (auto simp: connection_open_def is_closed_def split: if_splits)
  next
    case False
    then obtain frame where open_c: "\<not> is_closed c" and frame: "decode_secure_frame input (cc_limits c) = Inr frame"
      by (metis sum.exhaust)
    then obtain header where header: "encode_secure_frame_header (fr_session_id frame) (fr_counter frame)
        (fr_request_id frame) (length (fr_ciphertext frame)) (cc_limits c) = Inr header"
      by (auto simp: decode_secure_Inr [OF limits] secure_header_Inr [OF limits])
    obtain r session where session: "session_open ops (fr_counter frame) header (fr_ciphertext frame) (cc_session c) = (r, session)"
      by fastforce
    from open_c frame header session err show ?thesis
      by (cases r) (auto simp: connection_open_def is_closed_def Let_def split: if_splits sum.splits)
  qed
qed

lemma connection_open_closed: "is_closed c \<Longrightarrow> connection_open ops codec input c = (Inl ClosedConnection, c)"
  by (simp add: connection_open_def)

lemma connection_open_keeps:
  assumes "connection_open ops codec input c = (r, c')"
  shows "cc_admission c' = cc_admission c \<and> cc_limits c' = cc_limits c"
  using assms by (auto simp: connection_open_def Let_def split: if_splits sum.splits prod.splits)

section \<open>Sealing\<close>

lemma of_codec_Inr: "of_codec r = Inr a \<longleftrightarrow> r = Inr a"
  by (simp add: of_codec_def map_err_Inr)

lemma connection_seal_Inr:
  assumes laws: "cipher_laws ops" and ok: "connection_ok c" and id: "length request_id = 16"
  shows "connection_seal ops codec request_id inner c = (Inr out, c') \<longleftrightarrow>
    \<not> is_closed c \<and> (\<exists>plaintext cipher.
       encode_inner_frame (ic_sha256 codec) (ic_encoded_len codec) (ic_encode codec) inner (cc_limits c) = Inr plaintext \<and>
       sealed ops c (ss_send (cc_session c)) request_id plaintext (out, cipher) \<and>
       c' = c\<lparr>cc_session := (cc_session c)\<lparr>ss_send := cipher\<rparr>\<rparr>)"
proof -
  from ok have limits: "limits_ok (cc_limits c)" by (simp add: connection_ok_def)
  let ?cipher = "ss_send (cc_session c)"
  let ?sid = "sa_session_id (cc_admission c)"
  let ?header = "\<lambda>p. secure_header ?sid (next_n ops ?cipher) request_id (length p + 16)"
  let ?encode = "encode_inner_frame (ic_sha256 codec) (ic_encoded_len codec) (ic_encode codec) inner (cc_limits c)"
  have small: "x < usize_limit" if "x \<le> max_ciphertext (cc_limits c)" for x
    using that limits by (simp add: limits_ok_def ceylith_limits usize_limit_def)
  have prepared: "bindE (of_codec ?encode) (\<lambda>plaintext.
      bindE (ok_or Protocol (usize_add (length plaintext) TRANSPORT_TAG_LEN)) (\<lambda>n.
      bindE (of_codec (encode_secure_frame_header ?sid (next_n ops ?cipher) request_id n (cc_limits c))) (\<lambda>header.
      Inr (plaintext, header)))) = Inr (p, h) \<longleftrightarrow>
    ?encode = Inr p \<and> length p + 16 \<le> max_ciphertext (cc_limits c) \<and> h = ?header p" for p h
    using small [of "length p + 16"]
    by (auto simp: bindE_Inr of_codec_Inr ok_or_Inr secure_header_Inr [OF limits] TRANSPORT_TAG_LEN_def NOISE_TAG_LEN_def)
  have framed: "bindE (of_codec (secure_frame_new ?sid (next_n ops ?cipher) request_id ct (cc_limits c))) (\<lambda>frame.
      of_codec (encode_secure_frame frame (cc_limits c))) = Inr out \<longleftrightarrow>
    length ct \<le> max_ciphertext (cc_limits c) \<and>
    out = secure_header ?sid (next_n ops ?cipher) request_id (length ct) @ ct" for ct
    using id ok
    by (auto simp: bindE_Inr of_codec_Inr secure_frame_new_def encode_secure_Inr [OF limits] secure_layout_header
        secure_typed_def connection_ok_def)
  have session: "session_seal ops (next_n ops ?cipher) h p (cc_session c) = (Inr ct, session) \<longleftrightarrow>
      \<not> ss_closed (cc_session c) \<and> next_n ops ?cipher < ss_message_limit (cc_session c) \<and>
      length p + 16 \<le> MAX_NOISE_MESSAGE_LEN \<and>
      (\<exists>cipher. encrypt_ad ops ?cipher h p = (ct, cipher) \<and> session = (cc_session c)\<lparr>ss_send := cipher\<rparr>)" for h p ct session
    by (auto simp: session_seal_def MAX_NOISE_MESSAGE_LEN_def NOISE_TAG_LEN_def split: prod.splits)
  have "connection_seal ops codec request_id inner c = (Inr out, c') \<longleftrightarrow> \<not> is_closed c \<and>
      (\<exists>p h ct session. (?encode = Inr p \<and> length p + 16 \<le> max_ciphertext (cc_limits c) \<and> h = ?header p) \<and>
         session_seal ops (next_n ops ?cipher) h p (cc_session c) = (Inr ct, session) \<and>
         (length ct \<le> max_ciphertext (cc_limits c) \<and>
          out = secure_header ?sid (next_n ops ?cipher) request_id (length ct) @ ct) \<and>
         c' = c\<lparr>cc_session := session\<rparr>)"
    unfolding connection_seal_def Let_def prepared [symmetric] framed [symmetric]
    by (auto simp: bindE_Inr map_err_Inr split: sum.splits prod.splits)
  then show ?thesis
    unfolding session sealed_iff
    using encrypt_next [OF laws] id by (auto simp: is_closed_def)
qed

section \<open>Whole conversations\<close>

text \<open>A peer that opens what it is delivered, and one that seals message after message.\<close>

fun open_all :: "'c cipher_ops \<Rightarrow> inner_codec \<Rightarrow> bytes list \<Rightarrow> 'c client_connection \<Rightarrow>
    (client_error + bytes \<times> inner_frame) list \<times> 'c client_connection" where
  "open_all ops codec [] c = ([], c)"
| "open_all ops codec (i # is) c =
     (let (r, c1) = connection_open ops codec i c; (rs, c2) = open_all ops codec is c1 in (r # rs, c2))"

fun seal_all :: "'c cipher_ops \<Rightarrow> inner_codec \<Rightarrow> (bytes \<times> inner_frame) list \<Rightarrow> 'c client_connection \<Rightarrow>
    (client_error + bytes) list \<times> 'c client_connection" where
  "seal_all ops codec [] c = ([], c)"
| "seal_all ops codec (m # ms) c =
     (let (r, c1) = connection_seal ops codec (fst m) (snd m) c; (rs, c2) = seal_all ops codec ms c1 in (r # rs, c2))"

text \<open>Frames that carry the messages under consecutive states of the cipher.\<close>

fun sealed_run :: "'c cipher_ops \<Rightarrow> inner_codec \<Rightarrow> 'c client_connection \<Rightarrow> 'c \<Rightarrow> (bytes \<times> inner_frame) list \<Rightarrow>
    bytes list \<Rightarrow> bool" where
  "sealed_run ops codec c cipher [] [] \<longleftrightarrow> True"
| "sealed_run ops codec c cipher (m # ms) (i # is) \<longleftrightarrow>
     (\<exists>plaintext cipher'. sealed ops c cipher (fst m) plaintext (i, cipher') \<and>
        decode_inner_frame (ic_sha256 codec) (ic_decode codec) plaintext (cc_limits c) = Inr (snd m) \<and>
        sealed_run ops codec c cipher' ms is)"
| "sealed_run ops codec c cipher _ _ \<longleftrightarrow> False"

lemma sealed_run_length: "sealed_run ops codec c cipher ms is \<Longrightarrow> length is = length ms"
  by (induction ops codec c cipher ms "is" rule: sealed_run.induct) auto

text \<open>The cipher states of a connection are not among what sealing depends on.\<close>

lemma sealed_cong:
  assumes "cc_admission c' = cc_admission c" "cc_limits c' = cc_limits c"
    "ss_message_limit (cc_session c') = ss_message_limit (cc_session c)"
  shows "sealed ops c' cipher request_id plaintext out \<longleftrightarrow> sealed ops c cipher request_id plaintext out"
  using assms by (simp add: sealed_def)

lemma sealed_run_cong:
  assumes "cc_admission c' = cc_admission c" "cc_limits c' = cc_limits c"
    "ss_message_limit (cc_session c') = ss_message_limit (cc_session c)"
  shows "sealed_run ops codec c' cipher ms is \<longleftrightarrow> sealed_run ops codec c cipher ms is"
proof (induction ms arbitrary: cipher "is")
  case Nil
  show ?case by (cases "is") simp_all
next
  case (Cons m ms)
  then show ?case by (cases "is") (simp_all add: sealed_cong [OF assms] assms)
qed

lemma open_all_closed:
  "is_closed c \<Longrightarrow> open_all ops codec is c = (replicate (length is) (Inl ClosedConnection), c)"
  by (induction "is") (simp_all add: connection_open_closed)

fun fail_stop :: "(client_error + 'a) list \<Rightarrow> bool" where
  "fail_stop [] \<longleftrightarrow> True"
| "fail_stop (Inr a # rs) \<longleftrightarrow> fail_stop rs"
| "fail_stop (Inl e # rs) \<longleftrightarrow> rs = replicate (length rs) (Inl ClosedConnection)"

lemma connection_open_step:
  assumes "cipher_laws ops" "connection_ok c" "connection_open ops codec input c = (Inr m, c')"
  obtains plaintext cipher where "\<not> is_closed c"
    "sealed ops c (ss_receive (cc_session c)) (fst m) plaintext (input, cipher)"
    "decode_inner_frame (ic_sha256 codec) (ic_decode codec) plaintext (cc_limits c) = Inr (snd m)"
    "c' = c\<lparr>cc_session := (cc_session c)\<lparr>ss_receive := cipher\<rparr>\<rparr>"
  using assms connection_open_Inr [OF assms(1,2), of codec input "fst m" "snd m" c'] by auto

lemma open_all_fail_stop:
  assumes laws: "cipher_laws ops"
  shows "connection_ok c \<Longrightarrow> fail_stop (fst (open_all ops codec is c))"
proof (induction "is" arbitrary: c)
  case (Cons i "is")
  obtain r c1 where step: "connection_open ops codec i c = (r, c1)" by fastforce
  show ?case
  proof (cases r)
    case (Inl e)
    then show ?thesis
      using step connection_open_Inl [OF Cons.prems] by (simp add: open_all_closed split_beta)
  next
    case (Inr m)
    then have "connection_ok c1"
      using step Cons.prems connection_open_keeps [OF step] by (simp add: connection_ok_def)
    then show ?thesis using Cons.IH [of c1] step Inr by (simp add: split_beta)
  qed
qed simp

lemma open_all_prefix:
  assumes laws: "cipher_laws ops"
  shows "connection_ok c \<Longrightarrow> \<not> is_closed c \<Longrightarrow>
    take (length ms) (fst (open_all ops codec is c)) = map Inr ms \<longleftrightarrow>
    sealed_run ops codec c (ss_receive (cc_session c)) ms (take (length ms) is)"
proof (induction ms arbitrary: c "is")
  case (Cons m ms)
  show ?case
  proof (cases "is")
    case (Cons i js)
    obtain r c1 where step: "connection_open ops codec i c = (r, c1)" by fastforce
    show ?thesis
    proof
      assume "take (length (m # ms)) (fst (open_all ops codec is c)) = map Inr (m # ms)"
      then have r: "r = Inr m" and rest: "take (length ms) (fst (open_all ops codec js c1)) = map Inr ms"
        using Cons step by (auto simp: split_beta)
      from connection_open_step [OF laws Cons.prems(1) step [unfolded r]] obtain plaintext cipher where
        m: "sealed ops c (ss_receive (cc_session c)) (fst m) plaintext (i, cipher)"
        "decode_inner_frame (ic_sha256 codec) (ic_decode codec) plaintext (cc_limits c) = Inr (snd m)"
        and c1: "c1 = c\<lparr>cc_session := (cc_session c)\<lparr>ss_receive := cipher\<rparr>\<rparr>" by metis
      have "sealed_run ops codec c1 cipher ms (take (length ms) js)"
        using Cons.IH [of c1 js] Cons.prems rest c1 by (simp add: connection_ok_def is_closed_def)
      then show "sealed_run ops codec c (ss_receive (cc_session c)) (m # ms) (take (length (m # ms)) is)"
        using m c1 Cons sealed_run_cong [of c1 c] by auto
    next
      assume "sealed_run ops codec c (ss_receive (cc_session c)) (m # ms) (take (length (m # ms)) is)"
      with Cons obtain plaintext cipher where
        m: "sealed ops c (ss_receive (cc_session c)) (fst m) plaintext (i, cipher)"
        "decode_inner_frame (ic_sha256 codec) (ic_decode codec) plaintext (cc_limits c) = Inr (snd m)"
        and run: "sealed_run ops codec c cipher ms (take (length ms) js)" by auto
      let ?c = "c\<lparr>cc_session := (cc_session c)\<lparr>ss_receive := cipher\<rparr>\<rparr>"
      have "connection_open ops codec i c = (Inr (fst m, snd m), ?c)"
        using connection_open_Inr [OF laws Cons.prems(1), of codec i "fst m" "snd m" ?c] m Cons.prems(2) by blast
      moreover have "take (length ms) (fst (open_all ops codec js ?c)) = map Inr ms"
        using Cons.IH [of ?c js] Cons.prems run sealed_run_cong [of ?c c]
        by (simp add: connection_ok_def is_closed_def)
      ultimately show "take (length (m # ms)) (fst (open_all ops codec is c)) = map Inr (m # ms)"
        using Cons by (simp add: split_beta)
    qed
  qed simp
qed simp

text \<open>
  C25: Opening is fail-stop and strictly ordered. Whatever inputs a connection is fed, the first messages it returns are
  given ones if and only if the first inputs are those very messages sealed for this session under the receiving
  cipher's consecutive counters, beginning with the current one, below the message cap; and the first input it refuses
  is the last it looks at: every later one is answered with \<open>Closed\<close>. So nothing is skipped, replayed, reordered or
  taken from another session, and no input is tried after a failed one.
\<close>

theorem channel_fail_stop_in_order:
  assumes "cipher_laws ops" "connection_ok c" "\<not> is_closed c"
  shows "(take (length ms) (fst (open_all ops codec inputs c)) = map Inr ms \<longleftrightarrow>
       sealed_run ops codec c (ss_receive (cc_session c)) ms (take (length ms) inputs)) \<and>
     fail_stop (fst (open_all ops codec inputs c))"
  using open_all_prefix [OF assms] open_all_fail_stop [OF assms(1,2)] by blast

section \<open>Two ends of one channel\<close>

fun body_tag :: "inner_body \<Rightarrow> u64" where
  "body_tag (BodyProfileRequest _) = 10"
| "body_tag (BodyProfileDecision _) = 11"
| "body_tag (BodyOpaqueExchangeRequest _) = 12"
| "body_tag (BodyOpaqueExchangeResponse _) = 13"
| "body_tag (BodyWatchRequest _) = 14"
| "body_tag (BodyWatchEvent _) = 15"
| "body_tag (BodyGenericResult _) = 16"
| "body_tag (BodyActionFlowBegin _) = 17"
| "body_tag (BodyActionObservation _) = 18"
| "body_tag (BodyActionFlowUpdate _) = 19"
| "body_tag (BodyCommunityTelemetryReport _) = 20"
| "body_tag (BodyTelemetryReceipt _) = 21"
| "body_tag (BodyError _) = 63"

text \<open>
  What prost documents of an inner frame of the compiled contract: it is encoded as the contract field followed by
  its body as a length-delimited field of its tag, in \<open>encoded_len\<close> bytes, and decoded back to itself.
\<close>

definition inner_layout :: "inner_body \<Rightarrow> bytes \<Rightarrow> bytes" where
  "inner_layout body payload = [0x08, 0x04] @
     (put_varint (push_bit 3 (body_tag body) OR 2) @ put_varint (of_nat (length payload)) @ payload)"

definition codec_laws :: "inner_codec \<Rightarrow> bool" where
  "codec_laws codec \<longleftrightarrow>
     (\<forall>frame body bs. ic_encode codec frame = Some bs \<and> if_contract frame = CURRENT_INNER_CONTRACT \<and>
        if_body frame = Some body \<longrightarrow>
        ic_decode codec bs = Some frame \<and> length bs = ic_encoded_len codec frame \<and>
        (\<exists>payload. bs = inner_layout body payload))"

lemma inner_layout_scans:
  assumes "slice_ok (inner_layout body payload)"
  shows "validate_top_level (inner_layout body payload) = Inr ()"
proof -
  let ?tag = "body_tag body"
  let ?key = "push_bit 3 ?tag OR 2 :: u64"
  let ?field = "put_varint ?key @ put_varint (of_nat (length payload)) @ payload"
  let ?fs = "[(1, [0x08, 0x04]), (?tag, ?field)] :: (u64 \<times> bytes) list"
  have tag: "drop_bit 3 ?key = ?tag" "?key AND 7 = 2" "?tag \<noteq> 0" "?tag \<noteq> 1" "known_body_tag ?tag" "is_body_tag ?tag"
    by (cases body; simp add: known_body_tag_def is_body_tag_def word_le_nat_alt)+
  have "unat (of_nat (length payload) :: u64) = length payload"
    using assms by (simp add: inner_layout_def slice_ok_def usize_limit_def unsigned_of_nat take_bit_nat_eq_self)
  then have "\<exists>n raw content. put_varint (of_nat (length payload)) @ payload = raw @ content \<and>
      is_varint 0 0 raw n \<and> length content = unat n"
    using is_varint_put_varint [of "of_nat (length payload)"] by metis
  then have "is_body 2 (put_varint (of_nat (length payload)) @ payload)"
    unfolding is_body_def by simp
  then have "scan_field ?tag ?field"
    unfolding scan_field_def using tag is_varint_put_varint [of ?key]
    by (intro exI [of _ ?key] exI [of _ "put_varint ?key"] exI [of _ "put_varint (of_nat (length payload)) @ payload"]) simp
  moreover have "scan_field 1 [0x08, 0x04]"
    unfolding scan_field_def by (intro exI [of _ 8] exI [of _ "[0x08]"] exI [of _ "[0x04]"]) simp
  moreover have "inner_layout body payload = concat (map snd ?fs)"
    by (simp add: inner_layout_def)
  moreover have "contract_fields ?fs = 1" "body_fields ?fs = 1"
    using tag by (simp_all add: contract_fields_def body_fields_def)
  ultimately have "\<exists>fs. drop 0 (inner_layout body payload) = concat (map snd fs) \<and>
      (\<forall>(tag, raw) \<in> set fs. scan_field tag raw) \<and> contract_fields fs = (if False then 0 else 1) \<and>
      body_fields fs = (if False then 0 else 1)"
    by (intro exI [of _ ?fs]) simp
  then show ?thesis
    unfolding validate_top_level_def by (subst scan_loop_fields [OF assms]) simp_all
qed

lemma encoded_inner_decodes:
  assumes laws: "codec_laws codec" and limits: "limits_ok limits"
    and enc: "encode_inner_frame (ic_sha256 codec) (ic_encoded_len codec) (ic_encode codec) frame limits = Inr bs"
  shows "decode_inner_frame (ic_sha256 codec) (ic_decode codec) bs limits = Inr frame"
proof -
  from enc have valid: "validate_inner (ic_sha256 codec) frame = Inr ()"
    and len: "ic_encoded_len codec frame \<le> inner_frame limits" and bs: "ic_encode codec frame = Some bs"
    by (auto simp: encode_inner_frame_def bindE_Inr enforce_inner_limit_def ok_or_Inr split: if_splits)
  from valid obtain body where "if_contract frame = CURRENT_INNER_CONTRACT" "if_body frame = Some body"
    by (auto simp: validate_inner_def bindE_Inr ok_or_Inr split: if_splits)
  with laws bs obtain payload where decode: "ic_decode codec bs = Some frame"
    and lens: "length bs = ic_encoded_len codec frame" and layout: "bs = inner_layout body payload"
    unfolding codec_laws_def by blast
  have "slice_ok bs"
    using len lens limits by (simp add: slice_ok_def usize_limit_def limits_ok_def ceylith_limits)
  then have "validate_top_level bs = Inr ()" using inner_layout_scans layout by simp
  then show ?thesis
    using decode lens len valid by (simp add: decode_inner_frame_def enforce_inner_limit_def)
qed

text \<open>The sending end of one connection and the receiving end of another, over one session and cipher state.\<close>

definition paired :: "'c client_connection \<Rightarrow> 'c client_connection \<Rightarrow> bool" where
  "paired a b \<longleftrightarrow> connection_ok a \<and> connection_ok b \<and> \<not> is_closed a \<and> \<not> is_closed b \<and>
     sa_session_id (cc_admission a) = sa_session_id (cc_admission b) \<and> cc_limits a = cc_limits b \<and>
     ss_message_limit (cc_session a) = ss_message_limit (cc_session b) \<and>
     ss_send (cc_session a) = ss_receive (cc_session b)"

lemma sealed_paired:
  "paired a b \<Longrightarrow> sealed ops a cipher request_id plaintext out \<longleftrightarrow> sealed ops b cipher request_id plaintext out"
  by (simp add: sealed_def paired_def)

lemma seal_open_paired:
  assumes laws: "cipher_laws ops" "codec_laws codec" and pair: "paired a b" and id: "length request_id = 16"
    and seal: "connection_seal ops codec request_id inner a = (Inr bs, a')"
  shows "\<exists>b'. connection_open ops codec bs b = (Inr (request_id, inner), b') \<and> paired a' b'"
proof -
  from pair have ok: "connection_ok a" "connection_ok b" and open_b: "\<not> is_closed b"
    and limits: "limits_ok (cc_limits b)" "cc_limits a = cc_limits b"
    and state: "ss_send (cc_session a) = ss_receive (cc_session b)"
    by (simp_all add: paired_def connection_ok_def)
  from seal [unfolded connection_seal_Inr [OF laws(1) ok(1) id]] obtain plaintext cipher where
    enc: "encode_inner_frame (ic_sha256 codec) (ic_encoded_len codec) (ic_encode codec) inner (cc_limits a) = Inr plaintext"
    and sealed: "sealed ops a (ss_send (cc_session a)) request_id plaintext (bs, cipher)"
    and a': "a' = a\<lparr>cc_session := (cc_session a)\<lparr>ss_send := cipher\<rparr>\<rparr>" by blast
  let ?b = "b\<lparr>cc_session := (cc_session b)\<lparr>ss_receive := cipher\<rparr>\<rparr>"
  have "connection_open ops codec bs b = (Inr (request_id, inner), ?b)"
    unfolding connection_open_Inr [OF laws(1) ok(2)]
    using open_b sealed [unfolded state sealed_paired [OF pair]]
      encoded_inner_decodes [OF laws(2) limits(1) enc [unfolded limits(2)]] by blast
  moreover have "paired a' ?b"
    using pair a' by (simp add: paired_def connection_ok_def is_closed_def)
  ultimately show ?thesis by blast
qed

text \<open>
  C26: The channel delivers. Between two ends over one session and cipher, whatever sequence of requests one end seals
  without an error, the other end opens, frame by frame and in order, to the same request identifiers and inner frames,
  and afterwards the two ends are still in step.
\<close>

theorem channel_delivers:
  assumes "cipher_laws ops" "codec_laws codec"
    and "paired a b" "\<forall>m \<in> set ms. length (fst m) = 16" "seal_all ops codec ms a = (map Inr frames, a')"
  shows "\<exists>b'. open_all ops codec frames b = (map Inr ms, b') \<and> paired a' b'"
  using assms(3-5)
proof (induction ms arbitrary: a b frames)
  case Nil
  then show ?case by auto
next
  case (Cons m ms)
  obtain r a1 where seal: "connection_seal ops codec (fst m) (snd m) a = (r, a1)" by fastforce
  with Cons.prems(3) obtain bs frames' where frames: "frames = bs # frames'" "r = Inr bs"
    and rest: "seal_all ops codec ms a1 = (map Inr frames', a')"
    by (auto simp: split_beta Cons_eq_map_conv prod_eq_iff)
  from seal_open_paired [OF assms(1,2) Cons.prems(1) _ seal [unfolded frames(2)]] Cons.prems(2) obtain b1 where
    b1: "connection_open ops codec bs b = (Inr (fst m, snd m), b1)" "paired a1 b1" by auto
  from Cons.IH [OF b1(2) _ rest] Cons.prems(2) obtain b' where
    "open_all ops codec frames' b1 = (map Inr ms, b')" "paired a' b'" by auto
  with b1(1) frames(1) show ?case by simp
qed

section \<open>A concrete channel\<close>

definition toy_cipher :: "u64 cipher_ops" where
  "toy_cipher = \<lparr>next_n = (\<lambda>c. c), encrypt_ad = (\<lambda>c ad p. (p @ replicate 16 0, c + 1)),
     decrypt_ad = (\<lambda>c ad ct.
       if 16 \<le> length ct \<and> drop (length ct - 16) ct = replicate 16 0
       then (Some (take (length ct - 16) ct), c + 1) else (None, c))\<rparr>"

lemma toy_cipher_laws: "cipher_laws toy_cipher"
proof -
  have "(16 \<le> length ct \<and> drop (length ct - 16) ct = replicate 16 0 \<and> take (length ct - 16) ct = p) \<longleftrightarrow>
      p @ replicate 16 0 = ct" for ct p :: bytes
    by (auto, metis append_take_drop_id)
  then show ?thesis
    by (auto simp: cipher_laws_def toy_cipher_def split: if_splits)
qed

definition sample_body :: inner_body where
  "sample_body = BodyWatchRequest \<lparr>wq_runtime_lease = [1], wq_cursor = 5, wq_max_wait_ms = 1000\<rparr>"

definition sample_inner :: inner_frame where
  "sample_inner = \<lparr>if_contract = CURRENT_INNER_CONTRACT, if_body = Some sample_body\<rparr>"

definition sample_bytes :: bytes where
  "sample_bytes = inner_layout sample_body [0x0a, 1, 1, 0x10, 5, 0x18, 0xe8, 7]"

definition sample_codec :: inner_codec where
  "sample_codec = \<lparr>ic_sha256 = (\<lambda>_. []), ic_encoded_len = (\<lambda>_. length sample_bytes),
     ic_encode = (\<lambda>f. if f = sample_inner then Some sample_bytes else None),
     ic_decode = (\<lambda>bs. if bs = sample_bytes then Some sample_inner else None)\<rparr>"

lemma sample_codec_laws: "codec_laws sample_codec"
  by (auto simp: codec_laws_def sample_codec_def sample_bytes_def sample_inner_def)

lemma length_sample_bytes: "length sample_bytes = 12"
  by (simp add: sample_bytes_def inner_layout_def sample_body_def put_varint.simps [of 114] put_varint.simps [of 8]
      word_le_nat_alt)

definition sample_connection :: "u64 client_connection" where
  "sample_connection = connection_new
     \<lparr>sa_session_id = replicate 16 7, sa_runtime_lease = [1], sa_lease_expires_at_ms = 2, sa_grant_class = Public,
      sa_max_full_accounts = 0, sa_max_active_installations = 1, sa_max_registered_installations = 1,
      sa_server_time_ms = 1, sa_policy_epoch = 1, sa_accepted_contracts = [1]\<rparr>
     (secure_session_new 0 0) wire_limits_default"

lemma sample_paired: "paired sample_connection sample_connection"
  by (simp add: paired_def sample_connection_def connection_new_def connection_ok_def is_closed_def
      secure_session_new_def wire_limits_default_ok)

theorem channel_fail_stop_in_order_witness:
  "fail_stop (fst (open_all toy_cipher sample_codec [[], []] sample_connection))"
  using channel_fail_stop_in_order [OF toy_cipher_laws, of sample_connection "[]" sample_codec "[[], []]"] sample_paired
  by (simp add: paired_def)

lemma sample_sealed:
  "\<exists>bs a'. seal_all toy_cipher sample_codec [(replicate 16 9, sample_inner)] sample_connection = ([Inr bs], a')"
proof -
  let ?c = sample_connection
  have enc: "encode_inner_frame (ic_sha256 sample_codec) (ic_encoded_len sample_codec) (ic_encode sample_codec) sample_inner
      (cc_limits ?c) = Inr sample_bytes"
    by (simp add: encode_inner_frame_def sample_codec_def validate_inner_def sample_inner_def sample_body_def
        validate_watch_request_def validate_runtime_lease_def MAX_RUNTIME_LEASE_LEN_def
        validate_bounded_def validate_bounded_len_def MAX_WATCH_WAIT_MS_def
        enforce_inner_limit_def sample_connection_def connection_new_def length_sample_bytes wire_limits_default_def
        ceylith_limits word_less_nat_alt)
  have "\<exists>bs cipher. sealed toy_cipher ?c (ss_send (cc_session ?c)) (replicate 16 9) sample_bytes (bs, cipher)"
    by (simp add: sealed_def Let_def toy_cipher_def length_sample_bytes sample_connection_def connection_new_def
        secure_session_new_def DEFAULT_SESSION_MESSAGE_LIMIT_def MAX_NOISE_MESSAGE_LEN_def wire_limits_default_def
        ceylith_limits word_less_nat_alt)
  then obtain bs cipher where
    "sealed toy_cipher ?c (ss_send (cc_session ?c)) (replicate 16 9) sample_bytes (bs, cipher)" by blast
  with enc sample_paired have "connection_seal toy_cipher sample_codec (replicate 16 9) sample_inner ?c =
      (Inr bs, ?c\<lparr>cc_session := (cc_session ?c)\<lparr>ss_send := cipher\<rparr>\<rparr>)"
    by (subst connection_seal_Inr [OF toy_cipher_laws]) (auto simp: paired_def)
  then show ?thesis by simp
qed

theorem channel_delivers_witness:
  "\<exists>bs a' b'. seal_all toy_cipher sample_codec [(replicate 16 9, sample_inner)] sample_connection = ([Inr bs], a') \<and>
     open_all toy_cipher sample_codec [bs] sample_connection = ([Inr (replicate 16 9, sample_inner)], b')"
proof -
  from sample_sealed obtain bs a' where
    seal: "seal_all toy_cipher sample_codec [(replicate 16 9, sample_inner)] sample_connection = (map Inr [bs], a')" by auto
  have "\<exists>b'. open_all toy_cipher sample_codec [bs] sample_connection = (map Inr [(replicate 16 9, sample_inner)], b') \<and>
      paired a' b'"
    by (rule channel_delivers [OF toy_cipher_laws sample_codec_laws sample_paired _ seal]) simp
  with seal show ?thesis by auto
qed

end
