(* ===== verification/Ceylith_Client.thy ===== *)
theory Ceylith_Client
  imports Ceylith_Channel
begin

text \<open>
  The requests a Ceylith client builds and the responses it accepts, \<open>crates/ceylith-client/src/\<close>
  \<open>connection.rs\<close>, \<open>opaque.rs\<close>, \<open>action.rs\<close>, \<open>profile.rs\<close>, \<open>telemetry.rs\<close>, \<open>runtime.rs\<close>,
  \<open>identity.rs\<close> and \<open>handshake.rs\<close>. SHA-256, Ed25519, the Noise handshake and the generated protobuf codec are
  parameters.
\<close>

section \<open>Runtime descriptors\<close>

datatype platform = Linux

fun platform_code :: "platform \<Rightarrow> u32" where
  "platform_code Linux = 1"

datatype architecture = X86_64 | Aarch64

fun architecture_code :: "architecture \<Rightarrow> u32" where
  "architecture_code X86_64 = 1"
| "architecture_code Aarch64 = 2"

definition runtime_descriptor_new ::
    "u32 \<Rightarrow> u32 \<Rightarrow> u32 list \<Rightarrow> u32 list \<Rightarrow> platform \<Rightarrow> architecture \<Rightarrow> bytes \<Rightarrow>
     client_error + pb_client_runtime" where
  "runtime_descriptor_new runtime_abi envelope_contract action_contracts source_contracts platform
     architecture build_digest =
     (let descriptor = \<lparr>cr_runtime_abi = runtime_abi, cr_envelope_contract = envelope_contract,
            cr_action_contracts = action_contracts, cr_source_contracts = source_contracts,
            cr_platform = platform_code platform, cr_architecture = architecture_code architecture,
            cr_build_digest = build_digest\<rparr> in
      bindE (of_codec (validate_client_runtime descriptor)) (\<lambda>_. Inr descriptor))"

definition runtime_build_digest :: "pb_client_runtime \<Rightarrow> client_error + bytes" where
  "runtime_build_digest descriptor = of_codec (fixed_bytes 32 (cr_build_digest descriptor))"

section \<open>Requests\<close>

datatype requested_access = AccessPublic | AccessFull

fun access_code :: "requested_access \<Rightarrow> u32" where
  "access_code AccessPublic = 1"
| "access_code AccessFull = 2"

record opaque_exchange_context =
  ox_exchange_id :: bytes
  ox_account_slot_id :: bytes
  ox_generation :: u64
  ox_expires_at_ms :: u64
  ox_binding_digest :: bytes

definition inner_of :: "inner_body \<Rightarrow> inner_frame" where
  "inner_of body = \<lparr>if_contract = CURRENT_INNER_CONTRACT, if_body = Some body\<rparr>"

definition profile_request_for ::
    "session_admission \<Rightarrow> bytes \<Rightarrow> bytes option \<Rightarrow> requested_access \<Rightarrow> pb_client_runtime \<Rightarrow> inner_frame" where
  "profile_request_for admission profile_id cached_manifest_digest requested_access runtime =
     inner_of (BodyProfileRequest \<lparr>pq_runtime_lease = sa_runtime_lease admission, pq_profile_id = profile_id,
       pq_cached_manifest_digest = (case cached_manifest_digest of None \<Rightarrow> [] | Some d \<Rightarrow> d),
       pq_requested_access = access_code requested_access, pq_runtime = Some runtime\<rparr>)"

definition opaque_exchange_request_for ::
    "(bytes \<Rightarrow> bytes) \<Rightarrow> session_admission \<Rightarrow> opaque_exchange_context \<Rightarrow> opaque_slots \<Rightarrow> u64 \<Rightarrow>
     client_error + inner_frame" where
  "opaque_exchange_request_for sha256 admission c slots now_ms =
     (if slots = [] \<or> ox_generation c = 0 \<or> ox_expires_at_ms c = 0 \<or> ox_expires_at_ms c \<le> now_ms \<or>
         ox_binding_digest c \<noteq> opaque_binding_digest sha256 (ox_exchange_id c) (ox_account_slot_id c)
           (ox_generation c) (ox_expires_at_ms c) slots
      then Inl Protocol
      else Inr (inner_of (BodyOpaqueExchangeRequest
        \<lparr>oq_runtime_lease = sa_runtime_lease admission, oq_exchange_id = ox_exchange_id c,
         oq_account_slot_id = ox_account_slot_id c, oq_generation = ox_generation c,
         oq_slots = opaque_slots_to_wire slots, oq_expires_at_ms = ox_expires_at_ms c,
         oq_binding_digest = ox_binding_digest c\<rparr>)))"

definition action_flow_begin_request_for ::
    "(bytes \<Rightarrow> bytes) \<Rightarrow> session_admission \<Rightarrow> action_flow_context \<Rightarrow> opaque_slots \<Rightarrow> u64 \<Rightarrow>
     client_error + inner_frame" where
  "action_flow_begin_request_for sha256 admission c inputs now_ms =
     (if inputs = [] \<or> fc_login_epoch c = 0 \<or> fc_transport_epoch c = 0 \<or> fc_expires_at_ms c = 0 \<or>
         fc_expires_at_ms c \<le> now_ms
      then Inl Protocol
      else Inr (inner_of (BodyActionFlowBegin
        \<lparr>fb_runtime_lease = sa_runtime_lease admission, fb_flow_id = fc_flow_id c,
         fb_account_slot_id = fc_account_slot_id c, fb_login_epoch = fc_login_epoch c,
         fb_online_epoch = fc_online_epoch c, fb_transport_epoch = fc_transport_epoch c,
         fb_inputs = opaque_slots_to_wire inputs, fb_expires_at_ms = fc_expires_at_ms c,
         fb_binding_digest = action_flow_binding_digest sha256 c inputs\<rparr>)))"

definition action_observation_request_for ::
    "(bytes \<Rightarrow> bytes) \<Rightarrow> session_admission \<Rightarrow> action_observation \<Rightarrow> client_error + inner_frame" where
  "action_observation_request_for sha256 admission ob =
     (if ob_observed_at_ms ob = 0 \<or> (ob_outcome ob = ResponseOutcome) = (ob_payload ob = []) \<or>
         MAX_ACTION_PAYLOAD_LEN < length (ob_payload ob)
      then Inl Protocol
      else Inr (inner_of (BodyActionObservation
        \<lparr>ao_runtime_lease = sa_runtime_lease admission, ao_flow_id = ob_flow_id ob,
         ao_action_id = ob_action_id ob, ao_action_digest = ob_action_digest ob,
         ao_outcome = observation_code (ob_outcome ob), ao_payload = ob_payload ob,
         ao_observed_at_ms = ob_observed_at_ms ob,
         ao_binding_digest = action_observation_binding_digest sha256 ob\<rparr>)))"

definition watch_request_for :: "session_admission \<Rightarrow> u64 \<Rightarrow> u32 \<Rightarrow> client_error + inner_frame" where
  "watch_request_for admission cursor max_wait_ms =
     (if max_wait_ms = 0 \<or> MAX_WATCH_WAIT_MS < max_wait_ms then Inl Protocol
      else Inr (inner_of (BodyWatchRequest
        \<lparr>wq_runtime_lease = sa_runtime_lease admission, wq_cursor = cursor, wq_max_wait_ms = max_wait_ms\<rparr>)))"

section \<open>Opaque exchange responses\<close>

record opaque_exchange_result =
  xr_context :: opaque_exchange_context
  xr_slots :: opaque_slots

definition decode_opaque_exchange_response ::
    "inner_frame \<Rightarrow> opaque_exchange_context \<Rightarrow> u64 \<Rightarrow> client_error + opaque_exchange_result" where
  "decode_opaque_exchange_response frame expected now_ms =
     (if if_contract frame \<noteq> CURRENT_INNER_CONTRACT then Inl Protocol
      else case if_body frame of
        Some (BodyOpaqueExchangeResponse response) \<Rightarrow>
          bindE (of_codec (fixed_bytes 16 (or_exchange_id response))) (\<lambda>exchange_id.
          bindE (of_codec (fixed_bytes 32 (or_binding_digest response))) (\<lambda>binding_digest.
          if exchange_id \<noteq> ox_exchange_id expected \<or> or_generation response \<noteq> ox_generation expected \<or>
             binding_digest \<noteq> ox_binding_digest expected \<or> or_expires_at_ms response = 0 \<or>
             ox_expires_at_ms expected < or_expires_at_ms response \<or> or_expires_at_ms response \<le> now_ms
          then Inl SessionBinding
          else bindE (map_err (\<lambda>_. Protocol) (opaque_slots_from_wire (or_slots response))) (\<lambda>slots.
            if slots = [] then Inl Protocol
            else Inr \<lparr>xr_context = expected\<lparr>ox_expires_at_ms := or_expires_at_ms response\<rparr>,
                      xr_slots = slots\<rparr>)))
      | _ \<Rightarrow> Inl Protocol)"

section \<open>Action flows\<close>

definition INPUT_SLOT_A :: u32 where
  "INPUT_SLOT_A = 3901"

definition INPUT_SLOT_B :: u32 where
  "INPUT_SLOT_B = 3902"

definition slot_input :: "u32 \<Rightarrow> bytes \<Rightarrow> client_error + opaque_slot" where
  "slot_input slot v =
     bindE (map_err (\<lambda>_. Protocol) (opaque_slot_id_new slot)) (\<lambda>i.
     map_err (\<lambda>_. Protocol) (opaque_slot_new i v))"

definition action_flow_inputs :: "bytes \<Rightarrow> bytes \<Rightarrow> client_error + opaque_slots" where
  "action_flow_inputs a b =
     bindE (slot_input INPUT_SLOT_A a) (\<lambda>sa.
     bindE (slot_input INPUT_SLOT_B b) (\<lambda>sb.
     map_err (\<lambda>_. Protocol) (opaque_slots_new [sa, sb])))"

record action_mark =
  mk_slot :: u16
  mk_value :: bytes

record action_directive =
  dv_action_id :: bytes
  dv_route_shard :: bytes
  dv_body_shard :: bytes
  dv_envelope_contract :: u32
  dv_marks :: "action_mark list"
  dv_expected_body_digest :: bytes
  dv_transport_epoch :: u64
  dv_response_policy :: u32
  dv_timeout_ms :: u32
  dv_action_digest :: bytes
  dv_delay_ms :: u32

datatype action_flow_update = FlowUpdateAction action_directive | FlowUpdateComplete

definition decode_mark :: "pb_action_mark \<Rightarrow> client_error + action_mark" where
  "decode_mark m = bindE (ok_or Protocol (u16_of (am_slot m))) (\<lambda>slot.
     Inr \<lparr>mk_slot = slot, mk_value = am_value m\<rparr>)"

definition decode_action :: "pb_action_directive \<Rightarrow> client_error + action_directive" where
  "decode_action v =
     bindE (collect_results (map decode_mark (ad_marks v))) (\<lambda>marks.
     if MAX_ACTION_MARKS < length marks then Inl Protocol
     else
       bindE (of_codec (fixed_bytes 16 (ad_action_id v))) (\<lambda>action_id.
       bindE (of_codec (fixed_bytes 32 (ad_expected_body_digest v))) (\<lambda>expected_body_digest.
       bindE (of_codec (fixed_bytes 32 (ad_action_digest v))) (\<lambda>action_digest.
       Inr \<lparr>dv_action_id = action_id, dv_route_shard = ad_route_shard v, dv_body_shard = ad_body_shard v,
         dv_envelope_contract = ad_envelope_contract v, dv_marks = marks,
         dv_expected_body_digest = expected_body_digest, dv_transport_epoch = ad_transport_epoch v,
         dv_response_policy = ad_response_policy v, dv_timeout_ms = ad_timeout_ms v,
         dv_action_digest = action_digest, dv_delay_ms = ad_delay_ms v\<rparr>))))"

definition decode_action_flow_update ::
    "inner_frame \<Rightarrow> bytes \<Rightarrow> u64 \<Rightarrow> client_error + action_flow_update" where
  "decode_action_flow_update frame expected_flow now_ms =
     (case if_body frame of
        Some (BodyActionFlowUpdate update) \<Rightarrow>
          bindE (of_codec (fixed_bytes 16 (fu_flow_id update))) (\<lambda>flow_id.
          if flow_id \<noteq> expected_flow \<or> fu_expires_at_ms update \<le> now_ms then Inl Protocol
          else bindE (ok_or Protocol (pb_action_flow_status_try_from (fu_status update))) (\<lambda>status.
            case status of
              FlowAction \<Rightarrow>
                bindE (ok_or Protocol (fu_action update)) (\<lambda>a.
                bindE (decode_action a) (\<lambda>d. Inr (FlowUpdateAction d)))
            | FlowComplete \<Rightarrow>
                if fu_action update = None then Inr FlowUpdateComplete else Inl Protocol
            | FlowUnspecified \<Rightarrow> Inl Protocol))
      | _ \<Rightarrow> Inl Protocol)"

section \<open>Profile verification\<close>

text \<open>\<open>verify\<close> is Ed25519 verification of a transcript under the provisioned key.\<close>

definition verify_profile ::
    "(bytes \<Rightarrow> bytes) \<Rightarrow> (pb_profile_decision \<Rightarrow> nat) \<Rightarrow> (pb_profile_decision \<Rightarrow> bytes option) \<Rightarrow>
     (bytes \<Rightarrow> bytes \<Rightarrow> bool) \<Rightarrow> pb_profile_decision \<Rightarrow> u64 \<Rightarrow> client_error + profile_outcome" where
  "verify_profile sha256 encoded_len encode verify decision now_ms =
     bindE (map_err (\<lambda>_. ProfileAuthentication) (decode_profile_outcome decision)) (\<lambda>outcome.
     case outcome of
       ProfileReady ready \<Rightarrow>
         if rp_expires_at_ms ready \<le> now_ms then Inl ProfileAuthentication
         else if sha256 (rp_manifest ready) \<noteq> rp_manifest_digest ready then Inl ProfileAuthentication
         else bindE (of_codec (profile_decision_signing_transcript encoded_len encode decision)) (\<lambda>transcript.
           if verify transcript (rp_manifest_signature ready) then Inr outcome else Inl ProfileAuthentication)
     | _ \<Rightarrow> Inr outcome)"

section \<open>Telemetry\<close>

record community_telemetry_spec =
  ts_report_id :: bytes
  ts_utc_day :: u32
  ts_group_count :: group_count_bucket
  ts_messages_received :: message_count_bucket
  ts_messages_sent :: message_count_bucket
  ts_active_duration :: active_duration_bucket
  ts_profile_id :: bytes
  ts_profile_manifest_digest :: bytes
  ts_build_digest :: bytes
  ts_platform :: u32
  ts_architecture :: u32
  ts_account_churn :: account_churn_bucket
  ts_generated_at_ms :: u64

text \<open>\<open>as i32\<close> of the generated enums.\<close>

fun group_code :: "pb_group_count_bucket \<Rightarrow> i32" where
  "group_code GcbUnspecified = 0"
| "group_code GcbZero = 1"
| "group_code GcbOneToFive = 2"
| "group_code GcbSixToTwenty = 3"
| "group_code GcbTwentyOneToFifty = 4"
| "group_code GcbFiftyOneToOneHundred = 5"
| "group_code GcbOneHundredOneToTwoHundred = 6"
| "group_code GcbTwoHundredOneToFiveHundred = 7"
| "group_code GcbOverFiveHundred = 8"

fun message_code :: "pb_message_count_bucket \<Rightarrow> i32" where
  "message_code McbUnspecified = 0"
| "message_code McbZero = 1"
| "message_code McbOneToTwenty = 2"
| "message_code McbTwentyOneToOneHundred = 3"
| "message_code McbOneHundredOneToFiveHundred = 4"
| "message_code McbFiveHundredOneToTwoThousand = 5"
| "message_code McbTwoThousandOneToTenThousand = 6"
| "message_code McbOverTenThousand = 7"

fun duration_code :: "pb_active_duration_bucket \<Rightarrow> i32" where
  "duration_code AdbUnspecified = 0"
| "duration_code AdbZero = 1"
| "duration_code AdbUnderOneHour = 2"
| "duration_code AdbOneToFourHours = 3"
| "duration_code AdbFourToEightHours = 4"
| "duration_code AdbEightToSixteenHours = 5"
| "duration_code AdbSixteenToTwentyFourHours = 6"

fun churn_code :: "pb_account_churn_bucket \<Rightarrow> i32" where
  "churn_code AcbUnspecified = 0"
| "churn_code AcbZero = 1"
| "churn_code AcbOne = 2"
| "churn_code AcbTwoToThree = 3"
| "churn_code AcbFourToSeven = 4"
| "churn_code AcbEightOrMore = 5"

definition telemetry_report ::
    "(bytes \<Rightarrow> bytes) \<Rightarrow> (pb_community_telemetry_report \<Rightarrow> bytes option) \<Rightarrow> session_admission \<Rightarrow>
     community_telemetry_spec \<Rightarrow> client_error + inner_frame" where
  "telemetry_report sign encode admission spec =
     (if sa_grant_class admission \<noteq> Community then Inl Protocol
      else
        let report = \<lparr>tr_runtime_lease = sa_runtime_lease admission, tr_report_id = ts_report_id spec,
              tr_utc_day = ts_utc_day spec,
              tr_group_count = group_code (group_bucket_to_wire (ts_group_count spec)),
              tr_messages_received = message_code (message_bucket_to_wire (ts_messages_received spec)),
              tr_messages_sent = message_code (message_bucket_to_wire (ts_messages_sent spec)),
              tr_active_duration = duration_code (duration_bucket_to_wire (ts_active_duration spec)),
              tr_profile_id = ts_profile_id spec, tr_profile_manifest_digest = ts_profile_manifest_digest spec,
              tr_build_digest = ts_build_digest spec, tr_platform = ts_platform spec,
              tr_architecture = ts_architecture spec,
              tr_account_churn = churn_code (churn_bucket_to_wire (ts_account_churn spec)),
              tr_generated_at_ms = ts_generated_at_ms spec, tr_installation_signature = []\<rparr> in
        bindE (of_codec (telemetry_signing_transcript encode report)) (\<lambda>transcript.
        Inr (inner_of (BodyCommunityTelemetryReport
          (report\<lparr>tr_installation_signature := sign transcript\<rparr>)))))"

definition decode_telemetry_receipt :: "inner_frame \<Rightarrow> bytes \<Rightarrow> client_error + bytes" where
  "decode_telemetry_receipt frame expected =
     (case if_body frame of
        Some (BodyTelemetryReceipt receipt) \<Rightarrow>
          bindE (of_codec (fixed_bytes 16 (tc_report_id receipt))) (\<lambda>report_id.
          if \<not> tc_accepted receipt \<or> tc_code receipt = 0 \<or> report_id \<noteq> expected then Inl Protocol
          else Inr report_id)
      | _ \<Rightarrow> Inl Protocol)"

section \<open>Identity and handshake\<close>

definition access_token_new :: "bytes \<Rightarrow> client_error + bytes" where
  "access_token_new bs =
     (if bs = [] \<or> MAX_ACCESS_TOKEN_LEN < length bs then Inl IdentityFailure else Inr bs)"

text \<open>The public keys and the signer of an installation's identity.\<close>

record installation_identity =
  ii_installation_id :: bytes
  ii_signing_public_key :: bytes
  ii_noise_public_key :: bytes
  ii_sign :: "bytes \<Rightarrow> bytes"

definition signed_hello ::
    "(pb_session_hello \<Rightarrow> nat) \<Rightarrow> (pb_session_hello \<Rightarrow> bytes option) \<Rightarrow> installation_identity \<Rightarrow>
     bytes option \<Rightarrow> pb_client_runtime \<Rightarrow> u64 \<Rightarrow> client_error + pb_session_hello" where
  "signed_hello encoded_len encode identity token runtime requested_feature_bits =
     (let hello = \<lparr>sh_installation_id = ii_installation_id identity,
            sh_installation_sign_public_key = ii_signing_public_key identity,
            sh_installation_noise_public_key = ii_noise_public_key identity,
            sh_transcript_signature = [],
            sh_access_token = (case token of None \<Rightarrow> [] | Some t \<Rightarrow> t),
            sh_runtime = Some runtime, sh_requested_feature_bits = requested_feature_bits\<rparr> in
      bindE (of_codec (session_hello_signing_transcript encoded_len encode hello)) (\<lambda>transcript.
      let hello = hello\<lparr>sh_transcript_signature := ii_sign identity transcript\<rparr> in
      bindE (of_codec (validate_session_hello hello)) (\<lambda>_.
      Inr hello)))"

text \<open>\<open>noise_start\<close> is \<open>ClientHandshake::start\<close> with the identity's key and the server's.\<close>

definition handshake_start ::
    "(bytes \<Rightarrow> secure_session_error + 'h \<times> bytes) \<Rightarrow> (pb_session_hello \<Rightarrow> nat) \<Rightarrow>
     (pb_session_hello \<Rightarrow> bytes option) \<Rightarrow> installation_identity \<Rightarrow> bytes option \<Rightarrow> pb_client_runtime \<Rightarrow> u64 \<Rightarrow>
     wire_limits \<Rightarrow> client_error + 'h \<times> bytes" where
  "handshake_start noise_start encoded_len encode identity token runtime requested_feature_bits limits =
     bindE (signed_hello encoded_len encode identity token runtime requested_feature_bits) (\<lambda>hello.
     bindE (ok_or Protocol (encode hello)) (\<lambda>payload.
     bindE (map_err of_session (noise_start payload)) (\<lambda>(handshake, message).
     bindE (of_codec (handshake_envelope_new ClientHello message limits)) (\<lambda>envelope.
     bindE (of_codec (encode_handshake_envelope envelope limits)) (\<lambda>encoded.
     Inr (handshake, encoded))))))"

text \<open>\<open>noise_finish\<close> is \<open>ClientHandshake::finish\<close>, \<open>decode_welcome\<close> the generated decoder.\<close>

definition handshake_finish ::
    "(bytes \<Rightarrow> secure_session_error + bytes \<times> 'c secure_session) \<Rightarrow> (bytes \<Rightarrow> pb_session_welcome option) \<Rightarrow>
     wire_limits \<Rightarrow> bytes \<Rightarrow> client_error + 'c client_connection" where
  "handshake_finish noise_finish decode_welcome limits encoded =
     bindE (of_codec (decode_handshake_envelope encoded limits)) (\<lambda>envelope.
     if he_step envelope \<noteq> ServerWelcome then Inl Protocol
     else
       bindE (map_err of_session (noise_finish (he_payload envelope))) (\<lambda>(payload, session).
       bindE (ok_or Protocol (decode_welcome payload)) (\<lambda>welcome.
       bindE (of_codec (decode_session_welcome welcome)) (\<lambda>admission.
       Inr (connection_new admission session limits)))))"

section \<open>What the client sends is valid\<close>

text \<open>The requests a client can build, and the frame it builds for one.\<close>

datatype client_request =
    AskProfile bytes "bytes option" requested_access pb_client_runtime
  | AskExchange opaque_exchange_context opaque_slots
  | AskFlow action_flow_context opaque_slots
  | AskObservation action_observation
  | AskWatch u64 u32
  | AskTelemetry community_telemetry_spec

fun build_request ::
    "(bytes \<Rightarrow> bytes) \<Rightarrow> (bytes \<Rightarrow> bytes) \<Rightarrow> (pb_community_telemetry_report \<Rightarrow> bytes option) \<Rightarrow>
     session_admission \<Rightarrow> u64 \<Rightarrow> client_request \<Rightarrow> client_error + inner_frame" where
  "build_request sha256 sign encode admission now_ms (AskProfile p d a r) = Inr (profile_request_for admission p d a r)"
| "build_request sha256 sign encode admission now_ms (AskExchange c slots) =
     opaque_exchange_request_for sha256 admission c slots now_ms"
| "build_request sha256 sign encode admission now_ms (AskFlow c slots) =
     action_flow_begin_request_for sha256 admission c slots now_ms"
| "build_request sha256 sign encode admission now_ms (AskObservation ob) =
     action_observation_request_for sha256 admission ob"
| "build_request sha256 sign encode admission now_ms (AskWatch cursor wait) =
     watch_request_for admission cursor wait"
| "build_request sha256 sign encode admission now_ms (AskTelemetry spec) =
     telemetry_report sign encode admission spec"

text \<open>The widths and collections the Rust types guarantee of a request's parts.\<close>

fun client_request_typed :: "client_request \<Rightarrow> bool" where
  "client_request_typed (AskProfile p d a r) \<longleftrightarrow> length p = 16 \<and> (d = None \<or> length (the d) = 32) \<and>
     validate_client_runtime r = Inr ()"
| "client_request_typed (AskExchange c slots) \<longleftrightarrow> length (ox_exchange_id c) = 16 \<and>
     length (ox_account_slot_id c) = 16 \<and> length (ox_binding_digest c) = 32 \<and> slots_wire_ok slots"
| "client_request_typed (AskFlow c slots) \<longleftrightarrow> flow_context_typed c \<and> slots_wire_ok slots"
| "client_request_typed (AskObservation ob) \<longleftrightarrow> observation_typed ob"
| "client_request_typed (AskWatch cursor wait) \<longleftrightarrow> True"
| "client_request_typed (AskTelemetry spec) \<longleftrightarrow> length (ts_report_id spec) = 16 \<and> length (ts_profile_id spec) = 16 \<and>
     length (ts_profile_manifest_digest spec) = 32 \<and> length (ts_build_digest spec) = 32"

lemma slots_loop_Inr:
  "\<forall>s \<in> set ss. os_slot s \<noteq> 0 \<and> length (os_value s) \<le> MAX_OPAQUE_SLOT_LEN \<Longrightarrow> distinct (map os_slot ss) \<Longrightarrow>
   set unique \<inter> os_slot ` set ss = {} \<Longrightarrow> aggregate + sum_list (map (length \<circ> os_value) ss) < usize_limit \<Longrightarrow>
   slots_loop unique aggregate ss = Inr (aggregate + sum_list (map (length \<circ> os_value) ss))"
  by (induction ss arbitrary: unique aggregate) (auto simp: bindE_Inr ok_or_Inr add.assoc)

lemma validate_slots_to_wire:
  assumes "slots_wire_ok s" "s \<noteq> []"
  shows "validate_slots (opaque_slots_to_wire s) = Inr ()"
proof -
  have wire: "\<forall>w \<in> set (opaque_slots_to_wire s). os_slot w \<noteq> 0 \<and> length (os_value w) \<le> MAX_OPAQUE_SLOT_LEN"
    using assms(1) by (auto simp: slots_wire_ok_def opaque_slots_to_wire_def slot_to_wire_def slot_wire_ok_def slot_ok_def)
  have ids: "map os_slot (opaque_slots_to_wire s) = map slot_id s"
    by (simp add: opaque_slots_to_wire_def slot_to_wire_def comp_def)
  have sum: "sum_list (map (length \<circ> os_value) (opaque_slots_to_wire s)) = slots_length s"
    by (simp add: opaque_slots_to_wire_def slot_to_wire_def comp_def slots_length_def)
  from assms(1) have ok: "distinct (map slot_id s)" "length s \<le> MAX_OPAQUE_SLOTS" "slots_length s \<le> MAX_OPAQUE_AGGREGATE_LEN"
    by (simp_all add: slots_wire_ok_def opaque_slots_ok_def strict_sorted_iff)
  have "slots_loop [] 0 (opaque_slots_to_wire s) = Inr (0 + slots_length s)"
    using wire ok ids sum slots_loop_Inr [of "opaque_slots_to_wire s" "[]" 0]
    by (simp add: MAX_OPAQUE_AGGREGATE_LEN_def usize_limit_def)
  then show ?thesis
    using ok assms(2) by (auto simp: validate_slots_def) (simp_all add: opaque_slots_to_wire_def)
qed

lemma slots_from_to_wire: "slots_wire_ok s \<Longrightarrow> opaque_slots_from_wire (opaque_slots_to_wire s) = Inr s"
  by (simp add: opaque_slots_from_wire_Inr)

lemma lease_valid: "admission_ok a \<Longrightarrow> validate_runtime_lease (sa_runtime_lease a) = Inr ()"
  by (simp add: validate_runtime_lease_def admission_ok_def)

lemma bucket_codes:
  "closed_bucket pb_group_count_bucket_try_from (group_code (group_bucket_to_wire g)) = Inr ()"
  "closed_bucket pb_message_count_bucket_try_from (message_code (message_bucket_to_wire m)) = Inr ()"
  "closed_bucket pb_active_duration_bucket_try_from (duration_code (duration_bucket_to_wire d)) = Inr ()"
  "closed_bucket pb_account_churn_bucket_try_from (churn_code (churn_bucket_to_wire c)) = Inr ()"
proof -
  show "closed_bucket pb_group_count_bucket_try_from (group_code (group_bucket_to_wire g)) = Inr ()"
    by (cases g) (simp_all add: closed_bucket_def pb_group_count_bucket_try_from_def)
  show "closed_bucket pb_message_count_bucket_try_from (message_code (message_bucket_to_wire m)) = Inr ()"
    by (cases m) (simp_all add: closed_bucket_def pb_message_count_bucket_try_from_def)
  show "closed_bucket pb_active_duration_bucket_try_from (duration_code (duration_bucket_to_wire d)) = Inr ()"
    by (cases d) (simp_all add: closed_bucket_def pb_active_duration_bucket_try_from_def)
  show "closed_bucket pb_account_churn_bucket_try_from (churn_code (churn_bucket_to_wire c)) = Inr ()"
    by (cases c) (simp_all add: closed_bucket_def pb_account_churn_bucket_try_from_def)
qed

lemma validate_inner_of: "validate_inner sha256 (inner_of body) = validate_body sha256 body"
  by (simp add: validate_inner_def inner_of_def)

lemma exchange_request_valid:
  assumes "admission_ok a" "client_request_typed (AskExchange c slots)"
    "opaque_exchange_request_for sha256 a c slots now_ms = Inr frame"
  shows "validate_inner sha256 frame = Inr ()"
  using assms lease_valid [OF assms(1)] validate_slots_to_wire [of slots]
  by (auto simp: opaque_exchange_request_for_def validate_inner_of validate_opaque_request_def fixed_bytes_def
      split: if_splits)

lemma flow_request_valid:
  assumes "\<forall>m. length (sha256 m) = 32" "admission_ok a" "client_request_typed (AskFlow c slots)"
    "action_flow_begin_request_for sha256 a c slots now_ms = Inr frame"
  shows "validate_inner sha256 frame = Inr ()"
  using assms lease_valid [OF assms(2)] validate_slots_to_wire [of slots] slots_from_to_wire [of slots]
  by (cases c) (auto simp: action_flow_begin_request_for_def validate_inner_of validate_action_flow_begin_def fixed_bytes_def
      flow_context_typed_def action_flow_binding_digest_def Let_def opaque_slots_to_wire_def split: if_splits)

lemma observation_request_valid:
  assumes "\<forall>m. length (sha256 m) = 32" "admission_ok a" "client_request_typed (AskObservation ob)"
    "action_observation_request_for sha256 a ob = Inr frame"
  shows "validate_inner sha256 frame = Inr ()"
  using assms lease_valid [OF assms(2)]
  by (cases ob; cases "ob_outcome ob")
    (auto simp: action_observation_request_for_def validate_inner_of validate_action_observation_def fixed_bytes_def
      observation_typed_def action_observation_binding_digest_def Let_def pb_action_observation_kind_try_from_def
      validate_bounded_def validate_bounded_len_def split: if_splits)

lemma telemetry_request_valid:
  assumes "\<forall>m. length (sign m) = 64" "admission_ok a" "client_request_typed (AskTelemetry spec)"
    "telemetry_report sign encode a spec = Inr frame"
  shows "validate_inner sha256 frame = Inr ()"
  using assms
  by (auto simp: telemetry_report_def validate_inner_of validate_report_def validate_report_fields_def
      telemetry_signing_transcript_def bindE_Inr of_codec_Inr ok_or_Inr bucket_codes Let_def fixed_bytes_def split: if_splits)

text \<open>
  C31: Every request the client builds is valid. Under a well-formed admission, whatever profile, exchange,
  action-flow, observation, Watch or telemetry request its builders accept passes the validation of inner frames that
  sealing and the receiver apply, the recomputation of the binding digests included; none is refused after it was built.
\<close>

theorem client_requests_valid:
  assumes "\<forall>m. length (sha256 m) = 32" "\<forall>m. length (sign m) = 64"
    and "admission_ok admission" "client_request_typed request"
    and "build_request sha256 sign encode admission now_ms request = Inr frame"
  shows "validate_inner sha256 frame = Inr ()"
proof (cases request)
  case (AskProfile p d a r)
  then show ?thesis
    using assms(3-5) lease_valid [OF assms(3)]
    by (cases a) (auto simp: profile_request_for_def validate_inner_of validate_profile_request_def fixed_bytes_def
        split: option.splits)
next
  case (AskWatch cursor wait)
  then show ?thesis
    using assms(5) lease_valid [OF assms(3)]
    by (auto simp: watch_request_for_def validate_inner_of validate_watch_request_def split: if_splits)
qed (use assms exchange_request_valid flow_request_valid observation_request_valid telemetry_request_valid in auto)

theorem client_requests_valid_witness:
  "validate_inner (\<lambda>_. replicate 32 0) (inner_of (BodyWatchRequest
     \<lparr>wq_runtime_lease = [1], wq_cursor = 4, wq_max_wait_ms = 30000\<rparr>)) = Inr ()"
proof -
  let ?a = "cc_admission sample_connection"
  have lease: "sa_runtime_lease ?a = [1]"
    by (simp add: sample_connection_def connection_new_def)
  have a: "admission_ok ?a"
    by (simp add: admission_ok_def sample_connection_def connection_new_def contracts_ok_def MAX_CONTRACTS_def
        MAX_RUNTIME_LEASE_LEN_def word_less_nat_alt)
  have "build_request (\<lambda>_. replicate 32 0) (\<lambda>_. replicate 64 0) (\<lambda>_. Some []) ?a 0 (AskWatch 4 30000) =
      Inr (inner_of (BodyWatchRequest \<lparr>wq_runtime_lease = [1], wq_cursor = 4, wq_max_wait_ms = 30000\<rparr>))"
    by (simp add: watch_request_for_def MAX_WATCH_WAIT_MS_def lease)
  from client_requests_valid [OF _ _ a _ this] show ?thesis by simp
qed

section \<open>What the client accepts\<close>

text \<open>
  Opaque exchange responses are bound to their request. A response is accepted iff it is a frame of the compiled
  contract whose body names the expected exchange, generation and binding digest, expires after now but not after the
  request, and carries at least one slot in an admissible collection; the result is then the request's context under the
  response's deadline with exactly those slots in canonical order.
\<close>

theorem opaque_response_exact:
  "decode_opaque_exchange_response frame expected now_ms = Inr result \<longleftrightarrow>
   if_contract frame = CURRENT_INNER_CONTRACT \<and>
   (\<exists>response. if_body frame = Some (BodyOpaqueExchangeResponse response) \<and>
      or_exchange_id response = ox_exchange_id expected \<and> length (ox_exchange_id expected) = 16 \<and>
      or_binding_digest response = ox_binding_digest expected \<and> length (ox_binding_digest expected) = 32 \<and>
      or_generation response = ox_generation expected \<and>
      now_ms < or_expires_at_ms response \<and> or_expires_at_ms response \<le> ox_expires_at_ms expected \<and>
      xr_context result = expected\<lparr>ox_expires_at_ms := or_expires_at_ms response\<rparr> \<and>
      xr_slots result \<noteq> [] \<and> slots_wire_ok (xr_slots result) \<and>
      mset (opaque_slots_to_wire (xr_slots result)) = mset (or_slots response))"
proof (cases "\<exists>response. if_body frame = Some (BodyOpaqueExchangeResponse response)")
  case True
  then obtain response where body: "if_body frame = Some (BodyOpaqueExchangeResponse response)" by blast
  have nonzero: "or_expires_at_ms response \<noteq> 0" if "now_ms < or_expires_at_ms response"
    using that by auto
  define rest where "rest = bindE (map_err (\<lambda>_. Protocol) (opaque_slots_from_wire (or_slots response))) (\<lambda>slots.
      if slots = [] then Inl Protocol
      else Inr \<lparr>xr_context = expected\<lparr>ox_expires_at_ms := or_expires_at_ms response\<rparr>, xr_slots = slots\<rparr>)"
  have rest: "rest = Inr result \<longleftrightarrow>
    xr_context result = expected\<lparr>ox_expires_at_ms := or_expires_at_ms response\<rparr> \<and> xr_slots result \<noteq> [] \<and>
    slots_wire_ok (xr_slots result) \<and> mset (opaque_slots_to_wire (xr_slots result)) = mset (or_slots response)"
    unfolding rest_def by (cases result) (auto simp: bindE_Inr map_err_Inr opaque_slots_from_wire_Inr)
  have "decode_opaque_exchange_response frame expected now_ms = Inr result \<longleftrightarrow>
      if_contract frame = CURRENT_INNER_CONTRACT \<and> length (or_exchange_id response) = 16 \<and>
      length (or_binding_digest response) = 32 \<and>
      \<not> (or_exchange_id response \<noteq> ox_exchange_id expected \<or> or_generation response \<noteq> ox_generation expected \<or>
         or_binding_digest response \<noteq> ox_binding_digest expected \<or> or_expires_at_ms response = 0 \<or>
         ox_expires_at_ms expected < or_expires_at_ms response \<or> or_expires_at_ms response \<le> now_ms) \<and>
      rest = Inr result"
    unfolding rest_def by (simp add: decode_opaque_exchange_response_def body bindE_Inr of_codec_Inr) blast
  then show ?thesis
    unfolding rest using body nonzero by (auto simp: not_le not_less)
next
  case False
  then show ?thesis
    by (auto simp: decode_opaque_exchange_response_def split: option.splits inner_body.splits)
qed

end
