(* ===== verification/Notify_Event.thy ===== *)
theory Notify_Event
  imports Rust_Str
begin

text \<open>
  Notification events, \<open>crates/notify-runtime/src/model.rs\<close>, \<open>id.rs\<close> and \<open>error.rs\<close>: closed enums with
  their stored codes, bounded texts and the canonical event.
\<close>

section \<open>Errors and identifiers\<close>

datatype notification_error =
    NConfiguration | NPersistence | NIdentity | NNotFound | NClosed | NBusy | NWorker

text \<open>\<open>from_slice\<close> of an \<open>opaque_id!\<close> type of the given width.\<close>

definition id_from_slice :: "nat \<Rightarrow> bytes \<Rightarrow> notification_error + bytes" where
  "id_from_slice n bs = (if length bs = n then Inr bs else Inl NConfiguration)"

definition delivery_id_from_stored :: "int \<Rightarrow> notification_error + int" where
  "delivery_id_from_stored v = (if 0 < v then Inr v else Inl NConfiguration)"

section \<open>Closed enums\<close>

datatype event_source = SrcCeylith | SrcQq | SrcAccount | SrcLirvena

fun source_code :: "event_source \<Rightarrow> nat" where
  "source_code SrcCeylith = 1"
| "source_code SrcQq = 2"
| "source_code SrcAccount = 3"
| "source_code SrcLirvena = 4"

datatype event_category = Authorization | Continuity | RiskControl | WorkerCategory | Recovery

fun category_code :: "event_category \<Rightarrow> nat" where
  "category_code Authorization = 1"
| "category_code Continuity = 2"
| "category_code RiskControl = 3"
| "category_code WorkerCategory = 4"
| "category_code Recovery = 5"

datatype severity = Info | Warning | Critical

fun severity_code :: "severity \<Rightarrow> nat" where
  "severity_code Info = 1"
| "severity_code Warning = 2"
| "severity_code Critical = 3"

datatype event_state =
    StCurrent | StExpiring | StPaused | StRevoked | StUnavailable | StProtectiveOffline | StRecovering
  | StActive | StStopped | StFailed

fun state_code :: "event_state \<Rightarrow> nat" where
  "state_code StCurrent = 1"
| "state_code StExpiring = 2"
| "state_code StPaused = 3"
| "state_code StRevoked = 4"
| "state_code StUnavailable = 5"
| "state_code StProtectiveOffline = 6"
| "state_code StRecovering = 7"
| "state_code StActive = 8"
| "state_code StStopped = 9"
| "state_code StFailed = 10"

text \<open>The \<open>from_stored\<close> of \<open>stored_enum!\<close>: the first listed value with the code.\<close>

definition stored_enum :: "('a \<Rightarrow> nat) \<Rightarrow> 'a list \<Rightarrow> nat \<Rightarrow> notification_error + 'a" where
  "stored_enum code vs v = ok_or NConfiguration (find (\<lambda>x. v = code x) vs)"

definition source_from_stored :: "nat \<Rightarrow> notification_error + event_source" where
  "source_from_stored = stored_enum source_code [SrcCeylith, SrcQq, SrcAccount, SrcLirvena]"

definition category_from_stored :: "nat \<Rightarrow> notification_error + event_category" where
  "category_from_stored = stored_enum category_code
     [Authorization, Continuity, RiskControl, WorkerCategory, Recovery]"

definition severity_from_stored :: "nat \<Rightarrow> notification_error + severity" where
  "severity_from_stored = stored_enum severity_code [Info, Warning, Critical]"

definition state_from_stored :: "nat \<Rightarrow> notification_error + event_state" where
  "state_from_stored = stored_enum state_code
     [StCurrent, StExpiring, StPaused, StRevoked, StUnavailable, StProtectiveOffline, StRecovering,
      StActive, StStopped, StFailed]"

lemma source_roundtrip [simp]: "source_from_stored (source_code s) = Inr s"
  by (cases s) (simp_all add: source_from_stored_def stored_enum_def)

lemma category_roundtrip [simp]: "category_from_stored (category_code c) = Inr c"
  by (cases c) (simp_all add: category_from_stored_def stored_enum_def)

lemma severity_roundtrip [simp]: "severity_from_stored (severity_code v) = Inr v"
  by (cases v) (simp_all add: severity_from_stored_def stored_enum_def)

lemma state_roundtrip [simp]: "state_from_stored (state_code t) = Inr t"
  by (cases t) (simp_all add: state_from_stored_def stored_enum_def)

lemma source_code_small [simp]: "source_code s < 256"
  by (cases s) simp_all

lemma category_code_small [simp]: "category_code c < 256"
  by (cases c) simp_all

lemma severity_code_small [simp]: "severity_code v < 256"
  by (cases v) simp_all

lemma state_code_small [simp]: "state_code t < 256"
  by (cases t) simp_all

section \<open>Texts, transitions and events\<close>

definition MAX_NOTIFICATION_TEXT :: nat where
  "MAX_NOTIFICATION_TEXT = 512"

definition notification_text_new :: "rstr \<Rightarrow> notification_error + rstr" where
  "notification_text_new v =
     (if v = [] \<or> MAX_NOTIFICATION_TEXT < length v \<or>
         list_ex (\<lambda>c. c = 0x0D \<or> (is_control c \<and> c \<noteq> 0x0A)) (chars v)
      then Inl NConfiguration else Inr v)"

record state_transition =
  st_previous :: event_state
  st_current :: event_state

definition state_transition_new :: "event_state \<Rightarrow> event_state \<Rightarrow> notification_error + state_transition" where
  "state_transition_new previous current =
     (if previous = current then Inl NConfiguration
      else Inr \<lparr>st_previous = previous, st_current = current\<rparr>)"

record notification_event =
  ne_event_id :: bytes
  ne_occurred_at_ms :: u64
  ne_source :: event_source
  ne_category :: event_category
  ne_severity :: severity
  ne_account_local_id :: "bytes option"
  ne_reason_code :: u32
  ne_transition :: state_transition
  ne_human_summary :: rstr
  ne_next_action :: rstr
  ne_dedupe_key :: bytes

definition notification_event_new ::
    "bytes \<Rightarrow> u64 \<Rightarrow> event_source \<Rightarrow> event_category \<Rightarrow> severity \<Rightarrow> bytes option \<Rightarrow> u32 \<Rightarrow> state_transition \<Rightarrow>
     rstr \<Rightarrow> rstr \<Rightarrow> bytes \<Rightarrow> notification_error + notification_event" where
  "notification_event_new event_id occurred_at_ms source category sev account_local_id reason transition
     human_summary next_action dedupe_key =
     (if occurred_at_ms = 0 \<or> reason = 0 then Inl NConfiguration
      else Inr \<lparr>ne_event_id = event_id, ne_occurred_at_ms = occurred_at_ms, ne_source = source,
        ne_category = category, ne_severity = sev, ne_account_local_id = account_local_id,
        ne_reason_code = reason, ne_transition = transition, ne_human_summary = human_summary,
        ne_next_action = next_action, ne_dedupe_key = dedupe_key\<rparr>)"

text \<open>What the types of the fields and the constructors guarantee of an event.\<close>

definition text_ok :: "rstr \<Rightarrow> bool" where
  "text_ok v \<longleftrightarrow> notification_text_new v = Inr v"

definition event_typed :: "notification_event \<Rightarrow> bool" where
  "event_typed e \<longleftrightarrow> length (ne_event_id e) = 16 \<and> length (ne_dedupe_key e) = 32 \<and>
     (case ne_account_local_id e of None \<Rightarrow> True | Some i \<Rightarrow> length i = 16) \<and>
     ne_occurred_at_ms e \<noteq> 0 \<and> ne_reason_code e \<noteq> 0 \<and>
     st_previous (ne_transition e) \<noteq> st_current (ne_transition e) \<and>
     text_ok (ne_human_summary e) \<and> text_ok (ne_next_action e)"

end
