(* ===== verification/Outbox.thy ===== *)
theory Outbox
  imports Notify_Event "HOL-Library.List_Lexorder"
begin

text \<open>
  The durable notification outbox, \<open>crates/notify-runtime/src/store.rs\<close> with \<open>store/codec.rs\<close>,
  \<open>store/policy.rs\<close> and \<open>store/schema.rs\<close>: fan-out with cooldown, due deliveries, retries and
  abandonment.

  The database is the rows of its two tables in insertion order, with the CHECK, UNIQUE and foreign
  key constraints of \<open>schema.rs\<close> on every write; integers are SQLite's signed 64-bit values. Whether
  SQLite carries out a transaction is the boolean each operation takes; a failed one is rolled back.
\<close>

section \<open>Rows and constraints\<close>

record event_row =
  er_event_id :: bytes
  er_occurred_at_ms :: int
  er_enqueued_at_ms :: int
  er_source :: int
  er_category :: int
  er_severity :: int
  er_account_local_id :: "bytes option"
  er_reason_code :: int
  er_previous_state :: int
  er_current_state :: int
  er_human_summary :: rstr
  er_next_action :: rstr
  er_dedupe_key :: bytes

record delivery_row =
  dr_id :: int
  dr_event_id :: bytes
  dr_destination_id :: bytes
  dr_attempt_count :: int
  dr_next_attempt_at_ms :: int
  dr_retry_until_ms :: int
  dr_delivered_at_ms :: "int option"
  dr_abandoned_at_ms :: "int option"
  dr_last_error_code :: "int option"

record outbox_db =
  ob_version :: nat
  ob_events :: "event_row list"
  ob_deliveries :: "delivery_row list"
  ob_sequence :: int

definition event_row_check :: "event_row \<Rightarrow> bool" where
  "event_row_check r \<longleftrightarrow> length (er_event_id r) = 16 \<and> 0 < er_occurred_at_ms r \<and> 0 \<le> er_enqueued_at_ms r \<and>
     (case er_account_local_id r of None \<Rightarrow> True | Some i \<Rightarrow> length i = 16) \<and> 0 < er_reason_code r \<and>
     length (er_dedupe_key r) = 32"

definition delivery_row_check :: "delivery_row \<Rightarrow> bool" where
  "delivery_row_check r \<longleftrightarrow> length (dr_destination_id r) = 16 \<and> 0 \<le> dr_attempt_count r \<and>
     0 \<le> dr_next_attempt_at_ms r \<and> dr_next_attempt_at_ms r \<le> dr_retry_until_ms r \<and>
     \<not> (dr_delivered_at_ms r \<noteq> None \<and> dr_abandoned_at_ms r \<noteq> None)"

text \<open>INSERT into \<open>notification_event\<close>: its CHECKs and its primary key.\<close>

definition insert_event_row :: "event_row \<Rightarrow> outbox_db \<Rightarrow> notification_error + outbox_db" where
  "insert_event_row r db =
     (if event_row_check r \<and> er_event_id r \<notin> set (map er_event_id (ob_events db))
      then Inr (db\<lparr>ob_events := ob_events db @ [r]\<rparr>) else Inl NPersistence)"

text \<open>
  INSERT into \<open>notification_delivery\<close>: the next AUTOINCREMENT identifier, which SQLite refuses past
  the largest 64-bit integer, the CHECKs, the foreign key and \<open>UNIQUE (event_id, destination_id)\<close>.
\<close>

definition insert_delivery_row ::
    "bytes \<Rightarrow> bytes \<Rightarrow> int \<Rightarrow> int \<Rightarrow> outbox_db \<Rightarrow> notification_error + outbox_db" where
  "insert_delivery_row event_id destination next_attempt retry_until db =
     (let r = \<lparr>dr_id = ob_sequence db + 1, dr_event_id = event_id, dr_destination_id = destination,
               dr_attempt_count = 0, dr_next_attempt_at_ms = next_attempt, dr_retry_until_ms = retry_until,
               dr_delivered_at_ms = None, dr_abandoned_at_ms = None, dr_last_error_code = None\<rparr> in
      if ob_sequence db + 1 < 2 ^ 63 \<and> delivery_row_check r \<and>
         event_id \<in> set (map er_event_id (ob_events db)) \<and>
         (event_id, destination) \<notin> set (map (\<lambda>d. (dr_event_id d, dr_destination_id d)) (ob_deliveries db))
      then Inr (db\<lparr>ob_deliveries := ob_deliveries db @ [r], ob_sequence := ob_sequence db + 1\<rparr>)
      else Inl NPersistence)"

definition is_pending :: "delivery_row \<Rightarrow> bool" where
  "is_pending r \<longleftrightarrow> dr_delivered_at_ms r = None \<and> dr_abandoned_at_ms r = None"

text \<open>UPDATE of the delivery rows satisfying \<open>p\<close>: the number of rows changed and the new table.\<close>

definition update_deliveries ::
    "(delivery_row \<Rightarrow> bool) \<Rightarrow> (delivery_row \<Rightarrow> delivery_row) \<Rightarrow> outbox_db \<Rightarrow>
     notification_error + nat \<times> outbox_db" where
  "update_deliveries p f db =
     (if list_all (\<lambda>r. p r \<longrightarrow> delivery_row_check (f r)) (ob_deliveries db)
      then Inr (length (filter p (ob_deliveries db)),
                db\<lparr>ob_deliveries := map (\<lambda>r. if p r then f r else r) (ob_deliveries db)\<rparr>)
      else Inl NPersistence)"

section \<open>Policy\<close>

definition DEFAULT_COOLDOWN_MS :: u64 where
  "DEFAULT_COOLDOWN_MS = 15 * 60 * 1000"

definition MAX_DESTINATIONS :: nat where
  "MAX_DESTINATIONS = 32"

definition RETRY_DELAYS_MS :: "u64 list" where
  "RETRY_DELAYS_MS = [60000, 5 * 60000, 30 * 60000, 2 * 60 * 60000]"

definition DELIVERY_BATCH_LIMIT :: nat where
  "DELIVERY_BATCH_LIMIT = 100"

definition OUTBOX_SCHEMA_VERSION :: nat where
  "OUTBOX_SCHEMA_VERSION = 1"

definition validate_destinations :: "bytes list \<Rightarrow> notification_error + unit" where
  "validate_destinations destinations =
     (if destinations = [] \<or> MAX_DESTINATIONS < length destinations then Inl NConfiguration
      else if length (remdups destinations) = length destinations then Inr () else Inl NConfiguration)"

definition time_to_i64 :: "u64 \<Rightarrow> notification_error + int" where
  "time_to_i64 v = (if unat v < 2 ^ 63 then Inr (int (unat v)) else Inl NConfiguration)"

definition time_from_i64 :: "int \<Rightarrow> notification_error + u64" where
  "time_from_i64 v = (if 0 \<le> v then Inr (of_int v) else Inl NConfiguration)"

text \<open>The query of \<open>eligible_destinations\<close>: is there a delivery to suppress the new one?\<close>

definition recent_duplicate :: "outbox_db \<Rightarrow> bytes \<Rightarrow> bytes \<Rightarrow> int \<Rightarrow> bool" where
  "recent_duplicate db destination key start =
     list_ex (\<lambda>d. dr_destination_id d = destination \<and>
       list_ex (\<lambda>e. er_event_id e = dr_event_id d \<and> er_dedupe_key e = key \<and> start \<le> er_enqueued_at_ms e)
         (ob_events db)) (ob_deliveries db)"

fun eligible_loop :: "outbox_db \<Rightarrow> bytes \<Rightarrow> u64 \<Rightarrow> bytes list \<Rightarrow> notification_error + bytes list" where
  "eligible_loop db key cooldown_start [] = Inr []"
| "eligible_loop db key cooldown_start (destination # destinations) =
     bindE (time_to_i64 cooldown_start) (\<lambda>start.
     bindE (eligible_loop db key cooldown_start destinations) (\<lambda>eligible.
     Inr (if recent_duplicate db destination key start then eligible else destination # eligible)))"

definition eligible_destinations ::
    "outbox_db \<Rightarrow> notification_event \<Rightarrow> bytes list \<Rightarrow> u64 \<Rightarrow> notification_error + bytes list" where
  "eligible_destinations db event destinations cooldown_start =
     (if ne_category event = Recovery then Inr destinations
      else eligible_loop db (ne_dedupe_key event) cooldown_start destinations)"

definition retry_delay :: "u32 \<Rightarrow> u64" where
  "retry_delay attempts = RETRY_DELAYS_MS ! min (unat attempts) (length RETRY_DELAYS_MS - 1)"

fun retry_lifetime :: "severity \<Rightarrow> u64" where
  "retry_lifetime Info = 30 * 60 * 1000"
| "retry_lifetime Warning = 2 * 60 * 60 * 1000"
| "retry_lifetime Critical = 24 * 60 * 60 * 1000"

section \<open>The codec of rows\<close>

definition event_row_of :: "notification_event \<Rightarrow> int \<Rightarrow> int \<Rightarrow> event_row" where
  "event_row_of event occurred enqueued =
     \<lparr>er_event_id = ne_event_id event, er_occurred_at_ms = occurred, er_enqueued_at_ms = enqueued,
      er_source = int (source_code (ne_source event)), er_category = int (category_code (ne_category event)),
      er_severity = int (severity_code (ne_severity event)),
      er_account_local_id = ne_account_local_id event, er_reason_code = int (unat (ne_reason_code event)),
      er_previous_state = int (state_code (st_previous (ne_transition event))),
      er_current_state = int (state_code (st_current (ne_transition event))),
      er_human_summary = ne_human_summary event, er_next_action = ne_next_action event,
      er_dedupe_key = ne_dedupe_key event\<rparr>"

definition insert_event :: "notification_event \<Rightarrow> u64 \<Rightarrow> outbox_db \<Rightarrow> notification_error + outbox_db" where
  "insert_event event enqueued_at_ms db =
     bindE (time_to_i64 (ne_occurred_at_ms event)) (\<lambda>occurred.
     bindE (time_to_i64 enqueued_at_ms) (\<lambda>enqueued.
     insert_event_row (event_row_of event occurred enqueued) db))"

record delivery =
  de_id :: int
  de_destination_id :: bytes
  de_attempt_count :: u32
  de_event :: notification_event

text \<open>\<open>u32::try_from\<close> of a stored integer, and \<open>row.get::<_, u8>\<close>, which refuses a value outside the type.\<close>

definition u32_try_from :: "int \<Rightarrow> notification_error + u32" where
  "u32_try_from v = (if 0 \<le> v \<and> v < 2 ^ 32 then Inr (of_int v) else Inl NConfiguration)"

definition column_u8 :: "int \<Rightarrow> notification_error + nat" where
  "column_u8 v = (if 0 \<le> v \<and> v < 256 then Inr (nat v) else Inl NPersistence)"

definition account_id_from_stored :: "bytes option \<Rightarrow> notification_error + bytes option" where
  "account_id_from_stored v =
     (case v of None \<Rightarrow> Inr None
      | Some bs \<Rightarrow> if length bs = 16 then Inr (Some bs) else Inl NConfiguration)"

definition decode_delivery_inner :: "delivery_row \<Rightarrow> event_row \<Rightarrow> notification_error + delivery" where
  "decode_delivery_inner d e =
     bindE (delivery_id_from_stored (dr_id d)) (\<lambda>i.
     bindE (id_from_slice 16 (dr_destination_id d)) (\<lambda>destination_id.
     bindE (u32_try_from (dr_attempt_count d)) (\<lambda>attempt_count.
     bindE (id_from_slice 16 (er_event_id e)) (\<lambda>event_id.
     bindE (time_from_i64 (er_occurred_at_ms e)) (\<lambda>occurred_at_ms.
     bindE (bindE (column_u8 (er_source e)) source_from_stored) (\<lambda>source.
     bindE (bindE (column_u8 (er_category e)) category_from_stored) (\<lambda>category.
     bindE (bindE (column_u8 (er_severity e)) severity_from_stored) (\<lambda>sev.
     bindE (account_id_from_stored (er_account_local_id e)) (\<lambda>account_local_id.
     bindE (u32_try_from (er_reason_code e)) (\<lambda>reason.
     bindE (bindE (column_u8 (er_previous_state e)) state_from_stored) (\<lambda>previous.
     bindE (bindE (column_u8 (er_current_state e)) state_from_stored) (\<lambda>current.
     bindE (state_transition_new previous current) (\<lambda>transition.
     bindE (notification_text_new (er_human_summary e)) (\<lambda>human_summary.
     bindE (notification_text_new (er_next_action e)) (\<lambda>next_action.
     bindE (id_from_slice 32 (er_dedupe_key e)) (\<lambda>dedupe_key.
     bindE (notification_event_new event_id occurred_at_ms source category sev account_local_id reason
              transition human_summary next_action dedupe_key) (\<lambda>event.
     Inr \<lparr>de_id = i, de_destination_id = destination_id, de_attempt_count = attempt_count,
          de_event = event\<rparr>)))))))))))))))))"

text \<open>Every decoding error becomes \<open>InvalidQuery\<close>, which the store reports as a persistence error.\<close>

definition decode_delivery :: "delivery_row \<times> event_row \<Rightarrow> notification_error + delivery" where
  "decode_delivery r = map_err (\<lambda>_. NPersistence) (decode_delivery_inner (fst r) (snd r))"

section \<open>The store\<close>

record notification_store =
  ns_connection :: outbox_db
  ns_cooldown_ms :: u64

datatype failure_disposition = RetryAt u64 | Abandoned

definition outbox_create_schema :: "bool \<Rightarrow> outbox_db \<Rightarrow> notification_error + outbox_db" where
  "outbox_create_schema sqlite_ok db =
     (if sqlite_ok then Inr (db\<lparr>ob_version := OUTBOX_SCHEMA_VERSION, ob_events := [], ob_deliveries := [],
                                ob_sequence := 0\<rparr>)
      else Inl NPersistence)"

definition outbox_migrate :: "bool \<Rightarrow> outbox_db \<Rightarrow> notification_error + outbox_db" where
  "outbox_migrate sqlite_ok db =
     (if ob_version db = OUTBOX_SCHEMA_VERSION then Inr db
      else if ob_version db = 0 then outbox_create_schema sqlite_ok db
      else Inl NConfiguration)"

definition outbox_open :: "bool \<Rightarrow> outbox_db \<Rightarrow> notification_error + notification_store" where
  "outbox_open sqlite_ok db =
     bindE (outbox_migrate sqlite_ok db) (\<lambda>db'.
     Inr \<lparr>ns_connection = db', ns_cooldown_ms = DEFAULT_COOLDOWN_MS\<rparr>)"

definition empty_outbox :: outbox_db where
  "empty_outbox = \<lparr>ob_version = 0, ob_events = [], ob_deliveries = [], ob_sequence = 0\<rparr>"

fun insert_deliveries ::
    "bytes \<Rightarrow> u64 \<Rightarrow> u64 \<Rightarrow> bytes list \<Rightarrow> outbox_db \<Rightarrow> notification_error + outbox_db" where
  "insert_deliveries event_id enqueued_at_ms retry_until_ms [] db = Inr db"
| "insert_deliveries event_id enqueued_at_ms retry_until_ms (destination # destinations) db =
     bindE (time_to_i64 enqueued_at_ms) (\<lambda>enqueued.
     bindE (time_to_i64 retry_until_ms) (\<lambda>retry_until.
     bindE (insert_delivery_row event_id destination enqueued retry_until db) (\<lambda>db'.
     insert_deliveries event_id enqueued_at_ms retry_until_ms destinations db')))"

definition outbox_enqueue ::
    "bool \<Rightarrow> notification_event \<Rightarrow> bytes list \<Rightarrow> u64 \<Rightarrow> (notification_store, notification_error, nat) op" where
  "outbox_enqueue sqlite_ok event destinations enqueued_at_ms s =
     (case bindE (validate_destinations destinations) (\<lambda>_.
           bindE (ok_or NConfiguration (u64_checked_add enqueued_at_ms (retry_lifetime (ne_severity event))))
             (\<lambda>retry_until_ms.
           let cooldown_start = u64_saturating_sub enqueued_at_ms (ns_cooldown_ms s) in
           if \<not> sqlite_ok then Inl NPersistence
           else
             bindE (eligible_destinations (ns_connection s) event destinations cooldown_start) (\<lambda>eligible.
             if eligible = [] then Inr (0, ns_connection s)
             else
               bindE (insert_event event enqueued_at_ms (ns_connection s)) (\<lambda>db.
               bindE (insert_deliveries (ne_event_id event) enqueued_at_ms retry_until_ms eligible db) (\<lambda>db'.
               Inr (length eligible, db')))))) of
        Inl e \<Rightarrow> (Inl e, s)
      | Inr (n, db) \<Rightarrow> (Inr n, s\<lparr>ns_connection := db\<rparr>))"

text \<open>The query of \<open>due\<close>: the join of both tables, its WHERE, its ORDER BY and its LIMIT.\<close>

definition joined_rows :: "outbox_db \<Rightarrow> (delivery_row \<times> event_row) list" where
  "joined_rows db = concat (map (\<lambda>d. map (Pair d) (filter (\<lambda>e. er_event_id e = dr_event_id d) (ob_events db)))
     (ob_deliveries db))"

definition due_rows :: "int \<Rightarrow> nat \<Rightarrow> outbox_db \<Rightarrow> (delivery_row \<times> event_row) list" where
  "due_rows now n db =
     take n (sort_key (\<lambda>r. dr_next_attempt_at_ms (fst r)) (sort_key (\<lambda>r. dr_id (fst r))
       (filter (\<lambda>r. is_pending (fst r) \<and> dr_next_attempt_at_ms (fst r) \<le> now) (joined_rows db))))"

definition outbox_due :: "bool \<Rightarrow> u64 \<Rightarrow> nat \<Rightarrow> notification_store \<Rightarrow> notification_error + delivery list" where
  "outbox_due sqlite_ok now_ms n s =
     (if n = 0 \<or> DELIVERY_BATCH_LIMIT < n then Inl NConfiguration
      else if \<not> sqlite_ok then Inl NPersistence
      else bindE (time_to_i64 now_ms) (\<lambda>now.
        collect_results (map decode_delivery (due_rows now n (ns_connection s)))))"

definition mark_delivered ::
    "bool \<Rightarrow> int \<Rightarrow> u64 \<Rightarrow> (notification_store, notification_error, unit) op" where
  "mark_delivered sqlite_ok delivery_id delivered_at_ms s =
     (case bindE (time_to_i64 delivered_at_ms) (\<lambda>at.
           if \<not> sqlite_ok then Inl NPersistence
           else update_deliveries (\<lambda>r. dr_id r = delivery_id \<and> is_pending r)
                  (\<lambda>r. r\<lparr>dr_delivered_at_ms := Some at\<rparr>) (ns_connection s)) of
        Inl e \<Rightarrow> (Inl e, s)
      | Inr (updated, db) \<Rightarrow> (if updated = 1 then Inr () else Inl NNotFound, s\<lparr>ns_connection := db\<rparr>))"

definition record_failure ::
    "bool \<Rightarrow> int \<Rightarrow> u64 \<Rightarrow> u32 \<Rightarrow> (notification_store, notification_error, failure_disposition) op" where
  "record_failure sqlite_ok delivery_id failed_at_ms error_code s =
     (case if error_code = 0 then Inl NConfiguration
           else if \<not> sqlite_ok then Inl NPersistence
           else
             bindE (ok_or NNotFound (find (\<lambda>r. dr_id r = delivery_id \<and> is_pending r)
                      (ob_deliveries (ns_connection s)))) (\<lambda>stored.
             bindE (u32_try_from (dr_attempt_count stored)) (\<lambda>attempts.
             bindE (time_from_i64 (dr_retry_until_ms stored)) (\<lambda>retry_until.
             bindE (ok_or NConfiguration (u64_checked_add failed_at_ms (retry_delay attempts))) (\<lambda>next_attempt.
             bindE (ok_or NConfiguration (u32_checked_add attempts 1)) (\<lambda>next_count.
             if retry_until < next_attempt then
               bindE (time_to_i64 failed_at_ms) (\<lambda>at.
               bindE (update_deliveries (\<lambda>r. dr_id r = delivery_id)
                        (\<lambda>r. r\<lparr>dr_attempt_count := int (unat next_count),
                               dr_last_error_code := Some (int (unat error_code)),
                               dr_abandoned_at_ms := Some at\<rparr>) (ns_connection s)) (\<lambda>(_, db).
               Inr (Abandoned, db)))
             else
               bindE (time_to_i64 next_attempt) (\<lambda>at.
               bindE (update_deliveries (\<lambda>r. dr_id r = delivery_id)
                        (\<lambda>r. r\<lparr>dr_attempt_count := int (unat next_count),
                               dr_last_error_code := Some (int (unat error_code)),
                               dr_next_attempt_at_ms := at\<rparr>) (ns_connection s)) (\<lambda>(_, db).
               Inr (RetryAt next_attempt, db)))))))) of
        Inl e \<Rightarrow> (Inl e, s)
      | Inr (disposition, db) \<Rightarrow> (Inr disposition, s\<lparr>ns_connection := db\<rparr>))"

section \<open>The retry schedule\<close>

text \<open>The earliest time of the \<open>n\<close>th retry after the enqueueing, as the delays add up.\<close>

definition retry_lifetime_ms :: "severity \<Rightarrow> nat" where
  "retry_lifetime_ms sev = unat (retry_lifetime sev)"

definition retry_wait :: "nat \<Rightarrow> nat" where
  "retry_wait n = (if n = 0 then 60000 else if n = 1 then 300000 else if n = 2 then 1800000 else 7200000)"

fun retry_schedule :: "nat \<Rightarrow> nat" where
  "retry_schedule 0 = 0"
| "retry_schedule (Suc n) = retry_schedule n + retry_wait n"

fun max_failures :: "severity \<Rightarrow> nat" where
  "max_failures Info = 3"
| "max_failures Warning = 4"
| "max_failures Critical = 15"

lemma retry_delay_nat: "unat (retry_delay w) = retry_wait (unat w)"
proof -
  consider "unat w = 0" | "unat w = 1" | "unat w = 2" | "3 \<le> unat w" by linarith
  then show ?thesis
    by cases (simp_all add: retry_delay_def RETRY_DELAYS_MS_def retry_wait_def nth_Cons' min_def)
qed

lemma retry_schedule_closed: "retry_schedule (Suc (Suc (Suc n))) = 2160000 + n * 7200000"
  by (induction n) (simp_all add: retry_wait_def)

text \<open>How often a delivery of each severity can fail: the failure after the last retry in its lifetime abandons it.\<close>

lemma retry_lifetime_values [simp]:
  "retry_lifetime_ms Info = 1800000" "retry_lifetime_ms Warning = 7200000"
  "retry_lifetime_ms Critical = 86400000"
  by (simp_all add: retry_lifetime_ms_def)

lemma retry_schedule_bound:
  assumes "retry_schedule n \<le> retry_lifetime_ms sev"
  shows "n < max_failures sev"
proof (cases "n < 3")
  case True
  then show ?thesis by (cases sev) simp_all
next
  case False
  then obtain m where "n = Suc (Suc (Suc m))"
    by (metis Suc_le_D not_less numeral_3_eq_3 Suc_le_mono)
  with assms show ?thesis
    by (cases sev) (simp_all add: retry_schedule_closed del: retry_schedule.simps)
qed

lemma max_failures_le: "max_failures sev \<le> 15"
  by (cases sev) simp_all

section \<open>The invariant of an outbox\<close>

text \<open>
  A delivery row against the event rows: it refers to an event, its lifetime is that of the event's
  severity from the enqueueing, and it has failed only at times its retry schedule allows.
\<close>

definition delivery_ok :: "event_row list \<Rightarrow> delivery_row \<Rightarrow> bool" where
  "delivery_ok evs d \<longleftrightarrow> delivery_row_check d \<and>
     (\<exists>e \<in> set evs. \<exists>sev q k. er_event_id e = dr_event_id d \<and>
        er_severity e = int (severity_code sev) \<and> er_enqueued_at_ms e = int q \<and>
        dr_attempt_count d = int k \<and> dr_retry_until_ms d = int (q + retry_lifetime_ms sev) \<and>
        q + retry_lifetime_ms sev < 2 ^ 63 \<and> retry_schedule (k - 1) \<le> retry_lifetime_ms sev \<and>
        (is_pending d \<longrightarrow> int (q + retry_schedule k) \<le> dr_next_attempt_at_ms d))"

text \<open>The later delivery of a pair was not enqueued within the cooldown after the earlier one.\<close>

definition cooled :: "event_row list \<Rightarrow> delivery_row \<Rightarrow> delivery_row \<Rightarrow> bool" where
  "cooled evs d d' \<longleftrightarrow> (\<forall>e \<in> set evs. \<forall>e' \<in> set evs.
     er_event_id e = dr_event_id d \<longrightarrow> er_event_id e' = dr_event_id d' \<longrightarrow>
     dr_destination_id d = dr_destination_id d' \<longrightarrow> er_dedupe_key e = er_dedupe_key e' \<longrightarrow>
     er_category e' \<noteq> int (category_code Recovery) \<longrightarrow>
     er_enqueued_at_ms e + int (unat DEFAULT_COOLDOWN_MS) < er_enqueued_at_ms e')"

definition stored_event :: "notification_event set \<Rightarrow> event_row \<Rightarrow> bool" where
  "stored_event E r \<longleftrightarrow> (\<exists>event \<in> E. \<exists>q. q < (2 :: nat) ^ 63 \<and> unat (ne_occurred_at_ms event) < 2 ^ 63 \<and>
     r = event_row_of event (int (unat (ne_occurred_at_ms event))) (int q))"

definition outbox_ok :: "notification_event set \<Rightarrow> outbox_db \<Rightarrow> bool" where
  "outbox_ok E db \<longleftrightarrow> ob_version db = 1 \<and> 0 \<le> ob_sequence db \<and> ob_sequence db < 2 ^ 63 \<and>
     distinct (map er_event_id (ob_events db)) \<and> (\<forall>r \<in> set (ob_events db). stored_event E r) \<and>
     sorted_wrt (<) (map dr_id (ob_deliveries db)) \<and>
     (\<forall>d \<in> set (ob_deliveries db). 0 < dr_id d \<and> dr_id d \<le> ob_sequence db \<and> delivery_ok (ob_events db) d) \<and>
     sorted_wrt (cooled (ob_events db)) (ob_deliveries db)"

lemma delivery_ok_event: "delivery_ok evs d \<Longrightarrow> dr_event_id d \<in> er_event_id ` set evs"
  by (force simp: delivery_ok_def)

lemma stored_event_mono: "stored_event E r \<Longrightarrow> E \<subseteq> F \<Longrightarrow> stored_event F r"
  by (auto simp: stored_event_def)

lemma outbox_ok_mono: "outbox_ok E db \<Longrightarrow> E \<subseteq> F \<Longrightarrow> outbox_ok F db"
  by (auto simp: outbox_ok_def intro: stored_event_mono)

lemma time_to_i64_Inr: "time_to_i64 v = Inr i \<longleftrightarrow> unat v < 2 ^ 63 \<and> i = int (unat v)"
  by (auto simp: time_to_i64_def)

lemma empty_outbox_ok: "outbox_ok E \<lparr>ob_version = 1, ob_events = [], ob_deliveries = [], ob_sequence = 0\<rparr>"
  by (simp add: outbox_ok_def)

text \<open>An update that keeps the keys of the rows it changes and their well-formedness keeps the invariant.\<close>

definition same_keys :: "delivery_row \<Rightarrow> delivery_row \<Rightarrow> bool" where
  "same_keys d d' \<longleftrightarrow> dr_id d' = dr_id d \<and> dr_event_id d' = dr_event_id d \<and>
     dr_destination_id d' = dr_destination_id d"

lemma cooled_same_keys: "same_keys a a' \<Longrightarrow> same_keys b b' \<Longrightarrow> cooled evs a' b' = cooled evs a b"
  by (simp add: cooled_def same_keys_def)

lemma sorted_wrt_map_same:
  "(\<And>x y. x \<in> set xs \<Longrightarrow> y \<in> set xs \<Longrightarrow> R x y \<Longrightarrow> R (g x) (g y)) \<Longrightarrow> sorted_wrt R xs \<Longrightarrow> sorted_wrt R (map g xs)"
  by (induction xs) auto

lemma update_deliveries_ok:
  assumes ok: "outbox_ok E db" and upd: "update_deliveries p f db = Inr (n, db')"
    and keys: "\<And>r. same_keys r (f r)"
    and rows: "\<And>r. r \<in> set (ob_deliveries db) \<Longrightarrow> p r \<Longrightarrow> delivery_ok (ob_events db) (f r)"
  shows "outbox_ok E db'"
proof -
  let ?g = "\<lambda>r. if p r then f r else r"
  have db': "db' = db\<lparr>ob_deliveries := map ?g (ob_deliveries db)\<rparr>"
    using upd by (simp add: update_deliveries_def split: if_splits)
  have g: "same_keys r (?g r)" for r using keys by (simp add: same_keys_def)
  then have "map dr_id (map ?g (ob_deliveries db)) = map dr_id (ob_deliveries db)"
    by (simp add: same_keys_def)
  moreover have "sorted_wrt (cooled (ob_events db)) (map ?g (ob_deliveries db))"
    by (rule sorted_wrt_map_same) (use ok cooled_same_keys [OF g g] in \<open>auto simp: outbox_ok_def\<close>)
  moreover have "\<forall>d \<in> set (map ?g (ob_deliveries db)).
      0 < dr_id d \<and> dr_id d \<le> ob_sequence db \<and> delivery_ok (ob_events db) d"
    using ok rows keys by (auto simp: outbox_ok_def same_keys_def)
  ultimately show ?thesis
    using ok unfolding db' outbox_ok_def by (simp del: map_map set_map)
qed

text \<open>Marking a delivery and recording a failure.\<close>

lemma pending_update_fields [simp]:
  "delivery_row_check (r\<lparr>dr_delivered_at_ms := Some at\<rparr>) \<longleftrightarrow>
     delivery_row_check r \<and> dr_abandoned_at_ms r = None"
  by (auto simp: delivery_row_check_def)

lemma mark_delivered_ok:
  assumes ok: "outbox_ok E (ns_connection s)"
  shows "outbox_ok E (ns_connection (snd (mark_delivered sqlite_ok i at s)))"
proof (cases "bindE (time_to_i64 at) (\<lambda>at. if \<not> sqlite_ok then Inl NPersistence
    else update_deliveries (\<lambda>r. dr_id r = i \<and> is_pending r)
      (\<lambda>r. r\<lparr>dr_delivered_at_ms := Some at\<rparr>) (ns_connection s))")
  case (Inl e)
  with ok show ?thesis by (simp add: mark_delivered_def)
next
  case (Inr r)
  obtain n db where r: "r = (n, db)" by fastforce
  with Inr obtain v where upd: "update_deliveries (\<lambda>r. dr_id r = i \<and> is_pending r)
      (\<lambda>r. r\<lparr>dr_delivered_at_ms := Some v\<rparr>) (ns_connection s) = Inr (n, db)"
    by (auto simp: bindE_Inr split: if_splits)
  have "outbox_ok E db"
  proof (rule update_deliveries_ok [OF ok upd])
    fix r
    show "same_keys r (r\<lparr>dr_delivered_at_ms := Some v\<rparr>)" by (simp add: same_keys_def)
  next
    fix r
    assume r: "r \<in> set (ob_deliveries (ns_connection s))" "dr_id r = i \<and> is_pending r"
    then have "delivery_ok (ob_events (ns_connection s)) r" using ok by (simp add: outbox_ok_def)
    with r show "delivery_ok (ob_events (ns_connection s)) (r\<lparr>dr_delivered_at_ms := Some v\<rparr>)"
      by (simp add: delivery_ok_def is_pending_def) blast
  qed
  with Inr r show ?thesis by (simp add: mark_delivered_def)
qed

lemma time_from_i64_nat [simp]: "time_from_i64 (int n) = Inr (of_nat n)"
  by (simp add: time_from_i64_def)

lemma u32_try_from_nat: "n < 2 ^ 32 \<Longrightarrow> u32_try_from (int n) = Inr (of_nat n)"
  by (simp add: u32_try_from_def)

lemma find_by_id:
  assumes "sorted_wrt (<) (map dr_id ds)" "d \<in> set ds" "is_pending d"
  shows "find (\<lambda>r. dr_id r = dr_id d \<and> is_pending r) ds = Some d"
  using assms by (induction ds) (auto simp: is_pending_def)

lemma same_id_same_row:
  assumes "sorted_wrt (<) (map dr_id ds)" "d \<in> set ds" "d' \<in> set ds" "dr_id d = dr_id d'"
  shows "d = d'"
  using assms by (induction ds) auto

lemma attempts_small:
  assumes "retry_schedule (k - 1) \<le> retry_lifetime_ms sev"
  shows "k \<le> 15"
  using retry_schedule_bound [OF assms] max_failures_le [of sev] by linarith

lemma delivery_okI:
  assumes "delivery_row_check d" "e \<in> set evs" "er_event_id e = dr_event_id d"
    "er_severity e = int (severity_code sev)" "er_enqueued_at_ms e = int q"
    "dr_attempt_count d = int k" "dr_retry_until_ms d = int (q + retry_lifetime_ms sev)"
    "q + retry_lifetime_ms sev < 2 ^ 63" "retry_schedule (k - 1) \<le> retry_lifetime_ms sev"
    "is_pending d \<Longrightarrow> int (q + retry_schedule k) \<le> dr_next_attempt_at_ms d"
  shows "delivery_ok evs d"
  unfolding delivery_ok_def using assms by blast

lemma failed_row_ok:
  assumes ok: "delivery_ok evs d" and pending: "is_pending d"
    and due: "dr_next_attempt_at_ms d \<le> int (unat at)"
    and attempts: "u32_try_from (dr_attempt_count d) = Inr attempts"
    and until: "time_from_i64 (dr_retry_until_ms d) = Inr retry_until"
    and nxt: "u64_checked_add at (retry_delay attempts) = Some next_attempt"
    and cnt: "u32_checked_add attempts 1 = Some next_count"
  shows "retry_until < next_attempt \<Longrightarrow>
      delivery_ok evs (d\<lparr>dr_attempt_count := int (unat next_count), dr_last_error_code := code,
        dr_abandoned_at_ms := Some v\<rparr>)"
    and "\<not> retry_until < next_attempt \<Longrightarrow>
      delivery_ok evs (d\<lparr>dr_attempt_count := int (unat next_count), dr_last_error_code := code,
        dr_next_attempt_at_ms := int (unat next_attempt)\<rparr>)"
proof -
  from ok obtain e sev q k where e: "e \<in> set evs" "er_event_id e = dr_event_id d"
      "er_severity e = int (severity_code sev)" "er_enqueued_at_ms e = int q"
    and k: "dr_attempt_count d = int k" "retry_schedule (k - 1) \<le> retry_lifetime_ms sev"
    and u: "dr_retry_until_ms d = int (q + retry_lifetime_ms sev)" "q + retry_lifetime_ms sev < 2 ^ 63"
    and n: "int (q + retry_schedule k) \<le> dr_next_attempt_at_ms d" and chk: "delivery_row_check d"
    using pending unfolding delivery_ok_def by blast
  have "k \<le> 15" by (rule attempts_small) (rule k(2))
  then have a: "attempts = of_nat k" "unat attempts = k"
    using attempts k(1) by (auto simp: u32_try_from_nat unat_of_nat)
  have c: "unat next_count = Suc k" using u32_checked_add_unat [OF cnt] a by simp
  have r: "unat retry_until = q + retry_lifetime_ms sev"
    using until u by (auto simp: time_from_i64_def u64_small simp flip: of_nat_add)
  have w: "unat next_attempt = unat at + retry_wait k"
    using u64_checked_add_unat [OF nxt] a by (simp add: retry_delay_nat)
  have s: "retry_schedule k \<le> retry_lifetime_ms sev"
    using n chk u(1) by (simp add: delivery_row_check_def)
  have na: "dr_delivered_at_ms d = None" "dr_abandoned_at_ms d = None"
    using pending by (simp_all add: is_pending_def)
  show "delivery_ok evs (d\<lparr>dr_attempt_count := int (unat next_count), dr_last_error_code := code,
      dr_abandoned_at_ms := Some v\<rparr>)" if "retry_until < next_attempt"
  proof (rule delivery_okI [where e = e and sev = sev and q = q and k = "Suc k"])
    show "delivery_row_check (d\<lparr>dr_attempt_count := int (unat next_count), dr_last_error_code := code,
        dr_abandoned_at_ms := Some v\<rparr>)"
      using chk na by (simp add: delivery_row_check_def)
  qed (use e u s c in \<open>simp_all add: is_pending_def\<close>)
  show "delivery_ok evs (d\<lparr>dr_attempt_count := int (unat next_count), dr_last_error_code := code,
      dr_next_attempt_at_ms := int (unat next_attempt)\<rparr>)" if "\<not> retry_until < next_attempt"
  proof (rule delivery_okI [where e = e and sev = sev and q = q and k = "Suc k"])
    have "unat next_attempt \<le> q + retry_lifetime_ms sev"
      using that r by (simp add: not_less word_le_nat_alt)
    then have "int (unat next_attempt) \<le> int (q + retry_lifetime_ms sev)"
      unfolding of_nat_le_iff .
    then show "delivery_row_check (d\<lparr>dr_attempt_count := int (unat next_count), dr_last_error_code := code,
        dr_next_attempt_at_ms := int (unat next_attempt)\<rparr>)"
      using chk na u by (simp add: delivery_row_check_def)
  qed (use e u s c w n due in \<open>simp_all\<close>)
qed

lemma record_failure_ok:
  assumes ok: "outbox_ok E (ns_connection s)"
    and due: "\<And>d. d \<in> set (ob_deliveries (ns_connection s)) \<Longrightarrow> dr_id d = i \<Longrightarrow> is_pending d \<Longrightarrow>
      dr_next_attempt_at_ms d \<le> int (unat at)"
  shows "outbox_ok E (ns_connection (snd (record_failure sqlite_ok i at code s)))"
proof (cases "fst (record_failure sqlite_ok i at code s)")
  case (Inl e)
  then have "snd (record_failure sqlite_ok i at code s) = s"
    by (auto simp: record_failure_def split: sum.splits)
  with ok show ?thesis by simp
next
  case (Inr disposition)
  let ?db = "ns_connection s"
  let ?f = "\<lambda>c. \<lambda>r. r\<lparr>dr_attempt_count := c, dr_last_error_code := Some (int (unat code))\<rparr>"
  from Inr obtain d attempts until nxt cnt db g where
    found: "find (\<lambda>r. dr_id r = i \<and> is_pending r) (ob_deliveries ?db) = Some d"
    and dec: "u32_try_from (dr_attempt_count d) = Inr attempts" "time_from_i64 (dr_retry_until_ms d) = Inr until"
      "u64_checked_add at (retry_delay attempts) = Some nxt" "u32_checked_add attempts 1 = Some cnt"
    and upd: "update_deliveries (\<lambda>r. dr_id r = i) g ?db = Inr db"
    and s': "ns_connection (snd (record_failure sqlite_ok i at code s)) = snd db"
    and g: "(until < nxt \<and> (\<exists>v. g = (\<lambda>r. r\<lparr>dr_attempt_count := int (unat cnt),
          dr_last_error_code := Some (int (unat code)), dr_abandoned_at_ms := Some v\<rparr>)))
      \<or> (\<not> until < nxt \<and> g = (\<lambda>r. r\<lparr>dr_attempt_count := int (unat cnt),
          dr_last_error_code := Some (int (unat code)), dr_next_attempt_at_ms := int (unat nxt)\<rparr>))"
    unfolding record_failure_def
    by (fastforce simp: bindE_Inr ok_or_Inr time_to_i64_Inr split: sum.splits if_splits prod.splits)
  have d: "d \<in> set (ob_deliveries ?db)" "dr_id d = i" "is_pending d"
    using found by (auto simp: find_Some_iff)
  have row: "delivery_ok (ob_events ?db) d" using ok d(1) by (simp add: outbox_ok_def)
  have "outbox_ok E (snd db)"
  proof (rule update_deliveries_ok [OF ok, where p = "\<lambda>r. dr_id r = i" and f = g and n = "fst db"])
    show "update_deliveries (\<lambda>r. dr_id r = i) g ?db = Inr (fst db, snd db)" using upd by simp
  next
    fix r
    show "same_keys r (g r)" using g by (auto simp: same_keys_def)
  next
    fix r
    assume "r \<in> set (ob_deliveries ?db)" "dr_id r = i"
    with d ok have "r = d" by (auto simp: outbox_ok_def intro: same_id_same_row)
    with g failed_row_ok [OF row d(3) due [OF d] dec] show "delivery_ok (ob_events ?db) (g r)" by auto
  qed
  with s' show ?thesis by simp
qed

text \<open>Enqueueing: the destinations kept, the event row, and the delivery rows one by one.\<close>

lemma eligible_loop_Inr:
  "eligible_loop db key cooldown_start ds = Inr eligible \<Longrightarrow>
   eligible = filter (\<lambda>d. \<not> recent_duplicate db d key (int (unat cooldown_start))) ds"
  by (induction ds arbitrary: eligible) (auto simp: bindE_Inr time_to_i64_Inr split: if_splits)

lemma delivery_ok_mono: "delivery_ok evs d \<Longrightarrow> set evs \<subseteq> set evs' \<Longrightarrow> delivery_ok evs' d"
  unfolding delivery_ok_def by blast

lemma cooled_fresh:
  assumes "cooled evs d d'" "er_event_id r \<noteq> dr_event_id d" "er_event_id r \<noteq> dr_event_id d'"
  shows "cooled (evs @ [r]) d d'"
  using assms by (auto simp: cooled_def)

lemma insert_event_ok:
  assumes ok: "outbox_ok E db" and ins: "insert_event event enqueued db = Inr db'"
  shows "outbox_ok (insert event E) db'"
    and "ob_deliveries db' = ob_deliveries db"
    and "\<exists>r. ob_events db' = ob_events db @ [r] \<and>
           r = event_row_of event (int (unat (ne_occurred_at_ms event))) (int (unat enqueued)) \<and>
           ne_event_id event \<notin> er_event_id ` set (ob_events db)"
proof -
  let ?r = "event_row_of event (int (unat (ne_occurred_at_ms event))) (int (unat enqueued))"
  from ins have db': "db' = db\<lparr>ob_events := ob_events db @ [?r]\<rparr>"
    and fresh: "ne_event_id event \<notin> er_event_id ` set (ob_events db)"
    and small: "unat (ne_occurred_at_ms event) < 2 ^ 63" "unat enqueued < 2 ^ 63"
    by (auto simp: insert_event_def bindE_Inr time_to_i64_Inr insert_event_row_def event_row_of_def
        split: if_splits)
  have id: "er_event_id ?r = ne_event_id event" by (simp add: event_row_of_def)
  have stored: "stored_event (insert event E) ?r" using small unfolding stored_event_def by blast
  have old: "\<And>r. stored_event E r \<Longrightarrow> stored_event (insert event E) r"
    by (erule stored_event_mono) blast
  have "sorted_wrt (cooled (ob_events db @ [?r])) (ob_deliveries db)"
  proof (rule sorted_wrt_mono_rel)
    show "sorted_wrt (cooled (ob_events db)) (ob_deliveries db)" using ok by (simp add: outbox_ok_def)
  next
    fix d d'
    assume "d \<in> set (ob_deliveries db)" "d' \<in> set (ob_deliveries db)" "cooled (ob_events db) d d'"
    with ok fresh id show "cooled (ob_events db @ [?r]) d d'"
      by (intro cooled_fresh) (auto simp: outbox_ok_def dest!: delivery_ok_event)
  qed
  moreover have "delivery_ok (ob_events db @ [?r]) d" if "d \<in> set (ob_deliveries db)" for d
    using that ok by (auto simp: outbox_ok_def intro: delivery_ok_mono)
  ultimately show "outbox_ok (insert event E) db'"
    using ok fresh id stored old unfolding db' outbox_ok_def by simp
  show "ob_deliveries db' = ob_deliveries db" by (simp add: db')
  show "\<exists>r. ob_events db' = ob_events db @ [r] \<and> r = ?r \<and>
      ne_event_id event \<notin> er_event_id ` set (ob_events db)"
    using fresh by (simp add: db')
qed

text \<open>What an earlier delivery to \<open>destination\<close> must satisfy for a new one of event row \<open>r\<close>.\<close>

definition cool_for :: "outbox_db \<Rightarrow> event_row \<Rightarrow> bytes \<Rightarrow> bool" where
  "cool_for db r destination \<longleftrightarrow> (\<forall>d \<in> set (ob_deliveries db). \<forall>e \<in> set (ob_events db).
     dr_destination_id d = destination \<longrightarrow> er_event_id e = dr_event_id d \<longrightarrow>
     er_dedupe_key e = er_dedupe_key r \<longrightarrow> er_category r \<noteq> int (category_code Recovery) \<longrightarrow>
     er_enqueued_at_ms e + int (unat DEFAULT_COOLDOWN_MS) < er_enqueued_at_ms r)"

lemma insert_delivery_row_ok:
  assumes ok: "outbox_ok E db"
    and ins: "insert_delivery_row (er_event_id r) destination (int q) (int (q + retry_lifetime_ms sev)) db = Inr db'"
    and r: "r \<in> set (ob_events db)" "er_severity r = int (severity_code sev)" "er_enqueued_at_ms r = int q"
      "q + retry_lifetime_ms sev < 2 ^ 63"
    and cool: "cool_for db r destination"
  shows "outbox_ok E db'" "ob_events db' = ob_events db"
    and "\<exists>d. ob_deliveries db' = ob_deliveries db @ [d] \<and> dr_event_id d = er_event_id r \<and>
           dr_destination_id d = destination \<and> is_pending d \<and> dr_next_attempt_at_ms d = int q"
proof -
  define d where "d = \<lparr>dr_id = ob_sequence db + 1, dr_event_id = er_event_id r, dr_destination_id = destination,
    dr_attempt_count = 0, dr_next_attempt_at_ms = int q, dr_retry_until_ms = int (q + retry_lifetime_ms sev),
    dr_delivered_at_ms = None, dr_abandoned_at_ms = None, dr_last_error_code = None\<rparr>"
  from ins have db': "db' = db\<lparr>ob_deliveries := ob_deliveries db @ [d], ob_sequence := ob_sequence db + 1\<rparr>"
    and chk: "delivery_row_check d" and seq: "ob_sequence db + 1 < 2 ^ 63"
    by (auto simp: insert_delivery_row_def d_def Let_def split: if_splits)
  have uniq: "e = r" if "e \<in> set (ob_events db)" "er_event_id e = er_event_id r" for e
    using that r(1) ok by (auto simp: outbox_ok_def distinct_map inj_on_def)
  have "delivery_ok (ob_events db) d"
    by (rule delivery_okI [where e = r and sev = sev and q = q and k = 0])
      (use r chk in \<open>simp_all add: d_def is_pending_def\<close>)
  moreover have "cooled (ob_events db) d0 d" if "d0 \<in> set (ob_deliveries db)" for d0
    using cool that uniq unfolding cooled_def cool_for_def by (auto simp: d_def)
  moreover have "\<forall>x \<in> set (ob_deliveries db). dr_id x < dr_id d"
    using ok by (force simp: outbox_ok_def d_def)
  moreover have "\<forall>x \<in> set (ob_deliveries db). dr_id x \<le> ob_sequence db + 1"
    using ok by (force simp: outbox_ok_def)
  moreover have "dr_id d = ob_sequence db + 1" by (simp add: d_def)
  ultimately show "outbox_ok E db'"
    using ok seq unfolding db' outbox_ok_def by (simp add: sorted_wrt_append)
  show "ob_events db' = ob_events db" by (simp add: db')
  show "\<exists>d. ob_deliveries db' = ob_deliveries db @ [d] \<and> dr_event_id d = er_event_id r \<and>
      dr_destination_id d = destination \<and> is_pending d \<and> dr_next_attempt_at_ms d = int q"
    by (intro exI [of _ d]) (simp add: db' is_pending_def d_def)
qed

lemma insert_deliveries_ok:
  assumes "outbox_ok E db"
    and "insert_deliveries (er_event_id r) enqueued until destinations db = Inr db'"
    and "r \<in> set (ob_events db)" "er_severity r = int (severity_code sev)"
      "er_enqueued_at_ms r = int (unat enqueued)" "unat until = unat enqueued + retry_lifetime_ms sev"
    and "distinct destinations" "\<forall>destination \<in> set destinations. cool_for db r destination"
  shows "outbox_ok E db' \<and> ob_events db' = ob_events db \<and>
    (\<exists>new. ob_deliveries db' = ob_deliveries db @ new \<and> map dr_destination_id new = destinations \<and>
       (\<forall>d \<in> set new. dr_event_id d = er_event_id r \<and> is_pending d \<and>
          dr_next_attempt_at_ms d = int (unat enqueued)))"
  using assms
proof (induction destinations arbitrary: db)
  case Nil
  then show ?case by simp
next
  case (Cons destination destinations)
  from Cons.prems(2) obtain db1 where
    ins: "insert_delivery_row (er_event_id r) destination (int (unat enqueued)) (int (unat until)) db = Inr db1"
    and rest: "insert_deliveries (er_event_id r) enqueued until destinations db1 = Inr db'"
    and small: "unat until < 2 ^ 63"
    by (auto simp: bindE_Inr time_to_i64_Inr)
  have cool: "cool_for db r destination" using Cons.prems(8) by simp
  note step = insert_delivery_row_ok [OF Cons.prems(1) ins [unfolded Cons.prems(6)] Cons.prems(3,4,5)
      small [unfolded Cons.prems(6)] cool]
  obtain d where d: "ob_deliveries db1 = ob_deliveries db @ [d]" "dr_event_id d = er_event_id r"
      "dr_destination_id d = destination" "is_pending d" "dr_next_attempt_at_ms d = int (unat enqueued)"
    using step(3) by blast
  have "\<forall>x \<in> set destinations. cool_for db1 r x"
    using Cons.prems(7,8) d step(2) by (auto simp: cool_for_def)
  with Cons.IH [OF step(1) rest] Cons.prems step(2) obtain new where
    "outbox_ok E db'" "ob_events db' = ob_events db1" "ob_deliveries db' = ob_deliveries db1 @ new"
    "map dr_destination_id new = destinations"
    "\<forall>d \<in> set new. dr_event_id d = er_event_id r \<and> is_pending d \<and> dr_next_attempt_at_ms d = int (unat enqueued)"
    by auto
  with d step(2) show ?case
    by (intro conjI exI [of _ "d # new"]) simp_all
qed

lemma saturating_sub_before:
  "0 \<le> t \<Longrightarrow> t < int (unat (u64_saturating_sub a b)) \<Longrightarrow> t + int (unat b) < int (unat a)"
  by (cases "a < b") (simp_all add: u64_saturating_sub_def not_less uint_minus_simple_alt [THEN iffD1])

lemma cool_for_eligible:
  assumes ok: "outbox_ok E db" and deliveries: "ob_deliveries db1 = ob_deliveries db"
    and events: "ob_events db1 = ob_events db @ [r]" "er_event_id r \<notin> er_event_id ` set (ob_events db)"
    and r: "er_dedupe_key r = key" "er_enqueued_at_ms r = int (unat enqueued)"
    and none: "er_category r \<noteq> int (category_code Recovery) \<Longrightarrow>
      \<not> recent_duplicate db destination key (int (unat (u64_saturating_sub enqueued DEFAULT_COOLDOWN_MS)))"
  shows "cool_for db1 r destination"
  unfolding cool_for_def
proof (intro ballI impI)
  fix d e
  assume d: "d \<in> set (ob_deliveries db1)" "dr_destination_id d = destination"
    and e: "e \<in> set (ob_events db1)" "er_event_id e = dr_event_id d" "er_dedupe_key e = er_dedupe_key r"
    and cat: "er_category r \<noteq> int (category_code Recovery)"
  have "dr_event_id d \<in> er_event_id ` set (ob_events db)"
    using ok d(1) by (auto simp: outbox_ok_def deliveries intro: delivery_ok_event)
  with e events have e': "e \<in> set (ob_events db)" by auto
  with ok have "0 \<le> er_enqueued_at_ms e"
    by (auto simp: outbox_ok_def stored_event_def event_row_of_def)
  moreover have "er_enqueued_at_ms e < int (unat (u64_saturating_sub enqueued DEFAULT_COOLDOWN_MS))"
    using none [OF cat] d e e' r(1) by (auto simp: recent_duplicate_def list_ex_iff deliveries not_le)
  ultimately show "er_enqueued_at_ms e + int (unat DEFAULT_COOLDOWN_MS) < er_enqueued_at_ms r"
    unfolding r(2) by (rule saturating_sub_before)
qed

lemma validate_destinations_Inr: "validate_destinations ds = Inr u \<longleftrightarrow> ds \<noteq> [] \<and> length ds \<le> 32 \<and> distinct ds"
  by (auto simp: validate_destinations_def MAX_DESTINATIONS_def length_remdups_card_conv
      distinct_card card_distinct)

text \<open>
  A successful enqueueing: nothing is written when every destination is cooling down, otherwise the
  event and one pending delivery per kept destination, due at once.
\<close>

lemma outbox_enqueue_Inr:
  assumes ok: "outbox_ok E (ns_connection s)" and cooldown: "ns_cooldown_ms s = DEFAULT_COOLDOWN_MS"
    and run: "outbox_enqueue sqlite_ok event destinations enqueued s = (Inr n, s')"
  shows "outbox_ok (insert event E) (ns_connection s') \<and> ns_cooldown_ms s' = DEFAULT_COOLDOWN_MS \<and>
    (\<exists>new. ob_deliveries (ns_connection s') = ob_deliveries (ns_connection s) @ new \<and> n = length new \<and>
       (if ne_category event = Recovery then map dr_destination_id new = destinations
        else map dr_destination_id new = filter (\<lambda>d. \<not> recent_duplicate (ns_connection s) d (ne_dedupe_key event)
               (int (unat (u64_saturating_sub enqueued DEFAULT_COOLDOWN_MS)))) destinations) \<and>
       (\<forall>d \<in> set new. dr_event_id d = ne_event_id event \<and> is_pending d \<and>
          dr_next_attempt_at_ms d = int (unat enqueued)))"
proof -
  let ?db = "ns_connection s"
  let ?start = "u64_saturating_sub enqueued DEFAULT_COOLDOWN_MS"
  from run cooldown obtain until eligible where
    dest: "distinct destinations"
    and until: "u64_checked_add enqueued (retry_lifetime (ne_severity event)) = Some until"
    and eligible: "eligible_destinations ?db event destinations ?start = Inr eligible"
    and rest: "(eligible = [] \<and> n = 0 \<and> s' = s) \<or> (eligible \<noteq> [] \<and> n = length eligible \<and>
      (\<exists>db1 db2. insert_event event enqueued ?db = Inr db1 \<and>
        insert_deliveries (ne_event_id event) enqueued until eligible db1 = Inr db2 \<and>
        s' = s\<lparr>ns_connection := db2\<rparr>))"
    by (auto simp: outbox_enqueue_def Let_def bindE_Inr ok_or_Inr validate_destinations_Inr
        split: sum.splits prod.splits if_splits)
  have sel: "if ne_category event = Recovery then eligible = destinations
      else eligible = filter (\<lambda>d. \<not> recent_duplicate ?db d (ne_dedupe_key event) (int (unat ?start))) destinations"
    using eligible eligible_loop_Inr [of ?db "ne_dedupe_key event" ?start destinations eligible]
    by (auto simp: eligible_destinations_def split: if_splits)
  from rest show ?thesis
  proof (elim disjE conjE exE)
    assume "eligible = []" "n = 0" "s' = s"
    with ok sel cooldown show ?thesis
      by (auto intro: outbox_ok_mono simp: filter_empty_conv split: if_splits)
  next
    fix db1 db2
    assume ne: "eligible \<noteq> []" "n = length eligible"
      and ins: "insert_event event enqueued ?db = Inr db1"
        "insert_deliveries (ne_event_id event) enqueued until eligible db1 = Inr db2"
      and s': "s' = s\<lparr>ns_connection := db2\<rparr>"
    note ev = insert_event_ok [OF ok ins(1)]
    from ev(3) obtain r where r: "ob_events db1 = ob_events ?db @ [r]"
        "r = event_row_of event (int (unat (ne_occurred_at_ms event))) (int (unat enqueued))"
        "ne_event_id event \<notin> er_event_id ` set (ob_events ?db)"
      by blast
    have flds: "er_event_id r = ne_event_id event" "er_severity r = int (severity_code (ne_severity event))"
        "er_enqueued_at_ms r = int (unat enqueued)" "er_dedupe_key r = ne_dedupe_key event"
        "er_category r = int (category_code (ne_category event))"
      by (simp_all add: r(2) event_row_of_def)
    have "distinct eligible" using sel dest by (auto split: if_splits)
    moreover have "\<forall>d \<in> set eligible. cool_for db1 r d"
    proof
      fix d
      assume d: "d \<in> set eligible"
      show "cool_for db1 r d"
      proof (rule cool_for_eligible [OF ok ev(2) r(1) _ flds(4) flds(3)])
        show "er_event_id r \<notin> er_event_id ` set (ob_events ?db)" using r(3) flds(1) by simp
      next
        assume "er_category r \<noteq> int (category_code Recovery)"
        with flds(5) have "ne_category event \<noteq> Recovery" by auto
        with sel d show "\<not> recent_duplicate ?db d (ne_dedupe_key event) (int (unat ?start))" by auto
      qed
    qed
    moreover have "unat until = unat enqueued + retry_lifetime_ms (ne_severity event)"
      using u64_checked_add_unat [OF until] by (simp add: retry_lifetime_ms_def)
    moreover have "r \<in> set (ob_events db1)" using r(1) by simp
    ultimately obtain new where
      "outbox_ok (insert event E) db2" "ob_deliveries db2 = ob_deliveries db1 @ new"
      "map dr_destination_id new = eligible"
      "\<forall>d \<in> set new. dr_event_id d = ne_event_id event \<and> is_pending d \<and> dr_next_attempt_at_ms d = int (unat enqueued)"
      using insert_deliveries_ok [OF ev(1) ins(2) [folded flds(1)]] flds by metis
    moreover from this have "n = length new" using ne(2) by (metis length_map)
    ultimately show ?thesis
      using sel ev(2) cooldown by (auto simp: s')
  qed
qed

section \<open>What is due\<close>

text \<open>The one event row of a delivery.\<close>

definition event_for :: "outbox_db \<Rightarrow> delivery_row \<Rightarrow> event_row" where
  "event_for db d = hd (filter (\<lambda>e. er_event_id e = dr_event_id d) (ob_events db))"

lemma filter_unique:
  "distinct (map f xs) \<Longrightarrow> x \<in> set xs \<Longrightarrow> filter (\<lambda>y. f y = f x) xs = [x]"
  by (induction xs) (auto simp: filter_empty_conv image_iff)

lemma event_for_ok:
  assumes ok: "outbox_ok E db" and d: "d \<in> set (ob_deliveries db)"
  shows "filter (\<lambda>e. er_event_id e = dr_event_id d) (ob_events db) = [event_for db d]"
    and "event_for db d \<in> set (ob_events db)" "er_event_id (event_for db d) = dr_event_id d"
    and "stored_event E (event_for db d)"
proof -
  from ok d obtain e where e: "e \<in> set (ob_events db)" "er_event_id e = dr_event_id d"
    using delivery_ok_event [of "ob_events db" d] by (auto simp: outbox_ok_def)
  have f: "filter (\<lambda>e. er_event_id e = dr_event_id d) (ob_events db) = [e]"
    using filter_unique [of er_event_id "ob_events db" e] e ok by (simp add: outbox_ok_def)
  then have e': "event_for db d = e" by (simp add: event_for_def)
  then show "filter (\<lambda>e. er_event_id e = dr_event_id d) (ob_events db) = [event_for db d]"
    using f by simp
  from e e' show "event_for db d \<in> set (ob_events db)" "er_event_id (event_for db d) = dr_event_id d"
    by simp_all
  from e e' ok show "stored_event E (event_for db d)" by (simp add: outbox_ok_def)
qed

lemma joined_rows_ok:
  assumes "outbox_ok E db"
  shows "joined_rows db = map (\<lambda>d. (d, event_for db d)) (ob_deliveries db)"
proof -
  have "map (\<lambda>d. map (Pair d) (filter (\<lambda>e. er_event_id e = dr_event_id d) (ob_events db))) (ob_deliveries db) =
      map (\<lambda>d. [(d, event_for db d)]) (ob_deliveries db)"
    by (rule map_cong [OF refl]) (simp add: event_for_ok(1) [OF assms])
  then show ?thesis by (simp only: joined_rows_def concat_map_singleton)
qed

text \<open>The deliveries of a due sweep: pending, due, oldest first, at most \<open>n\<close>.\<close>

definition due_deliveries :: "int \<Rightarrow> nat \<Rightarrow> outbox_db \<Rightarrow> delivery_row list" where
  "due_deliveries now n db =
     take n (sort_key dr_next_attempt_at_ms
       (filter (\<lambda>d. is_pending d \<and> dr_next_attempt_at_ms d \<le> now) (ob_deliveries db)))"

lemma sort_key_map: "sort_key f (map g xs) = map g (sort_key (\<lambda>x. f (g x)) xs)"
proof -
  have "insort_key f (g x) (map g ys) = map g (insort_key (\<lambda>x. f (g x)) x ys)" for x ys
    by (induction ys) auto
  then show ?thesis by (induction xs) auto
qed

lemma due_rows_ok:
  assumes "outbox_ok E db"
  shows "due_rows now n db = map (\<lambda>d. (d, event_for db d)) (due_deliveries now n db)"
proof -
  let ?p = "\<lambda>d. is_pending d \<and> dr_next_attempt_at_ms d \<le> now"
  have "sorted_wrt (<) (map dr_id (filter ?p (ob_deliveries db)))"
    using assms by (simp add: outbox_ok_def sorted_wrt_map sorted_wrt_filter)
  then have "sorted (map dr_id (filter ?p (ob_deliveries db)))" by (simp add: strict_sorted_iff)
  then have "sort_key dr_id (filter ?p (ob_deliveries db)) = filter ?p (ob_deliveries db)"
    by (rule sort_key_id_if_sorted)
  then show ?thesis
    by (simp add: due_rows_def due_deliveries_def joined_rows_ok [OF assms] filter_map comp_def
        sort_key_map take_map)
qed

text \<open>A stored event is read back as it was given.\<close>

lemma column_u8_nat [simp]: "n < 256 \<Longrightarrow> column_u8 (int n) = Inr n"
  by (simp add: column_u8_def)

lemma time_from_i64_uint [simp]: "time_from_i64 (uint w) = Inr w"
  by (simp add: time_from_i64_def)

lemma u32_try_from_uint [simp]: "u32_try_from (uint (w :: u32)) = Inr w"
  using uint_bounded [of w] by (simp add: u32_try_from_def)

lemma decode_stored:
  assumes ok: "outbox_ok E db" and d: "d \<in> set (ob_deliveries db)" and typed: "\<forall>e \<in> E. event_typed e"
  shows "\<exists>event \<in> E. ne_event_id event = dr_event_id d \<and>
    decode_delivery (d, event_for db d) = Inr \<lparr>de_id = dr_id d, de_destination_id = dr_destination_id d,
      de_attempt_count = of_int (dr_attempt_count d), de_event = event\<rparr>"
proof -
  have row: "delivery_ok (ob_events db) d" "0 < dr_id d" using ok d by (auto simp: outbox_ok_def)
  then obtain k sev where "dr_attempt_count d = int k" "retry_schedule (k - 1) \<le> retry_lifetime_ms sev"
    unfolding delivery_ok_def by blast
  then have k: "dr_attempt_count d = int k" "k < 2 ^ 32" using attempts_small [of k sev] by auto
  from event_for_ok(4) [OF ok d] obtain event q where ev: "event \<in> E" "unat (ne_occurred_at_ms event) < 2 ^ 63"
    "event_for db d = event_row_of event (int (unat (ne_occurred_at_ms event))) (int q)"
    unfolding stored_event_def by blast
  then have "event_typed event" using typed by blast
  then have "decode_delivery (d, event_for db d) = Inr \<lparr>de_id = dr_id d, de_destination_id = dr_destination_id d,
      de_attempt_count = of_int (dr_attempt_count d), de_event = event\<rparr>"
    using row k ev(2) unfolding ev(3)
    by (cases "ne_account_local_id event")
      (simp_all add: decode_delivery_def decode_delivery_inner_def event_row_of_def delivery_id_from_stored_def
        id_from_slice_def u32_try_from_nat delivery_ok_def delivery_row_check_def account_id_from_stored_def
        state_transition_new_def text_ok_def event_typed_def notification_event_new_def)
  moreover have "ne_event_id event = dr_event_id d"
    using event_for_ok(3) [OF ok d] ev(3) by (simp add: event_row_of_def)
  ultimately show ?thesis using ev(1) by blast
qed

text \<open>The delivery a row stands for, with an event of \<open>E\<close>.\<close>

definition reads_as :: "notification_event set \<Rightarrow> delivery_row \<Rightarrow> delivery \<Rightarrow> bool" where
  "reads_as E d x \<longleftrightarrow> de_id x = dr_id d \<and> de_destination_id x = dr_destination_id d \<and>
     int (unat (de_attempt_count x)) = dr_attempt_count d \<and> de_event x \<in> E \<and>
     ne_event_id (de_event x) = dr_event_id d"

lemma due_deliveries_sub: "set (due_deliveries now n db) \<subseteq>
    {d \<in> set (ob_deliveries db). is_pending d \<and> dr_next_attempt_at_ms d \<le> now}"
  by (auto simp: due_deliveries_def dest: in_set_takeD)

lemma due_deliveries_distinct:
  assumes "outbox_ok E db"
  shows "distinct (map dr_id (due_deliveries now n db))"
proof -
  let ?ds = "filter (\<lambda>d. is_pending d \<and> dr_next_attempt_at_ms d \<le> now) (ob_deliveries db)"
  have "distinct (map dr_id (ob_deliveries db))" using assms by (simp add: outbox_ok_def strict_sorted_iff)
  then have "distinct (map dr_id ?ds)" by (rule distinct_map_filter)
  then have "distinct (map dr_id (sort_key dr_next_attempt_at_ms ?ds))"
    by (simp add: distinct_map)
  then show ?thesis unfolding due_deliveries_def by (simp flip: take_map)
qed

lemma outbox_due_ok:
  assumes ok: "outbox_ok E (ns_connection s)" and typed: "\<forall>e \<in> E. event_typed e"
    and n: "0 < n" "n \<le> 100" and now: "unat now < 2 ^ 63"
  shows "\<exists>xs. outbox_due True now n s = Inr xs \<and>
    list_all2 (reads_as E) (due_deliveries (int (unat now)) n (ns_connection s)) xs"
proof -
  let ?db = "ns_connection s"
  let ?ds = "due_deliveries (int (unat now)) n ?db"
  have "\<exists>xs. map decode_delivery (map (\<lambda>d. (d, event_for ?db d)) ds) = map Inr xs \<and> list_all2 (reads_as E) ds xs"
    if "set ds \<subseteq> set (ob_deliveries ?db)" for ds
    using that
  proof (induction ds)
    case Nil
    then show ?case by simp
  next
    case (Cons d ds)
    then obtain xs where xs: "map decode_delivery (map (\<lambda>d. (d, event_for ?db d)) ds) = map Inr xs"
      "list_all2 (reads_as E) ds xs" by auto
    have d: "d \<in> set (ob_deliveries ?db)" using Cons.prems by simp
    then obtain k sev where "dr_attempt_count d = int k" "retry_schedule (k - 1) \<le> retry_lifetime_ms sev"
      using ok unfolding outbox_ok_def delivery_ok_def by blast
    then have "int (unat (of_int (dr_attempt_count d) :: u32)) = dr_attempt_count d"
      using attempts_small [of k sev] by (simp add: unat_of_nat)
    with decode_stored [OF ok d typed] obtain x where
      "decode_delivery (d, event_for ?db d) = Inr x" "reads_as E d x" by (auto simp: reads_as_def)
    with xs show ?case by (intro exI [of _ "x # xs"]) simp
  qed
  from this [of ?ds] due_deliveries_sub obtain xs where
    "map decode_delivery (map (\<lambda>d. (d, event_for ?db d)) ?ds) = map Inr xs" "list_all2 (reads_as E) ?ds xs"
    by blast
  then show ?thesis
    using n now by (intro exI [of _ xs])
      (simp add: outbox_due_def DELIVERY_BATCH_LIMIT_def time_to_i64_def due_rows_ok [OF ok] collect_results_Inr
        del: map_map)
qed

end
