(* ===== verification/Notify_Runtime.thy ===== *)
theory Notify_Runtime
  imports Outbox Btree
begin

text \<open>
  The notification worker, \<open>crates/notify-runtime/src/runtime.rs\<close>, with the adapter interface and the
  renderings of \<open>adapter/mod.rs\<close> and the parts of \<open>adapter/bark.rs\<close>, \<open>adapter/webhook.rs\<close> and
  \<open>adapter/smtp.rs\<close> that do not belong to the HTTP, SMTP, URL or JSON libraries.

  One attempt of an adapter on the network is a parameter: whether it is accepted, and the error
  otherwise, for each destination, event and time of a sweep.
\<close>

section \<open>Adapters\<close>

datatype adapter_error = AConfiguration | ATransport | ARejected

fun adapter_error_code :: "adapter_error \<Rightarrow> u32" where
  "adapter_error_code AConfiguration = 1"
| "adapter_error_code ATransport = 2"
| "adapter_error_code ARejected = 3"

fun source_name :: "event_source \<Rightarrow> rstr" where
  "source_name SrcCeylith = lit ''ceylith''"
| "source_name SrcQq = lit ''qq''"
| "source_name SrcAccount = lit ''account''"
| "source_name SrcLirvena = lit ''lirvena''"

fun category_name :: "event_category \<Rightarrow> rstr" where
  "category_name Authorization = lit ''authorization''"
| "category_name Continuity = lit ''continuity''"
| "category_name RiskControl = lit ''risk_control''"
| "category_name WorkerCategory = lit ''worker''"
| "category_name Recovery = lit ''recovery''"

fun severity_name :: "severity \<Rightarrow> rstr" where
  "severity_name Info = lit ''info''"
| "severity_name Warning = lit ''warning''"
| "severity_name Critical = lit ''critical''"

fun state_name :: "event_state \<Rightarrow> rstr" where
  "state_name StCurrent = lit ''current''"
| "state_name StExpiring = lit ''expiring''"
| "state_name StPaused = lit ''paused''"
| "state_name StRevoked = lit ''revoked''"
| "state_name StUnavailable = lit ''unavailable''"
| "state_name StProtectiveOffline = lit ''protective_offline''"
| "state_name StRecovering = lit ''recovering''"
| "state_name StActive = lit ''active''"
| "state_name StStopped = lit ''stopped''"
| "state_name StFailed = lit ''failed''"

definition hex_lower :: "nat \<Rightarrow> u8" where
  "hex_lower d = of_nat (if d < 10 then 0x30 + d else 0x61 + (d - 10))"

definition encode_hex :: "bytes \<Rightarrow> rstr" where
  "encode_hex bs = concat (map (\<lambda>b. [hex_lower (unat b div 16), hex_lower (unat b mod 16)]) bs)"

text \<open>The Bark level, and what \<open>BarkConfig::new\<close> checks besides the URL; \<open>parse\<close> is the URL library.\<close>

datatype bark_level = BarkCritical | BarkActive | BarkTimeSensitive | BarkPassive

fun bark_level_name :: "bark_level \<Rightarrow> rstr" where
  "bark_level_name BarkCritical = lit ''critical''"
| "bark_level_name BarkActive = lit ''active''"
| "bark_level_name BarkTimeSensitive = lit ''timeSensitive''"
| "bark_level_name BarkPassive = lit ''passive''"

fun default_level :: "severity \<Rightarrow> bark_level" where
  "default_level Info = BarkPassive"
| "default_level Warning = BarkTimeSensitive"
| "default_level Critical = BarkCritical"

record parsed_url =
  pu_scheme :: rstr
  pu_username :: rstr
  pu_password :: "rstr option"
  pu_query :: "rstr option"
  pu_fragment :: "rstr option"
  pu_text :: rstr

definition parse_server_url :: "(rstr \<Rightarrow> parsed_url option) \<Rightarrow> rstr \<Rightarrow> adapter_error + parsed_url" where
  "parse_server_url parse v =
     bindE (ok_or AConfiguration (parse v)) (\<lambda>u.
     if pu_scheme u \<notin> {lit ''http'', lit ''https''} \<or> pu_username u \<noteq> [] \<or> pu_password u \<noteq> None \<or>
        pu_query u \<noteq> None \<or> pu_fragment u \<noteq> None
     then Inl AConfiguration else Inr u)"

definition parse_endpoint :: "(rstr \<Rightarrow> parsed_url option) \<Rightarrow> rstr \<Rightarrow> adapter_error + parsed_url" where
  "parse_endpoint parse v =
     bindE (ok_or AConfiguration (parse v)) (\<lambda>u.
     if pu_scheme u \<notin> {lit ''http'', lit ''https''} \<or> pu_username u \<noteq> [] \<or> pu_password u \<noteq> None \<or>
        pu_fragment u \<noteq> None
     then Inl AConfiguration else Inr u)"

definition validate_optional :: "rstr option \<Rightarrow> nat \<Rightarrow> adapter_error + unit" where
  "validate_optional v maximum =
     (case v of None \<Rightarrow> Inr ()
      | Some t \<Rightarrow> if t = [] \<or> maximum < length t \<or> list_ex is_control (chars t)
                   then Inl AConfiguration else Inr ())"

definition validate_secret :: "rstr \<Rightarrow> nat \<Rightarrow> adapter_error + unit" where
  "validate_secret v maximum =
     (if v = [] \<or> maximum < length v \<or> list_ex is_whitespace (chars v)
      then Inl AConfiguration else Inr ())"

record bark_config =
  bk_destination_id :: bytes
  bk_server_url :: rstr
  bk_device_key :: rstr
  bk_group :: "rstr option"
  bk_level :: "bark_level option"
  bk_url :: "rstr option"
  bk_ciphertext :: "rstr option"

definition bark_config_new ::
    "(rstr \<Rightarrow> parsed_url option) \<Rightarrow> bytes \<Rightarrow> rstr \<Rightarrow> rstr \<Rightarrow> rstr option \<Rightarrow> bark_level option \<Rightarrow> rstr option \<Rightarrow>
     rstr option \<Rightarrow> adapter_error + bark_config" where
  "bark_config_new parse destination_id server_url device_key group_name level url ciphertext =
     bindE (parse_server_url parse server_url) (\<lambda>parsed.
     bindE (validate_secret device_key 256) (\<lambda>_.
     bindE (validate_optional group_name 128) (\<lambda>_.
     bindE (validate_optional url 2048) (\<lambda>_.
     bindE (case ciphertext of None \<Rightarrow> Inr () | Some c \<Rightarrow> validate_secret c 8192) (\<lambda>_.
     Inr \<lparr>bk_destination_id = destination_id, bk_server_url = pu_text parsed, bk_device_key = device_key,
          bk_group = group_name, bk_level = level, bk_url = url, bk_ciphertext = ciphertext\<rparr>)))))"

record bark_payload =
  bp_title :: rstr
  bp_body :: rstr
  bp_device_key :: rstr
  bp_group :: "rstr option"
  bp_level :: "rstr option"
  bp_url :: "rstr option"
  bp_ciphertext :: "rstr option"

text \<open>The payload \<open>BarkAdapter::deliver\<close> posts; the title's separator is U+00B7 in UTF-8.\<close>

definition bark_payload_of :: "bark_config \<Rightarrow> notification_event \<Rightarrow> bark_payload" where
  "bark_payload_of c event =
     \<lparr>bp_title = lit ''Lirvena '' @ [0xC2, 0xB7] @ lit '' '' @ severity_name (ne_severity event),
      bp_body = ne_human_summary event @ [0x0A] @ ne_next_action event,
      bp_device_key = bk_device_key c, bp_group = bk_group c,
      bp_level = Some (bark_level_name (case bk_level c of Some l \<Rightarrow> l | None \<Rightarrow> default_level (ne_severity event))),
      bp_url = bk_url c, bp_ciphertext = bk_ciphertext c\<rparr>"

text \<open>The canonical JSON object of the webhook, its signature under HMAC-SHA256 \<open>mac\<close>.\<close>

record canonical_event =
  ce_event_id :: rstr
  ce_occurred_at :: u64
  ce_source :: rstr
  ce_category :: rstr
  ce_severity :: rstr
  ce_account_local_id :: "rstr option"
  ce_reason_code :: u32
  ce_previous :: rstr
  ce_current :: rstr
  ce_human_summary :: rstr
  ce_next_action :: rstr
  ce_dedupe_key :: rstr

definition canonical_of :: "notification_event \<Rightarrow> canonical_event" where
  "canonical_of event =
     \<lparr>ce_event_id = encode_hex (ne_event_id event), ce_occurred_at = ne_occurred_at_ms event,
      ce_source = source_name (ne_source event), ce_category = category_name (ne_category event),
      ce_severity = severity_name (ne_severity event),
      ce_account_local_id = map_option encode_hex (ne_account_local_id event),
      ce_reason_code = ne_reason_code event,
      ce_previous = state_name (st_previous (ne_transition event)),
      ce_current = state_name (st_current (ne_transition event)),
      ce_human_summary = ne_human_summary event, ce_next_action = ne_next_action event,
      ce_dedupe_key = encode_hex (ne_dedupe_key event)\<rparr>"

definition webhook_signature :: "(bytes \<Rightarrow> bytes \<Rightarrow> bytes) \<Rightarrow> bytes \<Rightarrow> rstr \<Rightarrow> bytes \<Rightarrow> rstr" where
  "webhook_signature mac secret timestamp body =
     lit ''sha256='' @ encode_hex (mac secret (timestamp @ [0x0A] @ body))"

text \<open>The subject and plain text of the mail.\<close>

definition mail_subject :: "notification_event \<Rightarrow> rstr" where
  "mail_subject event =
     lit ''[Lirvena] '' @ severity_name (ne_severity event) @ lit '' '' @ category_name (ne_category event)"

definition mail_plain :: "notification_event \<Rightarrow> rstr" where
  "mail_plain event =
     ne_human_summary event @ [0x0A, 0x0A] @ lit ''Source: '' @ source_name (ne_source event) @ [0x0A] @
     lit ''State: '' @ state_name (st_previous (ne_transition event)) @ lit '' -> '' @
     state_name (st_current (ne_transition event)) @ [0x0A] @ lit ''Next action: '' @ ne_next_action event @
     [0x0A] @ lit ''Event: '' @ encode_hex (ne_event_id event) @ [0x0A]"

text \<open>The HTML alternative; \<open>esc\<close> is \<open>html_escape::encode_text\<close>.\<close>

definition mail_html :: "(rstr \<Rightarrow> rstr) \<Rightarrow> notification_event \<Rightarrow> rstr" where
  "mail_html esc event =
     lit ''<!doctype html><html><body><h1>Lirvena</h1><p>'' @ esc (ne_human_summary event) @
     lit ''</p><dl><dt>Source</dt><dd>'' @ source_name (ne_source event) @
     lit ''</dd><dt>State</dt><dd>'' @ state_name (st_previous (ne_transition event)) @ lit '' &rarr; '' @
     state_name (st_current (ne_transition event)) @
     lit ''</dd></dl><p><strong>Next action:</strong> '' @ esc (ne_next_action event) @
     lit ''</p><p>Event: '' @ encode_hex (ne_event_id event) @ lit ''</p></body></html>''"

record webhook_config =
  wk_destination_id :: bytes
  wk_endpoint :: rstr
  wk_headers :: "(rstr \<times> rstr) list"
  wk_hmac_secret :: "bytes option"

definition EVENT_ID_HEADER :: rstr where
  "EVENT_ID_HEADER = lit ''x-lirvena-event-id''"

definition TIMESTAMP_HEADER :: rstr where
  "TIMESTAMP_HEADER = lit ''x-lirvena-timestamp''"

definition SIGNATURE_HEADER :: rstr where
  "SIGNATURE_HEADER = lit ''x-lirvena-signature''"

definition MAX_STATIC_HEADERS :: nat where
  "MAX_STATIC_HEADERS = 16"

definition is_reserved_header :: "rstr \<Rightarrow> bool" where
  "is_reserved_header h \<longleftrightarrow>
     h \<in> {lit ''host'', lit ''content-length'', lit ''content-type'', lit ''transfer-encoding'', lit ''connection''} \<or>
     h \<in> {EVENT_ID_HEADER, TIMESTAMP_HEADER, SIGNATURE_HEADER}"

text \<open>
  The loop over the static headers; \<open>name_of\<close> and \<open>value_of\<close> are \<open>HeaderName::from_bytes\<close>, which
  normalises, and \<open>HeaderValue::from_str\<close>.
\<close>

fun collect_headers ::
    "(rstr \<Rightarrow> rstr option) \<Rightarrow> (rstr \<Rightarrow> rstr option) \<Rightarrow> (rstr \<times> rstr) list \<Rightarrow> (rstr \<times> rstr) list \<Rightarrow>
     adapter_error + (rstr \<times> rstr) list" where
  "collect_headers name_of value_of headers [] = Inr headers"
| "collect_headers name_of value_of headers ((n, v) # rest) =
     bindE (ok_or AConfiguration (name_of n)) (\<lambda>h.
     if is_reserved_header h \<or> h \<in> set (map fst headers) then Inl AConfiguration
     else bindE (ok_or AConfiguration (value_of v)) (\<lambda>w.
       collect_headers name_of value_of (headers @ [(h, w)]) rest))"

definition webhook_config_new ::
    "(rstr \<Rightarrow> parsed_url option) \<Rightarrow> (rstr \<Rightarrow> rstr option) \<Rightarrow> (rstr \<Rightarrow> rstr option) \<Rightarrow> bytes \<Rightarrow> rstr \<Rightarrow>
     (rstr \<times> rstr) list \<Rightarrow> bytes option \<Rightarrow> adapter_error + webhook_config" where
  "webhook_config_new parse name_of value_of destination_id endpoint static_headers hmac_secret =
     bindE (parse_endpoint parse endpoint) (\<lambda>parsed.
     if MAX_STATIC_HEADERS < length static_headers \<or> hmac_secret = Some [] then Inl AConfiguration
     else bindE (collect_headers name_of value_of [] static_headers) (\<lambda>headers.
       Inr \<lparr>wk_destination_id = destination_id, wk_endpoint = pu_text parsed, wk_headers = headers,
            wk_hmac_secret = hmac_secret\<rparr>))"

datatype smtp_security = StartTls | ImplicitTls

record smtp_config =
  sm_destination_id :: bytes
  sm_host :: rstr
  sm_port :: u16
  sm_security :: smtp_security
  sm_username :: "rstr option"
  sm_password :: "rstr option"
  sm_from :: rstr
  sm_to :: rstr

definition smtp_config_new ::
    "(rstr \<Rightarrow> bool) \<Rightarrow> bytes \<Rightarrow> rstr \<Rightarrow> u16 \<Rightarrow> smtp_security \<Rightarrow> rstr option \<Rightarrow> rstr option \<Rightarrow> rstr \<Rightarrow> rstr \<Rightarrow>
     adapter_error + smtp_config" where
  "smtp_config_new mailbox_ok destination_id host port security username password sender recipient =
     (if host = [] \<or> 253 < length host \<or> list_ex is_whitespace (chars host) \<or> port = 0 \<or>
         (username \<noteq> None) \<noteq> (password \<noteq> None) \<or> username = Some [] \<or> password = Some [] \<or>
         \<not> mailbox_ok sender \<or> \<not> mailbox_ok recipient
      then Inl AConfiguration
      else Inr \<lparr>sm_destination_id = destination_id, sm_host = host, sm_port = port, sm_security = security,
                sm_username = username, sm_password = password, sm_from = sender, sm_to = recipient\<rparr>)"

datatype notification_adapter = BarkAdapter bark_config | WebhookAdapter webhook_config | SmtpAdapter smtp_config

fun adapter_destination_id :: "notification_adapter \<Rightarrow> bytes" where
  "adapter_destination_id (BarkAdapter c) = bk_destination_id c"
| "adapter_destination_id (WebhookAdapter c) = wk_destination_id c"
| "adapter_destination_id (SmtpAdapter c) = sm_destination_id c"

section \<open>One delivery attempt\<close>

text \<open>What an adapter hands to its library.\<close>

datatype outgoing =
    BarkPush rstr bark_payload
  | WebhookPost rstr "(rstr \<times> rstr) list" bytes
  | Mail smtp_config rstr rstr rstr

text \<open>
  The libraries: HMAC-SHA256, the JSON serialiser, the HTML escaping, the mail builder, and the
  network, which fails (\<open>None\<close>) or answers with success or not.
\<close>

record adapter_libs =
  al_mac :: "bytes \<Rightarrow> bytes \<Rightarrow> bytes"
  al_json :: "canonical_event \<Rightarrow> bytes option"
  al_escape :: "rstr \<Rightarrow> rstr"
  al_mail_builds :: "rstr \<Rightarrow> rstr \<Rightarrow> rstr \<Rightarrow> bool"

type_synonym network = "outgoing \<Rightarrow> bool option"

definition http_outcome :: "bool option \<Rightarrow> adapter_error + unit" where
  "http_outcome r = (case r of None \<Rightarrow> Inl ATransport | Some ok \<Rightarrow> if ok then Inr () else Inl ARejected)"

definition bark_deliver :: "network \<Rightarrow> bark_config \<Rightarrow> notification_event \<Rightarrow> adapter_error + unit" where
  "bark_deliver net c event = http_outcome (net (BarkPush (bk_server_url c) (bark_payload_of c event)))"

definition webhook_headers ::
    "adapter_libs \<Rightarrow> webhook_config \<Rightarrow> notification_event \<Rightarrow> u64 \<Rightarrow> bytes \<Rightarrow> (rstr \<times> rstr) list" where
  "webhook_headers libs c event at body =
     wk_headers c @
     [(lit ''content-type'', lit ''application/json; charset=utf-8''),
      (EVENT_ID_HEADER, encode_hex (ne_event_id event)), (TIMESTAMP_HEADER, decimal (unat at))] @
     (case wk_hmac_secret c of None \<Rightarrow> []
      | Some secret \<Rightarrow> [(SIGNATURE_HEADER, webhook_signature (al_mac libs) secret (decimal (unat at)) body)])"

definition webhook_deliver ::
    "adapter_libs \<Rightarrow> network \<Rightarrow> webhook_config \<Rightarrow> notification_event \<Rightarrow> u64 \<Rightarrow> adapter_error + unit" where
  "webhook_deliver libs net c event at =
     bindE (ok_or AConfiguration (al_json libs (canonical_of event))) (\<lambda>body.
     http_outcome (net (WebhookPost (wk_endpoint c) (webhook_headers libs c event at body) body)))"

definition smtp_deliver ::
    "adapter_libs \<Rightarrow> network \<Rightarrow> smtp_config \<Rightarrow> notification_event \<Rightarrow> adapter_error + unit" where
  "smtp_deliver libs net c event =
     (let subject = mail_subject event; plain = mail_plain event; html = mail_html (al_escape libs) event in
      if \<not> al_mail_builds libs subject plain html then Inl AConfiguration
      else if net (Mail c subject plain html) = Some True then Inr () else Inl ATransport)"

definition adapter_deliver ::
    "adapter_libs \<Rightarrow> network \<Rightarrow> notification_adapter \<Rightarrow> delivery \<Rightarrow> u64 \<Rightarrow> adapter_error + unit" where
  "adapter_deliver libs net adapter x at =
     (if de_destination_id x \<noteq> adapter_destination_id adapter then Inl AConfiguration
      else case adapter of
        BarkAdapter c \<Rightarrow> bark_deliver net c (de_event x)
      | WebhookAdapter c \<Rightarrow> webhook_deliver libs net c (de_event x) at
      | SmtpAdapter c \<Rightarrow> smtp_deliver libs net c (de_event x))"

section \<open>The worker\<close>

definition MAX_NOTIFY_QUEUE_CAPACITY :: nat where
  "MAX_NOTIFY_QUEUE_CAPACITY = 1024"

definition DELIVERY_BATCH :: nat where
  "DELIVERY_BATCH = 100"

record notify_config =
  nc_state_directory :: rstr
  nc_adapters :: "notification_adapter list"
  nc_queue_capacity :: nat

definition notify_config_new ::
    "rstr \<Rightarrow> notification_adapter list \<Rightarrow> nat \<Rightarrow> notification_error + notify_config" where
  "notify_config_new state_directory adapters queue_capacity =
     (if state_directory = [] \<or> adapters = [] \<or> queue_capacity = 0 \<or> MAX_NOTIFY_QUEUE_CAPACITY < queue_capacity
      then Inl NConfiguration
      else if \<not> distinct (map adapter_destination_id adapters) then Inl NConfiguration
      else Inr \<lparr>nc_state_directory = state_directory, nc_adapters = adapters,
                nc_queue_capacity = queue_capacity\<rparr>)"

type_synonym adapters = "(bytes, notification_adapter) btree_map"

text \<open>The adapters by destination, as \<open>spawn_notification_runtime\<close> collects them.\<close>

definition adapters_of :: "notification_adapter list \<Rightarrow> adapters" where
  "adapters_of as = foldl (\<lambda>m a. btree_insert (adapter_destination_id a) a m) [] as"

record delivery_sweep =
  sw_attempted :: nat
  sw_delivered :: nat
  sw_failed :: nat

text \<open>What the surroundings do during a sweep: SQLite's reading and each of its writes, the network.\<close>

record sweep_world =
  sv_due_ok :: bool
  sv_write_ok :: "int \<Rightarrow> bool"
  sv_network :: network

definition attempt_delivery ::
    "adapter_libs \<Rightarrow> network \<Rightarrow> adapters \<Rightarrow> u64 \<Rightarrow> delivery \<Rightarrow> adapter_error + unit" where
  "attempt_delivery libs net adapters now x =
     (case btree_get adapters (de_destination_id x) of
        Some adapter \<Rightarrow> adapter_deliver libs net adapter x now
      | None \<Rightarrow> Inl AConfiguration)"

fun deliver_loop ::
    "adapter_libs \<Rightarrow> sweep_world \<Rightarrow> adapters \<Rightarrow> u64 \<Rightarrow> delivery list \<Rightarrow> delivery_sweep \<Rightarrow>
     (notification_store, notification_error, delivery_sweep) op" where
  "deliver_loop libs world adapters now [] sweep = retS sweep"
| "deliver_loop libs world adapters now (x # xs) sweep =
     (case attempt_delivery libs (sv_network world) adapters now x of
        Inr _ \<Rightarrow>
          bindS (mark_delivered (sv_write_ok world (de_id x)) (de_id x) now) (\<lambda>_.
          deliver_loop libs world adapters now xs (sweep\<lparr>sw_delivered := sw_delivered sweep + 1\<rparr>))
      | Inl e \<Rightarrow>
          bindS (record_failure (sv_write_ok world (de_id x)) (de_id x) now (adapter_error_code e)) (\<lambda>_.
          deliver_loop libs world adapters now xs (sweep\<lparr>sw_failed := sw_failed sweep + 1\<rparr>)))"

definition deliver_due ::
    "adapter_libs \<Rightarrow> sweep_world \<Rightarrow> adapters \<Rightarrow> u64 \<Rightarrow> (notification_store, notification_error, delivery_sweep) op" where
  "deliver_due libs world adapters now s =
     (case outbox_due (sv_due_ok world) now DELIVERY_BATCH s of
        Inl e \<Rightarrow> (Inl e, s)
      | Inr due \<Rightarrow> deliver_loop libs world adapters now due
          \<lparr>sw_attempted = length due, sw_delivered = 0, sw_failed = 0\<rparr> s)"

text \<open>
  The commands and what wakes the worker. A step takes what the surroundings do: whether SQLite
  enqueues, the world of a sweep, and the system clock, which may stand before 1970.
\<close>

datatype notify_command =
    EnqueueCommand notification_event u64 bool
  | FlushCommand u64
  | ShutdownCommand

datatype notify_input = Received notify_command | ChannelClosed | SweepTick

record notify_env =
  ev_sqlite_ok :: bool
  ev_world :: sweep_world
  ev_clock :: "u64 option"

datatype notify_reply =
    EnqueueReply "notification_error + nat"
  | FlushReply "notification_error + delivery_sweep"
  | ShutdownReply
  | NoReply

record notify_worker =
  nw_store :: notification_store
  nw_running :: bool

fun worker_step ::
    "adapter_libs \<Rightarrow> adapters \<Rightarrow> notify_env \<times> notify_input \<Rightarrow> notify_worker \<Rightarrow> notify_reply \<times> notify_worker" where
  "worker_step libs adapters (env, Received (EnqueueCommand event enqueued_at_ms wants_reply)) w =
     (case outbox_enqueue (ev_sqlite_ok env) event (btree_keys adapters) enqueued_at_ms (nw_store w) of
        (res, s) \<Rightarrow>
          if wants_reply then (EnqueueReply res, w\<lparr>nw_store := s\<rparr>)
          else (NoReply, w\<lparr>nw_store := s, nw_running := is_ok res\<rparr>))"
| "worker_step libs adapters (env, Received (FlushCommand now)) w =
     (case deliver_due libs (ev_world env) adapters now (nw_store w) of
        (res, s) \<Rightarrow> (FlushReply res, w\<lparr>nw_store := s, nw_running := is_ok res\<rparr>))"
| "worker_step libs adapters (env, Received ShutdownCommand) w =
     (ShutdownReply,
      case ev_clock env of
        Some now \<Rightarrow> w\<lparr>nw_store := snd (deliver_due libs (ev_world env) adapters now (nw_store w)),
                       nw_running := False\<rparr>
      | None \<Rightarrow> w\<lparr>nw_running := False\<rparr>)"
| "worker_step libs adapters (env, ChannelClosed) w = (NoReply, w\<lparr>nw_running := False\<rparr>)"
| "worker_step libs adapters (env, SweepTick) w =
     (case ev_clock env of
        None \<Rightarrow> (NoReply, w\<lparr>nw_running := False\<rparr>)
      | Some now \<Rightarrow>
          (case deliver_due libs (ev_world env) adapters now (nw_store w) of
             (res, s) \<Rightarrow> (NoReply, w\<lparr>nw_store := s, nw_running := is_ok res\<rparr>)))"

text \<open>The loop of \<open>run\<close> over what wakes it, until it returns.\<close>

fun worker_run ::
    "adapter_libs \<Rightarrow> adapters \<Rightarrow> (notify_env \<times> notify_input) list \<Rightarrow> notify_worker \<Rightarrow> notify_reply list \<times> notify_worker" where
  "worker_run libs adapters [] w = ([], w)"
| "worker_run libs adapters (x # xs) w =
     (if nw_running w then
        case worker_step libs adapters x w of
          (r, w') \<Rightarrow> (case worker_run libs adapters xs w' of (rs, w'') \<Rightarrow> (r # rs, w''))
      else ([], w))"

definition spawn_notification_runtime ::
    "bool \<Rightarrow> outbox_db \<Rightarrow> notification_error + notify_worker" where
  "spawn_notification_runtime sqlite_ok db =
     bindE (outbox_open sqlite_ok db) (\<lambda>s. Inr \<lparr>nw_store = s, nw_running = True\<rparr>)"

text \<open>
  The bounded queue of the handle, \<open>try_send\<close> from the senders' side: full, closed, or queued.
\<close>

record notify_queue =
  nq_commands :: "notify_command list"
  nq_capacity :: nat
  nq_open :: bool

definition try_enqueue ::
    "notification_event \<Rightarrow> u64 \<Rightarrow> (notify_queue, notification_error, unit) op" where
  "try_enqueue event enqueued_at_ms q =
     (if \<not> nq_open q then (Inl NClosed, q)
      else if nq_capacity q \<le> length (nq_commands q) then (Inl NBusy, q)
      else (Inr (), q\<lparr>nq_commands := nq_commands q @ [EnqueueCommand event enqueued_at_ms False]\<rparr>))"

section \<open>The worker keeps the outbox\<close>

text \<open>The pending delivery \<open>i\<close>, if any, is due at \<open>now\<close>.\<close>

definition due_by :: "outbox_db \<Rightarrow> u64 \<Rightarrow> int \<Rightarrow> bool" where
  "due_by db now i \<longleftrightarrow> (\<forall>d \<in> set (ob_deliveries db). dr_id d = i \<longrightarrow> is_pending d \<longrightarrow>
     dr_next_attempt_at_ms d \<le> int (unat now))"

text \<open>An operation on delivery \<open>i\<close> changes no other row and revives none.\<close>

definition touches_only :: "int \<Rightarrow> notification_store \<Rightarrow> notification_store \<Rightarrow> bool" where
  "touches_only i s s' \<longleftrightarrow> ns_cooldown_ms s' = ns_cooldown_ms s \<and>
     (\<exists>g. ob_deliveries (ns_connection s') = map g (ob_deliveries (ns_connection s)) \<and>
       (\<forall>d. dr_id (g d) = dr_id d \<and> (dr_id d \<noteq> i \<longrightarrow> g d = d)))"

lemma touches_only_refl: "touches_only i s s"
  by (simp add: touches_only_def exI [of _ id])

lemma touches_only_update:
  assumes "update_deliveries p f (ns_connection s) = Inr (n, db)"
    and "\<And>d. dr_id (f d) = dr_id d" "\<And>d. p d \<Longrightarrow> dr_id d = i"
  shows "touches_only i s (s\<lparr>ns_connection := db\<rparr>)"
  using assms unfolding touches_only_def update_deliveries_def
  by (auto split: if_splits intro!: exI [of _ "\<lambda>d. if p d then f d else d"])

lemma touches_only_mark: "touches_only i s (snd (mark_delivered ok i at s))"
  by (auto simp: mark_delivered_def bindE_Inr touches_only_refl intro!: touches_only_update
      split: sum.splits if_splits)

lemma touches_only_record: "touches_only i s (snd (record_failure ok i at code s))"
  by (auto simp: record_failure_def bindE_Inr touches_only_refl intro!: touches_only_update
      split: sum.splits if_splits)

lemma touches_only_due_by:
  "touches_only i s s' \<Longrightarrow> j \<noteq> i \<Longrightarrow> due_by (ns_connection s) now j \<Longrightarrow> due_by (ns_connection s') now j"
  by (auto simp: touches_only_def due_by_def)

lemma touches_only_cooldown: "touches_only i s s' \<Longrightarrow> ns_cooldown_ms s' = ns_cooldown_ms s"
  by (simp add: touches_only_def)

text \<open>One attempt and its record.\<close>

definition settle ::
    "adapter_libs \<Rightarrow> sweep_world \<Rightarrow> adapters \<Rightarrow> u64 \<Rightarrow> delivery \<Rightarrow> (notification_store, notification_error, unit) op" where
  "settle libs world adapters now x =
     (case attempt_delivery libs (sv_network world) adapters now x of
        Inr _ \<Rightarrow> mark_delivered (sv_write_ok world (de_id x)) (de_id x) now
      | Inl e \<Rightarrow> bindS (record_failure (sv_write_ok world (de_id x)) (de_id x) now (adapter_error_code e)) (\<lambda>_. retS ()))"

definition count_attempt ::
    "adapter_libs \<Rightarrow> sweep_world \<Rightarrow> adapters \<Rightarrow> u64 \<Rightarrow> delivery \<Rightarrow> delivery_sweep \<Rightarrow> delivery_sweep" where
  "count_attempt libs world adapters now x sweep =
     (if is_ok (attempt_delivery libs (sv_network world) adapters now x)
      then sweep\<lparr>sw_delivered := sw_delivered sweep + 1\<rparr> else sweep\<lparr>sw_failed := sw_failed sweep + 1\<rparr>)"

lemma deliver_loop_Cons:
  "deliver_loop libs world adapters now (x # xs) sweep =
   bindS (settle libs world adapters now x) (\<lambda>_.
   deliver_loop libs world adapters now xs (count_attempt libs world adapters now x sweep))"
  by (rule ext) (simp add: settle_def count_attempt_def bindS_def retS_def split: sum.splits prod.splits)

lemma settle_store:
  "snd (settle libs world adapters now x s) =
     (case attempt_delivery libs (sv_network world) adapters now x of
        Inr _ \<Rightarrow> snd (mark_delivered (sv_write_ok world (de_id x)) (de_id x) now s)
      | Inl e \<Rightarrow> snd (record_failure (sv_write_ok world (de_id x)) (de_id x) now (adapter_error_code e) s))"
  by (simp add: settle_def bindS_def retS_def split: sum.splits prod.splits)

lemma settle_ok:
  assumes "outbox_ok E (ns_connection s)" and "due_by (ns_connection s) now (de_id x)"
  shows "outbox_ok E (ns_connection (snd (settle libs world adapters now x s)))"
    and "touches_only (de_id x) s (snd (settle libs world adapters now x s))"
  using assms unfolding settle_store
  by (auto simp: due_by_def touches_only_mark touches_only_record split: sum.splits
      intro: mark_delivered_ok record_failure_ok)

lemma deliver_loop_ok:
  assumes "outbox_ok E (ns_connection s)" "distinct (map de_id xs)"
    "\<forall>x \<in> set xs. due_by (ns_connection s) now (de_id x)"
  shows "outbox_ok E (ns_connection (snd (deliver_loop libs world adapters now xs sweep s))) \<and>
    ns_cooldown_ms (snd (deliver_loop libs world adapters now xs sweep s)) = ns_cooldown_ms s"
  using assms
proof (induction xs arbitrary: s sweep)
  case Nil
  then show ?case by (simp add: retS_def)
next
  case (Cons x xs)
  have due: "due_by (ns_connection s) now (de_id x)" using Cons.prems(3) by simp
  obtain r s1 where run: "settle libs world adapters now x s = (r, s1)" by fastforce
  with settle_ok [OF Cons.prems(1) due, where libs = libs and world = world and adapters = adapters]
  have s1: "outbox_ok E (ns_connection s1)" "touches_only (de_id x) s s1" by simp_all
  have "\<forall>y \<in> set xs. due_by (ns_connection s1) now (de_id y)"
    using Cons.prems(2,3) by (intro ballI touches_only_due_by [OF s1(2)]) (auto simp: image_iff)
  then have rest: "outbox_ok E (ns_connection (snd (deliver_loop libs world adapters now xs sweep' s1))) \<and>
      ns_cooldown_ms (snd (deliver_loop libs world adapters now xs sweep' s1)) = ns_cooldown_ms s1" for sweep'
    using Cons.IH [OF s1(1)] Cons.prems(2) by simp
  show ?case
  proof (cases r)
    case (Inl e)
    with s1(1) touches_only_cooldown [OF s1(2)] show ?thesis
      unfolding deliver_loop_Cons by (simp add: bindS_def run Inl)
  next
    case (Inr u)
    with rest touches_only_cooldown [OF s1(2)] show ?thesis
      unfolding deliver_loop_Cons by (simp add: bindS_def run Inr)
  qed
qed

lemma reads_as_ids: "list_all2 (reads_as E) ds xs \<Longrightarrow> map de_id xs = map dr_id ds"
  by (induction rule: list_all2_induct) (simp_all add: reads_as_def)

lemma outbox_due_cases:
  assumes ok: "outbox_ok E (ns_connection s)" and typed: "\<forall>e \<in> E. event_typed e"
    and due: "outbox_due sqlite_ok now DELIVERY_BATCH s = Inr xs"
  shows "list_all2 (reads_as E) (due_deliveries (int (unat now)) DELIVERY_BATCH (ns_connection s)) xs"
proof -
  have now: "unat now < 2 ^ 63" "sqlite_ok"
    using due by (auto simp: outbox_due_def bindE_Inr time_to_i64_Inr split: if_splits)
  with outbox_due_ok [OF ok typed _ _ now(1), of DELIVERY_BATCH] due show ?thesis
    by (simp add: DELIVERY_BATCH_def)
qed

lemma due_list_ok:
  assumes ok: "outbox_ok E (ns_connection s)" and typed: "\<forall>e \<in> E. event_typed e"
    and due: "outbox_due sqlite_ok now DELIVERY_BATCH s = Inr xs"
  shows "distinct (map de_id xs)" "\<forall>x \<in> set xs. due_by (ns_connection s) now (de_id x)"
proof -
  let ?ds = "due_deliveries (int (unat now)) DELIVERY_BATCH (ns_connection s)"
  have ids: "map de_id xs = map dr_id ?ds"
    by (rule reads_as_ids) (rule outbox_due_cases [OF ok typed due])
  show "distinct (map de_id xs)" unfolding ids by (rule due_deliveries_distinct [OF ok])
  show "\<forall>x \<in> set xs. due_by (ns_connection s) now (de_id x)"
  proof
    fix x
    assume "x \<in> set xs"
    then have "de_id x \<in> set (map dr_id ?ds)" unfolding ids [symmetric] by simp
    then obtain d where d: "d \<in> set ?ds" "dr_id d = de_id x" by auto
    with due_deliveries_sub have d': "d \<in> set (ob_deliveries (ns_connection s))"
      "dr_next_attempt_at_ms d \<le> int (unat now)" by blast+
    show "due_by (ns_connection s) now (de_id x)"
      unfolding due_by_def
    proof (intro ballI impI)
      fix d1
      assume "d1 \<in> set (ob_deliveries (ns_connection s))" "dr_id d1 = de_id x"
      with d d' ok have "d1 = d" by (auto simp: outbox_ok_def intro: same_id_same_row)
      with d' show "dr_next_attempt_at_ms d1 \<le> int (unat now)" by simp
    qed
  qed
qed

lemma deliver_due_ok:
  assumes ok: "outbox_ok E (ns_connection s)" and typed: "\<forall>e \<in> E. event_typed e"
  shows "outbox_ok E (ns_connection (snd (deliver_due libs world adapters now s))) \<and>
    ns_cooldown_ms (snd (deliver_due libs world adapters now s)) = ns_cooldown_ms s"
proof (cases "outbox_due (sv_due_ok world) now DELIVERY_BATCH s")
  case (Inl e)
  with ok show ?thesis by (simp add: deliver_due_def)
next
  case (Inr xs)
  from deliver_loop_ok [OF ok due_list_ok [OF ok typed Inr]] Inr show ?thesis
    by (simp add: deliver_due_def)
qed

lemma outbox_enqueue_Inl: "outbox_enqueue ok event ds at s = (Inl e, s') \<Longrightarrow> s' = s"
  by (auto simp: outbox_enqueue_def split: sum.splits prod.splits)

lemma outbox_enqueue_ok:
  assumes "outbox_ok E (ns_connection s)" "event \<in> E" "ns_cooldown_ms s = DEFAULT_COOLDOWN_MS"
  shows "outbox_ok E (ns_connection (snd (outbox_enqueue ok event ds at s))) \<and>
    ns_cooldown_ms (snd (outbox_enqueue ok event ds at s)) = DEFAULT_COOLDOWN_MS"
proof (cases "outbox_enqueue ok event ds at s")
  case (Pair r s')
  have "insert event E = E" using assms(2) by (rule insert_absorb)
  with Pair assms outbox_enqueue_Inr [OF assms(1,3)] outbox_enqueue_Inl show ?thesis
    by (cases r) fastforce+
qed

section \<open>Runs of the worker\<close>

fun input_event :: "notify_input \<Rightarrow> notification_event option" where
  "input_event (Received (EnqueueCommand event at reply)) = Some event"
| "input_event _ = None"

definition events_of :: "(notify_env \<times> notify_input) list \<Rightarrow> notification_event set" where
  "events_of xs = {event. Some event \<in> input_event ` snd ` set xs}"

definition worker_ok :: "notification_event set \<Rightarrow> notify_worker \<Rightarrow> bool" where
  "worker_ok E w \<longleftrightarrow> outbox_ok E (ns_connection (nw_store w)) \<and>
     ns_cooldown_ms (nw_store w) = DEFAULT_COOLDOWN_MS"

lemma worker_step_ok:
  assumes ok: "worker_ok E w" and typed: "\<forall>e \<in> E. event_typed e"
    and event: "\<And>e. input_event (snd x) = Some e \<Longrightarrow> e \<in> E"
  shows "worker_ok E (snd (worker_step libs adapters x w))"
proof -
  obtain env i where x: "x = (env, i)" by fastforce
  note due = deliver_due_ok [OF _ typed, of "nw_store w" libs "ev_world env" adapters]
  consider (enq) e at b where "i = Received (EnqueueCommand e at b)" | (flush) now where "i = Received (FlushCommand now)"
    | (stop) "i = Received ShutdownCommand" | (closed) "i = ChannelClosed" | (tick) "i = SweepTick"
    by (metis notify_input.exhaust notify_command.exhaust)
  then show ?thesis
  proof cases
    case enq
    with event x have "e \<in> E" by simp
    with outbox_enqueue_ok [of E "nw_store w" e "ev_sqlite_ok env" "btree_keys adapters" at] ok show ?thesis
      by (auto simp: x enq worker_ok_def split: prod.splits)
  next
    case flush
    with due [of now] ok show ?thesis by (auto simp: x flush worker_ok_def split: prod.splits)
  next
    case stop
    with due ok show ?thesis by (auto simp: x stop worker_ok_def split: option.splits)
  next
    case closed
    with ok show ?thesis by (simp add: x closed worker_ok_def)
  next
    case tick
    show ?thesis
    proof (cases "ev_clock env")
      case None
      with ok show ?thesis by (simp add: x tick worker_ok_def)
    next
      case (Some now)
      with due [of now] ok show ?thesis by (auto simp: x tick worker_ok_def split: prod.splits)
    qed
  qed
qed

lemma worker_run_ok:
  assumes "worker_ok E w" "\<forall>e \<in> E. event_typed e" "events_of xs \<subseteq> E"
  shows "worker_ok E (snd (worker_run libs adapters xs w))"
  using assms
proof (induction xs arbitrary: w)
  case Nil
  then show ?case by simp
next
  case (Cons x xs)
  have "e \<in> E" if "input_event (snd x) = Some e" for e
    using that Cons.prems(3) by (force simp: events_of_def)
  then have "worker_ok E (snd (worker_step libs adapters x w))"
    by (rule worker_step_ok [OF Cons.prems(1,2)])
  moreover have "events_of xs \<subseteq> E" using Cons.prems(3) by (auto simp: events_of_def)
  ultimately show ?case
    using Cons.IH Cons.prems by (fastforce split: prod.splits)
qed

lemma worker_run_fresh:
  assumes "spawn_notification_runtime sqlite_ok empty_outbox = Inr w"
    and "\<forall>e \<in> events_of xs. event_typed e"
  shows "worker_ok (events_of xs) (snd (worker_run libs adapters xs w))"
proof (rule worker_run_ok [OF _ assms(2) subset_refl])
  show "worker_ok (events_of xs) w"
    using assms(1) empty_outbox_ok [of "events_of xs"]
    by (auto simp: spawn_notification_runtime_def outbox_open_def outbox_migrate_def outbox_create_schema_def
        empty_outbox_def OUTBOX_SCHEMA_VERSION_def worker_ok_def split: if_splits)
qed

text \<open>What the invariant says of one delivery row and of two.\<close>

lemma attempts_bounded:
  assumes ok: "outbox_ok E db" and d: "d \<in> set (ob_deliveries db)"
    and e: "e \<in> set (ob_events db)" "er_event_id e = dr_event_id d" "er_severity e = int (severity_code sev)"
  shows "dr_attempt_count d \<le> int (max_failures sev) \<and>
    (is_pending d \<longrightarrow> dr_attempt_count d < int (max_failures sev)) \<and>
    dr_retry_until_ms d = er_enqueued_at_ms e + int (retry_lifetime_ms sev)"
proof -
  have row: "delivery_ok (ob_events db) d" "delivery_row_check d"
    using ok d by (auto simp: outbox_ok_def delivery_ok_def)
  then obtain e' sev' q k where e': "e' \<in> set (ob_events db)" "er_event_id e' = dr_event_id d"
      "er_severity e' = int (severity_code sev')" "er_enqueued_at_ms e' = int q"
    and k: "dr_attempt_count d = int k" "dr_retry_until_ms d = int (q + retry_lifetime_ms sev')"
      "retry_schedule (k - 1) \<le> retry_lifetime_ms sev'"
    and p: "is_pending d \<longrightarrow> int (q + retry_schedule k) \<le> dr_next_attempt_at_ms d"
    unfolding delivery_ok_def by blast
  have "e' = e" using e e' ok by (auto simp: outbox_ok_def distinct_map inj_on_def)
  moreover have "severity_from_stored (severity_code sev) = severity_from_stored (severity_code sev')"
    using calculation e(3) e'(3) by simp
  then have "sev' = sev" by simp
  moreover have "is_pending d \<Longrightarrow> retry_schedule k \<le> retry_lifetime_ms sev'"
    using p row(2) k(2) by (simp add: delivery_row_check_def)
  ultimately show ?thesis
    using retry_schedule_bound [of "k - 1" sev] retry_schedule_bound [of k sev] k e'(4) by auto
qed

text \<open>Two deliveries of the table, the earlier first.\<close>

lemma outbox_cooled:
  assumes ok: "outbox_ok E db" and ij: "i < j" "j < length (ob_deliveries db)"
    and dest: "dr_destination_id (ob_deliveries db ! i) = dr_destination_id (ob_deliveries db ! j)"
    and key: "er_dedupe_key (event_for db (ob_deliveries db ! i)) = er_dedupe_key (event_for db (ob_deliveries db ! j))"
    and cat: "er_category (event_for db (ob_deliveries db ! j)) \<noteq> int (category_code Recovery)"
  shows "er_enqueued_at_ms (event_for db (ob_deliveries db ! i)) + int (unat DEFAULT_COOLDOWN_MS)
    < er_enqueued_at_ms (event_for db (ob_deliveries db ! j))"
proof -
  have mem: "ob_deliveries db ! i \<in> set (ob_deliveries db)" "ob_deliveries db ! j \<in> set (ob_deliveries db)"
    using ij by simp_all
  have "cooled (ob_events db) (ob_deliveries db ! i) (ob_deliveries db ! j)"
    using ok ij by (simp add: outbox_ok_def sorted_wrt_nth_less)
  then show ?thesis
    using event_for_ok(2,3) [OF ok mem(1)] event_for_ok(2,3) [OF ok mem(2)] dest key cat
    unfolding cooled_def by metis
qed

section \<open>Retrying ends\<close>

text \<open>The attempts a delivery, and all of them, can still take.\<close>

definition attempts_left :: "delivery_row \<Rightarrow> nat" where
  "attempts_left d = (if is_pending d then 15 - nat (dr_attempt_count d) else 0)"

definition outbox_work :: "outbox_db \<Rightarrow> nat" where
  "outbox_work db = sum_list (map attempts_left (ob_deliveries db))"

lemma sum_list_less:
  assumes "\<And>x. x \<in> set xs \<Longrightarrow> w (g x) \<le> (w x :: nat)" "x \<in> set xs" "w (g x) < w x"
  shows "sum_list (map w (map g xs)) < sum_list (map w xs)"
  using assms
proof (induction xs)
  case Nil
  then show ?case by simp
next
  case (Cons y ys)
  have le: "sum_list (map w (map g ys)) \<le> sum_list (map w ys)"
    using Cons.prems(1) by (simp add: sum_list_mono)
  show ?case
  proof (cases "x = y")
    case True
    with Cons.prems(3) le show ?thesis by simp
  next
    case False
    then have "sum_list (map w (map g ys)) < sum_list (map w ys)"
      using Cons.IH Cons.prems by simp
    moreover have "w (g y) \<le> w y" using Cons.prems(1) by simp
    ultimately show ?thesis by simp
  qed
qed

lemma pending_attempts:
  assumes ok: "outbox_ok E db" and d: "d \<in> set (ob_deliveries db)" "is_pending d"
  shows "\<exists>k < 15. dr_attempt_count d = int k"
proof -
  have "delivery_ok (ob_events db) d" using ok d by (simp add: outbox_ok_def)
  then obtain sev q k where "dr_attempt_count d = int k" "dr_retry_until_ms d = int (q + retry_lifetime_ms sev)"
    "int (q + retry_schedule k) \<le> dr_next_attempt_at_ms d" "delivery_row_check d"
    using d unfolding delivery_ok_def by blast
  moreover from this have "retry_schedule k \<le> retry_lifetime_ms sev" by (simp add: delivery_row_check_def)
  ultimately show ?thesis
    using retry_schedule_bound [of k sev] max_failures_le [of sev] by fastforce
qed

lemma mark_delivered_work:
  assumes ok: "outbox_ok E (ns_connection s)" and run: "mark_delivered sqlite_ok i at s = (Inr u, s')"
  shows "outbox_work (ns_connection s') < outbox_work (ns_connection s)"
proof -
  let ?ds = "ob_deliveries (ns_connection s)"
  from run obtain v where one: "length (filter (\<lambda>r. dr_id r = i \<and> is_pending r) ?ds) = 1"
    and ds': "ob_deliveries (ns_connection s') =
      map (\<lambda>r. if dr_id r = i \<and> is_pending r then r\<lparr>dr_delivered_at_ms := Some v\<rparr> else r) ?ds"
    by (auto simp: mark_delivered_def bindE_Inr update_deliveries_def simp del: map_eq_conv
        split: sum.splits if_splits)
  from one have "filter (\<lambda>r. dr_id r = i \<and> is_pending r) ?ds \<noteq> []" by fastforce
  then obtain d where d: "d \<in> set ?ds" "dr_id d = i" "is_pending d"
    by (auto simp: filter_empty_conv)
  show ?thesis
    unfolding outbox_work_def ds'
  proof (rule sum_list_less [where x = d])
    show "d \<in> set ?ds" by (rule d)
    show "attempts_left (if dr_id d = i \<and> is_pending d then d\<lparr>dr_delivered_at_ms := Some v\<rparr> else d) < attempts_left d"
      using d pending_attempts [OF ok d(1,3)] by (auto simp: attempts_left_def is_pending_def)
  qed (auto simp: attempts_left_def is_pending_def)
qed

lemma record_failure_work:
  assumes ok: "outbox_ok E (ns_connection s)" and run: "record_failure sqlite_ok i at code s = (Inr u, s')"
  shows "outbox_work (ns_connection s') < outbox_work (ns_connection s)"
proof -
  let ?ds = "ob_deliveries (ns_connection s)"
  from run obtain d attempts cnt g where
    found: "find (\<lambda>r. dr_id r = i \<and> is_pending r) ?ds = Some d"
    and dec: "u32_try_from (dr_attempt_count d) = Inr attempts" "u32_checked_add attempts 1 = Some cnt"
    and ds': "ob_deliveries (ns_connection s') = map (\<lambda>r. if dr_id r = i then g r else r) ?ds"
    and g: "\<forall>r. dr_attempt_count (g r) = int (unat cnt)"
    unfolding record_failure_def update_deliveries_def
    by (fastforce simp: bindE_Inr ok_or_Inr split: sum.splits if_splits prod.splits)
  have d: "d \<in> set ?ds" "dr_id d = i" "is_pending d" using found by (auto simp: find_Some_iff)
  obtain k where k: "k < 15" "dr_attempt_count d = int k" using pending_attempts [OF ok d(1,3)] by blast
  then have "attempts = of_nat k" using dec(1) by (simp add: u32_try_from_nat)
  with k have cnt: "unat cnt = Suc k"
    using u32_checked_add_unat [OF dec(2)] by (simp add: unat_of_nat)
  have less: "attempts_left (g d) < attempts_left d"
  proof -
    have "nat (dr_attempt_count (g d)) = Suc k" using g cnt by simp
    then show ?thesis using d(3) k by (auto simp: attempts_left_def)
  qed
  show ?thesis
    unfolding outbox_work_def ds'
  proof (rule sum_list_less [where x = d])
    fix r
    assume "r \<in> set ?ds"
    then show "attempts_left (if dr_id r = i then g r else r) \<le> attempts_left r"
      using d ok less by (auto simp: outbox_ok_def dest: same_id_same_row)
  qed (use d less in simp_all)
qed

lemma settle_work:
  assumes "outbox_ok E (ns_connection s)" and "settle libs world adapters now x s = (Inr u, s')"
  shows "outbox_work (ns_connection s') < outbox_work (ns_connection s)"
  using assms
  by (auto simp: settle_def bindS_Inr retS_def split: sum.splits dest: mark_delivered_work record_failure_work)

lemma deliver_loop_work:
  assumes "outbox_ok E (ns_connection s)" "distinct (map de_id xs)"
    "\<forall>x \<in> set xs. due_by (ns_connection s) now (de_id x)"
    "deliver_loop libs world adapters now xs sweep s = (Inr sweep', s')"
  shows "outbox_work (ns_connection s') + length xs \<le> outbox_work (ns_connection s) \<and>
    sw_attempted sweep' = sw_attempted sweep \<and>
    sw_delivered sweep' + sw_failed sweep' = sw_delivered sweep + sw_failed sweep + length xs"
  using assms
proof (induction xs arbitrary: s sweep)
  case Nil
  then show ?case by (simp add: retS_def)
next
  case (Cons x xs)
  have due: "due_by (ns_connection s) now (de_id x)" using Cons.prems(3) by simp
  from Cons.prems(4) obtain u s1 where run: "settle libs world adapters now x s = (Inr u, s1)"
    and rest: "deliver_loop libs world adapters now xs (count_attempt libs world adapters now x sweep) s1 = (Inr sweep', s')"
    unfolding deliver_loop_Cons by (auto simp: bindS_Inr)
  with settle_ok [OF Cons.prems(1) due, where libs = libs and world = world and adapters = adapters]
  have s1: "outbox_ok E (ns_connection s1)" "touches_only (de_id x) s s1" by simp_all
  have "\<forall>y \<in> set xs. due_by (ns_connection s1) now (de_id y)"
    using Cons.prems(2,3) by (intro ballI touches_only_due_by [OF s1(2)]) (auto simp: image_iff)
  with Cons.IH [OF s1(1) _ _ rest] Cons.prems(2) settle_work [OF Cons.prems(1) run] show ?case
    by (auto simp: count_attempt_def split: if_splits)
qed

section \<open>A concrete run\<close>

text \<open>
  One Bark destination whose server rejects, two warnings of one key an hour apart, and two sweeps.
\<close>

definition demo_event :: "bytes \<Rightarrow> notification_event" where
  "demo_event i = \<lparr>ne_event_id = i, ne_occurred_at_ms = 5, ne_source = SrcQq, ne_category = RiskControl,
     ne_severity = Warning, ne_account_local_id = None, ne_reason_code = 7,
     ne_transition = \<lparr>st_previous = StActive, st_current = StProtectiveOffline\<rparr>,
     ne_human_summary = lit ''offline'', ne_next_action = lit ''review'', ne_dedupe_key = replicate 32 3\<rparr>"

definition demo_adapters :: adapters where
  "demo_adapters = adapters_of [BarkAdapter \<lparr>bk_destination_id = replicate 16 9, bk_server_url = lit ''https://b'',
     bk_device_key = lit ''k'', bk_group = None, bk_level = None, bk_url = None, bk_ciphertext = None\<rparr>]"

definition demo_libs :: adapter_libs where
  "demo_libs = \<lparr>al_mac = (\<lambda>_ bs. take 32 bs), al_json = (\<lambda>_. Some []), al_escape = id,
     al_mail_builds = (\<lambda>_ _ _. True)\<rparr>"

definition demo_env :: notify_env where
  "demo_env = \<lparr>ev_sqlite_ok = True,
     ev_world = \<lparr>sv_due_ok = True, sv_write_ok = (\<lambda>_. True), sv_network = (\<lambda>_. Some False)\<rparr>,
     ev_clock = Some 2000\<rparr>"

definition demo_worker :: notify_worker where
  "demo_worker = \<lparr>nw_store = \<lparr>ns_connection = \<lparr>ob_version = 1, ob_events = [], ob_deliveries = [], ob_sequence = 0\<rparr>,
     ns_cooldown_ms = DEFAULT_COOLDOWN_MS\<rparr>, nw_running = True\<rparr>"

definition demo_inputs :: "(notify_env \<times> notify_input) list" where
  "demo_inputs =
     [(demo_env, Received (EnqueueCommand (demo_event (replicate 16 1)) 1000 True)),
      (demo_env, SweepTick),
      (demo_env, Received (EnqueueCommand (demo_event (replicate 16 2)) 3601000 False))]"

definition demo_store :: notification_store where
  "demo_store = nw_store (snd (worker_run demo_libs demo_adapters demo_inputs demo_worker))"

lemma demo_spawn: "spawn_notification_runtime True empty_outbox = Inr demo_worker"
  by (simp add: spawn_notification_runtime_def outbox_open_def outbox_migrate_def outbox_create_schema_def
      empty_outbox_def OUTBOX_SCHEMA_VERSION_def demo_worker_def)

lemma demo_typed: "\<forall>e \<in> events_of demo_inputs. event_typed e"
  by (auto simp: events_of_def demo_inputs_def demo_event_def event_typed_def text_ok_def) (code_simp)+


definition demo_row :: "int \<Rightarrow> int \<Rightarrow> int \<Rightarrow> int \<Rightarrow> int \<Rightarrow> int option \<Rightarrow> delivery_row" where
  "demo_row i e k next_at until code =
     \<lparr>dr_id = i, dr_event_id = replicate 16 (of_int e), dr_destination_id = replicate 16 9,
      dr_attempt_count = k, dr_next_attempt_at_ms = next_at, dr_retry_until_ms = until,
      dr_delivered_at_ms = None, dr_abandoned_at_ms = None, dr_last_error_code = code\<rparr>"

definition demo_db1 :: outbox_db where
  "demo_db1 = \<lparr>ob_version = 1, ob_events = [event_row_of (demo_event (replicate 16 1)) 5 1000],
     ob_deliveries = [demo_row 1 1 0 1000 7201000 None], ob_sequence = 1\<rparr>"

lemma demo_keys: "btree_keys demo_adapters = [replicate 16 9]"
  by (simp add: btree_keys_def demo_adapters_def adapters_of_def)

lemma demo_step1:
  "outbox_enqueue True (demo_event (replicate 16 1)) [replicate 16 9] 1000 (nw_store demo_worker) =
   (Inr 1, \<lparr>ns_connection = demo_db1, ns_cooldown_ms = DEFAULT_COOLDOWN_MS\<rparr>)"
  by (simp add: outbox_enqueue_def demo_worker_def validate_destinations_def MAX_DESTINATIONS_def demo_event_def
     u64_checked_add_def eligible_destinations_def time_to_i64_def recent_duplicate_def u64_saturating_sub_def
     DEFAULT_COOLDOWN_MS_def insert_event_def insert_event_row_def event_row_check_def event_row_of_def
     insert_delivery_row_def delivery_row_check_def demo_db1_def demo_row_def Let_def)

definition demo_db2 :: outbox_db where
  "demo_db2 = demo_db1\<lparr>ob_deliveries := [demo_row 1 1 1 62000 7201000 (Some 3)]\<rparr>"

definition demo_db3 :: outbox_db where
  "demo_db3 = \<lparr>ob_version = 1,
     ob_events = [event_row_of (demo_event (replicate 16 1)) 5 1000, event_row_of (demo_event (replicate 16 2)) 5 3601000],
     ob_deliveries = [demo_row 1 1 1 62000 7201000 (Some 3), demo_row 2 2 0 3601000 10801000 None],
     ob_sequence = 2\<rparr>"

lemma demo_text: "notification_text_new (lit ''offline'') = Inr (lit ''offline'')"
    "notification_text_new (lit ''review'') = Inr (lit ''review'')"
  by code_simp+

lemma demo_decode:
  "decode_delivery (demo_row 1 1 0 1000 7201000 None, event_row_of (demo_event (replicate 16 1)) 5 1000) =
   Inr \<lparr>de_id = 1, de_destination_id = replicate 16 9, de_attempt_count = 0, de_event = demo_event (replicate 16 1)\<rparr>"
  by (simp add: decode_delivery_def decode_delivery_inner_def demo_row_def demo_event_def event_row_of_def
     delivery_id_from_stored_def id_from_slice_def u32_try_from_def time_from_i64_def column_u8_def
     source_from_stored_def stored_enum_def category_from_stored_def severity_from_stored_def
     account_id_from_stored_def state_from_stored_def state_transition_new_def notification_event_new_def demo_text)

lemma demo_due1: "outbox_due True 2000 DELIVERY_BATCH \<lparr>ns_connection = demo_db1, ns_cooldown_ms = DEFAULT_COOLDOWN_MS\<rparr> =
   Inr [\<lparr>de_id = 1, de_destination_id = replicate 16 9, de_attempt_count = 0, de_event = demo_event (replicate 16 1)\<rparr>]"
proof -
  have "due_rows 2000 100 demo_db1 =
      [(demo_row 1 1 0 1000 7201000 None, event_row_of (demo_event (replicate 16 1)) 5 1000)]"
    by (simp add: due_rows_def joined_rows_def demo_db1_def demo_row_def event_row_of_def demo_event_def is_pending_def)
  then show ?thesis
    by (simp add: outbox_due_def DELIVERY_BATCH_def DELIVERY_BATCH_LIMIT_def time_to_i64_def demo_decode)
qed

lemma demo_attempt:
  "attempt_delivery demo_libs (sv_network (ev_world demo_env)) demo_adapters 2000
     \<lparr>de_id = 1, de_destination_id = replicate 16 9, de_attempt_count = 0, de_event = demo_event (replicate 16 1)\<rparr>
   = Inl ARejected"
  by (simp add: attempt_delivery_def demo_adapters_def adapters_of_def btree_get_def adapter_deliver_def
      bark_deliver_def http_outcome_def demo_env_def)

lemma demo_world: "sv_due_ok (ev_world demo_env)" "sv_write_ok (ev_world demo_env) i"
  by (simp_all add: demo_env_def)

lemma demo_step2:
  "deliver_due demo_libs (ev_world demo_env) demo_adapters 2000 \<lparr>ns_connection = demo_db1, ns_cooldown_ms = DEFAULT_COOLDOWN_MS\<rparr> =
   (Inr \<lparr>sw_attempted = 1, sw_delivered = 0, sw_failed = 1\<rparr>,
    \<lparr>ns_connection = demo_db2, ns_cooldown_ms = DEFAULT_COOLDOWN_MS\<rparr>)"
  by (simp add: deliver_due_def demo_world demo_due1 demo_attempt)
    (simp add: bindS_def retS_def record_failure_def demo_db1_def demo_row_def is_pending_def u32_try_from_def
     time_from_i64_def u64_checked_add_def retry_delay_def RETRY_DELAYS_MS_def u32_checked_add_def time_to_i64_def
     update_deliveries_def delivery_row_check_def demo_db2_def)

lemma demo_step3:
  "outbox_enqueue True (demo_event (replicate 16 2)) [replicate 16 9] 3601000
     \<lparr>ns_connection = demo_db2, ns_cooldown_ms = DEFAULT_COOLDOWN_MS\<rparr> =
   (Inr 1, \<lparr>ns_connection = demo_db3, ns_cooldown_ms = DEFAULT_COOLDOWN_MS\<rparr>)"
  by (simp add: outbox_enqueue_def validate_destinations_def MAX_DESTINATIONS_def demo_event_def
     u64_checked_add_def eligible_destinations_def time_to_i64_def recent_duplicate_def u64_saturating_sub_def
     DEFAULT_COOLDOWN_MS_def insert_event_def insert_event_row_def event_row_check_def event_row_of_def
     insert_delivery_row_def delivery_row_check_def demo_db1_def demo_db2_def demo_db3_def demo_row_def Let_def)

lemma demo_final: "demo_store = \<lparr>ns_connection = demo_db3, ns_cooldown_ms = DEFAULT_COOLDOWN_MS\<rparr>"
proof -
  have clock: "ev_clock demo_env = Some 2000" "ev_sqlite_ok demo_env" by (simp_all add: demo_env_def)
  have running: "nw_running demo_worker" by (simp add: demo_worker_def)
  show ?thesis
    by (simp add: demo_store_def demo_inputs_def demo_keys demo_step1 clock running demo_step2 demo_step3)
qed

lemma demo_store_run: "nw_store (snd (worker_run demo_libs demo_adapters demo_inputs demo_worker)) = demo_store"
  by (simp add: demo_store_def)

lemma demo_db3_rows:
  "ob_deliveries demo_db3 = [demo_row 1 1 1 62000 7201000 (Some 3), demo_row 2 2 0 3601000 10801000 None]"
  by (simp add: demo_db3_def)

lemma demo_event_for:
  "event_for demo_db3 (demo_row 1 1 1 62000 7201000 (Some 3)) = event_row_of (demo_event (replicate 16 1)) 5 1000"
  "event_for demo_db3 (demo_row 2 2 0 3601000 10801000 None) = event_row_of (demo_event (replicate 16 2)) 5 3601000"
  by (simp_all add: event_for_def demo_db3_def demo_row_def event_row_of_def demo_event_def)

lemma demo_first: "nw_store (snd (worker_run demo_libs demo_adapters (take 1 demo_inputs) demo_worker)) =
    \<lparr>ns_connection = demo_db1, ns_cooldown_ms = DEFAULT_COOLDOWN_MS\<rparr>"
proof -
  have "ev_sqlite_ok demo_env" "nw_running demo_worker" by (simp_all add: demo_env_def demo_worker_def)
  then show ?thesis by (simp add: demo_inputs_def demo_keys demo_step1)
qed

lemma demo_first_typed: "\<forall>e \<in> events_of (take 1 demo_inputs). event_typed e"
  using demo_typed by (simp add: events_of_def demo_inputs_def)

section \<open>Properties\<close>

lemma deliver_due_work:
  assumes ok: "outbox_ok E (ns_connection s)" and typed: "\<forall>e \<in> E. event_typed e"
    and run: "deliver_due libs world adapters now s = (Inr sweep, s')"
  shows "outbox_work (ns_connection s') + sw_attempted sweep \<le> outbox_work (ns_connection s) \<and>
    sw_delivered sweep + sw_failed sweep = sw_attempted sweep"
proof -
  from run obtain xs where due: "outbox_due (sv_due_ok world) now DELIVERY_BATCH s = Inr xs"
    and loop: "deliver_loop libs world adapters now xs
      \<lparr>sw_attempted = length xs, sw_delivered = 0, sw_failed = 0\<rparr> s = (Inr sweep, s')"
    by (auto simp: deliver_due_def split: sum.splits)
  from deliver_loop_work [OF ok due_list_ok [OF ok typed due] loop] show ?thesis by simp
qed

text \<open>
  C32: Retrying ends. Whatever the worker has processed since its outbox was created, every sweep that
  completes uses up as many of the attempts left as it makes, each an outcome it counts once; a
  delivery starts with fifteen, so it is attempted at most fifteen times.
\<close>

theorem notify_retrying_ends:
  assumes "spawn_notification_runtime sqlite_ok empty_outbox = Inr w"
    and "\<forall>e \<in> events_of xs. event_typed e"
    and "deliver_due libs world adapters now (nw_store (snd (worker_run libs' adapters' xs w))) = (Inr sweep, s)"
  shows "outbox_work (ns_connection s) + sw_attempted sweep
      \<le> outbox_work (ns_connection (nw_store (snd (worker_run libs' adapters' xs w)))) \<and>
    sw_delivered sweep + sw_failed sweep = sw_attempted sweep"
  by (rule deliver_due_work [OF _ assms(2,3)])
    (use worker_run_fresh [OF assms(1,2)] in \<open>simp add: worker_ok_def\<close>)

lemma notify_retrying_ends_witness: "outbox_work demo_db2 + 1 \<le> outbox_work demo_db1"
  using notify_retrying_ends [OF demo_spawn demo_first_typed demo_step2 [folded demo_first]] demo_first by simp

text \<open>
  C33: The severity bounds the failures: after any run of the worker a delivery has failed at most 3, 4
  or 15 times for Info, Warning and Critical, fewer while it is pending, and it is retried until the
  lifetime of its severity after it was enqueued.
\<close>

theorem notify_failures_bounded:
  assumes "spawn_notification_runtime sqlite_ok empty_outbox = Inr w"
    and "\<forall>e \<in> events_of xs. event_typed e"
    and "db = ns_connection (nw_store (snd (worker_run libs adapters xs w)))"
    and "d \<in> set (ob_deliveries db)" "e \<in> set (ob_events db)" "er_event_id e = dr_event_id d"
    and "er_severity e = int (severity_code sev)"
  shows "dr_attempt_count d \<le> int (max_failures sev) \<and>
    (is_pending d \<longrightarrow> dr_attempt_count d < int (max_failures sev)) \<and>
    dr_retry_until_ms d = er_enqueued_at_ms e + int (retry_lifetime_ms sev)"
  by (rule attempts_bounded [where E = "events_of xs", OF _ assms(4-7)])
    (use worker_run_fresh [OF assms(1,2), of libs adapters] assms(3) in \<open>simp add: worker_ok_def\<close>)

lemma notify_failures_bounded_witness:
  "dr_attempt_count (ob_deliveries (ns_connection demo_store) ! 0) \<le> 4"
proof -
  have store: "ns_connection demo_store = demo_db3" by (simp add: demo_final)
  have "dr_attempt_count (demo_row 1 1 1 62000 7201000 (Some 3)) \<le> int (max_failures Warning) \<and>
    (is_pending (demo_row 1 1 1 62000 7201000 (Some 3)) \<longrightarrow>
       dr_attempt_count (demo_row 1 1 1 62000 7201000 (Some 3)) < int (max_failures Warning)) \<and>
    dr_retry_until_ms (demo_row 1 1 1 62000 7201000 (Some 3)) =
      er_enqueued_at_ms (event_row_of (demo_event (replicate 16 1)) 5 1000) + int (retry_lifetime_ms Warning)"
    by (rule notify_failures_bounded [OF demo_spawn demo_typed, where db = demo_db3 and libs = demo_libs and adapters = demo_adapters and e = "event_row_of (demo_event (replicate 16 1)) 5 1000"])
      (simp_all add: demo_store_run store, simp_all add: demo_db3_def demo_row_def event_row_of_def demo_event_def)
  then show ?thesis by (simp add: store demo_db3_rows)
qed

text \<open>
  Cooldown. In the table any run of the worker leaves, a delivery whose event is not a Recovery
  was enqueued more than fifteen minutes after every earlier delivery of its dedupe key to its
  destination, whatever clock the callers use.
\<close>

theorem notify_cooldown_separates:
  assumes "spawn_notification_runtime sqlite_ok empty_outbox = Inr w"
    and "\<forall>e \<in> events_of xs. event_typed e"
    and "db = ns_connection (nw_store (snd (worker_run libs adapters xs w)))"
    and "i < j" "j < length (ob_deliveries db)"
    and "dr_destination_id (ob_deliveries db ! i) = dr_destination_id (ob_deliveries db ! j)"
    and "er_dedupe_key (event_for db (ob_deliveries db ! i)) = er_dedupe_key (event_for db (ob_deliveries db ! j))"
    and "er_category (event_for db (ob_deliveries db ! j)) \<noteq> int (category_code Recovery)"
  shows "er_enqueued_at_ms (event_for db (ob_deliveries db ! i)) + 900000
    < er_enqueued_at_ms (event_for db (ob_deliveries db ! j))"
proof -
  have "outbox_ok (events_of xs) db"
    using worker_run_fresh [OF assms(1,2), of libs adapters] assms(3) by (simp add: worker_ok_def)
  from outbox_cooled [OF this assms(4-8)] show ?thesis by (simp add: DEFAULT_COOLDOWN_MS_def)
qed

lemma notify_cooldown_separates_witness:
  "er_enqueued_at_ms (event_for demo_db3 (ob_deliveries demo_db3 ! 0)) + 900000
    < er_enqueued_at_ms (event_for demo_db3 (ob_deliveries demo_db3 ! 1))"
  by (rule notify_cooldown_separates [OF demo_spawn demo_typed, where libs = demo_libs and adapters = demo_adapters])
    (simp_all add: demo_store_run demo_final demo_db3_rows demo_event_for, simp_all add: demo_row_def
      event_row_of_def demo_event_def)

text \<open>
  C34: What is sent is what was enqueued. On the outbox any run leaves, reading what is due never
  finds malformed data: it returns, oldest first and at most as many as asked for, exactly the
  pending deliveries that are due, each with an event given to the worker.
\<close>

theorem notify_due_exact:
  assumes "spawn_notification_runtime sqlite_ok empty_outbox = Inr w"
    and "\<forall>e \<in> events_of xs. event_typed e"
    and "s = nw_store (snd (worker_run libs adapters xs w))"
    and "0 < n" "n \<le> 100" "unat now < 2 ^ 63"
  shows "\<exists>due. outbox_due True now n s = Inr due \<and>
    list_all2 (reads_as (events_of xs)) (due_deliveries (int (unat now)) n (ns_connection s)) due"
  by (rule outbox_due_ok [OF _ assms(2,4-6)])
    (use worker_run_fresh [OF assms(1,2), of libs adapters] assms(3) in \<open>simp add: worker_ok_def\<close>)

lemma notify_due_exact_witness:
  "\<exists>due. outbox_due True 3601000 100 demo_store = Inr due \<and> length due = 2"
proof -
  obtain due where due: "outbox_due True 3601000 100 demo_store = Inr due"
    "list_all2 (reads_as (events_of demo_inputs))
       (due_deliveries 3601000 100 (ns_connection demo_store)) due"
    using notify_due_exact [OF demo_spawn demo_typed demo_store_def, of 100 3601000] by auto
  moreover have "length (due_deliveries 3601000 100 (ns_connection demo_store)) = 2"
    by (simp add: demo_final due_deliveries_def demo_db3_rows) (simp add: demo_row_def is_pending_def)
  ultimately show ?thesis using list_all2_lengthD by fastforce
qed

text \<open>The webhook signature covers its timestamp and body: its input determines both.\<close>

lemma decimal_before_newline: "takeWhile (\<lambda>c. c \<noteq> 0x0A) (decimal n @ 0x0A # bs) = decimal n"
proof -
  have "\<forall>c \<in> set (decimal n). c \<noteq> 0x0A"
    using decimal_digits [of n] by (auto simp: is_ascii_digit_def)
  then show ?thesis by (simp add: takeWhile_tail takeWhile_eq_all_conv)
qed

theorem webhook_signature_input:
  assumes "decimal t @ [0x0A] @ body = decimal t' @ [0x0A] @ body'"
  shows "t = t' \<and> body = body'"
proof -
  from assms have "decimal t = decimal t'"
    using decimal_before_newline [of t body] decimal_before_newline [of t' body'] by simp
  with assms show ?thesis by (simp add: decimal_inj)
qed

end
