(* ===== verification/Highway.thy ===== *)
theory Highway
  imports Rust_Str
begin

text \<open>
  The upload transport of \<open>crates/qq-highway\<close>: the session response and its endpoints (\<open>session.rs\<close>),
  upload frames (\<open>frame.rs\<close>) and the sequential upload (\<open>upload.rs\<close>), over the messages of \<open>proto.rs\<close>.

  The protobuf codec of each message and MD5 are parameters, and so is the network: what comes back
  for a request may depend on all requests made before it.
\<close>

section \<open>Messages\<close>

datatype highway_error = HwInvalidInput | HwMalformedFrame | HwUnusableSession | HwRemoteRejected | HwTransport

record session_request_wire =
  sq_field_1 :: i32
  sq_field_2 :: i32
  sq_field_3 :: i32
  sq_field_4 :: i32
  sq_tgt_hex :: rstr
  sq_field_6 :: i32
  sq_service_types :: "i32 list"
  sq_field_9 :: i32
  sq_field_10 :: i32
  sq_field_11 :: i32
  sq_version :: rstr

record session_outer =
  so_connection :: "session_request_wire option"

record server_address_wire =
  aw_address_type :: u32
  aw_ipv4 :: u32
  aw_port :: u32
  aw_area :: u32

record server_info_wire =
  iw_service_type :: u32
  iw_addresses :: "server_address_wire list"

record session_response_wire =
  rw_ticket :: bytes
  rw_session_key :: bytes
  rw_servers :: "server_info_wire list"

record session_response_outer =
  ro_connection :: "session_response_wire option"

record base_head_wire =
  bh_version :: u32
  bh_uin :: rstr
  bh_command :: rstr
  bh_sequence :: u32
  bh_retry_times :: u32
  bh_app_id :: u32
  bh_data_flag :: u32
  bh_command_id :: u32

record segment_head_wire =
  sh_service_id :: u32
  sh_file_size :: u64
  sh_offset :: u64
  sh_data_length :: u32
  sh_return_code :: u32
  sh_ticket :: bytes
  sh_block_md5 :: bytes
  sh_file_md5 :: bytes

record login_head_wire =
  lh_signature_type :: u32
  lh_signature :: bytes
  lh_app_id :: u32

record request_head_wire =
  rh_base :: "base_head_wire option"
  rh_segment :: "segment_head_wire option"
  rh_extension :: bytes
  rh_timestamp :: u64
  rh_login :: "login_head_wire option"

record response_head_wire =
  ph_base :: "base_head_wire option"
  ph_segment :: "segment_head_wire option"
  ph_error_code :: u32
  ph_allow_retry :: u32
  ph_extension :: bytes

record highway_codec =
  hc_session_outer :: "session_outer \<Rightarrow> bytes"
  hc_session_response :: "bytes \<Rightarrow> session_response_outer option"
  hc_request_head :: "request_head_wire \<Rightarrow> bytes"
  hc_response_head :: "bytes \<Rightarrow> response_head_wire option"
  hc_md5 :: "bytes \<Rightarrow> bytes"

section \<open>Sessions\<close>

definition MAX_SESSION_BYTES :: nat where
  "MAX_SESSION_BYTES = 64 * 1024"

definition HIGHWAY_MAX_SECRET_BYTES :: nat where
  "HIGHWAY_MAX_SECRET_BYTES = 8 * 1024"

definition MAX_ENDPOINTS :: nat where
  "MAX_ENDPOINTS = 32"

record highway_endpoint =
  he_service_type :: u32
  he_address :: bytes
  he_port :: u16

record highway_session =
  hs_ticket :: bytes
  hs_endpoints :: "highway_endpoint list"

definition lower_hex_digit :: "nat \<Rightarrow> u8" where
  "lower_hex_digit d = of_nat (if d < 10 then 0x30 + d else 0x61 + (d - 10))"

definition lower_hex :: "bytes \<Rightarrow> rstr" where
  "lower_hex bs = concat (map (\<lambda>b. [lower_hex_digit (unat b div 16), lower_hex_digit (unat b mod 16)]) bs)"

definition highway_session_request :: "highway_codec \<Rightarrow> bytes \<Rightarrow> highway_error + bytes" where
  "highway_session_request codec tgt =
     (if tgt = [] \<or> HIGHWAY_MAX_SECRET_BYTES < length tgt then Inl HwInvalidInput
      else Inr (hc_session_outer codec
        \<lparr>so_connection = Some \<lparr>sq_field_1 = 0, sq_field_2 = 0, sq_field_3 = 16, sq_field_4 = 1,
           sq_tgt_hex = lower_hex tgt, sq_field_6 = 3, sq_service_types = [1, 5, 10, 21], sq_field_9 = 2,
           sq_field_10 = 9, sq_field_11 = 8, sq_version = lit ''1.0.1''\<rparr>\<rparr>))"

text \<open>The octets of an address are a list of four bytes.\<close>

fun is_usable_endpoint :: "bytes \<Rightarrow> bool" where
  "is_usable_endpoint [a, b, c, d] \<longleftrightarrow>
     \<not> (a = 0 \<or> a = 127 \<or> a \<ge> 224 \<or> (a = 169 \<and> b = 254) \<or> (a = 192 \<and> b = 0 \<and> c = 0) \<or>
        (a = 192 \<and> b = 0 \<and> c = 2) \<or> (a = 198 \<and> (b = 18 \<or> b = 19)) \<or> (a = 198 \<and> b = 51 \<and> c = 100) \<or>
        (a = 203 \<and> b = 0 \<and> c = 113) \<or> (a = 255 \<and> b = 255 \<and> c = 255 \<and> d = 255))"
| "is_usable_endpoint _ \<longleftrightarrow> False"

text \<open>The inner loop over the addresses of one server, which breaks when the list is full.\<close>

fun collect_addresses ::
    "u32 \<Rightarrow> server_address_wire list \<Rightarrow> highway_endpoint list \<Rightarrow> highway_endpoint list" where
  "collect_addresses service_type [] endpoints = endpoints"
| "collect_addresses service_type (candidate # candidates) endpoints =
     (if length endpoints = MAX_ENDPOINTS then endpoints
      else
        let address = rev (to_be 4 (aw_ipv4 candidate)) in
        if unat (aw_port candidate) \<ge> 2 ^ 16 then collect_addresses service_type candidates endpoints
        else
          let port = ucast (aw_port candidate) :: u16 in
          if port = 0 \<or> \<not> is_usable_endpoint address then collect_addresses service_type candidates endpoints
          else
            let endpoint = \<lparr>he_service_type = service_type, he_address = address, he_port = port\<rparr> in
            collect_addresses service_type candidates
              (if endpoint \<in> set endpoints then endpoints else endpoints @ [endpoint]))"

definition collect_endpoints :: "server_info_wire list \<Rightarrow> highway_endpoint list" where
  "collect_endpoints servers =
     foldl (\<lambda>endpoints server. collect_addresses (iw_service_type server) (iw_addresses server) endpoints) [] servers"

definition highway_session_response :: "highway_codec \<Rightarrow> bytes \<Rightarrow> highway_error + highway_session" where
  "highway_session_response codec input =
     (if input = [] \<or> MAX_SESSION_BYTES < length input then Inl HwMalformedFrame
      else
        bindE (ok_or HwMalformedFrame (hc_session_response codec input)) (\<lambda>response.
        bindE (ok_or HwUnusableSession (ro_connection response)) (\<lambda>connection.
        if rw_ticket connection = [] \<or> HIGHWAY_MAX_SECRET_BYTES < length (rw_ticket connection) \<or>
           HIGHWAY_MAX_SECRET_BYTES < length (rw_session_key connection)
        then Inl HwUnusableSession
        else
          let endpoints = collect_endpoints (rw_servers connection) in
          if endpoints = [] then Inl HwUnusableSession
          else Inr \<lparr>hs_ticket = rw_ticket connection,
                    hs_endpoints = sort_key (\<lambda>e. if he_service_type e \<noteq> 1 then 1 else 0 :: nat) endpoints\<rparr>)))"

section \<open>Frames\<close>

definition FRAME_START :: u8 where
  "FRAME_START = 0x28"

definition FRAME_END :: u8 where
  "FRAME_END = 0x29"

definition MAX_HEAD_BYTES :: nat where
  "MAX_HEAD_BYTES = 64 * 1024"

definition HIGHWAY_MAX_BODY_BYTES :: nat where
  "HIGHWAY_MAX_BODY_BYTES = 4 * 1024 * 1024"

definition MAX_EXTENSION_BYTES :: nat where
  "MAX_EXTENSION_BYTES = 64 * 1024"


record upload_response =
  ur_sequence :: "u32 option"
  ur_offset :: "u64 option"
  ur_data_length :: "u32 option"
  ur_extension :: bytes



definition highway_frame :: "bytes \<Rightarrow> bytes \<Rightarrow> bytes" where
  "highway_frame head body =
     [FRAME_START] @ to_be 4 (of_nat (length head) :: u32) @ to_be 4 (of_nat (length body) :: u32) @
     head @ body @ [FRAME_END]"


definition decode_upload_response :: "highway_codec \<Rightarrow> bytes \<Rightarrow> highway_error + upload_response" where
  "decode_upload_response codec input =
     (if length input < 10 \<or> input ! 0 \<noteq> FRAME_START \<or> input ! (length input - 1) \<noteq> FRAME_END
      then Inl HwMalformedFrame
      else
        let head_len = unat (from_be (take 4 (drop 1 input)) :: u32);
            body_len = unat (from_be (take 4 (drop 5 input)) :: u32) in
        if head_len = 0 \<or> MAX_HEAD_BYTES < head_len \<or> HIGHWAY_MAX_BODY_BYTES < body_len then Inl HwMalformedFrame
        else if length input \<noteq> 10 + head_len + body_len then Inl HwMalformedFrame
        else
          bindE (ok_or HwMalformedFrame (hc_response_head codec (take head_len (drop 9 input)))) (\<lambda>head.
          if ph_error_code head \<noteq> 0 then Inl HwRemoteRejected
          else if MAX_EXTENSION_BYTES < length (ph_extension head) then Inl HwRemoteRejected
          else Inr \<lparr>ur_sequence = map_option bh_sequence (ph_base head),
                    ur_offset = map_option sh_offset (ph_segment head),
                    ur_data_length = map_option sh_data_length (ph_segment head),
                    ur_extension = ph_extension head\<rparr>))"

section \<open>Uploads\<close>

definition MIN_CHUNK_BYTES :: nat where
  "MIN_CHUNK_BYTES = 64 * 1024"

definition MAX_CHUNK_BYTES :: nat where
  "MAX_CHUNK_BYTES = 4 * 1024 * 1024"




record highway_client =
  cl_chunk_bytes :: nat

definition with_chunk_bytes :: "bool \<Rightarrow> nat \<Rightarrow> highway_error + highway_client" where
  "with_chunk_bytes builds chunk_bytes =
     (if \<not> (MIN_CHUNK_BYTES \<le> chunk_bytes \<and> chunk_bytes \<le> MAX_CHUNK_BYTES) then Inl HwInvalidInput
      else if builds then Inr \<lparr>cl_chunk_bytes = chunk_bytes\<rparr> else Inl HwTransport)"











section \<open>Endpoints\<close>

definition endpoint_ok :: "highway_endpoint \<Rightarrow> bool" where
  "endpoint_ok e \<longleftrightarrow> is_usable_endpoint (he_address e) \<and> he_port e \<noteq> 0"

definition endpoints_ok :: "highway_endpoint list \<Rightarrow> bool" where
  "endpoints_ok es \<longleftrightarrow> distinct es \<and> length es \<le> MAX_ENDPOINTS \<and> (\<forall>e \<in> set es. endpoint_ok e)"

lemma collect_addresses_ok: "endpoints_ok es \<Longrightarrow> endpoints_ok (collect_addresses t as es)"
proof (induction t as es rule: collect_addresses.induct)
  case (1 t es)
  then show ?case by simp
next
  case (2 t c cs es)
  let ?a = "rev (to_be 4 (aw_ipv4 c))" and ?p = "ucast (aw_port c) :: u16"
  let ?e = "\<lparr>he_service_type = t, he_address = ?a, he_port = ?p\<rparr>"
  consider (full) "length es = MAX_ENDPOINTS" | (wide) "length es \<noteq> MAX_ENDPOINTS" "unat (aw_port c) \<ge> 2 ^ 16"
    | (bad) "length es \<noteq> MAX_ENDPOINTS" "\<not> unat (aw_port c) \<ge> 2 ^ 16" "?p = 0 \<or> \<not> is_usable_endpoint ?a"
    | (good) "length es \<noteq> MAX_ENDPOINTS" "\<not> unat (aw_port c) \<ge> 2 ^ 16" "\<not> (?p = 0 \<or> \<not> is_usable_endpoint ?a)"
    by blast
  then show ?case
  proof cases
    case full
    with "2.prems" show ?thesis by simp
  next
    case wide
    with "2.IH"(1) "2.prems" show ?thesis by (simp add: Let_def)
  next
    case bad
    with "2.IH"(2) [OF bad(1) refl bad(2) refl bad(3)] "2.prems" show ?thesis by (auto simp add: Let_def)
  next
    case good
    let ?es = "if ?e \<in> set es then es else es @ [?e]"
    have "endpoints_ok ?es" using good "2.prems" by (auto simp: endpoint_ok_def endpoints_ok_def)
    with "2.IH"(3) [OF good(1) refl good(2) refl good(3) refl] good show ?thesis by (simp add: Let_def)
  qed
qed

interpretation servers: machine "\<lambda>es s. collect_addresses (iw_service_type s) (iw_addresses s) es" endpoints_ok
  by unfold_locales (rule collect_addresses_ok)

lemma collect_endpoints_ok: "endpoints_ok (collect_endpoints servers)"
  unfolding collect_endpoints_def by (rule servers.run_inv) (simp add: endpoints_ok_def)

text \<open>
  A session QQ hands out can be used safely: decoding returns a bounded ticket and between one and
  32 distinct endpoints, each a public unicast IPv4 address with a port, those of service class 1 first.
\<close>

theorem highway_session_endpoints:
  assumes "highway_session_response codec input = Inr session"
  shows "hs_ticket session \<noteq> [] \<and> length (hs_ticket session) \<le> 8192 \<and>
    hs_endpoints session \<noteq> [] \<and> length (hs_endpoints session) \<le> 32 \<and> distinct (hs_endpoints session) \<and>
    list_all (\<lambda>e. is_usable_endpoint (he_address e) \<and> he_port e \<noteq> 0) (hs_endpoints session) \<and>
    sorted (map (\<lambda>e. if he_service_type e \<noteq> 1 then 1 else 0 :: nat) (hs_endpoints session))"
proof -
  let ?key = "\<lambda>e. if he_service_type e \<noteq> 1 then 1 else 0 :: nat"
  from assms obtain servers where eps: "hs_endpoints session = sort_key ?key (collect_endpoints servers)"
    and ne: "collect_endpoints servers \<noteq> []"
    and ticket: "hs_ticket session \<noteq> []" "length (hs_ticket session) \<le> 8192"
    by (auto simp: highway_session_response_def bindE_Inr ok_or_Inr Let_def HIGHWAY_MAX_SECRET_BYTES_def not_less
        split: if_splits)
  have "hs_endpoints session \<noteq> []" using ne eps by (metis length_0_conv length_sort)
  moreover have "length (hs_endpoints session) = length (collect_endpoints servers)"
    "set (hs_endpoints session) = set (collect_endpoints servers)"
    "distinct (hs_endpoints session) = distinct (collect_endpoints servers)"
    by (simp_all add: eps)
  moreover have "sorted (map ?key (hs_endpoints session))" unfolding eps by (rule sorted_sort_key)
  ultimately show ?thesis
    using collect_endpoints_ok [of servers] ticket
    by (simp add: MAX_ENDPOINTS_def list_all_iff endpoint_ok_def endpoints_ok_def)
qed

section \<open>Response frames\<close>

lemma highway_frame_parts:
  "input ! 0 = FRAME_START \<Longrightarrow> input ! (length input - 1) = FRAME_END \<Longrightarrow>
   unat (from_be (take 4 (drop 1 input)) :: u32) = h \<Longrightarrow> unat (from_be (take 4 (drop 5 input)) :: u32) = b \<Longrightarrow>
   length input = 10 + h + b \<Longrightarrow>
   input = highway_frame (take h (drop 9 input)) (take b (drop (9 + h) input))"
proof -
  assume start: "input ! 0 = FRAME_START" and stop: "input ! (length input - 1) = FRAME_END"
    and h: "unat (from_be (take 4 (drop 1 input)) :: u32) = h"
    and b: "unat (from_be (take 4 (drop 5 input)) :: u32) = b" and len: "length input = 10 + h + b"
  have "input = take 1 input @ drop 1 input" by simp
  moreover have "drop 1 input = take 4 (drop 1 input) @ drop 5 input"
    using append_take_drop_id [of 4 "drop 1 input"] by simp
  moreover have "drop 5 input = take 4 (drop 5 input) @ drop 9 input"
    using append_take_drop_id [of 4 "drop 5 input"] by simp
  moreover have "drop 9 input = take h (drop 9 input) @ drop (9 + h) input"
    using append_take_drop_id [of h "drop 9 input"] by (simp add: add.commute)
  moreover have "drop (9 + h) input = take b (drop (9 + h) input) @ drop (9 + h + b) input"
    using append_take_drop_id [of b "drop (9 + h) input"] by (simp add: ac_simps)
  ultimately have split: "input = take 1 input @ take 4 (drop 1 input) @ take 4 (drop 5 input) @ take h (drop 9 input) @
      take b (drop (9 + h) input) @ drop (9 + h + b) input"
    by metis
  have s: "take 1 input = [FRAME_START]"
    using start len by (cases input) simp_all
  have e: "drop (9 + h + b) input = [FRAME_END]"
    using stop len by (intro nth_equalityI) (auto simp: nth_drop add.assoc)
  have n: "take 4 (drop 1 input) = to_be 4 (of_nat h :: u32)" "take 4 (drop 5 input) = to_be 4 (of_nat b :: u32)"
  proof -
    have "length (take 4 (drop 1 input)) = 4" "length (take 4 (drop 5 input)) = 4" using len by simp_all
    then show "take 4 (drop 1 input) = to_be 4 (of_nat h :: u32)" "take 4 (drop 5 input) = to_be 4 (of_nat b :: u32)"
      unfolding h [symmetric] b [symmetric] by (simp_all only: of_nat_unat_id to_be_u32)
  qed
  have l: "length (take h (drop 9 input)) = h" "length (take b (drop (9 + h) input)) = b"
    using len by simp_all
  show ?thesis
    unfolding highway_frame_def l using split unfolding s e n .
qed

lemma highway_bounds: "MAX_HEAD_BYTES = 65536" "HIGHWAY_MAX_BODY_BYTES = 4194304" "MAX_EXTENSION_BYTES = 65536"
  by (simp_all add: MAX_HEAD_BYTES_def HIGHWAY_MAX_BODY_BYTES_def MAX_EXTENSION_BYTES_def)

definition acknowledgement :: "response_head_wire \<Rightarrow> upload_response" where
  "acknowledgement head = \<lparr>ur_sequence = map_option bh_sequence (ph_base head),
     ur_offset = map_option sh_offset (ph_segment head),
     ur_data_length = map_option sh_data_length (ph_segment head), ur_extension = ph_extension head\<rparr>"

lemma length_highway_frame: "length (highway_frame head body) = 10 + length head + length body"
  by (simp add: highway_frame_def)

lemma highway_frame_fields:
  assumes "length head < 2 ^ 32" "length body < 2 ^ 32"
  shows "highway_frame head body ! 0 = FRAME_START"
    "highway_frame head body ! (9 + length head + length body) = FRAME_END"
    "unat (from_be (take 4 (drop 1 (highway_frame head body))) :: u32) = length head"
    "unat (from_be (take 4 (drop 5 (highway_frame head body))) :: u32) = length body"
    "take (length head) (drop 9 (highway_frame head body)) = head"
proof -
  show "highway_frame head body ! 0 = FRAME_START" by (simp add: highway_frame_def)
  have "highway_frame head body = ([FRAME_START] @ to_be 4 (of_nat (length head) :: u32) @
      to_be 4 (of_nat (length body) :: u32) @ head @ body) @ [FRAME_END]"
    by (simp add: highway_frame_def)
  moreover have "length ([FRAME_START] @ to_be 4 (of_nat (length head) :: u32) @
      to_be 4 (of_nat (length body) :: u32) @ head @ body) = 9 + length head + length body" by simp
  ultimately show "highway_frame head body ! (9 + length head + length body) = FRAME_END"
    by (metis nth_append_length)
  have "drop 1 (highway_frame head body) = to_be 4 (of_nat (length head) :: u32) @
      to_be 4 (of_nat (length body) :: u32) @ head @ body @ [FRAME_END]"
    by (simp add: highway_frame_def)
  then show "unat (from_be (take 4 (drop 1 (highway_frame head body))) :: u32) = length head"
    using assms by (simp add: unat_of_nat)
  have d5: "drop 5 (highway_frame head body) = to_be 4 (of_nat (length body) :: u32) @ head @ body @ [FRAME_END]"
    by (simp add: highway_frame_def)
  then show "unat (from_be (take 4 (drop 5 (highway_frame head body))) :: u32) = length body"
    using assms by (simp add: unat_of_nat)
  have "drop 9 (highway_frame head body) = drop 4 (drop 5 (highway_frame head body))" by simp
  also have "\<dots> = head @ body @ [FRAME_END]" unfolding d5 by simp
  finally show "take (length head) (drop 9 (highway_frame head body)) = head" by simp
qed

text \<open>
  C36: The response decoder accepts exactly one frame format: it returns a response iff the input is the
  frame around some head within the bounds that the message codec reads as a head without error code,
  and then it is that head's acknowledgement.
\<close>

theorem highway_response_format:
  "decode_upload_response codec input = Inr r \<longleftrightarrow>
   (\<exists>h body head. input = highway_frame h body \<and> h \<noteq> [] \<and> length h \<le> 65536 \<and> length body \<le> 4194304 \<and>
      hc_response_head codec h = Some head \<and> ph_error_code head = 0 \<and> length (ph_extension head) \<le> 65536 \<and>
      r = acknowledgement head)"
proof
  assume run: "decode_upload_response codec input = Inr r"
  define hl where "hl = unat (from_be (take 4 (drop 1 input)) :: u32)"
  define bl where "bl = unat (from_be (take 4 (drop 5 input)) :: u32)"
  from run obtain head where raw: "\<not> (length input < 10 \<or> input ! 0 \<noteq> FRAME_START \<or> input ! (length input - 1) \<noteq> FRAME_END)"
      "\<not> (hl = 0 \<or> 65536 < hl \<or> 4194304 < bl)" "\<not> length input \<noteq> 10 + hl + bl"
      "hc_response_head codec (take hl (drop 9 input)) = Some head" "\<not> ph_error_code head \<noteq> 0"
      "\<not> 65536 < length (ph_extension head)" "Inr (acknowledgement head) = (Inr r :: highway_error + upload_response)"
    unfolding decode_upload_response_def hl_def [symmetric] bl_def [symmetric] Let_def if_Inl_Inr bindE_Inr
      ok_or_Inr highway_bounds acknowledgement_def [symmetric]
    by (elim conjE exE) (rule that)
  then have p: "10 \<le> length input" "input ! 0 = FRAME_START"
      "input ! (length input - 1) = FRAME_END" "hl \<noteq> 0" "hl \<le> 65536" "bl \<le> 4194304" "length input = 10 + hl + bl"
      "hc_response_head codec (take hl (drop 9 input)) = Some head" "ph_error_code head = 0"
      "length (ph_extension head) \<le> 65536" "r = acknowledgement head"
    by (simp_all only: not_less de_Morgan_disj not_not sum.inject simp_thms)
  have "input = highway_frame (take hl (drop 9 input)) (take bl (drop (9 + hl) input))"
    by (rule highway_frame_parts [OF p(2,3) hl_def [symmetric] bl_def [symmetric] p(7)])
  moreover have "length (take hl (drop 9 input)) = hl" "length (take bl (drop (9 + hl) input)) = bl" using p by simp_all
  moreover from this p have "take hl (drop 9 input) \<noteq> []" by auto
  ultimately show "\<exists>h body head. input = highway_frame h body \<and> h \<noteq> [] \<and> length h \<le> 65536 \<and> length body \<le> 4194304 \<and>
      hc_response_head codec h = Some head \<and> ph_error_code head = 0 \<and> length (ph_extension head) \<le> 65536 \<and>
      r = acknowledgement head"
    using p by (intro exI [of _ "take hl (drop 9 input)"] exI [of _ "take bl (drop (9 + hl) input)"] exI [of _ head]
      conjI) simp_all
next
  assume "\<exists>h body head. input = highway_frame h body \<and> h \<noteq> [] \<and> length h \<le> 65536 \<and> length body \<le> 4194304 \<and>
      hc_response_head codec h = Some head \<and> ph_error_code head = 0 \<and> length (ph_extension head) \<le> 65536 \<and>
      r = acknowledgement head"
  then obtain h body head where i: "input = highway_frame h body" "h \<noteq> []" "length h \<le> 65536" "length body \<le> 4194304"
      "hc_response_head codec h = Some head" "ph_error_code head = 0" "length (ph_extension head) \<le> 65536"
      "r = acknowledgement head"
    by blast
  note f = highway_frame_fields [of h body]
  have "length h < 2 ^ 32" "length body < 2 ^ 32" using i by simp_all
  note f = f [OF this]
  have "length input = 10 + length h + length body" using i(1) length_highway_frame by simp
  then show "decode_upload_response codec input = Inr r"
    using f i unfolding decode_upload_response_def Let_def i(1)
    by (simp add: MAX_HEAD_BYTES_def HIGHWAY_MAX_BODY_BYTES_def MAX_EXTENSION_BYTES_def acknowledgement_def add.assoc)
qed

section \<open>Sequential uploads\<close>








text \<open>A concrete service: it hands out one endpoint and accepts every block.\<close>

definition demo_codec :: highway_codec where
  "demo_codec = \<lparr>hc_session_outer = (\<lambda>_. []),
     hc_session_response = (\<lambda>_. Some \<lparr>ro_connection = Some \<lparr>rw_ticket = [7], rw_session_key = [],
       rw_servers = [\<lparr>iw_service_type = 1, iw_addresses =
         [\<lparr>aw_address_type = 0, aw_ipv4 = 0x08080808, aw_port = 80, aw_area = 0\<rparr>]\<rparr>]\<rparr>\<rparr>),
     hc_request_head = (\<lambda>_. [1]),
     hc_response_head = (\<lambda>_. Some \<lparr>ph_base = None, ph_segment = None, ph_error_code = 0, ph_allow_retry = 0,
       ph_extension = []\<rparr>), hc_md5 = (\<lambda>_. replicate 16 0)\<rparr>"

definition demo_session :: highway_session where
  "demo_session = \<lparr>hs_ticket = [7], hs_endpoints =
     [\<lparr>he_service_type = 1, he_address = [8, 8, 8, 8], he_port = 80\<rparr>]\<rparr>"

lemma demo_session_response: "highway_session_response demo_codec [1] = Inr demo_session"
proof -
  have "to_be 4 (0x08080808 :: u32) = [8, 8, 8, 8]" by (simp add: to_be_def nat_be_numeral)
  then show ?thesis
    by (simp add: highway_session_response_def demo_codec_def demo_session_def MAX_SESSION_BYTES_def
        HIGHWAY_MAX_SECRET_BYTES_def collect_endpoints_def MAX_ENDPOINTS_def Let_def)
qed

lemma highway_session_endpoints_witness: "hs_endpoints demo_session \<noteq> [] \<and> distinct (hs_endpoints demo_session)"
  using highway_session_endpoints [OF demo_session_response] by simp









end
