(* ===== verification/Oidb.thy ===== *)
theory Oidb
  imports Rust_Str
begin

text \<open>
  Protobuf messages as the \<open>derive(prost::Message)\<close> attributes of the sources describe them, and the
  generic OIDB envelope of \<open>crates/qq-wire/src/oidb.rs\<close>.

  The prost library itself is a parameter: an encoder of described messages and a decoder per
  message type. What the code relies on is stated where it is used as a law of that parameter.
\<close>

section \<open>Messages\<close>

text \<open>
  A message value lists its fields in declaration order with the tag and label of each attribute: a
  plain field (encoded unless it is the type's default), an \<open>optional\<close> or a \<open>repeated\<close> one.
\<close>

datatype pb_field =
    Singular nat pb_value
  | Optional nat "pb_value option"
  | Repeated nat "pb_value list"
and pb_value =
    PbU32 u32
  | PbU64 u64
  | PbI32 i32
  | PbI64 i64
  | PbBool bool
  | PbString rstr
  | PbBytes bytes
  | PbMessage "pb_field list"

type_synonym pb_encoder = "pb_field list \<Rightarrow> bytes"

abbreviation sub_message :: "nat \<Rightarrow> pb_field list \<Rightarrow> pb_field" where
  "sub_message tag fields \<equiv> Optional tag (Some (PbMessage fields))"

section \<open>The OIDB envelope\<close>

datatype oidb_error = OidbFrameError

definition MAX_OIDB_BODY_BYTES :: nat where
  "MAX_OIDB_BODY_BYTES = 2 * 1024 * 1024"

definition MAX_ERROR_MESSAGE_BYTES :: nat where
  "MAX_ERROR_MESSAGE_BYTES = 4 * 1024"

record oidb_wire =
  ow_command :: u32
  ow_subcommand :: u32
  ow_error_code :: u32
  ow_body :: bytes
  ow_error_message :: rstr
  ow_reserved :: i32

definition oidb_fields :: "oidb_wire \<Rightarrow> pb_field list" where
  "oidb_fields w =
     [Singular 1 (PbU32 (ow_command w)), Singular 2 (PbU32 (ow_subcommand w)),
      Singular 3 (PbU32 (ow_error_code w)), Singular 4 (PbBytes (ow_body w)),
      Singular 5 (PbString (ow_error_message w)), Singular 12 (PbI32 (ow_reserved w))]"

record oidb_request_frame =
  of_command :: u32
  of_subcommand :: u32
  of_body :: bytes
  of_reserved :: i32

record oidb_response_frame =
  or_error_code :: u32
  or_body :: bytes

definition oidb_encode_request :: "pb_encoder \<Rightarrow> u32 \<Rightarrow> u32 \<Rightarrow> bytes \<Rightarrow> i32 \<Rightarrow> bytes" where
  "oidb_encode_request encode command subcommand body reserved =
     encode (oidb_fields \<lparr>ow_command = command, ow_subcommand = subcommand, ow_error_code = 0, ow_body = body,
       ow_error_message = [], ow_reserved = reserved\<rparr>)"

definition validate_command_and_body :: "u32 \<Rightarrow> bytes \<Rightarrow> oidb_error + unit" where
  "validate_command_and_body command body =
     (if command = 0 \<or> MAX_OIDB_BODY_BYTES < length body then Inl OidbFrameError else Inr ())"

definition encode_oidb_request :: "pb_encoder \<Rightarrow> u32 \<Rightarrow> u32 \<Rightarrow> bytes \<Rightarrow> i32 \<Rightarrow> oidb_error + bytes" where
  "encode_oidb_request encode command subcommand body reserved =
     bindE (validate_command_and_body command body) (\<lambda>_.
     if body = [] then Inl OidbFrameError
     else Inr (oidb_encode_request encode command subcommand body reserved))"

definition encode_empty_oidb_request :: "pb_encoder \<Rightarrow> u32 \<Rightarrow> u32 \<Rightarrow> i32 \<Rightarrow> oidb_error + bytes" where
  "encode_empty_oidb_request encode command subcommand reserved =
     bindE (validate_command_and_body command []) (\<lambda>_.
     Inr (oidb_encode_request encode command subcommand [] reserved))"

definition oidb_decode :: "(bytes \<Rightarrow> oidb_wire option) \<Rightarrow> bytes \<Rightarrow> oidb_error + oidb_wire" where
  "oidb_decode dec input =
     (if MAX_OIDB_BODY_BYTES + MAX_ERROR_MESSAGE_BYTES + 256 < length input then Inl OidbFrameError
      else ok_or OidbFrameError (dec input))"

definition decode_oidb_request :: "(bytes \<Rightarrow> oidb_wire option) \<Rightarrow> bytes \<Rightarrow> oidb_error + oidb_request_frame" where
  "decode_oidb_request dec input =
     bindE (oidb_decode dec input) (\<lambda>frame.
     bindE (validate_command_and_body (ow_command frame) (ow_body frame)) (\<lambda>_.
     if ow_error_code frame \<noteq> 0 \<or> ow_error_message frame \<noteq> [] then Inl OidbFrameError
     else Inr \<lparr>of_command = ow_command frame, of_subcommand = ow_subcommand frame, of_body = ow_body frame,
               of_reserved = ow_reserved frame\<rparr>))"

definition decode_oidb_response :: "(bytes \<Rightarrow> oidb_wire option) \<Rightarrow> bytes \<Rightarrow> oidb_error + oidb_response_frame" where
  "decode_oidb_response dec input =
     bindE (oidb_decode dec input) (\<lambda>frame.
     if MAX_OIDB_BODY_BYTES < length (ow_body frame) \<or> MAX_ERROR_MESSAGE_BYTES < length (ow_error_message frame) \<or>
        list_ex is_control (chars (ow_error_message frame))
     then Inl OidbFrameError
     else Inr \<lparr>or_error_code = ow_error_code frame, or_body = ow_body frame\<rparr>)"

text \<open>
  What prost documents of the envelope message: decoding inverts encoding, and the encoding adds to
  the two length-delimited fields only tags, lengths and four small numbers.
\<close>

definition oidb_law :: "pb_encoder \<Rightarrow> (bytes \<Rightarrow> oidb_wire option) \<Rightarrow> bool" where
  "oidb_law encode dec \<longleftrightarrow>
     (\<forall>w. length (ow_body w) \<le> MAX_OIDB_BODY_BYTES \<longrightarrow> length (ow_error_message w) \<le> MAX_ERROR_MESSAGE_BYTES \<longrightarrow>
        dec (encode (oidb_fields w)) = Some w \<and>
        length (encode (oidb_fields w)) \<le> length (ow_body w) + length (ow_error_message w) + 64)"

lemma oidb_lawD:
  assumes "oidb_law encode dec" and "length (ow_body w) \<le> MAX_OIDB_BODY_BYTES"
    and "length (ow_error_message w) \<le> MAX_ERROR_MESSAGE_BYTES"
  shows "dec (encode (oidb_fields w)) = Some w \<and>
    length (encode (oidb_fields w)) \<le> length (ow_body w) + length (ow_error_message w) + 64"
  using assms by (simp add: oidb_law_def)

lemma oidb_request_decodes:
  assumes law: "oidb_law encode dec" and enc: "encode_oidb_request encode command subcommand body reserved = Inr bs"
  shows "decode_oidb_request dec bs = Inr \<lparr>of_command = command, of_subcommand = subcommand, of_body = body,
    of_reserved = reserved\<rparr> \<and> body \<noteq> []"
proof -
  let ?w = "\<lparr>ow_command = command, ow_subcommand = subcommand, ow_error_code = 0, ow_body = body,
       ow_error_message = [], ow_reserved = reserved\<rparr>"
  from enc have bs: "bs = encode (oidb_fields ?w)" and v: "command \<noteq> 0" "length body \<le> MAX_OIDB_BODY_BYTES" "body \<noteq> []"
    by (auto simp: encode_oidb_request_def validate_command_and_body_def oidb_encode_request_def split: if_splits)
  have "dec bs = Some ?w \<and> length bs \<le> length body + 64"
    using oidb_lawD [OF law, of ?w] v(2) by (simp add: bs)
  with v show ?thesis
    by (simp add: decode_oidb_request_def oidb_decode_def validate_command_and_body_def MAX_OIDB_BODY_BYTES_def
        MAX_ERROR_MESSAGE_BYTES_def)
qed

lemma oidb_empty_request_decodes:
  assumes law: "oidb_law encode dec" and enc: "encode_empty_oidb_request encode command subcommand reserved = Inr bs"
  shows "decode_oidb_request dec bs = Inr \<lparr>of_command = command, of_subcommand = subcommand, of_body = [],
    of_reserved = reserved\<rparr>"
proof -
  let ?w = "\<lparr>ow_command = command, ow_subcommand = subcommand, ow_error_code = 0, ow_body = [],
       ow_error_message = [], ow_reserved = reserved\<rparr>"
  from enc have bs: "bs = encode (oidb_fields ?w)" and v: "command \<noteq> 0"
    by (auto simp: encode_empty_oidb_request_def validate_command_and_body_def oidb_encode_request_def split: if_splits)
  have "dec bs = Some ?w \<and> length bs \<le> 64"
    using oidb_lawD [OF law, of ?w] by (simp add: bs)
  with v show ?thesis
    by (simp add: decode_oidb_request_def oidb_decode_def validate_command_and_body_def MAX_OIDB_BODY_BYTES_def
        MAX_ERROR_MESSAGE_BYTES_def)
qed

text \<open>A response within the bounds decodes to its error code and body.\<close>

lemma oidb_response_decodes:
  assumes law: "oidb_law encode dec" and b: "length (ow_body w) \<le> MAX_OIDB_BODY_BYTES"
    and m: "length (ow_error_message w) \<le> MAX_ERROR_MESSAGE_BYTES"
    and c: "\<not> list_ex is_control (chars (ow_error_message w))"
  shows "decode_oidb_response dec (encode (oidb_fields w)) =
    Inr \<lparr>or_error_code = ow_error_code w, or_body = ow_body w\<rparr>"
  using oidb_lawD [OF law b m] b m c by (simp add: decode_oidb_response_def oidb_decode_def)

text \<open>An encoder and decoder that satisfy the law, for concrete inputs.\<close>

definition pb_payload :: "pb_field \<Rightarrow> pb_value" where
  "pb_payload f = (case f of Singular _ v \<Rightarrow> v | _ \<Rightarrow> PbBool False)"

definition pb_u32_of :: "pb_value \<Rightarrow> u32" where
  "pb_u32_of v = (case v of PbU32 x \<Rightarrow> x | PbI32 x \<Rightarrow> x | _ \<Rightarrow> 0)"

definition pb_bytes_of :: "pb_value \<Rightarrow> bytes" where
  "pb_bytes_of v = (case v of PbBytes x \<Rightarrow> x | PbString x \<Rightarrow> x | _ \<Rightarrow> [])"

definition demo_oidb_encode :: pb_encoder where
  "demo_oidb_encode fs =
     (let n = \<lambda>i. pb_u32_of (pb_payload (fs ! i)); b = \<lambda>i. pb_bytes_of (pb_payload (fs ! i)) in
      if length fs \<noteq> 6 then [1]
      else to_be 4 (n 0) @ to_be 4 (n 1) @ to_be 4 (n 2) @ to_be 4 (n 5) @ to_be 8 (of_nat (length (b 3)) :: u64) @
        b 3 @ b 4)"

definition demo_oidb_decode :: "bytes \<Rightarrow> oidb_wire option" where
  "demo_oidb_decode bs =
     (let n = unat (from_be (take 8 (drop 16 bs)) :: u64) in
      Some \<lparr>ow_command = from_be (take 4 bs), ow_subcommand = from_be (take 4 (drop 4 bs)),
        ow_error_code = from_be (take 4 (drop 8 bs)), ow_body = take n (drop 24 bs),
        ow_error_message = drop (24 + n) bs, ow_reserved = from_be (take 4 (drop 12 bs))\<rparr>)"

lemma demo_oidb_law: "oidb_law demo_oidb_encode demo_oidb_decode"
  unfolding oidb_law_def
proof (intro allI impI conjI)
  fix w :: oidb_wire
  assume b: "length (ow_body w) \<le> MAX_OIDB_BODY_BYTES"
  then have "unat (of_nat (length (ow_body w)) :: u64) = length (ow_body w)"
    by (intro u64_small) (simp add: MAX_OIDB_BODY_BYTES_def)
  then show "demo_oidb_decode (demo_oidb_encode (oidb_fields w)) = Some w"
    by (simp add: demo_oidb_decode_def demo_oidb_encode_def oidb_fields_def pb_payload_def pb_u32_of_def pb_bytes_of_def
        Let_def)
  show "length (demo_oidb_encode (oidb_fields w)) \<le> length (ow_body w) + length (ow_error_message w) + 64"
    by (simp add: demo_oidb_encode_def oidb_fields_def pb_payload_def pb_u32_of_def pb_bytes_of_def Let_def)
qed

end
