(* ===== verification/Control.thy ===== *)
theory Control
  imports Oidb
begin

text \<open>
  \<open>crates/qq-control\<close>: the group, friend and account actions. Each action is a function that checks
  its arguments, fills in the protobuf message of its struct and wraps it in an OIDB request with its
  command, subcommand, route text and signing operation (\<open>lib.rs\<close> and the single-action modules);
  \<open>encode\<close> is the protobuf encoder. The last section states what ties a request's route text to
  the numbers inside its body.
\<close>

datatype control_error = ControlError

definition MAX_UID_BYTES :: nat where
  "MAX_UID_BYTES = 128"

definition MAX_CONTROL_TEXT_BYTES :: nat where
  "MAX_CONTROL_TEXT_BYTES = 4096"

record control_request =
  cr_command :: rstr
  cr_body :: bytes
  cr_signing_operation :: "u32 option"

section \<open>Requests and the generic response\<close>

definition request_reserved ::
  "pb_encoder \<Rightarrow> u32 \<Rightarrow> u32 \<Rightarrow> rstr \<Rightarrow> u32 option \<Rightarrow> i32 \<Rightarrow> pb_field list \<Rightarrow> control_error + control_request" where
  "request_reserved encode command subcommand route signing_operation reserved message =
     (let body = encode message in
      if body = [] then Inl ControlError
      else bindE (map_err (\<lambda>_. ControlError) (encode_oidb_request encode command subcommand body reserved)) (\<lambda>bs.
           Inr \<lparr>cr_command = route, cr_body = bs, cr_signing_operation = signing_operation\<rparr>))"

definition control_request_of ::
  "pb_encoder \<Rightarrow> u32 \<Rightarrow> u32 \<Rightarrow> rstr \<Rightarrow> u32 option \<Rightarrow> pb_field list \<Rightarrow> control_error + control_request" where
  "control_request_of encode command subcommand route signing_operation message =
     request_reserved encode command subcommand route signing_operation 0 message"

definition parse_control_response :: "(bytes \<Rightarrow> oidb_wire option) \<Rightarrow> bytes \<Rightarrow> control_error + unit" where
  "parse_control_response dec input =
     bindE (map_err (\<lambda>_. ControlError) (decode_oidb_response dec input)) (\<lambda>response.
     if or_error_code response = 0 then Inr () else Inl ControlError)"

text \<open>
  The prologue every typed response parser shares: the OIDB envelope decodes, its error code is
  zero, and its body decodes as the operation's message.
\<close>

definition typed_response ::
  "(bytes \<Rightarrow> oidb_wire option) \<Rightarrow> (bytes \<Rightarrow> 'm option) \<Rightarrow> bytes \<Rightarrow> control_error + 'm" where
  "typed_response dec decode_message input =
     bindE (map_err (\<lambda>_. ControlError) (decode_oidb_response dec input)) (\<lambda>outer.
     if or_error_code outer \<noteq> 0 then Inl ControlError
     else ok_or ControlError (decode_message (or_body outer)))"

definition has_control :: "rstr \<Rightarrow> bool" where
  "has_control s = list_ex is_control (chars s)"

definition validate_group :: "u32 \<Rightarrow> control_error + unit" where
  "validate_group group_id = (if group_id = 0 then Inl ControlError else Inr ())"

definition validate_uid :: "rstr \<Rightarrow> control_error + unit" where
  "validate_uid uid =
     (if uid = [] \<or> MAX_UID_BYTES < length uid \<or> has_control uid then Inl ControlError else Inr ())"

definition validate_group_uid_text :: "u32 \<Rightarrow> rstr \<Rightarrow> rstr \<Rightarrow> control_error + unit" where
  "validate_group_uid_text group_id uid text =
     bindE (validate_group group_id) (\<lambda>_.
     if uid = [] \<or> MAX_UID_BYTES < length uid \<or> has_control uid \<or>
        MAX_CONTROL_TEXT_BYTES < length text \<or> has_control text
     then Inl ControlError else Inr ())"

text \<open>\<open>u32::try_from\<close> of a \<open>u64\<close>, and \<open>str::parse::<u32>\<close>.\<close>

definition u32_try_from :: "u64 \<Rightarrow> u32 option" where
  "u32_try_from v = (if unat v < 2 ^ 32 then Some (ucast v) else None)"

definition parse_u32 :: "rstr \<Rightarrow> u32 option" where
  "parse_u32 s =
     (let digits = (case s of [] \<Rightarrow> [] | b # bs \<Rightarrow> if b = 0x2B then bs else s) in
      if digits = [] \<or> \<not> list_all is_ascii_digit digits \<or> 2 ^ 32 \<le> digits_value digits then None
      else Some (of_nat (digits_value digits)))"

section \<open>Group and friend actions\<close>

definition kick_body :: "u32 \<Rightarrow> rstr \<Rightarrow> bool \<Rightarrow> rstr \<Rightarrow> pb_field list" where
  "kick_body group_id uid reject_add_request reason =
     [Singular 1 (PbU32 group_id), Singular 3 (PbString uid), Singular 4 (PbBool reject_add_request),
      Singular 5 (PbString reason)]"

definition group_kick ::
  "pb_encoder \<Rightarrow> u32 \<Rightarrow> rstr \<Rightarrow> bool \<Rightarrow> rstr \<Rightarrow> control_error + control_request" where
  "group_kick encode group_id uid reject_add_request reason =
     bindE (validate_group_uid_text group_id uid reason) (\<lambda>_.
     control_request_of encode 0x08a0 1 (lit ''OidbSvcTrpcTcp.0x8a0_1'') None
       (kick_body group_id uid reject_add_request reason))"

definition mute_value :: "rstr \<Rightarrow> u32 \<Rightarrow> pb_field list" where
  "mute_value uid duration_seconds = [Singular 1 (PbString uid), Singular 2 (PbU32 duration_seconds)]"

definition mute_body :: "u32 \<Rightarrow> u32 \<Rightarrow> pb_field list \<Rightarrow> pb_field list" where
  "mute_body group_id kind v =
     [Singular 1 (PbU32 group_id), Singular 2 (PbU32 kind), sub_message 3 v]"

definition group_ban :: "pb_encoder \<Rightarrow> u32 \<Rightarrow> rstr \<Rightarrow> u32 \<Rightarrow> control_error + control_request" where
  "group_ban encode group_id uid duration_seconds =
     bindE (validate_group_uid_text group_id uid []) (\<lambda>_.
     control_request_of encode 0x1253 1 (lit ''OidbSvcTrpcTcp.0x1253_1'') None
       (mute_body group_id 1 (mute_value uid duration_seconds)))"

definition whole_mute_state :: "u32 option \<Rightarrow> pb_field list" where
  "whole_mute_state v = [Optional 17 (map_option PbU32 v)]"

definition whole_mute_body :: "u32 \<Rightarrow> pb_field list \<Rightarrow> pb_field list" where
  "whole_mute_body group_id state = [Singular 1 (PbU32 group_id), sub_message 2 state]"

definition group_whole_ban :: "pb_encoder \<Rightarrow> u32 \<Rightarrow> bool \<Rightarrow> control_error + control_request" where
  "group_whole_ban encode group_id enabled =
     bindE (validate_group group_id) (\<lambda>_.
     control_request_of encode 0x089a 0 (lit ''OidbSvcTrpcTcp.0x89a_0'') (Some 4)
       (whole_mute_body group_id (whole_mute_state (Some (if enabled then 0xFFFFFFFF else 0)))))"

definition admin_body :: "u32 \<Rightarrow> rstr \<Rightarrow> bool \<Rightarrow> pb_field list" where
  "admin_body group_id uid enabled =
     [Singular 1 (PbU32 group_id), Singular 2 (PbString uid), Singular 3 (PbBool enabled)]"

definition group_admin :: "pb_encoder \<Rightarrow> u32 \<Rightarrow> rstr \<Rightarrow> bool \<Rightarrow> control_error + control_request" where
  "group_admin encode group_id uid enabled =
     bindE (validate_group_uid_text group_id uid []) (\<lambda>_.
     control_request_of encode 0x1096 1 (lit ''OidbSvcTrpcTcp.0x1096_1'') None (admin_body group_id uid enabled))"

record member_text_body =
  mt_uid :: rstr
  mt_title :: "rstr option"
  mt_title_expires_at :: "i32 option"
  mt_title_copy :: "rstr option"
  mt_card :: "rstr option"

definition member_text_fields :: "member_text_body \<Rightarrow> pb_field list" where
  "member_text_fields b =
     [Singular 1 (PbString (mt_uid b)), Optional 5 (map_option PbString (mt_title b)),
      Optional 6 (map_option PbI32 (mt_title_expires_at b)), Optional 7 (map_option PbString (mt_title_copy b)),
      Optional 8 (map_option PbString (mt_card b))]"

definition for_card :: "rstr \<Rightarrow> member_text_body" where
  "for_card v = \<lparr>mt_uid = [], mt_title = None, mt_title_expires_at = None, mt_title_copy = None, mt_card = Some v\<rparr>"

definition for_title :: "rstr \<Rightarrow> member_text_body" where
  "for_title v =
     \<lparr>mt_uid = [], mt_title = Some v, mt_title_expires_at = Some (- 1), mt_title_copy = Some v, mt_card = None\<rparr>"

definition member_text_message :: "u32 \<Rightarrow> member_text_body \<Rightarrow> pb_field list" where
  "member_text_message group_id v = [Singular 1 (PbU32 group_id), sub_message 3 (member_text_fields v)]"

definition member_text_request ::
  "pb_encoder \<Rightarrow> u32 \<Rightarrow> rstr \<Rightarrow> member_text_body \<Rightarrow> control_error + control_request" where
  "member_text_request encode group_id uid v =
     (let (subcommand, command) =
        (if mt_card v \<noteq> None then (3, lit ''OidbSvcTrpcTcp.0x8fc_3'') else (2, lit ''OidbSvcTrpcTcp.0x8fc_2'')) in
      control_request_of encode 0x08fc subcommand command None (member_text_message group_id (v\<lparr>mt_uid := uid\<rparr>)))"

definition group_card :: "pb_encoder \<Rightarrow> u32 \<Rightarrow> rstr \<Rightarrow> rstr \<Rightarrow> control_error + control_request" where
  "group_card encode group_id uid new_card =
     bindE (validate_group_uid_text group_id uid new_card) (\<lambda>_. member_text_request encode group_id uid (for_card new_card))"

definition group_special_title :: "pb_encoder \<Rightarrow> u32 \<Rightarrow> rstr \<Rightarrow> rstr \<Rightarrow> control_error + control_request" where
  "group_special_title encode group_id uid title =
     bindE (validate_group_uid_text group_id uid title) (\<lambda>_. member_text_request encode group_id uid (for_title title))"

definition group_name_value :: "rstr \<Rightarrow> pb_field list" where
  "group_name_value name = [Singular 3 (PbString name)]"

definition group_name_body :: "u32 \<Rightarrow> pb_field list \<Rightarrow> pb_field list" where
  "group_name_body group_id v = [Singular 1 (PbU32 group_id), sub_message 2 v]"

definition group_name :: "pb_encoder \<Rightarrow> u32 \<Rightarrow> rstr \<Rightarrow> control_error + control_request" where
  "group_name encode group_id name =
     bindE (validate_group_uid_text group_id (lit ''valid'') name) (\<lambda>_.
     control_request_of encode 0x089a 15 (lit ''OidbSvcTrpcTcp.0x89a_15'') (Some 5)
       (group_name_body group_id (group_name_value name)))"

definition leave_body :: "u32 \<Rightarrow> pb_field list" where
  "leave_body group_id = [Singular 1 (PbU32 group_id)]"

definition group_leave :: "pb_encoder \<Rightarrow> u32 \<Rightarrow> control_error + control_request" where
  "group_leave encode group_id =
     bindE (validate_group group_id) (\<lambda>_.
     control_request_of encode 0x1097 1 (lit ''OidbSvcTrpcTcp.0x1097_1'') None (leave_body group_id))"

definition friend_like_body :: "rstr \<Rightarrow> u32 \<Rightarrow> u32 \<Rightarrow> pb_field list" where
  "friend_like_body uid field12 count =
     [Singular 11 (PbString uid), Singular 12 (PbU32 field12), Singular 13 (PbU32 count)]"

definition friend_like :: "pb_encoder \<Rightarrow> rstr \<Rightarrow> u32 \<Rightarrow> control_error + control_request" where
  "friend_like encode uid count =
     (if count = 0 \<or> 10 < count then Inl ControlError
      else bindE (validate_group_uid_text 1 uid []) (\<lambda>_.
           control_request_of encode 0x07e5 104 (lit ''OidbSvcTrpcTcp.0x7e5_104'') None (friend_like_body uid 71 count)))"

definition poke_body :: "u32 \<Rightarrow> u32 \<Rightarrow> u32 \<Rightarrow> u32 option \<Rightarrow> pb_field list" where
  "poke_body target_uin group_uin friend_uin extension =
     [Singular 1 (PbU32 target_uin), Singular 2 (PbU32 group_uin), Singular 5 (PbU32 friend_uin),
      Optional 6 (map_option PbU32 extension)]"

definition poke :: "pb_encoder \<Rightarrow> bool \<Rightarrow> u32 \<Rightarrow> u32 \<Rightarrow> control_error + control_request" where
  "poke encode in_group peer_uin target_uin =
     (if peer_uin = 0 \<or> target_uin = 0 then Inl ControlError
      else control_request_of encode 0x0ed3 1 (lit ''OidbSvcTrpcTcp.0xed3_1'') None
             (poke_body target_uin (if in_group then peer_uin else 0) (if in_group then 0 else peer_uin) (Some 0)))"

definition friend_request_decision :: "u32 \<Rightarrow> rstr \<Rightarrow> pb_field list" where
  "friend_request_decision decision source_uid = [Singular 1 (PbU32 decision), Singular 2 (PbString source_uid)]"

definition friend_request :: "pb_encoder \<Rightarrow> rstr \<Rightarrow> bool \<Rightarrow> control_error + control_request" where
  "friend_request encode source_uid approve =
     bindE (validate_uid source_uid) (\<lambda>_.
     control_request_of encode 0x0b5d 44 (lit ''OidbSvcTrpcTcp.0xb5d_44'') None
       (friend_request_decision (if approve then 3 else 5) source_uid))"

definition group_request_reference :: "u64 \<Rightarrow> u32 \<Rightarrow> u32 \<Rightarrow> rstr \<Rightarrow> pb_field list" where
  "group_request_reference sequence event_type group_id message =
     [Singular 1 (PbU64 sequence), Singular 2 (PbU32 event_type), Singular 3 (PbU32 group_id),
      Singular 4 (PbString message)]"

definition group_request_decision :: "u32 \<Rightarrow> pb_field list \<Rightarrow> pb_field list" where
  "group_request_decision decision reference = [Singular 1 (PbU32 decision), sub_message 2 reference]"

definition group_request ::
  "pb_encoder \<Rightarrow> u64 \<Rightarrow> u32 \<Rightarrow> u32 \<Rightarrow> bool \<Rightarrow> rstr \<Rightarrow> control_error + control_request" where
  "group_request encode sequence event_type group_id approve reason =
     bindE (validate_group_uid_text group_id (lit ''valid'') reason) (\<lambda>_.
     if sequence = 0 \<or> \<not> (event_type = 1 \<or> event_type = 2 \<or> event_type = 22) then Inl ControlError
     else request_reserved encode 0x10c8 1 (lit ''OidbSvcTrpcTcp.0x10c8_1'') (Some 6) 1
            (group_request_decision (if approve then 1 else 2)
              (group_request_reference sequence event_type group_id reason)))"

definition essence_body :: "u32 \<Rightarrow> u32 \<Rightarrow> u32 \<Rightarrow> pb_field list" where
  "essence_body group_code sequence random =
     [Singular 1 (PbU32 group_code), Singular 2 (PbU32 sequence), Singular 3 (PbU32 random)]"

definition essence_request ::
  "pb_encoder \<Rightarrow> u32 \<Rightarrow> u64 \<Rightarrow> u32 \<Rightarrow> u32 \<Rightarrow> rstr \<Rightarrow> control_error + control_request" where
  "essence_request encode group_code sequence random subcommand route =
     bindE (ok_or ControlError (u32_try_from sequence)) (\<lambda>sequence.
     if group_code = 0 \<or> sequence = 0 \<or> random = 0 then Inl ControlError
     else control_request_of encode 0x0eac subcommand route None (essence_body group_code sequence random))"

definition set_group_essence :: "pb_encoder \<Rightarrow> u32 \<Rightarrow> u64 \<Rightarrow> u32 \<Rightarrow> control_error + control_request" where
  "set_group_essence encode group_code sequence random =
     essence_request encode group_code sequence random 1 (lit ''OidbSvcTrpcTcp.0xeac_1'')"

definition delete_group_essence :: "pb_encoder \<Rightarrow> u32 \<Rightarrow> u64 \<Rightarrow> u32 \<Rightarrow> control_error + control_request" where
  "delete_group_essence encode group_code sequence random =
     essence_request encode group_code sequence random 2 (lit ''OidbSvcTrpcTcp.0xeac_2'')"

definition delete_friend_nested_constants :: "u32 \<Rightarrow> u32 \<Rightarrow> u32 \<Rightarrow> pb_field list" where
  "delete_friend_nested_constants x y z = [Singular 1 (PbU32 x), Singular 2 (PbU32 y), Singular 3 (PbU32 z)]"

definition delete_friend_constants :: "u32 \<Rightarrow> u32 \<Rightarrow> pb_field list \<Rightarrow> pb_field list" where
  "delete_friend_constants x y nested = [Singular 1 (PbU32 x), Singular 2 (PbU32 y), sub_message 3 nested]"

definition delete_friend_target :: "rstr \<Rightarrow> pb_field list \<Rightarrow> bool \<Rightarrow> bool \<Rightarrow> pb_field list" where
  "delete_friend_target uid constants block field_four =
     [Singular 1 (PbString uid), sub_message 2 constants, Singular 3 (PbBool block), Singular 4 (PbBool field_four)]"

definition delete_friend_request :: "pb_field list \<Rightarrow> pb_field list" where
  "delete_friend_request target = [sub_message 1 target]"

definition delete_friend :: "pb_encoder \<Rightarrow> rstr \<Rightarrow> bool \<Rightarrow> control_error + control_request" where
  "delete_friend encode uid block =
     bindE (validate_uid uid) (\<lambda>_.
     control_request_of encode 0x126b 0 (lit ''OidbSvcTrpcTcp.0x126b_0'') None
       (delete_friend_request (delete_friend_target uid
         (delete_friend_constants 130 109 (delete_friend_nested_constants 8 8 50)) block False)))"

section \<open>Reactions and group bots\<close>

datatype emoji_chain_target = ChainGroup u32 | ChainPrivate rstr

definition reaction_body :: "u32 \<Rightarrow> u32 \<Rightarrow> rstr \<Rightarrow> u32 \<Rightarrow> bool \<Rightarrow> bool \<Rightarrow> pb_field list" where
  "reaction_body group_code sequence code kind field_six field_seven =
     [Singular 2 (PbU32 group_code), Singular 3 (PbU32 sequence), Singular 4 (PbString code),
      Singular 5 (PbU32 kind), Singular 6 (PbBool field_six), Singular 7 (PbBool field_seven)]"

definition group_reaction :: "pb_encoder \<Rightarrow> u32 \<Rightarrow> u64 \<Rightarrow> rstr \<Rightarrow> bool \<Rightarrow> control_error + control_request" where
  "group_reaction encode group_code sequence code add =
     bindE (ok_or ControlError (u32_try_from sequence)) (\<lambda>sequence.
     if group_code = 0 \<or> sequence = 0 \<or> code = [] \<or> 10 < length code \<or> list_ex (\<lambda>b. \<not> is_ascii_digit b) code \<or>
        (case parse_u32 code of None \<Rightarrow> True | Some v \<Rightarrow> v = 0)
     then Inl ControlError
     else let subcommand = (if add then 1 else 2);
              route = (if add then lit ''OidbSvcTrpcTcp.0x9082_1'' else lit ''OidbSvcTrpcTcp.0x9082_2'') in
          request_reserved encode 0x9082 subcommand route None 1
            (reaction_body group_code sequence code (if 3 < length code then 2 else 1) False False))"

definition emoji_chain_body :: "u32 \<Rightarrow> u32 \<Rightarrow> u32 \<Rightarrow> i32 \<Rightarrow> u32 option \<Rightarrow> rstr option \<Rightarrow> pb_field list" where
  "emoji_chain_body face_id sequence repeated_sequence kind group_code uid =
     [Singular 1 (PbU32 face_id), Singular 2 (PbU32 sequence), Singular 3 (PbU32 repeated_sequence),
      Singular 4 (PbI32 kind), Optional 5 (map_option PbU32 group_code), Optional 6 (map_option PbString uid)]"

definition chain_selector :: "emoji_chain_target \<Rightarrow> control_error + i32 \<times> u32 option \<times> rstr option" where
  "chain_selector target =
     (case target of
        ChainGroup group_code \<Rightarrow> if group_code \<noteq> 0 then Inr (2, Some group_code, None) else Inl ControlError
      | ChainPrivate uid \<Rightarrow>
          if uid \<noteq> [] \<and> length uid \<le> MAX_UID_BYTES \<and> \<not> has_control uid then Inr (1, None, Some uid)
          else Inl ControlError)"

definition join_emoji_chain ::
  "pb_encoder \<Rightarrow> emoji_chain_target \<Rightarrow> u64 \<Rightarrow> u32 \<Rightarrow> control_error + control_request" where
  "join_emoji_chain encode target sequence face_id =
     bindE (ok_or ControlError (u32_try_from sequence)) (\<lambda>sequence.
     if sequence = 0 \<or> face_id = 0 then Inl ControlError
     else bindE (chain_selector target) (\<lambda>(kind, group_code, uid).
          control_request_of encode 0x90ee 1 (lit ''OidbSvcTrpcTcp.0x90ee_1'') None
            (emoji_chain_body face_id sequence sequence kind group_code uid)))"

definition MAX_CALLBACK_BYTES :: nat where
  "MAX_CALLBACK_BYTES = 4096"

definition invalid_callback :: "rstr \<Rightarrow> bool" where
  "invalid_callback v \<longleftrightarrow> MAX_CALLBACK_BYTES < length v \<or> has_control v"

definition group_bot_status_body :: "u32 \<Rightarrow> u32 \<Rightarrow> u32 \<Rightarrow> u32 \<Rightarrow> pb_field list" where
  "group_bot_status_body bot_id kind state group_id =
     [Singular 1 (PbU32 bot_id), Singular 2 (PbU32 kind), Singular 3 (PbU32 state), Singular 4 (PbU32 group_id)]"

definition group_bot_status :: "pb_encoder \<Rightarrow> u32 \<Rightarrow> u32 \<Rightarrow> u32 \<Rightarrow> control_error + control_request" where
  "group_bot_status encode group_id bot_id state =
     (if bot_id = 0 \<or> 1 < state then Inl ControlError
      else bindE (validate_group_uid_text group_id (lit ''bot'') []) (\<lambda>_.
           control_request_of encode 0x907d 1 (lit ''OidbSvcTrpcTcp.0x907d_1'') None
             (group_bot_status_body bot_id 2 state group_id)))"

definition group_bot_callback_body ::
  "u32 \<Rightarrow> u32 \<Rightarrow> rstr \<Rightarrow> rstr \<Rightarrow> u32 \<Rightarrow> u32 \<Rightarrow> u32 \<Rightarrow> pb_field list" where
  "group_bot_callback_body bot_id sequence callback_id callback_data reserved group_id group_kind =
     [Singular 3 (PbU32 bot_id), Singular 4 (PbU32 sequence), Singular 5 (PbString callback_id),
      Singular 6 (PbString callback_data), Singular 7 (PbU32 reserved), Singular 8 (PbU32 group_id),
      Singular 9 (PbU32 group_kind)]"

definition group_bot_callback ::
  "pb_encoder \<Rightarrow> u32 \<Rightarrow> u32 \<Rightarrow> rstr \<Rightarrow> rstr \<Rightarrow> control_error + control_request" where
  "group_bot_callback encode group_id bot_id callback_id callback_data =
     (if bot_id = 0 \<or> invalid_callback callback_id \<or> invalid_callback callback_data \<or> group_id = 0
      then Inl ControlError
      else control_request_of encode 0x112e 1 (lit ''OidbSvcTrpcTcp.0x112e_1'') (Some 12)
             (group_bot_callback_body bot_id 11111 callback_id callback_data 0 group_id 1))"

end
