(* ===== verification/Control_Media.thy ===== *)
theory Control_Media
  imports Control
begin

text \<open>
  \<open>crates/qq-control\<close>: web tickets (\<open>ticket.rs\<close>), AI voices (\<open>ai_voice.rs\<close>), image recognition
  (\<open>image_ocr.rs\<close>) and face assets (\<open>face_asset.rs\<close>): request builders as in \<^theory_text>\<open>Control\<close>, and the parsers of
  their typed responses. A response message is a record with the fields of its struct, and prost's
  decoder of it a parameter.
\<close>

definition is_ascii_alphanumeric :: "u8 \<Rightarrow> bool" where
  "is_ascii_alphanumeric b \<longleftrightarrow>
     is_ascii_digit b \<or> is_ascii_lowercase b \<or> (0x41 \<le> unat b \<and> unat b \<le> 0x5A)"

section \<open>Web tickets\<close>

definition MAX_DOMAINS :: nat where
  "MAX_DOMAINS = 16"

definition MAX_DOMAIN_BYTES :: nat where
  "MAX_DOMAIN_BYTES = 253"

definition MAX_TICKET_BYTES :: nat where
  "MAX_TICKET_BYTES = 8 * 1024"

definition MAX_CLIENT_KEY_BYTES :: nat where
  "MAX_CLIENT_KEY_BYTES = 4 * 1024"

record domain_ticket =
  dt_domain :: rstr
  dt_value :: rstr

record ticket_property =
  tp_domain :: rstr
  tp_value :: bytes

record client_key_response =
  ck_client_key :: rstr
  ck_expiration :: u32

definition valid_domain :: "rstr \<Rightarrow> bool" where
  "valid_domain v \<longleftrightarrow> v \<noteq> [] \<and> length v \<le> MAX_DOMAIN_BYTES \<and> \<not> starts_with (lit ''.'') v \<and>
     \<not> ends_with (lit ''.'') v \<and> list_all (\<lambda>b. is_ascii_alphanumeric b \<or> b = 0x2E \<or> b = 0x2D) v"

definition domain_ticket_message :: "rstr list \<Rightarrow> pb_field list" where
  "domain_ticket_message domains = [Repeated 1 (map PbString domains)]"

text \<open>The loop over the domains, with the set of those already inserted.\<close>

fun domains_loop :: "rstr set \<Rightarrow> rstr list \<Rightarrow> control_error + unit" where
  "domains_loop unique [] = Inr ()"
| "domains_loop unique (d # ds) =
     (if \<not> valid_domain d \<or> d \<in> unique then Inl ControlError else domains_loop (insert d unique) ds)"

definition domain_ticket_request :: "pb_encoder \<Rightarrow> rstr list \<Rightarrow> control_error + control_request" where
  "domain_ticket_request encode domains =
     (if domains = [] \<or> MAX_DOMAINS < length domains then Inl ControlError
      else bindE (domains_loop {} domains) (\<lambda>_.
           control_request_of encode 0x102a 0 (lit ''OidbSvcTrpcTcp.0x102a_0'') None
             (domain_ticket_message domains)))"

definition ticket_of :: "ticket_property list \<Rightarrow> rstr \<Rightarrow> control_error + domain_ticket" where
  "ticket_of items domain =
     (case filter (\<lambda>item. tp_domain item = domain) items of
        [] \<Rightarrow> Inl ControlError
      | item # others \<Rightarrow>
          if others \<noteq> [] \<or> tp_value item = [] \<or> MAX_TICKET_BYTES < length (tp_value item) then Inl ControlError
          else bindE (from_utf8 ControlError (tp_value item)) (\<lambda>v.
               if has_control v then Inl ControlError else Inr \<lparr>dt_domain = domain, dt_value = v\<rparr>))"

definition parse_domain_ticket_response ::
  "(bytes \<Rightarrow> oidb_wire option) \<Rightarrow> (bytes \<Rightarrow> ticket_property list option) \<Rightarrow> bytes \<Rightarrow> rstr list \<Rightarrow>
   control_error + domain_ticket list" where
  "parse_domain_ticket_response dec dec_items response requested =
     (if requested = [] \<or> MAX_DOMAINS < length requested \<or> list_ex (\<lambda>v. \<not> valid_domain v) requested
      then Inl ControlError
      else bindE (typed_response dec dec_items response) (\<lambda>items.
           if length items \<noteq> length requested \<or> MAX_DOMAINS < length items then Inl ControlError
           else collect_results (map (ticket_of items) requested)))"

definition client_key_request :: "pb_encoder \<Rightarrow> control_error + control_request" where
  "client_key_request encode =
     bindE (map_err (\<lambda>_. ControlError) (encode_empty_oidb_request encode 0x102a 1 0)) (\<lambda>body.
     Inr \<lparr>cr_command = lit ''OidbSvcTrpcTcp.0x102a_1'', cr_body = body, cr_signing_operation = None\<rparr>)"

definition parse_client_key_response ::
  "(bytes \<Rightarrow> oidb_wire option) \<Rightarrow> (bytes \<Rightarrow> client_key_response option) \<Rightarrow> bytes \<Rightarrow> control_error + rstr \<times> u32" where
  "parse_client_key_response dec dec_key response =
     bindE (typed_response dec dec_key response) (\<lambda>body.
     if ck_client_key body = [] \<or> MAX_CLIENT_KEY_BYTES < length (ck_client_key body) \<or>
        has_control (ck_client_key body)
     then Inl ControlError
     else Inr (ck_client_key body, ck_expiration body))"

section \<open>AI voices\<close>

definition MAX_VOICE_RESPONSE_BYTES :: nat where
  "MAX_VOICE_RESPONSE_BYTES = 2 * 1024 * 1024"

definition MAX_CATEGORIES :: nat where
  "MAX_CATEGORIES = 32"

definition MAX_CHARACTERS_PER_CATEGORY :: nat where
  "MAX_CHARACTERS_PER_CATEGORY = 256"

definition MAX_VOICE_TEXT_BYTES :: nat where
  "MAX_VOICE_TEXT_BYTES = 1024"

definition MAX_MESSAGE_INFO_BYTES :: nat where
  "MAX_MESSAGE_INFO_BYTES = 1024 * 1024"

record ai_voice_character =
  vc_character_id :: rstr
  vc_character_name :: rstr
  vc_preview_url :: rstr

record ai_voice_category =
  vg_kind :: rstr
  vg_characters :: "ai_voice_character list"

datatype ai_voice_generation = VoicePending | VoiceReady bytes

record ai_voice_generation_response =
  vr_state :: u32
  vr_server_code :: "u32 option"
  vr_progress :: u32
  vr_message_info :: bytes

definition voice_valid_text :: "rstr \<Rightarrow> bool" where
  "voice_valid_text v \<longleftrightarrow> v \<noteq> [] \<and> length v \<le> MAX_VOICE_TEXT_BYTES \<and> is_trimmed v \<and> \<not> has_control v"

definition voice_valid_url :: "rstr \<Rightarrow> bool" where
  "voice_valid_url v \<longleftrightarrow> length v \<le> MAX_VOICE_TEXT_BYTES \<and>
     (starts_with (lit ''https://'') v \<or> starts_with (lit ''http://'') v) \<and>
     \<not> list_ex is_whitespace (chars v)"

definition ai_voice_characters_message :: "u32 \<Rightarrow> u32 \<Rightarrow> pb_field list" where
  "ai_voice_characters_message group_id chat_type = [Singular 1 (PbU32 group_id), Singular 2 (PbU32 chat_type)]"

definition ai_voice_characters :: "pb_encoder \<Rightarrow> u32 \<Rightarrow> u32 \<Rightarrow> control_error + control_request" where
  "ai_voice_characters encode group_id chat_type =
     (if group_id = 0 \<or> \<not> (chat_type = 1 \<or> chat_type = 2) then Inl ControlError
      else control_request_of encode 0x929d 0 (lit ''OidbSvcTrpcTcp.0x929d_0'') None
             (ai_voice_characters_message group_id chat_type))"

definition ai_voice_generation_client :: "u32 \<Rightarrow> pb_field list" where
  "ai_voice_generation_client request_random = [Singular 1 (PbU32 request_random)]"

definition ai_voice_generation_message ::
  "u32 \<Rightarrow> rstr \<Rightarrow> rstr \<Rightarrow> u32 \<Rightarrow> pb_field list \<Rightarrow> pb_field list" where
  "ai_voice_generation_message group_id character_id text chat_type client =
     [Singular 1 (PbU32 group_id), Singular 2 (PbString character_id), Singular 3 (PbString text),
      Singular 4 (PbU32 chat_type), sub_message 5 client]"

definition generate_ai_voice ::
  "pb_encoder \<Rightarrow> u32 \<Rightarrow> rstr \<Rightarrow> rstr \<Rightarrow> u32 \<Rightarrow> u32 \<Rightarrow> control_error + control_request" where
  "generate_ai_voice encode group_id character_id text chat_type request_random =
     (if group_id = 0 \<or> request_random = 0 \<or> \<not> (chat_type = 1 \<or> chat_type = 2) \<or>
         \<not> voice_valid_text character_id \<or> \<not> voice_valid_text text
      then Inl ControlError
      else control_request_of encode 0x929b 0 (lit ''OidbSvcTrpcTcp.0x929b_0'') None
             (ai_voice_generation_message group_id character_id text chat_type
               (ai_voice_generation_client request_random)))"

definition parse_ai_voice_generation_response ::
  "(bytes \<Rightarrow> oidb_wire option) \<Rightarrow> (bytes \<Rightarrow> ai_voice_generation_response option) \<Rightarrow> bytes \<Rightarrow>
   control_error + ai_voice_generation" where
  "parse_ai_voice_generation_response dec dec_voice input =
     (if MAX_VOICE_RESPONSE_BYTES < length input then Inl ControlError
      else bindE (typed_response dec dec_voice input) (\<lambda>response.
           if vr_state response = 1 \<and> vr_message_info response \<noteq> [] \<and>
              length (vr_message_info response) \<le> MAX_MESSAGE_INFO_BYTES
           then Inr (VoiceReady (vr_message_info response))
           else if vr_state response = 2 \<and> vr_message_info response = [] then Inr VoicePending
           else Inl ControlError))"

definition project_character :: "ai_voice_character \<Rightarrow> control_error + ai_voice_character" where
  "project_character c =
     (if \<not> voice_valid_text (vc_character_id c) \<or> \<not> voice_valid_text (vc_character_name c) \<or>
         \<not> voice_valid_url (vc_preview_url c)
      then Inl ControlError
      else Inr \<lparr>vc_character_id = vc_character_id c, vc_character_name = vc_character_name c,
                vc_preview_url = vc_preview_url c\<rparr>)"

definition project_category :: "ai_voice_category \<Rightarrow> control_error + ai_voice_category" where
  "project_category category =
     (if \<not> voice_valid_text (vg_kind category) \<or> MAX_CHARACTERS_PER_CATEGORY < length (vg_characters category)
      then Inl ControlError
      else bindE (collect_results (map project_character (vg_characters category))) (\<lambda>characters.
           Inr \<lparr>vg_kind = vg_kind category, vg_characters = characters\<rparr>))"

definition parse_ai_voice_characters_response ::
  "(bytes \<Rightarrow> oidb_wire option) \<Rightarrow> (bytes \<Rightarrow> ai_voice_category list option) \<Rightarrow> bytes \<Rightarrow>
   control_error + ai_voice_category list" where
  "parse_ai_voice_characters_response dec dec_categories input =
     (if MAX_VOICE_RESPONSE_BYTES < length input then Inl ControlError
      else bindE (typed_response dec dec_categories input) (\<lambda>categories.
           if MAX_CATEGORIES < length categories then Inl ControlError
           else collect_results (map project_category categories)))"

section \<open>Image recognition\<close>

definition MAX_IMAGE_URL_BYTES :: nat where
  "MAX_IMAGE_URL_BYTES = 16 * 1024"

definition MAX_OCR_RESPONSE_BYTES :: nat where
  "MAX_OCR_RESPONSE_BYTES = 2 * 1024 * 1024"

definition MAX_DETECTIONS :: nat where
  "MAX_DETECTIONS = 2048"

definition MAX_COORDINATES :: nat where
  "MAX_COORDINATES = 64"

definition MAX_OCR_TEXT_BYTES :: nat where
  "MAX_OCR_TEXT_BYTES = 64 * 1024"

definition MAX_LANGUAGE_BYTES :: nat where
  "MAX_LANGUAGE_BYTES = 256"

record ocr_coordinate =
  oc_x :: i32
  oc_y :: i32

record ocr_detection =
  od_text :: rstr
  od_confidence :: u32
  od_coordinates :: "ocr_coordinate list"

record ocr_result =
  ocr_texts :: "ocr_detection list"
  ocr_language :: rstr

record wire_detection =
  wd_text :: rstr
  wd_confidence :: u32
  wd_polygon :: "ocr_coordinate list option"

record ocr_response_body =
  ob_detections :: "wire_detection list"
  ob_language :: rstr

record ocr_response =
  os_result :: i32
  os_error_message :: rstr
  os_wording :: rstr
  os_body :: "ocr_response_body option"

definition image_ocr_body :: "rstr \<Rightarrow> pb_field list" where
  "image_ocr_body image_url =
     [Singular 1 (PbString image_url), Singular 2 (PbU32 0), Singular 3 (PbU32 0), Singular 10 (PbString []),
      Singular 11 (PbString []), Singular 12 (PbString []), Singular 13 (PbString []), Singular 14 (PbString []),
      Singular 15 (PbBool False)]"

definition image_ocr_message :: "u32 \<Rightarrow> u32 \<Rightarrow> u32 \<Rightarrow> pb_field list \<Rightarrow> pb_field list" where
  "image_ocr_message version client entrance body =
     [Singular 1 (PbU32 version), Singular 2 (PbU32 client), Singular 3 (PbU32 entrance), sub_message 10 body]"

definition image_ocr :: "pb_encoder \<Rightarrow> rstr \<Rightarrow> control_error + control_request" where
  "image_ocr encode image_url =
     (if image_url = [] \<or> MAX_IMAGE_URL_BYTES < length image_url \<or> \<not> is_trimmed image_url \<or> has_control image_url
      then Inl ControlError
      else control_request_of encode 0x0e07 0 (lit ''OidbSvcTrpcTcp.0xe07_0'') None
             (image_ocr_message 1 0 1 (image_ocr_body image_url)))"

definition valid_language :: "rstr \<Rightarrow> bool" where
  "valid_language v \<longleftrightarrow> length v \<le> MAX_LANGUAGE_BYTES \<and> \<not> has_control v"

definition valid_recognized_text :: "rstr \<Rightarrow> bool" where
  "valid_recognized_text v \<longleftrightarrow> length v \<le> MAX_OCR_TEXT_BYTES \<and>
     \<not> list_ex (\<lambda>c. is_control c \<and> \<not> (c = 10 \<or> c = 13 \<or> c = 9)) (chars v)"

definition project_detection :: "wire_detection \<Rightarrow> control_error + ocr_detection" where
  "project_detection d =
     (if \<not> valid_recognized_text (wd_text d) then Inl ControlError
      else bindE (ok_or ControlError (wd_polygon d)) (\<lambda>coordinates.
           if MAX_COORDINATES < length coordinates then Inl ControlError
           else Inr \<lparr>od_text = wd_text d, od_confidence = wd_confidence d, od_coordinates = coordinates\<rparr>))"

definition parse_image_ocr_response ::
  "(bytes \<Rightarrow> oidb_wire option) \<Rightarrow> (bytes \<Rightarrow> ocr_response option) \<Rightarrow> bytes \<Rightarrow> control_error + ocr_result" where
  "parse_image_ocr_response dec dec_ocr input =
     (if MAX_OCR_RESPONSE_BYTES < length input then Inl ControlError
      else bindE (typed_response dec dec_ocr input) (\<lambda>response.
           if os_result response \<noteq> 0 then Inl ControlError
           else bindE (ok_or ControlError (os_body response)) (\<lambda>body.
                if MAX_DETECTIONS < length (ob_detections body) \<or> \<not> valid_language (ob_language body)
                then Inl ControlError
                else bindE (collect_results (map project_detection (ob_detections body))) (\<lambda>texts.
                     Inr \<lparr>ocr_texts = texts, ocr_language = ob_language body\<rparr>))))"

section \<open>Face assets\<close>

definition MAX_FACE_RESPONSE_BYTES :: nat where
  "MAX_FACE_RESPONSE_BYTES = 2 * 1024 * 1024"

definition MAX_FACE_ITEMS :: nat where
  "MAX_FACE_ITEMS = 512"

definition MAX_FACE_TEXT_BYTES :: nat where
  "MAX_FACE_TEXT_BYTES = 1024"

record custom_face_user =
  cu_file_names :: "rstr list"
  cu_bucket :: rstr

record custom_face_response =
  cf_result :: u32
  cf_user :: "custom_face_user option"

definition face_valid_text :: "rstr \<Rightarrow> bool" where
  "face_valid_text v \<longleftrightarrow> v \<noteq> [] \<and> length v \<le> MAX_FACE_TEXT_BYTES \<and> is_trimmed v \<and> \<not> has_control v"

definition face_segment_byte :: "u8 \<Rightarrow> bool" where
  "face_segment_byte b \<longleftrightarrow> is_ascii_alphanumeric b \<or> b = 0x2E \<or> b = 0x5F \<or> b = 0x2D"

definition valid_segment :: "rstr \<Rightarrow> bool" where
  "valid_segment v \<longleftrightarrow> face_valid_text v \<and> list_all face_segment_byte v"

definition platform_info :: "u32 \<Rightarrow> rstr \<Rightarrow> rstr \<Rightarrow> pb_field list" where
  "platform_info kind kernel_release client_version =
     [Singular 1 (PbU32 kind), Singular 2 (PbString kernel_release), Singular 3 (PbString client_version)]"

definition custom_face_request :: "pb_field list \<Rightarrow> u32 \<Rightarrow> u32 \<Rightarrow> u32 \<Rightarrow> pb_field list" where
  "custom_face_request platform account_uin operation compatibility =
     [sub_message 1 platform, Singular 2 (PbU32 account_uin), Singular 3 (PbU32 operation),
      Singular 6 (PbU32 compatibility)]"

definition fetch_custom_faces :: "pb_encoder \<Rightarrow> u32 \<Rightarrow> rstr \<Rightarrow> rstr \<Rightarrow> control_error + control_request" where
  "fetch_custom_faces encode account_uin kernel_release client_version =
     (if account_uin = 0 \<or> \<not> face_valid_text kernel_release \<or> \<not> face_valid_text client_version then Inl ControlError
      else Inr \<lparr>cr_command = lit ''Faceroam.OpReq'',
             cr_body = encode (custom_face_request (platform_info 1 kernel_release client_version) account_uin 1 1),
             cr_signing_operation = None\<rparr>)"

definition custom_face_url :: "u32 \<Rightarrow> rstr \<Rightarrow> rstr \<Rightarrow> control_error + rstr" where
  "custom_face_url account_uin bucket file_name =
     (if \<not> valid_segment file_name then Inl ControlError
      else Inr (lit ''https://p.qpic.cn/'' @ bucket @ lit ''/'' @ decimal (unat account_uin) @ lit ''/'' @
                file_name @ lit ''/0''))"

definition parse_custom_faces_response ::
  "(bytes \<Rightarrow> custom_face_response option) \<Rightarrow> bytes \<Rightarrow> u32 \<Rightarrow> control_error + rstr list" where
  "parse_custom_faces_response dec_faces input account_uin =
     (if MAX_FACE_RESPONSE_BYTES < length input \<or> account_uin = 0 then Inl ControlError
      else bindE (ok_or ControlError (dec_faces input)) (\<lambda>response.
           if cf_result response \<noteq> 0 then Inl ControlError
           else bindE (ok_or ControlError (cf_user response)) (\<lambda>user.
                if MAX_FACE_ITEMS < length (cu_file_names user) then Inl ControlError
                else if cu_file_names user = [] then Inr []
                else if \<not> valid_segment (cu_bucket user) then Inl ControlError
                else collect_results (map (custom_face_url account_uin (cu_bucket user)) (cu_file_names user)))))"

definition market_face_query :: "rstr list \<Rightarrow> pb_field list" where
  "market_face_query face_ids = [Repeated 3 (map PbString face_ids)]"

definition market_face_request :: "u32 \<Rightarrow> pb_field list \<Rightarrow> pb_field list" where
  "market_face_request operation query = [Singular 1 (PbU32 operation), sub_message 5 query]"

definition fetch_market_face_keys :: "pb_encoder \<Rightarrow> rstr list \<Rightarrow> control_error + control_request" where
  "fetch_market_face_keys encode face_ids =
     (if face_ids = [] \<or> MAX_FACE_ITEMS < length face_ids \<or> list_ex (\<lambda>v. \<not> face_valid_text v) face_ids
      then Inl ControlError
      else Inr \<lparr>cr_command = lit ''BQMallSvc.TabOpReq'',
             cr_body = encode (market_face_request 3 (market_face_query face_ids)), cr_signing_operation = None\<rparr>)"

text \<open>The decoded response is its optional \<open>result\<close> message, which holds the keys only.\<close>

definition parse_market_face_keys_response ::
  "(bytes \<Rightarrow> rstr list option option) \<Rightarrow> bytes \<Rightarrow> control_error + rstr list" where
  "parse_market_face_keys_response dec_keys input =
     (if MAX_FACE_RESPONSE_BYTES < length input then Inl ControlError
      else bindE (ok_or ControlError (dec_keys input)) (\<lambda>result.
           bindE (ok_or ControlError result) (\<lambda>keys.
           if keys = [] \<or> MAX_FACE_ITEMS < length keys \<or> list_ex (\<lambda>v. \<not> face_valid_text v) keys
           then Inl ControlError else Inr keys)))"

end
