(* ===== verification/Rust_Net.thy ===== *)
theory Rust_Net
  imports Rust_Str
begin

text \<open>
  The address parsing and printing of the standard library that the sources use: \<open>str::parse::<IpAddr>\<close>
  (\<open>core::net::parser\<close>: four decimal octets, or eight groups with one \<open>::\<close> and an optional trailing
  IPv4 part) and \<open>to_string\<close> of both kinds (RFC 5952 form: the longest run of zero groups shortened).
\<close>

section \<open>Parsing\<close>

definition digit_value :: "u8 \<Rightarrow> nat option" where
  "digit_value b =
     (let x = unat b in
      if 0x30 \<le> x \<and> x \<le> 0x39 then Some (x - 0x30)
      else if 0x61 \<le> x \<and> x \<le> 0x66 then Some (x - 0x61 + 10)
      else if 0x41 \<le> x \<and> x \<le> 0x46 then Some (x - 0x41 + 10)
      else None)"

definition is_digit_in :: "nat \<Rightarrow> u8 \<Rightarrow> bool" where
  "is_digit_in radix b = (case digit_value b of None \<Rightarrow> False | Some d \<Rightarrow> d < radix)"

definition digits_in :: "nat \<Rightarrow> bytes \<Rightarrow> nat" where
  "digits_in radix ds = foldl (\<lambda>acc b. acc * radix + the (digit_value b)) 0 ds"

definition read_number :: "nat \<Rightarrow> nat \<Rightarrow> nat \<Rightarrow> bool \<Rightarrow> bytes \<Rightarrow> (nat \<times> bytes) option" where
  "read_number radix limit max_digits allow_zero_prefix s =
     (let ds = takeWhile (is_digit_in radix) s; v = digits_in radix ds in
      if ds = [] \<or> max_digits < length ds \<or> limit \<le> v \<or>
         \<not> allow_zero_prefix \<and> hd ds = 0x30 \<and> 1 < length ds
      then None else Some (v, drop (length ds) s))"

definition read_separator :: "u8 \<Rightarrow> nat \<Rightarrow> (bytes \<Rightarrow> ('a \<times> bytes) option) \<Rightarrow> bytes \<Rightarrow> ('a \<times> bytes) option" where
  "read_separator sep i inner s =
     (if i = 0 then inner s
      else case s of [] \<Rightarrow> None | b # r \<Rightarrow> if b = sep then inner r else None)"

fun read_octets :: "nat \<Rightarrow> nat \<Rightarrow> bytes \<Rightarrow> (nat list \<times> bytes) option" where
  "read_octets i 0 s = Some ([], s)"
| "read_octets i (Suc n) s =
     (case read_separator 0x2E i (read_number 10 256 3 False) s of
        None \<Rightarrow> None
      | Some (v, r) \<Rightarrow> map_option (\<lambda>(vs, r'). (v # vs, r')) (read_octets (Suc i) n r))"

definition read_ipv4 :: "bytes \<Rightarrow> (nat list \<times> bytes) option" where
  "read_ipv4 s = read_octets 0 4 s"

text \<open>
  \<open>read_groups\<close>: group \<open>i\<close> of \<open>i + n\<close>; the second component tells that the last two groups came
  from an IPv4 part.
\<close>

fun read_groups :: "nat \<Rightarrow> nat \<Rightarrow> bytes \<Rightarrow> nat list \<times> bool \<times> bytes" where
  "read_groups i 0 s = ([], False, s)"
| "read_groups i (Suc n) s =
     (case (if 0 < n then read_separator 0x3A i read_ipv4 s else None) of
        Some (os, r) \<Rightarrow> ([os ! 0 * 256 + os ! 1, os ! 2 * 256 + os ! 3], True, r)
      | None \<Rightarrow>
          (case read_separator 0x3A i (read_number 16 65536 4 True) s of
             None \<Rightarrow> ([], False, s)
           | Some (g, r) \<Rightarrow> (case read_groups (Suc i) n r of (gs, v4, r') \<Rightarrow> (g # gs, v4, r'))))"

definition read_ipv6 :: "bytes \<Rightarrow> (nat list \<times> bytes) option" where
  "read_ipv6 s =
     (case read_groups 0 8 s of (front, v4, r) \<Rightarrow>
        if length front = 8 then Some (front, r)
        else if v4 then None
        else (case r of
                a # b # r' \<Rightarrow>
                  if a = 0x3A \<and> b = 0x3A
                  then (case read_groups 0 (8 - (length front + 1)) r' of (back, _, r'') \<Rightarrow>
                          Some (front @ replicate (8 - length front - length back) 0 @ back, r''))
                  else None
              | _ \<Rightarrow> None))"

datatype ip_addr = IpV4 "nat list" | IpV6 "nat list"

definition parse_ip_addr :: "rstr \<Rightarrow> ip_addr option" where
  "parse_ip_addr s =
     (case read_ipv4 s of
        Some (os, r) \<Rightarrow> if r = [] then Some (IpV4 os) else None
      | None \<Rightarrow>
          (case read_ipv6 s of
             Some (gs, r) \<Rightarrow> if r = [] then Some (IpV6 gs) else None
           | None \<Rightarrow> None))"

section \<open>Printing\<close>

definition hex_char :: "nat \<Rightarrow> u8" where
  "hex_char d = (if d < 10 then of_nat (0x30 + d) else of_nat (0x61 + (d - 10)))"

fun hex_text :: "nat \<Rightarrow> rstr" where
  "hex_text n = (if n < 16 then [hex_char n] else hex_text (n div 16) @ [hex_char (n mod 16)])"

declare hex_text.simps [simp del]

fun join_with :: "rstr \<Rightarrow> rstr list \<Rightarrow> rstr" where
  "join_with sep [] = []"
| "join_with sep [x] = x"
| "join_with sep (x # y # xs) = x @ sep @ join_with sep (y # xs)"

definition ipv4_text :: "nat list \<Rightarrow> rstr" where
  "ipv4_text os = join_with [0x2E] (map decimal os)"

text \<open>The longest run of zero groups, the first of equals, as start and length.\<close>

fun longest_zeros :: "nat \<Rightarrow> nat \<times> nat \<Rightarrow> nat \<times> nat \<Rightarrow> nat list \<Rightarrow> nat \<times> nat" where
  "longest_zeros i current longest [] = longest"
| "longest_zeros i current longest (g # gs) =
     (if g = 0
      then let current = (if snd current = 0 then i else fst current, snd current + 1) in
           longest_zeros (Suc i) current (if snd longest < snd current then current else longest) gs
      else longest_zeros (Suc i) (0, 0) longest gs)"

definition groups_text :: "nat list \<Rightarrow> rstr" where
  "groups_text gs = join_with [0x3A] (map hex_text gs)"

definition ipv6_text :: "nat list \<Rightarrow> rstr" where
  "ipv6_text gs =
     (if take 6 gs = [0, 0, 0, 0, 0, 0xFFFF]
      then lit ''::ffff:'' @ ipv4_text [gs ! 6 div 256, gs ! 6 mod 256, gs ! 7 div 256, gs ! 7 mod 256]
      else let (start, len) = longest_zeros 0 (0, 0) (0, 0) gs in
           if 1 < len then groups_text (take start gs) @ lit ''::'' @ groups_text (drop (start + len) gs)
           else groups_text gs)"

fun split_on :: "u8 \<Rightarrow> bytes \<Rightarrow> bytes list" where
  "split_on sep [] = [[]]"
| "split_on sep (b # bs) =
     (if b = sep then [] # split_on sep bs
      else case split_on sep bs of [] \<Rightarrow> [[b]] | part # parts \<Rightarrow> (b # part) # parts)"

lemma split_on_covers: "b \<in> set bs \<Longrightarrow> b = sep \<or> (\<exists>part \<in> set (split_on sep bs). b \<in> set part)"
proof (induction bs)
  case (Cons a bs)
  show ?case
  proof (cases "split_on sep bs")
    case Nil
    with Cons show ?thesis by auto
  next
    case (Cons part parts)
    with Cons.IH Cons.prems show ?thesis by auto
  qed
qed simp

lemma list_all_split_on:
  assumes "list_all (list_all P) (split_on sep bs)"
  shows "b \<in> set bs \<Longrightarrow> P b \<or> b = sep"
  using assms split_on_covers [of b bs sep] by (auto simp: list_all_iff)

text \<open>Evaluation at numeral counts.\<close>

lemmas read_octets_numeral = read_octets.simps(2) [where n = "pred_numeral k" for k, folded numeral_eq_Suc]
lemmas read_groups_numeral = read_groups.simps(2) [where n = "pred_numeral k" for k, folded numeral_eq_Suc]

lemma replicate_at_numeral: "replicate (numeral k) x = x # replicate (pred_numeral k) x"
  by (simp add: numeral_eq_Suc)

lemmas ip_eval = replicate_at_numeral parse_ip_addr_def read_ipv4_def read_octets_numeral read_groups_numeral read_separator_def
  read_number_def is_digit_in_def digit_value_def digits_in_def read_ipv6_def

end
