(* ===== verification/Control_File.thy ===== *)
theory Control_File
  imports Control_Media Rust_Net
begin

text \<open>
  \<open>crates/qq-control\<close>: private-file locations and uploads (\<open>private_file.rs\<close>,
  \<open>private_file_upload.rs\<close>), the Highway extension both upload kinds share (\<open>highway_file.rs\<close>), and
  group files: listing and download (\<open>group_file/read.rs\<close>), changes with their bound responses
  (\<open>group_file/mutation.rs\<close>) and uploads (\<open>group_file/upload\<close>).
\<close>

section \<open>Private-file locations\<close>

definition MAX_FILE_TOKEN_BYTES :: nat where
  "MAX_FILE_TOKEN_BYTES = 4 * 1024"

definition MAX_LOCATION_RESPONSE_BYTES :: nat where
  "MAX_LOCATION_RESPONSE_BYTES = 2 * 1024 * 1024"

definition MAX_URL_PATH_BYTES :: nat where
  "MAX_URL_PATH_BYTES = 8 * 1024"

record private_file_location =
  pl_server :: rstr
  pl_port :: u32
  pl_path :: rstr

definition file_valid_token :: "rstr \<Rightarrow> bool" where
  "file_valid_token v \<longleftrightarrow> v \<noteq> [] \<and> length v \<le> MAX_FILE_TOKEN_BYTES \<and> is_trimmed v \<and> \<not> has_control v"

definition private_file_url_body :: "rstr \<Rightarrow> rstr \<Rightarrow> i32 \<Rightarrow> rstr \<Rightarrow> i32 \<Rightarrow> pb_field list" where
  "private_file_url_body recipient_uid file_id kind file_hash compatibility_two =
     [Singular 10 (PbString recipient_uid), Singular 20 (PbString file_id), Singular 30 (PbI32 kind),
      Singular 60 (PbString file_hash), Singular 601 (PbI32 compatibility_two)]"

definition private_file_url_message ::
  "u32 \<Rightarrow> i32 \<Rightarrow> pb_field list \<Rightarrow> i32 \<Rightarrow> i32 \<Rightarrow> i32 \<Rightarrow> bytes \<Rightarrow> pb_field list" where
  "private_file_url_message subcommand one body three four five trailer =
     [Singular 1 (PbU32 subcommand), Singular 2 (PbI32 one), sub_message 14 body, Singular 101 (PbI32 three),
      Singular 102 (PbI32 four), Singular 200 (PbI32 five), Singular 99999 (PbBytes trailer)]"

definition private_file_url :: "pb_encoder \<Rightarrow> rstr \<Rightarrow> rstr \<Rightarrow> rstr \<Rightarrow> control_error + control_request" where
  "private_file_url encode recipient_uid file_id file_hash =
     bindE (validate_uid recipient_uid) (\<lambda>_.
     if \<not> file_valid_token file_id \<or> \<not> file_valid_token file_hash then Inl ControlError
     else control_request_of encode 0x0e37 1200 (lit ''OidbSvcTrpcTcp.0xe37_1200'') None
            (private_file_url_message 1200 1 (private_file_url_body recipient_uid file_id 2 file_hash 0) 3 103 1
              [0xc0, 0x85, 0x2c, 0x01]))"

definition valid_label :: "bytes \<Rightarrow> bool" where
  "valid_label label \<longleftrightarrow> label \<noteq> [] \<and> length label \<le> 63 \<and> \<not> starts_with (lit ''-'') label \<and>
     \<not> ends_with (lit ''-'') label \<and> list_all (\<lambda>b. is_ascii_alphanumeric b \<or> b = 0x2D) label"

definition url_host :: "rstr \<Rightarrow> control_error + rstr" where
  "url_host v =
     (if v = [] \<or> 253 < length v \<or> has_control v then Inl ControlError
      else case parse_ip_addr v of
             Some (IpV4 os) \<Rightarrow> Inr (ipv4_text os)
           | Some (IpV6 gs) \<Rightarrow> Inr (lit ''['' @ ipv6_text gs @ lit '']'')
           | None \<Rightarrow> if list_all valid_label (split_on 0x2E v) then Inr v else Inl ControlError)"

text \<open>The decoded response is its optional body with the optional location.\<close>

definition parse_private_file_url_response ::
  "(bytes \<Rightarrow> oidb_wire option) \<Rightarrow> (bytes \<Rightarrow> private_file_location option option option) \<Rightarrow> bytes \<Rightarrow>
   control_error + rstr" where
  "parse_private_file_url_response dec dec_location input =
     (if MAX_LOCATION_RESPONSE_BYTES < length input then Inl ControlError
      else bindE (typed_response dec dec_location input) (\<lambda>body.
           bindE (ok_or ControlError (Option.bind body (\<lambda>result. result))) (\<lambda>location.
           bindE (url_host (pl_server location)) (\<lambda>host.
           if 2 ^ 16 \<le> unat (pl_port location) \<or> pl_port location = 0 then Inl ControlError
           else if pl_path location = [] \<or> MAX_URL_PATH_BYTES < length (pl_path location) \<or>
                   \<not> starts_with (lit ''/'') (pl_path location) \<or> 0x3F \<notin> set (pl_path location) \<or>
                   has_control (pl_path location)
           then Inl ControlError
           else Inr (lit ''http://'' @ host @ lit '':'' @ decimal (unat (pl_port location)) @ pl_path location @
                     lit ''&isthumb=0'')))))"

section \<open>The Highway extension\<close>

definition MAX_OPAQUE_BYTES :: nat where
  "MAX_OPAQUE_BYTES = 64 * 1024"

record highway_file_extension_spec =
  hx_sender_uin :: u64
  hx_receiver_uin :: u64
  hx_group_uin :: u64
  hx_file_size :: u64
  hx_md5 :: bytes
  hx_check_key :: bytes
  hx_file_id :: rstr
  hx_upload_key :: bytes
  hx_file_name :: rstr
  hx_upload_host :: rstr
  hx_upload_port :: u32
  hx_private_trailer :: bool

definition highway_business :: "u64 \<Rightarrow> u64 \<Rightarrow> u64 \<Rightarrow> pb_field list" where
  "highway_business sender receiver grp =
     [Singular 100 (PbU64 sender), Singular 200 (PbU64 receiver), Singular 400 (PbU64 grp)]"

definition highway_file :: "u64 \<Rightarrow> bytes \<Rightarrow> bytes \<Rightarrow> bytes \<Rightarrow> rstr \<Rightarrow> bytes \<Rightarrow> pb_field list" where
  "highway_file file_size md5 check_key second_md5 file_id upload_key =
     [Singular 100 (PbU64 file_size), Singular 200 (PbBytes md5), Singular 300 (PbBytes check_key),
      Singular 400 (PbBytes second_md5), Singular 600 (PbString file_id), Singular 700 (PbBytes upload_key)]"

definition highway_client_info :: "i32 \<Rightarrow> rstr \<Rightarrow> i32 \<Rightarrow> rstr \<Rightarrow> i32 \<Rightarrow> pb_field list" where
  "highway_client_info client_type app_id terminal_type client_version field6 =
     [Singular 100 (PbI32 client_type), Singular 200 (PbString app_id), Singular 300 (PbI32 terminal_type),
      Singular 400 (PbString client_version), Singular 600 (PbI32 field6)]"

definition highway_file_name :: "rstr \<Rightarrow> pb_field list" where
  "highway_file_name file_name = [Singular 100 (PbString file_name)]"

definition highway_url :: "i32 \<Rightarrow> rstr \<Rightarrow> pb_field list" where
  "highway_url field1 host = [Singular 1 (PbI32 field1), Singular 2 (PbString host)]"

definition highway_host :: "pb_field list \<Rightarrow> u32 \<Rightarrow> pb_field list" where
  "highway_host url port = [sub_message 1 url, Singular 2 (PbU32 port)]"

definition highway_host_config :: "pb_field list list \<Rightarrow> pb_field list" where
  "highway_host_config hosts = [Repeated 200 (map PbMessage hosts)]"

definition highway_entry ::
  "pb_field list \<Rightarrow> pb_field list \<Rightarrow> pb_field list \<Rightarrow> pb_field list \<Rightarrow> pb_field list \<Rightarrow> pb_field list" where
  "highway_entry business file client name host =
     [sub_message 100 business, sub_message 200 file, sub_message 300 client, sub_message 400 name,
      sub_message 500 host]"

definition highway_extension_message :: "i32 \<Rightarrow> i32 \<Rightarrow> pb_field list \<Rightarrow> u32 \<Rightarrow> pb_field list" where
  "highway_extension_message field1 field2 entry private_trailer =
     [Singular 1 (PbI32 field1), Singular 2 (PbI32 field2), sub_message 100 entry,
      Singular 200 (PbU32 private_trailer)]"

definition encode_highway_file_extension :: "pb_encoder \<Rightarrow> highway_file_extension_spec \<Rightarrow> bytes" where
  "encode_highway_file_extension encode spec =
     encode (highway_extension_message 100 1
       (highway_entry
         (highway_business (hx_sender_uin spec) (hx_receiver_uin spec) (hx_group_uin spec))
         (highway_file (hx_file_size spec) (hx_md5 spec) (hx_check_key spec) (hx_md5 spec) (hx_file_id spec)
           (hx_upload_key spec))
         (highway_client_info 3 (lit ''100'') 3 (lit ''1.1.1'') 4)
         (highway_file_name (hx_file_name spec))
         (highway_host_config [highway_host (highway_url 1 (hx_upload_host spec)) (hx_upload_port spec)]))
       (if hx_private_trailer spec then 1 else 0))"

section \<open>Private-file uploads\<close>

definition MAX_UPLOAD_TEXT_BYTES :: nat where
  "MAX_UPLOAD_TEXT_BYTES = 4 * 1024"

record private_file_upload_spec =
  ps_sender_uid :: rstr
  ps_receiver_uid :: rstr
  ps_file_name :: rstr
  ps_file_size :: u32
  ps_prefix_md5 :: bytes
  ps_sha1 :: bytes
  ps_md5 :: bytes

record private_file_upload_plan =
  pp_file_exists :: bool
  pp_file_id :: rstr
  pp_upload_key :: bytes
  pp_upload_host :: rstr
  pp_upload_port :: u32
  pp_file_hash :: rstr

record private_upload_response =
  pu_result :: i32
  pu_upload_host :: rstr
  pu_upload_port :: u32
  pu_file_id :: rstr
  pu_file_exists :: bool
  pu_file_hash :: rstr
  pu_media_upload_key :: bytes

definition upload_valid_text :: "rstr \<Rightarrow> bool" where
  "upload_valid_text v \<longleftrightarrow> v \<noteq> [] \<and> length v \<le> MAX_UPLOAD_TEXT_BYTES \<and> is_trimmed v \<and> \<not> has_control v"

definition private_highway_extension ::
  "pb_encoder \<Rightarrow> private_file_upload_plan \<Rightarrow> u64 \<Rightarrow> rstr \<Rightarrow> u64 \<Rightarrow> bytes \<Rightarrow> bytes \<Rightarrow> control_error + bytes" where
  "private_highway_extension encode plan sender_uin file_name file_size md5 sha1 =
     (if pp_file_exists plan \<or> sender_uin = 0 \<or> file_size = 0 \<or> \<not> upload_valid_text file_name \<or>
         pp_upload_key plan = [] \<or> pp_upload_host plan = [] \<or> pp_upload_port plan = 0
      then Inl ControlError
      else let extension = encode_highway_file_extension encode
                 \<lparr>hx_sender_uin = sender_uin, hx_receiver_uin = 0, hx_group_uin = 0, hx_file_size = file_size,
                  hx_md5 = md5, hx_check_key = sha1, hx_file_id = pp_file_id plan,
                  hx_upload_key = pp_upload_key plan, hx_file_name = file_name,
                  hx_upload_host = pp_upload_host plan, hx_upload_port = pp_upload_port plan,
                  hx_private_trailer = True\<rparr> in
           if extension = [] \<or> MAX_OPAQUE_BYTES < length extension then Inl ControlError else Inr extension)"

definition private_upload_message ::
  "rstr \<Rightarrow> rstr \<Rightarrow> u32 \<Rightarrow> rstr \<Rightarrow> bytes \<Rightarrow> bytes \<Rightarrow> rstr \<Rightarrow> bytes \<Rightarrow> bytes \<Rightarrow> pb_field list" where
  "private_upload_message sender_uid receiver_uid file_size file_name prefix_md5 sha1 local_path md5 sha3 =
     [Singular 10 (PbString sender_uid), Singular 20 (PbString receiver_uid), Singular 30 (PbU32 file_size),
      Singular 40 (PbString file_name), Singular 50 (PbBytes prefix_md5), Singular 60 (PbBytes sha1),
      Singular 70 (PbString local_path), Singular 110 (PbBytes md5), Singular 120 (PbBytes sha3)]"

definition private_upload_envelope :: "u32 \<Rightarrow> i32 \<Rightarrow> pb_field list \<Rightarrow> i32 \<Rightarrow> i32 \<Rightarrow> i32 \<Rightarrow> pb_field list" where
  "private_upload_envelope command sequence upload business_id client_type media_platform =
     [Singular 1 (PbU32 command), Singular 2 (PbI32 sequence), sub_message 19 upload,
      Singular 101 (PbI32 business_id), Singular 102 (PbI32 client_type), Singular 200 (PbI32 media_platform)]"

definition private_file_upload_request ::
  "pb_encoder \<Rightarrow> private_file_upload_spec \<Rightarrow> control_error + control_request" where
  "private_file_upload_request encode spec =
     bindE (validate_uid (ps_sender_uid spec)) (\<lambda>_.
     bindE (validate_uid (ps_receiver_uid spec)) (\<lambda>_.
     if ps_file_size spec = 0 \<or> \<not> upload_valid_text (ps_file_name spec) then Inl ControlError
     else control_request_of encode 0x0e37 1700 (lit ''OidbSvcTrpcTcp.0xe37_1700'') None
            (private_upload_envelope 1700 0
              (private_upload_message (ps_sender_uid spec) (ps_receiver_uid spec) (ps_file_size spec)
                (ps_file_name spec) (ps_prefix_md5 spec) (ps_sha1 spec) (lit ''/'') (ps_md5 spec) [])
              3 1 1)))"

definition parse_private_file_upload_response ::
  "(bytes \<Rightarrow> oidb_wire option) \<Rightarrow> (bytes \<Rightarrow> private_upload_response option option) \<Rightarrow> bytes \<Rightarrow>
   control_error + private_file_upload_plan" where
  "parse_private_file_upload_response dec dec_upload input =
     bindE (typed_response dec dec_upload input) (\<lambda>response.
     bindE (ok_or ControlError response) (\<lambda>upload.
     if pu_result upload \<noteq> 0 \<or> \<not> upload_valid_text (pu_file_id upload) \<or> \<not> upload_valid_text (pu_file_hash upload) \<or>
        MAX_OPAQUE_BYTES < length (pu_media_upload_key upload) \<or>
        MAX_UPLOAD_TEXT_BYTES < length (pu_upload_host upload)
     then Inl ControlError
     else if \<not> pu_file_exists upload \<and>
             (pu_media_upload_key upload = [] \<or> \<not> upload_valid_text (pu_upload_host upload) \<or>
              pu_upload_port upload = 0)
     then Inl ControlError
     else Inr \<lparr>pp_file_exists = pu_file_exists upload, pp_file_id = pu_file_id upload,
               pp_upload_key = pu_media_upload_key upload, pp_upload_host = pu_upload_host upload,
               pp_upload_port = pu_upload_port upload, pp_file_hash = pu_file_hash upload\<rparr>))"

end
