(* ===== verification/Group_File.thy ===== *)
theory Group_File
  imports Control_File
begin

text \<open>
  \<open>crates/qq-control/src/group_file\<close>: listing and download locations (\<open>read.rs\<close>), changes with their
  bound responses (\<open>mutation.rs\<close>) and uploads (\<open>upload/mod.rs\<close>, \<open>upload/proto.rs\<close>).
\<close>

section \<open>Listing and download\<close>

definition MAX_GROUP_FILE_TEXT_BYTES :: nat where
  "MAX_GROUP_FILE_TEXT_BYTES = 4096"

definition MAX_PAGE_ITEMS :: nat where
  "MAX_PAGE_ITEMS = 20"

record group_file_info =
  gf_file_id :: rstr
  gf_file_name :: rstr
  gf_file_size :: u64
  gf_bus_id :: u32
  gf_uploaded_time :: u32
  gf_expire_time :: u32
  gf_modified_time :: u32
  gf_downloaded_times :: u32
  gf_uploader_uin :: u32
  gf_uploader_name :: rstr

record group_folder_info =
  gd_folder_id :: rstr
  gd_folder_name :: rstr
  gd_create_time :: u32
  gd_modified_time :: u32
  gd_creator_uin :: u32
  gd_creator_name :: rstr
  gd_total_file_count :: u32

datatype group_file_entry = FileEntry group_file_info | FolderEntry group_folder_info

record group_file_page =
  gp_entries :: "group_file_entry list"
  gp_is_end :: bool

text \<open>The response messages; the wire's file and folder carry the same fields as the public ones.\<close>

record response_item =
  ri_kind :: u32
  ri_folder :: "group_folder_info option"
  ri_file :: "group_file_info option"

record list_response =
  lr_code :: i32
  lr_is_end :: bool
  lr_items :: "response_item list"

record download_response =
  dr_code :: i32
  dr_dns :: rstr
  dr_path :: bytes

definition gf_valid_optional_text :: "rstr \<Rightarrow> bool" where
  "gf_valid_optional_text v \<longleftrightarrow> length v \<le> MAX_GROUP_FILE_TEXT_BYTES \<and> \<not> has_control v"

definition gf_valid_text :: "rstr \<Rightarrow> bool" where
  "gf_valid_text v \<longleftrightarrow> v \<noteq> [] \<and> gf_valid_optional_text v"

definition gf_validate :: "u32 \<Rightarrow> rstr \<Rightarrow> control_error + unit" where
  "gf_validate group_uin v = (if group_uin = 0 \<or> \<not> gf_valid_text v then Inl ControlError else Inr ())"

definition file_id_byte :: "u8 \<Rightarrow> bool" where
  "file_id_byte b \<longleftrightarrow> is_ascii_alphanumeric b \<or> b = 0x2F \<or> b = 0x5F \<or> b = 0x2D \<or> b = 0x2E \<or> b = 0x3D"

definition valid_file_id :: "rstr \<Rightarrow> bool" where
  "valid_file_id v \<longleftrightarrow> list_all file_id_byte v"

definition valid_file :: "group_file_info \<Rightarrow> bool" where
  "valid_file f \<longleftrightarrow> gf_valid_text (gf_file_id f) \<and> gf_valid_text (gf_file_name f) \<and>
     gf_valid_optional_text (gf_uploader_name f)"

definition valid_folder :: "group_folder_info \<Rightarrow> bool" where
  "valid_folder f \<longleftrightarrow> gf_valid_text (gd_folder_id f) \<and> gf_valid_text (gd_folder_name f) \<and>
     gf_valid_optional_text (gd_creator_name f)"

definition decode_entry :: "response_item \<Rightarrow> control_error + group_file_entry" where
  "decode_entry item =
     (case (ri_folder item, ri_file item) of
        (None, Some file) \<Rightarrow>
          if ri_kind item = 1 \<and> valid_file file then Inr (FileEntry file) else Inl ControlError
      | (Some folder, None) \<Rightarrow>
          if ri_kind item = 2 \<and> valid_folder folder then Inr (FolderEntry folder) else Inl ControlError
      | _ \<Rightarrow> Inl ControlError)"

definition list_request_message :: "u32 \<Rightarrow> u32 \<Rightarrow> rstr \<Rightarrow> u32 \<Rightarrow> u32 \<Rightarrow> u32 \<Rightarrow> u32 \<Rightarrow> u32 \<Rightarrow> pb_field list" where
  "list_request_message group_uin app_id directory count sort_by start_index field17 field18 =
     [Singular 1 (PbU32 group_uin), Singular 2 (PbU32 app_id), Singular 3 (PbString directory),
      Singular 5 (PbU32 count), Singular 9 (PbU32 sort_by), Singular 13 (PbU32 start_index),
      Singular 17 (PbU32 field17), Singular 18 (PbU32 field18)]"

definition view_request :: "pb_field list \<Rightarrow> pb_field list" where
  "view_request listing = [sub_message 2 listing]"

definition group_file_list_request :: "pb_encoder \<Rightarrow> u32 \<Rightarrow> rstr \<Rightarrow> u32 \<Rightarrow> control_error + control_request" where
  "group_file_list_request encode group_uin directory start_index =
     bindE (gf_validate group_uin directory) (\<lambda>_.
     request_reserved encode 0x6d8 1 (lit ''OidbSvcTrpcTcp.0x6d8_1'') None 1
       (view_request (list_request_message group_uin 7 directory 20 1 start_index 2 0)))"

definition parse_group_file_list_response ::
  "(bytes \<Rightarrow> oidb_wire option) \<Rightarrow> (bytes \<Rightarrow> list_response option option) \<Rightarrow> bytes \<Rightarrow>
   control_error + group_file_page" where
  "parse_group_file_list_response dec dec_view input =
     bindE (typed_response dec dec_view input) (\<lambda>view.
     bindE (ok_or ControlError view) (\<lambda>listing.
     if lr_code listing \<noteq> 0 \<or> MAX_PAGE_ITEMS < length (lr_items listing) then Inl ControlError
     else bindE (collect_results (map decode_entry (lr_items listing))) (\<lambda>entries.
          Inr \<lparr>gp_entries = entries, gp_is_end = lr_is_end listing\<rparr>)))"

definition download_request_message :: "u32 \<Rightarrow> u32 \<Rightarrow> u32 \<Rightarrow> rstr \<Rightarrow> pb_field list" where
  "download_request_message group_uin app_id bus_id file_id =
     [Singular 1 (PbU32 group_uin), Singular 2 (PbU32 app_id), Singular 3 (PbU32 bus_id),
      Singular 4 (PbString file_id)]"

definition download_outer :: "pb_field list \<Rightarrow> pb_field list" where
  "download_outer download = [sub_message 3 download]"

definition group_file_download_request :: "pb_encoder \<Rightarrow> u32 \<Rightarrow> rstr \<Rightarrow> control_error + control_request" where
  "group_file_download_request encode group_uin file_id =
     bindE (gf_validate group_uin file_id) (\<lambda>_.
     if \<not> valid_file_id file_id then Inl ControlError
     else request_reserved encode 0x6d6 2 (lit ''OidbSvcTrpcTcp.0x6d6_2'') None 1
            (download_outer (download_request_message group_uin 7 102 file_id)))"

definition hex_byte :: "u8 \<Rightarrow> bytes" where
  "hex_byte b = [hex_char (unat b div 16), hex_char (unat b mod 16)]"

definition dns_byte :: "u8 \<Rightarrow> bool" where
  "dns_byte b \<longleftrightarrow> is_ascii_alphanumeric b \<or> b = 0x2E \<or> b = 0x2D"

definition parse_group_file_download_response ::
  "(bytes \<Rightarrow> oidb_wire option) \<Rightarrow> (bytes \<Rightarrow> download_response option option) \<Rightarrow> bytes \<Rightarrow> rstr \<Rightarrow>
   control_error + rstr" where
  "parse_group_file_download_response dec dec_download input file_id =
     bindE (gf_validate 1 file_id) (\<lambda>_.
     if \<not> valid_file_id file_id then Inl ControlError
     else bindE (typed_response dec dec_download input) (\<lambda>outer.
          bindE (ok_or ControlError outer) (\<lambda>v.
          if dr_code v \<noteq> 0 \<or> dr_dns v = [] \<or> 253 < length (dr_dns v) \<or> \<not> list_all dns_byte (dr_dns v) \<or>
             dr_path v = [] \<or> MAX_GROUP_FILE_TEXT_BYTES < length (dr_path v)
          then Inl ControlError
          else Inr (lit ''https://'' @ dr_dns v @ lit ''/ftn_handler/'' @ concat (map hex_byte (dr_path v)) @
                    lit ''/?fname='' @ file_id))))"

section \<open>Changes\<close>

definition APP_ID :: u32 where
  "APP_ID = 7"

definition BUS_ID :: u32 where
  "BUS_ID = 102"

definition MAX_FILE_FIELD_BYTES :: nat where
  "MAX_FILE_FIELD_BYTES = 4096"

datatype group_file_response = RespDelete | RespMove | RespCreateFolder | RespDeleteFolder | RespRenameFolder

record group_file_control =
  gc_request :: control_request
  gc_response :: group_file_response

text \<open>The two response messages: the optional result code of each operation.\<close>

record group_file_response_body =
  fb_delete :: "i32 option"
  fb_move_file :: "i32 option"

record group_folder_response_body =
  db_create :: "i32 option"
  db_delete :: "i32 option"
  db_rename :: "i32 option"

definition gc_parse_response ::
  "(bytes \<Rightarrow> oidb_wire option) \<Rightarrow> (bytes \<Rightarrow> group_file_response_body option) \<Rightarrow>
   (bytes \<Rightarrow> group_folder_response_body option) \<Rightarrow> group_file_control \<Rightarrow> bytes \<Rightarrow> control_error + unit" where
  "gc_parse_response dec dec_file dec_folder c input =
     bindE (case gc_response c of
              RespDelete \<Rightarrow> bindE (typed_response dec dec_file input) (\<lambda>b. Inr (fb_delete b))
            | RespMove \<Rightarrow> bindE (typed_response dec dec_file input) (\<lambda>b. Inr (fb_move_file b))
            | RespCreateFolder \<Rightarrow> bindE (typed_response dec dec_folder input) (\<lambda>b. Inr (db_create b))
            | RespDeleteFolder \<Rightarrow> bindE (typed_response dec dec_folder input) (\<lambda>b. Inr (db_delete b))
            | RespRenameFolder \<Rightarrow> bindE (typed_response dec dec_folder input) (\<lambda>b. Inr (db_rename b))) (\<lambda>result.
     if result = Some 0 then Inr () else Inl ControlError)"

definition gc_validate :: "u32 \<Rightarrow> rstr list \<Rightarrow> control_error + unit" where
  "gc_validate group_uin texts =
     (if group_uin = 0 \<or> list_ex (\<lambda>v. v = [] \<or> MAX_FILE_FIELD_BYTES < length v \<or> has_control v) texts
      then Inl ControlError else Inr ())"

definition group_file_control_of ::
  "pb_encoder \<Rightarrow> u32 \<Rightarrow> u32 \<Rightarrow> rstr \<Rightarrow> group_file_response \<Rightarrow> pb_field list \<Rightarrow>
   control_error + group_file_control" where
  "group_file_control_of encode command subcommand route response body =
     bindE (request_reserved encode command subcommand route None 1 body) (\<lambda>request.
     Inr \<lparr>gc_request = request, gc_response = response\<rparr>)"

definition folder_control ::
  "pb_encoder \<Rightarrow> u32 \<Rightarrow> rstr \<Rightarrow> group_file_response \<Rightarrow> pb_field list \<Rightarrow> control_error + group_file_control" where
  "folder_control encode subcommand route response body =
     group_file_control_of encode 0x6d7 subcommand route response body"

definition delete_file_message :: "u32 \<Rightarrow> u32 \<Rightarrow> rstr \<Rightarrow> pb_field list" where
  "delete_file_message group_uin bus_id file_id =
     [Singular 1 (PbU32 group_uin), Singular 3 (PbU32 bus_id), Singular 5 (PbString file_id)]"

definition move_file_message :: "u32 \<Rightarrow> u32 \<Rightarrow> u32 \<Rightarrow> rstr \<Rightarrow> rstr \<Rightarrow> rstr \<Rightarrow> pb_field list" where
  "move_file_message group_uin app_id bus_id file_id parent_directory target_directory =
     [Singular 1 (PbU32 group_uin), Singular 2 (PbU32 app_id), Singular 3 (PbU32 bus_id),
      Singular 4 (PbString file_id), Singular 5 (PbString parent_directory),
      Singular 6 (PbString target_directory)]"

definition group_file_request :: "pb_field list option \<Rightarrow> pb_field list option \<Rightarrow> pb_field list" where
  "group_file_request delete move_file =
     [Optional 4 (map_option PbMessage delete), Optional 6 (map_option PbMessage move_file)]"

definition delete_group_file :: "pb_encoder \<Rightarrow> u32 \<Rightarrow> rstr \<Rightarrow> control_error + group_file_control" where
  "delete_group_file encode group_uin file_id =
     bindE (gc_validate group_uin [file_id]) (\<lambda>_.
     group_file_control_of encode 0x6d6 3 (lit ''OidbSvcTrpcTcp.0x6d6_3'') RespDelete
       (group_file_request (Some (delete_file_message group_uin BUS_ID file_id)) None))"

definition move_group_file ::
  "pb_encoder \<Rightarrow> u32 \<Rightarrow> rstr \<Rightarrow> rstr \<Rightarrow> rstr \<Rightarrow> control_error + group_file_control" where
  "move_group_file encode group_uin file_id parent_directory target_directory =
     bindE (gc_validate group_uin [file_id, parent_directory, target_directory]) (\<lambda>_.
     group_file_control_of encode 0x6d6 5 (lit ''OidbSvcTrpcTcp.0x6d6_5'') RespMove
       (group_file_request None
         (Some (move_file_message group_uin APP_ID BUS_ID file_id parent_directory target_directory))))"

definition create_folder_message :: "u32 \<Rightarrow> rstr \<Rightarrow> rstr \<Rightarrow> pb_field list" where
  "create_folder_message group_uin root_directory name =
     [Singular 1 (PbU32 group_uin), Singular 3 (PbString root_directory), Singular 4 (PbString name)]"

definition delete_folder_message :: "u32 \<Rightarrow> rstr \<Rightarrow> pb_field list" where
  "delete_folder_message group_uin folder_id = [Singular 1 (PbU32 group_uin), Singular 3 (PbString folder_id)]"

definition rename_folder_message :: "u32 \<Rightarrow> rstr \<Rightarrow> rstr \<Rightarrow> pb_field list" where
  "rename_folder_message group_uin folder_id new_name =
     [Singular 1 (PbU32 group_uin), Singular 3 (PbString folder_id), Singular 4 (PbString new_name)]"

definition group_folder_request ::
  "pb_field list option \<Rightarrow> pb_field list option \<Rightarrow> pb_field list option \<Rightarrow> pb_field list" where
  "group_folder_request create delete rename =
     [Optional 1 (map_option PbMessage create), Optional 2 (map_option PbMessage delete),
      Optional 3 (map_option PbMessage rename)]"

definition create_group_file_folder :: "pb_encoder \<Rightarrow> u32 \<Rightarrow> rstr \<Rightarrow> control_error + group_file_control" where
  "create_group_file_folder encode group_uin name =
     bindE (gc_validate group_uin [name]) (\<lambda>_.
     folder_control encode 0 (lit ''OidbSvcTrpcTcp.0x6d7_0'') RespCreateFolder
       (group_folder_request (Some (create_folder_message group_uin (lit ''/'') name)) None None))"

definition delete_group_file_folder :: "pb_encoder \<Rightarrow> u32 \<Rightarrow> rstr \<Rightarrow> control_error + group_file_control" where
  "delete_group_file_folder encode group_uin folder_id =
     bindE (gc_validate group_uin [folder_id]) (\<lambda>_.
     folder_control encode 1 (lit ''OidbSvcTrpcTcp.0x6d7_1'') RespDeleteFolder
       (group_folder_request None (Some (delete_folder_message group_uin folder_id)) None))"

definition rename_group_file_folder ::
  "pb_encoder \<Rightarrow> u32 \<Rightarrow> rstr \<Rightarrow> rstr \<Rightarrow> control_error + group_file_control" where
  "rename_group_file_folder encode group_uin folder_id new_name =
     bindE (gc_validate group_uin [folder_id, new_name]) (\<lambda>_.
     folder_control encode 2 (lit ''OidbSvcTrpcTcp.0x6d7_2'') RespRenameFolder
       (group_folder_request None None (Some (rename_folder_message group_uin folder_id new_name))))"

section \<open>Uploads\<close>

record group_file_upload_spec =
  gs_group_uin :: u32
  gs_target_directory :: rstr
  gs_file_name :: rstr
  gs_file_size :: u64
  gs_sha1 :: bytes
  gs_md5 :: bytes

record group_file_upload_plan =
  gu_file_exists :: bool
  gu_file_id :: rstr
  gu_upload_key :: bytes
  gu_check_key :: bytes
  gu_upload_host :: rstr
  gu_upload_port :: u32

record group_upload_response =
  gr_result :: i32
  gr_upload_host :: rstr
  gr_file_id :: rstr
  gr_check_key :: bytes
  gr_upload_key :: bytes
  gr_file_exists :: bool
  gr_upload_port :: u32

definition group_highway_extension ::
  "pb_encoder \<Rightarrow> group_file_upload_plan \<Rightarrow> u64 \<Rightarrow> u32 \<Rightarrow> rstr \<Rightarrow> u64 \<Rightarrow> bytes \<Rightarrow> control_error + bytes" where
  "group_highway_extension encode plan sender_uin group_uin file_name file_size md5 =
     (if gu_file_exists plan \<or> sender_uin = 0 \<or> group_uin = 0 \<or> file_size = 0 \<or> \<not> gf_valid_text file_name
      then Inl ControlError
      else let extension = encode_highway_file_extension encode
                 \<lparr>hx_sender_uin = sender_uin, hx_receiver_uin = ucast group_uin, hx_group_uin = ucast group_uin,
                  hx_file_size = file_size, hx_md5 = md5, hx_check_key = gu_check_key plan,
                  hx_file_id = gu_file_id plan, hx_upload_key = gu_upload_key plan, hx_file_name = file_name,
                  hx_upload_host = gu_upload_host plan, hx_upload_port = gu_upload_port plan,
                  hx_private_trailer = False\<rparr> in
           if extension = [] \<or> MAX_OPAQUE_BYTES < length extension then Inl ControlError else Inr extension)"

definition group_upload_message ::
  "u32 \<Rightarrow> u32 \<Rightarrow> u32 \<Rightarrow> u32 \<Rightarrow> rstr \<Rightarrow> rstr \<Rightarrow> rstr \<Rightarrow> u64 \<Rightarrow> bytes \<Rightarrow> bytes \<Rightarrow> bytes \<Rightarrow> bool \<Rightarrow> pb_field list" where
  "group_upload_message group_uin app_id business_id entrance target_directory file_name local_path file_size
     sha1 sha3 md5 field15 =
     [Singular 1 (PbU32 group_uin), Singular 2 (PbU32 app_id), Singular 3 (PbU32 business_id),
      Singular 4 (PbU32 entrance), Singular 5 (PbString target_directory), Singular 6 (PbString file_name),
      Singular 7 (PbString local_path), Singular 8 (PbU64 file_size), Singular 9 (PbBytes sha1),
      Singular 10 (PbBytes sha3), Singular 11 (PbBytes md5), Singular 15 (PbBool field15)]"

definition group_upload_envelope :: "pb_field list \<Rightarrow> pb_field list" where
  "group_upload_envelope upload = [sub_message 1 upload]"

definition group_file_upload_request ::
  "pb_encoder \<Rightarrow> group_file_upload_spec \<Rightarrow> control_error + control_request" where
  "group_file_upload_request encode spec =
     (if gs_group_uin spec = 0 \<or> gs_file_size spec = 0 \<or> \<not> gf_valid_text (gs_target_directory spec) \<or>
         \<not> gf_valid_text (gs_file_name spec)
      then Inl ControlError
      else request_reserved encode 0x06d6 0 (lit ''OidbSvcTrpcTcp.0x6d6_0'') None 1
             (group_upload_envelope (group_upload_message (gs_group_uin spec) 7 102 6 (gs_target_directory spec)
               (gs_file_name spec) (lit ''/'' @ gs_file_name spec) (gs_file_size spec) (gs_sha1 spec) []
               (gs_md5 spec) True)))"

definition parse_group_file_upload_response ::
  "(bytes \<Rightarrow> oidb_wire option) \<Rightarrow> (bytes \<Rightarrow> group_upload_response option option) \<Rightarrow> bytes \<Rightarrow>
   control_error + group_file_upload_plan" where
  "parse_group_file_upload_response dec dec_upload input =
     bindE (typed_response dec dec_upload input) (\<lambda>envelope.
     bindE (ok_or ControlError envelope) (\<lambda>upload.
     if gr_result upload \<noteq> 0 \<or> \<not> gf_valid_text (gr_file_id upload) \<or>
        MAX_OPAQUE_BYTES < length (gr_upload_key upload) \<or> MAX_OPAQUE_BYTES < length (gr_check_key upload) \<or>
        MAX_GROUP_FILE_TEXT_BYTES < length (gr_upload_host upload)
     then Inl ControlError
     else if \<not> gr_file_exists upload \<and>
             (gr_upload_key upload = [] \<or> gr_check_key upload = [] \<or> \<not> gf_valid_text (gr_upload_host upload) \<or>
              gr_upload_port upload = 0)
     then Inl ControlError
     else Inr \<lparr>gu_file_exists = gr_file_exists upload, gu_file_id = gr_file_id upload,
               gu_upload_key = gr_upload_key upload, gu_check_key = gr_check_key upload,
               gu_upload_host = gr_upload_host upload, gu_upload_port = gr_upload_port upload\<rparr>))"

definition complete_info :: "u32 \<Rightarrow> rstr \<Rightarrow> u32 \<Rightarrow> bool \<Rightarrow> pb_field list" where
  "complete_info business_type file_id random field5 =
     [Singular 1 (PbU32 business_type), Singular 2 (PbString file_id), Singular 3 (PbU32 random),
      Singular 5 (PbBool field5)]"

definition complete_body :: "u32 \<Rightarrow> u32 \<Rightarrow> pb_field list \<Rightarrow> pb_field list" where
  "complete_body group_uin kind info = [Singular 1 (PbU32 group_uin), Singular 2 (PbU32 kind), sub_message 3 info]"

definition complete_envelope :: "pb_field list \<Rightarrow> pb_field list" where
  "complete_envelope body = [sub_message 5 body]"

definition group_file_complete_request ::
  "pb_encoder \<Rightarrow> u32 \<Rightarrow> rstr \<Rightarrow> u32 \<Rightarrow> control_error + control_request" where
  "group_file_complete_request encode group_uin file_id random =
     (if group_uin = 0 \<or> \<not> gf_valid_text file_id then Inl ControlError
      else control_request_of encode 0x06d9 4 (lit ''OidbSvcTrpcTcp.0x6d9_4'') (Some 11)
             (complete_envelope (complete_body group_uin 2 (complete_info 102 file_id random True))))"

end
