(* ===== verification/Control_Routes.thy ===== *)
theory Control_Routes
  imports Group_File
begin

text \<open>
  What holds of every OIDB operation, that is every request builder of the crate but the two face
  requests of \<open>face_asset.rs\<close>: the route text a request travels under names the command
  and subcommand encoded in its body, so a reply is parsed against the operation that was sent; the
  ticket list answers the requested domains; and the URLs handed on have the authority they claim.
\<close>

section \<open>All operations\<close>

text \<open>The public request builders of the crate that use the OIDB envelope, as calls.\<close>

datatype control_call =
    CallKick u32 rstr bool rstr
  | CallBan u32 rstr u32
  | CallWholeBan u32 bool
  | CallAdmin u32 rstr bool
  | CallCard u32 rstr rstr
  | CallTitle u32 rstr rstr
  | CallName u32 rstr
  | CallLeave u32
  | CallLike rstr u32
  | CallPoke bool u32 u32
  | CallFriendRequest rstr bool
  | CallGroupRequest u64 u32 u32 bool rstr
  | CallSetEssence u32 u64 u32
  | CallDeleteEssence u32 u64 u32
  | CallDeleteFriend rstr bool
  | CallReaction u32 u64 rstr bool
  | CallChain emoji_chain_target u64 u32
  | CallBotStatus u32 u32 u32
  | CallBotCallback u32 u32 rstr rstr
  | CallTickets "rstr list"
  | CallClientKey
  | CallVoiceCharacters u32 u32
  | CallVoice u32 rstr rstr u32 u32
  | CallOcr rstr
  | CallPrivateUrl rstr rstr rstr
  | CallPrivateUpload private_file_upload_spec
  | CallGroupList u32 rstr u32
  | CallGroupDownload u32 rstr
  | CallGroupUpload group_file_upload_spec
  | CallGroupComplete u32 rstr u32
  | CallFileDelete u32 rstr
  | CallFileMove u32 rstr rstr rstr
  | CallFolderCreate u32 rstr
  | CallFolderDelete u32 rstr
  | CallFolderRename u32 rstr rstr

definition map_right :: "('a \<Rightarrow> 'b) \<Rightarrow> 'e + 'a \<Rightarrow> 'e + 'b" where
  "map_right f r = bindE r (\<lambda>a. Inr (f a))"

fun run_control :: "pb_encoder \<Rightarrow> control_call \<Rightarrow> control_error + control_request" where
  "run_control encode (CallKick a b c d) = group_kick encode a b c d"
| "run_control encode (CallBan a b c) = group_ban encode a b c"
| "run_control encode (CallWholeBan a b) = group_whole_ban encode a b"
| "run_control encode (CallAdmin a b c) = group_admin encode a b c"
| "run_control encode (CallCard a b c) = group_card encode a b c"
| "run_control encode (CallTitle a b c) = group_special_title encode a b c"
| "run_control encode (CallName a b) = group_name encode a b"
| "run_control encode (CallLeave a) = group_leave encode a"
| "run_control encode (CallLike a b) = friend_like encode a b"
| "run_control encode (CallPoke a b c) = poke encode a b c"
| "run_control encode (CallFriendRequest a b) = friend_request encode a b"
| "run_control encode (CallGroupRequest a b c d e) = group_request encode a b c d e"
| "run_control encode (CallSetEssence a b c) = set_group_essence encode a b c"
| "run_control encode (CallDeleteEssence a b c) = delete_group_essence encode a b c"
| "run_control encode (CallDeleteFriend a b) = delete_friend encode a b"
| "run_control encode (CallReaction a b c d) = group_reaction encode a b c d"
| "run_control encode (CallChain a b c) = join_emoji_chain encode a b c"
| "run_control encode (CallBotStatus a b c) = group_bot_status encode a b c"
| "run_control encode (CallBotCallback a b c d) = group_bot_callback encode a b c d"
| "run_control encode (CallTickets a) = domain_ticket_request encode a"
| "run_control encode CallClientKey = client_key_request encode"
| "run_control encode (CallVoiceCharacters a b) = ai_voice_characters encode a b"
| "run_control encode (CallVoice a b c d e) = generate_ai_voice encode a b c d e"
| "run_control encode (CallOcr a) = image_ocr encode a"
| "run_control encode (CallPrivateUrl a b c) = private_file_url encode a b c"
| "run_control encode (CallPrivateUpload a) = private_file_upload_request encode a"
| "run_control encode (CallGroupList a b c) = group_file_list_request encode a b c"
| "run_control encode (CallGroupDownload a b) = group_file_download_request encode a b"
| "run_control encode (CallGroupUpload a) = group_file_upload_request encode a"
| "run_control encode (CallGroupComplete a b c) = group_file_complete_request encode a b c"
| "run_control encode (CallFileDelete a b) = map_right gc_request (delete_group_file encode a b)"
| "run_control encode (CallFileMove a b c d) = map_right gc_request (move_group_file encode a b c d)"
| "run_control encode (CallFolderCreate a b) = map_right gc_request (create_group_file_folder encode a b)"
| "run_control encode (CallFolderDelete a b) = map_right gc_request (delete_group_file_folder encode a b)"
| "run_control encode (CallFolderRename a b c) = map_right gc_request (rename_group_file_folder encode a b c)"

section \<open>Routes\<close>

text \<open>The route text of a numbered OIDB service.\<close>

definition oidb_route :: "u32 \<Rightarrow> u32 \<Rightarrow> rstr" where
  "oidb_route command subcommand =
     lit ''OidbSvcTrpcTcp.0x'' @ hex_text (unat command) @ lit ''_'' @ decimal (unat subcommand)"

definition routed :: "(bytes \<Rightarrow> oidb_wire option) \<Rightarrow> control_request \<Rightarrow> bool" where
  "routed dec r \<longleftrightarrow>
     (\<exists>frame. decode_oidb_request dec (cr_body r) = Inr frame \<and>
        cr_command r = oidb_route (of_command frame) (of_subcommand frame))"

text \<open>Every request a computation may return is routed.\<close>

definition all_routed :: "(bytes \<Rightarrow> oidb_wire option) \<Rightarrow> control_error + control_request \<Rightarrow> bool" where
  "all_routed dec m \<longleftrightarrow> (\<forall>r. m = Inr r \<longrightarrow> routed dec r)"

named_theorems route_intros \<open>introduction rules for \<open>all_routed\<close>\<close>

lemma all_routed_Inl [route_intros]: "all_routed dec (Inl e)"
  by (simp add: all_routed_def)

lemma all_routed_bindE [route_intros]: "(\<And>a. all_routed dec (f a)) \<Longrightarrow> all_routed dec (bindE m f)"
  by (auto simp: all_routed_def bindE_Inr)

lemma all_routed_if [route_intros]:
  "all_routed dec x \<Longrightarrow> all_routed dec y \<Longrightarrow> all_routed dec (if c then x else y)"
  by simp

lemma all_routed_request [route_intros]:
  assumes "oidb_law encode dec" and "route = oidb_route command subcommand"
  shows "all_routed dec (request_reserved encode command subcommand route op reserved message)"
  using assms oidb_request_decodes
  by (fastforce simp: request_reserved_def Let_def resultE routed_def all_routed_def split: if_splits)

lemma all_routed_request_of [route_intros]:
  assumes "oidb_law encode dec" and "route = oidb_route command subcommand"
  shows "all_routed dec (control_request_of encode command subcommand route op message)"
  using all_routed_request [OF assms] by (simp add: control_request_of_def)

lemma all_routed_file_control [route_intros]:
  assumes "oidb_law encode dec" and "route = oidb_route command subcommand"
  shows "all_routed dec (map_right gc_request (group_file_control_of encode command subcommand route resp body))"
  using all_routed_request [OF assms, of None 1 body]
  by (auto simp: all_routed_def map_right_def group_file_control_of_def bindE_Inr)

lemma map_right_bindE: "map_right f (bindE m g) = bindE m (\<lambda>a. map_right f (g a))"
  by (cases m) (simp_all add: map_right_def)

text \<open>The numbers behind each route text of the sources.\<close>

lemmas route_eval = oidb_route_def lit_def hex_text.simps hex_char_def decimal.simps

lemma group_kick_routed:
  "oidb_law encode dec \<Longrightarrow> all_routed dec (group_kick encode a b c d)"
  unfolding group_kick_def by (intro route_intros; simp add: route_eval)

lemma group_ban_routed:
  "oidb_law encode dec \<Longrightarrow> all_routed dec (group_ban encode a b c)"
  unfolding group_ban_def by (intro route_intros; simp add: route_eval)

lemma group_whole_ban_routed:
  "oidb_law encode dec \<Longrightarrow> all_routed dec (group_whole_ban encode a b)"
  unfolding group_whole_ban_def by (intro route_intros; simp add: route_eval)

lemma group_admin_routed:
  "oidb_law encode dec \<Longrightarrow> all_routed dec (group_admin encode a b c)"
  unfolding group_admin_def by (intro route_intros; simp add: route_eval)

lemma group_card_routed:
  "oidb_law encode dec \<Longrightarrow> all_routed dec (group_card encode a b c)"
  by (simp add: group_card_def member_text_request_def for_card_def) (intro route_intros; simp add: route_eval)

lemma group_special_title_routed:
  "oidb_law encode dec \<Longrightarrow> all_routed dec (group_special_title encode a b c)"
  by (simp add: group_special_title_def member_text_request_def for_title_def) (intro route_intros; simp add: route_eval)

lemma group_name_routed:
  "oidb_law encode dec \<Longrightarrow> all_routed dec (group_name encode a b)"
  unfolding group_name_def by (intro route_intros; simp add: route_eval)

lemma group_leave_routed:
  "oidb_law encode dec \<Longrightarrow> all_routed dec (group_leave encode a)"
  unfolding group_leave_def by (intro route_intros; simp add: route_eval)

lemma friend_like_routed:
  "oidb_law encode dec \<Longrightarrow> all_routed dec (friend_like encode a b)"
  unfolding friend_like_def by (intro route_intros; simp add: route_eval)

lemma poke_routed:
  "oidb_law encode dec \<Longrightarrow> all_routed dec (poke encode a b c)"
  unfolding poke_def by (intro route_intros; simp add: route_eval)

lemma friend_request_routed:
  "oidb_law encode dec \<Longrightarrow> all_routed dec (friend_request encode a b)"
  unfolding friend_request_def by (intro route_intros; simp add: route_eval)

lemma group_request_routed:
  "oidb_law encode dec \<Longrightarrow> all_routed dec (group_request encode a b c d e)"
  unfolding group_request_def by (intro route_intros; simp add: route_eval)

lemma set_group_essence_routed:
  "oidb_law encode dec \<Longrightarrow> all_routed dec (set_group_essence encode a b c)"
  unfolding set_group_essence_def essence_request_def by (intro route_intros; simp add: route_eval)

lemma delete_group_essence_routed:
  "oidb_law encode dec \<Longrightarrow> all_routed dec (delete_group_essence encode a b c)"
  unfolding delete_group_essence_def essence_request_def by (intro route_intros; simp add: route_eval)

lemma delete_friend_routed:
  "oidb_law encode dec \<Longrightarrow> all_routed dec (delete_friend encode a b)"
  unfolding delete_friend_def by (intro route_intros; simp add: route_eval)

lemma group_reaction_routed:
  "oidb_law encode dec \<Longrightarrow> all_routed dec (group_reaction encode a b c d)"
  unfolding group_reaction_def Let_def
  by (cases d; simp only: if_True if_False; intro route_intros; simp add: route_eval)

lemma join_emoji_chain_routed:
  "oidb_law encode dec \<Longrightarrow> all_routed dec (join_emoji_chain encode a b c)"
  unfolding join_emoji_chain_def split_def by (intro route_intros; simp add: route_eval)

lemma group_bot_status_routed:
  "oidb_law encode dec \<Longrightarrow> all_routed dec (group_bot_status encode a b c)"
  unfolding group_bot_status_def by (intro route_intros; simp add: route_eval)

lemma group_bot_callback_routed:
  "oidb_law encode dec \<Longrightarrow> all_routed dec (group_bot_callback encode a b c d)"
  unfolding group_bot_callback_def by (intro route_intros; simp add: route_eval)

lemma domain_ticket_request_routed:
  "oidb_law encode dec \<Longrightarrow> all_routed dec (domain_ticket_request encode a)"
  unfolding domain_ticket_request_def by (intro route_intros; simp add: route_eval)

lemma ai_voice_characters_routed:
  "oidb_law encode dec \<Longrightarrow> all_routed dec (ai_voice_characters encode a b)"
  unfolding ai_voice_characters_def by (intro route_intros; simp add: route_eval)

lemma generate_ai_voice_routed:
  "oidb_law encode dec \<Longrightarrow> all_routed dec (generate_ai_voice encode a b c d e)"
  unfolding generate_ai_voice_def by (intro route_intros; simp add: route_eval)

lemma image_ocr_routed:
  "oidb_law encode dec \<Longrightarrow> all_routed dec (image_ocr encode a)"
  unfolding image_ocr_def by (intro route_intros; simp add: route_eval)

lemma private_file_url_routed:
  "oidb_law encode dec \<Longrightarrow> all_routed dec (private_file_url encode a b c)"
  unfolding private_file_url_def by (intro route_intros; simp add: route_eval)

lemma private_file_upload_request_routed:
  "oidb_law encode dec \<Longrightarrow> all_routed dec (private_file_upload_request encode a)"
  unfolding private_file_upload_request_def by (intro route_intros; simp add: route_eval)

lemma group_file_list_request_routed:
  "oidb_law encode dec \<Longrightarrow> all_routed dec (group_file_list_request encode a b c)"
  unfolding group_file_list_request_def by (intro route_intros; simp add: route_eval)

lemma group_file_download_request_routed:
  "oidb_law encode dec \<Longrightarrow> all_routed dec (group_file_download_request encode a b)"
  unfolding group_file_download_request_def by (intro route_intros; simp add: route_eval)

lemma group_file_upload_request_routed:
  "oidb_law encode dec \<Longrightarrow> all_routed dec (group_file_upload_request encode a)"
  unfolding group_file_upload_request_def by (intro route_intros; simp add: route_eval)

lemma group_file_complete_request_routed:
  "oidb_law encode dec \<Longrightarrow> all_routed dec (group_file_complete_request encode a b c)"
  unfolding group_file_complete_request_def by (intro route_intros; simp add: route_eval)

lemma delete_group_file_routed:
  "oidb_law encode dec \<Longrightarrow> all_routed dec (map_right gc_request (delete_group_file encode a b))"
  unfolding delete_group_file_def  map_right_bindE by (intro route_intros; simp add: route_eval)

lemma move_group_file_routed:
  "oidb_law encode dec \<Longrightarrow> all_routed dec (map_right gc_request (move_group_file encode a b c d))"
  unfolding move_group_file_def  map_right_bindE by (intro route_intros; simp add: route_eval)

lemma create_group_file_folder_routed:
  "oidb_law encode dec \<Longrightarrow> all_routed dec (map_right gc_request (create_group_file_folder encode a b))"
  unfolding create_group_file_folder_def folder_control_def map_right_bindE by (intro route_intros; simp add: route_eval)

lemma delete_group_file_folder_routed:
  "oidb_law encode dec \<Longrightarrow> all_routed dec (map_right gc_request (delete_group_file_folder encode a b))"
  unfolding delete_group_file_folder_def folder_control_def map_right_bindE by (intro route_intros; simp add: route_eval)

lemma rename_group_file_folder_routed:
  "oidb_law encode dec \<Longrightarrow> all_routed dec (map_right gc_request (rename_group_file_folder encode a b c))"
  unfolding rename_group_file_folder_def folder_control_def map_right_bindE by (intro route_intros; simp add: route_eval)

lemma client_key_routed:
  assumes law: "oidb_law encode dec"
  shows "all_routed dec (client_key_request encode)"
proof -
  have route: "lit ''OidbSvcTrpcTcp.0x102a_1'' = oidb_route 0x102a 1" by (simp add: route_eval)
  show ?thesis
    unfolding all_routed_def routed_def
  proof (intro allI impI)
    fix r assume "client_key_request encode = Inr r"
    then obtain body where e: "encode_empty_oidb_request encode 0x102a 1 0 = Inr body"
      and r: "r = \<lparr>cr_command = oidb_route 0x102a 1, cr_body = body, cr_signing_operation = None\<rparr>"
      by (auto simp: client_key_request_def resultE route)
    show "\<exists>frame. decode_oidb_request dec (cr_body r) = Inr frame \<and>
        cr_command r = oidb_route (of_command frame) (of_subcommand frame)"
      using oidb_empty_request_decodes [OF law e] by (simp add: r)
  qed
qed

lemmas call_routed =
  group_kick_routed group_ban_routed group_whole_ban_routed group_admin_routed
  group_card_routed group_special_title_routed group_name_routed group_leave_routed
  friend_like_routed poke_routed friend_request_routed group_request_routed
  set_group_essence_routed delete_group_essence_routed delete_friend_routed group_reaction_routed
  join_emoji_chain_routed group_bot_status_routed group_bot_callback_routed domain_ticket_request_routed
  ai_voice_characters_routed generate_ai_voice_routed image_ocr_routed private_file_url_routed
  private_file_upload_request_routed group_file_list_request_routed group_file_download_request_routed group_file_upload_request_routed
  group_file_complete_request_routed delete_group_file_routed move_group_file_routed create_group_file_folder_routed
  delete_group_file_folder_routed rename_group_file_folder_routed
  client_key_routed

lemma run_control_routed: "oidb_law encode dec \<Longrightarrow> all_routed dec (run_control encode c)"
  by (cases c) (simp_all only: run_control.simps call_routed)

text \<open>
  C37: whatever OIDB operation is called and whatever its arguments are, a request that is returned
  carries a body that decodes as an OIDB request, and the route text it is sent under is the one of
  the command and subcommand in that body.
\<close>

theorem control_route_matches_body:
  assumes "oidb_law encode dec" and "run_control encode c = Inr r"
  shows "\<exists>frame. decode_oidb_request dec (cr_body r) = Inr frame \<and>
    cr_command r = lit ''OidbSvcTrpcTcp.0x'' @ hex_text (unat (of_command frame)) @ lit ''_'' @
      decimal (unat (of_subcommand frame))"
  using run_control_routed [OF assms(1), of c] assms(2) by (simp add: all_routed_def routed_def oidb_route_def)

definition demo_call :: control_call where
  "demo_call = CallWholeBan 5 True"

lemma control_route_matches_body_witness:
  "\<exists>r. run_control demo_oidb_encode demo_call = Inr r \<and> cr_command r = lit ''OidbSvcTrpcTcp.0x89a_0'' \<and>
     (\<exists>frame. decode_oidb_request demo_oidb_decode (cr_body r) = Inr frame \<and>
        cr_command r = lit ''OidbSvcTrpcTcp.0x'' @ hex_text (unat (of_command frame)) @ lit ''_'' @
          decimal (unat (of_subcommand frame)))"
proof -
  have "\<exists>r. run_control demo_oidb_encode demo_call = Inr r \<and> cr_command r = lit ''OidbSvcTrpcTcp.0x89a_0''"
    by (simp add: demo_call_def group_whole_ban_def validate_group_def control_request_of_def request_reserved_def
        encode_oidb_request_def validate_command_and_body_def demo_oidb_encode_def whole_mute_body_def
        MAX_OIDB_BODY_BYTES_def)
  then show ?thesis using control_route_matches_body [OF demo_oidb_law, of demo_call] by blast
qed

section \<open>Web tickets\<close>

text \<open>The tickets answer exactly the requested domains.\<close>

lemma ticket_of_Inr:
  assumes "ticket_of items d = Inr t"
  shows "dt_domain t = d \<and> filter (\<lambda>item. tp_domain item = d) items = [\<lparr>tp_domain = d, tp_value = dt_value t\<rparr>] \<and>
    utf8_valid (dt_value t) \<and> dt_value t \<noteq> []"
proof -
  from assms obtain item where f: "filter (\<lambda>item. tp_domain item = d) items = [item]"
    and t: "t = \<lparr>dt_domain = d, dt_value = tp_value item\<rparr>" "utf8_valid (tp_value item)" "tp_value item \<noteq> []"
    by (auto simp: ticket_of_def bindE_Inr from_utf8_Inr split: list.splits if_splits)
  from f have "item \<in> set (filter (\<lambda>item. tp_domain item = d) items)" by simp
  then have "tp_domain item = d" by simp
  with f t show ?thesis by (cases item) simp
qed

lemma filtered_singletons_cover:
  assumes "\<And>d. d \<in> set ds \<Longrightarrow> \<exists>x. filter (\<lambda>i. g i = d) xs = [x]" and "distinct ds" and "length xs \<le> length ds"
  shows "set (map g xs) = set ds \<and> distinct (map g xs)"
proof -
  have sub: "set ds \<subseteq> set (map g xs)"
  proof
    fix d assume "d \<in> set ds"
    with assms(1) obtain x where "filter (\<lambda>i. g i = d) xs = [x]" by blast
    then have "x \<in> set (filter (\<lambda>i. g i = d) xs)" by simp
    then show "d \<in> set (map g xs)" by auto
  qed
  have "card (set (map g xs)) \<le> length xs" using card_length [of "map g xs"] by simp
  also have "\<dots> \<le> card (set ds)" using assms(2,3) by (simp add: distinct_card)
  finally have eq: "set ds = set (map g xs)"
    using sub by (intro card_seteq) auto
  then have "card (set (map g xs)) = length (map g xs)"
    using assms(2,3) card_length [of "map g xs"] distinct_card [of ds] by simp
  then have "distinct (map g xs)" by (rule card_distinct)
  with eq show ?thesis by simp
qed


lemma domains_loop_Inr:
  "domains_loop U ds = Inr u \<Longrightarrow> distinct ds \<and> set ds \<inter> U = {} \<and> list_all valid_domain ds"
  by (induction U ds rule: domains_loop.induct) (auto split: if_splits)

text \<open>
  when the request for the domains could be built and the response to it is accepted, the
  returned tickets are for exactly the requested domains in their order, and they are, value for
  value, the items of the response: none is dropped, added or bound to another domain.
\<close>

theorem domain_tickets_answer_request:
  assumes "domain_ticket_request encode requested = Inr r"
    and "parse_domain_ticket_response dec dec_items response requested = Inr tickets"
  shows "\<exists>items. typed_response dec dec_items response = Inr items \<and> map dt_domain tickets = requested \<and>
    distinct (map tp_domain items) \<and>
    set items = (\<lambda>t. \<lparr>tp_domain = dt_domain t, tp_value = dt_value t\<rparr>) ` set tickets"
proof -
  have dist: "distinct requested"
    using assms(1) domains_loop_Inr [of "{}" requested] by (auto simp: domain_ticket_request_def bindE_Inr split: if_splits)
  from assms(2) obtain items where items: "typed_response dec dec_items response = Inr items"
    and len: "length items = length requested" and coll: "map (ticket_of items) requested = map Inr tickets"
    by (auto simp: parse_domain_ticket_response_def bindE_Inr collect_results_Inr split: if_splits)
  have n: "length tickets = length requested" using coll by (metis length_map)
  have tk: "ticket_of items (requested ! i) = Inr (tickets ! i)" if "i < length requested" for i
    using arg_cong [OF coll, of "\<lambda>l. l ! i"] that n by simp
  have names: "map dt_domain tickets = requested"
  proof (rule nth_equalityI)
    fix i assume i: "i < length (map dt_domain tickets)"
    then have "dt_domain (tickets ! i) = requested ! i" using n ticket_of_Inr [OF tk [of i]] by simp
    with i show "map dt_domain tickets ! i = requested ! i" by simp
  qed (simp add: n)
  have one: "filter (\<lambda>i. tp_domain i = dt_domain t) items = [\<lparr>tp_domain = dt_domain t, tp_value = dt_value t\<rparr>]"
    if "t \<in> set tickets" for t
    using that n tk ticket_of_Inr by (metis in_set_conv_nth)
  have cover: "set (map tp_domain items) = set requested \<and> distinct (map tp_domain items)"
    using dist len one by (intro filtered_singletons_cover) (auto simp flip: names)
  have "set items = (\<lambda>t. \<lparr>tp_domain = dt_domain t, tp_value = dt_value t\<rparr>) ` set tickets"
  proof (intro equalityI subsetI)
    fix i assume i: "i \<in> set items"
    then have "tp_domain i \<in> set (map dt_domain tickets)" using cover names by auto
    then obtain t where t: "t \<in> set tickets" "dt_domain t = tp_domain i" by auto
    have "i \<in> set (filter (\<lambda>i. tp_domain i = dt_domain t) items)" using i t by simp
    then show "i \<in> (\<lambda>t. \<lparr>tp_domain = dt_domain t, tp_value = dt_value t\<rparr>) ` set tickets"
      using one [OF t(1)] t(1) by auto
  next
    fix i assume "i \<in> (\<lambda>t. \<lparr>tp_domain = dt_domain t, tp_value = dt_value t\<rparr>) ` set tickets"
    then obtain t where t: "t \<in> set tickets" "i = \<lparr>tp_domain = dt_domain t, tp_value = dt_value t\<rparr>" by auto
    then have "i \<in> set (filter (\<lambda>i. tp_domain i = dt_domain t) items)" using one [OF t(1)] by simp
    then show "i \<in> set items" by simp
  qed
  with items names cover show ?thesis by blast
qed

text \<open>Two tickets, answered in the other order.\<close>

definition demo_reply :: "bytes \<Rightarrow> bytes" where
  "demo_reply body = demo_oidb_encode (oidb_fields \<lparr>ow_command = 1, ow_subcommand = 1, ow_error_code = 0,
     ow_body = body, ow_error_message = [], ow_reserved = 0\<rparr>)"

definition demo_tickets :: "bytes \<Rightarrow> ticket_property list option" where
  "demo_tickets body =
     (if body = [7] then Some [\<lparr>tp_domain = lit ''b.c'', tp_value = lit ''k2''\<rparr>, \<lparr>tp_domain = lit ''a.c'', tp_value = lit ''k1''\<rparr>]
      else None)"

lemma demo_typed_response: "length body \<le> 1024 \<Longrightarrow> typed_response demo_oidb_decode decode_message (demo_reply body) =
    ok_or ControlError (decode_message body)"
  using oidb_response_decodes [OF demo_oidb_law, of "\<lparr>ow_command = 1, ow_subcommand = 1, ow_error_code = 0,
     ow_body = body, ow_error_message = [], ow_reserved = 0\<rparr>"]
  by (simp add: demo_reply_def typed_response_def MAX_OIDB_BODY_BYTES_def chars_def)

lemma demo_reply_length: "length (demo_reply body) = 24 + length body"
  by (simp add: demo_reply_def demo_oidb_encode_def oidb_fields_def pb_payload_def pb_u32_of_def pb_bytes_of_def Let_def)

lemmas byte_evals = is_ascii_alphanumeric_def is_ascii_digit_def is_ascii_lowercase_def lit_def starts_with_def ends_with_def

lemma domain_tickets_answer_request_witness:
  "parse_domain_ticket_response demo_oidb_decode demo_tickets (demo_reply [7]) [lit ''a.c'', lit ''b.c''] =
     Inr [\<lparr>dt_domain = lit ''a.c'', dt_value = lit ''k1''\<rparr>, \<lparr>dt_domain = lit ''b.c'', dt_value = lit ''k2''\<rparr>] \<and>
   (\<exists>items. typed_response demo_oidb_decode demo_tickets (demo_reply [7]) = Inr items \<and> distinct (map tp_domain items))"
proof -
  have q: "\<exists>r. domain_ticket_request demo_oidb_encode [lit ''a.c'', lit ''b.c''] = Inr r"
    by (simp add: domain_ticket_request_def valid_domain_def byte_evals MAX_DOMAINS_def MAX_DOMAIN_BYTES_def
        control_request_of_def request_reserved_def encode_oidb_request_def validate_command_and_body_def
        demo_oidb_encode_def domain_ticket_message_def MAX_OIDB_BODY_BYTES_def)
  have p: "parse_domain_ticket_response demo_oidb_decode demo_tickets (demo_reply [7]) [lit ''a.c'', lit ''b.c''] =
     Inr [\<lparr>dt_domain = lit ''a.c'', dt_value = lit ''k1''\<rparr>, \<lparr>dt_domain = lit ''b.c'', dt_value = lit ''k2''\<rparr>]"
    by (simp add: parse_domain_ticket_response_def demo_typed_response demo_tickets_def valid_domain_def byte_evals
        MAX_DOMAINS_def MAX_DOMAIN_BYTES_def ticket_of_def MAX_TICKET_BYTES_def from_utf8_def utf8_valid_def has_control_def
        chars_def is_control_def)
  from q obtain r where r: "domain_ticket_request demo_oidb_encode [lit ''a.c'', lit ''b.c''] = Inr r" by blast
  show ?thesis using p domain_tickets_answer_request [OF r p] by blast
qed

section \<open>URL authorities\<close>

text \<open>The authority of an \<open>http://\<close> URL: what stands before the path, query or fragment.\<close>

definition url_authority :: "rstr \<Rightarrow> rstr" where
  "url_authority url = takeWhile (\<lambda>b. b \<notin> {0x2F, 0x3F, 0x23}) (drop (length (lit ''http://'')) url)"

text \<open>
  The bytes of a host name or an IPv4 address, and those between the brackets of an IPv6 address. None
  of them ends an authority, and only the latter contain the colon that separates the port.
\<close>

definition host_name_byte :: "u8 \<Rightarrow> bool" where
  "host_name_byte b \<longleftrightarrow> is_ascii_alphanumeric b \<or> b \<in> {0x2D, 0x2E}"

definition host_ip6_byte :: "u8 \<Rightarrow> bool" where
  "host_ip6_byte b \<longleftrightarrow> is_ascii_alphanumeric b \<or> b \<in> {0x2E, 0x3A}"

definition host_shape :: "rstr \<Rightarrow> bool" where
  "host_shape host \<longleftrightarrow> host \<noteq> [] \<and>
     (list_all host_name_byte host \<or> (\<exists>inner. host = 0x5B # inner @ [0x5D] \<and> list_all host_ip6_byte inner))"

lemma list_all_join_with: "list_all P sep \<Longrightarrow> list_all (list_all P) xs \<Longrightarrow> list_all P (join_with sep xs)"
  by (induction sep xs rule: join_with.induct) auto

lemma list_all_map_const: "(\<And>x. P (f x)) \<Longrightarrow> list_all P (map f xs)"
  by (induction xs) simp_all

lemma host_bytes_of_digit: "is_ascii_digit b \<Longrightarrow> host_name_byte b \<and> host_ip6_byte b"
  by (simp add: host_name_byte_def host_ip6_byte_def is_ascii_alphanumeric_def)

lemma decimal_host_bytes: "list_all host_name_byte (decimal n)" "list_all host_ip6_byte (decimal n)"
  using decimal_digits host_bytes_of_digit by (auto simp: list_all_iff)

lemma hex_char_ip6: "d < 16 \<Longrightarrow> host_ip6_byte (hex_char d)"
proof -
  assume "d < 16"
  then have "d \<in> set [0..<16]" by simp
  then show ?thesis
    by (auto simp: upt_rec host_ip6_byte_def hex_char_def is_ascii_alphanumeric_def is_ascii_digit_def is_ascii_lowercase_def)
qed

lemma hex_text_ip6: "list_all host_ip6_byte (hex_text n)"
proof (induction n rule: hex_text.induct)
  case (1 n)
  then show ?case
    using hex_char_ip6 [of n] hex_char_ip6 [of "n mod 16"] by (subst hex_text.simps) auto
qed

lemma ipv4_host_bytes: "list_all host_name_byte (ipv4_text os)" "list_all host_ip6_byte (ipv4_text os)"
proof -
  have "list_all host_name_byte [0x2E]" "list_all host_ip6_byte [0x2E]"
    by (simp_all add: host_name_byte_def host_ip6_byte_def)
  note dot = this
  show "list_all host_name_byte (ipv4_text os)" "list_all host_ip6_byte (ipv4_text os)"
    unfolding ipv4_text_def
    by (rule list_all_join_with [OF dot(1)], rule list_all_map_const, rule decimal_host_bytes)
      (rule list_all_join_with [OF dot(2)], rule list_all_map_const, rule decimal_host_bytes)
qed

lemma groups_ip6: "list_all host_ip6_byte (groups_text gs)"
  unfolding groups_text_def
  by (intro list_all_join_with list_all_map_const hex_text_ip6) (simp add: host_ip6_byte_def)

lemma ipv6_ip6: "list_all host_ip6_byte (ipv6_text gs)"
  by (simp add: ipv6_text_def split_def Let_def groups_ip6 ipv4_host_bytes lit_def host_ip6_byte_def
      is_ascii_alphanumeric_def is_ascii_digit_def is_ascii_lowercase_def
      groups_ip6 [unfolded host_ip6_byte_def] ipv4_host_bytes [unfolded host_ip6_byte_def])

lemma read_octets_nonempty: "read_octets i (Suc n) s = Some (os, r) \<Longrightarrow> os \<noteq> []"
  by (auto split: option.splits)

lemma ipv4_text_nonempty: "os \<noteq> [] \<Longrightarrow> ipv4_text os \<noteq> []"
proof -
  have "decimal n \<noteq> []" for n by (subst decimal.simps) simp
  then show "os \<noteq> [] \<Longrightarrow> ipv4_text os \<noteq> []"
    unfolding ipv4_text_def by (cases os; cases "tl os") auto
qed

lemma url_host_shape:
  assumes "url_host v = Inr host"
  shows "host_shape host"
proof (cases "parse_ip_addr v")
  case None
  with assms have "list_all valid_label (split_on 0x2E v)" and h: "host = v" "v \<noteq> []"
    by (auto simp: url_host_def split: if_splits)
  then have "list_all (list_all host_name_byte) (split_on 0x2E v)"
    by (auto simp: list_all_iff valid_label_def host_name_byte_def)
  then have "host_name_byte b \<or> b = 0x2E" if "b \<in> set v" for b
    using list_all_split_on that by blast
  then show ?thesis
    using h(2) unfolding h(1) host_shape_def list_all_iff by (auto simp: host_name_byte_def)
next
  case (Some a)
  show ?thesis
  proof (cases a)
    case (IpV4 os)
    with Some assms have "host = ipv4_text os" by (auto simp: url_host_def split: if_splits)
    moreover have "ipv4_text os \<noteq> []"
      using read_octets_nonempty [of 0 3 v os] Some IpV4 ipv4_text_nonempty
      by (auto simp: parse_ip_addr_def read_ipv4_def split: option.splits if_splits)
    ultimately show ?thesis by (simp add: host_shape_def ipv4_host_bytes)
  next
    case (IpV6 gs)
    with Some assms have "host = 0x5B # ipv6_text gs @ [0x5D]"
      by (auto simp: url_host_def lit_def split: if_splits)
    then show ?thesis by (auto simp: host_shape_def ipv6_ip6)
  qed
qed

lemma host_bytes_ends: "host_name_byte b \<or> host_ip6_byte b \<Longrightarrow> b \<notin> {0x2F, 0x3F, 0x23, 0x40}"
  by (auto simp: host_name_byte_def host_ip6_byte_def is_ascii_alphanumeric_def is_ascii_digit_def is_ascii_lowercase_def)

lemma host_shape_ends:
  assumes "host_shape host" "b \<in> set host"
  shows "b \<notin> {0x2F, 0x3F, 0x23, 0x40}"
proof -
  from assms have "host_name_byte b \<or> host_ip6_byte b \<or> b = 0x5B \<or> b = 0x5D"
    by (auto simp: host_shape_def list_all_iff)
  with host_bytes_ends [of b] show ?thesis by auto
qed

text \<open>
  C38: an accepted private-file location yields a URL whose authority is the validated host, a colon and
  a port from 1 to 65535. The host is not empty and is a name or an IPv4 address, made of letters,
  digits, hyphens and dots, or a bracketed IPv6 address; so no byte of the server name or of the path can
  add user information, a second port or another host.
\<close>

theorem private_file_url_authority:
  assumes "parse_private_file_url_response dec dec_location input = Inr url"
  shows "\<exists>location host. typed_response dec dec_location input = Inr (Some (Some location)) \<and>
    url_host (pl_server location) = Inr host \<and> host \<noteq> [] \<and>
    (list_all host_name_byte host \<or> (\<exists>inner. host = 0x5B # inner @ [0x5D] \<and> list_all host_ip6_byte inner)) \<and>
    url_authority url = host @ lit '':'' @ decimal (unat (pl_port location)) \<and>
    0 < unat (pl_port location) \<and> unat (pl_port location) < 2 ^ 16"
proof -
  from assms obtain location host where
    loc: "typed_response dec dec_location input = Inr (Some (Some location))" "url_host (pl_server location) = Inr host"
    "unat (pl_port location) < 2 ^ 16" "pl_port location \<noteq> 0" "starts_with (lit ''/'') (pl_path location)"
    "pl_path location \<noteq> []"
    "url = lit ''http://'' @ host @ lit '':'' @ decimal (unat (pl_port location)) @ pl_path location @ lit ''&isthumb=0''"
    by (auto simp: parse_private_file_url_response_def resultE bind_eq_Some_conv split: if_splits)
  then obtain rest where rest: "pl_path location = 0x2F # rest"
    by (cases "pl_path location") (auto simp: starts_with_def lit_def)
  note shape = url_host_shape [OF loc(2)]
  have port: "b \<notin> {0x2F, 0x3F, 0x23}" if "b \<in> set (decimal n)" for b n
    using that decimal_host_bytes(1) [of n] host_bytes_ends [of b] by (auto simp: list_all_iff)
  have "url_authority url = takeWhile (\<lambda>b. b \<notin> {0x2F, 0x3F, 0x23})
      ((host @ lit '':'' @ decimal (unat (pl_port location))) @ 0x2F # rest @ lit ''&isthumb=0'')"
    by (simp add: url_authority_def loc(7) rest)
  also have "\<dots> = host @ lit '':'' @ decimal (unat (pl_port location))"
    using host_shape_ends [OF shape] port by (subst takeWhile_append2) (auto simp: lit_def)
  finally have "url_authority url = host @ lit '':'' @ decimal (unat (pl_port location))" .
  with loc shape show ?thesis
    unfolding host_shape_def by (metis unat_gt_0)
qed

definition demo_location :: "bytes \<Rightarrow> private_file_location option option option" where
  "demo_location body =
     (if body = [9] then Some (Some (Some \<lparr>pl_server = lit ''::1'', pl_port = 80, pl_path = lit ''/f?a''\<rparr>)) else None)"

lemma private_file_url_authority_witness:
  "parse_private_file_url_response demo_oidb_decode demo_location (demo_reply [9]) =
     Inr (lit ''http://[::1]:80/f?a&isthumb=0'') \<and>
   (\<exists>location. unat (pl_port location) = 80 \<and> typed_response demo_oidb_decode demo_location (demo_reply [9]) = Inr (Some (Some location)))"
proof -
  have "parse_ip_addr (lit ''::1'') = Some (IpV6 [0, 0, 0, 0, 0, 0, 0, 1])"
    by (simp add: ip_eval lit_def)
  then have h: "url_host (lit ''::1'') = Inr (lit ''[::1]'')"
    by (simp add: url_host_def has_control_def chars_def is_control_def lit_def ipv6_text_def
        groups_text_def hex_text.simps hex_char_def)
  have p: "parse_private_file_url_response demo_oidb_decode demo_location (demo_reply [9]) =
     Inr (lit ''http://[::1]:80/f?a&isthumb=0'')"
    using h by (simp add: parse_private_file_url_response_def demo_typed_response demo_location_def decimal.simps
        MAX_URL_PATH_BYTES_def starts_with_def has_control_def chars_def is_control_def lit_def
        MAX_LOCATION_RESPONSE_BYTES_def demo_reply_length)
  show ?thesis using p private_file_url_authority [OF p] by (auto simp: demo_typed_response demo_location_def)
qed

section \<open>Upload continuations\<close>

text \<open>
  What the parsers of upload responses promise the Highway step: an accepted continuation that asks
  for a transfer has a key, a host and a port, so the extension can be built for every file whose
  encoding keeps within the limit.
\<close>

lemma private_plan_usable:
  assumes "parse_private_file_upload_response dec dec_upload input = Inr plan" and "\<not> pp_file_exists plan"
  shows "pp_upload_key plan \<noteq> [] \<and> pp_upload_host plan \<noteq> [] \<and> pp_upload_port plan \<noteq> 0 \<and>
    upload_valid_text (pp_file_id plan)"
  using assms by (auto simp: parse_private_file_upload_response_def resultE upload_valid_text_def split: if_splits)

lemma private_extension_decided_by_length:
  assumes "parse_private_file_upload_response dec dec_upload input = Inr plan" and "\<not> pp_file_exists plan"
    and "sender_uin \<noteq> 0" and "file_size \<noteq> 0" and "upload_valid_text file_name"
  shows "\<exists>extension. private_highway_extension encode plan sender_uin file_name file_size md5 sha1 =
    (if extension = [] \<or> MAX_OPAQUE_BYTES < length extension then Inl ControlError else Inr extension)"
  using private_plan_usable [OF assms(1,2)] assms(2-)
  by (auto simp: private_highway_extension_def Let_def)

section \<open>Path components\<close>

text \<open>
  The comment of \<open>parse_custom_faces_response\<close> announces an error for unsafe path components; the
  segment check is on the byte alphabet, which holds the dot, so the parent segment is accepted.
\<close>

lemma custom_face_parent_segment:
  "custom_face_url 7 (lit ''..'') (lit ''..'') = Inr (lit ''https://p.qpic.cn/../7/../0'') \<and> valid_segment (lit ''..'')"
  by (simp add: custom_face_url_def valid_segment_def face_valid_text_def face_segment_byte_def lit_def decimal.simps
      MAX_FACE_TEXT_BYTES_def is_trimmed_def chars_def is_whitespace_def has_control_def is_control_def)

end
