(* ===== verification/Codec.thy ===== *)
theory Codec
  imports Wire Rust_Str
begin

text \<open>
  Building blocks of the canonical binary formats: optional and repeated fields, texts, magic and
  version, each as a reader with its exact description (\<open>field_form\<close>) and a writer with its exact
  effect. The locale \<open>signed_codec\<close> is the shape the signed formats share: a decoder reads a value,
  validates it and accepts only if encoding the value gives back the input.
\<close>

definition field_form :: "(wire_reader, 'e, 'a) op \<Rightarrow> ('a \<Rightarrow> bool) \<Rightarrow> ('a \<Rightarrow> bytes) \<Rightarrow> bool" where
  "field_form m D enc \<longleftrightarrow> accepts m (\<lambda>a xs ys. D a \<and> xs = enc a)"

lemma field_formD: "field_form m D enc \<Longrightarrow> accepts m (\<lambda>a xs ys. D a \<and> xs = enc a)"
  by (simp add: field_form_def)

named_theorems field_forms \<open>readers in field form\<close>

lemma field_form_u8 [field_forms]: "field_form (map_errS g read_u8) (\<lambda>_. True) (\<lambda>v. [v])"
  unfolding field_form_def by (rule accepts_map_errS accepts_fields)+

lemma field_form_u16 [field_forms]: "field_form (map_errS g read_u16) (\<lambda>_. True) (to_be 2)"
  unfolding field_form_def by (rule accepts_map_errS accepts_fields)+

lemma field_form_u32 [field_forms]: "field_form (map_errS g read_u32) (\<lambda>_. True) (to_be 4)"
  unfolding field_form_def by (rule accepts_map_errS accepts_fields)+

lemma field_form_i32 [field_forms]: "field_form (map_errS g read_i32) (\<lambda>_. True) (to_be 4)"
  unfolding field_form_def by (rule accepts_map_errS accepts_fields)+

lemma field_form_u64 [field_forms]: "field_form (map_errS g read_u64) (\<lambda>_. True) (to_be 8)"
  unfolding field_form_def by (rule accepts_map_errS accepts_fields)+

lemma field_form_prefixed [field_forms]:
  "field_form (map_errS g (read_prefixed_bytes p n)) (\<lambda>b. prefix_fits p (length b) \<and> length b \<le> n) (prefixed p)"
  unfolding field_form_def by (rule accepts_map_errS accepts_fields)+

lemma field_form_bytes [field_forms]:
  "field_form (map_errS g (read_bytes n)) (\<lambda>b. length b = n) (\<lambda>b. b)"
  unfolding field_form_def
  by (rule back_subst [of "accepts _", OF accepts_map_errS [OF accepts_bytes]]) (auto simp: fun_eq_iff)

text \<open>A field whose value is checked and converted.\<close>

lemma field_form_checked:
  assumes m: "field_form m D enc" and back_eq: "\<And>a b. conv a = Inr b \<Longrightarrow> a = raw_of b"
  shows "field_form (bindS m (\<lambda>a. liftS (conv a))) (\<lambda>b. D (raw_of b) \<and> conv (raw_of b) = Inr b) (\<lambda>b. enc (raw_of b))"
  unfolding field_form_def
  by (rule back_subst [of "accepts _", OF accepts_seq_field [OF field_formD [OF m] accepts_lift]])
    (use back_eq in \<open>auto simp: fun_eq_iff\<close>)

section \<open>Texts\<close>

definition read_str :: "'e \<Rightarrow> length_prefix \<Rightarrow> nat \<Rightarrow> (wire_reader, 'e, rstr) op" where
  "read_str e p maximum =
     bindS (map_errS (\<lambda>_. e) (read_prefixed_bytes p maximum)) (\<lambda>bs. liftS (from_utf8 e bs))"

definition str_ok :: "length_prefix \<Rightarrow> nat \<Rightarrow> rstr \<Rightarrow> bool" where
  "str_ok p maximum s \<longleftrightarrow> prefix_fits p (length s) \<and> length s \<le> maximum \<and> utf8_valid s"

lemma field_form_str [field_forms]: "field_form (read_str e p n) (str_ok p n) (prefixed p)"
  unfolding read_str_def
  using field_form_checked [OF field_form_prefixed [of "\<lambda>_. e" p n], of "from_utf8 e" "\<lambda>s. s"]
  by (simp add: from_utf8_Inr str_ok_def [abs_def] conj_assoc)

lemma str_ok_imp: "str_ok p n s \<Longrightarrow> prefix_fits p (length s)" "str_ok p n s \<Longrightarrow> length s \<le> n"
  by (simp_all add: str_ok_def)

section \<open>Optional and repeated fields\<close>

definition read_option :: "'e \<Rightarrow> (wire_reader, 'e, 'a) op \<Rightarrow> (wire_reader, 'e, 'a option) op" where
  "read_option e rd =
     bindS (map_errS (\<lambda>_. e) read_u8) (\<lambda>flag.
     if flag = 0 then retS None
     else if flag = 1 then bindS rd (\<lambda>a. retS (Some a))
     else failS e)"

definition option_bytes :: "('a \<Rightarrow> bytes) \<Rightarrow> 'a option \<Rightarrow> bytes" where
  "option_bytes enc x = (case x of None \<Rightarrow> [0] | Some a \<Rightarrow> 1 # enc a)"

lemma field_form_option [field_forms]:
  assumes "field_form rd D enc"
  shows "field_form (read_option e rd) (pred_option D) (option_bytes enc)"
proof -
  have some: "accepts (bindS rd (\<lambda>a. retS (Some a))) (\<lambda>x xs ys. \<exists>a. x = Some a \<and> D a \<and> xs = enc a)"
    by (rule back_subst [of "accepts _", OF accepts_seq_field [OF field_formD [OF assms] accepts_ret]])
      (auto simp: fun_eq_iff)
  show ?thesis
    unfolding field_form_def read_option_def
    by (rule back_subst [of "accepts _", OF accepts_seq_field [OF field_formD [OF field_form_u8]
          accepts_if [OF accepts_ret accepts_if [OF some accepts_fail]]]])
      (auto simp: fun_eq_iff option_bytes_def split: option.splits intro: exI [of _ 0])
qed

fun read_many :: "nat \<Rightarrow> (wire_reader, 'e, 'a) op \<Rightarrow> (wire_reader, 'e, 'a list) op" where
  "read_many 0 rd = retS []"
| "read_many (Suc n) rd = bindS rd (\<lambda>a. bindS (read_many n rd) (\<lambda>as. retS (a # as)))"

definition many_bytes :: "('a \<Rightarrow> bytes) \<Rightarrow> 'a list \<Rightarrow> bytes" where
  "many_bytes enc as = concat (map enc as)"

lemma field_form_many [field_forms]:
  assumes "field_form rd D enc"
  shows "field_form (read_many n rd) (\<lambda>as. length as = n \<and> list_all D as) (many_bytes enc)"
proof (induction n)
  case 0
  show ?case
    unfolding field_form_def
    by (rule back_subst [of "accepts _"], simp, rule accepts_ret) (auto simp: fun_eq_iff many_bytes_def)
next
  case (Suc n)
  show ?case
    unfolding field_form_def read_many.simps
    by (rule back_subst [of "accepts _", OF accepts_seq_field [OF field_formD [OF assms]
          accepts_seq_field [OF field_formD [OF Suc] accepts_ret]]])
      (auto simp: fun_eq_iff many_bytes_def length_Suc_conv)
qed

text \<open>A value followed by a value whose format may depend on it.\<close>

lemma field_form_seq:
  assumes m: "field_form m D enc" and f: "\<And>a. field_form (f a) (E a) (fenc a)"
    and proj: "\<And>a b. E a b \<Longrightarrow> a = key b"
  shows "field_form (bindS m f) (\<lambda>b. D (key b) \<and> E (key b) b) (\<lambda>b. enc (key b) @ fenc (key b) b)"
  unfolding field_form_def
  by (rule back_subst [of "accepts _", OF accepts_seq_field [OF field_formD [OF m] field_formD [OF f]]])
    (use proj in \<open>auto simp: fun_eq_iff\<close>)

section \<open>Magic and version\<close>

definition read_header :: "'e \<Rightarrow> bytes \<Rightarrow> u16 \<Rightarrow> (wire_reader, 'e, unit) op" where
  "read_header e magic version =
     bindS (map_errS (\<lambda>_. e) (read_bytes (length magic))) (\<lambda>m.
     bindS (liftS (guardE (m = magic) e)) (\<lambda>_.
     bindS (map_errS (\<lambda>_. e) read_u16) (\<lambda>v.
     liftS (guardE (v = version) e))))"

lemma field_form_header [field_forms]:
  "field_form (read_header e magic version) (\<lambda>_. True) (\<lambda>_. magic @ to_be 2 version)"
  unfolding field_form_def read_header_def
  by (rule back_subst [of "accepts _", OF accepts_seq_field [OF field_formD [OF field_form_bytes]
        accepts_seq_guard [OF accepts_seq_field [OF field_formD [OF field_form_u16] accepts_lift]]]])
    (auto simp: fun_eq_iff guardE_Inr)

section \<open>Writers\<close>

definition put_option :: "('a \<Rightarrow> (wire_writer, wire_error, unit) op) \<Rightarrow> 'a option \<Rightarrow> (wire_writer, wire_error, unit) op" where
  "put_option put x = (case x of None \<Rightarrow> put_u8 0 | Some a \<Rightarrow> bindS (put_u8 1) (\<lambda>_. put a))"

fun put_many :: "('a \<Rightarrow> (wire_writer, wire_error, unit) op) \<Rightarrow> 'a list \<Rightarrow> (wire_writer, wire_error, unit) op" where
  "put_many put [] = retS ()"
| "put_many put (a # as) = bindS (put a) (\<lambda>_. put_many put as)"

lemma emits_conv: "emits m C xs \<Longrightarrow> C = D \<Longrightarrow> xs = ys \<Longrightarrow> emits m D ys"
  by simp

lemma emits_option [emits_intros]:
  assumes "\<And>a. emits (put a) (C a) (enc a)"
  shows "emits (put_option put x) (pred_option C x) (option_bytes enc x)"
  using emits_bind [OF emits_u8 assms] emits_u8
  by (cases x) (auto simp: put_option_def option_bytes_def)

lemma many_bytes_Cons [simp]: "many_bytes enc (a # as) = enc a @ many_bytes enc as" "many_bytes enc [] = []"
  by (simp_all add: many_bytes_def)

text \<open>After another write, so that an empty list needs no room of its own.\<close>

lemma emits_then_many [emits_intros]:
  assumes put: "\<And>a. emits (put a) (C a) (enc a)" and m: "emits m D xs"
  shows "emits (bindS m (\<lambda>_. put_many put as)) (D \<and> list_all C as) (xs @ many_bytes enc as)"
  using m
proof (induction as arbitrary: m D xs)
  case Nil
  then show ?case by (auto simp: emits_def bindS_Inr retS_def)
next
  case (Cons a as)
  have "bindS m (\<lambda>_. put_many put (a # as)) = bindS (bindS m (\<lambda>_. put a)) (\<lambda>_. put_many put as)"
    by (auto simp: bindS_def fun_eq_iff split: prod.splits sum.splits)
  with Cons.IH [OF emits_bind [OF Cons.prems put [of a]]] show ?case by simp
qed

lemma length_many_le: "(\<And>a. a \<in> set as \<Longrightarrow> length (enc a) \<le> n) \<Longrightarrow> length (many_bytes enc as) \<le> n * length as"
  by (induction as) (auto simp: add_mono)

text \<open>\<open>u16::try_from(len)\<close> and \<open>u8::try_from(len)\<close>, and the count they write.\<close>

definition put_count16 :: "wire_error \<Rightarrow> nat \<Rightarrow> (wire_writer, wire_error, unit) op" where
  "put_count16 e n = (if n < 2 ^ 16 then put_u16 (of_nat n) else failS e)"

definition put_count8 :: "wire_error \<Rightarrow> nat \<Rightarrow> (wire_writer, wire_error, unit) op" where
  "put_count8 e n = (if n < 2 ^ 8 then put_u8 (of_nat n) else failS e)"

lemma emits_count16 [emits_intros]: "emits (put_count16 e n) (n < 2 ^ 16) (to_be 2 (of_nat n :: u16))"
  by (auto simp: put_count16_def emits_def put_ints_Inr failS_def)

lemma emits_count8 [emits_intros]: "emits (put_count8 e n) (n < 2 ^ 8) [of_nat n]"
  by (auto simp: put_count8_def emits_def put_ints_Inr failS_def)

section \<open>Signed formats\<close>

definition run_encoder :: "'e \<Rightarrow> nat \<Rightarrow> (wire_writer, wire_error, unit) op \<Rightarrow> 'e + bytes" where
  "run_encoder e maximum m = map_err (\<lambda>_. e) (run_writer maximum m)"

text \<open>
  The decoder: the length bound, the reader, the constructor's validation, and the comparison of
  the value's encoding with the input.
\<close>

definition decode_signed ::
  "'e \<Rightarrow> nat \<Rightarrow> (wire_reader, 'e, 'a) op \<Rightarrow> ('a \<Rightarrow> 'e + 'b) \<Rightarrow> ('b \<Rightarrow> 'e + bytes) \<Rightarrow> bytes \<Rightarrow> 'e + 'b" where
  "decode_signed e maximum rd check encode bs =
     (if maximum < length bs then Inl e
      else bindE (run_reader rd bs) (\<lambda>raw.
           bindE (check raw) (\<lambda>a.
           bindE (encode a) (\<lambda>out. if out \<noteq> bs then Inl e else Inr a))))"

locale signed_codec =
  fixes rd :: "(wire_reader, 'e, 'a) op"
    and check :: "'a \<Rightarrow> 'e + 'b"
    and put :: "'b \<Rightarrow> (wire_writer, wire_error, unit) op"
    and e :: 'e
    and maximum :: nat
    and good :: "'b \<Rightarrow> bool"
    and raw :: "'b \<Rightarrow> 'a"
    and fits :: "'b \<Rightarrow> bool"
    and R :: "'a \<Rightarrow> bytes \<Rightarrow> bytes \<Rightarrow> bool"
    and layout :: "'b \<Rightarrow> bytes"
  assumes rd_accepts: "accepts rd R"
    and check_good: "R r xs ys \<Longrightarrow> check r = Inr b \<Longrightarrow> good b"
    and good_check: "good b \<Longrightarrow> check (raw b) = Inr b"
    and put_emits: "emits (put b) (fits b) (layout b)"
    and good_read: "good b \<Longrightarrow> R (raw b) (layout b) []"
    and small: "maximum < 2 ^ 63"
begin

lemma decode_iff:
  "decode_signed e maximum rd check (\<lambda>b. run_encoder e maximum (put b)) bs = Inr b \<longleftrightarrow>
   good b \<and> run_encoder e maximum (put b) = Inr bs"
proof -
  have enc: "run_encoder e maximum (put b) = Inr out \<longleftrightarrow> fits b \<and> length (layout b) \<le> maximum \<and> out = layout b" for b out
    using small by (auto simp: run_encoder_def map_err_Inr run_writer_Inr [OF put_emits] usize_limit_def)
  show ?thesis
  proof (cases "length bs \<le> maximum")
    case True
    with small have rdr: "run_reader rd bs = Inr r \<longleftrightarrow> (\<exists>xs ys. bs = xs @ ys \<and> R r xs ys)" for r
      by (intro run_reader_Inr [OF rd_accepts]) (simp add: slice_ok_def)
    show ?thesis
    proof
      assume "decode_signed e maximum rd check (\<lambda>b. run_encoder e maximum (put b)) bs = Inr b"
      with True show "good b \<and> run_encoder e maximum (put b) = Inr bs"
        by (auto simp: decode_signed_def bindE_Inr rdr dest: check_good split: if_splits)
    next
      assume h: "good b \<and> run_encoder e maximum (put b) = Inr bs"
      then have "bs = layout b" by (simp add: enc)
      with h good_read have "run_reader rd bs = Inr (raw b)"
        unfolding rdr by (metis append_Nil2)
      with h True good_check show "decode_signed e maximum rd check (\<lambda>b. run_encoder e maximum (put b)) bs = Inr b"
        by (simp add: decode_signed_def)
    qed
  next
    case False
    then show ?thesis by (auto simp: decode_signed_def enc)
  qed
qed

end

end
