(* ===== verification/Profile.thy ===== *)
theory Profile
  imports Codec Online Ceylith_Opaque
begin

text \<open>
  \<open>crates/qq-profile\<close>: the signed Linux profile with its manifest (\<open>linux.rs\<close>, \<open>manifest.rs\<close>) and the
  three plans it carries in opaque slots: the online plan (\<open>online.rs\<close>), the packet plan
  (\<open>online_packet\<close>) and the Push plan (\<open>push\<close>). Every decoder compares the encoding of what it decoded
  with its input, and is proved to accept exactly the encodings of the valid values.
\<close>

definition is_alphanumeric :: "u8 \<Rightarrow> bool" where
  "is_alphanumeric b \<longleftrightarrow> is_ascii_digit b \<or> is_ascii_lowercase b \<or> (0x41 \<le> unat b \<and> unat b \<le> 0x5A)"

section \<open>The Linux profile\<close>

datatype profile_value_error = ZeroNumber | InvalidText

definition PROFILE_VERSION_LEN :: nat where
  "PROFILE_VERSION_LEN = 32"

definition MAX_PACKAGE_LEN :: nat where
  "MAX_PACKAGE_LEN = 96"

definition MAX_OS_LEN :: nat where
  "MAX_OS_LEN = 32"

definition MAX_LOGIN_SDK_LEN :: nat where
  "MAX_LOGIN_SDK_LEN = 64"

record linux_nt_profile_spec =
  np_profile_id :: bytes
  np_client_version :: rstr
  np_app_id :: u32
  np_sub_app_id :: u32
  np_qr_app_id :: u32
  np_app_client_version :: u16
  np_package_name :: rstr
  np_operating_system :: rstr
  np_pt_version :: rstr
  np_sso_version :: u32
  np_misc_bitmap :: u32
  np_login_sdk :: rstr
  np_main_sig_map :: u32
  np_sub_sig_map :: u32
  np_login_misc_bitmap :: u32
  np_runtime_abi :: u32

record linux_nt_profile =
  lp_spec :: linux_nt_profile_spec
  lp_slots :: opaque_slots

definition version_character :: "u8 \<Rightarrow> bool" where
  "version_character b \<longleftrightarrow> is_ascii_digit b \<or> b = 0x2E \<or> b = 0x2D"

definition package_character :: "u8 \<Rightarrow> bool" where
  "package_character b \<longleftrightarrow> is_alphanumeric b \<or> b = 0x2E \<or> b = 0x5F"

definition validate_text :: "rstr \<Rightarrow> nat \<Rightarrow> (u8 \<Rightarrow> bool) \<Rightarrow> profile_value_error + unit" where
  "validate_text v maximum allowed =
     (if v = [] \<or> maximum < length v \<or> \<not> list_all allowed v then Inl InvalidText else Inr ())"

definition validate_spec :: "linux_nt_profile_spec \<Rightarrow> profile_value_error + unit" where
  "validate_spec s =
     (if 0 \<in> set [np_app_id s, np_sub_app_id s, np_qr_app_id s, ucast (np_app_client_version s), np_sso_version s,
         np_main_sig_map s, np_login_misc_bitmap s, np_runtime_abi s]
      then Inl ZeroNumber
      else bindE (validate_text (np_client_version s) PROFILE_VERSION_LEN version_character) (\<lambda>_.
           bindE (validate_text (np_package_name s) MAX_PACKAGE_LEN package_character) (\<lambda>_.
           bindE (validate_text (np_operating_system s) MAX_OS_LEN package_character) (\<lambda>_.
           bindE (validate_text (np_pt_version s) PROFILE_VERSION_LEN version_character) (\<lambda>_.
           validate_text (np_login_sdk s) MAX_LOGIN_SDK_LEN package_character)))))"

definition linux_nt_profile_new ::
  "linux_nt_profile_spec \<Rightarrow> opaque_slots \<Rightarrow> profile_value_error + linux_nt_profile" where
  "linux_nt_profile_new spec slots = bindE (validate_spec spec) (\<lambda>_. Inr \<lparr>lp_spec = spec, lp_slots = slots\<rparr>)"

section \<open>The manifest\<close>

datatype profile_manifest_error = ProfileManifestError

definition MANIFEST_MAGIC :: bytes where
  "MANIFEST_MAGIC = lit ''LQPF''"

definition MANIFEST_VERSION :: u16 where
  "MANIFEST_VERSION = 3"

definition MAX_PROFILE_MANIFEST_LEN :: nat where
  "MAX_PROFILE_MANIFEST_LEN = 32 * 1024"

definition put_slot :: "opaque_slot \<Rightarrow> (wire_writer, wire_error, unit) op" where
  "put_slot s = bindS (put_u32 (slot_id s)) (\<lambda>_. put_prefixed_bytes U16Payload (slot_value s))"

definition put_manifest :: "linux_nt_profile \<Rightarrow> (wire_writer, wire_error, unit) op" where
  "put_manifest p =
     (let s = lp_spec p in
      bindS (put_bytes MANIFEST_MAGIC) (\<lambda>_.
      bindS (put_u16 MANIFEST_VERSION) (\<lambda>_.
      bindS (put_bytes (np_profile_id s)) (\<lambda>_.
      bindS (put_prefixed_bytes U16Payload (np_client_version s)) (\<lambda>_.
      bindS (put_u32 (np_app_id s)) (\<lambda>_.
      bindS (put_u32 (np_sub_app_id s)) (\<lambda>_.
      bindS (put_u32 (np_qr_app_id s)) (\<lambda>_.
      bindS (put_u16 (np_app_client_version s)) (\<lambda>_.
      bindS (put_prefixed_bytes U16Payload (np_package_name s)) (\<lambda>_.
      bindS (put_prefixed_bytes U16Payload (np_operating_system s)) (\<lambda>_.
      bindS (put_prefixed_bytes U16Payload (np_pt_version s)) (\<lambda>_.
      bindS (put_u32 (np_sso_version s)) (\<lambda>_.
      bindS (put_u32 (np_misc_bitmap s)) (\<lambda>_.
      bindS (put_prefixed_bytes U16Payload (np_login_sdk s)) (\<lambda>_.
      bindS (put_u32 (np_main_sig_map s)) (\<lambda>_.
      bindS (put_u32 (np_sub_sig_map s)) (\<lambda>_.
      bindS (put_u32 (np_login_misc_bitmap s)) (\<lambda>_.
      bindS (put_u32 (np_runtime_abi s)) (\<lambda>_.
      bindS (put_count16 LengthOverflow (length (lp_slots p))) (\<lambda>_.
      put_many put_slot (lp_slots p)))))))))))))))))))))"

definition encode_linux_manifest :: "linux_nt_profile \<Rightarrow> profile_manifest_error + bytes" where
  "encode_linux_manifest p = run_encoder ProfileManifestError MAX_PROFILE_MANIFEST_LEN (put_manifest p)"

abbreviation "pm \<equiv> map_errS (\<lambda>_ :: wire_error. ProfileManifestError)"

definition read_slot :: "(wire_reader, profile_manifest_error, opaque_slot) op" where
  "read_slot =
     bindS (pm read_u32) (\<lambda>v.
     bindS (liftS (map_err (\<lambda>_. ProfileManifestError) (opaque_slot_id_new v))) (\<lambda>i.
     bindS (pm (read_prefixed_bytes U16Payload MAX_OPAQUE_SLOT_LEN)) (\<lambda>value.
     liftS (map_err (\<lambda>_. ProfileManifestError) (opaque_slot_new i value)))))"

abbreviation manifest_text :: "nat \<Rightarrow> (wire_reader, profile_manifest_error, rstr) op" where
  "manifest_text \<equiv> read_str ProfileManifestError U16Payload"

definition read_manifest :: "(wire_reader, profile_manifest_error, linux_nt_profile_spec \<times> opaque_slot list) op" where
  "read_manifest =
     bindS (read_header ProfileManifestError MANIFEST_MAGIC MANIFEST_VERSION) (\<lambda>_.
     bindS (pm (read_bytes 16)) (\<lambda>profile_id.
     bindS (manifest_text PROFILE_VERSION_LEN) (\<lambda>client_version.
     bindS (pm read_u32) (\<lambda>app_id.
     bindS (pm read_u32) (\<lambda>sub_app_id.
     bindS (pm read_u32) (\<lambda>qr_app_id.
     bindS (pm read_u16) (\<lambda>app_client_version.
     bindS (manifest_text MAX_PACKAGE_LEN) (\<lambda>package_name.
     bindS (manifest_text MAX_OS_LEN) (\<lambda>operating_system.
     bindS (manifest_text PROFILE_VERSION_LEN) (\<lambda>pt_version.
     bindS (pm read_u32) (\<lambda>sso_version.
     bindS (pm read_u32) (\<lambda>misc_bitmap.
     bindS (manifest_text MAX_LOGIN_SDK_LEN) (\<lambda>login_sdk.
     bindS (pm read_u32) (\<lambda>main_sig_map.
     bindS (pm read_u32) (\<lambda>sub_sig_map.
     bindS (pm read_u32) (\<lambda>login_misc_bitmap.
     bindS (pm read_u32) (\<lambda>runtime_abi.
     bindS (pm read_u16) (\<lambda>count.
     bindS (read_many (unat count) read_slot) (\<lambda>slots.
     bindS (pm finish_op) (\<lambda>_.
     retS (\<lparr>np_profile_id = profile_id, np_client_version = client_version, np_app_id = app_id,
            np_sub_app_id = sub_app_id, np_qr_app_id = qr_app_id, np_app_client_version = app_client_version,
            np_package_name = package_name, np_operating_system = operating_system, np_pt_version = pt_version,
            np_sso_version = sso_version, np_misc_bitmap = misc_bitmap, np_login_sdk = login_sdk,
            np_main_sig_map = main_sig_map, np_sub_sig_map = sub_sig_map,
            np_login_misc_bitmap = login_misc_bitmap, np_runtime_abi = runtime_abi\<rparr>, slots)))))))))))))))))))))"

definition manifest_checked ::
  "linux_nt_profile_spec \<times> opaque_slot list \<Rightarrow> profile_manifest_error + linux_nt_profile" where
  "manifest_checked r =
     bindE (map_err (\<lambda>_. ProfileManifestError) (opaque_slots_new (snd r))) (\<lambda>slots.
     map_err (\<lambda>_. ProfileManifestError) (linux_nt_profile_new (fst r) slots))"

definition decode_linux_manifest :: "bytes \<Rightarrow> profile_manifest_error + linux_nt_profile" where
  "decode_linux_manifest =
     decode_signed ProfileManifestError MAX_PROFILE_MANIFEST_LEN read_manifest manifest_checked encode_linux_manifest"

definition slot_bytes :: "opaque_slot \<Rightarrow> bytes" where
  "slot_bytes s = to_be 4 (slot_id s) @ prefixed U16Payload (slot_value s)"

lemma opaque_slot_new_Inr: "opaque_slot_new i v = Inr s \<longleftrightarrow> s = \<lparr>slot_id = i, slot_value = v\<rparr> \<and> slot_ok s"
  by (auto simp: opaque_slot_new_def slot_ok_def)

lemma field_form_slot: "field_form read_slot slot_wire_ok slot_bytes"
  unfolding field_form_def read_slot_def
proof (rule back_subst [of "accepts _"],
    (rule accepts_seq_field [OF field_formD, OF field_form_u32] accepts_seq_lift
      accepts_seq_field [OF field_formD, OF field_form_prefixed] accepts_lift)+, intro ext iffI, goal_cases)
  case (1 s xs ys)
  then show ?case
    by (auto simp: map_err_Inr opaque_slot_new_Inr opaque_slot_id_new_def slot_wire_ok_def slot_bytes_def split: if_splits)
next
  case (2 s xs ys)
  then have "slot_id s \<noteq> 0 \<and> slot_ok s \<and> length (slot_value s) \<le> 4096 \<and> xs = to_be 4 (slot_id s) @ prefixed U16Payload (slot_value s)"
    by (simp add: slot_wire_ok_def slot_bytes_def slot_ok_def MAX_OPAQUE_SLOT_LEN_def)
  then show ?case
    apply (elim conjE)
    apply (rule exI [of _ "slot_id s"], rule exI [of _ "prefixed U16Payload (slot_value s)"])
    apply (simp add: map_err_Inr opaque_slot_new_Inr opaque_slot_id_new_def MAX_OPAQUE_SLOT_LEN_def prefix_fits_def declared_len_def)
    done
qed

text \<open>The manifest's bytes.\<close>

definition manifest_layout :: "linux_nt_profile_spec \<Rightarrow> opaque_slot list \<Rightarrow> bytes" where
  "manifest_layout s slots =
     MANIFEST_MAGIC @ to_be 2 MANIFEST_VERSION @ np_profile_id s @ prefixed U16Payload (np_client_version s) @
     to_be 4 (np_app_id s) @ to_be 4 (np_sub_app_id s) @ to_be 4 (np_qr_app_id s) @
     to_be 2 (np_app_client_version s) @ prefixed U16Payload (np_package_name s) @
     prefixed U16Payload (np_operating_system s) @ prefixed U16Payload (np_pt_version s) @
     to_be 4 (np_sso_version s) @ to_be 4 (np_misc_bitmap s) @ prefixed U16Payload (np_login_sdk s) @
     to_be 4 (np_main_sig_map s) @ to_be 4 (np_sub_sig_map s) @ to_be 4 (np_login_misc_bitmap s) @
     to_be 4 (np_runtime_abi s) @ to_be 2 (of_nat (length slots) :: u16) @ many_bytes slot_bytes slots"

definition manifest_fields_ok :: "linux_nt_profile_spec \<Rightarrow> opaque_slot list \<Rightarrow> bool" where
  "manifest_fields_ok s slots \<longleftrightarrow> length (np_profile_id s) = 16 \<and>
     str_ok U16Payload PROFILE_VERSION_LEN (np_client_version s) \<and> str_ok U16Payload MAX_PACKAGE_LEN (np_package_name s) \<and>
     str_ok U16Payload MAX_OS_LEN (np_operating_system s) \<and> str_ok U16Payload PROFILE_VERSION_LEN (np_pt_version s) \<and>
     str_ok U16Payload MAX_LOGIN_SDK_LEN (np_login_sdk s) \<and> length slots < 2 ^ 16 \<and> list_all slot_wire_ok slots"

lemma unat_count16: "n < 2 ^ 16 \<Longrightarrow> unat (of_nat n :: u16) = n"
  by (rule of_nat_inverse [OF refl]) simp

lemma accepts_manifest:
  "accepts read_manifest (\<lambda>(s, slots) xs ys. ys = [] \<and> manifest_fields_ok s slots \<and> xs = manifest_layout s slots)"
  unfolding read_manifest_def
proof (rule back_subst [of "accepts _"],
    (rule accepts_seq_finish accepts_seq_field [OF field_formD, OF field_form_header]
      accepts_seq_field [OF field_formD, OF field_form_bytes] accepts_seq_field [OF field_formD, OF field_form_str]
      accepts_seq_field [OF field_formD, OF field_form_u32] accepts_seq_field [OF field_formD, OF field_form_u16]
      accepts_seq_field [OF field_formD, OF field_form_many, OF field_form_slot] accepts_ret)+, intro ext iffI, goal_cases)
  case (1 r xs ys)
  then show ?case
    by (elim exE conjE) (auto simp: manifest_fields_ok_def manifest_layout_def unsigned_less [where 'b = 16, simplified])
next
  case (2 r xs ys)
  then obtain s slots where r: "r = (s, slots)" and ys: "ys = []" and ok: "manifest_fields_ok s slots"
    and xs: "xs = manifest_layout s slots" by (cases r) auto
  show ?case
    unfolding xs manifest_layout_def append_assoc [symmetric, of MANIFEST_MAGIC]
    by (intro ex_field [where e = "\<lambda>_. MANIFEST_MAGIC @ to_be 2 MANIFEST_VERSION"] ex_field conjI TrueI)
      (use ok ys r in \<open>auto simp: manifest_fields_ok_def unat_count16\<close>)
qed


lemma emits_slot: "emits (put_slot s) (prefix_fits U16Payload (length (slot_value s))) (slot_bytes s)"
  unfolding put_slot_def by (rule emits_conv, (rule emits_intros)+) (simp_all add: slot_bytes_def)

definition manifest_fits :: "linux_nt_profile \<Rightarrow> bool" where
  "manifest_fits p \<longleftrightarrow> (let s = lp_spec p in
     list_all (\<lambda>v. prefix_fits U16Payload (length v))
       [np_client_version s, np_package_name s, np_operating_system s, np_pt_version s, np_login_sdk s] \<and>
     length (lp_slots p) < 2 ^ 16 \<and> list_all (\<lambda>s. prefix_fits U16Payload (length (slot_value s))) (lp_slots p))"

lemma emits_manifest: "emits (put_manifest p) (manifest_fits p) (manifest_layout (lp_spec p) (lp_slots p))"
  unfolding put_manifest_def Let_def
  by (rule emits_conv, (rule emits_then_many [OF emits_slot] emits_bytes emits_u16 emits_u32 emits_prefixed emits_count16
        emits_bind)+) (auto simp: manifest_fits_def manifest_layout_def Let_def)

definition linux_profile_ok :: "linux_nt_profile \<Rightarrow> bool" where
  "linux_profile_ok p \<longleftrightarrow> length (np_profile_id (lp_spec p)) = 16 \<and> validate_spec (lp_spec p) = Inr () \<and>
     slots_wire_ok (lp_slots p)"

lemma version_character_ascii: "version_character b \<Longrightarrow> unat b < 0x80"
  by (auto simp: version_character_def is_ascii_digit_def)

lemma package_character_ascii: "package_character b \<Longrightarrow> unat b < 0x80"
  by (auto simp: package_character_def is_alphanumeric_def is_ascii_digit_def is_ascii_lowercase_def)

lemma validate_text_str_ok:
  assumes "validate_text v n f = Inr u" and "\<And>b. f b \<Longrightarrow> unat b < 0x80" and "n < 1000"
  shows "str_ok U16Payload n v"
  using assms utf8_valid_ascii [of v]
  by (auto simp: validate_text_def str_ok_def list_all_iff prefix_fits_def declared_len_def split: if_splits)

lemma linux_profile_fields_ok:
  assumes "linux_profile_ok p"
  shows "manifest_fields_ok (lp_spec p) (lp_slots p)"
proof -
  from assms have t: "validate_text (np_client_version (lp_spec p)) PROFILE_VERSION_LEN version_character = Inr ()"
    "validate_text (np_package_name (lp_spec p)) MAX_PACKAGE_LEN package_character = Inr ()"
    "validate_text (np_operating_system (lp_spec p)) MAX_OS_LEN package_character = Inr ()"
    "validate_text (np_pt_version (lp_spec p)) PROFILE_VERSION_LEN version_character = Inr ()"
    "validate_text (np_login_sdk (lp_spec p)) MAX_LOGIN_SDK_LEN package_character = Inr ()"
    by (auto simp: linux_profile_ok_def validate_spec_def bindE_Inr split: if_splits)
  have s: "length (lp_slots p) < 2 ^ 16" "list_all slot_wire_ok (lp_slots p)" "length (np_profile_id (lp_spec p)) = 16"
    using assms by (auto simp: linux_profile_ok_def slots_wire_ok_def opaque_slots_ok_def MAX_OPAQUE_SLOTS_def list_all_iff)
  show ?thesis
    unfolding manifest_fields_ok_def
    using s t [THEN validate_text_str_ok] version_character_ascii package_character_ascii
    by (simp add: PROFILE_VERSION_LEN_def MAX_PACKAGE_LEN_def MAX_OS_LEN_def MAX_LOGIN_SDK_LEN_def)
qed

interpretation manifest: signed_codec read_manifest manifest_checked put_manifest ProfileManifestError
  MAX_PROFILE_MANIFEST_LEN linux_profile_ok "\<lambda>p. (lp_spec p, lp_slots p)" manifest_fits
  "\<lambda>(s, slots) xs ys. ys = [] \<and> manifest_fields_ok s slots \<and> xs = manifest_layout s slots"
  "\<lambda>p. manifest_layout (lp_spec p) (lp_slots p)"
proof (unfold_locales, goal_cases)
  case 1
  show ?case by (rule accepts_manifest)
next
  case (2 r xs ys p)
  obtain s slots where r: "r = (s, slots)" by (cases r)
  from 2 have f: "manifest_fields_ok s slots" by (simp add: r)
  from 2(2) obtain sorted where sl: "opaque_slots_new slots = Inr sorted" and p: "p = \<lparr>lp_spec = s, lp_slots = sorted\<rparr>"
    "validate_spec s = Inr ()"
    by (auto simp: r manifest_checked_def bindE_Inr map_err_Inr linux_nt_profile_new_def)
  from opaque_slots_new_ok [OF sl] have "opaque_slots_ok sorted" and "set sorted = set slots"
    by (auto dest: mset_eq_setD)
  with f p show ?case
    by (simp add: linux_profile_ok_def manifest_fields_ok_def slots_wire_ok_def list_all_iff)
next
  case (3 p)
  then show ?case
    by (simp add: linux_profile_ok_def manifest_checked_def slots_wire_ok_def opaque_slots_new_canonical
        linux_nt_profile_new_def)
next
  case (4 p)
  show ?case by (rule emits_manifest)
next
  case (5 p)
  then show ?case using linux_profile_fields_ok by simp
next
  case 6
  show ?case by (simp add: MAX_PROFILE_MANIFEST_LEN_def)
qed

text \<open>
  C39: A signed profile manifest has exactly one spelling: decoding accepts a byte string and returns
  a profile precisely when that profile is well-formed (identifier width, non-zero numbers, texts
  within their alphabets and bounds, canonical slots) and the bytes are what the encoder emits for it.
\<close>

theorem linux_manifest_canonical:
  "decode_linux_manifest bs = Inr p \<longleftrightarrow> linux_profile_ok p \<and> encode_linux_manifest p = Inr bs"
  using manifest.decode_iff [of bs p]
  by (simp add: decode_linux_manifest_def encode_linux_manifest_def [abs_def])

section \<open>The online plan\<close>

datatype online_plan_manifest_error = OnlinePlanManifestError

definition PLAN_MAGIC :: bytes where
  "PLAN_MAGIC = lit ''LQOP''"

definition PLAN_VERSION :: u16 where
  "PLAN_VERSION = 1"

definition MAX_PLAN_LEN :: nat where
  "MAX_PLAN_LEN = 256"

definition ONLINE_PLAN_SLOT_ID :: u32 where
  "ONLINE_PLAN_SLOT_ID = 2"

definition put_online_plan :: "online_plan \<Rightarrow> (wire_writer, wire_error, unit) op" where
  "put_online_plan p =
     bindS (put_bytes PLAN_MAGIC) (\<lambda>_.
     bindS (put_u16 PLAN_VERSION) (\<lambda>_.
     bindS (put_bytes (initial_sync p)) (\<lambda>_.
     bindS (put_bytes (delayed_sync p)) (\<lambda>_.
     bindS (put_bytes (security_bootstrap p)) (\<lambda>_.
     bindS (put_option put_bytes (status_confirmation p)) (\<lambda>_.
     bindS (put_bytes (business_heartbeat p)) (\<lambda>_.
     bindS (put_u64 (initial_heartbeat_ms p)) (\<lambda>_.
     bindS (put_u64 (minimum_heartbeat_ms p)) (\<lambda>_.
     bindS (put_u64 (maximum_heartbeat_ms p)) (\<lambda>_.
     bindS (put_u64 (minimum_delayed_sync_ms p)) (\<lambda>_.
     put_u64 (maximum_delayed_sync_ms p))))))))))))"

definition encode_online_plan :: "online_plan \<Rightarrow> online_plan_manifest_error + bytes" where
  "encode_online_plan p = run_encoder OnlinePlanManifestError MAX_PLAN_LEN (put_online_plan p)"

abbreviation "po \<equiv> map_errS (\<lambda>_ :: wire_error. OnlinePlanManifestError)"

definition read_action :: "(wire_reader, online_plan_manifest_error, plan_action_id) op" where
  "read_action =
     bindS (po (read_bytes 16)) (\<lambda>bs. liftS (map_err (\<lambda>_. OnlinePlanManifestError) (plan_action_id_new bs)))"

text \<open>The plan is constructed before the reader's final check, as in the source.\<close>

definition read_online_plan :: "(wire_reader, online_plan_manifest_error, online_plan) op" where
  "read_online_plan =
     bindS (read_header OnlinePlanManifestError PLAN_MAGIC PLAN_VERSION) (\<lambda>_.
     bindS read_action (\<lambda>initial.
     bindS read_action (\<lambda>delayed.
     bindS read_action (\<lambda>bootstrap.
     bindS (read_option OnlinePlanManifestError read_action) (\<lambda>confirmation.
     bindS read_action (\<lambda>heartbeat.
     bindS (po read_u64) (\<lambda>initial_ms.
     bindS (po read_u64) (\<lambda>minimum_ms.
     bindS (po read_u64) (\<lambda>maximum_ms.
     bindS (po read_u64) (\<lambda>minimum_delayed_ms.
     bindS (po read_u64) (\<lambda>maximum_delayed_ms.
     bindS (liftS (map_err (\<lambda>_. OnlinePlanManifestError) (online_plan_new
       \<lparr>initial_sync = initial, delayed_sync = delayed, security_bootstrap = bootstrap,
        status_confirmation = confirmation, business_heartbeat = heartbeat, initial_heartbeat_ms = initial_ms,
        minimum_heartbeat_ms = minimum_ms, maximum_heartbeat_ms = maximum_ms,
        minimum_delayed_sync_ms = minimum_delayed_ms, maximum_delayed_sync_ms = maximum_delayed_ms\<rparr>))) (\<lambda>plan.
     bindS (po finish_op) (\<lambda>_.
     retS plan)))))))))))))"

definition decode_plan_bytes :: "bytes \<Rightarrow> online_plan_manifest_error + online_plan" where
  "decode_plan_bytes =
     decode_signed OnlinePlanManifestError MAX_PLAN_LEN read_online_plan Inr encode_online_plan"

definition profile_slot :: "'e \<Rightarrow> linux_nt_profile \<Rightarrow> u32 \<Rightarrow> 'e + bytes" where
  "profile_slot e p n =
     bindE (map_err (\<lambda>_. e) (opaque_slot_id_new n)) (\<lambda>i.
     bindE (ok_or e (opaque_slots_get (lp_slots p) i)) (\<lambda>slot. Inr (slot_value slot)))"

definition decode_online_plan :: "linux_nt_profile \<Rightarrow> online_plan_manifest_error + online_plan" where
  "decode_online_plan p = bindE (profile_slot OnlinePlanManifestError p ONLINE_PLAN_SLOT_ID) decode_plan_bytes"

definition action_ok :: "plan_action_id \<Rightarrow> bool" where
  "action_ok a \<longleftrightarrow> length a = 16 \<and> a \<noteq> replicate 16 0"

definition online_plan_ok :: "online_plan \<Rightarrow> bool" where
  "online_plan_ok p \<longleftrightarrow> validate_plan p = Inr () \<and> action_ok (initial_sync p) \<and> action_ok (delayed_sync p) \<and>
     action_ok (security_bootstrap p) \<and> pred_option action_ok (status_confirmation p) \<and>
     action_ok (business_heartbeat p)"

definition online_plan_layout :: "online_plan \<Rightarrow> bytes" where
  "online_plan_layout p =
     (PLAN_MAGIC @ to_be 2 PLAN_VERSION) @ initial_sync p @ delayed_sync p @ security_bootstrap p @
     option_bytes (\<lambda>a. a) (status_confirmation p) @ business_heartbeat p @ to_be 8 (initial_heartbeat_ms p) @
     to_be 8 (minimum_heartbeat_ms p) @ to_be 8 (maximum_heartbeat_ms p) @ to_be 8 (minimum_delayed_sync_ms p) @
     to_be 8 (maximum_delayed_sync_ms p)"

lemma plan_action_id_new_Inr: "plan_action_id_new bs = Inr a \<longleftrightarrow> a = bs \<and> bs \<noteq> replicate 16 0"
  by (auto simp: plan_action_id_new_def)

lemma field_form_action: "field_form read_action action_ok (\<lambda>a. a)"
  unfolding field_form_def read_action_def
  by (rule back_subst [of "accepts _", OF accepts_seq_field [OF field_formD, OF field_form_bytes accepts_lift]])
    (auto simp only: fun_eq_iff action_ok_def plan_action_id_new_Inr map_err_Inr append_Nil2 simp_thms)

lemmas plan_fields = accepts_seq_finish accepts_seq_lift accepts_seq_field [OF field_formD, OF field_form_header]
  accepts_seq_field [OF field_formD, OF field_form_action]
  accepts_seq_field [OF field_formD, OF field_form_option, OF field_form_action]
  accepts_seq_field [OF field_formD, OF field_form_u64] accepts_ret

lemma online_plan_eta:
  "\<lparr>initial_sync = initial_sync p, delayed_sync = delayed_sync p, security_bootstrap = security_bootstrap p,
    status_confirmation = status_confirmation p, business_heartbeat = business_heartbeat p,
    initial_heartbeat_ms = initial_heartbeat_ms p, minimum_heartbeat_ms = minimum_heartbeat_ms p,
    maximum_heartbeat_ms = maximum_heartbeat_ms p, minimum_delayed_sync_ms = minimum_delayed_sync_ms p,
    maximum_delayed_sync_ms = maximum_delayed_sync_ms p\<rparr> = (p :: online_plan)"
  by simp

lemma accepts_online_plan:
  "accepts read_online_plan (\<lambda>p xs ys. ys = [] \<and> online_plan_ok p \<and> xs = online_plan_layout p)"
  unfolding read_online_plan_def
proof (rule back_subst [of "accepts _"], (rule plan_fields)+, intro ext iffI, goal_cases)
  case (1 p xs ys)
  then show ?case
    by (elim exE conjE) (auto simp: online_plan_ok_def online_plan_layout_def online_plan_new_def bindE_Inr map_err_Inr)
next
  case (2 p xs ys)
  then have ys: "ys = []" and ok: "online_plan_ok p" and xs: "xs = online_plan_layout p" by auto
  show ?case
    unfolding xs online_plan_layout_def
    by (intro ex_field [where e = "\<lambda>_. PLAN_MAGIC @ to_be 2 PLAN_VERSION"] ex_field [where e = "\<lambda>a. a"] ex_field conjI TrueI)
      (use ok ys in \<open>auto simp: online_plan_ok_def online_plan_new_def map_err_Inr online_plan_eta\<close>)
qed

lemma emits_online_plan: "emits (put_online_plan p) True (online_plan_layout p)"
  unfolding put_online_plan_def
  by (rule emits_conv, (rule emits_option emits_bytes emits_u16 emits_u64 emits_bind)+)
    (simp_all add: online_plan_layout_def option.pred_True)

interpretation plan_codec: signed_codec read_online_plan Inr put_online_plan OnlinePlanManifestError
  MAX_PLAN_LEN online_plan_ok "\<lambda>p. p" "\<lambda>_. True"
  "\<lambda>p xs ys. ys = [] \<and> online_plan_ok p \<and> xs = online_plan_layout p" online_plan_layout
  by unfold_locales (use accepts_online_plan emits_online_plan in \<open>auto simp: MAX_PLAN_LEN_def\<close>)

lemma decode_plan_bytes_iff:
  "decode_plan_bytes bs = Inr p \<longleftrightarrow> online_plan_ok p \<and> encode_online_plan p = Inr bs"
  using plan_codec.decode_iff [of bs p] by (simp add: decode_plan_bytes_def encode_online_plan_def [abs_def])

end
