(* ===== verification/Profile_Plans.thy ===== *)
theory Profile_Plans
  imports Profile
begin

text \<open>
  \<open>crates/qq-profile\<close>: the packet plan (\<open>online_packet\<close>) and the Push plan (\<open>push\<close>) a signed profile
  carries in its slots 3 and 4, in the same canonical form as the profile itself.
\<close>

section \<open>Routes\<close>

definition MAX_ROUTE_LEN :: nat where
  "MAX_ROUTE_LEN = 128"

definition valid_route :: "rstr \<Rightarrow> bool" where
  "valid_route v \<longleftrightarrow> v \<noteq> [] \<and> length v \<le> MAX_ROUTE_LEN \<and> list_all is_ascii_graphic v"

lemma is_ascii_graphic_ascii: "is_ascii_graphic b \<Longrightarrow> unat b < 0x80"
  by (simp add: is_ascii_graphic_def)

lemma valid_route_str_ok: "valid_route v \<Longrightarrow> str_ok U8Payload MAX_ROUTE_LEN v"
  using utf8_valid_ascii [of v] is_ascii_graphic_ascii
  by (auto simp: valid_route_def str_ok_def list_all_iff MAX_ROUTE_LEN_def prefix_fits_def declared_len_def)

section \<open>The packet plan\<close>

datatype online_packet_plan_error = OnlinePacketPlanError

record online_packet_tuning =
  ot_sync_flag :: u32
  ot_locale_id :: i32
  ot_initial_vendor_type :: i32
  ot_initial_register_type :: i32
  ot_status_vendor_type :: i32
  ot_status_register_type :: i32
  ot_auxiliary_flag :: u32
  ot_heartbeat_type :: i32

record online_packet_plan =
  op_initial_sync_route :: rstr
  op_delayed_sync_route :: rstr
  op_status_register_route :: "rstr option"
  op_heartbeat_route :: rstr
  op_tuning :: online_packet_tuning

definition online_packet_tuning_new :: "online_packet_tuning \<Rightarrow> online_packet_plan_error + online_packet_tuning" where
  "online_packet_tuning_new s =
     (if ot_sync_flag s = 0 \<or> sint (ot_locale_id s) \<le> 0 \<or> sint (ot_initial_vendor_type s) < 0 \<or>
         sint (ot_initial_register_type s) < 0 \<or> sint (ot_status_vendor_type s) < 0 \<or>
         sint (ot_status_register_type s) < 0 \<or> ot_auxiliary_flag s = 0 \<or> sint (ot_heartbeat_type s) \<le> 0
      then Inl OnlinePacketPlanError else Inr s)"

definition online_packet_plan_new :: "online_packet_plan \<Rightarrow> online_packet_plan_error + online_packet_plan" where
  "online_packet_plan_new s =
     (if \<not> valid_route (op_initial_sync_route s) \<or> \<not> valid_route (op_delayed_sync_route s) \<or>
         (case op_status_register_route s of None \<Rightarrow> False | Some r \<Rightarrow> \<not> valid_route r) \<or>
         \<not> valid_route (op_heartbeat_route s)
      then Inl OnlinePacketPlanError else Inr s)"

definition PACKET_MAGIC :: bytes where
  "PACKET_MAGIC = lit ''LQPW''"

definition PACKET_VERSION :: u16 where
  "PACKET_VERSION = 1"

definition MAX_PACKET_PLAN_LEN :: nat where
  "MAX_PACKET_PLAN_LEN = 512"

definition ONLINE_PACKET_PLAN_SLOT_ID :: u32 where
  "ONLINE_PACKET_PLAN_SLOT_ID = 3"

definition put_tuning :: "online_packet_tuning \<Rightarrow> (wire_writer, wire_error, unit) op" where
  "put_tuning t =
     bindS (put_u32 (ot_sync_flag t)) (\<lambda>_.
     bindS (put_bytes (to_be 4 (ot_locale_id t))) (\<lambda>_.
     bindS (put_bytes (to_be 4 (ot_initial_vendor_type t))) (\<lambda>_.
     bindS (put_bytes (to_be 4 (ot_initial_register_type t))) (\<lambda>_.
     bindS (put_bytes (to_be 4 (ot_status_vendor_type t))) (\<lambda>_.
     bindS (put_bytes (to_be 4 (ot_status_register_type t))) (\<lambda>_.
     bindS (put_u32 (ot_auxiliary_flag t)) (\<lambda>_.
     put_bytes (to_be 4 (ot_heartbeat_type t)))))))))"

abbreviation put_route :: "rstr \<Rightarrow> (wire_writer, wire_error, unit) op" where
  "put_route \<equiv> put_prefixed_bytes U8Payload"

definition put_packet_plan :: "online_packet_plan \<Rightarrow> (wire_writer, wire_error, unit) op" where
  "put_packet_plan p =
     bindS (put_bytes PACKET_MAGIC) (\<lambda>_.
     bindS (put_u16 PACKET_VERSION) (\<lambda>_.
     bindS (put_route (op_initial_sync_route p)) (\<lambda>_.
     bindS (put_route (op_delayed_sync_route p)) (\<lambda>_.
     bindS (put_option put_route (op_status_register_route p)) (\<lambda>_.
     bindS (put_route (op_heartbeat_route p)) (\<lambda>_.
     put_tuning (op_tuning p)))))))"

definition encode_online_packet_plan :: "online_packet_plan \<Rightarrow> online_packet_plan_error + bytes" where
  "encode_online_packet_plan p = run_encoder OnlinePacketPlanError MAX_PACKET_PLAN_LEN (put_packet_plan p)"

abbreviation "pk \<equiv> map_errS (\<lambda>_ :: wire_error. OnlinePacketPlanError)"

definition read_tuning :: "(wire_reader, online_packet_plan_error, online_packet_tuning) op" where
  "read_tuning =
     bindS (pk read_u32) (\<lambda>sync_flag.
     bindS (pk read_i32) (\<lambda>locale_id.
     bindS (pk read_i32) (\<lambda>initial_vendor.
     bindS (pk read_i32) (\<lambda>initial_register.
     bindS (pk read_i32) (\<lambda>status_vendor.
     bindS (pk read_i32) (\<lambda>status_register.
     bindS (pk read_u32) (\<lambda>auxiliary_flag.
     bindS (pk read_i32) (\<lambda>heartbeat.
     liftS (online_packet_tuning_new
       \<lparr>ot_sync_flag = sync_flag, ot_locale_id = locale_id, ot_initial_vendor_type = initial_vendor,
        ot_initial_register_type = initial_register, ot_status_vendor_type = status_vendor,
        ot_status_register_type = status_register, ot_auxiliary_flag = auxiliary_flag,
        ot_heartbeat_type = heartbeat\<rparr>)))))))))"

abbreviation packet_route :: "(wire_reader, online_packet_plan_error, rstr) op" where
  "packet_route \<equiv> read_str OnlinePacketPlanError U8Payload MAX_ROUTE_LEN"

definition read_packet_plan :: "(wire_reader, online_packet_plan_error, online_packet_plan) op" where
  "read_packet_plan =
     bindS (read_header OnlinePacketPlanError PACKET_MAGIC PACKET_VERSION) (\<lambda>_.
     bindS packet_route (\<lambda>initial.
     bindS packet_route (\<lambda>delayed.
     bindS (read_option OnlinePacketPlanError packet_route) (\<lambda>status.
     bindS packet_route (\<lambda>heartbeat.
     bindS read_tuning (\<lambda>tuning.
     bindS (pk finish_op) (\<lambda>_.
     retS \<lparr>op_initial_sync_route = initial, op_delayed_sync_route = delayed, op_status_register_route = status,
           op_heartbeat_route = heartbeat, op_tuning = tuning\<rparr>)))))))"

definition decode_packet_plan_bytes :: "bytes \<Rightarrow> online_packet_plan_error + online_packet_plan" where
  "decode_packet_plan_bytes =
     decode_signed OnlinePacketPlanError MAX_PACKET_PLAN_LEN read_packet_plan online_packet_plan_new
       encode_online_packet_plan"

definition decode_online_packet_plan :: "linux_nt_profile \<Rightarrow> online_packet_plan_error + online_packet_plan" where
  "decode_online_packet_plan p =
     bindE (profile_slot OnlinePacketPlanError p ONLINE_PACKET_PLAN_SLOT_ID) decode_packet_plan_bytes"

subsection \<open>Its format\<close>

definition tuning_ok :: "online_packet_tuning \<Rightarrow> bool" where
  "tuning_ok t \<longleftrightarrow> online_packet_tuning_new t = Inr t"

definition tuning_layout :: "online_packet_tuning \<Rightarrow> bytes" where
  "tuning_layout t =
     to_be 4 (ot_sync_flag t) @ to_be 4 (ot_locale_id t) @ to_be 4 (ot_initial_vendor_type t) @
     to_be 4 (ot_initial_register_type t) @ to_be 4 (ot_status_vendor_type t) @
     to_be 4 (ot_status_register_type t) @ to_be 4 (ot_auxiliary_flag t) @ to_be 4 (ot_heartbeat_type t)"

lemma online_packet_tuning_new_Inr: "online_packet_tuning_new s = Inr t \<longleftrightarrow> t = s \<and> tuning_ok s"
  by (auto simp: tuning_ok_def online_packet_tuning_new_def)

lemma tuning_eta:
  "\<lparr>ot_sync_flag = ot_sync_flag t, ot_locale_id = ot_locale_id t, ot_initial_vendor_type = ot_initial_vendor_type t,
    ot_initial_register_type = ot_initial_register_type t, ot_status_vendor_type = ot_status_vendor_type t,
    ot_status_register_type = ot_status_register_type t, ot_auxiliary_flag = ot_auxiliary_flag t,
    ot_heartbeat_type = ot_heartbeat_type t\<rparr> = (t :: online_packet_tuning)"
  by simp

lemma field_form_tuning: "field_form read_tuning tuning_ok tuning_layout"
  unfolding field_form_def read_tuning_def
proof (rule back_subst [of "accepts _"],
    (rule accepts_seq_field [OF field_formD, OF field_form_u32] accepts_seq_field [OF field_formD, OF field_form_i32]
      accepts_lift)+, intro ext iffI, goal_cases)
  case (1 t xs ys)
  then show ?case
    by (elim exE conjE) (simp add: online_packet_tuning_new_Inr tuning_layout_def)
next
  case (2 t xs ys)
  then have ok: "tuning_ok t" and xs: "xs = tuning_layout t @ []" by auto
  show ?case
    unfolding xs tuning_layout_def append_assoc
    by (intro ex_field conjI TrueI) (use ok in \<open>simp_all add: online_packet_tuning_new_Inr tuning_eta\<close>)
qed

definition packet_plan_ok :: "online_packet_plan \<Rightarrow> bool" where
  "packet_plan_ok p \<longleftrightarrow> online_packet_plan_new p = Inr p \<and> tuning_ok (op_tuning p)"

definition packet_plan_layout :: "online_packet_plan \<Rightarrow> bytes" where
  "packet_plan_layout p =
     (PACKET_MAGIC @ to_be 2 PACKET_VERSION) @ prefixed U8Payload (op_initial_sync_route p) @
     prefixed U8Payload (op_delayed_sync_route p) @
     option_bytes (prefixed U8Payload) (op_status_register_route p) @ prefixed U8Payload (op_heartbeat_route p) @
     tuning_layout (op_tuning p)"

definition packet_routes_ok :: "(rstr \<Rightarrow> bool) \<Rightarrow> online_packet_plan \<Rightarrow> bool" where
  "packet_routes_ok P p \<longleftrightarrow> P (op_initial_sync_route p) \<and> P (op_delayed_sync_route p) \<and>
     pred_option P (op_status_register_route p) \<and> P (op_heartbeat_route p)"

lemma online_packet_plan_new_Inr: "online_packet_plan_new s = Inr p \<longleftrightarrow> p = s \<and> packet_routes_ok valid_route s"
  by (auto simp: online_packet_plan_new_def packet_routes_ok_def split: option.splits)

lemma packet_routes_mono: "(\<And>v. P v \<Longrightarrow> Q v) \<Longrightarrow> packet_routes_ok P p \<Longrightarrow> packet_routes_ok Q p"
  by (auto simp: packet_routes_ok_def option.pred_set)

lemma packet_plan_eta:
  "\<lparr>op_initial_sync_route = op_initial_sync_route p, op_delayed_sync_route = op_delayed_sync_route p,
    op_status_register_route = op_status_register_route p, op_heartbeat_route = op_heartbeat_route p,
    op_tuning = op_tuning p\<rparr> = (p :: online_packet_plan)"
  by simp

lemma accepts_packet_plan:
  "accepts read_packet_plan (\<lambda>p xs ys. ys = [] \<and>
     (packet_routes_ok (str_ok U8Payload MAX_ROUTE_LEN) p \<and> tuning_ok (op_tuning p)) \<and> xs = packet_plan_layout p)"
  unfolding read_packet_plan_def
proof (rule back_subst [of "accepts _"],
    (rule accepts_seq_finish accepts_seq_field [OF field_formD, OF field_form_header]
      accepts_seq_field [OF field_formD, OF field_form_str] accepts_seq_field [OF field_formD, OF field_form_tuning]
      accepts_seq_field [OF field_formD, OF field_form_option, OF field_form_str] accepts_ret)+,
    intro ext iffI, goal_cases)
  case (1 p xs ys)
  then show ?case
    by (elim exE conjE) (simp add: packet_routes_ok_def packet_plan_layout_def)
next
  case (2 p xs ys)
  then have ys: "ys = []" and xs: "xs = packet_plan_layout p"
    and ok: "packet_routes_ok (str_ok U8Payload MAX_ROUTE_LEN) p" "tuning_ok (op_tuning p)" by auto
  show ?case
    unfolding xs packet_plan_layout_def
    by (intro ex_field [where e = "\<lambda>_. PACKET_MAGIC @ to_be 2 PACKET_VERSION"] ex_field conjI TrueI)
      (use ok ys in \<open>auto simp: packet_routes_ok_def packet_plan_eta\<close>)
qed

lemma emits_tuning: "emits (put_tuning t) True (tuning_layout t)"
  unfolding put_tuning_def
  by (rule emits_conv, (rule emits_bytes emits_u32 emits_bind)+) (simp_all add: tuning_layout_def)

lemma emits_packet_plan:
  "emits (put_packet_plan p) (packet_routes_ok (\<lambda>v. prefix_fits U8Payload (length v)) p) (packet_plan_layout p)"
  unfolding put_packet_plan_def
  by (rule emits_conv, (rule emits_option emits_tuning emits_bytes emits_u16 emits_prefixed emits_bind)+)
    (simp_all add: packet_plan_layout_def packet_routes_ok_def)

interpretation packet_codec: signed_codec read_packet_plan online_packet_plan_new put_packet_plan OnlinePacketPlanError
  MAX_PACKET_PLAN_LEN packet_plan_ok "\<lambda>p. p" "packet_routes_ok (\<lambda>v. prefix_fits U8Payload (length v))"
  "\<lambda>p xs ys. ys = [] \<and> (packet_routes_ok (str_ok U8Payload MAX_ROUTE_LEN) p \<and> tuning_ok (op_tuning p)) \<and>
     xs = packet_plan_layout p" packet_plan_layout
proof (unfold_locales, goal_cases)
  case 1
  show ?case by (rule accepts_packet_plan)
next
  case (5 p)
  then have v: "packet_routes_ok valid_route p" and t: "tuning_ok (op_tuning p)"
    by (simp_all add: packet_plan_ok_def online_packet_plan_new_Inr)
  have "packet_routes_ok (str_ok U8Payload MAX_ROUTE_LEN) p"
    by (rule packet_routes_mono [where P = valid_route, OF valid_route_str_ok v])
  with t show ?case by simp
next
  case (2 r xs ys p)
  then show ?case by (simp add: packet_plan_ok_def online_packet_plan_new_Inr)
next
  case (3 p)
  then show ?case by (simp add: packet_plan_ok_def)
next
  case (4 p)
  show ?case by (rule emits_packet_plan)
next
  case 6
  show ?case by (simp add: MAX_PACKET_PLAN_LEN_def)
qed

lemma decode_packet_plan_bytes_iff:
  "decode_packet_plan_bytes bs = Inr p \<longleftrightarrow> packet_plan_ok p \<and> encode_online_packet_plan p = Inr bs"
  using packet_codec.decode_iff [of bs p]
  by (simp add: decode_packet_plan_bytes_def encode_online_packet_plan_def [abs_def])

section \<open>The Push plan\<close>

datatype push_plan_error = PushPlanError

definition MAX_PUSH_ENTRIES :: nat where
  "MAX_PUSH_ENTRIES = 32"

definition MAX_PUSH_BODY_LEN :: u32 where
  "MAX_PUSH_BODY_LEN = 4 * 1024 * 1024"

datatype push_behavior =
    EchoBody | ProtobufPairAck | ConfigAck | ObservePush | ProtectivePush | MessagePush | LegacyVideoAck | InfoSyncState

fun push_behavior_code :: "push_behavior \<Rightarrow> u8" where
  "push_behavior_code EchoBody = 1"
| "push_behavior_code ProtobufPairAck = 2"
| "push_behavior_code ConfigAck = 3"
| "push_behavior_code ObservePush = 4"
| "push_behavior_code ProtectivePush = 5"
| "push_behavior_code MessagePush = 6"
| "push_behavior_code LegacyVideoAck = 7"
| "push_behavior_code InfoSyncState = 8"

definition push_behavior_from_wire :: "u8 \<Rightarrow> push_plan_error + push_behavior" where
  "push_behavior_from_wire v =
     (if v = 1 then Inr EchoBody else if v = 2 then Inr ProtobufPairAck else if v = 3 then Inr ConfigAck
      else if v = 4 then Inr ObservePush else if v = 5 then Inr ProtectivePush else if v = 6 then Inr MessagePush
      else if v = 7 then Inr LegacyVideoAck else if v = 8 then Inr InfoSyncState else Inl PushPlanError)"

definition needs_response_route :: "push_behavior \<Rightarrow> bool" where
  "needs_response_route b \<longleftrightarrow> b = EchoBody \<or> b = ProtobufPairAck \<or> b = ConfigAck \<or> b = LegacyVideoAck"

record push_plan_entry =
  pe_route :: rstr
  pe_behavior :: push_behavior
  pe_response_route :: "rstr option"
  pe_parameter :: u32
  pe_maximum_body_len :: u32

definition push_plan_entry_new ::
  "rstr \<Rightarrow> push_behavior \<Rightarrow> rstr option \<Rightarrow> u32 \<Rightarrow> u32 \<Rightarrow> push_plan_error + push_plan_entry" where
  "push_plan_entry_new route behavior response_route parameter maximum_body_len =
     (if \<not> valid_route route \<or> (case response_route of None \<Rightarrow> False | Some v \<Rightarrow> \<not> valid_route v) \<or>
         needs_response_route behavior \<noteq> (response_route \<noteq> None) \<or>
         (behavior = ProtobufPairAck) \<noteq> (parameter \<noteq> 0) \<or>
         maximum_body_len = 0 \<or> MAX_PUSH_BODY_LEN < maximum_body_len
      then Inl PushPlanError
      else Inr \<lparr>pe_route = route, pe_behavior = behavior, pe_response_route = response_route,
                pe_parameter = parameter, pe_maximum_body_len = maximum_body_len\<rparr>)"

text \<open>The loop over the entries, with the routes already inserted.\<close>

fun repeated_route :: "rstr set \<Rightarrow> push_plan_entry list \<Rightarrow> bool" where
  "repeated_route routes [] = False"
| "repeated_route routes (x # xs) = (pe_route x \<in> routes \<or> repeated_route (insert (pe_route x) routes) xs)"

type_synonym push_plan = "push_plan_entry list"

definition push_plan_new :: "push_plan_entry list \<Rightarrow> push_plan_error + push_plan" where
  "push_plan_new entries =
     (if entries = [] \<or> MAX_PUSH_ENTRIES < length entries \<or> repeated_route {} entries then Inl PushPlanError
      else Inr entries)"

definition push_plan_find :: "push_plan \<Rightarrow> rstr \<Rightarrow> push_plan_entry option" where
  "push_plan_find plan route = List.find (\<lambda>x. pe_route x = route) plan"

definition PUSH_MAGIC :: bytes where
  "PUSH_MAGIC = lit ''LQPS''"

definition PUSH_VERSION :: u16 where
  "PUSH_VERSION = 1"

definition MAX_PUSH_PLAN_LEN :: nat where
  "MAX_PUSH_PLAN_LEN = 4 * 1024"

definition PUSH_PLAN_SLOT_ID :: u32 where
  "PUSH_PLAN_SLOT_ID = 4"

definition put_entry :: "push_plan_entry \<Rightarrow> (wire_writer, wire_error, unit) op" where
  "put_entry x =
     bindS (put_route (pe_route x)) (\<lambda>_.
     bindS (put_u8 (push_behavior_code (pe_behavior x))) (\<lambda>_.
     bindS (put_option put_route (pe_response_route x)) (\<lambda>_.
     bindS (put_u32 (pe_parameter x)) (\<lambda>_.
     put_u32 (pe_maximum_body_len x)))))"

definition put_push_plan :: "push_plan \<Rightarrow> (wire_writer, wire_error, unit) op" where
  "put_push_plan plan =
     bindS (put_bytes PUSH_MAGIC) (\<lambda>_.
     bindS (put_u16 PUSH_VERSION) (\<lambda>_.
     bindS (put_count8 LengthOverflow (length plan)) (\<lambda>_.
     put_many put_entry plan)))"

definition encode_push_plan :: "push_plan \<Rightarrow> push_plan_error + bytes" where
  "encode_push_plan plan = run_encoder PushPlanError MAX_PUSH_PLAN_LEN (put_push_plan plan)"

abbreviation "pp \<equiv> map_errS (\<lambda>_ :: wire_error. PushPlanError)"

abbreviation push_route :: "(wire_reader, push_plan_error, rstr) op" where
  "push_route \<equiv> read_str PushPlanError U8Payload MAX_ROUTE_LEN"

definition read_entry :: "(wire_reader, push_plan_error, push_plan_entry) op" where
  "read_entry =
     bindS push_route (\<lambda>route.
     bindS (bindS (pp read_u8) (\<lambda>v. liftS (push_behavior_from_wire v))) (\<lambda>behavior.
     bindS (read_option PushPlanError push_route) (\<lambda>response_route.
     bindS (pp read_u32) (\<lambda>parameter.
     bindS (pp read_u32) (\<lambda>maximum_body_len.
     liftS (push_plan_entry_new route behavior response_route parameter maximum_body_len))))))"

definition read_push_plan :: "(wire_reader, push_plan_error, push_plan_entry list) op" where
  "read_push_plan =
     bindS (read_header PushPlanError PUSH_MAGIC PUSH_VERSION) (\<lambda>_.
     bindS (pp read_u8) (\<lambda>n.
     bindS (read_many (unat n) read_entry) (\<lambda>entries.
     bindS (pp finish_op) (\<lambda>_.
     retS entries))))"

definition decode_push_plan_bytes :: "bytes \<Rightarrow> push_plan_error + push_plan" where
  "decode_push_plan_bytes = decode_signed PushPlanError MAX_PUSH_PLAN_LEN read_push_plan push_plan_new encode_push_plan"

definition decode_push_plan :: "linux_nt_profile \<Rightarrow> push_plan_error + push_plan" where
  "decode_push_plan p = bindE (profile_slot PushPlanError p PUSH_PLAN_SLOT_ID) decode_push_plan_bytes"

subsection \<open>Its format\<close>

definition entry_ok :: "push_plan_entry \<Rightarrow> bool" where
  "entry_ok x \<longleftrightarrow> push_plan_entry_new (pe_route x) (pe_behavior x) (pe_response_route x) (pe_parameter x)
     (pe_maximum_body_len x) = Inr x"

definition push_plan_ok :: "push_plan \<Rightarrow> bool" where
  "push_plan_ok plan \<longleftrightarrow> plan \<noteq> [] \<and> length plan \<le> MAX_PUSH_ENTRIES \<and> distinct (map pe_route plan) \<and> list_all entry_ok plan"

definition entry_layout :: "push_plan_entry \<Rightarrow> bytes" where
  "entry_layout x =
     prefixed U8Payload (pe_route x) @ [push_behavior_code (pe_behavior x)] @
     option_bytes (prefixed U8Payload) (pe_response_route x) @ to_be 4 (pe_parameter x) @
     to_be 4 (pe_maximum_body_len x)"

definition push_plan_layout :: "push_plan \<Rightarrow> bytes" where
  "push_plan_layout plan =
     (PUSH_MAGIC @ to_be 2 PUSH_VERSION) @ [of_nat (length plan)] @ many_bytes entry_layout plan"

lemma push_behavior_from_wire_Inr: "push_behavior_from_wire v = Inr b \<longleftrightarrow> v = push_behavior_code b"
  by (cases b) (auto simp: push_behavior_from_wire_def)

lemma field_form_behavior:
  "field_form (bindS (pp read_u8) (\<lambda>v. liftS (push_behavior_from_wire v))) (\<lambda>_. True) (\<lambda>b. [push_behavior_code b])"
  unfolding field_form_def
  by (rule back_subst [of "accepts _", OF accepts_seq_field [OF field_formD, OF field_form_u8 accepts_lift]])
    (auto simp only: fun_eq_iff push_behavior_from_wire_Inr append_Nil2 simp_thms)

lemma push_plan_entry_new_Inr:
  "push_plan_entry_new r b resp n m = Inr x \<longleftrightarrow>
   entry_ok x \<and> x = \<lparr>pe_route = r, pe_behavior = b, pe_response_route = resp, pe_parameter = n, pe_maximum_body_len = m\<rparr>"
  by (auto simp: entry_ok_def push_plan_entry_new_def split: if_splits)

lemma entry_ok_routes:
  "entry_ok x \<Longrightarrow> str_ok U8Payload MAX_ROUTE_LEN (pe_route x) \<and>
     pred_option (str_ok U8Payload MAX_ROUTE_LEN) (pe_response_route x)"
  by (auto simp: entry_ok_def push_plan_entry_new_def valid_route_str_ok split: if_splits option.splits)

lemma entry_eta:
  "\<lparr>pe_route = pe_route x, pe_behavior = pe_behavior x, pe_response_route = pe_response_route x,
    pe_parameter = pe_parameter x, pe_maximum_body_len = pe_maximum_body_len x\<rparr> = (x :: push_plan_entry)"
  by simp

lemma field_form_entry: "field_form read_entry entry_ok entry_layout"
  unfolding field_form_def read_entry_def
proof (rule back_subst [of "accepts _"],
    (rule accepts_seq_field [OF field_formD, OF field_form_behavior] accepts_seq_field [OF field_formD, OF field_form_str]
      accepts_seq_field [OF field_formD, OF field_form_option, OF field_form_str]
      accepts_seq_field [OF field_formD, OF field_form_u32] accepts_lift)+, intro ext iffI, goal_cases)
  case (1 x xs ys)
  then show ?case
    by (elim exE conjE) (auto simp: push_plan_entry_new_Inr entry_layout_def)
next
  case (2 x xs ys)
  then have ok: "entry_ok x" and xs: "xs = entry_layout x @ []" by auto
  show ?case
    unfolding xs entry_layout_def append_assoc
    by (intro ex_field [where e = "\<lambda>b. [push_behavior_code b]"] ex_field conjI TrueI)
      (use ok entry_ok_routes [OF ok] in \<open>simp_all add: push_plan_entry_new_Inr entry_eta\<close>)
qed

lemma repeated_route_iff: "repeated_route rs xs \<longleftrightarrow> \<not> distinct (map pe_route xs) \<or> set (map pe_route xs) \<inter> rs \<noteq> {}"
  by (induction rs xs rule: repeated_route.induct) auto

lemma unat_count8: "n < 2 ^ 8 \<Longrightarrow> unat (of_nat n :: u8) = n"
  by (rule of_nat_inverse [OF refl]) simp

lemma accepts_push_plan:
  "accepts read_push_plan (\<lambda>p xs ys. ys = [] \<and> (length p < 2 ^ 8 \<and> list_all entry_ok p) \<and> xs = push_plan_layout p)"
  unfolding read_push_plan_def
proof (rule back_subst [of "accepts _"],
    (rule accepts_seq_finish accepts_seq_field [OF field_formD, OF field_form_header]
      accepts_seq_field [OF field_formD, OF field_form_u8]
      accepts_seq_field [OF field_formD, OF field_form_many, OF field_form_entry] accepts_ret)+,
    intro ext iffI, goal_cases)
  case (1 p xs ys)
  then show ?case
    by (elim exE conjE) (auto simp: push_plan_layout_def unsigned_less [where 'b = 8, simplified])
next
  case (2 p xs ys)
  then have ys: "ys = []" and xs: "xs = push_plan_layout p @ []" and ok: "length p < 2 ^ 8" "list_all entry_ok p" by auto
  show ?case
    unfolding xs push_plan_layout_def append_assoc [of _ "many_bytes entry_layout p"] append_assoc [of "PUSH_MAGIC @ to_be 2 PUSH_VERSION"]
    by (intro ex_field [where e = "\<lambda>_. PUSH_MAGIC @ to_be 2 PUSH_VERSION"] ex_field [where e = "\<lambda>b. [b]"] ex_field conjI TrueI)
      (use ok ys in \<open>simp_all add: unat_count8\<close>)
qed

lemma emits_entry:
  "emits (put_entry x) (prefix_fits U8Payload (length (pe_route x)) \<and>
     pred_option (\<lambda>v. prefix_fits U8Payload (length v)) (pe_response_route x)) (entry_layout x)"
  unfolding put_entry_def
  by (rule emits_conv, (rule emits_option emits_u8 emits_u32 emits_prefixed emits_bind)+)
    (simp_all add: entry_layout_def)

definition push_plan_fits :: "push_plan \<Rightarrow> bool" where
  "push_plan_fits plan \<longleftrightarrow> length plan < 2 ^ 8 \<and> list_all (\<lambda>x. prefix_fits U8Payload (length (pe_route x)) \<and>
     pred_option (\<lambda>v. prefix_fits U8Payload (length v)) (pe_response_route x)) plan"

lemma emits_push_plan: "emits (put_push_plan plan) (push_plan_fits plan) (push_plan_layout plan)"
  unfolding put_push_plan_def
  by (rule emits_conv, (rule emits_then_many [OF emits_entry] emits_bytes emits_u16 emits_count8 emits_bind)+)
    (simp_all add: push_plan_fits_def push_plan_layout_def)

interpretation push_codec: signed_codec read_push_plan push_plan_new put_push_plan PushPlanError MAX_PUSH_PLAN_LEN
  push_plan_ok "\<lambda>p. p" push_plan_fits
  "\<lambda>p xs ys. ys = [] \<and> (length p < 2 ^ 8 \<and> list_all entry_ok p) \<and> xs = push_plan_layout p" push_plan_layout
proof (unfold_locales, goal_cases)
  case 1
  show ?case by (rule accepts_push_plan)
next
  case (2 r xs ys p)
  then show ?case by (auto simp: push_plan_ok_def push_plan_new_def repeated_route_iff split: if_splits)
next
  case (3 p)
  then show ?case by (simp add: push_plan_ok_def push_plan_new_def repeated_route_iff)
next
  case (4 p)
  show ?case by (rule emits_push_plan)
next
  case (5 p)
  then show ?case by (simp add: push_plan_ok_def MAX_PUSH_ENTRIES_def)
next
  case 6
  show ?case by (simp add: MAX_PUSH_PLAN_LEN_def)
qed

lemma decode_push_plan_bytes_iff:
  "decode_push_plan_bytes bs = Inr p \<longleftrightarrow> push_plan_ok p \<and> encode_push_plan p = Inr bs"
  using push_codec.decode_iff [of bs p] by (simp add: decode_push_plan_bytes_def encode_push_plan_def [abs_def])

section \<open>Plans of a profile\<close>

text \<open>
  C40: the three plans of a signed profile are canonical too: a plan is decoded from a profile exactly
  when the plan's slot (2, 3 and 4) holds the encoding of that plan and the plan is valid. Two plans
  decoded from one profile cannot differ, and no slot has a second reading.
\<close>

theorem profile_plans_canonical:
  "(decode_online_plan p = Inr plan \<longleftrightarrow> (\<exists>slot. opaque_slots_get (lp_slots p) 2 = Some slot \<and> online_plan_ok plan \<and>
      encode_online_plan plan = Inr (slot_value slot))) \<and>
   (decode_online_packet_plan p = Inr packets \<longleftrightarrow> (\<exists>slot. opaque_slots_get (lp_slots p) 3 = Some slot \<and>
      packet_plan_ok packets \<and> encode_online_packet_plan packets = Inr (slot_value slot))) \<and>
   (decode_push_plan p = Inr pushes \<longleftrightarrow> (\<exists>slot. opaque_slots_get (lp_slots p) 4 = Some slot \<and>
      push_plan_ok pushes \<and> encode_push_plan pushes = Inr (slot_value slot)))"
proof -
  have slot: "profile_slot e p n = Inr v \<longleftrightarrow> n \<noteq> 0 \<and> (\<exists>slot. opaque_slots_get (lp_slots p) n = Some slot \<and> v = slot_value slot)"
    for e :: 'a and n v
    by (auto simp: profile_slot_def opaque_slot_id_new_def resultE split: if_splits)
  show ?thesis
    by (auto simp: decode_online_plan_def decode_online_packet_plan_def decode_push_plan_def bindE_Inr
        decode_plan_bytes_iff decode_packet_plan_bytes_iff decode_push_plan_bytes_iff ONLINE_PLAN_SLOT_ID_def
        ONLINE_PACKET_PLAN_SLOT_ID_def PUSH_PLAN_SLOT_ID_def profile_slot_def opaque_slot_id_new_def resultE)
qed

end
