(* ===== verification/Login_Tlv.thy ===== *)
theory Login_Tlv
  imports Codec Btree
begin

text \<open>
  Tag-length-value collections of the QQ login packets, as \<open>crates/qq-login\<close> reads and writes them: a
  16-bit count, then per entry a 16-bit tag and a 16-bit length-prefixed body, with distinct tags.
  A reader that folds over the entries (QR responses) and one that collects them into a map
  (credential responses) are shown to accept exactly the collections with distinct tags and bounded
  bodies, and to compute what the entries say, in whatever order they come.
\<close>

type_synonym tlv = "u16 \<times> bytes"

definition MAX_TLV_COUNT :: nat where
  "MAX_TLV_COUNT = 64"

definition MAX_TLV_LEN :: nat where
  "MAX_TLV_LEN = 32 * 1024"

definition write_tlv :: "u16 \<Rightarrow> bytes \<Rightarrow> (wire_writer, wire_error, unit) op" where
  "write_tlv tag body = bindS (put_u16 tag) (\<lambda>_. put_prefixed_bytes U16Payload body)"

text \<open>The loops over \<open>0..count\<close>. The set of tags seen so far is a list here; only membership is used.\<close>

fun tlv_fold ::
  "(wire_error \<Rightarrow> 'e) \<Rightarrow> 'e \<Rightarrow> (u16 \<Rightarrow> bytes \<Rightarrow> 's \<Rightarrow> 'e + 's) \<Rightarrow> nat \<Rightarrow> u16 list \<Rightarrow> 's \<Rightarrow> (wire_reader, 'e, 's) op"
where
  "tlv_fold g e step 0 tags acc = retS acc"
| "tlv_fold g e step (Suc n) tags acc =
     bindS (map_errS g read_u16) (\<lambda>tag.
     if tag \<in> set tags then failS e
     else bindS (map_errS g (read_prefixed_bytes U16Payload MAX_TLV_LEN)) (\<lambda>body.
          bindS (liftS (step tag body acc)) (\<lambda>acc'.
          tlv_fold g e step n (tag # tags) acc')))"

fun tlv_map :: "(wire_error \<Rightarrow> 'e) \<Rightarrow> 'e \<Rightarrow> nat \<Rightarrow> (u16, bytes) btree_map \<Rightarrow> (wire_reader, 'e, (u16, bytes) btree_map) op"
where
  "tlv_map g e 0 m = retS m"
| "tlv_map g e (Suc n) m =
     bindS (map_errS g read_u16) (\<lambda>tag.
     bindS (map_errS g (read_prefixed_bytes U16Payload MAX_TLV_LEN)) (\<lambda>body.
     if btree_get m tag \<noteq> None then failS e
     else tlv_map g e n (btree_insert tag body m)))"

definition count_allowed :: "u16 \<Rightarrow> bool" where
  "count_allowed count \<longleftrightarrow> unat count \<noteq> 0 \<and> unat count \<le> MAX_TLV_COUNT"

section \<open>Layout\<close>

definition tlv_bytes :: "tlv \<Rightarrow> bytes" where
  "tlv_bytes t = to_be 2 (fst t) @ prefixed U16Payload (snd t)"

definition tlv_layout :: "tlv list \<Rightarrow> bytes" where
  "tlv_layout ts = to_be 2 (of_nat (length ts) :: u16) @ many_bytes tlv_bytes ts"

definition tlv_collection_ok :: "tlv list \<Rightarrow> bool" where
  "tlv_collection_ok ts \<longleftrightarrow> ts \<noteq> [] \<and> length ts \<le> MAX_TLV_COUNT \<and> distinct (map fst ts) \<and>
     list_all (\<lambda>t. length (snd t) \<le> MAX_TLV_LEN) ts"

fun fold_tlvs :: "(u16 \<Rightarrow> bytes \<Rightarrow> 's \<Rightarrow> 'e + 's) \<Rightarrow> tlv list \<Rightarrow> 's \<Rightarrow> 'e + 's" where
  "fold_tlvs step [] acc = Inr acc"
| "fold_tlvs step (t # ts) acc = bindE (step (fst t) (snd t) acc) (fold_tlvs step ts)"

lemma tlv_bytes_pair [simp]: "tlv_bytes (tag, b) = to_be 2 tag @ prefixed U16Payload b"
  by (simp add: tlv_bytes_def)

lemma tlv_body_fits: "length b \<le> MAX_TLV_LEN \<Longrightarrow> prefix_fits U16Payload (length b)"
  by (simp add: MAX_TLV_LEN_def prefix_fits_def declared_len_def)

lemma accepts_tlv_body:
  "accepts (map_errS g (read_prefixed_bytes U16Payload MAX_TLV_LEN))
     (\<lambda>b xs ys. length b \<le> MAX_TLV_LEN \<and> xs = prefixed U16Payload b)"
  by (rule back_subst [of "accepts _", OF field_formD [OF field_form_prefixed]])
    (use tlv_body_fits in \<open>auto simp: fun_eq_iff\<close>)

lemma emits_tlv [emits_intros]: "emits (write_tlv tag body) (prefix_fits U16Payload (length body)) (tlv_bytes (tag, body))"
  unfolding write_tlv_def by (rule emits_conv, (rule emits_intros)+) (simp_all add: tlv_bytes_def)

lemma accepts_tlv_fold:
  "accepts (tlv_fold g e step n tags acc) (\<lambda>s xs ys. \<exists>ts. length ts = n \<and> distinct (map fst ts) \<and>
     set (map fst ts) \<inter> set tags = {} \<and> list_all (\<lambda>t. length (snd t) \<le> MAX_TLV_LEN) ts \<and>
     xs = many_bytes tlv_bytes ts \<and> fold_tlvs step ts acc = Inr s)"
proof (induction n arbitrary: tags acc)
  case 0
  show ?case
    by (rule back_subst [of "accepts _"], simp, rule accepts_ret) (auto simp: fun_eq_iff)
next
  case (Suc n)
  show ?case
    unfolding tlv_fold.simps
  proof (rule back_subst [of "accepts _", OF accepts_seq_field [OF field_formD [OF field_form_u16]
        accepts_if [OF accepts_fail accepts_seq_field [OF accepts_tlv_body accepts_seq_lift [OF Suc.IH]]]]],
      intro ext iffI, goal_cases)
    case (1 s xs ys)
    then obtain tag b ts acc' where tag: "tag \<notin> set tags" "length b \<le> MAX_TLV_LEN" "step tag b acc = Inr acc'"
      and ts: "length ts = n" "distinct (map fst ts)" "set (map fst ts) \<inter> set (tag # tags) = {}"
        "list_all (\<lambda>t. length (snd t) \<le> MAX_TLV_LEN) ts" "fold_tlvs step ts acc' = Inr s"
      and xs: "xs = to_be 2 tag @ prefixed U16Payload b @ many_bytes tlv_bytes ts"
      by (auto split: if_splits)
    then show ?case
      by (intro exI [of _ "(tag, b) # ts"]) auto
  next
    case (2 s xs ys)
    then obtain ts where len: "length ts = Suc n" and ok: "distinct (map fst ts)" "set (map fst ts) \<inter> set tags = {}"
        "list_all (\<lambda>t. length (snd t) \<le> MAX_TLV_LEN) ts" "xs = many_bytes tlv_bytes ts" "fold_tlvs step ts acc = Inr s"
      by blast
    from len obtain tag b rest where ts: "ts = (tag, b) # rest" by (cases ts) auto
    from ok ts obtain acc' where "step tag b acc = Inr acc'" "fold_tlvs step rest acc' = Inr s"
      by (auto simp: bindE_Inr)
    with ok len ts show ?case
      by (intro exI [of _ tag] exI [of _ "prefixed U16Payload b @ many_bytes tlv_bytes rest"])
        auto
  qed
qed

lemma accepts_tlv_map:
  assumes "btree_ok m"
  shows "accepts (tlv_map g e n m) (\<lambda>m' xs ys. \<exists>ts. length ts = n \<and> distinct (map fst ts) \<and>
     (\<forall>t \<in> set ts. btree_get m (fst t) = None) \<and> list_all (\<lambda>t. length (snd t) \<le> MAX_TLV_LEN) ts \<and>
     xs = many_bytes tlv_bytes ts \<and> m' = foldl (\<lambda>m (k, v). btree_insert k v m) m ts)"
  using assms
proof (induction n arbitrary: m)
  case 0
  show ?case
    by (rule back_subst [of "accepts _"], simp, rule accepts_ret) (auto simp: fun_eq_iff)
next
  case (Suc n)
  have get: "btree_get (btree_insert tag b m) k = (if k = tag then Some b else btree_get m k)" for tag b k
    using btree.get_insert [OF Suc.prems] .
  show ?case
    unfolding tlv_map.simps
  proof (rule back_subst [of "accepts _", OF accepts_seq_field [OF field_formD [OF field_form_u16]
        accepts_seq_field [OF accepts_tlv_body accepts_if [OF accepts_fail Suc.IH [OF btree_ok_insert [OF Suc.prems]]]]]],
      intro ext iffI, goal_cases)
    case (1 m' xs ys)
    then obtain tag b ts where tag: "btree_get m tag = None" "length b \<le> MAX_TLV_LEN"
      and ts: "length ts = n" "distinct (map fst ts)" "\<forall>t \<in> set ts. btree_get (btree_insert tag b m) (fst t) = None"
        "list_all (\<lambda>t. length (snd t) \<le> MAX_TLV_LEN) ts" "m' = foldl (\<lambda>m (k, v). btree_insert k v m) (btree_insert tag b m) ts"
      and xs: "xs = to_be 2 tag @ prefixed U16Payload b @ many_bytes tlv_bytes ts"
      by (auto split: if_splits)
    from ts(3) have "\<forall>t \<in> set ts. fst t \<noteq> tag \<and> btree_get m (fst t) = None"
      by (auto simp: get split: if_splits)
    with tag ts xs show ?case
      by (intro exI [of _ "(tag, b) # ts"]) auto
  next
    case (2 m' xs ys)
    then obtain ts where len: "length ts = Suc n" and ok: "distinct (map fst ts)" "\<forall>t \<in> set ts. btree_get m (fst t) = None"
        "list_all (\<lambda>t. length (snd t) \<le> MAX_TLV_LEN) ts" "xs = many_bytes tlv_bytes ts"
        "m' = foldl (\<lambda>m (k, v). btree_insert k v m) m ts"
      by blast
    from len obtain tag b rest where ts: "ts = (tag, b) # rest" by (cases ts) auto
    have "\<forall>t \<in> set rest. btree_get (btree_insert tag b m) (fst t) = None"
      using ok ts by (auto simp: get)
    with ok len ts show ?case
      by (intro exI [of _ tag] exI [of _ "prefixed U16Payload b @ many_bytes tlv_bytes rest"])
        auto
  qed
qed

section \<open>Whole collections\<close>

definition read_tlv_map :: "(wire_error \<Rightarrow> 'e) \<Rightarrow> 'e \<Rightarrow> (wire_reader, 'e, (u16, bytes) btree_map) op" where
  "read_tlv_map g e =
     bindS (map_errS g read_u16) (\<lambda>count.
     bindS (liftS (guardE (count_allowed count) e)) (\<lambda>_.
     tlv_map g e (unat count) []))"

definition read_tlv_fold ::
  "(wire_error \<Rightarrow> 'e) \<Rightarrow> 'e \<Rightarrow> (u16 \<Rightarrow> bytes \<Rightarrow> 's \<Rightarrow> 'e + 's) \<Rightarrow> 's \<Rightarrow> (wire_reader, 'e, 's) op" where
  "read_tlv_fold g e step acc =
     bindS (map_errS g read_u16) (\<lambda>count.
     bindS (liftS (guardE (count_allowed count) e)) (\<lambda>_.
     tlv_fold g e step (unat count) [] acc))"

lemma count_allowed_of_nat:
  "length ts \<noteq> 0 \<and> length ts \<le> MAX_TLV_COUNT \<Longrightarrow>
   unat (of_nat (length ts) :: u16) = length ts \<and> count_allowed (of_nat (length ts))"
  by (simp add: count_allowed_def MAX_TLV_COUNT_def unat_of_nat)

lemma accepts_read_tlv_map:
  "accepts (read_tlv_map g e) (\<lambda>m xs ys. \<exists>ts. tlv_collection_ok ts \<and> xs = tlv_layout ts \<and> m = btree_of ts)"
  unfolding read_tlv_map_def
proof (rule back_subst [of "accepts _", OF accepts_seq_field [OF field_formD [OF field_form_u16]
      accepts_seq_guard [OF accepts_tlv_map [OF btree.inv_empty]]]], intro ext iffI, goal_cases)
  case (1 m xs ys)
  then obtain count ts where "count_allowed count" and ts: "length ts = unat count" "distinct (map fst ts)"
    "list_all (\<lambda>t. length (snd t) \<le> MAX_TLV_LEN) ts" "m = foldl (\<lambda>m (k, v). btree_insert k v m) [] ts"
    "xs = to_be 2 count @ many_bytes tlv_bytes ts" by blast
  then have "ts \<noteq> [] \<and> length ts \<le> MAX_TLV_COUNT" "of_nat (length ts) = count"
    by (auto simp: count_allowed_def)
  with ts show ?case
    by (intro exI [of _ ts]) (simp add: tlv_collection_ok_def tlv_layout_def btree_of_def)
next
  case (2 m xs ys)
  then obtain ts where ok: "tlv_collection_ok ts" and xs: "xs = tlv_layout ts" and m: "m = btree_of ts" by blast
  from ok count_allowed_of_nat [of ts] show ?case
    by (intro exI [of _ "of_nat (length ts)"] exI [of _ "many_bytes tlv_bytes ts"])
      (auto simp: tlv_collection_ok_def tlv_layout_def btree_of_def btree.get_empty xs m)
qed

lemma accepts_read_tlv_fold:
  "accepts (read_tlv_fold g e step acc)
     (\<lambda>s xs ys. \<exists>ts. tlv_collection_ok ts \<and> xs = tlv_layout ts \<and> fold_tlvs step ts acc = Inr s)"
  unfolding read_tlv_fold_def
proof (rule back_subst [of "accepts _", OF accepts_seq_field [OF field_formD [OF field_form_u16]
      accepts_seq_guard [OF accepts_tlv_fold]]], intro ext iffI, goal_cases)
  case (1 s xs ys)
  then obtain count ts where "count_allowed count" and ts: "length ts = unat count" "distinct (map fst ts)"
    "list_all (\<lambda>t. length (snd t) \<le> MAX_TLV_LEN) ts" "fold_tlvs step ts acc = Inr s"
    "xs = to_be 2 count @ many_bytes tlv_bytes ts" by blast
  then have "ts \<noteq> [] \<and> length ts \<le> MAX_TLV_COUNT" "of_nat (length ts) = count"
    by (auto simp: count_allowed_def)
  with ts show ?case
    by (intro exI [of _ ts]) (simp add: tlv_collection_ok_def tlv_layout_def)
next
  case (2 s xs ys)
  then obtain ts where ok: "tlv_collection_ok ts" and xs: "xs = tlv_layout ts" and s: "fold_tlvs step ts acc = Inr s" by blast
  from ok count_allowed_of_nat [of ts] s show ?case
    by (intro exI [of _ "of_nat (length ts)"] exI [of _ "many_bytes tlv_bytes ts"])
      (auto simp: tlv_collection_ok_def tlv_layout_def xs)
qed

text \<open>Writing a fixed list of entries.\<close>

fun write_tlvs :: "tlv list \<Rightarrow> (wire_writer, wire_error, unit) op" where
  "write_tlvs [] = retS ()"
| "write_tlvs (t # ts) = bindS (write_tlv (fst t) (snd t)) (\<lambda>_. write_tlvs ts)"

lemma write_tlvs_put_many: "write_tlvs ts = put_many (\<lambda>t. write_tlv (fst t) (snd t)) ts"
  by (induction ts) auto

lemma emits_tlvs_after:
  "emits m D xs \<Longrightarrow> emits (bindS m (\<lambda>_. write_tlvs ts))
     (D \<and> list_all (\<lambda>t. prefix_fits U16Payload (length (snd t))) ts) (xs @ many_bytes tlv_bytes ts)"
  unfolding write_tlvs_put_many
  by (rule emits_conv [OF emits_then_many [where enc = tlv_bytes and C = "\<lambda>t. prefix_fits U16Payload (length (snd t))"]])
    (use emits_tlv in auto)

end
