(* ===== verification/Login_Packet.thy ===== *)
theory Login_Packet
  imports Login_Tlv Envelope Profile Device Oidb
begin

text \<open>
  The requests of \<open>crates/qq-login\<close> before confirmation: the WtLogin packet (\<open>wtlogin.rs\<close>), its
  sequence (\<open>sequence.rs\<close>), the key agreement's interface, the QR device, the transaction and request
  data (\<open>qr_packet/packet.rs\<close>), the fetch entries (\<open>qr_packet/tlv.rs\<close>) and the two request builders
  (\<open>qr_packet/fetch.rs\<close>, \<open>poll.rs\<close>). The entropy of the encryption, the key agreement and the
  protobuf encoder are parameters.
\<close>

section \<open>Keys, devices and sequences\<close>

datatype key_agreement_error = InvalidPeer | KeyBackend | InvalidSharedValue

text \<open>\<open>dyn QqKeyAgreement\<close>: what the trait's methods return for one value of the type.\<close>

record key_agreement =
  ka_public_key :: bytes
  ka_tea_key :: tea_key
  ka_derive_response_key :: "bytes \<Rightarrow> key_agreement_error + tea_key"

record qr_device =
  qd_profile :: device_profile

definition qr_device_guid :: "qr_device \<Rightarrow> bytes" where
  "qr_device_guid d = dev_guid (qd_profile d)"

definition qr_device_name :: "qr_device \<Rightarrow> rstr" where
  "qr_device_name d = dev_device_name (qd_profile d)"

definition wtlogin_sequence_take :: "u16 \<Rightarrow> u16 \<times> u16" where
  "wtlogin_sequence_take s = (s, s + 1)"

section \<open>The WtLogin packet\<close>

definition WTLOGIN_VERSION :: u16 where
  "WTLOGIN_VERSION = 8001"

definition EXTENSION_VERSION :: u8 where
  "EXTENSION_VERSION = 3"

definition COMMAND_VERSION :: u8 where
  "COMMAND_VERSION = 135"

definition ECDH_PUBLIC_ID :: u8 where
  "ECDH_PUBLIC_ID = 19"

definition ECDH_TYPE :: u16 where
  "ECDH_TYPE = 0x102"

definition TRANS_EMP_COMMAND :: u16 where
  "TRANS_EMP_COMMAND = 2066"

definition MAX_LOGIN_PACKET_LEN :: nat where
  "MAX_LOGIN_PACKET_LEN = 64 * 1024"

record wtlogin_packet =
  wp_profile :: linux_nt_profile
  wp_command :: u16
  wp_sequence :: u16
  wp_uin :: u32
  wp_random_key :: tea_key
  wp_public_key :: bytes
  wp_encrypted :: bytes

definition put_wtlogin_body :: "wtlogin_packet \<Rightarrow> (wire_writer, wire_error, unit) op" where
  "put_wtlogin_body p =
     bindS (put_u16 WTLOGIN_VERSION) (\<lambda>_.
     bindS (put_u16 (wp_command p)) (\<lambda>_.
     bindS (put_u16 (wp_sequence p)) (\<lambda>_.
     bindS (put_u32 (wp_uin p)) (\<lambda>_.
     bindS (put_u8 EXTENSION_VERSION) (\<lambda>_.
     bindS (put_u8 COMMAND_VERSION) (\<lambda>_.
     bindS (put_u32 0) (\<lambda>_.
     bindS (put_u8 ECDH_PUBLIC_ID) (\<lambda>_.
     bindS (put_u16 0) (\<lambda>_.
     bindS (put_u16 (np_app_client_version (lp_spec (wp_profile p)))) (\<lambda>_.
     bindS (put_u32 0) (\<lambda>_.
     bindS (put_u8 1) (\<lambda>_.
     bindS (put_u8 1) (\<lambda>_.
     bindS (put_bytes (wp_random_key p)) (\<lambda>_.
     bindS (put_u16 ECDH_TYPE) (\<lambda>_.
     bindS (put_prefixed_bytes U16Payload (wp_public_key p)) (\<lambda>_.
     bindS (put_bytes (wp_encrypted p)) (\<lambda>_.
     put_u8 3)))))))))))))))))"

text \<open>\<open>u16::try_from\<close>, alone and after a \<open>checked_add\<close>.\<close>

definition u16_try_from :: "nat \<Rightarrow> u16 option" where
  "u16_try_from n = (if n < 2 ^ 16 then Some (of_nat n) else None)"

definition u16_sum :: "nat \<Rightarrow> nat \<Rightarrow> u16 option" where
  "u16_sum a b = Option.bind (usize_add a b) u16_try_from"

definition wtlogin_encode :: "wtlogin_packet \<Rightarrow> wire_error + bytes" where
  "wtlogin_encode p =
     bindE (run_writer MAX_LOGIN_PACKET_LEN (put_wtlogin_body p)) (\<lambda>body.
     bindE (ok_or LengthOverflow (u16_sum (length body) 3)) (\<lambda>declared.
     run_writer MAX_LOGIN_PACKET_LEN
       (bindS (put_u8 2) (\<lambda>_.
        bindS (put_u16 declared) (\<lambda>_.
        put_bytes body)))))"

definition wtlogin_body_layout :: "wtlogin_packet \<Rightarrow> bytes" where
  "wtlogin_body_layout p =
     to_be 2 WTLOGIN_VERSION @ to_be 2 (wp_command p) @ to_be 2 (wp_sequence p) @ to_be 4 (wp_uin p) @
     [EXTENSION_VERSION, COMMAND_VERSION] @ to_be 4 (0 :: u32) @ [ECDH_PUBLIC_ID] @ to_be 2 (0 :: u16) @
     to_be 2 (np_app_client_version (lp_spec (wp_profile p))) @ to_be 4 (0 :: u32) @ [1, 1] @ wp_random_key p @
     to_be 2 ECDH_TYPE @ prefixed U16Payload (wp_public_key p) @ wp_encrypted p @ [3]"

definition wtlogin_layout :: "wtlogin_packet \<Rightarrow> bytes" where
  "wtlogin_layout p =
     2 # to_be 2 (of_nat (length (wtlogin_body_layout p) + 3) :: u16) @ wtlogin_body_layout p"

lemma emits_wtlogin_body:
  "emits (put_wtlogin_body p) (prefix_fits U16Payload (length (wp_public_key p))) (wtlogin_body_layout p)"
  unfolding put_wtlogin_body_def wtlogin_body_layout_def
  by (rule emits_conv, (rule emits_intros)+) simp_all

lemma u16_try_from_Some: "u16_try_from a = Some n \<longleftrightarrow> a < 2 ^ 16 \<and> n = of_nat a"
  by (auto simp: u16_try_from_def)

lemma u16_sum_Some: "u16_sum a b = Some n \<longleftrightarrow> a + b < 2 ^ 16 \<and> n = of_nat (a + b)"
  by (auto simp: u16_sum_def u16_try_from_def usize_add_def usize_limit_def Option.bind_eq_Some_conv)

lemma run_writer_bytes:
  assumes "emits m C xs" and "n \<le> 2 ^ 32"
  shows "run_writer n m = Inr out \<longleftrightarrow> C \<and> length xs \<le> n \<and> out = xs"
  unfolding run_writer_Inr [OF assms(1)] using assms(2) by (auto simp: usize_limit_def)

lemma wtlogin_encode_Inr:
  "wtlogin_encode p = Inr out \<longleftrightarrow>
     prefix_fits U16Payload (length (wp_public_key p)) \<and> length (wtlogin_body_layout p) + 3 < 2 ^ 16 \<and>
     out = wtlogin_layout p"
proof -
  have e: "emits (bindS (put_u8 2) (\<lambda>_. bindS (put_u16 d) (\<lambda>_. put_bytes b))) True (2 # to_be 2 d @ b)" for d b
    by (rule emits_conv, (rule emits_intros)+) simp_all
  show ?thesis
    unfolding wtlogin_encode_def bindE_Inr ok_or_Inr u16_sum_Some
    by (auto simp: run_writer_bytes [OF emits_wtlogin_body] run_writer_bytes [OF e] MAX_LOGIN_PACKET_LEN_def
        wtlogin_layout_def)
qed

text \<open>The declared length of a packet is its length.\<close>

lemma wtlogin_layout_length: "length (wtlogin_layout p) = length (wtlogin_body_layout p) + 3"
  by (simp add: wtlogin_layout_def)

section \<open>Transactions and request data\<close>

datatype qr_packet_error = QInvalidField | QWire | QCrypto

definition qr_from_wire :: "wire_error \<Rightarrow> qr_packet_error" where
  "qr_from_wire e = QWire"

definition qr_from_tea :: "tea_error \<Rightarrow> qr_packet_error" where
  "qr_from_tea e = QCrypto"

definition put_transaction :: "u16 \<Rightarrow> u16 \<Rightarrow> bytes \<Rightarrow> (wire_writer, wire_error, unit) op" where
  "put_transaction declared command body =
     bindS (put_u8 2) (\<lambda>_.
     bindS (put_u16 declared) (\<lambda>_.
     bindS (put_u16 command) (\<lambda>_.
     bindS (put_bytes (replicate 21 0)) (\<lambda>_.
     bindS (put_u8 3) (\<lambda>_.
     bindS (put_u16 0) (\<lambda>_.
     bindS (put_u16 0x32) (\<lambda>_.
     bindS (put_u32 0) (\<lambda>_.
     bindS (put_u64 0) (\<lambda>_.
     bindS (put_bytes body) (\<lambda>_.
     put_u8 3))))))))))"

definition build_transaction :: "u16 \<Rightarrow> bytes \<Rightarrow> qr_packet_error + bytes" where
  "build_transaction command body =
     bindE (ok_or QInvalidField (u16_sum (length body) 44)) (\<lambda>declared.
     map_err qr_from_wire (run_writer MAX_LOGIN_PACKET_LEN (put_transaction declared command body)))"

definition put_request_data :: "linux_nt_profile \<Rightarrow> u16 \<Rightarrow> bytes \<Rightarrow> (wire_writer, wire_error, unit) op" where
  "put_request_data p request_len request_body =
     bindS (put_u8 0) (\<lambda>_.
     bindS (put_u16 request_len) (\<lambda>_.
     bindS (put_u32 (np_app_id (lp_spec p))) (\<lambda>_.
     bindS (put_u32 0x72) (\<lambda>_.
     bindS (put_prefixed_bytes U16Payload []) (\<lambda>_.
     bindS (put_prefixed_bytes U8Payload []) (\<lambda>_.
     put_bytes request_body))))))"

definition build_request_data :: "linux_nt_profile \<Rightarrow> u32 \<Rightarrow> bytes \<Rightarrow> qr_packet_error + bytes" where
  "build_request_data p unix_seconds transaction =
     bindE (map_err qr_from_wire (run_writer MAX_LOGIN_PACKET_LEN
       (bindS (put_u32 unix_seconds) (\<lambda>_. put_bytes transaction)))) (\<lambda>request_body.
     bindE (ok_or QInvalidField (u16_try_from (length request_body))) (\<lambda>request_len.
     map_err qr_from_wire (run_writer MAX_LOGIN_PACKET_LEN (put_request_data p request_len request_body))))"

definition transaction_layout :: "u16 \<Rightarrow> bytes \<Rightarrow> bytes \<Rightarrow> bytes" where
  "transaction_layout command reserved body =
     2 # to_be 2 (of_nat (length body + length reserved + 23) :: u16) @ to_be 2 command @ reserved @ [3] @ to_be 2 (0 :: u16) @
     to_be 2 (0x32 :: u16) @ to_be 4 (0 :: u32) @ to_be 8 (0 :: u64) @ body @ [3]"

definition request_data_layout :: "linux_nt_profile \<Rightarrow> u32 \<Rightarrow> bytes \<Rightarrow> bytes" where
  "request_data_layout p unix_seconds transaction =
     0 # to_be 2 (of_nat (length transaction + 4) :: u16) @ to_be 4 (np_app_id (lp_spec p)) @ to_be 4 (0x72 :: u32) @
     prefixed U16Payload [] @ prefixed U8Payload [] @ to_be 4 unix_seconds @ transaction"

lemma build_transaction_Inr:
  "build_transaction command body = Inr out \<longleftrightarrow>
     length body + 44 < 2 ^ 16 \<and> out = transaction_layout command (replicate 21 0) body"
proof -
  have e: "emits (put_transaction d command body) True (2 # to_be 2 d @ to_be 2 command @ replicate 21 0 @ [3] @
      to_be 2 (0 :: u16) @ to_be 2 (0x32 :: u16) @ to_be 4 (0 :: u32) @ to_be 8 (0 :: u64) @ body @ [3])" for d
    unfolding put_transaction_def by (rule emits_conv, (rule emits_intros)+) simp_all
  show ?thesis
    unfolding build_transaction_def bindE_Inr ok_or_Inr u16_sum_Some u16_try_from_Some map_err_Inr
    by (auto simp: run_writer_bytes [OF e] MAX_LOGIN_PACKET_LEN_def transaction_layout_def
        add.commute)
qed

lemma prefix_fits_Nil [simp]: "prefix_fits U16Payload 0" "prefix_fits U8Payload 0"
  by (simp_all add: prefix_fits_def declared_len_def)

lemma build_request_data_Inr:
  "build_request_data p unix_seconds transaction = Inr out \<longleftrightarrow>
     length transaction + 18 \<le> 2 ^ 16 \<and> out = request_data_layout p unix_seconds transaction"
proof -
  have b: "emits (bindS (put_u32 unix_seconds) (\<lambda>_. put_bytes transaction)) True (to_be 4 unix_seconds @ transaction)"
    by (rule emits_conv, (rule emits_intros)+) simp_all
  have e: "emits (put_request_data p n body) True (0 # to_be 2 n @ to_be 4 (np_app_id (lp_spec p)) @ to_be 4 (0x72 :: u32) @
      prefixed U16Payload [] @ prefixed U8Payload [] @ body)" for n body
    unfolding put_request_data_def by (rule emits_conv, (rule emits_intros)+) simp_all
  show ?thesis
    unfolding build_request_data_def bindE_Inr ok_or_Inr u16_sum_Some u16_try_from_Some map_err_Inr
    by (auto simp: run_writer_bytes [OF b] run_writer_bytes [OF e] MAX_LOGIN_PACKET_LEN_def request_data_layout_def
        add.commute)
qed

section \<open>The fetch entries\<close>

definition MAX_TLV_BODY_LEN :: nat where
  "MAX_TLV_BODY_LEN = 8 * 1024"

definition put_tlv_16 :: "linux_nt_profile \<Rightarrow> qr_device \<Rightarrow> (wire_writer, wire_error, unit) op" where
  "put_tlv_16 p d =
     bindS (put_u32 0) (\<lambda>_.
     bindS (put_u32 (np_app_id (lp_spec p))) (\<lambda>_.
     bindS (put_u32 (np_qr_app_id (lp_spec p))) (\<lambda>_.
     bindS (put_bytes (qr_device_guid d)) (\<lambda>_.
     bindS (put_prefixed_bytes U16Payload (np_package_name (lp_spec p))) (\<lambda>_.
     bindS (put_prefixed_bytes U16Payload (np_pt_version (lp_spec p))) (\<lambda>_.
     put_prefixed_bytes U16Payload (np_package_name (lp_spec p))))))))"

fun put_u32s :: "u32 list \<Rightarrow> (wire_writer, wire_error, unit) op \<Rightarrow> (wire_writer, wire_error, unit) op" where
  "put_u32s [] rest = rest"
| "put_u32s (v # vs) rest = bindS (put_u32 v) (\<lambda>_. put_u32s vs rest)"

definition put_tlv_1b :: "(wire_writer, wire_error, unit) op" where
  "put_tlv_1b = put_u32s [0, 0, 3, 4, 72, 2, 2] (put_u16 0)"

definition put_tlv_1d :: "linux_nt_profile \<Rightarrow> (wire_writer, wire_error, unit) op" where
  "put_tlv_1d p =
     bindS (put_u8 1) (\<lambda>_.
     bindS (put_u32 (np_misc_bitmap (lp_spec p))) (\<lambda>_.
     bindS (put_u32 0) (\<lambda>_.
     put_u8 0)))"

definition tlv_d1 :: "pb_encoder \<Rightarrow> linux_nt_profile \<Rightarrow> qr_device \<Rightarrow> bytes" where
  "tlv_d1 encode p d = encode
     [sub_message 1 [Singular 1 (PbString (np_operating_system (lp_spec p))), Singular 2 (PbString (qr_device_name d))],
      Singular 4 (PbBytes [0x30, 0x01])]"

definition tlv_writer :: "(wire_writer, wire_error, unit) op \<Rightarrow> qr_packet_error + bytes" where
  "tlv_writer m = map_err qr_from_wire (run_writer MAX_TLV_BODY_LEN m)"

definition build_fetch_tlvs :: "pb_encoder \<Rightarrow> linux_nt_profile \<Rightarrow> qr_device \<Rightarrow> qr_packet_error + bytes" where
  "build_fetch_tlvs encode p d =
     bindE (tlv_writer (put_tlv_16 p d)) (\<lambda>tlv_16.
     bindE (tlv_writer put_tlv_1b) (\<lambda>tlv_1b.
     bindE (tlv_writer (put_tlv_1d p)) (\<lambda>tlv_1d.
     let bodies =
       [(0x016, tlv_16), (0x01b, tlv_1b), (0x01d, tlv_1d), (0x033, qr_device_guid d),
        (0x035, to_be 4 (np_sso_version (lp_spec p))), (0x066, to_be 4 (np_sso_version (lp_spec p))),
        (0x0d1, tlv_d1 encode p d)]
     in bindE (ok_or QInvalidField (u16_try_from (length bodies))) (\<lambda>count.
        tlv_writer (bindS (put_u16 count) (\<lambda>_. write_tlvs bodies))))))"

section \<open>Fetching and polling\<close>

definition QR_FETCH_COMMAND :: u16 where
  "QR_FETCH_COMMAND = 0x31"

definition QR_POLL_COMMAND :: u16 where
  "QR_POLL_COMMAND = 0x12"

record qr_fetch_context =
  qf_profile :: linux_nt_profile
  qf_device :: qr_device
  qf_sso_sequence :: u32
  qf_wtlogin_sequence :: u16
  qf_unix_seconds :: u32
  qf_random_key :: tea_key
  qf_key_agreement :: key_agreement

record qr_challenge =
  qc_poll_signature :: bytes
  qc_query_signature :: rstr

record qr_poll_context =
  qp_profile :: linux_nt_profile
  qp_sso_sequence :: u32
  qp_wtlogin_sequence :: u16
  qp_unix_seconds :: u32
  qp_random_key :: tea_key
  qp_key_agreement :: key_agreement
  qp_challenge :: qr_challenge

record qr_unsigned_request =
  ur_sequence :: u32
  ur_payload :: bytes

definition ur_command :: "qr_unsigned_request \<Rightarrow> rstr" where
  "ur_command r = lit ''wtlogin.trans_emp''"

definition put_fetch_body :: "linux_nt_profile \<Rightarrow> bytes \<Rightarrow> (wire_writer, wire_error, unit) op" where
  "put_fetch_body p tlvs =
     bindS (put_u16 0) (\<lambda>_.
     bindS (put_u32 (np_app_id (lp_spec p))) (\<lambda>_.
     bindS (put_u64 0) (\<lambda>_.
     bindS (put_u8 0) (\<lambda>_.
     bindS (put_prefixed_bytes U16Payload []) (\<lambda>_.
     put_bytes tlvs)))))"

definition build_fetch_body :: "pb_encoder \<Rightarrow> linux_nt_profile \<Rightarrow> qr_device \<Rightarrow> qr_packet_error + bytes" where
  "build_fetch_body encode p d =
     bindE (build_fetch_tlvs encode p d) (\<lambda>tlvs.
     map_err qr_from_wire (run_writer MAX_LOGIN_PACKET_LEN (put_fetch_body p tlvs)))"

definition put_poll_body :: "linux_nt_profile \<Rightarrow> qr_challenge \<Rightarrow> (wire_writer, wire_error, unit) op" where
  "put_poll_body p c =
     bindS (put_u16 0) (\<lambda>_.
     bindS (put_u32 (np_app_id (lp_spec p))) (\<lambda>_.
     bindS (put_prefixed_bytes U16Payload (qc_poll_signature c)) (\<lambda>_.
     bindS (put_u64 0) (\<lambda>_.
     bindS (put_u8 0) (\<lambda>_.
     bindS (put_prefixed_bytes U16Payload []) (\<lambda>_.
     put_u16 0))))))"

definition build_poll_body :: "linux_nt_profile \<Rightarrow> qr_challenge \<Rightarrow> qr_packet_error + bytes" where
  "build_poll_body p c = map_err qr_from_wire (run_writer MAX_LOGIN_PACKET_LEN (put_poll_body p c))"

text \<open>The part the two builders share: the transaction, its encryption and the WtLogin packet.\<close>

definition seal_qr_body ::
  "(nat \<Rightarrow> bytes option) \<Rightarrow> linux_nt_profile \<Rightarrow> u32 \<Rightarrow> u16 \<Rightarrow> u32 \<Rightarrow> tea_key \<Rightarrow> key_agreement \<Rightarrow> u16 \<Rightarrow> bytes \<Rightarrow>
   qr_packet_error + qr_unsigned_request" where
  "seal_qr_body fill p sso_sequence wt_sequence unix_seconds random_key ka command body =
     bindE (build_transaction command body) (\<lambda>transaction.
     bindE (build_request_data p unix_seconds transaction) (\<lambda>data.
     bindE (map_err qr_from_tea (encrypt_qq_tea fill data (ka_tea_key ka))) (\<lambda>encrypted.
     bindE (map_err qr_from_wire (wtlogin_encode
       \<lparr>wp_profile = p, wp_command = TRANS_EMP_COMMAND, wp_sequence = wt_sequence, wp_uin = 0,
        wp_random_key = random_key, wp_public_key = ka_public_key ka, wp_encrypted = encrypted\<rparr>)) (\<lambda>payload.
     Inr \<lparr>ur_sequence = sso_sequence, ur_payload = payload\<rparr>))))"

definition build_qr_fetch ::
  "pb_encoder \<Rightarrow> (nat \<Rightarrow> bytes option) \<Rightarrow> qr_fetch_context \<Rightarrow> qr_packet_error + qr_unsigned_request" where
  "build_qr_fetch encode fill c =
     (if qf_sso_sequence c = 0 \<or> qf_unix_seconds c = 0 \<or> length (ka_public_key (qf_key_agreement c)) \<noteq> 25
      then Inl QInvalidField
      else bindE (build_fetch_body encode (qf_profile c) (qf_device c)) (\<lambda>body.
           seal_qr_body fill (qf_profile c) (qf_sso_sequence c) (qf_wtlogin_sequence c) (qf_unix_seconds c)
             (qf_random_key c) (qf_key_agreement c) QR_FETCH_COMMAND body))"

definition build_qr_poll :: "(nat \<Rightarrow> bytes option) \<Rightarrow> qr_poll_context \<Rightarrow> qr_packet_error + qr_unsigned_request" where
  "build_qr_poll fill c =
     (if qp_sso_sequence c = 0 \<or> qp_unix_seconds c = 0 \<or> qc_poll_signature (qp_challenge c) = [] \<or>
         length (ka_public_key (qp_key_agreement c)) \<noteq> 25
      then Inl QInvalidField
      else bindE (build_poll_body (qp_profile c) (qp_challenge c)) (\<lambda>body.
           seal_qr_body fill (qp_profile c) (qp_sso_sequence c) (qp_wtlogin_sequence c) (qp_unix_seconds c)
             (qp_random_key c) (qp_key_agreement c) QR_POLL_COMMAND body))"

section \<open>What a request carries\<close>

definition fetch_entries :: "pb_encoder \<Rightarrow> linux_nt_profile \<Rightarrow> qr_device \<Rightarrow> tlv list" where
  "fetch_entries encode p d =
     [(0x016, to_be 4 (0 :: u32) @ to_be 4 (np_app_id (lp_spec p)) @ to_be 4 (np_qr_app_id (lp_spec p)) @
              qr_device_guid d @ prefixed U16Payload (np_package_name (lp_spec p)) @
              prefixed U16Payload (np_pt_version (lp_spec p)) @ prefixed U16Payload (np_package_name (lp_spec p))),
      (0x01b, to_be 4 (0 :: u32) @ to_be 4 (0 :: u32) @ to_be 4 (3 :: u32) @ to_be 4 (4 :: u32) @ to_be 4 (72 :: u32) @
              to_be 4 (2 :: u32) @ to_be 4 (2 :: u32) @ to_be 2 (0 :: u16)),
      (0x01d, [1] @ to_be 4 (np_misc_bitmap (lp_spec p)) @ to_be 4 (0 :: u32) @ [0]),
      (0x033, qr_device_guid d),
      (0x035, to_be 4 (np_sso_version (lp_spec p))),
      (0x066, to_be 4 (np_sso_version (lp_spec p))),
      (0x0d1, tlv_d1 encode p d)]"

definition fetch_body_layout :: "pb_encoder \<Rightarrow> linux_nt_profile \<Rightarrow> qr_device \<Rightarrow> bytes" where
  "fetch_body_layout encode p d =
     to_be 2 (0 :: u16) @ to_be 4 (np_app_id (lp_spec p)) @ to_be 8 (0 :: u64) @ [0] @ prefixed U16Payload [] @
     tlv_layout (fetch_entries encode p d)"

definition poll_body_layout :: "linux_nt_profile \<Rightarrow> qr_challenge \<Rightarrow> bytes" where
  "poll_body_layout p c =
     to_be 2 (0 :: u16) @ to_be 4 (np_app_id (lp_spec p)) @ prefixed U16Payload (qc_poll_signature c) @
     to_be 8 (0 :: u64) @ [0] @ prefixed U16Payload [] @ to_be 2 (0 :: u16)"

definition fetch_fits :: "pb_encoder \<Rightarrow> linux_nt_profile \<Rightarrow> qr_device \<Rightarrow> bool" where
  "fetch_fits encode p d \<longleftrightarrow> length (tlv_layout (fetch_entries encode p d)) \<le> MAX_TLV_BODY_LEN"

lemma emits_tlv_16:
  "emits (put_tlv_16 p d) (prefix_fits U16Payload (length (np_package_name (lp_spec p))) \<and>
     prefix_fits U16Payload (length (np_pt_version (lp_spec p))))
     (to_be 4 (0 :: u32) @ to_be 4 (np_app_id (lp_spec p)) @ to_be 4 (np_qr_app_id (lp_spec p)) @
      qr_device_guid d @ prefixed U16Payload (np_package_name (lp_spec p)) @
      prefixed U16Payload (np_pt_version (lp_spec p)) @ prefixed U16Payload (np_package_name (lp_spec p)))"
  unfolding put_tlv_16_def by (rule emits_conv, (rule emits_intros)+, auto)

lemma emits_tlv_1b:
  "emits put_tlv_1b True (to_be 4 (0 :: u32) @ to_be 4 (0 :: u32) @ to_be 4 (3 :: u32) @ to_be 4 (4 :: u32) @
     to_be 4 (72 :: u32) @ to_be 4 (2 :: u32) @ to_be 4 (2 :: u32) @ to_be 2 (0 :: u16))"
  unfolding put_tlv_1b_def put_u32s.simps by (rule emits_conv, (rule emits_intros)+, auto)

lemma emits_tlv_1d:
  "emits (put_tlv_1d p) True ([1] @ to_be 4 (np_misc_bitmap (lp_spec p)) @ to_be 4 (0 :: u32) @ [0])"
  unfolding put_tlv_1d_def by (rule emits_conv, (rule emits_intros)+, auto)

lemma build_fetch_tlvs_Inr:
  assumes "build_fetch_tlvs encode p d = Inr out"
  shows "out = tlv_layout (fetch_entries encode p d)"
proof -
  have small: "MAX_TLV_BODY_LEN \<le> 2 ^ 32" by (simp add: MAX_TLV_BODY_LEN_def)
  note w = run_writer_bytes [OF _ small]
  from assms show ?thesis
    unfolding build_fetch_tlvs_def tlv_writer_def bindE_Inr map_err_Inr Let_def ok_or_Inr u16_try_from_Some
      w [OF emits_tlv_16] w [OF emits_tlv_1b] w [OF emits_tlv_1d] w [OF emits_tlvs_after [OF emits_u16]]
    by (elim exE conjE) (simp add: tlv_layout_def fetch_entries_def)
qed

lemma build_fetch_body_Inr:
  assumes "build_fetch_body encode p d = Inr body"
  shows "body = fetch_body_layout encode p d"
proof -
  have e: "emits (put_fetch_body p tlvs) True (to_be 2 (0 :: u16) @ to_be 4 (np_app_id (lp_spec p)) @ to_be 8 (0 :: u64) @ [0] @
      prefixed U16Payload [] @ tlvs)" for tlvs
    unfolding put_fetch_body_def by (rule emits_conv, (rule emits_intros)+, auto)
  from assms show ?thesis
    by (auto simp: build_fetch_body_def bindE_Inr map_err_Inr run_writer_bytes [OF e] MAX_LOGIN_PACKET_LEN_def
        fetch_body_layout_def dest: build_fetch_tlvs_Inr)
qed

lemma build_poll_body_Inr:
  "build_poll_body p c = Inr body \<longleftrightarrow>
     prefix_fits U16Payload (length (qc_poll_signature c)) \<and> length (poll_body_layout p c) \<le> MAX_LOGIN_PACKET_LEN \<and>
     body = poll_body_layout p c"
proof -
  have e: "emits (put_poll_body p c) (prefix_fits U16Payload (length (qc_poll_signature c))) (poll_body_layout p c)"
    unfolding put_poll_body_def poll_body_layout_def by (rule emits_conv, (rule emits_intros)+, auto)
  have "MAX_LOGIN_PACKET_LEN \<le> 2 ^ 32" by (simp add: MAX_LOGIN_PACKET_LEN_def)
  from run_writer_bytes [OF e this] show ?thesis by (simp add: build_poll_body_def map_err_Inr)
qed

text \<open>
  The payload is a WtLogin packet under the agreement's public key; its encrypted part decrypts under
  the agreed key to request data around the transaction with the given command and body.
\<close>

definition qr_request_carries ::
  "linux_nt_profile \<Rightarrow> u16 \<Rightarrow> u32 \<Rightarrow> tea_key \<Rightarrow> key_agreement \<Rightarrow> u16 \<Rightarrow> bytes \<Rightarrow> bytes \<Rightarrow> bool" where
  "qr_request_carries p wt_sequence unix_seconds random_key ka command body payload \<longleftrightarrow>
     (\<exists>encrypted.
        payload = wtlogin_layout
          \<lparr>wp_profile = p, wp_command = TRANS_EMP_COMMAND, wp_sequence = wt_sequence, wp_uin = 0,
           wp_random_key = random_key, wp_public_key = ka_public_key ka, wp_encrypted = encrypted\<rparr> \<and>
        length payload < 2 ^ 16 \<and>
        decrypt_qq_tea encrypted (ka_tea_key ka) =
          Inr (request_data_layout p unix_seconds (transaction_layout command (replicate 21 0) body)))"

lemma seal_qr_body_Inr:
  assumes "seal_qr_body fill p sso_sequence wt_sequence unix_seconds random_key ka command body = Inr r"
  shows "ur_sequence r = sso_sequence \<and> qr_request_carries p wt_sequence unix_seconds random_key ka command body (ur_payload r)"
  using assms
  unfolding seal_qr_body_def bindE_Inr map_err_Inr build_transaction_Inr build_request_data_Inr wtlogin_encode_Inr
  by (elim exE conjE) (auto simp: qr_request_carries_def wtlogin_layout_length intro: encrypt_qq_tea_decrypts)

lemma seal_qr_body_succeeds:
  assumes "length body \<le> 60000" "length (ka_public_key ka) = 25" "length random_key = 16"
    and fill: "\<And>n. \<exists>padding. fill n = Some padding \<and> length padding = n"
  shows "is_ok (seal_qr_body fill p sso_sequence wt_sequence unix_seconds random_key ka command body)"
proof -
  let ?data = "request_data_layout p unix_seconds (transaction_layout command (replicate 21 0) body)"
  have len: "length ?data = length body + 62" by (simp add: request_data_layout_def transaction_layout_def)
  obtain padding where pad: "fill (padding_len (length ?data)) = Some padding" "length padding = padding_len (length ?data)"
    using fill by blast
  have small: "length ?data \<le> MAX_PLAINTEXT_LEN" using assms(1) by (simp only: len MAX_PLAINTEXT_LEN_def)
  have "\<exists>ct. encrypt_qq_tea_with_padding ?data (ka_tea_key ka) padding = Inr ct"
    using small pad(2) by (simp add: encrypt_with_padding_Inr)
  then obtain ct where ct: "encrypt_qq_tea_with_padding ?data (ka_tea_key ka) padding = Inr ct" by blast
  then have enc: "encrypt_qq_tea fill ?data (ka_tea_key ka) = Inr ct" using pad by (simp add: encrypt_qq_tea_def)
  have ctlen: "length ct \<le> length body + 79"
    using encrypt_with_padding_decrypts [OF ct] padding_len_bounds [of "length ?data"] by (simp add: len)
  let ?w = "\<lparr>wp_profile = p, wp_command = TRANS_EMP_COMMAND, wp_sequence = wt_sequence, wp_uin = 0,
    wp_random_key = random_key, wp_public_key = ka_public_key ka, wp_encrypted = ct\<rparr>"
  have "wtlogin_encode ?w = Inr (wtlogin_layout ?w)"
    unfolding wtlogin_encode_Inr using assms(1-3) ctlen
    by (simp add: prefix_fits_def declared_len_def wtlogin_body_layout_def)
  moreover have "build_transaction command body = Inr (transaction_layout command (replicate 21 0) body)"
    unfolding build_transaction_Inr using assms(1) by simp
  moreover have "build_request_data p unix_seconds (transaction_layout command (replicate 21 0) body) = Inr ?data"
    unfolding build_request_data_Inr using assms(1) by (simp add: transaction_layout_def)
  ultimately show ?thesis by (simp add: seal_qr_body_def enc)
qed


lemma build_fetch_body_succeeds:
  assumes "length (np_package_name (lp_spec p)) \<le> 96" "length (np_pt_version (lp_spec p)) \<le> 32"
    "length (qr_device_guid d) = 16" "length (tlv_d1 encode p d) \<le> 4096"
  shows "build_fetch_body encode p d = Inr (fetch_body_layout encode p d) \<and> length (fetch_body_layout encode p d) \<le> 5000"
proof -
  have small: "MAX_TLV_BODY_LEN \<le> 2 ^ 32" by (simp add: MAX_TLV_BODY_LEN_def)
  note w = run_writer_bytes [OF _ small]
  have fits: "n \<le> 60000 \<Longrightarrow> prefix_fits U16Payload n" for n by (simp add: prefix_fits_def declared_len_def)
  have entries: "list_all (\<lambda>t. length (snd t) \<le> 4096) (fetch_entries encode p d)"
    "length (many_bytes tlv_bytes (fetch_entries encode p d)) \<le> 4700"
    using assms by (simp_all add: fetch_entries_def)
  have all: "list_all (\<lambda>t. prefix_fits U16Payload (length (snd t))) (fetch_entries encode p d)"
    using entries(1) fits unfolding list_all_iff by force
  have len: "length (fetch_entries encode p d) = 7" by (simp add: fetch_entries_def)
  have out: "tlv_writer (bindS (put_u16 (of_nat 7)) (\<lambda>_. write_tlvs (fetch_entries encode p d))) =
      Inr (tlv_layout (fetch_entries encode p d))"
    unfolding tlv_writer_def map_err_Inr w [OF emits_tlvs_after [OF emits_u16]]
    using all entries(2) by (simp add: tlv_layout_def len MAX_TLV_BODY_LEN_def)
  have "tlv_writer (put_tlv_16 p d) = Inr (snd (fetch_entries encode p d ! 0))"
    "tlv_writer put_tlv_1b = Inr (snd (fetch_entries encode p d ! 1))"
    "tlv_writer (put_tlv_1d p) = Inr (snd (fetch_entries encode p d ! 2))"
    unfolding tlv_writer_def map_err_Inr w [OF emits_tlv_16] w [OF emits_tlv_1b] w [OF emits_tlv_1d]
    using assms by (simp_all add: fits fetch_entries_def MAX_TLV_BODY_LEN_def)
  then have tlvs: "build_fetch_tlvs encode p d = Inr (tlv_layout (fetch_entries encode p d))"
    using out by (simp add: build_fetch_tlvs_def fetch_entries_def u16_try_from_def)
  have e: "emits (put_fetch_body p (tlv_layout (fetch_entries encode p d))) True (fetch_body_layout encode p d)"
    unfolding put_fetch_body_def fetch_body_layout_def by (rule emits_conv, (rule emits_intros)+, auto)
  have short: "length (fetch_body_layout encode p d) \<le> 5000"
    using entries(2) by (simp add: fetch_body_layout_def tlv_layout_def)
  have "run_writer MAX_LOGIN_PACKET_LEN (put_fetch_body p (tlv_layout (fetch_entries encode p d))) =
      Inr (fetch_body_layout encode p d)"
    using short by (simp add: run_writer_bytes [OF e] MAX_LOGIN_PACKET_LEN_def)
  with tlvs short show ?thesis by (simp add: build_fetch_body_def)
qed

section \<open>Properties\<close>

text \<open>
  C13: A QR request is what its context says. Every fetch or poll request the builders return is under
  the request's sequence, both refuse a zero sequence or time, and its payload is the WtLogin packet
  of the agreement's public key whose encrypted part, decrypted under the agreed key, is the request
  data around one transaction: the fetch command with the seven device entries, or the poll command
  with the challenge's poll signature.
\<close>

theorem qr_requests_carry:
  "(build_qr_fetch encode fill c = Inr r \<longrightarrow>
      ur_sequence r = qf_sso_sequence c \<and> qf_sso_sequence c \<noteq> 0 \<and> qf_unix_seconds c \<noteq> 0 \<and>
      qr_request_carries (qf_profile c) (qf_wtlogin_sequence c) (qf_unix_seconds c) (qf_random_key c)
        (qf_key_agreement c) QR_FETCH_COMMAND (fetch_body_layout encode (qf_profile c) (qf_device c)) (ur_payload r)) \<and>
   (build_qr_poll fill d = Inr s \<longrightarrow>
      ur_sequence s = qp_sso_sequence d \<and> qp_sso_sequence d \<noteq> 0 \<and> qp_unix_seconds d \<noteq> 0 \<and>
      qc_poll_signature (qp_challenge d) \<noteq> [] \<and>
      qr_request_carries (qp_profile d) (qp_wtlogin_sequence d) (qp_unix_seconds d) (qp_random_key d)
        (qp_key_agreement d) QR_POLL_COMMAND (poll_body_layout (qp_profile d) (qp_challenge d)) (ur_payload s))"
proof (intro conjI impI)
  assume "build_qr_fetch encode fill c = Inr r"
  then obtain body where h: "qf_sso_sequence c \<noteq> 0" "qf_unix_seconds c \<noteq> 0"
    "build_fetch_body encode (qf_profile c) (qf_device c) = Inr body"
    "seal_qr_body fill (qf_profile c) (qf_sso_sequence c) (qf_wtlogin_sequence c) (qf_unix_seconds c)
       (qf_random_key c) (qf_key_agreement c) QR_FETCH_COMMAND body = Inr r"
    by (auto simp: build_qr_fetch_def bindE_Inr split: if_splits)
  from seal_qr_body_Inr [OF h(4)] h(1,2) build_fetch_body_Inr [OF h(3)]
  show "ur_sequence r = qf_sso_sequence c" "qf_sso_sequence c \<noteq> 0" "qf_unix_seconds c \<noteq> 0"
    "qr_request_carries (qf_profile c) (qf_wtlogin_sequence c) (qf_unix_seconds c) (qf_random_key c)
        (qf_key_agreement c) QR_FETCH_COMMAND (fetch_body_layout encode (qf_profile c) (qf_device c)) (ur_payload r)"
    by simp_all
next
  assume "build_qr_poll fill d = Inr s"
  then obtain body where h: "qp_sso_sequence d \<noteq> 0" "qp_unix_seconds d \<noteq> 0" "qc_poll_signature (qp_challenge d) \<noteq> []"
    "build_poll_body (qp_profile d) (qp_challenge d) = Inr body"
    "seal_qr_body fill (qp_profile d) (qp_sso_sequence d) (qp_wtlogin_sequence d) (qp_unix_seconds d)
       (qp_random_key d) (qp_key_agreement d) QR_POLL_COMMAND body = Inr s"
    by (auto simp: build_qr_poll_def bindE_Inr split: if_splits)
  from seal_qr_body_Inr [OF h(5)] h
  show "ur_sequence s = qp_sso_sequence d" "qp_sso_sequence d \<noteq> 0" "qp_unix_seconds d \<noteq> 0"
    "qc_poll_signature (qp_challenge d) \<noteq> []"
    "qr_request_carries (qp_profile d) (qp_wtlogin_sequence d) (qp_unix_seconds d) (qp_random_key d)
        (qp_key_agreement d) QR_POLL_COMMAND (poll_body_layout (qp_profile d) (qp_challenge d)) (ur_payload s)"
    by (auto simp: build_poll_body_Inr)
qed

definition demo_login_profile :: linux_nt_profile where
  "demo_login_profile = \<lparr>lp_spec =
     \<lparr>np_profile_id = replicate 16 1, np_client_version = [0x31], np_app_id = 7, np_sub_app_id = 8, np_qr_app_id = 9,
      np_app_client_version = 5, np_package_name = [0x61], np_operating_system = [0x62], np_pt_version = [0x32],
      np_sso_version = 3, np_misc_bitmap = 4, np_login_sdk = [0x63], np_main_sig_map = 1, np_sub_sig_map = 2,
      np_login_misc_bitmap = 6, np_runtime_abi = 1\<rparr>, lp_slots = []\<rparr>"

definition demo_agreement :: key_agreement where
  "demo_agreement = \<lparr>ka_public_key = replicate 25 2, ka_tea_key = replicate 16 3,
     ka_derive_response_key = (\<lambda>_. Inl InvalidPeer)\<rparr>"

definition demo_qr_device :: qr_device where
  "demo_qr_device = \<lparr>qd_profile = \<lparr>dev_guid = replicate 16 9, dev_mac_address = [], dev_device_name = [0x64], dev_model = [],
     dev_system_kernel = [], dev_kernel_version = [], dev_power = Desktop,
     dev_portrait = \<lparr>dp_archetype = [], dp_profile_category = [], dp_hostname = [], dp_device_name = [],
       dp_hardware_model = [], dp_os_release = [], dp_distro = [], dp_desktop_environment = [], dp_session_type = [],
       dp_login_name = [], dp_network_interface = [], dp_root_filesystem_bytes = [], dp_memory_total_kib = [],
       dp_timezone = []\<rparr>\<rparr>\<rparr>"

definition demo_fetch :: qr_fetch_context where
  "demo_fetch = \<lparr>qf_profile = demo_login_profile, qf_device = demo_qr_device, qf_sso_sequence = 1, qf_wtlogin_sequence = 0,
     qf_unix_seconds = 1000, qf_random_key = replicate 16 4, qf_key_agreement = demo_agreement\<rparr>"

definition demo_poll :: qr_poll_context where
  "demo_poll = \<lparr>qp_profile = demo_login_profile, qp_sso_sequence = 2, qp_wtlogin_sequence = 1, qp_unix_seconds = 1001,
     qp_random_key = replicate 16 4, qp_key_agreement = demo_agreement,
     qp_challenge = \<lparr>qc_poll_signature = [1, 2], qc_query_signature = [0x71]\<rparr>\<rparr>"

lemma demo_poll_builds: "\<exists>s. build_qr_poll (\<lambda>n. Some (replicate n 5)) demo_poll = Inr s"
proof -
  have fill: "\<exists>padding. Some (replicate n (5 :: u8)) = Some padding \<and> length padding = n" for n by simp
  have keys: "length (ka_public_key demo_agreement) = 25" "length (replicate 16 (4 :: u8)) = 16"
    by (simp_all add: demo_agreement_def)
  have b: "build_poll_body demo_login_profile (qp_challenge demo_poll) = Inr (poll_body_layout demo_login_profile (qp_challenge demo_poll))"
    "length (poll_body_layout demo_login_profile (qp_challenge demo_poll)) \<le> 60000"
    by (simp_all add: build_poll_body_Inr demo_poll_def poll_body_layout_def prefix_fits_def declared_len_def MAX_LOGIN_PACKET_LEN_def)
  show ?thesis
    using seal_qr_body_succeeds [OF b(2) keys fill, of demo_login_profile 2 1 1001 QR_POLL_COMMAND] b(1) keys
    by (auto simp: build_qr_poll_def demo_poll_def is_ok_def split: sum.splits)
qed

theorem qr_requests_carry_witness:
  "\<exists>r s. build_qr_fetch (\<lambda>_. [8]) (\<lambda>n. Some (replicate n 5)) demo_fetch = Inr r \<and> ur_sequence r = 1 \<and>
     qr_request_carries demo_login_profile 0 1000 (replicate 16 4) demo_agreement QR_FETCH_COMMAND
       (fetch_body_layout (\<lambda>_. [8]) demo_login_profile demo_qr_device) (ur_payload r) \<and>
     build_qr_poll (\<lambda>n. Some (replicate n 5)) demo_poll = Inr s \<and> ur_sequence s = 2 \<and>
     qr_request_carries demo_login_profile 1 1001 (replicate 16 4) demo_agreement QR_POLL_COMMAND
       (poll_body_layout demo_login_profile (qp_challenge demo_poll)) (ur_payload s)"
proof -
  let ?fill = "\<lambda>n. Some (replicate n 5) :: bytes option"
  have fill: "\<exists>padding. ?fill n = Some padding \<and> length padding = n" for n by simp
  have keys: "length (ka_public_key demo_agreement) = 25" "length (replicate 16 (4 :: u8)) = 16"
    by (simp_all add: demo_agreement_def)
  have f: "build_fetch_body (\<lambda>_. [8]) demo_login_profile demo_qr_device =
      Inr (fetch_body_layout (\<lambda>_. [8]) demo_login_profile demo_qr_device)"
    "length (fetch_body_layout (\<lambda>_. [8]) demo_login_profile demo_qr_device) \<le> 60000"
    using build_fetch_body_succeeds [of demo_login_profile demo_qr_device "\<lambda>_. [8]"]
    by (auto simp: demo_login_profile_def demo_qr_device_def qr_device_guid_def tlv_d1_def)
  obtain r where r: "build_qr_fetch (\<lambda>_. [8]) ?fill demo_fetch = Inr r"
    using seal_qr_body_succeeds [OF f(2) keys fill, of demo_login_profile 1 0 1000 QR_FETCH_COMMAND] f(1) keys
    by (auto simp: build_qr_fetch_def demo_fetch_def is_ok_def split: sum.splits)
  obtain s where s: "build_qr_poll ?fill demo_poll = Inr s"
    using demo_poll_builds by blast
  from qr_requests_carry [of "\<lambda>_. [8]" ?fill demo_fetch r demo_poll s] r s show ?thesis
    by (simp add: demo_fetch_def demo_poll_def)
qed

end
