(* ===== verification/Login_Qr.thy ===== *)
theory Login_Qr
  imports Login_Packet Online
begin

text \<open>
  The QR responses of \<open>crates/qq-login\<close> and the flow they drive: the artifact (\<open>artifact.rs\<close>), the
  WtLogin and transaction envelopes and the fetch response (\<open>qr_packet/response.rs\<close>), the poll response
  (\<open>qr_packet/poll.rs\<close>) and the control events over the login machine (\<open>polling.rs\<close>). SHA-256 and the
  protobuf decoder of \<open>QrResponseInfo\<close> are parameters.
\<close>

section \<open>The QR artifact\<close>

datatype qr_artifact_error = InvalidUrl | InvalidPng | InvalidLifetime | MatrixEncoding

definition MAX_QR_URL_LEN :: nat where
  "MAX_QR_URL_LEN = 2048"

definition MAX_QR_PNG_LEN :: nat where
  "MAX_QR_PNG_LEN = 1024 * 1024"

definition MAX_QR_LIFETIME_SECONDS :: nat where
  "MAX_QR_LIFETIME_SECONDS = 15 * 60"

definition PNG_SIGNATURE :: bytes where
  "PNG_SIGNATURE = [0x89, 0x50, 0x4E, 0x47, 0x0D, 0x0A, 0x1A, 0x0A]"

record qr_artifact =
  qa_url :: rstr
  qa_png :: bytes
  qa_png_sha256 :: bytes
  qa_issued_at_ms :: u64
  qa_expires_at_ms :: u64

definition valid_url :: "rstr \<Rightarrow> bool" where
  "valid_url url \<longleftrightarrow> starts_with (lit ''https://'') url \<and> length url \<le> MAX_QR_URL_LEN \<and> list_all is_ascii_graphic url"

definition valid_png :: "bytes \<Rightarrow> bool" where
  "valid_png png \<longleftrightarrow> length PNG_SIGNATURE < length png \<and> length png \<le> MAX_QR_PNG_LEN \<and>
     take (length PNG_SIGNATURE) png = PNG_SIGNATURE"

definition u64_checked_mul :: "u64 \<Rightarrow> u64 \<Rightarrow> u64 option" where
  "u64_checked_mul a b = (if unat a * unat b < 2 ^ 64 then Some (a * b) else None)"

definition qr_artifact_new ::
  "(bytes \<Rightarrow> bytes) \<Rightarrow> rstr \<Rightarrow> bytes \<Rightarrow> u64 \<Rightarrow> u32 \<Rightarrow> qr_artifact_error + qr_artifact" where
  "qr_artifact_new sha256 url png issued_at_ms lifetime_seconds =
     (if \<not> valid_url url then Inl InvalidUrl
      else if \<not> valid_png png then Inl InvalidPng
      else if lifetime_seconds = 0 \<or> MAX_QR_LIFETIME_SECONDS < unat lifetime_seconds then Inl InvalidLifetime
      else bindE (ok_or InvalidLifetime (u64_checked_mul (ucast lifetime_seconds) 1000)) (\<lambda>lifetime_ms.
           bindE (ok_or InvalidLifetime (u64_checked_add issued_at_ms lifetime_ms)) (\<lambda>expires_at_ms.
           Inr \<lparr>qa_url = url, qa_png = png, qa_png_sha256 = sha256 png, qa_issued_at_ms = issued_at_ms,
                qa_expires_at_ms = expires_at_ms\<rparr>)))"

definition qr_is_expired_at :: "qr_artifact \<Rightarrow> u64 \<Rightarrow> bool" where
  "qr_is_expired_at a now_ms \<longleftrightarrow> qa_expires_at_ms a \<le> now_ms"

text \<open>\<open>terminal_text\<close>: the QR matrix renderer is a parameter; it fails when the URL exceeds its capacity.\<close>

definition qr_terminal_text :: "(rstr \<Rightarrow> rstr option) \<Rightarrow> qr_artifact \<Rightarrow> qr_artifact_error + rstr" where
  "qr_terminal_text render a = ok_or MatrixEncoding (render (qa_url a))"

section \<open>Response envelopes\<close>

record qr_response_context =
  rc_app_id :: u32
  rc_issued_at_ms :: u64
  rc_random_key :: tea_key
  rc_key_agreement :: key_agreement

abbreviation qw :: "(wire_reader, wire_error, 'a) op \<Rightarrow> (wire_reader, qr_packet_error, 'a) op" where
  "qw \<equiv> map_errS qr_from_wire"

abbreviation qguard :: "bool \<Rightarrow> (wire_reader, qr_packet_error, unit) op" where
  "qguard c \<equiv> liftS (guardE c QInvalidField)"

text \<open>\<open>read_bytes(remaining() - 1)\<close> with the subtraction checked.\<close>

definition read_but_last :: "'e \<Rightarrow> (wire_error \<Rightarrow> 'e) \<Rightarrow> (wire_reader, 'e, bytes) op" where
  "read_but_last e g r =
     (if rd_remaining r = 0 then (Inl e, r) else map_errS g (read_bytes (rd_remaining r - 1)) r)"

definition read_wtlogin_reply :: "nat \<Rightarrow> (wire_reader, qr_packet_error, u8 \<times> u8 \<times> bytes) op" where
  "read_wtlogin_reply payload_len =
     bindS (qw read_u8) (\<lambda>start.
     bindS (qguard (start = 2)) (\<lambda>_.
     bindS (qw read_u16) (\<lambda>internal_len.
     bindS (qguard (unat internal_len = payload_len)) (\<lambda>_.
     bindS (qw read_u16) (\<lambda>version.
     bindS (qguard (version = WTLOGIN_VERSION)) (\<lambda>_.
     bindS (qw read_u16) (\<lambda>command.
     bindS (qguard (command = TRANS_EMP_COMMAND)) (\<lambda>_.
     bindS (qw read_u16) (\<lambda>sequence.
     bindS (qw read_u32) (\<lambda>uin.
     bindS (qguard (uin = 0)) (\<lambda>_.
     bindS (qw read_u8) (\<lambda>flag.
     bindS (qw read_u8) (\<lambda>encryption.
     bindS (qw read_u8) (\<lambda>state.
     bindS (read_but_last QInvalidField qr_from_wire) (\<lambda>encrypted.
     bindS (qw read_u8) (\<lambda>end_mark.
     bindS (qguard (end_mark = 3)) (\<lambda>_.
     bindS (qw finish_op) (\<lambda>_.
     retS (encryption, state, encrypted)))))))))))))))))))"

definition read_ephemeral :: "(wire_reader, qr_packet_error, bytes \<times> bytes) op" where
  "read_ephemeral =
     bindS (qw (read_prefixed_bytes U16Payload 256)) (\<lambda>peer_public.
     bindS (qguard (peer_public \<noteq> [])) (\<lambda>_.
     bindS (check_remaining (\<lambda>n. n \<noteq> 0) QInvalidField) (\<lambda>_.
     bindS (qw read_rest) (\<lambda>inner.
     bindS (qw finish_op) (\<lambda>_.
     retS (peer_public, inner))))))"

definition decrypt_ephemeral_response :: "bytes \<Rightarrow> key_agreement \<Rightarrow> qr_packet_error + bytes" where
  "decrypt_ephemeral_response encrypted ka =
     bindE (map_err qr_from_tea (decrypt_qq_tea encrypted (ka_tea_key ka))) (\<lambda>outer.
     bindE (run_reader read_ephemeral outer) (\<lambda>(peer_public, inner).
     bindE (map_err (\<lambda>_. QCrypto) (ka_derive_response_key ka peer_public)) (\<lambda>response_key.
     map_err qr_from_tea (decrypt_qq_tea inner response_key))))"

definition decrypt_reply :: "qr_response_context \<Rightarrow> u8 \<Rightarrow> u8 \<Rightarrow> bytes \<Rightarrow> qr_packet_error + bytes" where
  "decrypt_reply c encryption state encrypted =
     (if encryption = 0 then
        map_err qr_from_tea (decrypt_qq_tea encrypted
          (if state = 180 then rc_random_key c else ka_tea_key (rc_key_agreement c)))
      else if encryption = 4 then decrypt_ephemeral_response encrypted (rc_key_agreement c)
      else Inl QInvalidField)"

definition read_code2d_outer :: "(wire_reader, qr_packet_error, bytes) op" where
  "read_code2d_outer =
     bindS (qw read_u8) (\<lambda>outer_flag.
     bindS (qw read_u8) (\<lambda>zero.
     bindS (qguard (zero = 0)) (\<lambda>_.
     bindS (qw read_u16) (\<lambda>layer_len.
     bindS (qw read_u8) (\<lambda>outer_state.
     bindS (qw (read_bytes (unat layer_len))) (\<lambda>transaction.
     bindS (qw finish_op) (\<lambda>_.
     retS transaction)))))))"

definition read_transaction :: "u16 \<Rightarrow> (wire_reader, qr_packet_error, bytes) op" where
  "read_transaction expected_command =
     bindS (qw read_u8) (\<lambda>start.
     bindS (qguard (start = 2)) (\<lambda>_.
     bindS (qw read_u16) (\<lambda>declared.
     bindS (check_remaining (\<lambda>n. unat declared = n + 3) QInvalidField) (\<lambda>_.
     bindS (qw read_u16) (\<lambda>command.
     bindS (qguard (command = expected_command)) (\<lambda>_.
     bindS (qw (read_bytes 21)) (\<lambda>reserved.
     bindS (qw read_u8) (\<lambda>three.
     bindS (qguard (three = 3)) (\<lambda>_.
     bindS (qw read_u16) (\<lambda>a.
     bindS (qguard (a = 0)) (\<lambda>_.
     bindS (qw read_u16) (\<lambda>b.
     bindS (qguard (b = 0x32)) (\<lambda>_.
     bindS (qw read_u32) (\<lambda>c.
     bindS (qguard (c = 0)) (\<lambda>_.
     bindS (qw read_u64) (\<lambda>d.
     bindS (qguard (d = 0)) (\<lambda>_.
     bindS (read_but_last QInvalidField qr_from_wire) (\<lambda>body.
     bindS (qw read_u8) (\<lambda>end_mark.
     bindS (qguard (end_mark = 3)) (\<lambda>_.
     bindS (qw finish_op) (\<lambda>_.
     retS body)))))))))))))))))))))"

definition decode_code2d_body :: "bytes \<Rightarrow> u16 \<Rightarrow> qr_packet_error + bytes" where
  "decode_code2d_body payload expected_command =
     bindE (run_reader read_code2d_outer payload) (run_reader (read_transaction expected_command))"

definition decode_wtlogin_body :: "bytes \<Rightarrow> qr_response_context \<Rightarrow> u16 \<Rightarrow> qr_packet_error + bytes" where
  "decode_wtlogin_body payload c expected_command =
     (if MAX_LOGIN_PACKET_LEN < length payload then Inl QInvalidField
      else bindE (run_reader (read_wtlogin_reply (length payload)) payload) (\<lambda>(encryption, state, encrypted).
           bindE (decrypt_reply c encryption state encrypted) (\<lambda>code2d.
           decode_code2d_body code2d expected_command)))"

section \<open>Layouts of the envelopes\<close>

definition wtlogin_reply :: "u16 \<Rightarrow> u16 \<Rightarrow> u32 \<Rightarrow> bytes \<Rightarrow> bytes \<Rightarrow> bytes" where
  "wtlogin_reply command sequence uin flags encrypted =
     2 # to_be 2 (of_nat (length flags + length encrypted + 14) :: u16) @ to_be 2 WTLOGIN_VERSION @ to_be 2 command @
     to_be 2 sequence @ to_be 4 uin @ flags @ encrypted @ [3]"

lemma length_wtlogin_reply: "length (wtlogin_reply command sequence uin flags encrypted) = length flags + length encrypted + 14"
  by (simp add: wtlogin_reply_def)

definition code2d_layout :: "u8 \<Rightarrow> u8 \<Rightarrow> bytes \<Rightarrow> bytes" where
  "code2d_layout flag state transaction =
     [flag, 0] @ to_be 2 (of_nat (length transaction) :: u16) @ [state] @ transaction"

lemma accepts_but_last:
  "accepts (read_but_last e g) (\<lambda>a xs ys. xs = a \<and> length ys = 1)"
  unfolding accepts_def
proof (intro allI impI)
  fix r a r'
  assume ok: "rd_ok r"
  show "read_but_last e g r = (Inr a, r') \<longleftrightarrow>
    (\<exists>xs ys. rd_rest r = xs @ ys \<and> r' = advance (length xs) r \<and> xs = a \<and> length ys = 1)"
  proof (cases "rd_rest r = []")
    case True
    then show ?thesis by (auto simp: read_but_last_def rd_remaining_rest)
  next
    case False
    then have n: "rd_remaining r \<noteq> 0" by (simp add: rd_remaining_rest)
    have "read_but_last e g r = (Inr a, r') \<longleftrightarrow> (\<exists>xs ys. rd_rest r = xs @ ys \<and> r' = advance (length xs) r \<and>
        length a = rd_remaining r - 1 \<and> xs = a)"
      using acceptsD [OF accepts_map_errS [OF accepts_bytes] ok] n by (simp add: read_but_last_def)
    moreover have "length xs = rd_remaining r - 1 \<longleftrightarrow> length ys = 1" if "rd_rest r = xs @ ys" for xs ys
      using n arg_cong [OF that, of length] by (cases xs; cases ys) (simp_all add: rd_remaining_rest)
    ultimately show ?thesis by blast
  qed
qed

lemma accepts_seq_but_last:
  assumes "\<And>a. accepts (f a) (Q a)"
  shows "accepts (bindS (read_but_last e g) f) (\<lambda>b zs ws. \<exists>a ys. zs = a @ ys \<and> length (ys @ ws) = 1 \<and> Q a b ys ws)"
  by (rule back_subst [of "accepts _", OF accepts_bind [OF accepts_but_last assms]]) (auto simp: fun_eq_iff)


lemma to_be_u16_eq: "to_be 2 v = to_be 2 w \<longleftrightarrow> v = (w :: u16)"
  by (metis from_be_u16)

lemma length_one: "length ys = 1 \<longleftrightarrow> (\<exists>y. ys = [y])"
  by (auto simp: length_Suc_conv)

lemmas qr_seq = accepts_seq_guard accepts_seq_check accepts_seq_rest accepts_seq_but_last accepts_seq_finish
  accepts_seq_field [OF field_formD, OF field_form_u8] accepts_seq_field [OF field_formD, OF field_form_u16]
  accepts_seq_field [OF field_formD, OF field_form_u32] accepts_seq_field [OF field_formD, OF field_form_u64]
  accepts_seq_field [OF field_formD, OF field_form_i32]
  accepts_seq_field [OF field_formD, OF field_form_bytes] accepts_seq_field [OF field_formD, OF field_form_prefixed]
  accepts_ret

lemma ex_but_last: "P a [y] \<Longrightarrow> \<exists>a' ys'. a @ [y] = a' @ ys' \<and> length (ys' @ []) = 1 \<and> P a' ys'"
  by force

lemmas ex_u8 = ex_field [where e = "\<lambda>v. [v]"]

definition wtlogin_reply_of :: "nat \<Rightarrow> u16 \<Rightarrow> u8 \<Rightarrow> u8 \<Rightarrow> u8 \<Rightarrow> bytes \<Rightarrow> bytes" where
  "wtlogin_reply_of n sequence flag encryption state encrypted =
     [2] @ to_be 2 (of_nat n :: u16) @ to_be 2 WTLOGIN_VERSION @ to_be 2 TRANS_EMP_COMMAND @ to_be 2 sequence @
     to_be 4 (0 :: u32) @ [flag] @ [encryption] @ [state] @ encrypted @ [3]"

lemma accepts_wtlogin_reply:
  "accepts (read_wtlogin_reply n) (\<lambda>(encryption, state, encrypted) xs ys. ys = [] \<and> n < 2 ^ 16 \<and>
     (\<exists>sequence flag. xs = wtlogin_reply_of n sequence flag encryption state encrypted))"
  unfolding read_wtlogin_reply_def wtlogin_reply_of_def
proof (rule back_subst [of "accepts _"], (rule qr_seq)+, intro ext iffI, goal_cases)
  case (1 v xs ys)
  then show ?case
    by (elim exE conjE) (auto simp: unsigned_less [where 'b = 16, simplified])
next
  case (2 v xs ys)
  obtain encryption state encrypted where v: "v = (encryption, state, encrypted)" by (cases v)
  from 2 [unfolded v prod.case] obtain sequence flag where ys: "ys = []"
    and n: "n < 2 ^ 16" and xs: "xs = [2] @ to_be 2 (of_nat n :: u16) @ to_be 2 WTLOGIN_VERSION @ to_be 2 TRANS_EMP_COMMAND @
      to_be 2 (sequence :: u16) @ to_be 4 (0 :: u32) @ [flag] @ [encryption] @ [state] @ encrypted @ [3]"
    by blast
  show ?case
    unfolding xs ys v
    by (intro ex_but_last ex_u8 ex_field conjI TrueI refl) (use n in \<open>auto simp: unat_of_nat\<close>)
qed


lemma accepts_transaction:
  "accepts (read_transaction command) (\<lambda>body xs ys. ys = [] \<and> length body + 44 < 2 ^ 16 \<and>
     (\<exists>reserved. length reserved = 21 \<and> xs = transaction_layout command reserved body))"
  unfolding read_transaction_def
proof (rule back_subst [of "accepts _"], (rule qr_seq)+, intro ext iffI, goal_cases)
  case (1 body xs ys)
  then obtain declared :: u16 and reserved where d: "unat declared = length body + 44" "length reserved = 21" "ys = []"
    "xs = [2] @ to_be 2 declared @ to_be 2 command @ reserved @ [3] @ to_be 2 (0 :: u16) @ to_be 2 (0x32 :: u16) @
      to_be 4 (0 :: u32) @ to_be 8 (0 :: u64) @ body @ [3]"
    by (elim exE conjE) (auto simp: to_be_u16_eq add.commute)
  moreover from d(1) have "declared = of_nat (length body + 44)" "length body + 44 < 2 ^ 16"
    using unsigned_less [of declared, where 'a = nat] of_nat_unat_id [of declared] by simp_all
  ultimately show ?case
    by (intro conjI exI [of _ reserved]) (simp_all add: transaction_layout_def add.commute)
next
  case (2 body xs ys)
  then obtain reserved where ys: "ys = []" and len: "length body + 44 < 2 ^ 16" "length reserved = 21"
    and xs: "xs = [2] @ to_be 2 (of_nat (length body + 44) :: u16) @ to_be 2 command @ reserved @ [3] @ to_be 2 (0 :: u16) @
      to_be 2 (0x32 :: u16) @ to_be 4 (0 :: u32) @ to_be 8 (0 :: u64) @ body @ [3]"
    by (auto simp: transaction_layout_def add.commute)
  have n: "unat (of_nat (length body + 44) :: u16) = length body + 44"
    using len(1) by (intro of_nat_inverse [OF refl]) simp
  then have n': "unat (of_nat (length body) + 44 :: u16) = 44 + length body" by (simp add: add.commute)
  show ?case
    unfolding xs ys
    by (intro ex_but_last ex_u8 ex_field [where e = "\<lambda>b :: bytes. b"] ex_field conjI TrueI refl) (simp_all add: n' len)
qed

lemma accepts_code2d_outer:
  "accepts read_code2d_outer (\<lambda>t xs ys. ys = [] \<and> length t < 2 ^ 16 \<and> (\<exists>flag state. xs = code2d_layout flag state t))"
  unfolding read_code2d_outer_def
proof (rule back_subst [of "accepts _"], (rule qr_seq)+, intro ext iffI, goal_cases)
  case (1 t xs ys)
  then show ?case
    by (elim exE conjE) (auto simp: code2d_layout_def unsigned_less [where 'b = 16, simplified])
next
  case (2 t xs ys)
  then obtain flag state where ys: "ys = []" and len: "length t < 2 ^ 16"
    and xs: "xs = [flag] @ [0] @ to_be 2 (of_nat (length t) :: u16) @ [state] @ t @ []"
    by (auto simp: code2d_layout_def)
  have n: "unat (of_nat (length t) :: u16) = length t"
    using len by (intro of_nat_inverse [OF refl]) simp
  show ?case
    unfolding xs ys
    by (intro ex_u8 ex_field [where e = "\<lambda>b :: bytes. b"] ex_field conjI TrueI refl) (simp_all add: n)
qed

lemma accepts_ephemeral:
  "accepts read_ephemeral (\<lambda>(peer, inner) xs ys. ys = [] \<and> peer \<noteq> [] \<and> length peer \<le> 256 \<and> inner \<noteq> [] \<and>
     xs = prefixed U16Payload peer @ inner)"
  unfolding read_ephemeral_def
  by (rule back_subst [of "accepts _"], (rule qr_seq)+)
    (auto simp: fun_eq_iff prefix_fits_def declared_len_def)

lemma decode_code2d_body_Inr:
  assumes "slice_ok payload"
  shows "decode_code2d_body payload command = Inr body \<longleftrightarrow>
    (\<exists>flag state reserved. length reserved = 21 \<and> length body + 44 < 2 ^ 16 \<and>
       payload = code2d_layout flag state (transaction_layout command reserved body))"
proof -
  have small: "length t < 2 ^ 16 \<Longrightarrow> slice_ok t" for t :: bytes by (simp add: slice_ok_def)
  have t: "run_reader (read_transaction command) t = Inr body \<longleftrightarrow> length body + 44 < 2 ^ 16 \<and>
      (\<exists>reserved. length reserved = 21 \<and> t = transaction_layout command reserved body)" if "length t < 2 ^ 16" for t
    unfolding run_reader_Inr [OF accepts_transaction small [OF that]] by auto
  have outer: "run_reader read_code2d_outer payload = Inr t \<longleftrightarrow> length t < 2 ^ 16 \<and>
      (\<exists>flag state. payload = code2d_layout flag state t)" for t
    unfolding run_reader_Inr [OF accepts_code2d_outer assms] by auto
  show ?thesis
  proof
    assume "decode_code2d_body payload command = Inr body"
    with t show "\<exists>flag state reserved. length reserved = 21 \<and> length body + 44 < 2 ^ 16 \<and>
        payload = code2d_layout flag state (transaction_layout command reserved body)"
      unfolding decode_code2d_body_def bindE_Inr outer by blast
  next
    assume "\<exists>flag state reserved. length reserved = 21 \<and> length body + 44 < 2 ^ 16 \<and>
        payload = code2d_layout flag state (transaction_layout command reserved body)"
    then obtain flag state reserved where r: "length reserved = 21" "length body + 44 < 2 ^ 16"
      and p: "payload = code2d_layout flag state (transaction_layout command reserved body)" by blast
    then have "length (transaction_layout command reserved body) < 2 ^ 16" by (simp add: transaction_layout_def)
    with r p t outer show "decode_code2d_body payload command = Inr body"
      unfolding decode_code2d_body_def bindE_Inr by blast
  qed
qed

text \<open>
  The plaintext of an encrypted part: encryption 0 is under the random key in state 180 and under the
  agreed key otherwise; encryption 4 carries the server's public value under the agreed key and the
  rest under the key derived from it.
\<close>

definition reply_plaintext :: "qr_response_context \<Rightarrow> u8 \<Rightarrow> u8 \<Rightarrow> bytes \<Rightarrow> bytes \<Rightarrow> bool" where
  "reply_plaintext c encryption state encrypted plain \<longleftrightarrow>
     (encryption = 0 \<and> decrypt_qq_tea encrypted
        (if state = 180 then rc_random_key c else ka_tea_key (rc_key_agreement c)) = Inr plain) \<or>
     (encryption = 4 \<and> (\<exists>peer inner key.
        decrypt_qq_tea encrypted (ka_tea_key (rc_key_agreement c)) = Inr (prefixed U16Payload peer @ inner) \<and>
        peer \<noteq> [] \<and> length peer \<le> 256 \<and> inner \<noteq> [] \<and>
        ka_derive_response_key (rc_key_agreement c) peer = Inr key \<and> decrypt_qq_tea inner key = Inr plain))"

lemma tea_plaintext_small: "decrypt_qq_tea ct key = Inr pt \<Longrightarrow> slice_ok pt"
  using tea_plaintext_shorter [of ct key pt]
  by (auto simp: slice_ok_def decrypt_qq_tea_def encrypted_bound_def MAX_PLAINTEXT_LEN_def split: if_splits)

lemma decrypt_reply_Inr:
  "decrypt_reply c encryption state encrypted = Inr plain \<longleftrightarrow> reply_plaintext c encryption state encrypted plain"
proof -
  have e: "decrypt_ephemeral_response encrypted ka = Inr plain \<longleftrightarrow> (\<exists>peer inner key.
        decrypt_qq_tea encrypted (ka_tea_key ka) = Inr (prefixed U16Payload peer @ inner) \<and>
        peer \<noteq> [] \<and> length peer \<le> 256 \<and> inner \<noteq> [] \<and>
        ka_derive_response_key ka peer = Inr key \<and> decrypt_qq_tea inner key = Inr plain)" for ka
  proof (cases "decrypt_qq_tea encrypted (ka_tea_key ka)")
    case (Inl a)
    then show ?thesis by (simp add: decrypt_ephemeral_response_def)
  next
    case (Inr outer)
    have "run_reader read_ephemeral outer = Inr (peer, inner) \<longleftrightarrow> peer \<noteq> [] \<and> length peer \<le> 256 \<and> inner \<noteq> [] \<and>
        outer = prefixed U16Payload peer @ inner" for peer inner
      unfolding run_reader_Inr [OF accepts_ephemeral tea_plaintext_small [OF Inr]] by auto
    with Inr show ?thesis
      by (simp add: decrypt_ephemeral_response_def bindE_Inr map_err_Inr) blast
  qed
  show ?thesis
    by (simp add: decrypt_reply_def reply_plaintext_def map_err_Inr e)
qed

text \<open>What a payload must be for \<open>decode_wtlogin_body\<close> to return a body.\<close>

definition qr_reply :: "qr_response_context \<Rightarrow> u16 \<Rightarrow> bytes \<Rightarrow> bytes \<Rightarrow> bool" where
  "qr_reply c command payload body \<longleftrightarrow>
     (\<exists>sequence flag encryption state encrypted flag' state' reserved.
        length payload < 2 ^ 16 \<and>
        payload = wtlogin_reply_of (length payload) sequence flag encryption state encrypted \<and>
        reply_plaintext c encryption state encrypted
          (code2d_layout flag' state' (transaction_layout command reserved body)) \<and>
        length reserved = 21 \<and> length body + 44 < 2 ^ 16)"

lemma decode_wtlogin_body_Inr:
  "decode_wtlogin_body payload c command = Inr body \<longleftrightarrow> qr_reply c command payload body"
proof (cases "length payload \<le> MAX_LOGIN_PACKET_LEN")
  case False
  then show ?thesis by (auto simp: decode_wtlogin_body_def qr_reply_def MAX_LOGIN_PACKET_LEN_def)
next
  case True
  then have small: "slice_ok payload" by (simp add: slice_ok_def MAX_LOGIN_PACKET_LEN_def)
  have r: "run_reader (read_wtlogin_reply (length payload)) payload = Inr (encryption, state, encrypted) \<longleftrightarrow>
      length payload < 2 ^ 16 \<and> (\<exists>sequence flag.
        payload = wtlogin_reply_of (length payload) sequence flag encryption state encrypted)" for encryption state encrypted
    unfolding run_reader_Inr [OF accepts_wtlogin_reply small] by auto
  have p: "slice_ok code2d" if "reply_plaintext c encryption state encrypted code2d" for encryption state encrypted code2d
    using that tea_plaintext_small by (auto simp: reply_plaintext_def)
  have d: "decode_wtlogin_body payload c command = Inr body \<longleftrightarrow> (\<exists>encryption state encrypted code2d.
      run_reader (read_wtlogin_reply (length payload)) payload = Inr (encryption, state, encrypted) \<and>
      reply_plaintext c encryption state encrypted code2d \<and> decode_code2d_body code2d command = Inr body)"
    using True by (simp add: decode_wtlogin_body_def bindE_Inr decrypt_reply_Inr split_paired_Ex)
  show ?thesis
  proof
    assume "decode_wtlogin_body payload c command = Inr body"
    then show "qr_reply c command payload body"
      unfolding d r qr_reply_def using decode_code2d_body_Inr [OF p] by (elim exE conjE) fastforce
  next
    assume "qr_reply c command payload body"
    then show "decode_wtlogin_body payload c command = Inr body"
      unfolding d r qr_reply_def using decode_code2d_body_Inr [OF p] by (elim exE conjE) fastforce
  qed
qed


section \<open>Polling\<close>

datatype qr_poll_state = Confirmed | Expired | WaitingForScan | WaitingForConfirmation | Canceled

definition qr_poll_state_try_from :: "u8 \<Rightarrow> u8 + qr_poll_state" where
  "qr_poll_state_try_from v =
     (if v = 0 then Inr Confirmed else if v = 17 then Inr Expired else if v = 48 then Inr WaitingForScan
      else if v = 53 then Inr WaitingForConfirmation else if v = 54 then Inr Canceled else Inl v)"

record qr_login_secrets =
  qs_uin :: u64
  qs_tgtgt_key :: bytes
  qs_temporary_password :: bytes
  qs_no_picture_signature :: bytes

datatype qr_poll_response = PollState qr_poll_state | PollConfirmed qr_login_secrets

type_synonym credential_slots = "bytes option \<times> bytes option \<times> bytes option"

definition credential_step :: "u16 \<Rightarrow> bytes \<Rightarrow> credential_slots \<Rightarrow> qr_packet_error + credential_slots" where
  "credential_step tag body = (\<lambda>(tgtgt_key, temporary_password, no_picture_signature).
     Inr (if tag = 0x01e then (Some body, temporary_password, no_picture_signature)
          else if tag = 0x018 then (tgtgt_key, Some body, no_picture_signature)
          else if tag = 0x019 then (tgtgt_key, temporary_password, Some body)
          else (tgtgt_key, temporary_password, no_picture_signature)))"

definition credentials_of :: "u64 \<Rightarrow> credential_slots \<Rightarrow> qr_packet_error + qr_login_secrets" where
  "credentials_of uin = (\<lambda>(tgtgt_key, temporary_password, no_picture_signature).
     bindE (ok_or QInvalidField tgtgt_key) (\<lambda>tgtgt_key.
     bindE (ok_or QInvalidField temporary_password) (\<lambda>temporary_password.
     bindE (ok_or QInvalidField no_picture_signature) (\<lambda>no_picture_signature.
     if tgtgt_key = [] \<or> temporary_password = [] \<or> no_picture_signature = [] then Inl QInvalidField
     else Inr \<lparr>qs_uin = uin, qs_tgtgt_key = tgtgt_key, qs_temporary_password = temporary_password,
               qs_no_picture_signature = no_picture_signature\<rparr>))))"

definition parse_credentials :: "u64 \<Rightarrow> (wire_reader, qr_packet_error, qr_login_secrets) op" where
  "parse_credentials uin =
     bindS (read_tlv_fold qr_from_wire QInvalidField credential_step (None, None, None)) (\<lambda>slots.
     liftS (credentials_of uin slots))"

definition read_poll_response :: "u32 \<Rightarrow> (wire_reader, qr_packet_error, qr_poll_response) op" where
  "read_poll_response app_id =
     bindS (qw read_u16) (\<lambda>zero.
     bindS (qguard (zero = 0)) (\<lambda>_.
     bindS (qw read_u32) (\<lambda>app.
     bindS (qguard (app = app_id)) (\<lambda>_.
     bindS (qw read_u8) (\<lambda>value.
     bindS (liftS (map_err (\<lambda>_. QInvalidField) (qr_poll_state_try_from value))) (\<lambda>state.
     if state \<noteq> Confirmed then retS (PollState state)
     else bindS (qw read_u64) (\<lambda>uin.
          bindS (qw read_i32) (\<lambda>retry.
          bindS (qguard (uin \<noteq> 0)) (\<lambda>_.
          bindS (parse_credentials uin) (\<lambda>secrets.
          bindS (qw finish_op) (\<lambda>_.
          retS (PollConfirmed secrets))))))))))))"

definition decode_qr_poll_response :: "bytes \<Rightarrow> qr_response_context \<Rightarrow> qr_packet_error + qr_poll_response" where
  "decode_qr_poll_response payload c =
     bindE (decode_wtlogin_body payload c QR_POLL_COMMAND) (run_reader (read_poll_response (rc_app_id c)))"

lemma fold_credentials:
  "fold_tlvs credential_step ts (a, b, c) = Inr slots \<Longrightarrow> distinct (map fst ts) \<Longrightarrow>
   slots = (case map_of ts 0x01e of None \<Rightarrow> a | Some v \<Rightarrow> Some v,
            case map_of ts 0x018 of None \<Rightarrow> b | Some v \<Rightarrow> Some v,
            case map_of ts 0x019 of None \<Rightarrow> c | Some v \<Rightarrow> Some v)"
proof (induction ts arbitrary: a b c)
  case Nil
  then show ?case by simp
next
  case (Cons t ts)
  then show ?case
    by (cases t) (auto simp: credential_step_def map_of_eq_None_iff [symmetric] split: if_splits option.splits
        dest!: Cons.IH)
qed

lemma fold_credentials_total: "\<exists>slots. fold_tlvs credential_step ts acc = Inr slots"
  by (induction ts arbitrary: acc) (auto simp: credential_step_def split: prod.splits)

text \<open>The secrets the entries of a collection determine.\<close>

definition secrets_in :: "tlv list \<Rightarrow> u64 \<Rightarrow> qr_login_secrets \<Rightarrow> bool" where
  "secrets_in ts uin s \<longleftrightarrow> qs_uin s = uin \<and> map_of ts 0x01e = Some (qs_tgtgt_key s) \<and>
     map_of ts 0x018 = Some (qs_temporary_password s) \<and> map_of ts 0x019 = Some (qs_no_picture_signature s) \<and>
     qs_tgtgt_key s \<noteq> [] \<and> qs_temporary_password s \<noteq> [] \<and> qs_no_picture_signature s \<noteq> []"

lemma credentials_iff:
  assumes "distinct (map fst ts)"
  shows "(\<exists>slots. fold_tlvs credential_step ts (None, None, None) = Inr slots \<and> credentials_of uin slots = Inr s) \<longleftrightarrow>
    secrets_in ts uin s"
proof -
  obtain slots where slots: "fold_tlvs credential_step ts (None, None, None) = Inr slots"
    using fold_credentials_total by blast
  have "slots = (map_of ts 0x01e, map_of ts 0x018, map_of ts 0x019)"
    unfolding fold_credentials [OF slots assms] by (simp split: option.splits)
  with slots show ?thesis
    by (cases s) (auto simp: credentials_of_def bindE_Inr ok_or_Inr secrets_in_def)
qed

lemma accepts_parse_credentials:
  "accepts (parse_credentials uin) (\<lambda>s xs ys. \<exists>ts. tlv_collection_ok ts \<and> xs = tlv_layout ts \<and> secrets_in ts uin s)"
  unfolding parse_credentials_def
proof (rule back_subst [of "accepts _", OF accepts_bind [OF accepts_read_tlv_fold accepts_lift]], intro ext iffI, goal_cases)
  case (1 s xs ys)
  then obtain ts slots where "tlv_collection_ok ts" "xs = tlv_layout ts"
    "fold_tlvs credential_step ts (None, None, None) = Inr slots" "credentials_of uin slots = Inr s" by auto
  with credentials_iff [of ts uin s] show ?case by (auto simp: tlv_collection_ok_def)
next
  case (2 s xs ys)
  then obtain ts where ts: "tlv_collection_ok ts" "xs = tlv_layout ts" "secrets_in ts uin s" by blast
  with credentials_iff [of ts uin s] obtain slots where
    "fold_tlvs credential_step ts (None, None, None) = Inr slots" "credentials_of uin slots = Inr s"
    by (auto simp: tlv_collection_ok_def)
  with ts show ?case by (intro exI [of _ slots] exI [of _ xs] exI [of _ "[]"]) auto
qed

lemma secrets_in_uin: "secrets_in ts uin s \<Longrightarrow> uin = qs_uin s"
  by (simp add: secrets_in_def)

lemma poll_state_Confirmed: "qr_poll_state_try_from v = Inr Confirmed \<longleftrightarrow> v = 0"
  by (auto simp: qr_poll_state_try_from_def split: if_splits)

lemma accepts_poll_response:
  "accepts (read_poll_response app_id) (\<lambda>r xs ys. \<exists>rest. xs = to_be 2 (0 :: u16) @ to_be 4 app_id @ rest \<and>
     (case r of
        PollState state \<Rightarrow> \<exists>value. rest = [value] \<and> qr_poll_state_try_from value = Inr state \<and> state \<noteq> Confirmed
      | PollConfirmed s \<Rightarrow> ys = [] \<and> (\<exists>retry ts. rest = 0 # to_be 8 (qs_uin s) @ to_be 4 (retry :: i32) @ tlv_layout ts \<and>
          qs_uin s \<noteq> 0 \<and> tlv_collection_ok ts \<and> secrets_in ts (qs_uin s) s)))"
  unfolding read_poll_response_def
proof (rule back_subst [of "accepts _"],
    (rule qr_seq accepts_seq_lift accepts_if accepts_bind [OF accepts_parse_credentials])+, intro ext iffI, goal_cases)
  case (1 r xs ys)
  then show ?case
    by (elim exE conjE) (auto simp: map_err_Inr poll_state_Confirmed split: if_splits; frule secrets_in_uin; fastforce)
next
  case (2 r xs ys)
  then obtain rest where xs: "xs = to_be 2 (0 :: u16) @ to_be 4 app_id @ rest"
    and r: "case r of PollState state \<Rightarrow> \<exists>value. rest = [value] \<and> qr_poll_state_try_from value = Inr state \<and> state \<noteq> Confirmed
      | PollConfirmed s \<Rightarrow> ys = [] \<and> (\<exists>retry ts. rest = 0 # to_be 8 (qs_uin s) @ to_be 4 (retry :: i32) @ tlv_layout ts \<and>
          qs_uin s \<noteq> 0 \<and> tlv_collection_ok ts \<and> secrets_in ts (qs_uin s) s)" by blast
  show ?case
  proof (cases r)
    case (PollState state)
    with r obtain v where v: "rest = [v] @ []" "qr_poll_state_try_from v = Inr state" "state \<noteq> Confirmed" by auto
    show ?thesis
      unfolding xs v(1) by (intro ex_u8 ex_field conjI TrueI refl exI [of _ state]) (use v PollState in \<open>simp_all add: map_err_Inr\<close>)
  next
    case (PollConfirmed s)
    with r obtain retry :: i32 and ts where v: "rest = [0] @ to_be 8 (qs_uin s) @ to_be 4 retry @ tlv_layout ts @ []"
      and ok: "ys = []" "qs_uin s \<noteq> 0" "tlv_collection_ok ts" "secrets_in ts (qs_uin s) s" by auto
    show ?thesis
      unfolding xs v
      by (intro ex_u8 ex_field conjI TrueI refl exI [of _ Confirmed])
        (use ok PollConfirmed in \<open>auto simp: map_err_Inr poll_state_Confirmed\<close>)
  qed
qed


lemma qr_reply_small: "qr_reply c command payload body \<Longrightarrow> slice_ok body"
  by (auto simp: qr_reply_def slice_ok_def)

lemma decode_qr_poll_response_Inr:
  "decode_qr_poll_response payload c = Inr r \<longleftrightarrow> (\<exists>xs ys. qr_reply c QR_POLL_COMMAND payload (xs @ ys) \<and>
     (\<exists>rest. xs = to_be 2 (0 :: u16) @ to_be 4 (rc_app_id c) @ rest \<and>
     (case r of
        PollState state \<Rightarrow> \<exists>value. rest = [value] \<and> qr_poll_state_try_from value = Inr state \<and> state \<noteq> Confirmed
      | PollConfirmed s \<Rightarrow> ys = [] \<and> (\<exists>retry ts. rest = 0 # to_be 8 (qs_uin s) @ to_be 4 (retry :: i32) @ tlv_layout ts \<and>
          qs_uin s \<noteq> 0 \<and> tlv_collection_ok ts \<and> secrets_in ts (qs_uin s) s))))"
proof -
  have "decode_qr_poll_response payload c = Inr r \<longleftrightarrow>
      (\<exists>body. qr_reply c QR_POLL_COMMAND payload body \<and> run_reader (read_poll_response (rc_app_id c)) body = Inr r)"
    by (simp add: decode_qr_poll_response_def bindE_Inr decode_wtlogin_body_Inr)
  also have "\<dots> \<longleftrightarrow> (\<exists>body. qr_reply c QR_POLL_COMMAND payload body \<and> (\<exists>xs ys. body = xs @ ys \<and>
     (\<exists>rest. xs = to_be 2 (0 :: u16) @ to_be 4 (rc_app_id c) @ rest \<and>
     (case r of
        PollState state \<Rightarrow> \<exists>value. rest = [value] \<and> qr_poll_state_try_from value = Inr state \<and> state \<noteq> Confirmed
      | PollConfirmed s \<Rightarrow> ys = [] \<and> (\<exists>retry ts. rest = 0 # to_be 8 (qs_uin s) @ to_be 4 (retry :: i32) @ tlv_layout ts \<and>
          qs_uin s \<noteq> 0 \<and> tlv_collection_ok ts \<and> secrets_in ts (qs_uin s) s)))))"
    by (intro ex_cong1 conj_cong refl run_reader_Inr [OF accepts_poll_response] qr_reply_small)
  finally show ?thesis by blast
qed

section \<open>Fetching\<close>

definition MAX_CHALLENGE_LEN :: nat where
  "MAX_CHALLENGE_LEN = 2048"

record qr_response_info =
  qi_url :: rstr
  qi_query_signature :: rstr

record qr_fetch_response =
  fr_artifact :: qr_artifact
  fr_challenge :: qr_challenge

definition read_lifetime :: "(wire_reader, qr_packet_error, u32) op" where
  "read_lifetime =
     bindS (qw read_u32) (\<lambda>seconds.
     bindS (qw read_u16) (\<lambda>minutes.
     bindS (qw finish_op) (\<lambda>_.
     bindS (qguard (seconds \<noteq> 0)) (\<lambda>_.
     retS seconds))))"

definition parse_lifetime :: "bytes \<Rightarrow> qr_packet_error + u32" where
  "parse_lifetime body = run_reader read_lifetime body"

type_synonym fetch_slots = "bytes option \<times> u32 option \<times> qr_response_info option"

definition fetch_step ::
  "(bytes \<Rightarrow> qr_response_info option) \<Rightarrow> u16 \<Rightarrow> bytes \<Rightarrow> fetch_slots \<Rightarrow> qr_packet_error + fetch_slots" where
  "fetch_step info_decode tag body = (\<lambda>(png, lifetime_seconds, info).
     if tag = 0x017 then Inr (Some body, lifetime_seconds, info)
     else if tag = 0x01c then bindE (parse_lifetime body) (\<lambda>seconds. Inr (png, Some seconds, info))
     else if tag = 0x0d1 then
       bindE (ok_or QInvalidField (info_decode body)) (\<lambda>decoded. Inr (png, lifetime_seconds, Some decoded))
     else Inr (png, lifetime_seconds, info))"

definition fetch_parts :: "fetch_slots \<Rightarrow> qr_packet_error + bytes \<times> u32 \<times> qr_response_info" where
  "fetch_parts = (\<lambda>(png, lifetime_seconds, info).
     bindE (ok_or QInvalidField png) (\<lambda>png.
     bindE (ok_or QInvalidField lifetime_seconds) (\<lambda>lifetime_seconds.
     bindE (ok_or QInvalidField info) (\<lambda>info.
     Inr (png, lifetime_seconds, info)))))"

definition read_fetch_response ::
  "(bytes \<Rightarrow> qr_response_info option) \<Rightarrow> (bytes \<Rightarrow> bytes) \<Rightarrow> qr_response_context \<Rightarrow>
   (wire_reader, qr_packet_error, qr_fetch_response) op" where
  "read_fetch_response info_decode sha256 c =
     bindS (qw read_u16) (\<lambda>zero.
     bindS (qguard (zero = 0)) (\<lambda>_.
     bindS (qw read_u32) (\<lambda>app.
     bindS (qguard (app = rc_app_id c)) (\<lambda>_.
     bindS (qw read_u8) (\<lambda>return_code.
     bindS (qguard (return_code = 0)) (\<lambda>_.
     bindS (qw (read_prefixed_bytes U16Payload MAX_CHALLENGE_LEN)) (\<lambda>poll_signature.
     bindS (qguard (poll_signature \<noteq> [])) (\<lambda>_.
     bindS (read_tlv_fold qr_from_wire QInvalidField (fetch_step info_decode) (None, None, None)) (\<lambda>slots.
     bindS (liftS (fetch_parts slots)) (\<lambda>(png, lifetime_seconds, info).
     bindS (qw finish_op) (\<lambda>_.
     bindS (qguard (\<not> (qi_query_signature info = [] \<or> MAX_CHALLENGE_LEN < length (qi_query_signature info)))) (\<lambda>_.
     bindS (liftS (map_err (\<lambda>_. QInvalidField)
       (qr_artifact_new sha256 (qi_url info) png (rc_issued_at_ms c) lifetime_seconds))) (\<lambda>artifact.
     retS \<lparr>fr_artifact = artifact,
           fr_challenge = \<lparr>qc_poll_signature = poll_signature, qc_query_signature = qi_query_signature info\<rparr>\<rparr>)))))))))))))"

definition decode_qr_fetch_response ::
  "(bytes \<Rightarrow> qr_response_info option) \<Rightarrow> (bytes \<Rightarrow> bytes) \<Rightarrow> bytes \<Rightarrow> qr_response_context \<Rightarrow>
   qr_packet_error + qr_fetch_response" where
  "decode_qr_fetch_response info_decode sha256 payload c =
     bindE (decode_wtlogin_body payload c QR_FETCH_COMMAND) (run_reader (read_fetch_response info_decode sha256 c))"

section \<open>The flow\<close>

datatype qr_control_event =
    QrAvailable u64 u64 bytes
  | QrStateChanged u64 login_state login_state

datatype qr_flow_error = QrTransition login_transition_error

definition transition_event ::
  "login_state \<Rightarrow> u64 \<Rightarrow> (login_machine, qr_flow_error, qr_control_event) op" where
  "transition_event next occurred_at_ms =
     bindS (map_errS QrTransition (login_transition next)) (\<lambda>previous.
     retS (QrStateChanged occurred_at_ms previous next))"

definition begin_qr_request :: "u64 \<Rightarrow> (login_machine, qr_flow_error, qr_control_event) op" where
  "begin_qr_request occurred_at_ms = transition_event FetchingQr occurred_at_ms"

definition accept_qr_artifact :: "qr_artifact \<Rightarrow> u64 \<Rightarrow> (login_machine, qr_flow_error, qr_control_event) op" where
  "accept_qr_artifact artifact occurred_at_ms =
     bindS (map_errS QrTransition (login_transition AwaitingScan)) (\<lambda>_.
     retS (QrAvailable occurred_at_ms (qa_expires_at_ms artifact) (qa_png_sha256 artifact)))"

fun next_of_poll :: "qr_poll_state \<Rightarrow> login_state" where
  "next_of_poll Confirmed = ExchangingCredentials"
| "next_of_poll Expired = QrExpired"
| "next_of_poll WaitingForScan = AwaitingScan"
| "next_of_poll WaitingForConfirmation = AwaitingConfirmation"
| "next_of_poll Canceled = QrCanceled"

definition apply_qr_poll :: "qr_poll_state \<Rightarrow> u64 \<Rightarrow> (login_machine, qr_flow_error, qr_control_event) op" where
  "apply_qr_poll state occurred_at_ms = transition_event (next_of_poll state) occurred_at_ms"


section \<open>Properties\<close>

text \<open>
  C8: Temporary credentials are accepted from exactly one shape of response. A poll response is
  decoded as confirmed with given secrets precisely when the payload is a WtLogin reply of its own
  declared length whose part encrypted under a key of this login contains the poll transaction for
  this application, with state 0, the non-zero account number and a collection of distinct, bounded
  entries that holds the three credentials, none of them empty.
\<close>

theorem qr_poll_confirmed_exact:
  "decode_qr_poll_response payload c = Inr (PollConfirmed s) \<longleftrightarrow>
     qs_uin s \<noteq> 0 \<and> (\<exists>retry ts. tlv_collection_ok ts \<and> secrets_in ts (qs_uin s) s \<and>
       qr_reply c QR_POLL_COMMAND payload
         (to_be 2 (0 :: u16) @ to_be 4 (rc_app_id c) @ [0] @ to_be 8 (qs_uin s) @ to_be 4 (retry :: i32) @ tlv_layout ts))"
proof
  assume "decode_qr_poll_response payload c = Inr (PollConfirmed s)"
  then obtain retry :: i32 and ts where
    "qs_uin s \<noteq> 0" "tlv_collection_ok ts" "secrets_in ts (qs_uin s) s"
    "qr_reply c QR_POLL_COMMAND payload
       ((to_be 2 (0 :: u16) @ to_be 4 (rc_app_id c) @ 0 # to_be 8 (qs_uin s) @ to_be 4 retry @ tlv_layout ts) @ [])"
    unfolding decode_qr_poll_response_Inr qr_poll_response.case by blast
  then show "qs_uin s \<noteq> 0 \<and> (\<exists>retry ts. tlv_collection_ok ts \<and> secrets_in ts (qs_uin s) s \<and>
       qr_reply c QR_POLL_COMMAND payload
         (to_be 2 (0 :: u16) @ to_be 4 (rc_app_id c) @ [0] @ to_be 8 (qs_uin s) @ to_be 4 (retry :: i32) @ tlv_layout ts))"
    by (intro conjI exI [of _ retry] exI [of _ ts]) simp_all
next
  assume "qs_uin s \<noteq> 0 \<and> (\<exists>retry ts. tlv_collection_ok ts \<and> secrets_in ts (qs_uin s) s \<and>
       qr_reply c QR_POLL_COMMAND payload
         (to_be 2 (0 :: u16) @ to_be 4 (rc_app_id c) @ [0] @ to_be 8 (qs_uin s) @ to_be 4 (retry :: i32) @ tlv_layout ts))"
  then obtain retry :: i32 and ts where
    "qs_uin s \<noteq> 0" "tlv_collection_ok ts" "secrets_in ts (qs_uin s) s"
    "qr_reply c QR_POLL_COMMAND payload
       ((to_be 2 (0 :: u16) @ to_be 4 (rc_app_id c) @ 0 # to_be 8 (qs_uin s) @ to_be 4 retry @ tlv_layout ts) @ [])"
    by auto
  then show "decode_qr_poll_response payload c = Inr (PollConfirmed s)"
    unfolding decode_qr_poll_response_Inr qr_poll_response.case by blast
qed

end
