(* ===== verification/Login_Credential.thy ===== *)
theory Login_Credential
  imports Login_Qr
begin

text \<open>
  The credential exchange after a confirmed QR login (\<open>crates/qq-login/src/credential\<close>): the request with
  its fifteen entries and the device bundle under the TGTGT key (\<open>request.rs\<close>, \<open>tlv.rs\<close>), and the
  response that yields the session material or a typed rejection (\<open>response.rs\<close>, \<open>model.rs\<close>). The
  protobuf decoder of \<open>UidEnvelope\<close> is a parameter.
\<close>

section \<open>Model\<close>

datatype credential_error =
    CInvalidField
  | InvalidResponseEnvelope
  | InvalidResponseAccount
  | InvalidResponseCommand
  | InvalidResponseTlvs
  | InvalidResponseProfile
  | InvalidResponseUid
  | InvalidResponseSessionKey
  | CWire
  | CCrypto

record credential_session_secrets =
  cs_d2_key :: bytes
  cs_tgt :: bytes
  cs_d2 :: bytes
  cs_temporary_password :: bytes

record credential_login =
  cl_uid :: rstr
  cl_nickname :: rstr
  cl_age :: u8
  cl_gender :: u8
  cl_secrets :: credential_session_secrets

record credential_rejection =
  cj_state :: u8
  cj_tag :: "rstr option"
  cj_message :: "rstr option"

datatype credential_outcome =
    CredentialSuccess credential_login
  | CredentialRejected credential_rejection

definition cred_wire :: "wire_error \<Rightarrow> credential_error" where
  "cred_wire e = CWire"

definition cred_tea :: "tea_error \<Rightarrow> credential_error" where
  "cred_tea e = CCrypto"

section \<open>The request\<close>

definition body_writer :: "nat \<Rightarrow> (wire_writer, wire_error, unit) op \<Rightarrow> credential_error + bytes" where
  "body_writer n m = map_err cred_wire (run_writer n m)"

definition capability_body :: "linux_nt_profile \<Rightarrow> credential_error + bytes" where
  "capability_body p = body_writer 16
     (bindS (put_u8 0) (\<lambda>_.
      bindS (put_u32 (np_login_misc_bitmap (lp_spec p))) (\<lambda>_.
      bindS (put_u32 (np_sub_sig_map (lp_spec p))) (\<lambda>_.
      put_u8 0))))"

definition package_body :: "linux_nt_profile \<Rightarrow> credential_error + bytes" where
  "package_body p = body_writer 128
     (bindS (put_u16 0) (\<lambda>_.
      put_prefixed_bytes U16Payload (np_package_name (lp_spec p))))"

definition account_body :: "u32 \<Rightarrow> credential_error + bytes" where
  "account_body uin = body_writer 32
     (bindS (put_u16 0) (\<lambda>_.
      bindS (put_u32 5) (\<lambda>_.
      bindS (put_u32 0) (\<lambda>_.
      bindS (put_u32 8001) (\<lambda>_.
      bindS (put_u32 uin) (\<lambda>_.
      bindS (put_u16 0) (\<lambda>_.
      put_u16 0)))))))"

definition network_body :: "credential_error + bytes" where
  "network_body = body_writer 32
     (bindS (put_u16 0) (\<lambda>_.
      bindS (put_prefixed_bytes U16Payload (lit ''Unknown'')) (\<lambda>_.
      bindS (put_u16 0) (\<lambda>_.
      put_prefixed_bytes U16Payload []))))"

definition sdk_body :: "linux_nt_profile \<Rightarrow> credential_error + bytes" where
  "sdk_body p = body_writer 96
     (bindS (put_u8 1) (\<lambda>_.
      bindS (put_u32 0) (\<lambda>_.
      put_prefixed_bytes U16Payload (np_login_sdk (lp_spec p)))))"

definition application_body :: "linux_nt_profile \<Rightarrow> credential_error + bytes" where
  "application_body p = body_writer 32
     (bindS (put_u16 0) (\<lambda>_.
      bindS (put_u32 5) (\<lambda>_.
      bindS (put_u32 (np_app_id (lp_spec p))) (\<lambda>_.
      bindS (put_u32 (np_sub_app_id (lp_spec p))) (\<lambda>_.
      bindS (put_u32 (ucast (np_app_client_version (lp_spec p)))) (\<lambda>_.
      put_u32 (np_main_sig_map (lp_spec p))))))))"

definition product_body :: "credential_error + bytes" where
  "product_body = body_writer 32
     (bindS (put_u32 0x13) (\<lambda>_.
      put_prefixed_bytes U16Payload (lit ''basicim'')))"

definition identity_body :: "linux_nt_profile \<Rightarrow> credential_error + bytes" where
  "identity_body p = body_writer 256
     (bindS (put_u32 (np_app_id (lp_spec p))) (\<lambda>_.
      bindS (put_prefixed_bytes U16Payload (np_pt_version (lp_spec p))) (\<lambda>_.
      put_prefixed_bytes U16Payload (np_package_name (lp_spec p)))))"

definition device_body :: "linux_nt_profile \<Rightarrow> qr_device \<Rightarrow> credential_error + bytes" where
  "device_body p d = body_writer 256
     (bindS (put_u16 0) (\<lambda>_.
      bindS (put_u8 0) (\<lambda>_.
      bindS (put_u8 0) (\<lambda>_.
      bindS (put_u8 0) (\<lambda>_.
      bindS (put_u32 0) (\<lambda>_.
      bindS (put_prefixed_bytes U16Payload (np_operating_system (lp_spec p))) (\<lambda>_.
      bindS (put_prefixed_bytes U16Payload (qr_device_guid d)) (\<lambda>_.
      put_u16 0))))))))"

abbreviation ctlv :: "u16 \<Rightarrow> bytes \<Rightarrow> (wire_writer, credential_error, unit) op" where
  "ctlv tag body \<equiv> map_errS cred_wire (write_tlv tag body)"

text \<open>\<open>write_tlv(&mut writer, tag, &body()?)\<close>\<close>

definition body_tlv :: "u16 \<Rightarrow> credential_error + bytes \<Rightarrow> (wire_writer, credential_error, unit) op" where
  "body_tlv tag body = bindS (liftS body) (ctlv tag)"

definition put_device_bundle :: "linux_nt_profile \<Rightarrow> qr_device \<Rightarrow> (wire_writer, credential_error, unit) op" where
  "put_device_bundle p d =
     bindS (map_errS cred_wire (put_u16 4)) (\<lambda>_.
     bindS (ctlv 0x16e (qr_device_name d)) (\<lambda>_.
     bindS (body_tlv 0x147 (identity_body p)) (\<lambda>_.
     bindS (body_tlv 0x128 (device_body p d)) (\<lambda>_.
     ctlv 0x124 (replicate 12 0)))))"

definition encrypted_device_bundle ::
  "(nat \<Rightarrow> bytes option) \<Rightarrow> linux_nt_profile \<Rightarrow> qr_device \<Rightarrow> qr_login_secrets \<Rightarrow> credential_error + bytes" where
  "encrypted_device_bundle fill p d s =
     (if length (qs_tgtgt_key s) \<noteq> 16 then Inl CInvalidField
      else bindE (run_writer MAX_LOGIN_PACKET_LEN
            (put_device_bundle p d)) (\<lambda>sealed.
           map_err cred_tea (encrypt_qq_tea fill sealed (qs_tgtgt_key s))))"

definition LOGIN_TLV_COUNT :: u16 where
  "LOGIN_TLV_COUNT = 15"

definition put_login_tlvs ::
  "(nat \<Rightarrow> bytes option) \<Rightarrow> linux_nt_profile \<Rightarrow> qr_device \<Rightarrow> qr_login_secrets \<Rightarrow> u32 \<Rightarrow>
   (wire_writer, credential_error, unit) op" where
  "put_login_tlvs fill p d s uin =
     bindS (map_errS cred_wire (put_u16 LOGIN_TLV_COUNT)) (\<lambda>_.
     bindS (ctlv 0x106 (qs_temporary_password s)) (\<lambda>_.
     bindS (body_tlv 0x144 (encrypted_device_bundle fill p d s)) (\<lambda>_.
     bindS (body_tlv 0x116 (capability_body p)) (\<lambda>_.
     bindS (body_tlv 0x142 (package_body p)) (\<lambda>_.
     bindS (ctlv 0x145 (qr_device_guid d)) (\<lambda>_.
     bindS (body_tlv 0x018 (account_body uin)) (\<lambda>_.
     bindS (body_tlv 0x141 network_body) (\<lambda>_.
     bindS (body_tlv 0x177 (sdk_body p)) (\<lambda>_.
     bindS (ctlv 0x191 [0]) (\<lambda>_.
     bindS (body_tlv 0x100 (application_body p)) (\<lambda>_.
     bindS (ctlv 0x107 [0, 1, 0x0d, 0, 0, 1]) (\<lambda>_.
     bindS (ctlv 0x318 []) (\<lambda>_.
     bindS (ctlv 0x16a (qs_no_picture_signature s)) (\<lambda>_.
     bindS (ctlv 0x166 [5]) (\<lambda>_.
     body_tlv 0x521 product_body)))))))))))))))"

definition build_login_tlvs ::
  "(nat \<Rightarrow> bytes option) \<Rightarrow> linux_nt_profile \<Rightarrow> qr_device \<Rightarrow> qr_login_secrets \<Rightarrow> u32 \<Rightarrow> credential_error + bytes" where
  "build_login_tlvs fill p d s uin = run_writer MAX_LOGIN_PACKET_LEN (put_login_tlvs fill p d s uin)"

record credential_context =
  cc_profile :: linux_nt_profile
  cc_device :: qr_device
  cc_sso_sequence :: u32
  cc_wtlogin_sequence :: u16
  cc_random_key :: tea_key
  cc_key_agreement :: key_agreement
  cc_secrets :: qr_login_secrets

record credential_request =
  cq_sequence :: u32
  cq_uin :: u32
  cq_payload :: bytes

definition LOGIN_COMMAND :: u16 where
  "LOGIN_COMMAND = 2064"

definition u32_try_from :: "u64 \<Rightarrow> u32 option" where
  "u32_try_from v = (if unat v < 2 ^ 32 then Some (ucast v) else None)"

text \<open>\<open>fill_bundle\<close> and \<open>fill_body\<close> are the two entropy requests, in the order of the calls.\<close>

definition build_credential_exchange ::
  "(nat \<Rightarrow> bytes option) \<Rightarrow> (nat \<Rightarrow> bytes option) \<Rightarrow> credential_context \<Rightarrow> credential_error + credential_request" where
  "build_credential_exchange fill_bundle fill_body c =
     bindE (ok_or CInvalidField (u32_try_from (qs_uin (cc_secrets c)))) (\<lambda>uin.
     if cc_sso_sequence c = 0 \<or> uin = 0 \<or> length (ka_public_key (cc_key_agreement c)) \<noteq> 25 \<or>
        length (qs_tgtgt_key (cc_secrets c)) \<noteq> 16
     then Inl CInvalidField
     else bindE (run_writer MAX_LOGIN_PACKET_LEN
            (bindS (map_errS cred_wire (put_u16 0x09)) (\<lambda>_.
             bindS (liftS (build_login_tlvs fill_bundle (cc_profile c) (cc_device c) (cc_secrets c) uin)) (\<lambda>tlvs.
             map_errS cred_wire (put_bytes tlvs))))) (\<lambda>plaintext.
          bindE (map_err cred_tea (encrypt_qq_tea fill_body plaintext (ka_tea_key (cc_key_agreement c)))) (\<lambda>encrypted.
          bindE (map_err cred_wire (wtlogin_encode
            \<lparr>wp_profile = cc_profile c, wp_command = LOGIN_COMMAND, wp_sequence = cc_wtlogin_sequence c, wp_uin = uin,
             wp_random_key = cc_random_key c, wp_public_key = ka_public_key (cc_key_agreement c),
             wp_encrypted = encrypted\<rparr>)) (\<lambda>payload.
          Inr \<lparr>cq_sequence = cc_sso_sequence c, cq_uin = uin, cq_payload = payload\<rparr>))))"

section \<open>The response\<close>

record uid_layer_two =
  u2_uid :: rstr

record uid_layer_one =
  u1_layer_two :: "uid_layer_two option"

record uid_envelope =
  u0_layer_one :: "uid_layer_one option"

record credential_response_context =
  cx_uin :: u32
  cx_key_agreement :: key_agreement
  cx_tgtgt_key :: bytes

definition MAX_NOTICE_LEN :: nat where
  "MAX_NOTICE_LEN = 2048"

definition MAX_UID_PROTO_LEN :: nat where
  "MAX_UID_PROTO_LEN = 8 * 1024"

definition INTERNAL_COMMAND :: u16 where
  "INTERNAL_COMMAND = 0x09"

abbreviation cw :: "(wire_reader, wire_error, 'a) op \<Rightarrow> (wire_reader, credential_error, 'a) op" where
  "cw \<equiv> map_errS cred_wire"

definition key_from_slice :: "bytes \<Rightarrow> credential_error + tea_key" where
  "key_from_slice bs = (if length bs \<noteq> 16 then Inl CInvalidField else Inr bs)"

definition read_login_reply :: "nat \<Rightarrow> u32 \<Rightarrow> (wire_reader, credential_error, bytes) op" where
  "read_login_reply payload_len expected_uin =
     bindS (cw read_u8) (\<lambda>start.
     bindS (liftS (guardE (start = 2) InvalidResponseEnvelope)) (\<lambda>_.
     bindS (cw read_u16) (\<lambda>internal_len.
     bindS (liftS (guardE (unat internal_len = payload_len) InvalidResponseEnvelope)) (\<lambda>_.
     bindS (cw read_u16) (\<lambda>version.
     bindS (liftS (guardE (version = WTLOGIN_VERSION) InvalidResponseEnvelope)) (\<lambda>_.
     bindS (cw read_u16) (\<lambda>command.
     bindS (liftS (guardE (command = LOGIN_COMMAND) InvalidResponseEnvelope)) (\<lambda>_.
     bindS (cw read_u16) (\<lambda>sequence.
     bindS (cw read_u32) (\<lambda>uin.
     bindS (liftS (guardE (uin = expected_uin) InvalidResponseAccount)) (\<lambda>_.
     bindS (cw read_u8) (\<lambda>flag.
     bindS (cw read_u16) (\<lambda>retry.
     bindS (read_but_last InvalidResponseEnvelope cred_wire) (\<lambda>encrypted.
     bindS (cw read_u8) (\<lambda>end_mark.
     bindS (liftS (guardE (end_mark = 3) InvalidResponseEnvelope)) (\<lambda>_.
     bindS (cw finish_op) (\<lambda>_.
     retS encrypted)))))))))))))))))"

definition decrypt_response_body :: "bytes \<Rightarrow> credential_response_context \<Rightarrow> credential_error + bytes" where
  "decrypt_response_body payload c =
     bindE (run_reader (read_login_reply (length payload) (cx_uin c)) payload) (\<lambda>encrypted.
     map_err cred_tea (decrypt_qq_tea encrypted (ka_tea_key (cx_key_agreement c))))"

definition decode_text :: "bytes \<Rightarrow> credential_error + rstr" where
  "decode_text bs = from_utf8 CInvalidField bs"

definition required_tlv :: "(u16, bytes) btree_map \<Rightarrow> u16 \<Rightarrow> credential_error + bytes" where
  "required_tlv m tag = ok_or InvalidResponseTlvs (btree_get m tag)"

definition required_nonempty :: "(u16, bytes) btree_map \<Rightarrow> u16 \<Rightarrow> credential_error + bytes" where
  "required_nonempty m tag =
     bindE (required_tlv m tag) (\<lambda>body. if body = [] then Inl InvalidResponseTlvs else Inr body)"

definition read_profile :: "(wire_reader, credential_error, u8 \<times> u8 \<times> rstr) op" where
  "read_profile =
     bindS (cw read_u16) (\<lambda>face.
     bindS (cw read_u8) (\<lambda>age.
     bindS (cw read_u8) (\<lambda>gender.
     bindS (cw (read_prefixed_bytes U8Payload 255)) (\<lambda>nickname.
     bindS (cw finish_op) (\<lambda>_.
     bindS (liftS (decode_text nickname)) (\<lambda>nickname.
     retS (age, gender, nickname)))))))"

definition decode_profile :: "bytes \<Rightarrow> credential_error + u8 \<times> u8 \<times> rstr" where
  "decode_profile body = map_err (\<lambda>_. InvalidResponseProfile) (run_reader read_profile body)"

definition decode_uid :: "(bytes \<Rightarrow> uid_envelope option) \<Rightarrow> bytes \<Rightarrow> credential_error + rstr" where
  "decode_uid uid_decode body =
     (if MAX_UID_PROTO_LEN < length body then Inl InvalidResponseUid
      else bindE (ok_or InvalidResponseUid (uid_decode body)) (\<lambda>envelope.
           let uid = Option.bind (Option.bind (u0_layer_one envelope) u1_layer_two)
                 (\<lambda>layer. if u2_uid layer \<noteq> [] \<and> length (u2_uid layer) \<le> MAX_NOTICE_LEN then Some (u2_uid layer) else None)
           in ok_or InvalidResponseUid uid))"

definition read_notice :: "(wire_reader, credential_error, rstr option \<times> rstr option) op" where
  "read_notice =
     bindS (cw read_u32) (\<lambda>state.
     bindS (cw (read_prefixed_bytes U16Payload MAX_NOTICE_LEN)) (\<lambda>tag.
     bindS (cw (read_prefixed_bytes U16Payload MAX_NOTICE_LEN)) (\<lambda>message.
     bindS (cw read_u32) (\<lambda>reserved.
     bindS (cw finish_op) (\<lambda>_.
     bindS (liftS (if tag = [] then Inr None else bindE (decode_text tag) (\<lambda>t. Inr (Some t)))) (\<lambda>tag.
     bindS (liftS (if message = [] then Inr None else bindE (decode_text message) (\<lambda>t. Inr (Some t)))) (\<lambda>message.
     retS (tag, message))))))))"

definition login_of :: "(bytes \<Rightarrow> uid_envelope option) \<Rightarrow> (u16, bytes) btree_map \<Rightarrow> credential_error + credential_login" where
  "login_of uid_decode nested =
     bindE (required_tlv nested 0x11a) (\<lambda>profile.
     bindE (decode_profile profile) (\<lambda>(age, gender, nickname).
     bindE (required_tlv nested 0x543) (\<lambda>uid_body.
     bindE (decode_uid uid_decode uid_body) (\<lambda>uid.
     bindE (required_nonempty nested 0x305) (\<lambda>d2_key.
     if length d2_key \<noteq> 16 then Inl InvalidResponseSessionKey
     else bindE (required_nonempty nested 0x10a) (\<lambda>tgt.
          bindE (required_nonempty nested 0x143) (\<lambda>d2.
          bindE (required_nonempty nested 0x106) (\<lambda>temporary_password.
          Inr \<lparr>cl_uid = uid, cl_nickname = nickname, cl_age = age, cl_gender = gender,
               cl_secrets = \<lparr>cs_d2_key = d2_key, cs_tgt = tgt, cs_d2 = d2,
                 cs_temporary_password = temporary_password\<rparr>\<rparr>))))))))"

definition read_nested :: "(wire_reader, credential_error, (u16, bytes) btree_map) op" where
  "read_nested = bindS (read_tlv_map cred_wire InvalidResponseTlvs) (\<lambda>m. bindS (cw finish_op) (\<lambda>_. retS m))"

definition success_of ::
  "(bytes \<Rightarrow> uid_envelope option) \<Rightarrow> (u16, bytes) btree_map \<Rightarrow> tea_key \<Rightarrow> credential_error + credential_outcome" where
  "success_of uid_decode outer tgtgt_key =
     bindE (required_tlv outer 0x119) (\<lambda>encrypted.
     bindE (map_err cred_tea (decrypt_qq_tea encrypted tgtgt_key)) (\<lambda>plain.
     bindE (run_reader read_nested plain) (\<lambda>nested.
     bindE (login_of uid_decode nested) (\<lambda>l. Inr (CredentialSuccess l)))))"

definition rejection_of :: "(u16, bytes) btree_map \<Rightarrow> u8 \<Rightarrow> credential_error + credential_outcome" where
  "rejection_of tlvs state =
     bindE (case btree_get tlvs 0x146 of None \<Rightarrow> Inr (None, None) | Some body \<Rightarrow> run_reader read_notice body)
       (\<lambda>(tag, message). Inr (CredentialRejected \<lparr>cj_state = state, cj_tag = tag, cj_message = message\<rparr>))"

definition decode_success ::
  "(bytes \<Rightarrow> uid_envelope option) \<Rightarrow> tea_key \<Rightarrow> (wire_reader, credential_error, credential_outcome) op" where
  "decode_success uid_decode tgtgt_key =
     bindS (read_tlv_map cred_wire InvalidResponseTlvs) (\<lambda>outer.
     liftS (success_of uid_decode outer tgtgt_key))"

definition decode_rejection :: "u8 \<Rightarrow> (wire_reader, credential_error, credential_outcome) op" where
  "decode_rejection state r =
     (if rd_remaining r = 0
      then (Inr (CredentialRejected \<lparr>cj_state = state, cj_tag = None, cj_message = None\<rparr>), r)
      else bindS (read_tlv_map cred_wire InvalidResponseTlvs) (\<lambda>tlvs. liftS (rejection_of tlvs state)) r)"

definition read_login_body ::
  "(bytes \<Rightarrow> uid_envelope option) \<Rightarrow> tea_key \<Rightarrow> (wire_reader, credential_error, credential_outcome) op" where
  "read_login_body uid_decode tgtgt_key =
     bindS (cw read_u16) (\<lambda>command.
     bindS (liftS (guardE (command = INTERNAL_COMMAND) InvalidResponseCommand)) (\<lambda>_.
     bindS (cw read_u8) (\<lambda>state.
     bindS (if state = 0 then decode_success uid_decode tgtgt_key else decode_rejection state) (\<lambda>outcome.
     bindS (cw finish_op) (\<lambda>_.
     retS outcome)))))"

definition decode_credential_exchange_response ::
  "(bytes \<Rightarrow> uid_envelope option) \<Rightarrow> bytes \<Rightarrow> credential_response_context \<Rightarrow> credential_error + credential_outcome" where
  "decode_credential_exchange_response uid_decode payload c =
     (if MAX_LOGIN_PACKET_LEN < length payload \<or> cx_uin c = 0 then Inl InvalidResponseEnvelope
      else bindE (key_from_slice (cx_tgtgt_key c)) (\<lambda>tgtgt_key.
           bindE (decrypt_response_body payload c) (\<lambda>body.
           run_reader (read_login_body uid_decode tgtgt_key) body)))"


section \<open>What the request carries\<close>

text \<open>The bodies of the fixed entries.\<close>

definition login_entries :: "linux_nt_profile \<Rightarrow> qr_device \<Rightarrow> qr_login_secrets \<Rightarrow> u32 \<Rightarrow> bytes \<Rightarrow> tlv list" where
  "login_entries p d s uin sealed =
     [(0x106, qs_temporary_password s),
      (0x144, sealed),
      (0x116, [0] @ to_be 4 (np_login_misc_bitmap (lp_spec p)) @ to_be 4 (np_sub_sig_map (lp_spec p)) @ [0]),
      (0x142, to_be 2 (0 :: u16) @ prefixed U16Payload (np_package_name (lp_spec p))),
      (0x145, qr_device_guid d),
      (0x018, to_be 2 (0 :: u16) @ to_be 4 (5 :: u32) @ to_be 4 (0 :: u32) @ to_be 4 (8001 :: u32) @ to_be 4 uin @
              to_be 2 (0 :: u16) @ to_be 2 (0 :: u16)),
      (0x141, to_be 2 (0 :: u16) @ prefixed U16Payload (lit ''Unknown'') @ to_be 2 (0 :: u16) @ prefixed U16Payload []),
      (0x177, [1] @ to_be 4 (0 :: u32) @ prefixed U16Payload (np_login_sdk (lp_spec p))),
      (0x191, [0]),
      (0x100, to_be 2 (0 :: u16) @ to_be 4 (5 :: u32) @ to_be 4 (np_app_id (lp_spec p)) @ to_be 4 (np_sub_app_id (lp_spec p)) @
              to_be 4 (ucast (np_app_client_version (lp_spec p)) :: u32) @ to_be 4 (np_main_sig_map (lp_spec p))),
      (0x107, [0, 1, 0x0d, 0, 0, 1]),
      (0x318, []),
      (0x16a, qs_no_picture_signature s),
      (0x166, [5]),
      (0x521, to_be 4 (0x13 :: u32) @ prefixed U16Payload (lit ''basicim''))]"

definition bundle_entries :: "linux_nt_profile \<Rightarrow> qr_device \<Rightarrow> tlv list" where
  "bundle_entries p d =
     [(0x16e, qr_device_name d),
      (0x147, to_be 4 (np_app_id (lp_spec p)) @ prefixed U16Payload (np_pt_version (lp_spec p)) @
              prefixed U16Payload (np_package_name (lp_spec p))),
      (0x128, to_be 2 (0 :: u16) @ [0, 0, 0] @ to_be 4 (0 :: u32) @ prefixed U16Payload (np_operating_system (lp_spec p)) @
              prefixed U16Payload (qr_device_guid d) @ to_be 2 (0 :: u16)),
      (0x124, replicate 12 0)]"

lemma body_writer_Inr:
  assumes "emits m C xs" "n \<le> 2 ^ 32"
  shows "body_writer n m = Inr out \<longleftrightarrow> C \<and> length xs \<le> n \<and> out = xs"
  by (simp add: body_writer_def map_err_Inr run_writer_bytes [OF assms])

lemma body_layout: "body_writer n m = Inr b \<Longrightarrow> emits m C xs \<Longrightarrow> n \<le> 2 ^ 32 \<Longrightarrow> b = xs"
  by (simp add: body_writer_Inr)

lemma emits_body_tlv:
  assumes "\<And>b. body = Inr b \<Longrightarrow> b = layout"
  shows "emits (body_tlv tag body) (body = Inr layout \<and> prefix_fits U16Payload (length layout)) (tlv_bytes (tag, layout))"
proof (cases body)
  case (Inl e)
  then show ?thesis by (auto simp: emits_def body_tlv_def bindS_def liftS_def)
next
  case (Inr b)
  with assms have "body_tlv tag body = ctlv tag layout"
    by (simp add: body_tlv_def bindS_def liftS_def)
  moreover have "emits (ctlv tag layout) (prefix_fits U16Payload (length layout)) (tlv_bytes (tag, layout))"
    by (rule emits_map_errS [OF emits_tlv])
  ultimately show ?thesis using assms [OF Inr] Inr by simp
qed

lemma bodies_Inr:
  "capability_body p = Inr b \<Longrightarrow> b = [0] @ to_be 4 (np_login_misc_bitmap (lp_spec p)) @ to_be 4 (np_sub_sig_map (lp_spec p)) @ [0]"
  "package_body p = Inr b \<Longrightarrow> b = to_be 2 (0 :: u16) @ prefixed U16Payload (np_package_name (lp_spec p))"
  "account_body uin = Inr b \<Longrightarrow> b = to_be 2 (0 :: u16) @ to_be 4 (5 :: u32) @ to_be 4 (0 :: u32) @ to_be 4 (8001 :: u32) @
     to_be 4 uin @ to_be 2 (0 :: u16) @ to_be 2 (0 :: u16)"
  "network_body = Inr b \<Longrightarrow> b = to_be 2 (0 :: u16) @ prefixed U16Payload (lit ''Unknown'') @ to_be 2 (0 :: u16) @
     prefixed U16Payload []"
  "sdk_body p = Inr b \<Longrightarrow> b = [1] @ to_be 4 (0 :: u32) @ prefixed U16Payload (np_login_sdk (lp_spec p))"
  "application_body p = Inr b \<Longrightarrow> b = to_be 2 (0 :: u16) @ to_be 4 (5 :: u32) @ to_be 4 (np_app_id (lp_spec p)) @
     to_be 4 (np_sub_app_id (lp_spec p)) @ to_be 4 (ucast (np_app_client_version (lp_spec p)) :: u32) @
     to_be 4 (np_main_sig_map (lp_spec p))"
  "product_body = Inr b \<Longrightarrow> b = to_be 4 (0x13 :: u32) @ prefixed U16Payload (lit ''basicim'')"
  "identity_body p = Inr b \<Longrightarrow> b = to_be 4 (np_app_id (lp_spec p)) @ prefixed U16Payload (np_pt_version (lp_spec p)) @
     prefixed U16Payload (np_package_name (lp_spec p))"
  "device_body p d = Inr b \<Longrightarrow> b = to_be 2 (0 :: u16) @ [0] @ [0] @ [0] @ to_be 4 (0 :: u32) @
     prefixed U16Payload (np_operating_system (lp_spec p)) @ prefixed U16Payload (qr_device_guid d) @ to_be 2 (0 :: u16)"
  unfolding capability_body_def package_body_def account_body_def network_body_def sdk_body_def application_body_def
    product_body_def identity_body_def device_body_def
  by - (erule body_layout, (rule emits_intros)+, simp)+


text \<open>Profiles and devices within their own bounds leave room for every body.\<close>

definition login_fits :: "linux_nt_profile \<Rightarrow> qr_device \<Rightarrow> qr_login_secrets \<Rightarrow> bool" where
  "login_fits p d s \<longleftrightarrow> length (np_package_name (lp_spec p)) \<le> 96 \<and> length (np_pt_version (lp_spec p)) \<le> 32 \<and>
     length (np_login_sdk (lp_spec p)) \<le> 64 \<and> length (np_operating_system (lp_spec p)) \<le> 32 \<and>
     length (qr_device_guid d) = 16 \<and> length (qr_device_name d) \<le> 1000 \<and> length (qs_temporary_password s) \<le> 1000 \<and>
     length (qs_no_picture_signature s) \<le> 1000"

lemma u16_fits: "n \<le> 60000 \<Longrightarrow> prefix_fits U16Payload n"
  by (simp add: prefix_fits_def declared_len_def)

lemma body_ok: "emits m C xs \<Longrightarrow> C \<Longrightarrow> length xs \<le> n \<Longrightarrow> n \<le> 2 ^ 32 \<Longrightarrow> body_writer n m = Inr xs"
  by (simp add: body_writer_Inr)

lemma bodies_ok:
  "capability_body p = Inr ([0] @ to_be 4 (np_login_misc_bitmap (lp_spec p)) @ to_be 4 (np_sub_sig_map (lp_spec p)) @ [0])"
  "login_fits p d s \<Longrightarrow> package_body p = Inr (to_be 2 (0 :: u16) @ prefixed U16Payload (np_package_name (lp_spec p)))"
  "account_body uin = Inr (to_be 2 (0 :: u16) @ to_be 4 (5 :: u32) @ to_be 4 (0 :: u32) @ to_be 4 (8001 :: u32) @
     to_be 4 uin @ to_be 2 (0 :: u16) @ to_be 2 (0 :: u16))"
  "network_body = Inr (to_be 2 (0 :: u16) @ prefixed U16Payload (lit ''Unknown'') @ to_be 2 (0 :: u16) @
     prefixed U16Payload [])"
  "login_fits p d s \<Longrightarrow> sdk_body p = Inr ([1] @ to_be 4 (0 :: u32) @ prefixed U16Payload (np_login_sdk (lp_spec p)))"
  "application_body p = Inr (to_be 2 (0 :: u16) @ to_be 4 (5 :: u32) @ to_be 4 (np_app_id (lp_spec p)) @
     to_be 4 (np_sub_app_id (lp_spec p)) @ to_be 4 (ucast (np_app_client_version (lp_spec p)) :: u32) @
     to_be 4 (np_main_sig_map (lp_spec p)))"
  "product_body = Inr (to_be 4 (0x13 :: u32) @ prefixed U16Payload (lit ''basicim''))"
  "login_fits p d s \<Longrightarrow> identity_body p = Inr (to_be 4 (np_app_id (lp_spec p)) @ prefixed U16Payload (np_pt_version (lp_spec p)) @
     prefixed U16Payload (np_package_name (lp_spec p)))"
  "login_fits p d s \<Longrightarrow> device_body p d = Inr (to_be 2 (0 :: u16) @ [0] @ [0] @ [0] @ to_be 4 (0 :: u32) @
     prefixed U16Payload (np_operating_system (lp_spec p)) @ prefixed U16Payload (qr_device_guid d) @ to_be 2 (0 :: u16))"
  unfolding capability_body_def package_body_def account_body_def network_body_def sdk_body_def application_body_def
    product_body_def identity_body_def device_body_def
  by - (rule body_ok, (rule emits_intros)+; simp add: login_fits_def u16_fits lit_def)+


lemma emits_device_bundle: "\<exists>C. emits (put_device_bundle p d) C (tlv_layout (bundle_entries p d)) \<and> (login_fits p d s \<longrightarrow> C)"
  unfolding tlv_layout_def bundle_entries_def put_device_bundle_def
  by (rule exI, rule conjI, rule emits_conv, (rule emits_body_tlv emits_intros, (erule bodies_Inr)?)+, rule refl, simp)
    (auto simp: bodies_ok u16_fits login_fits_def)

lemma run_writer_layout: "run_writer n m = Inr out \<Longrightarrow> emits m C xs \<Longrightarrow> out = xs"
  by (simp add: run_writer_Inr)

lemma bundle_decrypts:
  assumes "encrypted_device_bundle fill p d s = Inr sealed"
  shows "length (qs_tgtgt_key s) = 16 \<and> decrypt_qq_tea sealed (qs_tgtgt_key s) = Inr (tlv_layout (bundle_entries p d))"
proof -
  obtain C where e: "emits (put_device_bundle p d) C (tlv_layout (bundle_entries p d))"
    using emits_device_bundle by blast
  from assms show ?thesis
    by (auto simp: encrypted_device_bundle_def bindE_Inr map_err_Inr dest!: run_writer_layout [OF _ e] split: if_splits
        intro: encrypt_qq_tea_decrypts)
qed

lemma Inr_eqD: "Inr a = Inr b \<Longrightarrow> b = a"
  by simp

lemma emits_login_tlvs:
  assumes "encrypted_device_bundle fill p d s = Inr sealed"
  shows "\<exists>C. emits (put_login_tlvs fill p d s uin) C (tlv_layout (login_entries p d s uin sealed)) \<and>
    (login_fits p d s \<and> length sealed \<le> 1000 \<longrightarrow> C)"
  unfolding tlv_layout_def login_entries_def put_login_tlvs_def LOGIN_TLV_COUNT_def assms
  by (rule exI, rule conjI, rule emits_conv, (rule emits_body_tlv emits_intros, (erule bodies_Inr Inr_eqD)?)+, rule refl, simp)
    (auto simp: bodies_ok u16_fits login_fits_def lit_def)




lemma build_login_tlvs_Inr:
  assumes "build_login_tlvs fill p d s uin = Inr out"
  shows "\<exists>sealed. encrypted_device_bundle fill p d s = Inr sealed \<and> out = tlv_layout (login_entries p d s uin sealed)"
proof (cases "encrypted_device_bundle fill p d s")
  case (Inl e)
  have "fst (put_login_tlvs fill p d s uin w) \<noteq> Inr u" for w u
    by (auto simp: put_login_tlvs_def body_tlv_def Inl bindS_def liftS_def split: prod.splits sum.splits)
  with assms show ?thesis
    by (auto simp: build_login_tlvs_def run_writer_def split: prod.splits sum.splits) (metis fst_conv)
next
  case (Inr sealed)
  from emits_login_tlvs [OF this] assms show ?thesis
    by (metis Inr build_login_tlvs_def run_writer_layout)
qed

lemma credential_plaintext:
  "run_writer MAX_LOGIN_PACKET_LEN
     (bindS (map_errS cred_wire (put_u16 0x09)) (\<lambda>_.
      bindS (liftS v) (\<lambda>tlvs. map_errS cred_wire (put_bytes tlvs)))) = Inr out \<longleftrightarrow>
   (\<exists>tlvs. v = Inr tlvs \<and> length tlvs + 2 \<le> MAX_LOGIN_PACKET_LEN \<and> out = to_be 2 (9 :: u16) @ tlvs)"
proof (cases v)
  case (Inl e)
  then have "fst (bindS (map_errS cred_wire (put_u16 0x09)) (\<lambda>_.
      bindS (liftS v) (\<lambda>tlvs. map_errS cred_wire (put_bytes tlvs))) w) \<noteq> Inr u" for w u
    by (auto simp: bindS_def liftS_def split: prod.splits sum.splits)
  with Inl show ?thesis
    by (auto simp: run_writer_def split: prod.splits sum.splits) (metis fst_conv)+
next
  case (Inr tlvs)
  have "emits (bindS (map_errS cred_wire (put_u16 9)) (\<lambda>_. map_errS cred_wire (put_bytes tlvs))) True (to_be 2 (9 :: u16) @ tlvs)"
    by (rule emits_conv, (rule emits_intros)+, simp_all)
  from run_writer_bytes [OF this, of MAX_LOGIN_PACKET_LEN] Inr show ?thesis
    by (simp add: MAX_LOGIN_PACKET_LEN_def bindS_def liftS_def cong: prod.case_cong)
qed

text \<open>
  What a credential request's payload holds: the packet of the login command for this account; under
  the agreed key the internal command and the fifteen entries; in the entry 0x144, under the TGTGT key
  of the confirmed login, the device bundle.
\<close>

definition credential_request_carries :: "credential_context \<Rightarrow> u32 \<Rightarrow> bytes \<Rightarrow> bool" where
  "credential_request_carries c uin payload \<longleftrightarrow>
     (\<exists>encrypted sealed.
        payload = wtlogin_layout
          \<lparr>wp_profile = cc_profile c, wp_command = LOGIN_COMMAND, wp_sequence = cc_wtlogin_sequence c, wp_uin = uin,
           wp_random_key = cc_random_key c, wp_public_key = ka_public_key (cc_key_agreement c),
           wp_encrypted = encrypted\<rparr> \<and>
        length payload < 2 ^ 16 \<and>
        decrypt_qq_tea encrypted (ka_tea_key (cc_key_agreement c)) =
          Inr (to_be 2 (9 :: u16) @ tlv_layout (login_entries (cc_profile c) (cc_device c) (cc_secrets c) uin sealed)) \<and>
        decrypt_qq_tea sealed (qs_tgtgt_key (cc_secrets c)) = Inr (tlv_layout (bundle_entries (cc_profile c) (cc_device c))))"

lemma u32_try_from_Some: "u32_try_from v = Some w \<longleftrightarrow> unat v = unat w"
proof -
  have small: "unat (ucast v :: u32) = unat v" if "unat v < 2 ^ 32"
    using that by (simp add: unsigned_ucast_eq take_bit_nat_eq_self)
  show ?thesis
  proof
    assume "u32_try_from v = Some w"
    with small show "unat v = unat w" by (auto simp: u32_try_from_def split: if_splits)
  next
    assume h: "unat v = unat w"
    with unsigned_less [of w, where 'a = nat] have "unat v < 2 ^ 32" by simp
    with small h show "u32_try_from v = Some w" by (simp add: u32_try_from_def word_unat_eq_iff)
  qed
qed

lemma credential_request_carried:
  assumes "build_credential_exchange fill_sealed fill_body c = Inr r"
  shows "cq_sequence r = cc_sso_sequence c \<and> cq_sequence r \<noteq> 0 \<and>
    unat (cq_uin r) = unat (qs_uin (cc_secrets c)) \<and> cq_uin r \<noteq> 0 \<and>
    credential_request_carries c (cq_uin r) (cq_payload r)"
proof -
  from assms obtain uin plaintext encrypted where uin: "u32_try_from (qs_uin (cc_secrets c)) = Some uin"
    and nz: "cc_sso_sequence c \<noteq> 0" "uin \<noteq> 0"
    and plain: "run_writer MAX_LOGIN_PACKET_LEN
     (bindS (map_errS cred_wire (put_u16 0x09)) (\<lambda>_.
      bindS (liftS (build_login_tlvs fill_sealed (cc_profile c) (cc_device c) (cc_secrets c) uin)) (\<lambda>tlvs.
      map_errS cred_wire (put_bytes tlvs)))) = Inr plaintext"
    and enc: "encrypt_qq_tea fill_body plaintext (ka_tea_key (cc_key_agreement c)) = Inr encrypted"
    and r: "cq_sequence r = cc_sso_sequence c" "cq_uin r = uin"
      "wtlogin_encode
            \<lparr>wp_profile = cc_profile c, wp_command = LOGIN_COMMAND, wp_sequence = cc_wtlogin_sequence c, wp_uin = uin,
             wp_random_key = cc_random_key c, wp_public_key = ka_public_key (cc_key_agreement c),
             wp_encrypted = encrypted\<rparr> = Inr (cq_payload r)"
    by (auto simp: build_credential_exchange_def bindE_Inr ok_or_Inr map_err_Inr split: if_splits)
  from plain obtain tlvs where tlvs: "build_login_tlvs fill_sealed (cc_profile c) (cc_device c) (cc_secrets c) uin = Inr tlvs"
    "plaintext = to_be 2 (9 :: u16) @ tlvs" unfolding credential_plaintext by blast
  from build_login_tlvs_Inr [OF tlvs(1)] obtain sealed where
    s: "encrypted_device_bundle fill_sealed (cc_profile c) (cc_device c) (cc_secrets c) = Inr sealed"
    "tlvs = tlv_layout (login_entries (cc_profile c) (cc_device c) (cc_secrets c) uin sealed)" by blast
  from r(3) uin nz r(1,2) encrypt_qq_tea_decrypts [OF enc] bundle_decrypts [OF s(1)] show ?thesis
    unfolding wtlogin_encode_Inr credential_request_carries_def tlvs(2) s(2)
    by (auto simp: u32_try_from_Some wtlogin_layout_length)
qed

text \<open>
  C14: A credential request says who logs in, with what, and to no one else. A request the builder
  returns is for the confirmed account, whose number fits 32 bits and is not zero, under a non-zero
  sequence. Under the agreed key its payload opens to the internal command and exactly the fifteen
  entries of the profile, the device and the confirmed login, and the device bundle in it opens under
  the TGTGT key of that login to its four entries.
\<close>

theorem credential_request_carries_login:
  assumes "build_credential_exchange fill_sealed fill_body c = Inr r"
  shows "cq_sequence r = cc_sso_sequence c \<and> cq_sequence r \<noteq> 0 \<and>
    unat (cq_uin r) = unat (qs_uin (cc_secrets c)) \<and> cq_uin r \<noteq> 0 \<and>
    credential_request_carries c (cq_uin r) (cq_payload r)"
  by (rule credential_request_carried [OF assms])


lemma encrypt_succeeds:
  assumes "length plain \<le> 60000"
  shows "\<exists>ct. encrypt_qq_tea (\<lambda>n. Some (replicate n 5)) plain key = Inr ct \<and> length ct \<le> length plain + 17"
proof -
  have "length plain \<le> MAX_PLAINTEXT_LEN" using assms by (simp add: MAX_PLAINTEXT_LEN_def)
  then obtain ct where ct: "encrypt_qq_tea_with_padding plain key (replicate (padding_len (length plain)) 5) = Inr ct"
    by (auto simp: encrypt_with_padding_Inr)
  with encrypt_with_padding_decrypts [OF ct] padding_len_bounds [of "length plain"]
  show ?thesis by (intro exI [of _ ct]) (simp add: encrypt_qq_tea_def)
qed

definition demo_secrets :: qr_login_secrets where
  "demo_secrets = \<lparr>qs_uin = 12345, qs_tgtgt_key = replicate 16 7, qs_temporary_password = [1, 2],
     qs_no_picture_signature = [3]\<rparr>"

definition demo_credential :: credential_context where
  "demo_credential = \<lparr>cc_profile = demo_login_profile, cc_device = demo_qr_device, cc_sso_sequence = 3,
     cc_wtlogin_sequence = 2, cc_random_key = replicate 16 4, cc_key_agreement = demo_agreement, cc_secrets = demo_secrets\<rparr>"

lemma demo_credential_builds:
  "\<exists>r. build_credential_exchange (\<lambda>n. Some (replicate n 5)) (\<lambda>n. Some (replicate n 5)) demo_credential = Inr r \<and>
     cq_uin r = 12345"
proof -
  let ?fill = "\<lambda>n. Some (replicate n 5) :: bytes option" and ?p = demo_login_profile and ?d = demo_qr_device
    and ?s = demo_secrets
  have fits: "login_fits ?p ?d ?s"
    by (simp add: login_fits_def demo_login_profile_def demo_qr_device_def demo_secrets_def qr_device_guid_def qr_device_name_def)
  have small: "MAX_LOGIN_PACKET_LEN \<le> 2 ^ 32" by (simp add: MAX_LOGIN_PACKET_LEN_def)
  have len: "length (tlv_layout (bundle_entries ?p ?d)) \<le> 500"
    by (simp add: bundle_entries_def tlv_layout_def demo_login_profile_def demo_qr_device_def qr_device_guid_def qr_device_name_def)
  obtain C where C: "emits (put_device_bundle ?p ?d) C (tlv_layout (bundle_entries ?p ?d))" "C"
    using emits_device_bundle [of ?p ?d ?s] fits by blast
  then have "run_writer MAX_LOGIN_PACKET_LEN (put_device_bundle ?p ?d) = Inr (tlv_layout (bundle_entries ?p ?d))"
    unfolding run_writer_bytes [OF C(1) small] using C(2) len by (simp add: MAX_LOGIN_PACKET_LEN_def)
  moreover obtain sealed where enc: "encrypt_qq_tea ?fill (tlv_layout (bundle_entries ?p ?d)) (qs_tgtgt_key ?s) = Inr sealed"
    and slen: "length sealed \<le> 600"
    using encrypt_succeeds [of "tlv_layout (bundle_entries ?p ?d)" "qs_tgtgt_key ?s"] len by auto
  ultimately have sealed: "encrypted_device_bundle ?fill ?p ?d ?s = Inr sealed"
    by (simp add: encrypted_device_bundle_def demo_secrets_def)
  let ?tlvs = "tlv_layout (login_entries ?p ?d ?s 12345 sealed)"
  have tlen: "length ?tlvs \<le> 2000"
    using slen by (simp add: login_entries_def tlv_layout_def demo_login_profile_def demo_qr_device_def qr_device_guid_def
        demo_secrets_def lit_def)
  obtain D where D: "emits (put_login_tlvs ?fill ?p ?d ?s 12345) D ?tlvs" "D"
    using emits_login_tlvs [OF sealed, of 12345] fits slen by auto
  have tlvs: "build_login_tlvs ?fill ?p ?d ?s 12345 = Inr ?tlvs"
    unfolding build_login_tlvs_def run_writer_bytes [OF D(1) small] using D(2) tlen by (simp add: MAX_LOGIN_PACKET_LEN_def)
  let ?plain = "to_be 2 (9 :: u16) @ ?tlvs"
  obtain ct where ct: "encrypt_qq_tea ?fill ?plain (ka_tea_key demo_agreement) = Inr ct" and ctlen: "length ct \<le> 2100"
    using encrypt_succeeds [of ?plain "ka_tea_key demo_agreement"] tlen by auto
  let ?w = "\<lparr>wp_profile = ?p, wp_command = LOGIN_COMMAND, wp_sequence = 2, wp_uin = 12345,
    wp_random_key = replicate 16 4, wp_public_key = ka_public_key demo_agreement, wp_encrypted = ct\<rparr>"
  have "wtlogin_encode ?w = Inr (wtlogin_layout ?w)"
    unfolding wtlogin_encode_Inr using ctlen
    by (simp add: prefix_fits_def declared_len_def wtlogin_body_layout_def demo_agreement_def)
  moreover have "u32_try_from (qs_uin ?s) = Some 12345" by (simp add: u32_try_from_Some demo_secrets_def)
  moreover have "run_writer MAX_LOGIN_PACKET_LEN
     (bindS (map_errS cred_wire (put_u16 0x09)) (\<lambda>_.
      bindS (liftS (build_login_tlvs ?fill ?p ?d ?s 12345)) (\<lambda>tlvs. map_errS cred_wire (put_bytes tlvs)))) = Inr ?plain"
    unfolding credential_plaintext using tlvs tlen by (simp add: MAX_LOGIN_PACKET_LEN_def)
  ultimately show ?thesis
    using ct by (simp add: build_credential_exchange_def demo_credential_def demo_secrets_def demo_agreement_def)
qed

theorem credential_request_carries_login_witness:
  "\<exists>r. build_credential_exchange (\<lambda>n. Some (replicate n 5)) (\<lambda>n. Some (replicate n 5)) demo_credential = Inr r \<and>
     cq_sequence r = 3 \<and> unat (cq_uin r) = 12345 \<and> credential_request_carries demo_credential (cq_uin r) (cq_payload r)"
proof -
  obtain r where r: "build_credential_exchange (\<lambda>n. Some (replicate n 5)) (\<lambda>n. Some (replicate n 5)) demo_credential = Inr r"
    using demo_credential_builds by blast
  from credential_request_carries_login [OF this] r show ?thesis
    by (simp add: demo_credential_def demo_secrets_def)
qed

section \<open>What a successful response is\<close>

definition login_reply_of :: "nat \<Rightarrow> u32 \<Rightarrow> u16 \<Rightarrow> u8 \<Rightarrow> u16 \<Rightarrow> bytes \<Rightarrow> bytes" where
  "login_reply_of n uin sequence flag retry encrypted =
     [2] @ to_be 2 (of_nat n :: u16) @ to_be 2 WTLOGIN_VERSION @ to_be 2 LOGIN_COMMAND @ to_be 2 sequence @
     to_be 4 uin @ [flag] @ to_be 2 retry @ encrypted @ [3]"

lemma accepts_login_reply:
  "accepts (read_login_reply n uin) (\<lambda>encrypted xs ys. ys = [] \<and> n < 2 ^ 16 \<and>
     (\<exists>sequence flag retry. xs = login_reply_of n uin sequence flag retry encrypted))"
  unfolding read_login_reply_def login_reply_of_def
proof (rule back_subst [of "accepts _"], (rule qr_seq)+, intro ext iffI, goal_cases)
  case (1 v xs ys)
  then show ?case
    by (elim exE conjE) (auto simp: unsigned_less [where 'b = 16, simplified])
next
  case (2 encrypted xs ys)
  then obtain sequence flag retry where ys: "ys = []"
    and n: "n < 2 ^ 16" and xs: "xs = [2] @ to_be 2 (of_nat n :: u16) @ to_be 2 WTLOGIN_VERSION @ to_be 2 LOGIN_COMMAND @
      to_be 2 (sequence :: u16) @ to_be 4 uin @ [flag] @ to_be 2 (retry :: u16) @ encrypted @ [3]"
    by blast
  show ?case
    unfolding xs ys
    by (intro ex_but_last ex_u8 ex_field conjI TrueI refl) (use n in \<open>auto simp: unat_of_nat\<close>)
qed

definition profile_layout :: "u16 \<Rightarrow> u8 \<Rightarrow> u8 \<Rightarrow> rstr \<Rightarrow> bytes" where
  "profile_layout face age gender nickname = to_be 2 face @ [age] @ [gender] @ prefixed U8Payload nickname"

lemma accepts_profile:
  "accepts read_profile (\<lambda>(age, gender, nickname) xs ys. ys = [] \<and> length nickname \<le> 255 \<and> utf8_valid nickname \<and>
     (\<exists>face. xs = profile_layout face age gender nickname))"
  unfolding read_profile_def profile_layout_def
proof (rule back_subst [of "accepts _"], (rule qr_seq accepts_seq_lift)+, intro ext iffI, goal_cases)
  case (1 v xs ys)
  then show ?case
    by (elim exE conjE) (auto simp: decode_text_def from_utf8_Inr)
next
  case (2 v xs ys)
  obtain age gender nickname where v: "v = (age, gender, nickname)" by (cases v)
  from 2 [unfolded v prod.case] obtain face where n: "ys = []" "length nickname \<le> 255" "utf8_valid nickname"
    and xs: "xs = to_be 2 (face :: u16) @ [age] @ [gender] @ prefixed U8Payload nickname @ []" by auto
  show ?case
    unfolding xs n(1) v
    by (intro ex_u8 ex_field conjI TrueI refl exI [of _ nickname])
      (use n in \<open>auto simp: decode_text_def from_utf8_Inr prefix_fits_def declared_len_def\<close>)
qed

definition uid_in :: "(bytes \<Rightarrow> uid_envelope option) \<Rightarrow> bytes \<Rightarrow> rstr \<Rightarrow> bool" where
  "uid_in uid_decode body uid \<longleftrightarrow> length body \<le> MAX_UID_PROTO_LEN \<and> uid \<noteq> [] \<and> length uid \<le> MAX_NOTICE_LEN \<and>
     uid_decode body = Some \<lparr>u0_layer_one = Some \<lparr>u1_layer_two = Some \<lparr>u2_uid = uid\<rparr>\<rparr>\<rparr>"

lemma decode_uid_Inr: "decode_uid uid_decode body = Inr uid \<longleftrightarrow> uid_in uid_decode body uid"
proof -
  have "(\<exists>e. uid_decode body = Some e \<and> Option.bind (Option.bind (u0_layer_one e) u1_layer_two)
        (\<lambda>layer. if u2_uid layer \<noteq> [] \<and> length (u2_uid layer) \<le> MAX_NOTICE_LEN then Some (u2_uid layer) else None) = Some uid) \<longleftrightarrow>
      uid \<noteq> [] \<and> length uid \<le> MAX_NOTICE_LEN \<and>
      uid_decode body = Some \<lparr>u0_layer_one = Some \<lparr>u1_layer_two = Some \<lparr>u2_uid = uid\<rparr>\<rparr>\<rparr>"
    by (auto simp: Option.bind_eq_Some_conv split: if_splits) (rule exI [of _ "\<lparr>u2_uid = uid\<rparr>"], simp)
  then show ?thesis
    by (auto simp: decode_uid_def uid_in_def bindE_Inr ok_or_Inr Let_def)
qed

definition login_in :: "(bytes \<Rightarrow> uid_envelope option) \<Rightarrow> tlv list \<Rightarrow> credential_login \<Rightarrow> bool" where
  "login_in uid_decode ts l \<longleftrightarrow>
     (\<exists>face. map_of ts 0x11a = Some (profile_layout face (cl_age l) (cl_gender l) (cl_nickname l))) \<and>
     length (cl_nickname l) \<le> 255 \<and> utf8_valid (cl_nickname l) \<and>
     (\<exists>body. map_of ts 0x543 = Some body \<and> uid_in uid_decode body (cl_uid l)) \<and>
     map_of ts 0x305 = Some (cs_d2_key (cl_secrets l)) \<and> length (cs_d2_key (cl_secrets l)) = 16 \<and>
     map_of ts 0x10a = Some (cs_tgt (cl_secrets l)) \<and> cs_tgt (cl_secrets l) \<noteq> [] \<and>
     map_of ts 0x143 = Some (cs_d2 (cl_secrets l)) \<and> cs_d2 (cl_secrets l) \<noteq> [] \<and>
     map_of ts 0x106 = Some (cs_temporary_password (cl_secrets l)) \<and> cs_temporary_password (cl_secrets l) \<noteq> []"

lemma btree_of_collection: "tlv_collection_ok ts \<Longrightarrow> btree_get (btree_of ts) tag = map_of ts tag"
  by (simp add: tlv_collection_ok_def btree_get_of)

lemma required_Inr:
  "tlv_collection_ok ts \<Longrightarrow> required_tlv (btree_of ts) tag = Inr b \<longleftrightarrow> map_of ts tag = Some b"
  "tlv_collection_ok ts \<Longrightarrow> required_nonempty (btree_of ts) tag = Inr b \<longleftrightarrow> map_of ts tag = Some b \<and> b \<noteq> []"
  by (auto simp: required_tlv_def required_nonempty_def btree_of_collection ok_or_Inr bindE_Inr)

lemma decode_profile_Inr:
  assumes "length body \<le> MAX_TLV_LEN"
  shows "decode_profile body = Inr (age, gender, nickname) \<longleftrightarrow> length nickname \<le> 255 \<and> utf8_valid nickname \<and>
    (\<exists>face. body = profile_layout face age gender nickname)"
proof -
  have "slice_ok body" using assms by (simp add: slice_ok_def MAX_TLV_LEN_def)
  from run_reader_Inr [OF accepts_profile this] show ?thesis by (auto simp: decode_profile_def map_err_Inr)
qed

lemma collection_bound: "tlv_collection_ok ts \<Longrightarrow> map_of ts tag = Some b \<Longrightarrow> length b \<le> MAX_TLV_LEN"
  by (auto simp: tlv_collection_ok_def list_all_iff dest!: map_of_SomeD)

lemma nested_Inr:
  assumes "slice_ok plain"
  shows "run_reader read_nested plain = Inr m \<longleftrightarrow>
    (\<exists>ts. tlv_collection_ok ts \<and> plain = tlv_layout ts \<and> m = btree_of ts)"
proof -
  have "accepts read_nested (\<lambda>m xs ys. ys = [] \<and> (\<exists>ts. tlv_collection_ok ts \<and> xs = tlv_layout ts \<and> m = btree_of ts))"
    unfolding read_nested_def
    by (rule back_subst [of "accepts _", OF accepts_bind [OF accepts_read_tlv_map accepts_seq_finish [OF accepts_ret]]])
      (auto simp: fun_eq_iff)
  from run_reader_Inr [OF this assms] show ?thesis by auto
qed

lemma login_of_Inr:
  assumes ts: "tlv_collection_ok ts"
  shows "login_of uid_decode (btree_of ts) = Inr l \<longleftrightarrow> login_in uid_decode ts l"
proof -
  have p: "map_of ts 0x11a = Some b \<and> decode_profile b = Inr (age, gender, nickname) \<longleftrightarrow>
      map_of ts 0x11a = Some b \<and> length nickname \<le> 255 \<and> utf8_valid nickname \<and> (\<exists>face. b = profile_layout face age gender nickname)"
    for b age gender nickname
    using decode_profile_Inr [OF collection_bound [OF ts, of _ b]] by blast
  show ?thesis
  proof
    assume "login_of uid_decode (btree_of ts) = Inr l"
    then obtain b age gender nickname where b: "map_of ts 0x11a = Some b" "decode_profile b = Inr (age, gender, nickname)"
      and rest: "cl_age l = age" "cl_gender l = gender" "cl_nickname l = nickname"
      "\<exists>body. map_of ts 0x543 = Some body \<and> uid_in uid_decode body (cl_uid l)"
      "map_of ts 0x305 = Some (cs_d2_key (cl_secrets l))" "length (cs_d2_key (cl_secrets l)) = 16"
      "map_of ts 0x10a = Some (cs_tgt (cl_secrets l))" "cs_tgt (cl_secrets l) \<noteq> []"
      "map_of ts 0x143 = Some (cs_d2 (cl_secrets l))" "cs_d2 (cl_secrets l) \<noteq> []"
      "map_of ts 0x106 = Some (cs_temporary_password (cl_secrets l))" "cs_temporary_password (cl_secrets l) \<noteq> []"
      by (auto simp: login_of_def bindE_Inr required_Inr [OF ts] decode_uid_Inr split: if_splits)
    from p [of b age gender nickname] b obtain face where "length nickname \<le> 255" "utf8_valid nickname"
      "b = profile_layout face age gender nickname" by blast
    with b rest show "login_in uid_decode ts l" by (auto simp: login_in_def)
  next
    assume l: "login_in uid_decode ts l"
    then obtain face where f: "map_of ts 0x11a = Some (profile_layout face (cl_age l) (cl_gender l) (cl_nickname l))"
      "length (cl_nickname l) \<le> 255" "utf8_valid (cl_nickname l)" by (auto simp: login_in_def)
    from p [of "profile_layout face (cl_age l) (cl_gender l) (cl_nickname l)" "cl_age l" "cl_gender l" "cl_nickname l"] f
    have d: "decode_profile (profile_layout face (cl_age l) (cl_gender l) (cl_nickname l)) =
        Inr (cl_age l, cl_gender l, cl_nickname l)" by blast
    obtain body where "map_of ts 0x543 = Some body" "uid_in uid_decode body (cl_uid l)"
      using l by (auto simp: login_in_def)
    with l f d show "login_of uid_decode (btree_of ts) = Inr l"
      by (cases l) (auto simp: login_of_def bindE_Inr required_Inr [OF ts] decode_uid_Inr login_in_def)
  qed
qed

lemma success_of_Inr:
  assumes outer: "tlv_collection_ok outer"
  shows "success_of uid_decode (btree_of outer) key = Inr (CredentialSuccess l) \<longleftrightarrow>
    (\<exists>sealed nested. map_of outer 0x119 = Some sealed \<and> decrypt_qq_tea sealed key = Inr (tlv_layout nested) \<and>
       tlv_collection_ok nested \<and> login_in uid_decode nested l)"
proof -
  have s: "success_of uid_decode (btree_of outer) key = Inr (CredentialSuccess l) \<longleftrightarrow>
      (\<exists>sealed plain m. map_of outer 0x119 = Some sealed \<and> decrypt_qq_tea sealed key = Inr plain \<and>
         run_reader read_nested plain = Inr m \<and> login_of uid_decode m = Inr l)"
    by (auto simp: success_of_def bindE_Inr required_Inr [OF outer] map_err_Inr)
  show ?thesis
    unfolding s
  proof (intro iffI; elim exE conjE)
    fix sealed plain m
    assume h: "map_of outer 0x119 = Some sealed" "decrypt_qq_tea sealed key = Inr plain"
      "run_reader read_nested plain = Inr m" "login_of uid_decode m = Inr l"
    from nested_Inr [OF tea_plaintext_small [OF h(2)], of m] h(3) obtain ts where
      "tlv_collection_ok ts" "plain = tlv_layout ts" "m = btree_of ts" by blast
    with h login_of_Inr [of ts uid_decode l]
    show "\<exists>sealed nested. map_of outer 0x119 = Some sealed \<and> decrypt_qq_tea sealed key = Inr (tlv_layout nested) \<and>
       tlv_collection_ok nested \<and> login_in uid_decode nested l"
      by (intro exI [of _ sealed] exI [of _ ts]) simp
  next
    fix sealed nested
    assume h: "map_of outer 0x119 = Some sealed" "decrypt_qq_tea sealed key = Inr (tlv_layout nested)"
      "tlv_collection_ok nested" "login_in uid_decode nested l"
    from nested_Inr [OF tea_plaintext_small [OF h(2)], of "btree_of nested"] h(3)
    have "run_reader read_nested (tlv_layout nested) = Inr (btree_of nested)" by blast
    with h login_of_Inr [OF h(3), of uid_decode l]
    show "\<exists>sealed plain m. map_of outer 0x119 = Some sealed \<and> decrypt_qq_tea sealed key = Inr plain \<and>
         run_reader read_nested plain = Inr m \<and> login_of uid_decode m = Inr l"
      by (intro exI [of _ sealed] exI [of _ "tlv_layout nested"] exI [of _ "btree_of nested"]) simp
  qed
qed


lemma accepts_login_body_success:
  "accepts (decode_success uid_decode key) (\<lambda>r xs ys. \<exists>outer. tlv_collection_ok outer \<and> xs = tlv_layout outer \<and>
     success_of uid_decode (btree_of outer) key = Inr r)"
  unfolding decode_success_def
  by (rule back_subst [of "accepts _", OF accepts_bind [OF accepts_read_tlv_map accepts_lift]])
    (auto simp: fun_eq_iff)

lemma decode_rejection_not_success: "decode_rejection state r \<noteq> (Inr (CredentialSuccess l), r')"
  by (auto simp: decode_rejection_def bindS_def liftS_def rejection_of_def bindE_def split: prod.splits sum.splits if_splits)

lemma run_reader_Inr_ex: "run_reader m bs = Inr a \<longleftrightarrow> (\<exists>r'. m (reader_new bs) = (Inr a, r'))"
  by (cases "m (reader_new bs)") (simp add: run_reader_def)

lemma login_body_success:
  assumes "slice_ok body"
  shows "run_reader (read_login_body uid_decode key) body = Inr (CredentialSuccess l) \<longleftrightarrow>
    (\<exists>outer. tlv_collection_ok outer \<and> body = to_be 2 INTERNAL_COMMAND @ [0] @ tlv_layout outer \<and>
       success_of uid_decode (btree_of outer) key = Inr (CredentialSuccess l))"
proof -
  let ?m = "bindS (cw read_u16) (\<lambda>command.
     bindS (liftS (guardE (command = INTERNAL_COMMAND) InvalidResponseCommand)) (\<lambda>_.
     bindS (cw read_u8) (\<lambda>state.
     bindS (liftS (guardE (state = 0) InvalidResponseCommand)) (\<lambda>_.
     bindS (decode_success uid_decode key) (\<lambda>outcome.
     bindS (cw finish_op) (\<lambda>_.
     retS outcome))))))"
  have "accepts ?m (\<lambda>r xs ys. ys = [] \<and> (\<exists>outer. tlv_collection_ok outer \<and>
      xs = to_be 2 INTERNAL_COMMAND @ [0] @ tlv_layout outer \<and> success_of uid_decode (btree_of outer) key = Inr r))"
  proof (rule back_subst [of "accepts _"], (rule qr_seq accepts_bind [OF accepts_login_body_success])+,
      intro ext iffI, goal_cases)
    case (1 r xs ys)
    then show ?case by auto
  next
    case (2 r xs ys)
    then show ?case by auto
  qed
  from run_reader_Inr [OF this assms, of "CredentialSuccess l"]
  have m: "run_reader ?m body = Inr (CredentialSuccess l) \<longleftrightarrow> (\<exists>outer. tlv_collection_ok outer \<and>
      body = to_be 2 INTERNAL_COMMAND @ [0] @ tlv_layout outer \<and> success_of uid_decode (btree_of outer) key = Inr (CredentialSuccess l))"
    by auto
  have "read_login_body uid_decode key r = (Inr (CredentialSuccess l), r') \<longleftrightarrow> ?m r = (Inr (CredentialSuccess l), r')" for r r'
    unfolding read_login_body_def bindS_Inr
    using decode_rejection_not_success by (auto simp: liftS_def guardE_Inr retS_def split: if_splits; blast)
  then have "run_reader (read_login_body uid_decode key) body = Inr (CredentialSuccess l) \<longleftrightarrow>
      run_reader ?m body = Inr (CredentialSuccess l)"
    by (simp only: run_reader_Inr_ex)
  with m show ?thesis by simp
qed

lemma decode_credential_success_Inr:
  "decode_credential_exchange_response uid_decode payload c = Inr (CredentialSuccess l) \<longleftrightarrow>
     cx_uin c \<noteq> 0 \<and> length (cx_tgtgt_key c) = 16 \<and> length payload < 2 ^ 16 \<and>
     (\<exists>sequence flag retry encrypted outer sealed nested.
        payload = login_reply_of (length payload) (cx_uin c) sequence flag retry encrypted \<and>
        decrypt_qq_tea encrypted (ka_tea_key (cx_key_agreement c)) =
          Inr (to_be 2 INTERNAL_COMMAND @ [0] @ tlv_layout outer) \<and>
        tlv_collection_ok outer \<and> map_of outer 0x119 = Some sealed \<and>
        decrypt_qq_tea sealed (cx_tgtgt_key c) = Inr (tlv_layout nested) \<and>
        tlv_collection_ok nested \<and> login_in uid_decode nested l)"
  (is "?lhs \<longleftrightarrow> ?rhs")
proof -
  have reply: "run_reader (read_login_reply (length payload) (cx_uin c)) payload = Inr encrypted \<longleftrightarrow> length payload < 2 ^ 16 \<and>
      (\<exists>sequence flag retry. payload = login_reply_of (length payload) (cx_uin c) sequence flag retry encrypted)"
    if "length payload \<le> MAX_LOGIN_PACKET_LEN" for encrypted
  proof -
    have "slice_ok payload" using that by (simp add: slice_ok_def MAX_LOGIN_PACKET_LEN_def)
    from run_reader_Inr [OF accepts_login_reply this] show ?thesis by auto
  qed
  show ?thesis
  proof
    assume ?lhs
    then obtain encrypted body where h: "cx_uin c \<noteq> 0" "length (cx_tgtgt_key c) = 16" "length payload \<le> MAX_LOGIN_PACKET_LEN"
      "run_reader (read_login_reply (length payload) (cx_uin c)) payload = Inr encrypted"
      "decrypt_qq_tea encrypted (ka_tea_key (cx_key_agreement c)) = Inr body"
      "run_reader (read_login_body uid_decode (cx_tgtgt_key c)) body = Inr (CredentialSuccess l)"
      by (auto simp: decode_credential_exchange_response_def key_from_slice_def decrypt_response_body_def bindE_Inr map_err_Inr
          split: if_splits)
    from login_body_success [OF tea_plaintext_small [OF h(5)]] h(6) obtain outer where
      o: "tlv_collection_ok outer" "body = to_be 2 INTERNAL_COMMAND @ [0] @ tlv_layout outer"
        "success_of uid_decode (btree_of outer) (cx_tgtgt_key c) = Inr (CredentialSuccess l)" by blast
    from reply [OF h(3), of encrypted, THEN iffD1, OF h(4)] obtain sequence flag retry where r: "length payload < 2 ^ 16"
      "payload = login_reply_of (length payload) (cx_uin c) sequence flag retry encrypted"
      by (elim conjE exE) (erule (1) that)
    from success_of_Inr [OF o(1), of uid_decode "cx_tgtgt_key c" l] o(3) obtain sealed nested where
      n: "map_of outer 0x119 = Some sealed" "decrypt_qq_tea sealed (cx_tgtgt_key c) = Inr (tlv_layout nested)"
        "tlv_collection_ok nested" "login_in uid_decode nested l" by blast
    have d: "decrypt_qq_tea encrypted (ka_tea_key (cx_key_agreement c)) =
        Inr (to_be 2 INTERNAL_COMMAND @ [0] @ tlv_layout outer)" using h(5) o(2) by (rule subst [rotated])
    show ?rhs
      by (intro conjI exI [of _ sequence] exI [of _ flag] exI [of _ retry] exI [of _ encrypted] exI [of _ outer]
          exI [of _ sealed] exI [of _ nested] h(1,2) r d o(1) n)
  next
    assume ?rhs
    then obtain sequence flag retry encrypted outer sealed nested where
      h: "cx_uin c \<noteq> 0" "length (cx_tgtgt_key c) = 16" "length payload < 2 ^ 16"
      "payload = login_reply_of (length payload) (cx_uin c) sequence flag retry encrypted"
      "decrypt_qq_tea encrypted (ka_tea_key (cx_key_agreement c)) = Inr (to_be 2 INTERNAL_COMMAND @ [0] @ tlv_layout outer)"
      "tlv_collection_ok outer" "map_of outer 0x119 = Some sealed"
      "decrypt_qq_tea sealed (cx_tgtgt_key c) = Inr (tlv_layout nested)"
      "tlv_collection_ok nested" "login_in uid_decode nested l"
      by (elim conjE exE) (erule (9) that)
    have small: "length payload \<le> MAX_LOGIN_PACKET_LEN" using h(3) by (simp add: MAX_LOGIN_PACKET_LEN_def)
    have "run_reader (read_login_reply (length payload) (cx_uin c)) payload = Inr encrypted"
      unfolding reply [OF small] by (intro conjI exI [of _ sequence] exI [of _ flag] exI [of _ retry] h(3,4))
    moreover have "success_of uid_decode (btree_of outer) (cx_tgtgt_key c) = Inr (CredentialSuccess l)"
      using success_of_Inr [OF h(6), of uid_decode "cx_tgtgt_key c" l] h(7-10) by blast
    then have "run_reader (read_login_body uid_decode (cx_tgtgt_key c)) (to_be 2 INTERNAL_COMMAND @ [0] @ tlv_layout outer) =
        Inr (CredentialSuccess l)"
      using login_body_success [OF tea_plaintext_small [OF h(5)]] h(6) by blast
    ultimately show ?lhs
      using h(1,2,5) small
      by (simp add: decode_credential_exchange_response_def key_from_slice_def decrypt_response_body_def)
  qed
qed

text \<open>
  C7: Session material comes from exactly one shape of response. The exchange succeeds with a given
  login precisely when the payload is a WtLogin reply of its own length to this account, its encrypted
  part opens under the agreed key to the internal command, state 0 and a collection of distinct
  entries, the entry 0x119 of these opens under the TGTGT key to a second such collection and nothing
  more, and that holds the account's profile and UID, a D2 key of exactly 16 bytes and a TGT, a D2 and
  a temporary password, none of them empty.
\<close>

theorem credential_success_exact:
  "decode_credential_exchange_response uid_decode payload c = Inr (CredentialSuccess l) \<longleftrightarrow>
     cx_uin c \<noteq> 0 \<and> length (cx_tgtgt_key c) = 16 \<and> length payload < 2 ^ 16 \<and>
     (\<exists>sequence flag retry encrypted outer sealed nested.
        payload = login_reply_of (length payload) (cx_uin c) sequence flag retry encrypted \<and>
        decrypt_qq_tea encrypted (ka_tea_key (cx_key_agreement c)) =
          Inr (to_be 2 INTERNAL_COMMAND @ [0] @ tlv_layout outer) \<and>
        tlv_collection_ok outer \<and> map_of outer 0x119 = Some sealed \<and>
        decrypt_qq_tea sealed (cx_tgtgt_key c) = Inr (tlv_layout nested) \<and>
        tlv_collection_ok nested \<and> login_in uid_decode nested l)"
  by (rule decode_credential_success_Inr)

end
