(* ===== verification/Login_Flow.thy ===== *)
theory Login_Flow
  imports Login_Credential
begin

text \<open>
  The QR login as the process runs it (\<open>bins/lirvena/src/qr\<close>): the identity bound to the QR code
  (\<open>face.rs\<close>), one poll and the polling loop (\<open>polling.rs\<close>), the credential exchange (\<open>credential.rs\<close>) and
  the part of \<open>flow.rs\<close> that composes them. What a round sees of the outside, the timer or the signal,
  the clock, entropy and the answers of the servers, is an argument; the loop runs over the rounds
  given and returns \<open>None\<close> while it has to go on.
\<close>

section \<open>What the loop sees\<close>

datatype qr_failure =
    Interrupted
  | ClockFailed
  | QrTimedOut
  | QrFlowFailed qr_flow_error
  | FaceFailed
  | EntropyFailed
  | QrPacketFailed qr_packet_error
  | ExecuteFailed
  | IdentityMismatch
  | QrEnded qr_poll_state
  | CredentialFailed credential_error
  | CredentialRefused credential_rejection

record poll_round =
  pr_timer :: bool
  pr_now_ms :: "u64 option"
  pr_event_ms :: "u64 option"
  pr_face :: "(i32 \<times> u32) option"
  pr_sequence :: "u32 option"
  pr_seconds :: "u32 option"
  pr_fill :: "nat \<Rightarrow> bytes option"
  pr_execute :: "qr_unsigned_request \<Rightarrow> bytes option"
  pr_issued_ms :: "u64 option"

record qr_polling =
  po_profile :: linux_nt_profile
  po_random_key :: tea_key
  po_key_agreement :: key_agreement
  po_challenge :: qr_challenge
  po_expires_at_ms :: u64

text \<open>The machine and the WtLogin sequence the two \<open>&mut\<close> arguments hold.\<close>

type_synonym flow_state = "login_machine \<times> u16"

definition on_machine :: "(login_machine, 'e, 'a) op \<Rightarrow> (flow_state, 'e, 'a) op" where
  "on_machine m = (\<lambda>(machine, n). case m machine of (r, machine') \<Rightarrow> (r, (machine', n)))"

definition take_sequence :: "(flow_state, 'e, u16) op" where
  "take_sequence = (\<lambda>(machine, n). case wtlogin_sequence_take n of (current, n') \<Rightarrow> (Inr current, (machine, n')))"

section \<open>The bound identity\<close>

text \<open>
  \<open>FaceResolver::resolve\<close>: \<open>reply\<close> is the decoded answer of the service, \<open>None\<close> for every failure of the
  request, its status, its size or its JSON.
\<close>

definition face_resolve :: "u32 \<Rightarrow> rstr \<Rightarrow> (i32 \<times> u32) option \<Rightarrow> qr_failure + u32 option" where
  "face_resolve app_id query_signature reply =
     (if app_id = 0 \<or> query_signature = [] \<or> 2048 < length query_signature then Inl FaceFailed
      else case reply of
             None \<Rightarrow> Inl FaceFailed
           | Some (return_code, uin) \<Rightarrow> Inr (if return_code = 0 \<and> uin \<noteq> 0 then Some uin else None))"

section \<open>The loop\<close>

definition poll_once :: "qr_polling \<Rightarrow> poll_round \<Rightarrow> (flow_state, qr_failure, qr_poll_response) op" where
  "poll_once p r =
     bindS (liftS (ok_or EntropyFailed (pr_sequence r))) (\<lambda>sso_sequence.
     bindS take_sequence (\<lambda>wtlogin_sequence.
     bindS (liftS (ok_or ClockFailed (pr_seconds r))) (\<lambda>unix_seconds.
     bindS (liftS (map_err QrPacketFailed (build_qr_poll (pr_fill r)
       \<lparr>qp_profile = po_profile p, qp_sso_sequence = sso_sequence, qp_wtlogin_sequence = wtlogin_sequence,
        qp_unix_seconds = unix_seconds, qp_random_key = po_random_key p, qp_key_agreement = po_key_agreement p,
        qp_challenge = po_challenge p\<rparr>))) (\<lambda>unsigned.
     bindS (liftS (ok_or ExecuteFailed (pr_execute r unsigned))) (\<lambda>payload.
     bindS (liftS (ok_or ClockFailed (pr_issued_ms r))) (\<lambda>issued_at_ms.
     liftS (map_err QrPacketFailed (decode_qr_poll_response payload
       \<lparr>rc_app_id = np_app_id (lp_spec (po_profile p)), rc_issued_at_ms = issued_at_ms,
        rc_random_key = po_random_key p, rc_key_agreement = po_key_agreement p\<rparr>))))))))"

text \<open>\<open>apply_qr_poll(login, state, now_ms()?)?\<close>\<close>

definition poll_applied :: "poll_round \<Rightarrow> qr_poll_state \<Rightarrow> (flow_state, qr_failure, qr_control_event) op" where
  "poll_applied r state =
     bindS (liftS (ok_or ClockFailed (pr_event_ms r))) (\<lambda>now.
     map_errS QrFlowFailed (on_machine (apply_qr_poll state now)))"

definition poll_step :: "qr_polling \<Rightarrow> poll_round \<Rightarrow> (flow_state, qr_failure, qr_login_secrets option) op" where
  "poll_step p r =
     bindS (liftS (guardE (pr_timer r) Interrupted)) (\<lambda>_.
     bindS (liftS (ok_or ClockFailed (pr_now_ms r))) (\<lambda>now.
     if po_expires_at_ms p \<le> now then bindS (poll_applied r Expired) (\<lambda>_. failS QrTimedOut)
     else bindS (liftS (face_resolve (np_app_id (lp_spec (po_profile p))) (qc_query_signature (po_challenge p)) (pr_face r))) (\<lambda>bound_uin.
          bindS (poll_once p r) (\<lambda>response.
          case response of
            PollConfirmed secrets \<Rightarrow>
              if bound_uin \<noteq> u32_try_from (qs_uin secrets) then failS IdentityMismatch
              else bindS (poll_applied r Confirmed) (\<lambda>_. retS (Some secrets))
          | PollState state \<Rightarrow>
              if state = Expired \<or> state = Canceled
              then bindS (poll_applied r state) (\<lambda>_. failS (QrEnded state))
              else bindS (poll_applied r state) (\<lambda>_. retS None)))))"

fun until_confirmed :: "qr_polling \<Rightarrow> poll_round list \<Rightarrow> (flow_state, qr_failure, qr_login_secrets option) op" where
  "until_confirmed p [] = retS None"
| "until_confirmed p (r # rs) =
     bindS (poll_step p r) (\<lambda>outcome.
     case outcome of Some secrets \<Rightarrow> retS (Some secrets) | None \<Rightarrow> until_confirmed p rs)"

section \<open>The credential exchange\<close>

record exchange_round =
  xr_sequence :: "u32 option"
  xr_fill_bundle :: "nat \<Rightarrow> bytes option"
  xr_fill_body :: "nat \<Rightarrow> bytes option"
  xr_execute :: "credential_request \<Rightarrow> bytes option"

definition exchange_credentials ::
  "(bytes \<Rightarrow> uid_envelope option) \<Rightarrow> qr_polling \<Rightarrow> qr_device \<Rightarrow> qr_login_secrets \<Rightarrow> exchange_round \<Rightarrow>
   (flow_state, qr_failure, credential_login) op" where
  "exchange_credentials uid_decode p device secrets x =
     bindS (liftS (ok_or EntropyFailed (xr_sequence x))) (\<lambda>sso_sequence.
     bindS take_sequence (\<lambda>wtlogin_sequence.
     bindS (liftS (map_err CredentialFailed (build_credential_exchange (xr_fill_bundle x) (xr_fill_body x)
       \<lparr>cc_profile = po_profile p, cc_device = device, cc_sso_sequence = sso_sequence,
        cc_wtlogin_sequence = wtlogin_sequence, cc_random_key = po_random_key p,
        cc_key_agreement = po_key_agreement p, cc_secrets = secrets\<rparr>))) (\<lambda>request.
     bindS (liftS (ok_or ExecuteFailed (xr_execute x request))) (\<lambda>payload.
     bindS (liftS (map_err CredentialFailed (decode_credential_exchange_response uid_decode payload
       \<lparr>cx_uin = cq_uin request, cx_key_agreement = po_key_agreement p, cx_tgtgt_key = qs_tgtgt_key secrets\<rparr>))) (\<lambda>outcome.
     case outcome of
       CredentialSuccess login \<Rightarrow> retS login
     | CredentialRejected rejection \<Rightarrow> failS (CredentialRefused rejection))))))"

text \<open>\<open>flow::run\<close> from the accepted artifact to the transition into \<open>Registering\<close>.\<close>

definition qr_login ::
  "(bytes \<Rightarrow> uid_envelope option) \<Rightarrow> qr_polling \<Rightarrow> qr_device \<Rightarrow> poll_round list \<Rightarrow> exchange_round \<Rightarrow>
   (flow_state, qr_failure, (qr_login_secrets \<times> credential_login) option) op" where
  "qr_login uid_decode p device rounds x =
     bindS (until_confirmed p rounds) (\<lambda>confirmed.
     case confirmed of
       None \<Rightarrow> retS None
     | Some secrets \<Rightarrow>
         bindS (exchange_credentials uid_decode p device secrets x) (\<lambda>credential.
         bindS (map_errS (QrFlowFailed \<circ> QrTransition) (on_machine (login_transition Registering))) (\<lambda>_.
         retS (Some (secrets, credential)))))"


section \<open>What a round proves\<close>

definition round_context :: "qr_polling \<Rightarrow> u64 \<Rightarrow> qr_response_context" where
  "round_context p issued_at_ms = \<lparr>rc_app_id = np_app_id (lp_spec (po_profile p)), rc_issued_at_ms = issued_at_ms,
     rc_random_key = po_random_key p, rc_key_agreement = po_key_agreement p\<rparr>"

text \<open>The round's request was built for this login and its answer decodes to the given response.\<close>

definition round_answers :: "qr_polling \<Rightarrow> u16 \<Rightarrow> poll_round \<Rightarrow> qr_poll_response \<Rightarrow> bool" where
  "round_answers p wtlogin_sequence r response \<longleftrightarrow>
     (\<exists>sso_sequence unix_seconds unsigned payload issued_at_ms.
        pr_sequence r = Some sso_sequence \<and> pr_seconds r = Some unix_seconds \<and> pr_issued_ms r = Some issued_at_ms \<and>
        build_qr_poll (pr_fill r)
          \<lparr>qp_profile = po_profile p, qp_sso_sequence = sso_sequence, qp_wtlogin_sequence = wtlogin_sequence,
           qp_unix_seconds = unix_seconds, qp_random_key = po_random_key p, qp_key_agreement = po_key_agreement p,
           qp_challenge = po_challenge p\<rparr> = Inr unsigned \<and>
        pr_execute r unsigned = Some payload \<and>
        decode_qr_poll_response payload (round_context p issued_at_ms) = Inr response)"

text \<open>
  A round that confirms: it ran before the expiry, and the identity the face service bound to this QR
  code is the confirmed account number as far as both fit 32 bits.
\<close>

definition round_confirms :: "qr_polling \<Rightarrow> u16 \<Rightarrow> poll_round \<Rightarrow> qr_login_secrets \<Rightarrow> bool" where
  "round_confirms p wtlogin_sequence r s \<longleftrightarrow>
     (\<exists>now. pr_timer r \<and> pr_now_ms r = Some now \<and> now < po_expires_at_ms p \<and>
        face_resolve (np_app_id (lp_spec (po_profile p))) (qc_query_signature (po_challenge p)) (pr_face r) =
          Inr (u32_try_from (qs_uin s)) \<and>
        round_answers p wtlogin_sequence r (PollConfirmed s))"

definition round_pends :: "qr_polling \<Rightarrow> u16 \<Rightarrow> poll_round \<Rightarrow> bool" where
  "round_pends p wtlogin_sequence r \<longleftrightarrow>
     round_answers p wtlogin_sequence r (PollState WaitingForScan) \<or>
     round_answers p wtlogin_sequence r (PollState WaitingForConfirmation)"

lemma poll_applied_Inr:
  "poll_applied r state (m, n) = (Inr e, (m', n')) \<Longrightarrow>
   n' = n \<and> lm_state m' = next_of_poll state \<and> is_allowed (lm_state m) (next_of_poll state)"
  by (auto simp: poll_applied_def on_machine_def apply_qr_poll_def transition_event_def login_transition_def
      bindS_def liftS_def map_errS_def retS_def map_err_def ok_or_def split: option.splits sum.splits prod.splits if_splits)

lemma poll_once_Inr:
  "poll_once p r (m, n) = (Inr response, (m', n')) \<Longrightarrow> m' = m \<and> n' = n + 1 \<and> round_answers p n r response"
  by (force simp: poll_once_def bindS_Inr liftS_def ok_or_Inr map_err_Inr take_sequence_def wtlogin_sequence_take_def
      round_answers_def round_context_def)

lemma poll_step_Inr:
  assumes "poll_step p r (m, n) = (Inr out, (m', n'))"
  shows "n' = n + 1 \<and> (case out of
      Some s \<Rightarrow> round_confirms p n r s \<and> lm_state m' = ExchangingCredentials \<and> is_waiting (lm_state m)
    | None \<Rightarrow> round_pends p n r \<and> is_waiting (lm_state m'))"
proof -
  from assms obtain now bound response m1 where now: "pr_timer r" "pr_now_ms r = Some now" "\<not> po_expires_at_ms p \<le> now"
    and bound: "face_resolve (np_app_id (lp_spec (po_profile p))) (qc_query_signature (po_challenge p)) (pr_face r) = Inr bound"
    and once: "poll_once p r (m, n) = (Inr response, m1)"
    and rest: "(case response of
            PollConfirmed secrets \<Rightarrow>
              if bound \<noteq> u32_try_from (qs_uin secrets) then failS IdentityMismatch
              else bindS (poll_applied r Confirmed) (\<lambda>_. retS (Some secrets))
          | PollState state \<Rightarrow>
              if state = Expired \<or> state = Canceled
              then bindS (poll_applied r state) (\<lambda>_. failS (QrEnded state))
              else bindS (poll_applied r state) (\<lambda>_. retS None)) m1 = (Inr out, (m', n'))"
    by (auto simp: poll_step_def bindS_Inr liftS_def ok_or_Inr guardE_Inr failS_def split: if_splits)
  obtain m2 n2 where "m1 = (m2, n2)" by (cases m1)
  with poll_once_Inr [OF once [unfolded this]] have m1: "m1 = (m, n + 1)" and ans: "round_answers p n r response" by simp_all
  show ?thesis
  proof (cases response)
    case (PollConfirmed s)
    with rest m1 obtain e where "bound = u32_try_from (qs_uin s)" "out = Some s"
      "poll_applied r Confirmed (m, n + 1) = (Inr e, (m', n'))"
      by (auto simp: bindS_Inr retS_def failS_def split: if_splits)
    with poll_applied_Inr [OF this(3)] now bound ans PollConfirmed show ?thesis
      by (auto simp: round_confirms_def is_allowed_def is_waiting_def not_le)
  next
    case (PollState state)
    with rest m1 obtain e where "state \<noteq> Expired" "state \<noteq> Canceled" "out = None"
      "poll_applied r state (m, n + 1) = (Inr e, (m', n'))"
      by (auto simp: bindS_Inr retS_def failS_def split: if_splits)
    moreover have "state \<noteq> Confirmed"
      using ans PollState by (auto simp: round_answers_def decode_qr_poll_response_Inr)
    ultimately show ?thesis
      using poll_applied_Inr [of r state m "n + 1" e m' n'] ans PollState
      by (cases state) (auto simp: round_pends_def is_waiting_def)
  qed
qed

lemma until_confirmed_Inr:
  "until_confirmed p rounds (m, n) = (Inr (Some s), (m', n')) \<Longrightarrow>
   \<exists>pre r post. rounds = pre @ r # post \<and> n' = n + of_nat (length pre) + 1 \<and>
     (\<forall>i < length pre. round_pends p (n + of_nat i) (pre ! i)) \<and>
     round_confirms p (n + of_nat (length pre)) r s \<and> lm_state m' = ExchangingCredentials"
proof (induction rounds arbitrary: m n)
  case Nil
  then show ?case by (simp add: retS_def)
next
  case (Cons r rs)
  then obtain out m1 n1 where step: "poll_step p r (m, n) = (Inr out, (m1, n1))"
    and rest: "(case out of Some secrets \<Rightarrow> retS (Some secrets) | None \<Rightarrow> until_confirmed p rs) (m1, n1) = (Inr (Some s), (m', n'))"
    by (auto simp: bindS_Inr)
  from poll_step_Inr [OF step] have s: "n1 = n + 1" "case out of
      Some s \<Rightarrow> round_confirms p n r s \<and> lm_state m1 = ExchangingCredentials \<and> is_waiting (lm_state m)
    | None \<Rightarrow> round_pends p n r \<and> is_waiting (lm_state m1)" by simp_all
  show ?case
  proof (cases out)
    case (Some t)
    with rest s show ?thesis
      by (intro exI [of _ "[]"] exI [of _ r] exI [of _ rs]) (auto simp: retS_def)
  next
    case None
    with rest have "until_confirmed p rs (m1, n1) = (Inr (Some s), (m', n'))" by simp
    from Cons.IH [OF this] obtain pre r' post where
      h: "rs = pre @ r' # post" "n' = n1 + of_nat (length pre) + 1"
        "\<forall>i < length pre. round_pends p (n1 + of_nat i) (pre ! i)"
        "round_confirms p (n1 + of_nat (length pre)) r' s" "lm_state m' = ExchangingCredentials" by blast
    have "\<forall>i < length (r # pre). round_pends p (n + of_nat i) ((r # pre) ! i)"
      using h(3) s None by (auto simp: nth_Cons less_Suc_eq_0_disj algebra_simps)
    with h s(1) show ?thesis
      by (intro exI [of _ "r # pre"] exI [of _ r'] exI [of _ post]) (auto simp: algebra_simps)
  qed
qed

text \<open>The context of the exchange's request.\<close>

definition exchange_context :: "qr_polling \<Rightarrow> qr_device \<Rightarrow> qr_login_secrets \<Rightarrow> u32 \<Rightarrow> u16 \<Rightarrow> credential_context" where
  "exchange_context p device s sso_sequence wtlogin_sequence =
     \<lparr>cc_profile = po_profile p, cc_device = device, cc_sso_sequence = sso_sequence,
      cc_wtlogin_sequence = wtlogin_sequence, cc_random_key = po_random_key p,
      cc_key_agreement = po_key_agreement p, cc_secrets = s\<rparr>"

lemma exchange_credentials_Inr:
  assumes "exchange_credentials uid_decode p device s x (m, n) = (Inr l, st)"
  shows "st = (m, n + 1) \<and> (\<exists>sso_sequence request payload.
     xr_sequence x = Some sso_sequence \<and>
     build_credential_exchange (xr_fill_bundle x) (xr_fill_body x) (exchange_context p device s sso_sequence n) = Inr request \<and>
     xr_execute x request = Some payload \<and>
     decode_credential_exchange_response uid_decode payload
       \<lparr>cx_uin = cq_uin request, cx_key_agreement = po_key_agreement p, cx_tgtgt_key = qs_tgtgt_key s\<rparr> =
       Inr (CredentialSuccess l))"
proof -
  from assms obtain sso_sequence request payload outcome where
    h: "xr_sequence x = Some sso_sequence"
      "build_credential_exchange (xr_fill_bundle x) (xr_fill_body x) (exchange_context p device s sso_sequence n) = Inr request"
      "xr_execute x request = Some payload"
      "decode_credential_exchange_response uid_decode payload
       \<lparr>cx_uin = cq_uin request, cx_key_agreement = po_key_agreement p, cx_tgtgt_key = qs_tgtgt_key s\<rparr> = Inr outcome"
    and o: "(case outcome of CredentialSuccess login \<Rightarrow> retS login
      | CredentialRejected rejection \<Rightarrow> failS (CredentialRefused rejection)) (m, n + 1) = (Inr l, st)"
    by (auto simp: exchange_credentials_def bindS_Inr liftS_def ok_or_Inr map_err_Inr take_sequence_def
        wtlogin_sequence_take_def exchange_context_def)
  from o have "outcome = CredentialSuccess l" "st = (m, n + 1)"
    by (auto simp: retS_def failS_def split: credential_outcome.splits)
  with h show ?thesis by blast
qed

section \<open>Properties\<close>

text \<open>
  C3: A login hands over a session only for the account that scanned this QR code. Whatever the
  rounds and the answers, if the flow returns secrets and a login, then all rounds before the last one
  were waiting for the user, the last one ran before the QR code expired and its response, to a request
  built for this login, was the confirmation with these secrets; the face service had bound exactly
  this account number to the QR code; the login came from the answer to the one request the exchange
  sent, which is for this account, carries the entries of this profile, device and confirmation and
  opens under its TGTGT key; its material makes an authenticated session of the account with a 16-byte
  key; the polls and the exchange were sent under consecutive sequence numbers; and the machine is
  registering, which it reaches only from a waiting state.
\<close>

theorem qr_login_bound:
  assumes "qr_login uid_decode p device rounds x (m, n) = (Inr (Some (s, l)), (m', n'))"
  shows "\<exists>pre r post uin sso_sequence request payload.
     rounds = pre @ r # post \<and> n' = n + of_nat (length pre) + 2 \<and>
     (\<forall>i < length pre. round_pends p (n + of_nat i) (pre ! i)) \<and>
     round_confirms p (n + of_nat (length pre)) r s \<and>
     pr_face r = Some (0, uin) \<and> uin \<noteq> 0 \<and> unat (qs_uin s) = unat uin \<and>
     xr_sequence x = Some sso_sequence \<and> sso_sequence \<noteq> 0 \<and>
     build_credential_exchange (xr_fill_bundle x) (xr_fill_body x)
       (exchange_context p device s sso_sequence (n + of_nat (length pre) + 1)) = Inr request \<and>
     cq_sequence request = sso_sequence \<and> cq_uin request = uin \<and>
     credential_request_carries (exchange_context p device s sso_sequence (n + of_nat (length pre) + 1)) uin
       (cq_payload request) \<and>
     xr_execute x request = Some payload \<and>
     decode_credential_exchange_response uid_decode payload
       \<lparr>cx_uin = uin, cx_key_agreement = po_key_agreement p, cx_tgtgt_key = qs_tgtgt_key s\<rparr> = Inr (CredentialSuccess l) \<and>
     session_authenticated uin (cs_tgt (cl_secrets l)) (cs_d2 (cl_secrets l)) (cs_d2_key (cl_secrets l)) =
       Inr (Authenticated uin (cs_tgt (cl_secrets l)) (cs_d2 (cl_secrets l)) (cs_d2_key (cl_secrets l))) \<and>
     tea_key_ok (cs_d2_key (cl_secrets l)) \<and> lm_state m' = Registering"
proof -
  from assms obtain m1 n1 m2 n2 prev where u: "until_confirmed p rounds (m, n) = (Inr (Some s), (m1, n1))"
    and e: "exchange_credentials uid_decode p device s x (m1, n1) = (Inr l, (m2, n2))"
    and t: "map_errS (QrFlowFailed \<circ> QrTransition) (on_machine (login_transition Registering)) (m2, n2) = (Inr prev, (m', n'))"
    by (auto simp: qr_login_def bindS_Inr retS_def split: option.splits)
  from until_confirmed_Inr [OF u] obtain pre r post where
    pre: "rounds = pre @ r # post" "n1 = n + of_nat (length pre) + 1" "\<forall>i < length pre. round_pends p (n + of_nat i) (pre ! i)"
    and r: "round_confirms p (n + of_nat (length pre)) r s" and m1: "lm_state m1 = ExchangingCredentials" by blast
  from exchange_credentials_Inr [OF e] obtain sso_sequence request payload where
    st: "n2 = n1 + 1" and x: "xr_sequence x = Some sso_sequence" "xr_execute x request = Some payload" and
    b: "build_credential_exchange (xr_fill_bundle x) (xr_fill_body x) (exchange_context p device s sso_sequence n1) = Inr request"
    and d: "decode_credential_exchange_response uid_decode payload
       \<lparr>cx_uin = cq_uin request, cx_key_agreement = po_key_agreement p, cx_tgtgt_key = qs_tgtgt_key s\<rparr> =
       Inr (CredentialSuccess l)" by blast
  from credential_request_carried [OF b] have q: "cq_sequence request = sso_sequence" "sso_sequence \<noteq> 0"
    "unat (cq_uin request) = unat (qs_uin s)" "cq_uin request \<noteq> 0"
    "credential_request_carries (exchange_context p device s sso_sequence n1) (cq_uin request) (cq_payload request)"
    by (auto simp: exchange_context_def)
  have "u32_try_from (qs_uin s) = Some (cq_uin request)" using q(3) by (simp add: u32_try_from_Some)
  then have face: "pr_face r = Some (0, cq_uin request)"
    using r by (auto simp: round_confirms_def face_resolve_def split: if_splits option.splits)
  from d obtain nested where "login_in uid_decode nested l"
    unfolding decode_credential_success_Inr by blast
  then have "cs_tgt (cl_secrets l) \<noteq> []" "cs_d2 (cl_secrets l) \<noteq> []" "length (cs_d2_key (cl_secrets l)) = 16"
    by (auto simp: login_in_def)
  moreover have "n' = n2" "lm_state m' = Registering"
    using t by (auto simp: map_errS_Inr on_machine_def login_transition_def split: if_splits)
  ultimately show ?thesis
    using pre r face q d st x b
    by (intro exI [of _ pre] exI [of _ r] exI [of _ post] exI [of _ "cq_uin request"] exI [of _ sso_sequence]
        exI [of _ request] exI [of _ payload])
      (simp add: session_authenticated_def tea_key_ok_def)
qed


text \<open>A run of the whole flow: one round, confirmed at once.\<close>

definition demo_polling :: qr_polling where
  "demo_polling = \<lparr>po_profile = demo_login_profile, po_random_key = replicate 16 4, po_key_agreement = demo_agreement,
     po_challenge = \<lparr>qc_poll_signature = [1, 2], qc_query_signature = [0x71]\<rparr>, po_expires_at_ms = 1000\<rparr>"

definition demo_round :: "bytes \<Rightarrow> poll_round" where
  "demo_round payload = \<lparr>pr_timer = True, pr_now_ms = Some 10, pr_event_ms = Some 11, pr_face = Some (0, 12345),
     pr_sequence = Some 2, pr_seconds = Some 1001, pr_fill = (\<lambda>n. Some (replicate n 5)), pr_execute = (\<lambda>_. Some payload),
     pr_issued_ms = Some 10\<rparr>"

definition demo_exchange :: "bytes \<Rightarrow> exchange_round" where
  "demo_exchange payload = \<lparr>xr_sequence = Some 3, xr_fill_bundle = (\<lambda>n. Some (replicate n 5)),
     xr_fill_body = (\<lambda>n. Some (replicate n 5)), xr_execute = (\<lambda>_. Some payload)\<rparr>"

definition demo_uid_decode :: "bytes \<Rightarrow> uid_envelope option" where
  "demo_uid_decode body = Some \<lparr>u0_layer_one = Some \<lparr>u1_layer_two = Some \<lparr>u2_uid = [0x75]\<rparr>\<rparr>\<rparr>"

definition demo_login :: credential_login where
  "demo_login = \<lparr>cl_uid = [0x75], cl_nickname = [0x61], cl_age = 20, cl_gender = 1,
     cl_secrets = \<lparr>cs_d2_key = replicate 16 1, cs_tgt = [1], cs_d2 = [2], cs_temporary_password = [3]\<rparr>\<rparr>"

definition demo_poll_entries :: "tlv list" where
  "demo_poll_entries = [(0x01e, replicate 16 7), (0x018, [1, 2]), (0x019, [3])]"

definition demo_login_entries :: "tlv list" where
  "demo_login_entries = [(0x11a, profile_layout 0 20 1 [0x61]), (0x543, []), (0x305, replicate 16 1), (0x10a, [1]),
     (0x143, [2]), (0x106, [3])]"

lemma encrypt_decrypts_demo:
  assumes "length plain \<le> n" "n \<le> 60000"
  obtains ct where "decrypt_qq_tea ct key = Inr plain" "length ct \<le> n + 17"
proof -
  have "length plain \<le> 60000" using assms by simp
  then obtain ct where "encrypt_qq_tea (\<lambda>n. Some (replicate n 5)) plain key = Inr ct" "length ct \<le> length plain + 17"
    using encrypt_succeeds by blast
  with assms show thesis by (intro that [of ct]) (auto intro: encrypt_qq_tea_decrypts)
qed

lemma demo_poll_reply:
  "\<exists>payload. decode_qr_poll_response payload (round_context demo_polling 10) = Inr (PollConfirmed demo_secrets)"
proof -
  let ?body = "to_be 2 (0 :: u16) @ to_be 4 (7 :: u32) @ 0 # to_be 8 (12345 :: u64) @ to_be 4 (0 :: i32) @ tlv_layout demo_poll_entries"
  let ?code2d = "code2d_layout 0 0 (transaction_layout QR_POLL_COMMAND (replicate 21 0) ?body)"
  have small: "length ?code2d \<le> 1000" by (simp add: code2d_layout_def transaction_layout_def tlv_layout_def demo_poll_entries_def)
  obtain ct where ct: "decrypt_qq_tea ct (ka_tea_key demo_agreement) = Inr ?code2d" "length ct \<le> 1000 + 17"
    by (rule encrypt_decrypts_demo [OF small]) (simp, erule (1) that)
  let ?payload = "wtlogin_reply_of (length ct + 17) 0 0 0 0 ct"
  have len: "length ?payload = length ct + 17" by (simp add: wtlogin_reply_of_def)
  have plain: "reply_plaintext (round_context demo_polling 10) 0 0 ct ?code2d"
    using ct(1) by (simp add: reply_plaintext_def round_context_def demo_polling_def)
  have "length ?body \<le> 500" by (simp add: tlv_layout_def demo_poll_entries_def)
  then have reply: "qr_reply (round_context demo_polling 10) QR_POLL_COMMAND ?payload ?body"
    unfolding qr_reply_def len using plain ct(2)
    by (intro exI [of _ 0] exI [of _ ct] exI [of _ "replicate 21 0"] conjI refl) simp_all
  have ts: "tlv_collection_ok demo_poll_entries" "secrets_in demo_poll_entries (qs_uin demo_secrets) demo_secrets"
    by (simp_all add: tlv_collection_ok_def demo_poll_entries_def secrets_in_def demo_secrets_def MAX_TLV_COUNT_def MAX_TLV_LEN_def)
  have app: "rc_app_id (round_context demo_polling 10) = 7" and uin: "qs_uin demo_secrets = 12345"
    by (simp_all add: round_context_def demo_polling_def demo_login_profile_def demo_secrets_def)
  have "decode_qr_poll_response ?payload (round_context demo_polling 10) = Inr (PollConfirmed demo_secrets)"
    unfolding decode_qr_poll_response_Inr qr_poll_response.case app uin
    using reply ts by (intro exI [of _ ?body] exI [of _ "[]"] conjI exI [of _ "0 # to_be 8 (12345 :: u64) @ to_be 4 (0 :: i32) @ tlv_layout demo_poll_entries"]
        exI [of _ "0 :: i32"] exI [of _ demo_poll_entries] refl) (simp_all add: uin)
  then show ?thesis by blast
qed

lemma demo_login_reply:
  "\<exists>payload. decode_credential_exchange_response demo_uid_decode payload
     \<lparr>cx_uin = 12345, cx_key_agreement = demo_agreement, cx_tgtgt_key = replicate 16 7\<rparr> = Inr (CredentialSuccess demo_login)"
proof -
  have small: "length (tlv_layout demo_login_entries) \<le> 1000" by (simp add: tlv_layout_def demo_login_entries_def profile_layout_def)
  obtain sealed where sealed: "decrypt_qq_tea sealed (replicate 16 7) = Inr (tlv_layout demo_login_entries)" "length sealed \<le> 1000 + 17"
    by (rule encrypt_decrypts_demo [OF small]) (simp, erule (1) that)
  let ?body = "to_be 2 INTERNAL_COMMAND @ [0] @ tlv_layout [(0x119, sealed)]"
  have small': "length ?body \<le> 3000" using sealed(2) by (simp add: tlv_layout_def)
  obtain ct where ct: "decrypt_qq_tea ct (ka_tea_key demo_agreement) = Inr ?body" "length ct \<le> 3000 + 17"
    by (rule encrypt_decrypts_demo [OF small']) (simp, erule (1) that)
  let ?payload = "login_reply_of (length ct + 17) 12345 0 0 0 ct"
  have len: "length ?payload = length ct + 17" by (simp add: login_reply_of_def)
  have outer: "tlv_collection_ok [(0x119, sealed)]" and nested: "tlv_collection_ok demo_login_entries"
    using sealed(2) by (simp_all add: tlv_collection_ok_def demo_login_entries_def MAX_TLV_COUNT_def MAX_TLV_LEN_def profile_layout_def)
  have l: "login_in demo_uid_decode demo_login_entries demo_login"
    by (auto simp: login_in_def demo_login_def demo_login_entries_def uid_in_def demo_uid_decode_def MAX_NOTICE_LEN_def
        utf8_valid_ascii)
  have "decode_credential_exchange_response demo_uid_decode ?payload
     \<lparr>cx_uin = 12345, cx_key_agreement = demo_agreement, cx_tgtgt_key = replicate 16 7\<rparr> = Inr (CredentialSuccess demo_login)"
    unfolding decode_credential_success_Inr len using ct sealed outer nested l
    by (intro conjI exI [of _ 0] exI [of _ ct] exI [of _ "[(0x119, sealed)]"] exI [of _ sealed] exI [of _ demo_login_entries]) simp_all
  then show ?thesis by blast
qed


theorem qr_login_bound_witness:
  "\<exists>poll_payload login_payload pre r post request.
     qr_login demo_uid_decode demo_polling demo_qr_device [demo_round poll_payload] (demo_exchange login_payload)
       (\<lparr>lm_state = AwaitingScan\<rparr>, 1) = (Inr (Some (demo_secrets, demo_login)), (\<lparr>lm_state = Registering\<rparr>, 3)) \<and>
     [demo_round poll_payload] = pre @ r # post \<and>
     round_confirms demo_polling (1 + of_nat (length pre)) r demo_secrets \<and>
     cq_sequence request = 3 \<and> xr_execute (demo_exchange login_payload) request = Some login_payload \<and>
     credential_request_carries (exchange_context demo_polling demo_qr_device demo_secrets 3 2) (cq_uin request)
       (cq_payload request)"
proof -
  obtain pp where pp: "decode_qr_poll_response pp (round_context demo_polling 10) = Inr (PollConfirmed demo_secrets)"
    using demo_poll_reply by blast
  obtain lp where lp: "decode_credential_exchange_response demo_uid_decode lp
     \<lparr>cx_uin = 12345, cx_key_agreement = demo_agreement, cx_tgtgt_key = replicate 16 7\<rparr> = Inr (CredentialSuccess demo_login)"
    using demo_login_reply by blast
  let ?m = "\<lparr>lm_state = AwaitingScan\<rparr>" and ?m' = "\<lparr>lm_state = ExchangingCredentials\<rparr>"
  have pctx: "\<lparr>qp_profile = po_profile demo_polling, qp_sso_sequence = 2, qp_wtlogin_sequence = 1, qp_unix_seconds = 1001,
      qp_random_key = po_random_key demo_polling, qp_key_agreement = po_key_agreement demo_polling,
      qp_challenge = po_challenge demo_polling\<rparr> = demo_poll"
    by (simp add: demo_polling_def demo_poll_def)
  obtain q where q: "build_qr_poll (\<lambda>n. Some (replicate n 5)) demo_poll = Inr q"
    using demo_poll_builds by blast
  have once: "poll_once demo_polling (demo_round pp) (?m, 1) = (Inr (PollConfirmed demo_secrets), (?m, 2))"
    using q pp [unfolded round_context_def]
    by (simp add: poll_once_def demo_round_def bindS_def liftS_def take_sequence_def wtlogin_sequence_take_def pctx)
  have face: "face_resolve (np_app_id (lp_spec (po_profile demo_polling))) (qc_query_signature (po_challenge demo_polling))
      (pr_face (demo_round pp)) = Inr (u32_try_from (qs_uin demo_secrets))"
    by (simp add: face_resolve_def demo_polling_def demo_login_profile_def demo_round_def demo_secrets_def u32_try_from_def)
  have applied: "poll_applied (demo_round pp) Confirmed (?m, 2) = (Inr (QrStateChanged 11 AwaitingScan ExchangingCredentials), (?m', 2))"
    by (simp add: poll_applied_def demo_round_def bindS_def liftS_def map_errS_def on_machine_def apply_qr_poll_def
        transition_event_def login_transition_def is_allowed_def retS_def)
  have step: "poll_step demo_polling (demo_round pp) (?m, 1) = (Inr (Some demo_secrets), (?m', 2))"
    unfolding poll_step_def face using once applied
    by (simp add: bindS_def liftS_def demo_round_def demo_polling_def retS_def)
  obtain r where r: "build_credential_exchange (\<lambda>n. Some (replicate n 5)) (\<lambda>n. Some (replicate n 5)) demo_credential = Inr r"
    "cq_uin r = 12345" using demo_credential_builds by blast
  have cctx: "\<lparr>cc_profile = po_profile demo_polling, cc_device = demo_qr_device, cc_sso_sequence = 3,
        cc_wtlogin_sequence = 2, cc_random_key = po_random_key demo_polling,
        cc_key_agreement = po_key_agreement demo_polling, cc_secrets = demo_secrets\<rparr> = demo_credential"
    by (simp add: demo_polling_def demo_credential_def)
  have keys: "qs_tgtgt_key demo_secrets = replicate 16 7" "po_key_agreement demo_polling = demo_agreement"
    by (simp_all add: demo_secrets_def demo_polling_def)
  have exch: "exchange_credentials demo_uid_decode demo_polling demo_qr_device demo_secrets (demo_exchange lp) (?m', 2) =
      (Inr demo_login, (?m', 3))"
    unfolding exchange_credentials_def
    using r lp cctx keys by (simp add: bindS_def liftS_def demo_exchange_def take_sequence_def wtlogin_sequence_take_def retS_def)
  have run: "qr_login demo_uid_decode demo_polling demo_qr_device [demo_round pp] (demo_exchange lp) (?m, 1) =
      (Inr (Some (demo_secrets, demo_login)), (\<lparr>lm_state = Registering\<rparr>, 3))"
    using step exch by (simp add: qr_login_def bindS_def retS_def map_errS_def on_machine_def login_transition_def is_allowed_def)
  from qr_login_bound [OF run] obtain pre r' post sso_sequence request payload where
    h: "[demo_round pp] = pre @ r' # post" "round_confirms demo_polling (1 + of_nat (length pre)) r' demo_secrets"
      "xr_sequence (demo_exchange lp) = Some sso_sequence" "cq_sequence request = sso_sequence"
      "credential_request_carries (exchange_context demo_polling demo_qr_device demo_secrets sso_sequence
         (1 + of_nat (length pre) + 1)) (cq_uin request) (cq_payload request)"
      "xr_execute (demo_exchange lp) request = Some payload"
    by blast
  from h(1) have "pre = []" by (cases pre) simp_all
  with h have "cq_sequence request = 3" "xr_execute (demo_exchange lp) request = Some lp"
    "credential_request_carries (exchange_context demo_polling demo_qr_device demo_secrets 3 2) (cq_uin request) (cq_payload request)"
    by (simp_all add: demo_exchange_def)
  with run h(1,2) show ?thesis by blast
qed

end
