(* ===== verification/Spec2Isabelle.thy ===== *)
theory Spec2Isabelle
  imports Prelude Rust_Str Btree Wire Tea Transport Envelope Session Marked Online Account Grants Supervisor Device
    Ceylith_Frame Ceylith_Scan Ceylith_Proto Ceylith_Opaque Ceylith_Admission Ceylith_Inner Ceylith_Channel Ceylith_Client
    Notify_Event Outbox Notify_Runtime Highway Control_Routes Codec Profile Profile_Plans
    Login_Flow
begin

text \<open>
  Lirvena is a self-hosted QQ client: one process (\<open>bins/lirvena\<close>) keeps the accounts of an installation
  online, asks the Ceylith service to sign what it sends, and serves bot frameworks. Its crates are
  modelled here from the bytes on the wire up to the login flow of the process. Paths are relative to
  \<open>src/crates\<close> unless they start with \<open>bins\<close>.

  \<^bold>\<open>How the parts interact.\<close> \<open>qq-wire\<close> reads and writes bounded big-endian fields; every packet format
  below uses it. \<open>qq-transport\<close> cuts the TCP stream into frames, \<open>qq-envelope\<close> encrypts and lays out SSO
  packets inside them and attaches the account identity to the signed reserve, and \<open>qq-session\<close> pairs
  requests with responses over that. \<open>qq-profile\<close> and \<open>qq-domain\<close> hold the signed profile, the plans in
  its slots, the device and the login and online machines. \<open>qq-login\<close> builds the QR and credential
  packets; \<open>bins/lirvena/src/qr\<close> runs them to a login. \<open>account-runtime\<close> journals every account's
  lifecycle through one writer per database and plans the grants. \<open>ceylith-protocol\<close>, \<open>ceylith-crypto\<close>
  and \<open>ceylith-client\<close> are the channel to the signing service. \<open>qq-control\<close> and \<open>qq-highway\<close> are
  the actions on a session and the object upload, \<open>notify-runtime\<close> the durable notifications.

  \<^bold>\<open>Shared theories.\<close>
  \<^item> \<open>Prelude\<close>: words for the machine integers, results as sums with \<open>Inl\<close> the error, \<open>&mut\<close> state as state
    passing (\<open>op\<close>), the locales \<open>machine\<close> (an invariant kept by every step of a run) and
    \<open>monotone_machine\<close>, and the simplification collections. \<open>Rust_Str\<close>, \<open>Rust_Net\<close>, \<open>Btree\<close>: the UTF-8
    strings, address syntax and ordered maps of the Rust standard library as far as the sources use them
    (locale \<open>ordered_map\<close>).
  \<^item> \<open>Wire\<close> (\<open>qq-wire/src/reader.rs\<close>, \<open>writer.rs\<close>): every operation, with two calculi on top: \<open>emits\<close>
    gives the exact bytes and the exact success condition of a writer program, \<open>accepts\<close> and
    \<open>field_form\<close> the exact inputs of a reader program; locale \<open>field_codec\<close>, interpreted for each field.
    \<open>Codec\<close> lifts both to whole signed formats (locale \<open>signed_codec\<close>). \<open>Oidb\<close>
    (\<open>qq-wire/src/oidb.rs\<close>): protobuf messages as field lists and the generic envelope.

  \<^bold>\<open>QQ wire stack.\<close>
  \<^item> \<open>Tea\<close> (\<open>qq-envelope/src/tea\<close>): block function, chaining, padding; the round trip rests on the locale
    \<open>block_cipher\<close>, whose instance is the code's block function.
  \<^item> \<open>Transport\<close> (\<open>qq-transport\<close>): the resumable reader; over any history of timeouts and failures nothing
    of the stream is lost, and a refused length is terminal.
  \<^item> \<open>Envelope\<close>, \<open>Marked\<close> (\<open>qq-envelope/src/transport\<close>, \<open>marked.rs\<close>): encoders and decoders with their
    exact formats, and the ordered insertion of the identity into an encoded message.
  \<^item> \<open>Session\<close> (\<open>qq-session\<close>): exchange, idle reads and the bounded push queue.

  \<^bold>\<open>Profiles, machines, accounts.\<close>
  \<^item> \<open>Profile\<close>, \<open>Profile_Plans\<close> (\<open>qq-profile\<close>): manifests and plans have one spelling each.
  \<^item> \<open>Device\<close>, \<open>Online\<close> (\<open>qq-domain\<close>): the canonical device snapshot; the online machine reaches its
    online states only through the startup the plan demands; the login machine.
  \<^item> \<open>Account\<close>, \<open>Supervisor\<close>, \<open>Grants\<close> (\<open>account-runtime\<close>): the rows of the SQLite database with an outcome
    for every query, schema change and transaction; the journal is a run of the lifecycle automaton
    (\<open>replays\<close>, an inductive relation); the actor refines the sequential run of its accepted commands under
    every schedule, and its commits are in its file at once, whatever fails and whenever the process dies.

  \<^bold>\<open>Login.\<close>
  \<^item> \<open>Login_Tlv\<close>, \<open>Login_Packet\<close>, \<open>Login_Qr\<close>, \<open>Login_Credential\<close> (\<open>qq-login\<close>): requests decrypt to exactly
    what their context says, and responses that yield credentials have exactly one shape.
  \<^item> \<open>Login_Flow\<close> (\<open>bins/lirvena/src/qr\<close>): the polling loop over the rounds it sees, the exchange and the
    login machine; a login is bound to the account that scanned the code.

  \<^bold>\<open>Ceylith.\<close>
  \<^item> \<open>Ceylith_Frame\<close>, \<open>Ceylith_Scan\<close>, \<open>Ceylith_Proto\<close>, \<open>Ceylith_Opaque\<close>, \<open>Ceylith_Admission\<close>,
    \<open>Ceylith_Inner\<close> (\<open>ceylith-protocol\<close> and \<open>src/schemas/ceylith/v2.proto\<close>): frames, the scan before
    decoding, the messages, slots and binding digests, admissions, and the validation of every body.
  \<^item> \<open>Ceylith_Channel\<close>, \<open>Ceylith_Client\<close> (\<open>ceylith-crypto\<close>, \<open>ceylith-client\<close>): the counter-bound
    session stops at the first refusal and delivers in order; requests pass the peer's validation.

  \<^bold>\<open>Notifications, upload, control.\<close>
  \<^item> \<open>Notify_Event\<close>, \<open>Outbox\<close>, \<open>Notify_Runtime\<close> (\<open>notify-runtime\<close>): the two tables, the sweeps with their
    retries, the worker and the adapters; retrying ends and its failures are bounded.
  \<^item> \<open>Highway\<close> (\<open>qq-highway\<close>): upload frames and the sequential upload with its fallback of endpoints.
  \<^item> \<open>Control\<close>, \<open>Control_Media\<close>, \<open>Control_File\<close>, \<open>Group_File\<close> (\<open>qq-control\<close>): every request builder and
    response parser; \<open>Control_Routes\<close> proves that the route of every OIDB request names the command in its
    body, and the authority of the URLs handed on.

  \<^bold>\<open>Parameters and their laws.\<close> Code outside the repository is an argument of the definitions that use
  it. The byte stream of tokio may deliver any part of what is pending, stall or fail; only liveness
  properties assume that it delivers. Entropy (\<open>fill\<close>) returns that many bytes or fails. SHA-256,
  MD5, HMAC, Ed25519 and the Noise cipher state are functions; the channel that delivers assumes of
  the cipher that opening inverts sealing under the same counter. The protobuf codec derived by prost
  is an encoder and a decoder; where a round trip through it is claimed the law \<open>oidb_law\<close> or its
  analogue states it as a hypothesis. SQLite reports an outcome for every query, begin
  and commit the sources make, and a failed transaction changes nothing. HTTP, mail, URL, header and JSON libraries, the QR matrix renderer, the
  key agreement, clocks and timers are inputs of the step that consults them.

  \<^bold>\<open>Bounds and fuel.\<close> Lengths are natural numbers below the limits of the sources, which are definitions
  with the sources' names; where a sum is checked (\<open>checked_add\<close>, \<open>u16::try_from\<close>) the model checks it,
  and where words wrap they wrap. The loops of the sources that consume a buffer recurse on it or on a
  count read from it and terminate by proof. Loops that wait for the network (frame reading, exchange,
  QR polling, the workers) recurse on the list of events they are given, so a run is any finite
  prefix; the liveness properties give the events that suffice.

  \<^bold>\<open>Not modelled.\<close> \<open>Display\<close> and \<open>Debug\<close> texts, zeroization and accessors that only return a field.
  Opening sockets, files and databases; tokio tasks and channels around the modelled loops
  (\<open>ceylith-client/src/tcp.rs\<close>, \<open>installation.rs\<close>); the Noise handshake, key types and OpenSSL key agreement,
  whose logic is in those libraries; \<open>local-state\<close>. \<open>qq-message\<close>, \<open>qq-media\<close>, \<open>qq-directory\<close>,
  \<open>qq-online\<close> are field-by-field projections of large protobuf and JCE messages, \<open>adapter-onebot\<close> and
  \<open>account-api\<close> JSON shapes and network tasks; these, \<open>account-message-store\<close>,
  \<open>community-telemetry\<close>, and the configuration, daemon and online runtime of \<open>bins/lirvena\<close>
  were not reached.
\<close>

end
